(* ===== verification/Prelude.thy ===== *)
theory Prelude
  imports Main "HOL-Library.AList" "HOL-Library.Multiset" "HOL-Library.Log_Nat"
    "HOL-Library.List_Lexorder" "HOL-Library.Char_ord"
begin

text \<open>
  The base of the development: what the Go language itself gives the code that is modelled.

  \<^item> \<open>int64\<close> arithmetic: Go integers of type \<^verbatim>\<open>int64\<close>, \<^verbatim>\<open>int\<close> (64 bit) and
    \<^verbatim>\<open>time.Duration\<close> are HOL integers with the two's complement wrap-around written out
    (\<open>wrap64\<close>), and Go's division, which truncates towards zero.
  \<^item> Go maps are association lists with distinct keys (\<open>gmap\<close>). The order of the list is the
    order in which a \<^verbatim>\<open>range\<close> loop happens to visit the entries; theorems quantify over every
    list, so over every such order.
  \<^item> instants (\<^verbatim>\<open>time.Time\<close>) are nanoseconds since the zero time, so \<^verbatim>\<open>IsZero\<close> is
    a comparison with 0, and \<^verbatim>\<open>Sub\<close> saturates as the library's does.
  \<^item> errors are a datatype; a Go panic is one of its values, so that a crash is visible in
    the result of the definition that can crash.
  \<^item> \<^verbatim>\<open>sort.Slice\<close> is an insertion sort with the comparison the source passes (\<open>sort_less\<close>).
\<close>

named_theorems go_simps \<open>evaluation rules for the Go primitives\<close>

subsection \<open>Errors\<close>

text \<open>
  The error values the modelled code compares against, and the texts it builds.
  \<open>Panic\<close> stands for a run-time panic (nil dereference, index out of range).
\<close>

datatype error =
    ErrNotFound
  | ErrResourceUnavailable
  | ErrResourceUnauthorized
  | ErrPartiallyExecuted
  | ErrMandatoryIeMissing "string list"
  | ErrMsg string
  | Panic string

subsection \<open>64 bit integers\<close>

type_synonym duration = int

definition wrap64 :: "int \<Rightarrow> int" where
  "wrap64 x = (x + 2 ^ 63) mod 2 ^ 64 - 2 ^ 63"

definition is_int64 :: "int \<Rightarrow> bool" where
  "is_int64 x \<longleftrightarrow> - (2 ^ 63) \<le> x \<and> x < 2 ^ 63"

definition quot64 :: "int \<Rightarrow> int \<Rightarrow> int" where
  "quot64 a b = wrap64 (sgn a * sgn b * (\<bar>a\<bar> div \<bar>b\<bar>))"

lemma wrap64_id [simp]: "is_int64 x \<Longrightarrow> wrap64 x = x"
  by (simp add: wrap64_def is_int64_def)

lemma is_int64_wrap64 [simp]: "is_int64 (wrap64 x)"
proof -
  have "0 \<le> (x + 2 ^ 63) mod 2 ^ 64" "(x + 2 ^ 63) mod 2 ^ 64 < 2 ^ 64"
    by simp_all
  then show ?thesis by (simp add: wrap64_def is_int64_def)
qed

lemma wrap64_bounds: "- (2 ^ 63) \<le> wrap64 x" "wrap64 x < 2 ^ 63"
  using is_int64_wrap64 [of x] by (simp_all add: is_int64_def)

lemma wrap64_add_left [simp]: "wrap64 (wrap64 a + b) = wrap64 (a + b)"
proof -
  have "(wrap64 a + b + 2 ^ 63) mod 2 ^ 64 = ((a + 2 ^ 63) mod 2 ^ 64 + b) mod 2 ^ 64"
    by (simp add: wrap64_def algebra_simps)
  also have "\<dots> = (a + 2 ^ 63 + b) mod 2 ^ 64" by (rule mod_add_left_eq)
  finally show ?thesis by (simp add: wrap64_def algebra_simps)
qed

lemma wrap64_add_right [simp]: "wrap64 (a + wrap64 b) = wrap64 (a + b)"
  using wrap64_add_left [of b a] by (simp add: add.commute)

lemma wrap64_diff_left [simp]: "wrap64 (wrap64 a - b) = wrap64 (a - b)"
  using wrap64_add_left [of a "- b"] by simp

lemma wrap64_diff_right [simp]: "wrap64 (a - wrap64 b) = wrap64 (a - b)"
proof -
  have "wrap64 (a - wrap64 b) = wrap64 (wrap64 (wrap64 b + (a - wrap64 b - b)))"
    by (simp only: wrap64_add_left) simp
  also have "\<dots> = wrap64 (a - b)" by simp
  finally show ?thesis .
qed

subsection \<open>Instants\<close>

type_synonym gotime = int

definition IsZero :: "gotime \<Rightarrow> bool" where
  "IsZero t \<longleftrightarrow> t = 0"

text \<open>\<^verbatim>\<open>time.Sub\<close> returns the difference, clamped to the range of \<^verbatim>\<open>time.Duration\<close>.\<close>

definition time_Sub :: "gotime \<Rightarrow> gotime \<Rightarrow> duration" where
  "time_Sub t u = max (- (2 ^ 63)) (min (2 ^ 63 - 1) (t - u))"

definition time_Add :: "gotime \<Rightarrow> duration \<Rightarrow> gotime" where
  "time_Add t d = t + d"

lemma time_Sub_pos_iff [simp]: "0 < time_Sub t u \<longleftrightarrow> u < t"
  by (auto simp: time_Sub_def max_def min_def)

lemma time_Sub_exact: "is_int64 (t - u) \<Longrightarrow> time_Sub t u = t - u"
  by (auto simp: time_Sub_def is_int64_def max_def min_def)

subsection \<open>Maps\<close>

type_synonym ('k, 'v) gmap = "('k \<times> 'v) list"

abbreviation gmap_ok :: "('k, 'v) gmap \<Rightarrow> bool" where
  "gmap_ok m \<equiv> distinct (map fst m)"

abbreviation gget :: "('k, 'v) gmap \<Rightarrow> 'k \<Rightarrow> 'v option" where
  "gget m k \<equiv> map_of m k"

abbreviation gset :: "('k, 'v) gmap \<Rightarrow> 'k \<Rightarrow> 'v \<Rightarrow> ('k, 'v) gmap" where
  "gset m k v \<equiv> AList.update k v m"

abbreviation gdel :: "('k, 'v) gmap \<Rightarrow> 'k \<Rightarrow> ('k, 'v) gmap" where
  "gdel m k \<equiv> AList.delete k m"

abbreviation ghas :: "('k, 'v) gmap \<Rightarrow> 'k \<Rightarrow> bool" where
  "ghas m k \<equiv> gget m k \<noteq> None"

declare map_of_eq_Some_iff [simp del] Some_eq_map_of_iff [simp del]

lemma gmap_ok_gset [simp]: "gmap_ok m \<Longrightarrow> gmap_ok (gset m k v)"
  by (rule distinct_update)

lemma gmap_ok_gdel [simp]: "gmap_ok m \<Longrightarrow> gmap_ok (gdel m k)"
  by (rule distinct_delete)

lemma gget_gset [simp]: "gget (gset m k v) j = (if j = k then Some v else gget m j)"
  by (simp add: update_conv')

lemma gget_gdel [simp]: "gget (gdel m k) j = (if j = k then None else gget m j)"
  by (simp add: delete_conv')

lemma keys_gset [simp]: "fst ` set (gset m k v) = insert k (fst ` set m)"
  by (simp add: dom_update)

lemma keys_gdel [simp]: "fst ` set (gdel m k) = fst ` set m - {k}"
  using arg_cong [OF delete_keys [of k m], of set] by simp

lemma ghas_iff: "ghas m k \<longleftrightarrow> k \<in> fst ` set m"
  by (simp add: map_of_eq_None_iff)

lemma gset_new: "gget m k = None \<Longrightarrow> gset m k v = m @ [(k, v)]"
  by (induction m) auto

lemma gdel_absent: "gget m k = None \<Longrightarrow> gdel m k = m"
  by (induction m) (auto split: if_splits)

lemma gdel_snoc: "gget m k = None \<Longrightarrow> gdel (m @ [(k, v)]) k = m"
  by (induction m) auto

text \<open>A sum over the values of a map, before and after an update or a deletion.\<close>

definition gsum :: "('v \<Rightarrow> 'n::comm_monoid_add) \<Rightarrow> ('k, 'v) gmap \<Rightarrow> 'n" where
  "gsum f m = sum_list (map (\<lambda>kv. f (snd kv)) m)"

lemma gsum_Nil [simp]: "gsum f [] = 0"
  by (simp add: gsum_def)

lemma gsum_Cons [simp]: "gsum f ((k, v) # m) = f v + gsum f m"
  by (simp add: gsum_def)

lemma gsum_gset_new: "gget m k = None \<Longrightarrow> gsum f (gset m k v) = gsum f m + f v"
  by (simp add: gset_new gsum_def)

lemma gsum_gset_old:
  fixes f :: "'v \<Rightarrow> 'n::ab_group_add"
  assumes "gmap_ok m" and "gget m k = Some w"
  shows "gsum f (gset m k v) = gsum f m - f w + f v"
  using assms
proof (induction m)
  case (Cons a m)
  then show ?case by (cases a) (auto split: if_splits simp: algebra_simps)
qed simp

lemma gsum_gdel:
  fixes f :: "'v \<Rightarrow> 'n::ab_group_add"
  assumes "gmap_ok m" and "gget m k = Some w"
  shows "gsum f (gdel m k) = gsum f m - f w"
  using assms
proof (induction m)
  case (Cons a m)
  obtain j x where a: "a = (j, x)" by (cases a)
  show ?case
  proof (cases "j = k")
    case True
    with Cons.prems a have "gget m k = None" "x = w"
      by (auto simp: map_of_eq_None_iff)
    with True a show ?thesis by (simp add: gdel_absent)
  next
    case False
    with Cons a show ?thesis by (simp add: algebra_simps)
  qed
qed simp

lemma gsum_nonneg_le:
  fixes f :: "'v \<Rightarrow> int"
  assumes "gget m k = Some w" and "\<And>v. v \<in> snd ` set m \<Longrightarrow> 0 \<le> f v"
  shows "f w \<le> gsum f m"
  using assms
proof (induction m)
  case (Cons a m)
  obtain j x where a: "a = (j, x)" by (cases a)
  have nonneg: "0 \<le> gsum f m"
    unfolding gsum_def by (rule sum_list_nonneg) (use Cons.prems(2) in auto)
  from Cons a have "gget m k = Some w \<Longrightarrow> f w \<le> gsum f m" by simp
  moreover from Cons.prems(2) a have "0 \<le> f x" by simp
  ultimately show ?case using Cons.prems(1) a nonneg by (auto split: if_splits)
qed simp

lemma gget_in_range: "gget m k = Some v \<Longrightarrow> v \<in> snd ` set m"
  by (drule map_of_SomeD) force

lemma length_gdel: "gget m k \<noteq> None \<Longrightarrow> length (gdel m k) < length m"
proof (induction m)
  case (Cons a m)
  have "length (gdel m k) \<le> length m" by (simp add: length_delete_le)
  with Cons show ?case by (cases a) (auto split: if_splits)
qed simp

lemma range_gset: "snd ` set (gset m k v) \<subseteq> insert v (snd ` set m)"
  by (induction m) auto

lemma range_gdel: "snd ` set (gdel m k) \<subseteq> snd ` set m"
  by (induction m) auto

lemma fst_set_fold_gset: "fst ` set (fold (\<lambda>k m. gset m k v) ks m) = fst ` set m \<union> set ks"
  by (induction ks arbitrary: m) auto

lemma gmap_ok_fold_gset: "gmap_ok m \<Longrightarrow> gmap_ok (fold (\<lambda>k m. gset m k v) ks m)"
  by (induction ks arbitrary: m) auto

subsection \<open>Running one operation over a list\<close>

text \<open>A loop that stops where a step blocks (\<open>None\<close>).\<close>

fun bind_all :: "('i \<Rightarrow> 's \<Rightarrow> 's option) \<Rightarrow> 'i list \<Rightarrow> 's \<Rightarrow> 's option" where
  "bind_all f [] s = Some s"
| "bind_all f (i # is) s = Option.bind (f i s) (bind_all f is)"

subsection \<open>Sorting\<close>

text \<open>
  \<^verbatim>\<open>sort.Slice(xs, less)\<close>: an insertion sort, which is what the library runs on short
  slices. What the theorems use of it is that the result is a permutation of the slice and
  that it is ordered; where two elements compare equal the library promises no order.
\<close>

fun insert_less :: "('a \<Rightarrow> 'a \<Rightarrow> bool) \<Rightarrow> 'a \<Rightarrow> 'a list \<Rightarrow> 'a list" where
  "insert_less lt x [] = [x]"
| "insert_less lt x (y # ys) =
     (if lt y x then y # insert_less lt x ys else x # y # ys)"

definition sort_less :: "('a \<Rightarrow> 'a \<Rightarrow> bool) \<Rightarrow> 'a list \<Rightarrow> 'a list" where
  "sort_less lt xs = foldr (insert_less lt) xs []"

lemma mset_insert_less [simp]: "mset (insert_less lt x ys) = add_mset x (mset ys)"
  by (induction ys) auto

lemma mset_sort_less [simp]: "mset (sort_less lt xs) = mset xs"
  by (induction xs) (auto simp: sort_less_def)

lemma set_insert_less [simp]: "set (insert_less lt x ys) = insert x (set ys)"
  by (induction ys) auto

lemma set_sort_less [simp]: "set (sort_less lt xs) = set xs"
  using mset_sort_less [of lt xs] by (rule mset_eq_setD)

lemma length_sort_less [simp]: "length (sort_less lt xs) = length xs"
  using mset_sort_less [of lt xs] by (rule mset_eq_length)

lemma insert_less_sorted:
  assumes asym: "\<And>a b. a \<in> S \<Longrightarrow> b \<in> S \<Longrightarrow> lt a b \<Longrightarrow> \<not> lt b a"
    and trans: "\<And>a b c. a \<in> S \<Longrightarrow> b \<in> S \<Longrightarrow> c \<in> S \<Longrightarrow>
      \<not> lt b a \<Longrightarrow> \<not> lt c b \<Longrightarrow> \<not> lt c a"
  shows "x \<in> S \<Longrightarrow> set ys \<subseteq> S \<Longrightarrow> sorted_wrt (\<lambda>a b. \<not> lt b a) ys \<Longrightarrow>
    sorted_wrt (\<lambda>a b. \<not> lt b a) (insert_less lt x ys)"
proof (induction ys)
  case (Cons y ys)
  have "\<not> lt z x" if "\<not> lt y x" "z \<in> set ys" for z
    using Cons.prems that by (intro trans [of x y z]) auto
  moreover have "\<not> lt x y" if "lt y x"
    using Cons.prems that asym [of y x] by auto
  ultimately show ?case using Cons by auto
qed simp

lemma sort_less_sorted:
  assumes "\<And>a b. a \<in> S \<Longrightarrow> b \<in> S \<Longrightarrow> lt a b \<Longrightarrow> \<not> lt b a"
    and "\<And>a b c. a \<in> S \<Longrightarrow> b \<in> S \<Longrightarrow> c \<in> S \<Longrightarrow>
      \<not> lt b a \<Longrightarrow> \<not> lt c b \<Longrightarrow> \<not> lt c a"
    and "set xs \<subseteq> S"
  shows "sorted_wrt (\<lambda>a b. \<not> lt b a) (sort_less lt xs)"
  using assms(3)
proof (induction xs)
  case (Cons x xs)
  then have "set (sort_less lt xs) \<subseteq> S" "x \<in> S" "set xs \<subseteq> S" by simp_all
  with Cons.IH insert_less_sorted [of S lt x, OF assms(1,2)] show ?case
    by (simp add: sort_less_def)
qed (simp add: sort_less_def)

lemma sort_less_id: "sorted_wrt (\<lambda>a b. \<not> lt b a) xs \<Longrightarrow> sort_less lt xs = xs"
proof (induction xs)
  case (Cons x xs)
  then have "sort_less lt (x # xs) = insert_less lt x xs" by (simp add: sort_less_def)
  also have "\<dots> = x # xs" using Cons.prems by (cases xs) auto
  finally show ?case .
qed (simp add: sort_less_def)

end
