(* ===== verification/Float64.thy ===== *)
theory Float64
  imports Prelude
begin

text \<open>
  Go's \<^verbatim>\<open>float64\<close>: IEEE 754 binary64 values and the arithmetic the rating engine uses.
  A finite value is the rational number it denotes; every operation computes the exact
  rational result and rounds it to the nearest representable number, ties to even, with
  gradual underflow and overflow to infinity (\<open>rnd\<close>). The sign of a zero is not
  represented: no code modelled here divides by a zero it computed or prints one.

  The lemmas say what the clients rely on: rounding keeps the sign, is exact on integers up
  to \<open>2 ^ 53\<close>, and is the identity on what it returned.
\<close>

subsection \<open>Values and rounding\<close>

datatype float64 = Fin rat | PInf | NInf | NaN

definition pow2 :: "int \<Rightarrow> rat" where
  "pow2 k = (if 0 \<le> k then 2 ^ nat k else 1 / 2 ^ nat (- k))"

text \<open>\<open>ilog2 x\<close>: the exponent of the leading bit of a positive rational.\<close>

definition ilog2 :: "rat \<Rightarrow> int" where
  "ilog2 x = (let (n, d) = quotient_of x;
                  k = int (floorlog 2 (nat n)) - int (floorlog 2 (nat d))
              in if pow2 k \<le> x then k else k - 1)"

definition round_even :: "rat \<Rightarrow> int" where
  "round_even x = (let f = \<lfloor>x\<rfloor>; r = x - of_int f
                   in if r < 1 / 2 then f
                      else if 1 / 2 < r then f + 1
                      else if even f then f else f + 1)"

definition ulp_exp :: "rat \<Rightarrow> int" where
  "ulp_exp x = max (ilog2 \<bar>x\<bar> - 52) (- 1074)"

definition rnd :: "rat \<Rightarrow> float64" where
  "rnd x = (if x = 0 then Fin 0
            else let e = ulp_exp x; m = of_int (round_even (x / pow2 e)) * pow2 e
                 in if pow2 1024 \<le> \<bar>m\<bar> then (if 0 < x then PInf else NInf) else Fin m)"

subsection \<open>Arithmetic and comparison\<close>

fun fneg :: "float64 \<Rightarrow> float64" where
  "fneg (Fin a) = Fin (- a)"
| "fneg PInf = NInf"
| "fneg NInf = PInf"
| "fneg NaN = NaN"

fun fadd :: "float64 \<Rightarrow> float64 \<Rightarrow> float64" where
  "fadd NaN _ = NaN"
| "fadd _ NaN = NaN"
| "fadd (Fin a) (Fin b) = rnd (a + b)"
| "fadd PInf NInf = NaN"
| "fadd NInf PInf = NaN"
| "fadd PInf _ = PInf"
| "fadd NInf _ = NInf"
| "fadd (Fin _) PInf = PInf"
| "fadd (Fin _) NInf = NInf"

definition fsub :: "float64 \<Rightarrow> float64 \<Rightarrow> float64" where
  "fsub a b = fadd a (fneg b)"

definition inf_of :: "bool \<Rightarrow> float64" where
  "inf_of pos = (if pos then PInf else NInf)"

fun fmul :: "float64 \<Rightarrow> float64 \<Rightarrow> float64" where
  "fmul NaN _ = NaN"
| "fmul _ NaN = NaN"
| "fmul (Fin a) (Fin b) = rnd (a * b)"
| "fmul PInf PInf = PInf"
| "fmul NInf NInf = PInf"
| "fmul PInf NInf = NInf"
| "fmul NInf PInf = NInf"
| "fmul (Fin a) PInf = (if a = 0 then NaN else inf_of (0 < a))"
| "fmul (Fin a) NInf = (if a = 0 then NaN else inf_of (a < 0))"
| "fmul PInf (Fin a) = (if a = 0 then NaN else inf_of (0 < a))"
| "fmul NInf (Fin a) = (if a = 0 then NaN else inf_of (a < 0))"

fun fdiv :: "float64 \<Rightarrow> float64 \<Rightarrow> float64" where
  "fdiv NaN _ = NaN"
| "fdiv _ NaN = NaN"
| "fdiv (Fin a) (Fin b) =
     (if b = 0 then (if a = 0 then NaN else inf_of (0 < a)) else rnd (a / b))"
| "fdiv (Fin _) _ = Fin 0"
| "fdiv PInf (Fin b) = inf_of (0 \<le> b)"
| "fdiv NInf (Fin b) = inf_of (b < 0)"
| "fdiv _ _ = NaN"

fun fless :: "float64 \<Rightarrow> float64 \<Rightarrow> bool" where
  "fless NaN _ = False"
| "fless _ NaN = False"
| "fless (Fin a) (Fin b) = (a < b)"
| "fless PInf _ = False"
| "fless _ NInf = False"
| "fless NInf _ = True"
| "fless _ PInf = True"

definition feq :: "float64 \<Rightarrow> float64 \<Rightarrow> bool" where
  "feq a b \<longleftrightarrow> a \<noteq> NaN \<and> a = b"

definition fleq :: "float64 \<Rightarrow> float64 \<Rightarrow> bool" where
  "fleq a b \<longleftrightarrow> fless a b \<or> feq a b"

text \<open>Conversions: \<^verbatim>\<open>float64(i)\<close> and, for an integer type, \<^verbatim>\<open>int64(f)\<close>, which truncates.
  An out of range conversion yields the smallest \<^verbatim>\<open>int64\<close>, as on amd64.\<close>

definition float_of_int :: "int \<Rightarrow> float64" where
  "float_of_int i = rnd (of_int i)"

definition trunc_rat :: "rat \<Rightarrow> int" where
  "trunc_rat q = (if 0 \<le> q then \<lfloor>q\<rfloor> else \<lceil>q\<rceil>)"

fun int64_of_float :: "float64 \<Rightarrow> int" where
  "int64_of_float (Fin q) = (if is_int64 (trunc_rat q) then trunc_rat q else - (2 ^ 63))"
| "int64_of_float _ = - (2 ^ 63)"

text \<open>The parts of package \<^verbatim>\<open>math\<close> that are used.\<close>

fun math_Floor :: "float64 \<Rightarrow> float64" where
  "math_Floor (Fin q) = Fin (of_int \<lfloor>q\<rfloor>)"
| "math_Floor f = f"

fun math_Ceil :: "float64 \<Rightarrow> float64" where
  "math_Ceil (Fin q) = Fin (of_int \<lceil>q\<rceil>)"
| "math_Ceil f = f"

text \<open>\<^verbatim>\<open>math.Modf\<close>: the fractional part keeps the sign of its argument.\<close>

fun math_Modf_frac :: "float64 \<Rightarrow> float64" where
  "math_Modf_frac (Fin q) = Fin (q - of_int (trunc_rat q))"
| "math_Modf_frac _ = NaN"

text \<open>\<^verbatim>\<open>math.Pow(10, n)\<close> and \<^verbatim>\<open>math.Pow10(n)\<close>: the power of ten, correctly rounded
  (which the library guarantees for the exponents a rounding precision has,
  \<open>\<bar>n\<bar> \<le> 22\<close>).\<close>

definition math_Pow10 :: "int \<Rightarrow> float64" where
  "math_Pow10 n = rnd (if 0 \<le> n then 10 ^ nat n else 1 / 10 ^ nat (- n))"

subsection \<open>Powers of two\<close>

lemma pow2_pos [simp]: "0 < pow2 k"
  by (simp add: pow2_def)

lemma pow2_nonzero [simp]: "pow2 k \<noteq> 0"
  by (simp add: pow2_def)

lemma pow2_powi: "pow2 k = 2 powi k"
  by (simp add: pow2_def power_int_def inverse_eq_divide power_one_over)

lemma pow2_add: "pow2 (a + b) = pow2 a * pow2 b"
  by (simp add: pow2_powi power_int_add)

lemma pow2_mono: "a \<le> b \<Longrightarrow> pow2 a \<le> pow2 b"
  by (simp add: pow2_powi power_int_increasing)

lemma pow2_less_iff [simp]: "pow2 a < pow2 b \<longleftrightarrow> a < b"
proof
  assume "pow2 a < pow2 b"
  then show "a < b" using pow2_mono [of b a] by (meson not_less)
next
  assume "a < b"
  then show "pow2 a < pow2 b" by (simp add: pow2_powi power_int_strict_increasing)
qed

lemma pow2_nat: "pow2 (int n) = 2 ^ n"
  by (simp add: pow2_def)

lemma floorlog2_bounds:
  assumes "0 < n"
  shows "pow2 (int (floorlog 2 n) - 1) \<le> of_nat n" "of_nat n < pow2 (int (floorlog 2 n))"
proof -
  have "2 ^ (floorlog 2 n - 1) \<le> n" "n < 2 ^ floorlog 2 n" and pos: "0 < floorlog 2 n"
    using floorlog_bounds [OF assms, of 2] assms by (auto simp: floorlog_def)
  then have "of_nat (2 ^ (floorlog 2 n - 1)) \<le> (of_nat n :: rat)"
    "of_nat n < (of_nat (2 ^ floorlog 2 n) :: rat)"
    by (simp_all only: of_nat_le_iff of_nat_less_iff)
  with pos show "pow2 (int (floorlog 2 n) - 1) \<le> of_nat n"
    "of_nat n < pow2 (int (floorlog 2 n))"
    using pow2_nat [of "floorlog 2 n - 1"] by (simp_all add: pow2_nat of_nat_diff)
qed

text \<open>\<open>ilog2\<close> is the binary logarithm rounded down.\<close>

lemma ilog2_bounds:
  assumes "0 < x"
  shows "pow2 (ilog2 x) \<le> x" "x < pow2 (ilog2 x + 1)"
proof -
  obtain n d where q: "quotient_of x = (n, d)" by (cases "quotient_of x")
  have d: "0 < d" by (rule quotient_of_denom_pos [OF q])
  have x: "x = of_int n / of_int d" by (rule quotient_of_div [OF q])
  with assms d have n: "0 < n" by (simp add: zero_less_divide_iff)
  define a b where "a = int (floorlog 2 (nat n))" and "b = int (floorlog 2 (nat d))"
  have nb: "pow2 (a - 1) \<le> of_int n" "of_int n < pow2 a"
    using floorlog2_bounds [of "nat n"] n by (simp_all add: a_def)
  have db: "pow2 (b - 1) \<le> of_int d" "of_int d < pow2 b"
    using floorlog2_bounds [of "nat d"] d by (simp_all add: b_def)
  have "pow2 (a - b - 1) * of_int d \<le> pow2 (a - b - 1) * pow2 b"
    using db by (simp add: mult_left_mono less_imp_le)
  also have "\<dots> = pow2 (a - 1)" by (simp flip: pow2_add)
  also have "\<dots> \<le> of_int n" by (rule nb)
  finally have lo: "pow2 (a - b - 1) \<le> x" using d x by (simp add: pos_le_divide_eq)
  have "of_int n < pow2 a" by (rule nb)
  also have "pow2 a = pow2 (a - b + 1) * pow2 (b - 1)" by (simp flip: pow2_add)
  also have "\<dots> \<le> pow2 (a - b + 1) * of_int d" using db by simp
  finally have hi: "x < pow2 (a - b + 1)" using d x by (simp add: pos_divide_less_eq)
  have "ilog2 x = (if pow2 (a - b) \<le> x then a - b else a - b - 1)"
    by (simp add: ilog2_def q a_def b_def)
  with lo hi show "pow2 (ilog2 x) \<le> x" "x < pow2 (ilog2 x + 1)"
    by (auto split: if_splits)
qed

lemma ilog2_less: "0 < x \<Longrightarrow> x < pow2 k \<Longrightarrow> ilog2 x < k"
  using ilog2_bounds(1) [of x] pow2_less_iff [of "ilog2 x" k] by (metis order_le_less_trans)

text \<open>Code equations on integers, with which witnesses compute quickly.\<close>

lemma pow2_code [code]:
  "pow2 k = (if 0 \<le> k then of_int (2 ^ nat k) else 1 / of_int (2 ^ nat (- k)))"
  by (simp add: pow2_def)

function blen :: "int \<Rightarrow> int" where
  "blen n = (if n \<le> 0 then 0 else blen (n div 2) + 1)"
  by pat_completeness auto
termination by (relation "measure nat") auto

declare blen.simps [simp del]

lemma blen_floorlog: "blen n = int (floorlog 2 (nat n))"
proof (induction n rule: blen.induct)
  case (1 n)
  show ?case
  proof (cases "n \<le> 0")
    case False
    then have "nat n div 2 = nat (n div 2)" by (simp add: nat_div_distrib)
    with False 1 compute_floorlog [of 2 "nat n"] show ?thesis by (simp add: blen.simps [of n])
  qed (simp add: blen.simps [of n] floorlog_def)
qed

lemma ilog2_code [code]:
  "ilog2 x = (let (n, d) = quotient_of x; k = blen n - blen d
              in if pow2 k \<le> x then k else k - 1)"
  by (simp add: ilog2_def blen_floorlog)

subsection \<open>Rounding to an integer\<close>

lemma round_even_int [simp]: "round_even (of_int k) = k"
  by (simp add: round_even_def)

lemma round_even_nonneg: "0 \<le> x \<Longrightarrow> 0 \<le> round_even x"
  by (auto simp: round_even_def Let_def)

lemma round_even_nonpos:
  assumes "x \<le> 0"
  shows "round_even x \<le> 0"
proof -
  have "\<lfloor>x\<rfloor> \<le> 0" using assms by simp
  moreover have "\<lfloor>x\<rfloor> = 0 \<Longrightarrow> x = 0" using assms by (metis of_int_0 of_int_floor_le order_antisym)
  ultimately show ?thesis by (fastforce simp: round_even_def Let_def)
qed

subsection \<open>What rounding keeps\<close>

lemma rnd_zero [simp]: "rnd 0 = Fin 0"
  by (simp add: rnd_def)

lemma rnd_sign:
  "rnd x = Fin m \<Longrightarrow> 0 \<le> x \<Longrightarrow> 0 \<le> m"
  "rnd x = Fin m \<Longrightarrow> x \<le> 0 \<Longrightarrow> m \<le> 0"
  by (auto simp: rnd_def Let_def divide_nonpos_pos mult_nonpos_nonneg round_even_nonneg
      round_even_nonpos less_imp_le split: if_splits)

lemma rnd_not_NaN [simp]: "rnd x \<noteq> NaN"
  by (simp add: rnd_def Let_def)

lemma rnd_nonneg_cases:
  assumes "0 \<le> x"
  obtains m where "rnd x = Fin m" "0 \<le> m" | "rnd x = PInf"
proof (cases "rnd x")
  case (Fin m)
  with assms rnd_sign(1) that(1) show ?thesis by blast
next
  case NInf
  with assms show ?thesis by (auto simp: rnd_def Let_def split: if_splits)
qed (use that in auto)

text \<open>A number whose quotient by its unit in the last place is an integer is kept.\<close>

lemma rnd_exact:
  assumes "x / pow2 (ulp_exp x) = of_int k" and "\<bar>x\<bar> < pow2 1024"
  shows "rnd x = Fin x"
proof (cases "x = 0")
  case False
  from assms(1) have "of_int k * pow2 (ulp_exp x) = x" by (simp add: field_simps)
  with assms False show ?thesis by (simp add: rnd_def Let_def)
qed simp

lemma rnd_dyadic_small:
  assumes "\<bar>k\<bar> < 2 ^ 53" and "- 1074 \<le> e" and "\<bar>of_int k * pow2 e\<bar> < pow2 1024"
  shows "rnd (of_int k * pow2 e) = Fin (of_int k * pow2 e)"
proof (cases "k = 0")
  case False
  let ?x = "of_int k * pow2 e"
  have "of_int \<bar>k\<bar> < (of_int (2 ^ 53) :: rat)" using assms(1) by (simp only: of_int_less_iff)
  then have "\<bar>?x\<bar> < pow2 53 * pow2 e"
    by (simp add: abs_mult pow2_def [of 53] abs_of_pos)
  then have "\<bar>?x\<bar> < pow2 (53 + e)" by (simp add: pow2_add)
  then have "ilog2 \<bar>?x\<bar> < 53 + e" using False by (intro ilog2_less) auto
  define u where "u = ulp_exp ?x"
  with \<open>ilog2 \<bar>?x\<bar> < 53 + e\<close> have u: "u \<le> e" using assms(2) by (simp add: ulp_exp_def)
  have "pow2 e = 2 ^ nat (e - u) * pow2 u"
    using u pow2_add [of "e - u" u] by (simp add: pow2_def [of "e - u"])
  then have "?x / pow2 u = of_int (k * 2 ^ nat (e - u))" by simp
  then have "?x / pow2 (ulp_exp ?x) = of_int (k * 2 ^ nat (e - u))" by (simp add: u_def)
  then show ?thesis using assms(3) by (rule rnd_exact)
qed simp

text \<open>Every number with a 53 bit significand and an exponent in range is kept.\<close>

lemma rnd_dyadic:
  assumes "\<bar>k\<bar> \<le> 2 ^ 53" and "- 1074 \<le> e" and "\<bar>of_int k * pow2 e\<bar> < pow2 1024"
  shows "rnd (of_int k * pow2 e) = Fin (of_int k * pow2 e)"
proof (cases "\<bar>k\<bar> = 2 ^ 53")
  case True
  then have "k = 2 ^ 53 \<or> k = - (2 ^ 53)" by linarith
  then have half: "k = 2 * (k div 2)" "\<bar>k div 2\<bar> < 2 ^ 53" by auto
  have "of_int k * pow2 e = of_int (k div 2) * pow2 (e + 1)"
    by (subst half(1)) (simp add: pow2_add pow2_def [of 1])
  then show ?thesis using rnd_dyadic_small [of "k div 2" "e + 1"] assms half(2) by simp
next
  case False
  with assms(1) have "\<bar>k\<bar> < 2 ^ 53" by simp
  then show ?thesis using assms(2,3) by (rule rnd_dyadic_small)
qed

lemma rnd_int: "\<bar>k\<bar> \<le> 2 ^ 53 \<Longrightarrow> rnd (of_int k) = Fin (of_int k)"
proof -
  assume k: "\<bar>k\<bar> \<le> 2 ^ 53"
  then have "of_int \<bar>k\<bar> \<le> (of_int (2 ^ 53) :: rat)" by (simp only: of_int_le_iff)
  then have "\<bar>of_int k :: rat\<bar> \<le> pow2 53" by (simp add: pow2_def)
  then have "\<bar>of_int k :: rat\<bar> < pow2 1024" by (rule order_le_less_trans) simp
  with k show ?thesis using rnd_dyadic [of k 0] by (simp add: pow2_def)
qed

lemma round_even_bound:
  assumes "\<bar>x\<bar> \<le> of_int n"
  shows "\<bar>round_even x\<bar> \<le> n"
proof -
  have "\<lfloor>x\<rfloor> \<le> n" "- n \<le> \<lfloor>x\<rfloor>"
    using assms by (auto simp: abs_le_iff floor_le_iff le_floor_iff)
  moreover have "\<lfloor>x\<rfloor> = n \<Longrightarrow> x = of_int n"
    using assms by (metis abs_le_iff of_int_floor_le order_antisym)
  ultimately show ?thesis by (fastforce simp: round_even_def Let_def)
qed

text \<open>What rounding returned is representable: rounding it again changes nothing.\<close>

lemma rnd_idem:
  assumes "rnd x = Fin m"
  shows "rnd m = Fin m"
proof (cases "x = 0")
  case False
  let ?e = "ulp_exp x"
  let ?k = "round_even (x / pow2 ?e)"
  have m: "m = of_int ?k * pow2 ?e" "\<bar>m\<bar> < pow2 1024"
    using assms False by (auto simp: rnd_def Let_def split: if_splits)
  have "\<bar>x\<bar> < pow2 (ilog2 \<bar>x\<bar> + 1)" using False by (intro ilog2_bounds) simp
  also have "\<dots> \<le> pow2 (53 + ?e)" by (rule pow2_mono) (simp add: ulp_exp_def)
  finally have "\<bar>x / pow2 ?e\<bar> \<le> pow2 53"
    by (simp add: pow2_add abs_of_pos pos_divide_le_eq)
  then have "\<bar>x / pow2 ?e\<bar> \<le> of_int (2 ^ 53)" by (simp add: pow2_def)
  then have "\<bar>?k\<bar> \<le> 2 ^ 53" by (rule round_even_bound)
  moreover have "- 1074 \<le> ?e" by (simp add: ulp_exp_def)
  ultimately show ?thesis using m rnd_dyadic [of ?k ?e] by simp
qed (use assms in simp)

text \<open>The values of type \<open>float64\<close>: every operation returns one.\<close>

fun is_f64 :: "float64 \<Rightarrow> bool" where
  "is_f64 (Fin q) = (rnd q = Fin q)"
| "is_f64 _ = True"

lemma is_f64_rnd [simp]: "is_f64 (rnd x)"
  by (cases "rnd x") (auto intro: rnd_idem)

lemma is_f64_fadd [simp]: "is_f64 (fadd a b)"
  by (cases a; cases b) auto

lemma is_f64_fmul [simp]: "is_f64 (fmul a b)"
  by (cases a; cases b) (auto simp: inf_of_def)

lemma is_f64_fdiv [simp]: "is_f64 (fdiv a b)"
  by (cases a; cases b) (auto simp: inf_of_def)

subsection \<open>Exact integer arithmetic\<close>

text \<open>On integers within \<open>2 ^ 53\<close> the machine arithmetic is that of the integers.\<close>

lemma float_of_int_exact: "\<bar>i\<bar> \<le> 2 ^ 53 \<Longrightarrow> float_of_int i = Fin (of_int i)"
  by (simp add: float_of_int_def rnd_int)

lemma fadd_int: "\<bar>a + b\<bar> \<le> 2 ^ 53 \<Longrightarrow> fadd (Fin (of_int a)) (Fin (of_int b)) = Fin (of_int (a + b))"
  using rnd_int [of "a + b"] by simp

lemma fsub_int: "\<bar>a - b\<bar> \<le> 2 ^ 53 \<Longrightarrow> fsub (Fin (of_int a)) (Fin (of_int b)) = Fin (of_int (a - b))"
  using rnd_int [of "a - b"] by (simp add: fsub_def)

lemma fmul_int: "\<bar>a * b\<bar> \<le> 2 ^ 53 \<Longrightarrow> fmul (Fin (of_int a)) (Fin (of_int b)) = Fin (of_int (a * b))"
  using rnd_int [of "a * b"] by simp

subsection \<open>The order\<close>

lemma fless_irrefl [simp]: "\<not> fless a a"
  by (cases a) auto

lemma fless_asym: "fless a b \<Longrightarrow> \<not> fless b a"
  by (cases a; cases b) auto

lemma fless_trans: "fless a b \<Longrightarrow> fless b c \<Longrightarrow> fless a c"
  by (cases a; cases b; cases c) auto

lemma fless_cotrans: "b \<noteq> NaN \<Longrightarrow> \<not> fless a b \<Longrightarrow> \<not> fless b c \<Longrightarrow> \<not> fless a c"
  by (cases a; cases b; cases c) auto

lemma fleq_Fin [simp]: "fleq (Fin a) (Fin b) \<longleftrightarrow> a \<le> b"
  by (auto simp: fleq_def feq_def)

lemma feq_Fin [simp]: "feq (Fin a) (Fin b) \<longleftrightarrow> a = b"
  by (auto simp: feq_def)

end
