(* ===== verification/Utils_Core.thy ===== *)
theory Utils_Core
  imports Float64
begin

text \<open>
  Package \<^verbatim>\<open>utils\<close>: the helpers the services share. \<^verbatim>\<open>coreutils.go\<close> (rounding,
  concatenated keys, counters, masking, prefixes), \<^verbatim>\<open>map.go\<close> (\<open>StringMap\<close> and
  \<open>FlagsWithParams\<close>), \<^verbatim>\<open>set.go\<close> (\<open>StringSet\<close>) and \<^verbatim>\<open>slice.go\<close> (binary search in
  sorted slices). A nil Go map is \<open>None\<close> where the code tests for it.

  The lemmas show the helpers equal to their mathematical meaning: searching a sorted slice
  is membership, joining and splitting a key are inverse, the set operations are those of
  HOL sets, rounding is exact where the arithmetic is.
\<close>

subsection \<open>Strings\<close>

fun split_on :: "char \<Rightarrow> string \<Rightarrow> string list" where
  "split_on c [] = [[]]"
| "split_on c (x # xs) =
     (if x = c then [] # split_on c xs
      else case split_on c xs of [] \<Rightarrow> [[x]] | w # ws \<Rightarrow> (x # w) # ws)"

fun join_with :: "string \<Rightarrow> string list \<Rightarrow> string" where
  "join_with sep [] = []"
| "join_with sep [x] = x"
| "join_with sep (x # y # ys) = x @ sep @ join_with sep (y # ys)"

definition has_prefix :: "string \<Rightarrow> string \<Rightarrow> bool" where
  "has_prefix s p \<longleftrightarrow> take (length p) s = p"

definition is_space :: "char \<Rightarrow> bool" where
  "is_space c \<longleftrightarrow> c \<in> {CHR 0x09, CHR 0x0A, CHR 0x0B, CHR 0x0C, CHR 0x0D, CHR 0x20}"

definition TrimSpace :: "string \<Rightarrow> string" where
  "TrimSpace s = rev (dropWhile is_space (rev (dropWhile is_space s)))"

lemma split_on_ne [simp]: "split_on c s \<noteq> []"
  by (induction s) (auto split: list.splits)

lemma split_on_no_sep: "c \<notin> set s \<Longrightarrow> split_on c s = [s]"
  by (induction s) auto

lemma split_on_append: "c \<notin> set s \<Longrightarrow> split_on c (s @ c # t) = s # split_on c t"
  by (induction s) auto

lemma join_split: "join_with [c] (split_on c s) = s"
proof (induction s)
  case (Cons x xs)
  obtain w ws where w: "split_on c xs = w # ws" by (cases "split_on c xs") auto
  with Cons show ?case by (cases ws) auto
qed simp

lemma split_join:
  assumes "ws \<noteq> []" and "\<And>w. w \<in> set ws \<Longrightarrow> c \<notin> set w"
  shows "split_on c (join_with [c] ws) = ws"
  using assms
  by (induction "[c]" ws rule: join_with.induct) (auto simp: split_on_no_sep split_on_append)

subsection \<open>coreutils.go: rounding\<close>

definition ROUNDING_UP :: string where "ROUNDING_UP = ''*up''"
definition ROUNDING_MIDDLE :: string where "ROUNDING_MIDDLE = ''*middle''"
definition ROUNDING_DOWN :: string where "ROUNDING_DOWN = ''*down''"

definition Round :: "float64 \<Rightarrow> int \<Rightarrow> string \<Rightarrow> float64" where
  "Round x prec meth =
     (let maxPrec = (if 7 < prec then prec else 7);
          pow = math_Pow10 prec;
          intermed = fmul x pow;
          frac = math_Modf_frac intermed;
          rounder =
            (if meth = ROUNDING_UP then
               (if fleq (math_Pow10 (- maxPrec)) frac then math_Ceil intermed
                else math_Floor intermed)
             else if meth = ROUNDING_DOWN then math_Floor intermed
             else if meth = ROUNDING_MIDDLE then
               (if fleq (Fin (1 / 2)) frac then math_Ceil intermed else math_Floor intermed)
             else intermed)
      in fdiv rounder pow)"

text \<open>\<^verbatim>\<open>RoundDuration\<close>: the two durations are compared as floats. \<^verbatim>\<open>math.Mod\<close> is exact.\<close>

fun math_Mod :: "float64 \<Rightarrow> float64 \<Rightarrow> float64" where
  "math_Mod (Fin a) (Fin b) =
     (if b = 0 then NaN else Fin (a - b * of_int (trunc_rat (a / b))))"
| "math_Mod (Fin a) PInf = Fin a"
| "math_Mod (Fin a) NInf = Fin a"
| "math_Mod _ _ = NaN"

definition RoundDuration :: "duration \<Rightarrow> duration \<Rightarrow> duration" where
  "RoundDuration whole amount =
     (let a = float_of_int amount; w = float_of_int whole
      in if feq (math_Mod a w) (Fin 0) then amount
         else int64_of_float (fadd (fsub w (math_Mod a w)) a))"

definition MinDuration :: "duration \<Rightarrow> duration \<Rightarrow> duration" where
  "MinDuration d1 d2 = (if d1 < d2 then d1 else d2)"

subsection \<open>coreutils.go: counters, keys, strings\<close>

record Counter =
  cvalue :: int
  climit :: int

definition NewCounter :: "int \<Rightarrow> int \<Rightarrow> Counter" where
  "NewCounter start limit = \<lparr>cvalue = start, climit = limit\<rparr>"

definition Counter_Next :: "Counter \<Rightarrow> Counter \<times> int" where
  "Counter_Next c =
     (let v = wrap64 (cvalue c + 1);
          v' = (if climit c > 0 \<and> v > climit c then 0 else v)
      in (c\<lparr>cvalue := v'\<rparr>, v'))"

fun FirstNonEmpty :: "string list \<Rightarrow> string" where
  "FirstNonEmpty [] = []"
| "FirstNonEmpty (val # vals) = (if length val \<noteq> 0 then val else FirstNonEmpty vals)"

definition ConcatenatedKey :: "string list \<Rightarrow> string" where
  "ConcatenatedKey keyVals = join_with '':'' keyVals"

definition SplitConcatenatedKey :: "string \<Rightarrow> string list" where
  "SplitConcatenatedKey key = split_on CHR '':'' key"

definition InfieldJoin :: "string list \<Rightarrow> string" where
  "InfieldJoin vals = join_with '';'' vals"

definition InfieldSplit :: "string \<Rightarrow> string list" where
  "InfieldSplit val = split_on CHR '';'' val"

record TenantID =
  tntTenant :: string
  tntID :: string

definition NewTenantID :: "string \<Rightarrow> TenantID" where
  "NewTenantID t =
     (if CHR '':'' \<notin> set t then \<lparr>tntTenant = [], tntID = t\<rparr>
      else let tIDSplt = split_on CHR '':'' t
           in \<lparr>tntTenant = hd tIDSplt, tntID = ConcatenatedKey (tl tIDSplt)\<rparr>)"

definition TenantID_TenantID :: "TenantID \<Rightarrow> string" where
  "TenantID_TenantID t = ConcatenatedKey [tntTenant t, tntID t]"

text \<open>\<^verbatim>\<open>SplitPrefix\<close>: all prefixes of a number down to a minimum length, longest first.\<close>

definition SplitPrefix :: "string \<Rightarrow> int \<Rightarrow> string list" where
  "SplitPrefix prefix minLength =
     (let len = nat (max (int (length prefix) - (minLength - 1)) 0)
      in map (\<lambda>i. take (length prefix - i) prefix) [0..<len])"

definition MaskSuffix :: "string \<Rightarrow> int \<Rightarrow> string" where
  "MaskSuffix dest maskLen =
     (if maskLen < 0 then dest
      else let m = (if maskLen > int (length dest) then length dest else nat maskLen)
           in take (length dest - m) dest @ replicate m CHR ''*'')"

subsection \<open>map.go: StringMap\<close>

type_synonym StringMap = "(string, bool) gmap"

fun NewStringMap_loop :: "string list \<Rightarrow> StringMap \<Rightarrow> StringMap" where
  "NewStringMap_loop [] result = result"
| "NewStringMap_loop (v # s) result =
     (let v' = TrimSpace v
      in NewStringMap_loop s
           (if v' \<noteq> [] then
              (if has_prefix v' ''!'' then gset result (tl v') False else gset result v' True)
            else result))"

definition NewStringMap :: "string list \<Rightarrow> StringMap" where
  "NewStringMap s = NewStringMap_loop s []"

definition StringMapFromSlice :: "string list \<Rightarrow> StringMap" where
  "StringMapFromSlice s = NewStringMap_loop s []"

definition ParseStringMap :: "string \<Rightarrow> StringMap" where
  "ParseStringMap s =
     (if s = ''*zero'' then [] else StringMapFromSlice (split_on CHR '';'' s))"

text \<open>Indexing a map with a missing key gives the zero value, \<open>False\<close>.\<close>

definition sm_index :: "StringMap \<Rightarrow> string \<Rightarrow> bool" where
  "sm_index sm k = (gget sm k = Some True)"

definition sm_entries :: "StringMap option \<Rightarrow> StringMap" where
  "sm_entries sm = (case sm of None \<Rightarrow> [] | Some m \<Rightarrow> m)"

definition StringMap_Equal :: "StringMap option \<Rightarrow> StringMap option \<Rightarrow> bool" where
  "StringMap_Equal sm om =
     (if sm = None \<and> om \<noteq> None then False
      else if length (sm_entries sm) \<noteq> length (sm_entries om) then False
      else \<forall>key \<in> set (map fst (sm_entries sm)). sm_index (sm_entries om) key)"

definition StringMap_Includes :: "StringMap \<Rightarrow> StringMap \<Rightarrow> bool" where
  "StringMap_Includes sm om =
     (if length sm < length om then False
      else \<forall>key \<in> set (map fst om). sm_index sm key)"

definition StringMap_Slice :: "StringMap \<Rightarrow> string list" where
  "StringMap_Slice sm = map fst sm"

definition StringMap_IsEmpty :: "StringMap option \<Rightarrow> bool" where
  "StringMap_IsEmpty sm \<longleftrightarrow>
     sm = None \<or> length (sm_entries sm) = 0 \<or> sm_index (sm_entries sm) ''*any''"

definition StringMap_Copy :: "StringMap \<Rightarrow> StringMap \<Rightarrow> StringMap" where
  "StringMap_Copy sm o' = fold (\<lambda>(k, v) m. gset m k v) o' sm"

definition StringMap_Clone :: "StringMap \<Rightarrow> StringMap" where
  "StringMap_Clone sm = StringMap_Copy [] sm"

definition StringMap_GetOne :: "StringMap \<Rightarrow> string" where
  "StringMap_GetOne sm = (case sm of [] \<Rightarrow> [] | (key, _) # _ \<Rightarrow> key)"

definition StringMap_Join :: "StringMap \<Rightarrow> StringMap list \<Rightarrow> StringMap" where
  "StringMap_Join sm mps = fold (\<lambda>mp m. fold (\<lambda>(k, v) m'. gset m' k v) mp m) mps sm"

definition StringMap_HasKey :: "StringMap \<Rightarrow> string \<Rightarrow> bool" where
  "StringMap_HasKey sm key = ghas sm key"

definition MissingMapKeys :: "(string, string) gmap \<Rightarrow> string list \<Rightarrow> string list" where
  "MissingMapKeys inMap requiredKeys =
     filter (\<lambda>k. gget inMap k = None \<or> gget inMap k = Some []) requiredKeys"

definition MirrorMap :: "(string, string) gmap \<Rightarrow> (string, string) gmap" where
  "MirrorMap mapIn = fold (\<lambda>(key, val) m. gset m val key) mapIn []"

subsection \<open>map.go: FlagsWithParams\<close>

type_synonym FlagsWithParams = "(string, string list) gmap"

fun FlagsWithParams_loop :: "string list \<Rightarrow> FlagsWithParams \<Rightarrow> error + FlagsWithParams" where
  "FlagsWithParams_loop [] result = Inr result"
| "FlagsWithParams_loop (v # s) result =
     (let sub = split_on CHR '':'' v;
          result' = gset result (hd sub) []
      in if length sub = 2 then
           FlagsWithParams_loop s (gset result' (hd sub) (split_on CHR '';'' (sub ! 1)))
         else if length sub > 2 then Inl (ErrMsg ''UNSUPPORTED_FORMAT'')
         else FlagsWithParams_loop s result')"

definition FlagsWithParamsFromSlice :: "string list \<Rightarrow> error + FlagsWithParams" where
  "FlagsWithParamsFromSlice s = FlagsWithParams_loop s []"

definition ParamsSlice :: "FlagsWithParams \<Rightarrow> string \<Rightarrow> string list" where
  "ParamsSlice fWp subs = (case gget fWp subs of Some ps \<Rightarrow> ps | None \<Rightarrow> [])"

definition SliceFlags :: "FlagsWithParams \<Rightarrow> string list" where
  "SliceFlags fWp =
     map (\<lambda>key. if ParamsSlice fWp key \<noteq> []
                then ConcatenatedKey [key, join_with '';'' (ParamsSlice fWp key)]
                else key) (map fst fWp)"

definition FlagsWithParams_GetBool :: "FlagsWithParams \<Rightarrow> string \<Rightarrow> bool" where
  "FlagsWithParams_GetBool fWp key =
     (case gget fWp key of
        None \<Rightarrow> False
      | Some v \<Rightarrow> (case v of [] \<Rightarrow> True | x # _ \<Rightarrow> x = ''true''))"

subsection \<open>set.go: StringSet\<close>

type_synonym StringSet = "(string, unit) gmap"

definition StringSet_Add :: "StringSet \<Rightarrow> string \<Rightarrow> StringSet" where
  "StringSet_Add s val = gset s val ()"

definition StringSet_Remove :: "StringSet \<Rightarrow> string \<Rightarrow> StringSet" where
  "StringSet_Remove s val = gdel s val"

definition StringSet_Has :: "StringSet \<Rightarrow> string \<Rightarrow> bool" where
  "StringSet_Has s val = ghas s val"

definition StringSet_AddSlice :: "StringSet \<Rightarrow> string list \<Rightarrow> StringSet" where
  "StringSet_AddSlice s dataSlice = fold (\<lambda>val s'. StringSet_Add s' val) dataSlice s"

definition NewStringSet :: "string list \<Rightarrow> StringSet" where
  "NewStringSet dataSlice = StringSet_AddSlice [] dataSlice"

definition StringSet_AsSlice :: "StringSet \<Rightarrow> string list" where
  "StringSet_AsSlice s = map fst s"

definition StringSet_AsOrderedSlice :: "StringSet \<Rightarrow> string list" where
  "StringSet_AsOrderedSlice s = sort (StringSet_AsSlice s)"

definition StringSet_Size :: "StringSet \<Rightarrow> nat" where
  "StringSet_Size s = length s"

text \<open>The loop removes from the map it ranges over, which Go allows: every key is visited.\<close>

definition StringSet_Intersect :: "StringSet \<Rightarrow> StringSet \<Rightarrow> StringSet" where
  "StringSet_Intersect s s2 =
     fold (\<lambda>k s'. if \<not> StringSet_Has s2 k then StringSet_Remove s' k else s') (map fst s) s"

subsection \<open>slice.go\<close>

text \<open>\<^verbatim>\<open>sort.SearchStrings\<close>: the library's binary search for the first index with
  \<open>x \<le> xs ! i\<close>.\<close>

function search_from :: "'a::linorder list \<Rightarrow> 'a \<Rightarrow> nat \<Rightarrow> nat \<Rightarrow> nat" where
  "search_from xs x i j =
     (if i < j then
        (let h = (i + j) div 2
         in if xs ! h < x then search_from xs x (h + 1) j else search_from xs x i h)
      else i)"
  by pat_completeness auto
termination
  by (relation "measure (\<lambda>(xs, x, i, j). j - i)") auto

declare search_from.simps [simp del]

definition SearchStrings :: "string list \<Rightarrow> string \<Rightarrow> nat" where
  "SearchStrings ss s = search_from ss s 0 (length ss)"

definition SliceHasMember :: "string list \<Rightarrow> string \<Rightarrow> bool" where
  "SliceHasMember ss s = (let i = SearchStrings ss s in i < length ss \<and> ss ! i = s)"

definition IsSliceMember :: "string list \<Rightarrow> string \<Rightarrow> string list \<times> bool" where
  "IsSliceMember ss s = (let ss' = sort ss in (ss', SliceHasMember ss' s))"

definition SliceWithoutMember :: "string list \<Rightarrow> string \<Rightarrow> string list" where
  "SliceWithoutMember ss s =
     (let ss' = sort ss; i = SearchStrings ss' s
      in if i < length ss' \<and> ss' ! i = s
         then take (length ss' - 1) (ss'[i := ss' ! (length ss' - 1)])
         else ss')"

definition SliceMemberHasPrefix :: "string list \<Rightarrow> string \<Rightarrow> bool" where
  "SliceMemberHasPrefix ss prfx = list_ex (\<lambda>mbr. has_prefix mbr prfx) ss"

definition Avg :: "float64 list \<Rightarrow> float64" where
  "Avg values =
     (if length values = 0 then Fin 0
      else fdiv (foldl fadd (Fin 0) values) (float_of_int (int (length values))))"

definition AvgNegative :: "float64 list \<Rightarrow> float64" where
  "AvgNegative values = (if length values = 0 then Fin (- 1) else Avg values)"

definition PrefixSliceItems :: "string list \<Rightarrow> string \<Rightarrow> string list" where
  "PrefixSliceItems slc prfx = map (\<lambda>itm. prfx @ itm) slc"

definition StripSlicePrefix :: "string list \<Rightarrow> nat \<Rightarrow> string list" where
  "StripSlicePrefix slc nrItems = (if length slc < nrItems then [] else drop nrItems slc)"

definition HasPrefixSlice :: "string list \<Rightarrow> string \<Rightarrow> bool" where
  "HasPrefixSlice prfxs el = list_ex (\<lambda>prfx. has_prefix el prfx) prfxs"

subsection \<open>Binary search finds members\<close>

lemma search_from_step:
  assumes "i < j" and "h = (i + j) div 2"
  shows "xs ! h < x \<Longrightarrow> search_from xs x i j = search_from xs x (h + 1) j"
    and "\<not> xs ! h < x \<Longrightarrow> search_from xs x i j = search_from xs x i h"
  using assms by (simp_all add: search_from.simps [of xs x i j])

lemma search_from_spec:
  assumes "sorted xs" and "i \<le> j" and "j \<le> length xs"
    and "\<And>k. k < i \<Longrightarrow> xs ! k < x"
    and "\<And>k. j \<le> k \<Longrightarrow> k < length xs \<Longrightarrow> x \<le> xs ! k"
  shows "search_from xs x i j \<le> length xs
    \<and> (\<forall>k < search_from xs x i j. xs ! k < x)
    \<and> (\<forall>k. search_from xs x i j \<le> k \<longrightarrow> k < length xs \<longrightarrow> x \<le> xs ! k)"
  using assms
proof (induction xs x i j rule: search_from.induct)
  case (1 xs x i j)
  define h where "h = (i + j) div 2"
  show ?case
  proof (cases "i < j")
    case True
    then have h: "i \<le> h" "h < j" unfolding h_def by auto
    with "1.prems" have hl: "h < length xs" by simp
    show ?thesis
    proof (cases "xs ! h < x")
      case less: True
      have "xs ! k < x" if "k < h + 1" for k
        using sorted_nth_mono [OF "1.prems"(1), of k h] that hl less by (simp add: le_less_trans)
      with "1.IH"(1) [OF True h_def less] h "1.prems" show ?thesis
        unfolding search_from_step(1) [OF True h_def less] by simp
    next
      case ge: False
      have "x \<le> xs ! k" if "h \<le> k" "k < length xs" for k
        using sorted_nth_mono [OF "1.prems"(1) that] ge by (simp add: order_trans)
      with "1.IH"(2) [OF True h_def ge] h "1.prems" show ?thesis
        unfolding search_from_step(2) [OF True h_def ge] by simp
    qed
  next
    case False
    then have "search_from xs x i j = i" by (simp add: search_from.simps [of xs x i j])
    with False "1.prems" show ?thesis by simp
  qed
qed

lemma SearchStrings_spec:
  assumes "sorted ss"
  shows "SearchStrings ss s \<le> length ss"
    and "k < SearchStrings ss s \<Longrightarrow> ss ! k < s"
    and "SearchStrings ss s \<le> k \<Longrightarrow> k < length ss \<Longrightarrow> s \<le> ss ! k"
  using search_from_spec [of ss 0 "length ss" s] assms by (auto simp: SearchStrings_def)

lemma SliceHasMember_iff:
  assumes "sorted ss"
  shows "SliceHasMember ss s \<longleftrightarrow> s \<in> set ss"
proof
  assume "s \<in> set ss"
  then obtain k where k: "k < length ss" "ss ! k = s" by (auto simp: in_set_conv_nth)
  let ?i = "SearchStrings ss s"
  have "\<not> k < ?i" using SearchStrings_spec(2) [OF assms, of k s] k by auto
  then have i: "?i \<le> k" "?i < length ss" using k by auto
  have "s \<le> ss ! ?i" using SearchStrings_spec(3) [OF assms, of s ?i] i by simp
  moreover have "ss ! ?i \<le> ss ! k" using sorted_nth_mono [OF assms i(1)] k by simp
  ultimately show "SliceHasMember ss s" using k i by (simp add: SliceHasMember_def)
qed (auto simp: SliceHasMember_def Let_def in_set_conv_nth)

lemma IsSliceMember_iff: "snd (IsSliceMember ss s) \<longleftrightarrow> s \<in> set ss"
  by (simp add: IsSliceMember_def Let_def SliceHasMember_iff)

lemma mset_take_swap_last:
  assumes "i < length xs"
  shows "mset (take (length xs - 1) (xs[i := xs ! (length xs - 1)])) = mset xs - {#xs ! i#}"
proof -
  let ?ys = "xs[i := xs ! (length xs - 1)]"
  have ne: "?ys \<noteq> []" using assms by auto
  have "last ?ys = xs ! (length xs - 1)"
    using assms ne by (simp add: last_conv_nth nth_list_update)
  moreover have "mset ?ys = add_mset (last ?ys) (mset (butlast ?ys))"
    using arg_cong [OF append_butlast_last_id [OF ne], of mset] by simp
  moreover have "mset ?ys = add_mset (xs ! (length xs - 1)) (mset xs - {#xs ! i#})"
    using assms by (rule mset_update)
  ultimately have "mset (butlast ?ys) = mset xs - {#xs ! i#}" by simp
  then show ?thesis by (simp add: butlast_conv_take)
qed

lemma mset_SliceWithoutMember: "mset (SliceWithoutMember ss s) = mset ss - {#s#}"
proof (cases "SliceHasMember (sort ss) s")
  case True
  then show ?thesis
    using mset_take_swap_last [of "SearchStrings (sort ss) s" "sort ss"]
    by (auto simp: SliceWithoutMember_def SliceHasMember_def Let_def)
next
  case False
  then have "s \<notin># mset ss" by (simp add: SliceHasMember_iff)
  with False show ?thesis
    by (auto simp: SliceWithoutMember_def SliceHasMember_def Let_def diff_single_trivial)
qed

subsection \<open>Keys\<close>

lemma SplitConcatenatedKey_ConcatenatedKey:
  "ws \<noteq> [] \<Longrightarrow> (\<And>w. w \<in> set ws \<Longrightarrow> CHR '':'' \<notin> set w) \<Longrightarrow>
    SplitConcatenatedKey (ConcatenatedKey ws) = ws"
  by (simp add: SplitConcatenatedKey_def ConcatenatedKey_def split_join)

lemma ConcatenatedKey_SplitConcatenatedKey: "ConcatenatedKey (SplitConcatenatedKey k) = k"
  by (simp add: SplitConcatenatedKey_def ConcatenatedKey_def join_split)

lemma NewTenantID_TenantID:
  assumes "CHR '':'' \<notin> set (tntTenant t)"
  shows "NewTenantID (TenantID_TenantID t) = t"
  using assms
  by (simp add: NewTenantID_def TenantID_TenantID_def ConcatenatedKey_def split_on_append join_split)

subsection \<open>StringSet is a set\<close>

abbreviation ss_set :: "StringSet \<Rightarrow> string set" where
  "ss_set s \<equiv> fst ` set s"

lemma StringSet_Has_iff: "StringSet_Has s v \<longleftrightarrow> v \<in> ss_set s"
  unfolding StringSet_Has_def by (rule ghas_iff)

lemma ss_set_Add [simp]: "ss_set (StringSet_Add s v) = insert v (ss_set s)"
  by (simp add: StringSet_Add_def)

lemma ss_set_Remove [simp]: "ss_set (StringSet_Remove s v) = ss_set s - {v}"
  by (simp add: StringSet_Remove_def)

text \<open>
  The interface of a set: what adding, removing and testing mean for the HOL set \<open>abs s\<close>.
  The loops over a slice and over the set itself are its clients.
\<close>

locale set_impl =
  fixes ok :: "'s \<Rightarrow> bool"
    and abs :: "'s \<Rightarrow> 'a set"
    and add :: "'s \<Rightarrow> 'a \<Rightarrow> 's"
    and remove :: "'s \<Rightarrow> 'a \<Rightarrow> 's"
    and has :: "'s \<Rightarrow> 'a \<Rightarrow> bool"
  assumes ok_add: "ok s \<Longrightarrow> ok (add s v)"
    and ok_remove: "ok s \<Longrightarrow> ok (remove s v)"
    and abs_add: "abs (add s v) = insert v (abs s)"
    and abs_remove: "abs (remove s v) = abs s - {v}"
    and has_iff: "has s v \<longleftrightarrow> v \<in> abs s"
begin

lemma add_slice:
  "abs (fold (\<lambda>v s'. add s' v) vs s) = abs s \<union> set vs"
  "ok s \<Longrightarrow> ok (fold (\<lambda>v s'. add s' v) vs s)"
  by (induction vs arbitrary: s) (auto simp: abs_add ok_add)

lemma keep_loop:
  "abs (fold (\<lambda>k s'. if \<not> has t k then remove s' k else s') ks s) = abs s - (set ks - abs t)"
  "ok s \<Longrightarrow> ok (fold (\<lambda>k s'. if \<not> has t k then remove s' k else s') ks s)"
  by (induction ks arbitrary: s) (auto simp: abs_remove has_iff ok_remove)

lemma intersect:
  assumes "set ks = abs s"
  shows "abs (fold (\<lambda>k s'. if \<not> has t k then remove s' k else s') ks s) = abs s \<inter> abs t"
  using assms by (auto simp: keep_loop)

end

interpretation ss: set_impl gmap_ok ss_set StringSet_Add StringSet_Remove StringSet_Has
  by unfold_locales (simp_all add: StringSet_Has_iff, simp_all add: StringSet_Add_def StringSet_Remove_def)

subsection \<open>Rounding\<close>

lemma math_Pow10_0 [simp]: "math_Pow10 0 = Fin 1"
  using rnd_int [of 1] by (simp add: math_Pow10_def)

lemma Round_units:
  assumes "is_f64 (Fin x)" and "\<bar>x\<bar> \<le> 2 ^ 52"
  shows "Round (Fin x) 0 ROUNDING_MIDDLE
    = Fin (of_int (if 1 / 2 \<le> x - of_int (trunc_rat x) then \<lceil>x\<rceil> else \<lfloor>x\<rfloor>))"
proof -
  have "\<lfloor>x\<rfloor> \<le> 2 ^ 52" "- (2 ^ 52) \<le> \<lfloor>x\<rfloor>" "\<lceil>x\<rceil> \<le> 2 ^ 52" "- (2 ^ 52) \<le> \<lceil>x\<rceil>"
    using assms(2) by (auto simp: abs_le_iff floor_le_iff le_floor_iff ceiling_le_iff le_ceiling_iff)
  moreover have "(2::int) ^ 52 \<le> 2 ^ 53" by simp
  ultimately have "\<bar>\<lfloor>x\<rfloor>\<bar> \<le> 2 ^ 53 \<and> \<bar>\<lceil>x\<rceil>\<bar> \<le> 2 ^ 53" by linarith
  then have "rnd (of_int \<lfloor>x\<rfloor>) = Fin (of_int \<lfloor>x\<rfloor>)" "rnd (of_int \<lceil>x\<rceil>) = Fin (of_int \<lceil>x\<rceil>)"
    by (simp_all only: rnd_int [where k = "\<lfloor>x\<rfloor>"] rnd_int [where k = "\<lceil>x\<rceil>"])
  with assms(1) show ?thesis
    by (simp add: Round_def Let_def ROUNDING_MIDDLE_def ROUNDING_UP_def ROUNDING_DOWN_def)
qed

lemma trunc_frac_nonneg:
  assumes "0 \<le> x"
  shows "(if 1 / 2 \<le> x - of_int (trunc_rat x) then \<lceil>x\<rceil> else \<lfloor>x\<rfloor>) = \<lfloor>x + 1 / 2\<rfloor>"
proof -
  have t: "trunc_rat x = \<lfloor>x\<rfloor>" using assms by (simp add: trunc_rat_def)
  show ?thesis
  proof (cases "1 / 2 \<le> x - of_int \<lfloor>x\<rfloor>")
    case True
    then have "\<lceil>x\<rceil> = \<lfloor>x\<rfloor> + 1" by (simp add: ceiling_altdef)
    moreover have "\<lfloor>x + 1 / 2\<rfloor> = \<lfloor>x\<rfloor> + 1"
      using True by (intro floor_unique) (simp_all, linarith+)
    ultimately show ?thesis using True t by simp
  next
    case False
    then have "\<lfloor>x + 1 / 2\<rfloor> = \<lfloor>x\<rfloor>" by (intro floor_unique) (simp_all, linarith+)
    with False t show ?thesis by simp
  qed
qed

lemma trunc_frac_neg: "x < 0 \<Longrightarrow> \<not> 1 / 2 \<le> x - of_int (trunc_rat x)"
  by (simp add: trunc_rat_def) linarith

lemma trunc_rat_of_int [simp]: "trunc_rat (of_int k) = k"
  by (simp add: trunc_rat_def)

lemma trunc_rat_div:
  assumes "0 \<le> a" "0 < w"
  shows "trunc_rat (of_int a / of_int w) = a div w"
  using assms by (simp add: trunc_rat_def floor_divide_of_int_eq)

lemma math_Mod_int:
  assumes "0 \<le> a" "0 < w"
  shows "math_Mod (Fin (of_int a)) (Fin (of_int w)) = Fin (of_int (a mod w))"
  using assms by (simp add: trunc_rat_div minus_mult_div_eq_mod flip: of_int_mult of_int_diff)

lemma RoundDuration_eq:
  assumes "0 < whole" "0 \<le> amount" "amount + whole \<le> 2 ^ 53"
  shows "RoundDuration whole amount =
    (if amount mod whole = 0 then amount else amount + (whole - amount mod whole))"
proof -
  have m: "0 \<le> amount mod whole" "amount mod whole < whole" using assms by simp_all
  have f: "float_of_int amount = Fin (of_int amount)" "float_of_int whole = Fin (of_int whole)"
    using assms by (simp_all add: float_of_int_exact)
  have s: "fsub (Fin (of_int whole)) (Fin (of_int (amount mod whole)))
      = Fin (of_int (whole - amount mod whole))"
    using m assms by (intro fsub_int) linarith
  have t: "fadd (Fin (of_int (whole - amount mod whole))) (Fin (of_int amount))
      = Fin (of_int (whole - amount mod whole + amount))"
    using m assms by (intro fadd_int) linarith
  have "(2::int) ^ 53 < 2 ^ 63" by simp
  with m assms have "is_int64 (whole - amount mod whole + amount)"
    unfolding is_int64_def by linarith
  then show ?thesis
    using assms(1,2)
    by (simp add: RoundDuration_def Let_def f math_Mod_int s t
        del: fadd.simps math_Mod.simps of_int_diff of_int_add)
qed

subsection \<open>Properties\<close>

text \<open>Searching a slice by sorting it and bisecting is membership, and removing a member by
  overwriting it with the last element takes out exactly one occurrence of it.\<close>

theorem slice_members:
  "snd (IsSliceMember ss s) = (s \<in> set ss) \<and> mset (SliceWithoutMember ss s) = mset ss - {#s#}"
  by (simp add: IsSliceMember_iff mset_SliceWithoutMember)

text \<open>Rounding to the nearest unit: a number that is not negative goes to the nearest
  integer, halves up; a negative one always goes down, so \<open>- 1.2\<close> becomes \<open>- 2\<close>.\<close>

theorem Round_middle_units:
  assumes "is_f64 (Fin x)" and "\<bar>x\<bar> \<le> 2 ^ 52"
  shows "Round (Fin x) 0 ROUNDING_MIDDLE = Fin (of_int (if 0 \<le> x then \<lfloor>x + 1 / 2\<rfloor> else \<lfloor>x\<rfloor>))"
proof (cases "0 \<le> x")
  case True
  then show ?thesis using Round_units [OF assms] trunc_frac_nonneg [OF True] by presburger
next
  case False
  then show ?thesis using Round_units [OF assms] trunc_frac_neg [of x] by simp
qed

theorem Round_middle_units_witness:
  "Round (Fin (5 / 4)) 0 ROUNDING_MIDDLE = Fin 1 \<and> Round (Fin (- (5 / 4))) 0 ROUNDING_MIDDLE = Fin (- 2)"
proof -
  have f: "is_f64 (Fin (5 / 4))" "is_f64 (Fin (- (5 / 4)))" by code_simp+
  have "\<lfloor>5 / 4 + 1 / 2 :: rat\<rfloor> = 1" "\<lfloor>- (5 / 4) :: rat\<rfloor> = - 2"
    by (simp_all add: floor_eq_iff)
  then show ?thesis
    using Round_middle_units [OF f(1)] Round_middle_units [OF f(2)] by (simp add: ROUNDING_MIDDLE_def)
qed

lemma RoundDuration_multiple:
  assumes "0 < whole" and "0 \<le> amount" and "amount + whole \<le> 2 ^ 53"
  shows "whole dvd RoundDuration whole amount \<and> amount \<le> RoundDuration whole amount
    \<and> RoundDuration whole amount < amount + whole"
proof -
  have m: "0 \<le> amount mod whole" "amount mod whole < whole" using assms by simp_all
  have "amount + (whole - amount mod whole) = whole * (amount div whole + 1)"
    using div_mult_mod_eq [of amount whole] by (simp add: algebra_simps)
  then have d: "whole dvd amount + (whole - amount mod whole)" by simp
  show ?thesis
  proof (cases "amount mod whole = 0")
    case True
    with assms(1) show ?thesis unfolding RoundDuration_eq [OF assms] by auto
  next
    case False
    then have "0 < amount mod whole" using m(1) by linarith
    with False d m(2) show ?thesis unfolding RoundDuration_eq [OF assms] by simp
  qed
qed

text \<open>Rounding a duration to a multiple of another gives the least multiple that is not
  smaller, for amounts within \<open>2 ^ 53\<close> nanoseconds (104 days), where the floats are exact.\<close>

theorem RoundDuration_least_multiple:
  assumes "0 < whole" and "0 \<le> amount" and "amount + whole \<le> 2 ^ 53"
  shows "whole dvd RoundDuration whole amount \<and> amount \<le> RoundDuration whole amount
    \<and> RoundDuration whole amount < amount + whole"
  using assms by (rule RoundDuration_multiple)

theorem RoundDuration_least_multiple_witness:
  "(60::int) dvd RoundDuration 60 61 \<and> 61 \<le> RoundDuration 60 61 \<and> RoundDuration 60 61 < 61 + 60"
  by (rule RoundDuration_least_multiple) simp_all

text \<open>Keys: a key built from parts without the separator splits into those parts, any key is
  rebuilt from its parts, and a tenant and id survive the round trip through their key.\<close>

theorem keys_roundtrip:
  assumes "ws \<noteq> []" and "\<And>w. w \<in> set ws \<Longrightarrow> CHR '':'' \<notin> set w"
    and "CHR '':'' \<notin> set (tntTenant t)"
  shows "SplitConcatenatedKey (ConcatenatedKey ws) = ws
    \<and> ConcatenatedKey (SplitConcatenatedKey k) = k \<and> NewTenantID (TenantID_TenantID t) = t"
  using assms
  by (simp add: SplitConcatenatedKey_ConcatenatedKey ConcatenatedKey_SplitConcatenatedKey NewTenantID_TenantID)

theorem keys_roundtrip_witness:
  "SplitConcatenatedKey (ConcatenatedKey [''a'', ''b'']) = [''a'', ''b'']
    \<and> NewTenantID (TenantID_TenantID \<lparr>tntTenant = ''t'', tntID = ''x:y''\<rparr>)
      = \<lparr>tntTenant = ''t'', tntID = ''x:y''\<rparr>"
  using keys_roundtrip [of "[''a'', ''b'']" "\<lparr>tntTenant = ''t'', tntID = ''x:y''\<rparr>"] by force

text \<open>A \<open>StringSet\<close> is a set: the operations act on its members as union with the slice,
  intersection, and membership, its size is the number of members and its ordered slice lists
  them in order without repetition.\<close>

theorem StringSet_is_set:
  assumes "gmap_ok s"
  shows "ss_set (StringSet_AddSlice s vs) = ss_set s \<union> set vs
    \<and> ss_set (StringSet_Intersect s t) = ss_set s \<inter> ss_set t
    \<and> (StringSet_Has s v \<longleftrightarrow> v \<in> ss_set s) \<and> StringSet_Size s = card (ss_set s)
    \<and> sorted (StringSet_AsOrderedSlice s) \<and> distinct (StringSet_AsOrderedSlice s)
    \<and> set (StringSet_AsOrderedSlice s) = ss_set s"
proof -
  have "StringSet_Size s = card (ss_set s)"
    using distinct_card [of "map fst s"] assms by (simp add: StringSet_Size_def)
  then show ?thesis
    using assms ss.intersect [of "map fst s" s t]
    by (simp add: StringSet_AddSlice_def StringSet_Intersect_def StringSet_Has_iff
        StringSet_AsOrderedSlice_def StringSet_AsSlice_def ss.add_slice)
qed

theorem StringSet_is_set_witness:
  "ss_set (StringSet_AddSlice [(''a'', ())] [''b'', ''a'']) = {''a'', ''b''}"
  using StringSet_is_set [of "[(''a'', ())]" "[''b'', ''a'']" "[]" "[]"] by auto

end
