(* ===== verification/Utils_Event.thy ===== *)
theory Utils_Event
  imports Utils_Core
begin

text \<open>
  Package \<^verbatim>\<open>utils\<close>: dynamically typed values and events. \<open>iface\<close> is Go's
  \<^verbatim>\<open>interface{}\<close> restricted to the types \<^verbatim>\<open>reflect.go\<close> distinguishes; the conversion
  functions \<^verbatim>\<open>IfaceAs*\<close>, the comparisons \<open>GreaterThan\<close> and \<open>EqualTo\<close>, the
  \<open>CGREvent\<close> accessors of \<^verbatim>\<open>cgrevent.go\<close> and \<open>ActivationInterval\<close> of
  \<^verbatim>\<open>apitpdata.go\<close>.

  Turning text into numbers, durations and instants and back (\<^verbatim>\<open>strconv\<close>, \<^verbatim>\<open>time\<close>) is
  a parameter \<open>golib\<close>: the theorems hold whatever the parsers accept.
\<close>

subsection \<open>Values\<close>

datatype intkind = KInt | KInt8 | KInt16 | KInt32 | KInt64

datatype uintkind = KUint | KUint8 | KUint16 | KUint32 | KUint64

datatype iface =
    INil
  | IInt intkind int
  | IUint uintkind int
  | IFloat32 float64
  | IFloat64 float64
  | IDuration duration
  | ITime gotime
  | IBool bool
  | IString string
  | IOther string

record golib =
  ParseFloat :: "string \<Rightarrow> error + float64"
  ParseInt :: "string \<Rightarrow> error + int"
  ParseBool :: "string \<Rightarrow> error + bool"
  ParseDuration :: "string \<Rightarrow> error + duration"
  ParseTimeDetectLayout :: "string \<Rightarrow> string \<Rightarrow> error + gotime"
  FormatInt :: "int \<Rightarrow> string"
  FormatFloat :: "float64 \<Rightarrow> string"
  Sprintf_v :: "float64 \<Rightarrow> string"
  Duration_String :: "duration \<Rightarrow> string"
  Time_Format :: "gotime \<Rightarrow> string"
  ToJSON :: "iface \<Rightarrow> string"

text \<open>The text of an error, as \<^verbatim>\<open>Error()\<close> returns it.\<close>

fun Error :: "error \<Rightarrow> string" where
  "Error ErrNotFound = ''NOT_FOUND''"
| "Error ErrResourceUnavailable = ''RESOURCE_UNAVAILABLE''"
| "Error ErrResourceUnauthorized = ''RESOURCE_UNAUTHORIZED''"
| "Error ErrPartiallyExecuted = ''PARTIALLY_EXECUTED''"
| "Error (ErrMandatoryIeMissing fs) =
     ''MANDATORY_IE_MISSING: ['' @ join_with '' '' fs @ '']''"
| "Error (ErrMsg m) = m"
| "Error (Panic m) = m"

definition ErrPrefix :: "error \<Rightarrow> string \<Rightarrow> error" where
  "ErrPrefix err reason = ErrMsg (Error err @ '':'' @ reason)"

text \<open>The error a text received over RPC stands for. Of the errors in \<^verbatim>\<open>ErrMap\<close> those that no
  modelled code compares against have no constructor of their own and stay the text they are.\<close>

definition CastRPCErr :: "error \<Rightarrow> error" where
  "CastRPCErr err =
     (if Error err = ''NOT_FOUND'' then ErrNotFound
      else if Error err = ''RESOURCE_UNAVAILABLE'' then ErrResourceUnavailable
      else if Error err = ''RESOURCE_UNAUTHORIZED'' then ErrResourceUnauthorized
      else if Error err = ''PARTIALLY_EXECUTED'' then ErrPartiallyExecuted
      else err)"

subsection \<open>reflect.go: conversions\<close>

fun IfaceAsTime :: "golib \<Rightarrow> iface \<Rightarrow> string \<Rightarrow> error + gotime" where
  "IfaceAsTime lib (ITime t) tz = Inr t"
| "IfaceAsTime lib (IString s) tz = ParseTimeDetectLayout lib s tz"
| "IfaceAsTime lib _ tz = Inl (ErrMsg ''cannot convert field to time.Time'')"

definition ParseDurationWithNanosecs :: "golib \<Rightarrow> string \<Rightarrow> error + duration" where
  "ParseDurationWithNanosecs lib durStr =
     (if durStr = [] then Inr 0
      else let durStr' = (if durStr = ''*unlimited'' then ''-1'' else durStr)
           in case ParseFloat lib durStr' of
                Inr _ \<Rightarrow> ParseDuration lib (durStr' @ ''ns'')
              | Inl _ \<Rightarrow> ParseDuration lib durStr')"

definition ParseDurationWithSecs :: "golib \<Rightarrow> string \<Rightarrow> error + duration" where
  "ParseDurationWithSecs lib durStr =
     (if durStr = [] then Inr 0
      else case ParseFloat lib durStr of
             Inr _ \<Rightarrow> ParseDuration lib (durStr @ ''s'')
           | Inl _ \<Rightarrow> ParseDuration lib durStr)"

fun IfaceAsDuration :: "golib \<Rightarrow> iface \<Rightarrow> error + duration" where
  "IfaceAsDuration lib (IDuration d) = Inr d"
| "IfaceAsDuration lib (IInt _ i) = Inr (wrap64 i)"
| "IfaceAsDuration lib (IUint _ i) = Inr (wrap64 i)"
| "IfaceAsDuration lib (IFloat32 f) = Inr (int64_of_float f)"
| "IfaceAsDuration lib (IFloat64 f) = Inr (int64_of_float f)"
| "IfaceAsDuration lib (IString s) = ParseDurationWithNanosecs lib s"
| "IfaceAsDuration lib _ = Inl (ErrMsg ''cannot convert field to time.Duration'')"

fun IfaceAsInt64 :: "golib \<Rightarrow> iface \<Rightarrow> error + int" where
  "IfaceAsInt64 lib (IInt k i) =
     (if k = KInt \<or> k = KInt32 \<or> k = KInt64 then Inr i
      else Inl (ErrMsg ''cannot convert field to int''))"
| "IfaceAsInt64 lib (IDuration d) = Inr d"
| "IfaceAsInt64 lib (IString s) = ParseInt lib s"
| "IfaceAsInt64 lib _ = Inl (ErrMsg ''cannot convert field to int'')"

fun IfaceAsTInt64 :: "golib \<Rightarrow> iface \<Rightarrow> error + int" where
  "IfaceAsTInt64 lib (IFloat32 f) = Inr (int64_of_float f)"
| "IfaceAsTInt64 lib (IFloat64 f) = Inr (int64_of_float f)"
| "IfaceAsTInt64 lib itm = IfaceAsInt64 lib itm"

fun IfaceAsFloat64 :: "golib \<Rightarrow> iface \<Rightarrow> error + float64" where
  "IfaceAsFloat64 lib (IFloat64 f) = Inr f"
| "IfaceAsFloat64 lib (IDuration d) = Inr (float_of_int d)"
| "IfaceAsFloat64 lib (IInt k i) =
     (if k = KInt \<or> k = KInt64 then Inr (float_of_int i)
      else Inl (ErrMsg ''cannot convert field to float64''))"
| "IfaceAsFloat64 lib (IString s) = ParseFloat lib s"
| "IfaceAsFloat64 lib _ = Inl (ErrMsg ''cannot convert field to float64'')"

fun IfaceAsBool :: "golib \<Rightarrow> iface \<Rightarrow> error + bool" where
  "IfaceAsBool lib (IBool b) = Inr b"
| "IfaceAsBool lib (IString s) = ParseBool lib s"
| "IfaceAsBool lib (IInt k i) =
     (if k = KInt \<or> k = KInt64 then Inr (i > 0)
      else Inl (ErrMsg ''cannot convert field to bool''))"
| "IfaceAsBool lib (IFloat64 f) = Inr (fless (Fin 0) f)"
| "IfaceAsBool lib _ = Inl (ErrMsg ''cannot convert field to bool'')"

fun IfaceAsString :: "golib \<Rightarrow> iface \<Rightarrow> string" where
  "IfaceAsString lib INil = []"
| "IfaceAsString lib (IInt k i) =
     (if k = KInt \<or> k = KInt32 \<or> k = KInt64 then FormatInt lib i else ToJSON lib (IInt k i))"
| "IfaceAsString lib (IUint k i) =
     (if k = KUint32 \<or> k = KUint64 then FormatInt lib i else ToJSON lib (IUint k i))"
| "IfaceAsString lib (IBool b) = (if b then ''true'' else ''false'')"
| "IfaceAsString lib (IFloat32 f) = FormatFloat lib f"
| "IfaceAsString lib (IFloat64 f) = FormatFloat lib f"
| "IfaceAsString lib (IDuration d) = Duration_String lib d"
| "IfaceAsString lib (ITime t) = Time_Format lib t"
| "IfaceAsString lib (IString s) = s"
| "IfaceAsString lib (IOther s) = ToJSON lib (IOther s)"

subsection \<open>reflect.go: comparisons\<close>

fun GetBasicType :: "iface \<Rightarrow> iface" where
  "GetBasicType (IInt _ i) = IInt KInt64 i"
| "GetBasicType (IDuration d) = IInt KInt64 d"
| "GetBasicType (IUint _ i) = IUint KUint64 i"
| "GetBasicType (IFloat32 f) = IFloat64 f"
| "GetBasicType itm = itm"

fun GetUniformType :: "iface \<Rightarrow> iface option" where
  "GetUniformType (IInt _ i) = Some (IFloat64 (float_of_int i))"
| "GetUniformType (IDuration d) = Some (IFloat64 (float_of_int d))"
| "GetUniformType (IUint _ i) = Some (IFloat64 (float_of_int i))"
| "GetUniformType (IFloat32 f) = Some (IFloat64 f)"
| "GetUniformType (IFloat64 f) = Some (IFloat64 f)"
| "GetUniformType (ITime t) = Some (ITime t)"
| "GetUniformType _ = None"

text \<open>The dynamic types after \<open>GetBasicType\<close>, as far as the comparisons tell them apart.\<close>

datatype iftype = TNil | TInt64 | TUint64 | TFloat64 | TTime | TBool | TString | TOther

fun TypeOf :: "iface \<Rightarrow> iftype" where
  "TypeOf INil = TNil"
| "TypeOf (IInt _ _) = TInt64"
| "TypeOf (IDuration _) = TInt64"
| "TypeOf (IUint _ _) = TUint64"
| "TypeOf (IFloat32 _) = TFloat64"
| "TypeOf (IFloat64 _) = TFloat64"
| "TypeOf (ITime _) = TTime"
| "TypeOf (IBool _) = TBool"
| "TypeOf (IString _) = TString"
| "TypeOf (IOther _) = TOther"

text \<open>
  The common preparation of \<open>GreaterThan\<close> and \<open>EqualTo\<close>: both items are brought to a
  basic type and, when the types differ, to \<open>float64\<close> where that is possible. A nil item
  has a nil \<^verbatim>\<open>reflect.Type\<close>, on which the call of \<^verbatim>\<open>Comparable\<close> panics.
\<close>

definition uniform :: "iface \<Rightarrow> iface \<Rightarrow> error + iface \<times> iface" where
  "uniform item oItem =
     (let a = GetBasicType item; b = GetBasicType oItem
      in if TypeOf a = TNil \<or> TypeOf b = TNil then Inl (Panic ''nil reflect.Type'')
         else if TypeOf a = TypeOf b then Inr (a, b)
         else case (GetUniformType a, GetUniformType b) of
                (Some a', Some b') \<Rightarrow>
                  if TypeOf a' = TypeOf b' then Inr (a', b') else Inl (ErrMsg ''incomparable'')
              | _ \<Rightarrow> Inl (ErrMsg ''incomparable''))"

definition GreaterThan :: "iface \<Rightarrow> iface \<Rightarrow> bool \<Rightarrow> error + bool" where
  "GreaterThan item oItem orEqual =
     (case uniform item oItem of
        Inl e \<Rightarrow> Inl e
      | Inr (IFloat64 x, IFloat64 y) \<Rightarrow> Inr (if orEqual then fleq y x else fless y x)
      | Inr (IUint _ x, IUint _ y) \<Rightarrow> Inr (if orEqual then y \<le> x else y < x)
      | Inr (IInt _ x, IInt _ y) \<Rightarrow> Inr (if orEqual then y \<le> x else y < x)
      | Inr (ITime x, ITime y) \<Rightarrow> Inr (orEqual \<and> x = y \<or> y < x)
      | _ \<Rightarrow> Inl (ErrMsg ''unsupported comparison type''))"

definition EqualTo :: "iface \<Rightarrow> iface \<Rightarrow> error + bool" where
  "EqualTo item oItem =
     (case uniform item oItem of
        Inl e \<Rightarrow> Inl e
      | Inr (IFloat64 x, IFloat64 y) \<Rightarrow> Inr (feq x y)
      | Inr (IUint _ x, IUint _ y) \<Rightarrow> Inr (x = y)
      | Inr (IInt _ x, IInt _ y) \<Rightarrow> Inr (x = y)
      | Inr (ITime x, ITime y) \<Rightarrow> Inr (x = y)
      | Inr (IString x, IString y) \<Rightarrow> Inr (x = y)
      | _ \<Rightarrow> Inl (ErrMsg ''unsupported comparison type''))"

subsection \<open>cgrevent.go\<close>

record CGREvent =
  evTenant :: string
  evID :: string
  evTime :: "gotime option"
  evEvent :: "(string, iface) gmap"

definition HasField :: "CGREvent \<Rightarrow> string \<Rightarrow> bool" where
  "HasField ev fldName = ghas (evEvent ev) fldName"

fun CheckMandatoryFields :: "CGREvent \<Rightarrow> string list \<Rightarrow> error option" where
  "CheckMandatoryFields ev [] = None"
| "CheckMandatoryFields ev (fldName # fldNames) =
     (if \<not> ghas (evEvent ev) fldName then Some (ErrMandatoryIeMissing [fldName])
      else CheckMandatoryFields ev fldNames)"

definition FieldAsString :: "golib \<Rightarrow> CGREvent \<Rightarrow> string \<Rightarrow> error + string" where
  "FieldAsString lib ev fldName =
     (case gget (evEvent ev) fldName of
        None \<Rightarrow> Inl ErrNotFound
      | Some itm \<Rightarrow> Inr (IfaceAsString lib itm))"

definition FieldAsTime :: "golib \<Rightarrow> CGREvent \<Rightarrow> string \<Rightarrow> string \<Rightarrow> error + gotime" where
  "FieldAsTime lib ev fldName timezone =
     (case gget (evEvent ev) fldName of
        None \<Rightarrow> Inl ErrNotFound
      | Some itm \<Rightarrow> IfaceAsTime lib itm timezone)"

definition FieldAsDuration :: "golib \<Rightarrow> CGREvent \<Rightarrow> string \<Rightarrow> error + duration" where
  "FieldAsDuration lib ev fldName =
     (case gget (evEvent ev) fldName of
        None \<Rightarrow> Inl ErrNotFound
      | Some itm \<Rightarrow> IfaceAsDuration lib itm)"

definition FieldAsFloat64 :: "golib \<Rightarrow> CGREvent \<Rightarrow> string \<Rightarrow> error + float64" where
  "FieldAsFloat64 lib ev fldName =
     (case gget (evEvent ev) fldName of
        None \<Rightarrow> Inl ErrNotFound
      | Some itm \<Rightarrow> IfaceAsFloat64 lib itm)"

definition CGREvent_TenantID :: "CGREvent \<Rightarrow> string" where
  "CGREvent_TenantID ev = ConcatenatedKey [evTenant ev, evID ev]"

definition CGREvent_Clone :: "CGREvent \<Rightarrow> CGREvent" where
  "CGREvent_Clone ev =
     \<lparr>evTenant = evTenant ev, evID = evID ev, evTime = evTime ev,
      evEvent = fold (\<lambda>(k, v) m. gset m k v) (evEvent ev) []\<rparr>"

subsection \<open>apitpdata.go: ActivationInterval\<close>

record ActivationInterval =
  aiActivationTime :: gotime
  aiExpiryTime :: gotime

definition IsActiveAtTime :: "ActivationInterval \<Rightarrow> gotime \<Rightarrow> bool" where
  "IsActiveAtTime ai atTime \<longleftrightarrow>
     (IsZero (aiActivationTime ai) \<or> aiActivationTime ai < atTime)
     \<and> (IsZero (aiExpiryTime ai) \<or> aiExpiryTime ai > atTime)"

subsection \<open>Cloning and comparing\<close>

lemma copy_gmap:
  "gmap_ok m \<Longrightarrow> fst ` set m \<inter> fst ` set acc = {} \<Longrightarrow> fold (\<lambda>(k, v) a. gset a k v) m acc = acc @ m"
proof (induction m arbitrary: acc)
  case (Cons a m)
  obtain k v where a: "a = (k, v)" by (cases a)
  have "gget acc k = None" using Cons.prems(2) a by (auto simp: map_of_eq_None_iff)
  then have "gset acc k v = acc @ [(k, v)]" by (rule gset_new)
  moreover have "fold (\<lambda>(k, v) a. gset a k v) m (acc @ [(k, v)]) = (acc @ [(k, v)]) @ m"
    using Cons.prems a by (intro Cons.IH) auto
  ultimately show ?case by (simp add: a)
qed simp

lemma CGREvent_Clone_eq: "gmap_ok (evEvent ev) \<Longrightarrow> CGREvent_Clone ev = ev"
  by (simp add: CGREvent_Clone_def copy_gmap)

lemma CheckMandatoryFields_iff:
  "CheckMandatoryFields ev fs = None \<longleftrightarrow> (\<forall>f \<in> set fs. HasField ev f)"
  by (induction ev fs rule: CheckMandatoryFields.induct) (auto simp: HasField_def)

subsection \<open>struct.go\<close>

text \<open>\<^verbatim>\<open>utils.MissingStructFields\<close> trims a string field before testing it, in place. A name that is
  no field of the event has no kind and is never missing.\<close>

definition sanitize_field :: "string \<Rightarrow> CGREvent \<Rightarrow> CGREvent \<times> bool" where
  "sanitize_field fieldName ev =
     (if fieldName = ''Tenant'' then
        (ev\<lparr>evTenant := TrimSpace (evTenant ev)\<rparr>, TrimSpace (evTenant ev) = [])
      else if fieldName = ''ID'' then (ev\<lparr>evID := TrimSpace (evID ev)\<rparr>, TrimSpace (evID ev) = [])
      else if fieldName = ''Event'' then (ev, evEvent ev = [])
      else (ev, False))"

fun MissingStructFields :: "CGREvent \<Rightarrow> string list \<Rightarrow> CGREvent \<times> string list" where
  "MissingStructFields ev [] = (ev, [])"
| "MissingStructFields ev (fieldName # mandatories) =
     (case sanitize_field fieldName ev of (ev', isMissing) \<Rightarrow>
        (case MissingStructFields ev' mandatories of (ev'', missing) \<Rightarrow>
           (ev'', if isMissing then fieldName # missing else missing)))"

subsection \<open>Arguments of the services\<close>

text \<open>The arguments of ThresholdS, and the arguments a call may carry before they were checked: a nil
  event, or an event whose map is nil.\<close>

record ArgsProcessEvent =
  apeThresholdIDs :: "string list"
  apeCGREvent :: CGREvent

record V1Args =
  v1IDs :: "string list"
  v1CGREvent :: "CGREvent option"
  v1EventNil :: bool

text \<open>The check with which the handlers of ThresholdS and StatS begin.\<close>

definition check_event :: "V1Args \<Rightarrow> error + CGREvent" where
  "check_event args =
     (case v1CGREvent args of
        None \<Rightarrow> Inl (ErrMandatoryIeMissing [''CGREvent''])
      | Some ev \<Rightarrow>
          (case MissingStructFields ev [''Tenant'', ''ID''] of (ev', missing) \<Rightarrow>
             if missing \<noteq> [] then Inl (ErrMandatoryIeMissing missing)
             else if v1EventNil args then Inl (ErrMandatoryIeMissing [''Event''])
             else Inr ev'))"

end
