(* ===== verification/Service_Common.thy ===== *)
theory Service_Common
  imports Utils_Event
begin

text \<open>
  What the services that match events (ResourceS, ThresholdS, StatS) share. Each of them has its
  own copy of this code; here the common contracts are stated once, as locales, and every
  service's theory interprets them on its own definitions.

  \<^item> \<open>matching_order\<close>: the matching items are sorted by descending weight and the list is cut
    after the first blocker.
  \<^item> \<open>backup\<close>: the backup loop takes the ids of changed items one by one off the index of the
    service, stores the items, and puts back the ids of those that could not be stored.
\<close>

subsection \<open>The order of matching items\<close>

definition weight_desc :: "('a \<Rightarrow> 'p option) \<Rightarrow> ('p \<Rightarrow> float64) \<Rightarrow> 'a \<Rightarrow> 'a \<Rightarrow> bool" where
  "weight_desc prfl weight a b =
     (case (prfl a, prfl b) of
        (Some pa, Some pb) \<Rightarrow> \<not> fless (weight pa) (weight pb) | _ \<Rightarrow> True)"

locale matching_order =
  fixes prfl :: "'a \<Rightarrow> 'p option" and weight :: "'p \<Rightarrow> float64" and blocker :: "'p \<Rightarrow> bool"
    and Sort :: "'a list \<Rightarrow> 'a list" and cut :: "'a list \<Rightarrow> 'a list"
  assumes Sort_eq: "Sort xs = sort_less (\<lambda>a b. case (prfl a, prfl b) of
      (Some pa, Some pb) \<Rightarrow> fless (weight pb) (weight pa) | _ \<Rightarrow> False) xs"
    and cut_Nil: "cut [] = []"
    and cut_Cons: "cut (x # xs) =
      (if (case prfl x of Some p \<Rightarrow> blocker p | None \<Rightarrow> False) then [x] else x # cut xs)"
begin

lemma set_Sort: "set (Sort xs) = set xs"
  by (simp add: Sort_eq)

lemma cut_prefix: "\<exists>ys. xs = cut xs @ ys"
  by (induction xs) (auto simp: cut_Nil cut_Cons)

lemma set_cut: "set (cut xs) \<subseteq> set xs"
  using cut_prefix [of xs] by (metis set_append sup_ge1)

lemma set_cut_Sort: "set (cut (Sort xs)) \<subseteq> set xs"
  using set_cut [of "Sort xs"] by (simp add: set_Sort)

lemma cut_butlast: "x \<in> set (butlast (cut xs)) \<Longrightarrow> prfl x = Some p \<Longrightarrow> \<not> blocker p"
  by (induction xs) (auto simp: cut_Nil cut_Cons split: if_splits option.splits)

lemma cut_nonempty: "cut xs = [] \<longleftrightarrow> xs = []"
  by (cases xs) (simp_all add: cut_Nil cut_Cons)

lemma cut_stops: "cut xs \<noteq> xs \<Longrightarrow> \<exists>p. prfl (last (cut xs)) = Some p \<and> blocker p"
  by (induction xs) (auto simp: cut_Nil cut_Cons cut_nonempty split: if_splits option.splits)

lemma distinct_cut_Sort:
  assumes "distinct (map f xs)"
  shows "distinct (map f (cut (Sort xs)))"
proof -
  have "mset (map f (Sort xs)) = mset (map f xs)" by (simp add: Sort_eq)
  then have d: "distinct (map f (Sort xs))" using assms by (metis distinct_count_atmost_1 set_mset_mset)
  obtain ys where "Sort xs = cut (Sort xs) @ ys" using cut_prefix by blast
  then have "map f (Sort xs) = map f (cut (Sort xs)) @ map f ys" by (metis map_append)
  with d show ?thesis by (metis distinct_append)
qed

lemma Sort_desc:
  assumes "\<forall>x \<in> set xs. \<exists>p. prfl x = Some p \<and> weight p \<noteq> NaN"
  shows "sorted_wrt (weight_desc prfl weight) (Sort xs)"
proof -
  let ?lt = "\<lambda>a b. case (prfl a, prfl b) of
    (Some pa, Some pb) \<Rightarrow> fless (weight pb) (weight pa) | _ \<Rightarrow> False"
  let ?S = "{x. \<exists>p. prfl x = Some p \<and> weight p \<noteq> NaN}"
  have "sorted_wrt (\<lambda>a b. \<not> ?lt b a) (sort_less ?lt xs)"
  proof (rule sort_less_sorted [of ?S])
    fix a b c
    assume "a \<in> ?S" "b \<in> ?S" "c \<in> ?S" "\<not> ?lt b a" "\<not> ?lt c b"
    then show "\<not> ?lt c a"
      using fless_cotrans [of "weight (the (prfl b))" "weight (the (prfl a))" "weight (the (prfl c))"]
      by auto
  qed (use assms fless_asym in \<open>auto split: option.splits\<close>)
  moreover have "(\<lambda>a b. \<not> ?lt b a) = weight_desc prfl weight"
    by (auto simp: fun_eq_iff weight_desc_def split: option.splits)
  ultimately show ?thesis by (simp add: Sort_eq)
qed

lemma cut_Sort_desc:
  assumes "\<forall>x \<in> set xs. \<exists>p. prfl x = Some p \<and> weight p \<noteq> NaN"
  shows "sorted_wrt (weight_desc prfl weight) (cut (Sort xs))"
  using Sort_desc [OF assms] cut_prefix [of "Sort xs"] by (metis sorted_wrt_append)

end

subsection \<open>The backup loop\<close>

lemma GetOne_removed:
  "StringMap_GetOne sm \<noteq> [] \<Longrightarrow> length (gdel sm (StringMap_GetOne sm)) < length sm"
  by (rule length_gdel) (auto simp: StringMap_GetOne_def split: list.splits)

text \<open>
  The client of the contract is the loop. \<open>stored\<close> is the index in the state of the service,
  \<open>attempt\<close> looks one id up in the cache, stores the item and says whether that failed,
  \<open>view\<close> is what the attempt depends on and \<open>saved\<close> what has been written so far. The laws: an
  attempt leaves the index alone, fails exactly when \<open>fails\<close> says so of the item it finds, changes
  what is saved as \<open>wr\<close> does with that item, and touches no other item.
\<close>

locale backup =
  fixes stored :: "'s \<Rightarrow> StringMap" and setStored :: "StringMap \<Rightarrow> 's \<Rightarrow> 's"
    and attempt :: "string \<Rightarrow> 's \<Rightarrow> 's \<times> bool"
    and loop :: "'s \<Rightarrow> string list \<Rightarrow> 's \<times> string list"
    and inv :: "'s \<Rightarrow> bool" and view :: "'s \<Rightarrow> string \<Rightarrow> 'v" and fails :: "'v \<Rightarrow> bool"
    and wr :: "'v \<Rightarrow> 'd \<Rightarrow> 'd" and saved :: "'s \<Rightarrow> 'd"
  assumes loop_eq: "loop s failed =
      (let i = StringMap_GetOne (stored s)
       in if i = [] then (s, failed)
          else case attempt i (setStored (gdel (stored s) i) s) of
                 (s', bad) \<Rightarrow> loop s' (if bad then failed @ [i] else failed))"
    and stored_set: "stored (setStored m s) = m"
    and inv_set: "inv s \<Longrightarrow> inv (setStored m s)"
    and view_set: "view (setStored m s) = view s"
    and saved_set: "saved (setStored m s) = saved s"
    and attempt_stored: "attempt i s = (s', bad) \<Longrightarrow> stored s' = stored s"
    and attempt_inv: "inv s \<Longrightarrow> attempt i s = (s', bad) \<Longrightarrow> inv s'"
    and attempt_bad: "inv s \<Longrightarrow> attempt i s = (s', bad) \<Longrightarrow> bad = fails (view s i)"
    and attempt_saved: "inv s \<Longrightarrow> attempt i s = (s', bad) \<Longrightarrow> saved s' = wr (view s i) (saved s)"
    and attempt_other: "inv s \<Longrightarrow> attempt i s = (s', bad) \<Longrightarrow> j \<noteq> i \<Longrightarrow> view s' j = view s j"
begin

lemma loop_step:
  assumes "stored s = (i, b) # m" and "gmap_ok (stored s)" and "[] \<notin> fst ` set (stored s)"
    and "attempt i (setStored m s) = (s2, bad)"
  shows "loop s failed = loop s2 (if bad then failed @ [i] else failed)"
proof -
  have "StringMap_GetOne (stored s) = i" "i \<noteq> []"
    using assms(1,3) by (auto simp: StringMap_GetOne_def)
  moreover have "gdel (stored s) i = m"
    using assms(1,2) ghas_iff [of m i] by (auto simp: gdel_absent)
  ultimately show ?thesis by (simp add: loop_eq [of s] assms(4))
qed

lemma loop_spec:
  assumes "loop s failed = (s', failed')"
    and "inv s" and "gmap_ok (stored s)" and "[] \<notin> fst ` set (stored s)"
  shows "stored s' = [] \<and> inv s'
    \<and> failed' = failed @ filter (\<lambda>i. fails (view s i)) (map fst (stored s))
    \<and> saved s' = fold (\<lambda>i. wr (view s i)) (map fst (stored s)) (saved s)"
  using assms
proof (induction "stored s" arbitrary: s failed)
  case Nil
  then have "s' = s \<and> failed' = failed" by (simp add: loop_eq [of s] StringMap_GetOne_def)
  with Nil.hyps [symmetric] Nil.prems(2) show ?case by simp
next
  case (Cons a m)
  obtain i b where a: "a = (i, b)" by (cases a)
  note st = Cons.hyps(2) [unfolded a, symmetric]
  obtain s2 bad where at2: "attempt i (setStored m s) = (s2, bad)" by (cases "attempt i (setStored m s)")
  note inv1 = inv_set [OF Cons.prems(2), of m]
  note laws = attempt_inv [OF inv1 at2] attempt_bad [OF inv1 at2, unfolded view_set]
    attempt_saved [OF inv1 at2, unfolded view_set saved_set]
  have s2: "stored s2 = m" using attempt_stored [OF at2] by (simp add: stored_set)
  have m: "i \<notin> fst ` set m" "gmap_ok m" "[] \<notin> fst ` set m" using st Cons.prems(3,4) by auto
  have keep: "view s2 j = view s j" if "j \<in> set (map fst m)" for j
    using attempt_other [OF inv1 at2, unfolded view_set, of j] m(1) that by auto
  have "loop s2 (if bad then failed @ [i] else failed) = (s', failed')"
    using loop_step [OF st Cons.prems(3,4) at2] Cons.prems(1) by simp
  note IH = Cons.hyps(1) [OF s2 [symmetric] this laws(1), unfolded s2, OF m(2,3)]
  have "filter (\<lambda>j. fails (view s2 j)) (map fst m) = filter (\<lambda>j. fails (view s j)) (map fst m)"
    by (rule filter_cong [OF refl]) (simp only: keep)
  moreover have "fold (\<lambda>j. wr (view s2 j)) (map fst m) d = fold (\<lambda>j. wr (view s j)) (map fst m) d" for d
    by (rule fold_cong) (simp_all only: keep)
  ultimately show ?case using IH laws(2,3) unfolding st by simp
qed

text \<open>After the failed ids are put back, the index holds exactly the items that could not be
  stored, and every item on it was written.\<close>

lemma backup_complete:
  assumes "loop s [] = (s', failed)" and "inv s" and "gmap_ok (stored s)" and "[] \<notin> fst ` set (stored s)"
  shows "fst ` set (fold (\<lambda>i m. gset m i True) failed (stored s'))
      = {i \<in> fst ` set (stored s). fails (view s i)}"
    and "saved s' = fold (\<lambda>i. wr (view s i)) (map fst (stored s)) (saved s)"
    and "inv s'"
  using loop_spec [OF assms] by (auto simp: fst_set_fold_gset)

end

end
