(* ===== verification/Guardian.thy ===== *)
theory Guardian
  imports Utils_Core
begin

text \<open>
  Package \<^verbatim>\<open>guardian\<close>: the named locks every service runs its handlers under.
  A lock is a channel with room for one token (\<open>lk\<close>: the token is in it) and a counter of
  the callers that hold or wait for it; the locks live in an explicit store, since a lock can
  be dropped from the table \<open>locks\<close> and made anew under the same name while a caller still has
  the old one in hand. Each definition is one atomic section of the code: what happens under
  \<^verbatim>\<open>lkMux\<close>, or one channel operation (\<open>None\<close>: it blocks).

  \<open>gstep\<close> interleaves the sections of any number of callers. The invariant \<open>ginv\<close> accounts
  for the token of every lock and for every counter; from it follow mutual exclusion, that
  giving the token back never blocks and that no wake-up is lost.
  The last section runs the operations of one caller alone: \<open>lockWithReference\<close> and
  \<open>unlockWithReference\<close>.
\<close>

subsection \<open>State\<close>

record itemLock =
  lk :: bool
  cnt :: int

record GuardianLocker =
  locks :: "string \<rightharpoonup> nat"
  heap :: "nat \<Rightarrow> itemLock"
  next_addr :: nat
  refs :: "string \<rightharpoonup> string list"

definition new_Guardian :: GuardianLocker where
  "new_Guardian = \<lparr>locks = Map.empty, heap = (\<lambda>_. \<lparr>lk = False, cnt = 0\<rparr>),
     next_addr = 0, refs = Map.empty\<rparr>"

datatype lockres = NoLock | Acquired nat | MustWait nat

subsection \<open>The atomic sections\<close>

definition lockItem_lookup :: "string \<Rightarrow> GuardianLocker \<Rightarrow> GuardianLocker \<times> nat" where
  "lockItem_lookup itmID gl =
     (case locks gl itmID of
        Some a \<Rightarrow> (gl, a)
      | None \<Rightarrow> (gl\<lparr>heap := (heap gl)(next_addr gl := \<lparr>lk = True, cnt = 0\<rparr>),
                    locks := (locks gl)(itmID \<mapsto> next_addr gl),
                    next_addr := Suc (next_addr gl)\<rparr>, next_addr gl))"

definition lockItem_enter :: "string \<Rightarrow> GuardianLocker \<Rightarrow> GuardianLocker \<times> lockres" where
  "lockItem_enter itmID gl =
     (if itmID = [] then (gl, NoLock)
      else case lockItem_lookup itmID gl of (gl1, a) \<Rightarrow>
        let l = (heap gl1 a)\<lparr>cnt := cnt (heap gl1 a) + 1\<rparr>
        in if lk l then (gl1\<lparr>heap := (heap gl1)(a := l\<lparr>lk := False\<rparr>)\<rparr>, Acquired a)
           else (gl1\<lparr>heap := (heap gl1)(a := l)\<rparr>, MustWait a))"

definition lockItem_wait :: "nat \<Rightarrow> GuardianLocker \<Rightarrow> GuardianLocker option" where
  "lockItem_wait a gl =
     (if lk (heap gl a) then Some (gl\<lparr>heap := (heap gl)(a := (heap gl a)\<lparr>lk := False\<rparr>)\<rparr>)
      else None)"

definition unlockItem_enter :: "string \<Rightarrow> GuardianLocker \<Rightarrow> GuardianLocker \<times> nat option" where
  "unlockItem_enter itmID gl =
     (case locks gl itmID of
        None \<Rightarrow> (gl, None)
      | Some a \<Rightarrow>
          let l = (heap gl a)\<lparr>cnt := cnt (heap gl a) - 1\<rparr>;
              gl1 = gl\<lparr>heap := (heap gl)(a := l)\<rparr>
          in (if cnt l = 0 then gl1\<lparr>locks := (locks gl1)(itmID := None)\<rparr> else gl1, Some a))"

definition unlockItem_send :: "nat \<Rightarrow> GuardianLocker \<Rightarrow> GuardianLocker option" where
  "unlockItem_send a gl =
     (if lk (heap gl a) then None
      else Some (gl\<lparr>heap := (heap gl)(a := (heap gl a)\<lparr>lk := True\<rparr>)\<rparr>))"

subsection \<open>The operations, run by one caller\<close>

text \<open>\<open>None\<close>: the caller blocks on the channel.\<close>

definition lockItem :: "string \<Rightarrow> GuardianLocker \<Rightarrow> GuardianLocker option" where
  "lockItem itmID gl =
     (case lockItem_enter itmID gl of
        (gl', NoLock) \<Rightarrow> Some gl'
      | (gl', Acquired _) \<Rightarrow> Some gl'
      | (gl', MustWait a) \<Rightarrow> lockItem_wait a gl')"

definition unlockItem :: "string \<Rightarrow> GuardianLocker \<Rightarrow> GuardianLocker option" where
  "unlockItem itmID gl =
     (case unlockItem_enter itmID gl of
        (gl', None) \<Rightarrow> Some gl'
      | (gl', Some a) \<Rightarrow> unlockItem_send a gl')"

definition lockItems :: "string list \<Rightarrow> GuardianLocker \<Rightarrow> GuardianLocker option" where
  "lockItems = bind_all lockItem"

definition unlockItems :: "string list \<Rightarrow> GuardianLocker \<Rightarrow> GuardianLocker option" where
  "unlockItems = bind_all unlockItem"

text \<open>\<open>uuid\<close> is what \<^verbatim>\<open>utils.GenUUID\<close> returns, used when the caller gives no reference.\<close>

definition lockWithReference ::
  "string \<Rightarrow> string \<Rightarrow> string list \<Rightarrow> GuardianLocker \<Rightarrow> (GuardianLocker \<times> string) option" where
  "lockWithReference uuid refID lkIDs gl =
     (let refEmpty = (refID = []); ref = (if refEmpty then uuid else refID)
      in case lockItem ref gl of
           None \<Rightarrow> None
         | Some gl1 \<Rightarrow>
             if \<not> refEmpty \<and> refs gl1 ref \<noteq> None
             then map_option (\<lambda>gl2. (gl2, [])) (unlockItem ref gl1)
             else case lockItems lkIDs (gl1\<lparr>refs := (refs gl1)(ref \<mapsto> lkIDs)\<rparr>) of
                    None \<Rightarrow> None
                  | Some gl2 \<Rightarrow> map_option (\<lambda>gl3. (gl3, ref)) (unlockItem ref gl2))"

definition unlockWithReference ::
  "string \<Rightarrow> GuardianLocker \<Rightarrow> (GuardianLocker \<times> string list) option" where
  "unlockWithReference refID gl =
     (case lockItem refID gl of
        None \<Rightarrow> None
      | Some gl1 \<Rightarrow>
          (case refs gl1 refID of
             None \<Rightarrow> map_option (\<lambda>gl2. (gl2, [])) (unlockItem refID gl1)
           | Some lkIDs \<Rightarrow>
               (case unlockItems lkIDs (gl1\<lparr>refs := (refs gl1)(refID := None)\<rparr>) of
                  None \<Rightarrow> None
                | Some gl2 \<Rightarrow> map_option (\<lambda>gl3. (gl3, lkIDs)) (unlockItem refID gl2))))"

text \<open>What the handler passed to \<^verbatim>\<open>Guard\<close> does before the wait for it ends.\<close>

datatype 'r gout = GReply 'r | GError error | GTimeout

definition Guard ::
  "(GuardianLocker \<Rightarrow> GuardianLocker \<times> 'r gout) \<Rightarrow> duration \<Rightarrow> string list \<Rightarrow> GuardianLocker \<Rightarrow>
   (GuardianLocker \<times> 'r option \<times> error option) option" where
  "Guard handler timeout lockIDs gl =
     (case lockItems lockIDs gl of
        None \<Rightarrow> None
      | Some gl1 \<Rightarrow>
          (case handler gl1 of (gl2, out) \<Rightarrow>
             if out = GTimeout \<and> \<not> timeout > 0 then None
             else map_option
                    (\<lambda>gl3. (gl3, case out of GReply r \<Rightarrow> Some r | _ \<Rightarrow> None,
                            case out of GError e \<Rightarrow> Some e | _ \<Rightarrow> None))
                    (unlockItems lockIDs gl2)))"

text \<open>\<^verbatim>\<open>GuardIDs\<close> also starts a timer when a timeout is given: the last component.\<close>

definition GuardIDs ::
  "string \<Rightarrow> string \<Rightarrow> duration \<Rightarrow> string list \<Rightarrow> GuardianLocker \<Rightarrow>
   (GuardianLocker \<times> string \<times> bool) option" where
  "GuardIDs uuid refID timeout lkIDs gl =
     map_option (\<lambda>(gl', ret). (gl', ret, timeout \<noteq> 0 \<and> ret \<noteq> []))
       (lockWithReference uuid refID lkIDs gl)"

definition UnguardIDs :: "string \<Rightarrow> GuardianLocker \<Rightarrow> (GuardianLocker \<times> string list) option" where
  "UnguardIDs refID gl = (if refID = [] then Some (gl, []) else unlockWithReference refID gl)"

subsection \<open>Callers\<close>

text \<open>
  A call of \<^verbatim>\<open>lockItem\<close> is numbered; \<open>phases\<close> says how far it got: blocked on the channel
  of the lock, holding it, or having left \<^verbatim>\<open>lkMux\<close> in \<^verbatim>\<open>unlockItem\<close> with the token still
  to be sent. A caller unlocks what it locked, which is what every user of the package does.
\<close>

datatype phase = Free | Waiting string nat | Holding string nat | Releasing nat

record gsys =
  gl :: GuardianLocker
  phases :: "nat \<Rightarrow> phase"

definition init_gsys :: gsys where
  "init_gsys = \<lparr>gl = new_Guardian, phases = (\<lambda>_. Free)\<rparr>"

inductive gstep :: "gsys \<Rightarrow> gsys \<Rightarrow> bool" where
  lock_acquired: "phases s r = Free \<Longrightarrow> lockItem_enter itmID (gl s) = (gl', Acquired a) \<Longrightarrow>
    gstep s \<lparr>gl = gl', phases = (phases s)(r := Holding itmID a)\<rparr>"
| lock_blocked: "phases s r = Free \<Longrightarrow> lockItem_enter itmID (gl s) = (gl', MustWait a) \<Longrightarrow>
    gstep s \<lparr>gl = gl', phases = (phases s)(r := Waiting itmID a)\<rparr>"
| lock_resumed: "phases s r = Waiting itmID a \<Longrightarrow> lockItem_wait a (gl s) = Some gl' \<Longrightarrow>
    gstep s \<lparr>gl = gl', phases = (phases s)(r := Holding itmID a)\<rparr>"
| unlock_entered: "phases s r = Holding itmID a \<Longrightarrow>
    unlockItem_enter itmID (gl s) = (gl', Some b) \<Longrightarrow>
    gstep s \<lparr>gl = gl', phases = (phases s)(r := Releasing b)\<rparr>"
| unlock_sent: "phases s r = Releasing a \<Longrightarrow> unlockItem_send a (gl s) = Some gl' \<Longrightarrow>
    gstep s \<lparr>gl = gl', phases = (phases s)(r := Free)\<rparr>"

inductive greach :: "gsys \<Rightarrow> bool" where
  ginit: "greach init_gsys"
| gnext: "greach s \<Longrightarrow> gstep s t \<Longrightarrow> greach t"

subsection \<open>Counting callers\<close>

definition callers :: "(phase \<Rightarrow> bool) \<Rightarrow> (nat \<Rightarrow> phase) \<Rightarrow> int" where
  "callers P ph = int (card {r. P (ph r)})"

definition active :: "(nat \<Rightarrow> phase) \<Rightarrow> bool" where
  "active ph \<longleftrightarrow> finite {r. ph r \<noteq> Free}"

lemma finite_callers: "active ph \<Longrightarrow> \<not> P Free \<Longrightarrow> finite {r. P (ph r)}"
  unfolding active_def by (rule finite_subset [rotated]) auto

lemma callers_upd:
  assumes "active ph" and "\<not> P Free"
  shows "callers P (ph(r := x)) = callers P ph - of_bool (P (ph r)) + of_bool (P x)"
proof -
  define A where "A = {q. P (ph q)} - {r}"
  have A: "finite A" "r \<notin> A" using finite_callers [of ph P] assms by (simp_all add: A_def)
  have old: "{q. P (ph q)} = (if P (ph r) then insert r A else A)" by (auto simp: A_def)
  have new: "{q. P ((ph(r := x)) q)} = (if P x then insert r A else A)" by (auto simp: A_def)
  show ?thesis unfolding callers_def new old using A by simp
qed

lemma active_upd [simp]: "active ph \<Longrightarrow> active (ph(r := x))"
  unfolding active_def by (rule finite_subset [of _ "insert r {r. ph r \<noteq> Free}"]) auto

lemma callers_pos: "active ph \<Longrightarrow> \<not> P Free \<Longrightarrow> P (ph r) \<Longrightarrow> 1 \<le> callers P ph"
  using finite_callers [of ph P] by (auto simp: callers_def Suc_le_eq card_gt_0_iff)

lemma callers_nonneg [simp]: "0 \<le> callers P ph"
  by (simp add: callers_def)

lemma callers_one_unique:
  assumes "active ph" "\<not> P Free" "callers P ph \<le> 1" "P (ph r)" "P (ph q)"
  shows "r = q"
proof (rule ccontr)
  assume "r \<noteq> q"
  have "card {r, q} \<le> card {r. P (ph r)}"
    using assms by (intro card_mono finite_callers) auto
  with assms(3) \<open>r \<noteq> q\<close> show False by (simp add: callers_def)
qed

abbreviation uses :: "nat \<Rightarrow> phase \<Rightarrow> bool" where
  "uses a p \<equiv> \<exists>i. p = Waiting i a \<or> p = Holding i a"

abbreviation has_token :: "nat \<Rightarrow> phase \<Rightarrow> bool" where
  "has_token a p \<equiv> (\<exists>i. p = Holding i a) \<or> p = Releasing a"

subsection \<open>The invariant\<close>

definition ginv :: "gsys \<Rightarrow> bool" where
  "ginv s \<longleftrightarrow>
     active (phases s)
     \<and> (\<forall>i a. locks (gl s) i = Some a \<longrightarrow>
          a < next_addr (gl s) \<and> cnt (heap (gl s) a) = callers (uses a) (phases s)
          \<and> 0 < cnt (heap (gl s) a))
     \<and> (\<forall>i j a. locks (gl s) i = Some a \<longrightarrow> locks (gl s) j = Some a \<longrightarrow> i = j)
     \<and> (\<forall>r i a. phases s r = Waiting i a \<or> phases s r = Holding i a \<longrightarrow> locks (gl s) i = Some a)
     \<and> (\<forall>r a. phases s r = Releasing a \<longrightarrow> a < next_addr (gl s))
     \<and> (\<forall>a < next_addr (gl s). of_bool (lk (heap (gl s) a)) + callers (has_token a) (phases s) = 1)"

lemma ginvI:
  assumes "active (phases s)"
    and "\<And>i a. locks (gl s) i = Some a \<Longrightarrow> a < next_addr (gl s)"
    and "\<And>i a. locks (gl s) i = Some a \<Longrightarrow> cnt (heap (gl s) a) = callers (uses a) (phases s)"
    and "\<And>i a. locks (gl s) i = Some a \<Longrightarrow> 0 < cnt (heap (gl s) a)"
    and "\<And>i j a. locks (gl s) i = Some a \<Longrightarrow> locks (gl s) j = Some a \<Longrightarrow> i = j"
    and "\<And>r i a. phases s r = Waiting i a \<or> phases s r = Holding i a \<Longrightarrow> locks (gl s) i = Some a"
    and "\<And>r a. phases s r = Releasing a \<Longrightarrow> a < next_addr (gl s)"
    and "\<And>a. a < next_addr (gl s) \<Longrightarrow>
      of_bool (lk (heap (gl s) a)) + callers (has_token a) (phases s) = 1"
  shows "ginv s"
  unfolding ginv_def using assms by blast

lemma ginvD:
  assumes "ginv s"
  shows "active (phases s)"
    and "locks (gl s) i = Some a \<Longrightarrow> a < next_addr (gl s)"
    and "locks (gl s) i = Some a \<Longrightarrow> cnt (heap (gl s) a) = callers (uses a) (phases s)"
    and "locks (gl s) i = Some a \<Longrightarrow> 0 < cnt (heap (gl s) a)"
    and "locks (gl s) i = Some a \<Longrightarrow> locks (gl s) j = Some a \<Longrightarrow> i = j"
    and "phases s r = Waiting i a \<or> phases s r = Holding i a \<Longrightarrow> locks (gl s) i = Some a"
    and "phases s r = Releasing a \<Longrightarrow> a < next_addr (gl s)"
    and "a < next_addr (gl s) \<Longrightarrow>
      of_bool (lk (heap (gl s) a)) + callers (has_token a) (phases s) = 1"
  using assms unfolding ginv_def by blast+

lemma callers_none: "(\<And>r. \<not> P (ph r)) \<Longrightarrow> callers P ph = 0"
  by (simp add: callers_def)

text \<open>A name not in the table has a lock made for it, unused so far.\<close>

lemma ginv_lookup:
  assumes inv: "ginv s" and lookup: "lockItem_lookup itmID (gl s) = (g, a)"
  shows "locks g itmID = Some a" "a < next_addr g"
    and "next_addr (gl s) \<le> next_addr g"
    and "\<And>i b. locks g i = Some b \<Longrightarrow> b < next_addr g"
    and "\<And>i b. locks g i = Some b \<Longrightarrow> cnt (heap g b) = callers (uses b) (phases s)"
    and "\<And>i j b. locks g i = Some b \<Longrightarrow> locks g j = Some b \<Longrightarrow> i = j"
    and "\<And>r i b. phases s r = Waiting i b \<or> phases s r = Holding i b \<Longrightarrow> locks g i = Some b"
    and "\<And>b. b < next_addr g \<Longrightarrow>
      of_bool (lk (heap g b)) + callers (has_token b) (phases s) = 1"
    and "\<And>i b. locks g i = Some b \<Longrightarrow> i \<noteq> itmID \<Longrightarrow> 0 < cnt (heap g b)"
proof -
  let ?n = "next_addr (gl s)"
  have lt: "locks (gl s) i = Some b \<Longrightarrow> b \<noteq> ?n" for i b using ginvD(2) [OF inv] by blast
  have fresh: "callers (uses ?n) (phases s) = 0"
    by (rule callers_none) (use ginvD(6) [OF inv] lt in blast)
  have token: "callers (has_token ?n) (phases s) = 0"
    by (rule callers_none) (use ginvD(6,7) [OF inv] lt in blast)
  have g: "(\<exists>a. locks (gl s) itmID = Some a) \<and> g = gl s \<and> locks (gl s) itmID = Some a
    \<or> locks (gl s) itmID = None \<and> a = ?n
       \<and> g = (gl s)\<lparr>heap := (heap (gl s))(?n := \<lparr>lk = True, cnt = 0\<rparr>),
            locks := (locks (gl s))(itmID \<mapsto> ?n), next_addr := Suc ?n\<rparr>"
    using lookup by (auto simp: lockItem_lookup_def split: option.splits)
  show "locks g itmID = Some a" "?n \<le> next_addr g" using g by auto
  show "a < next_addr g" using g ginvD(2) [OF inv] by auto
  show "locks g i = Some b \<Longrightarrow> b < next_addr g" for i b
    using g ginvD(2) [OF inv, of i b] by (auto split: if_splits)
  show "locks g i = Some b \<Longrightarrow> cnt (heap g b) = callers (uses b) (phases s)" for i b
    using g fresh ginvD(3) [OF inv, of i b] lt [of i b] by (auto split: if_splits)
  show "locks g i = Some b \<Longrightarrow> locks g j = Some b \<Longrightarrow> i = j" for i j b
    using g ginvD(5) [OF inv, of i b j] lt [of i b] lt [of j b] by (auto split: if_splits)
  show "phases s r = Waiting i b \<or> phases s r = Holding i b \<Longrightarrow> locks g i = Some b" for r i b
    using g ginvD(6) [OF inv, of r i b] by auto
  show "b < next_addr g \<Longrightarrow> of_bool (lk (heap g b)) + callers (has_token b) (phases s) = 1" for b
    using g token ginvD(8) [OF inv, of b] by (auto simp: less_Suc_eq)
  show "locks g i = Some b \<Longrightarrow> i \<noteq> itmID \<Longrightarrow> 0 < cnt (heap g b)" for i b
    using g ginvD(4) [OF inv, of i b] lt [of i b] by (auto split: if_splits)
qed

lemma ginv_enter:
  assumes inv: "ginv s" and free: "phases s r = Free"
    and enter: "lockItem_enter itmID (gl s) = (g', res)"
    and p: "res = Acquired a \<and> p = Holding itmID a \<or> res = MustWait a \<and> p = Waiting itmID a"
  shows "ginv \<lparr>gl = g', phases = (phases s)(r := p)\<rparr>"
proof -
  obtain g b where look: "lockItem_lookup itmID (gl s) = (g, b)" by (cases "lockItem_lookup itmID (gl s)")
  note L = ginv_lookup [OF inv look]
  have act: "active (phases s)" by (rule ginvD(1) [OF inv])
  define l' where "l' = \<lparr>lk = False, cnt = cnt (heap g b) + 1\<rparr>"
  have g': "g' = g\<lparr>heap := (heap g)(b := l')\<rparr>" and ab: "a = b"
    and pk: "p = (if lk (heap g b) then Holding itmID b else Waiting itmID b)"
    using enter p
    by (cases "heap g b"; auto simp: lockItem_enter_def look l'_def Let_def split: if_splits)+
  have uses: "callers (uses c) ((phases s)(r := p)) = callers (uses c) (phases s) + of_bool (c = b)" for c
    by (subst callers_upd [OF act]) (auto simp: free pk)
  have tok: "callers (has_token c) ((phases s)(r := p))
      = callers (has_token c) (phases s) + of_bool (c = b \<and> lk (heap g b))" for c
    by (subst callers_upd [OF act]) (auto simp: free pk)
  have pos: "0 < cnt (heap g b) + 1" using L(5) [OF L(1)] by simp
  have other: "locks g i = Some c \<Longrightarrow> c \<noteq> b \<Longrightarrow> 0 < cnt (heap g c)" for i c
    using L(9) [of i c] L(1) by (cases "i = itmID") auto
  let ?t = "\<lparr>gl = g', phases = (phases s)(r := p)\<rparr>"
  show ?thesis
  proof (rule ginvI)
    show "active (phases ?t)" by (simp add: act)
  next
    fix i c assume "locks (gl ?t) i = Some c"
    then have c: "locks g i = Some c" by (simp add: g')
    show "c < next_addr (gl ?t)" using L(4) [OF c] by (simp add: g')
    show "cnt (heap (gl ?t) c) = callers (uses c) (phases ?t)"
      using L(5) [OF c] uses by (auto simp: g' l'_def)
    show "0 < cnt (heap (gl ?t) c)" using pos other [OF c] by (simp add: g' l'_def)
    fix j assume "locks (gl ?t) j = Some c"
    with c show "i = j" by (intro L(6)) (simp_all add: g')
  next
    fix q i c assume "phases ?t q = Waiting i c \<or> phases ?t q = Holding i c"
    then show "locks (gl ?t) i = Some c"
      using L(1) L(7) [of q i c] by (auto simp: g' pk split: if_splits)
  next
    fix q c assume "phases ?t q = Releasing c"
    then have "phases s q = Releasing c" by (auto simp: pk split: if_splits)
    then show "c < next_addr (gl ?t)" using ginvD(7) [OF inv] L(3) by (force simp: g')
  next
    fix c assume "c < next_addr (gl ?t)"
    then have c: "c < next_addr g" by (simp add: g')
    show "of_bool (lk (heap (gl ?t) c)) + callers (has_token c) (phases ?t) = 1"
      using L(8) [OF c] tok [of c] by (auto simp: g' l'_def)
  qed
qed

text \<open>
  The other sections update one lock \<open>a\<close> that a caller \<open>r\<close> is using, and its entry in the
  table: what is left to show is that the counter and the token of that lock still add up.
\<close>

abbreviation about :: "nat \<Rightarrow> phase \<Rightarrow> bool" where
  "about a p \<equiv> p = Free \<or> uses a p \<or> p = Releasing a"

lemma ginv_upd:
  assumes inv: "ginv s" and a: "a < next_addr (gl s)"
    and old: "about a (phases s r)" and new: "about a p"
    and g': "g' = (gl s)\<lparr>heap := (heap (gl s))(a := l'), locks := L\<rparr>"
    and L: "\<And>i c. L i = Some c \<Longrightarrow> locks (gl s) i = Some c"
    and cnt: "\<And>i. L i = Some a \<Longrightarrow>
      cnt l' = callers (uses a) ((phases s)(r := p)) \<and> 0 < cnt l'"
    and held: "\<And>q i c. ((phases s)(r := p)) q = Waiting i c \<or> ((phases s)(r := p)) q = Holding i c
      \<Longrightarrow> L i = Some c"
    and token: "of_bool (lk l') + callers (has_token a) ((phases s)(r := p)) = 1"
  shows "ginv \<lparr>gl = g', phases = (phases s)(r := p)\<rparr>"
proof -
  let ?t = "\<lparr>gl = g', phases = (phases s)(r := p)\<rparr>"
  have act: "active (phases s)" by (rule ginvD(1) [OF inv])
  have uses: "c \<noteq> a \<Longrightarrow> callers (uses c) ((phases s)(r := p)) = callers (uses c) (phases s)" for c
    using old new by (subst callers_upd [OF act]) auto
  have tok: "c \<noteq> a \<Longrightarrow> callers (has_token c) ((phases s)(r := p)) = callers (has_token c) (phases s)" for c
    using old new by (subst callers_upd [OF act]) auto
  show ?thesis
  proof (rule ginvI)
    show "active (phases ?t)" by (simp add: act)
  next
    fix i c assume "locks (gl ?t) i = Some c"
    then have Li: "L i = Some c" by (simp add: g')
    then have c: "locks (gl s) i = Some c" by (rule L)
    show "c < next_addr (gl ?t)" using ginvD(2) [OF inv c] by (simp add: g')
    show "cnt (heap (gl ?t) c) = callers (uses c) (phases ?t)"
      using ginvD(3) [OF inv c] uses [of c] cnt [of i] Li by (auto simp: g')
    show "0 < cnt (heap (gl ?t) c)" using ginvD(4) [OF inv c] cnt [of i] Li by (auto simp: g')
    fix j assume "locks (gl ?t) j = Some c"
    then show "i = j" using ginvD(5) [OF inv c] L [of j c] by (simp add: g')
  next
    fix q i c assume "phases ?t q = Waiting i c \<or> phases ?t q = Holding i c"
    then show "locks (gl ?t) i = Some c" using held [of q i c] by (simp add: g')
  next
    fix q c assume "phases ?t q = Releasing c"
    then show "c < next_addr (gl ?t)"
      using ginvD(7) [OF inv, of q c] a new by (auto simp: g' split: if_splits)
  next
    fix c assume "c < next_addr (gl ?t)"
    then show "of_bool (lk (heap (gl ?t) c)) + callers (has_token c) (phases ?t) = 1"
      using ginvD(8) [OF inv, of c] tok [of c] token by (auto simp: g')
  qed
qed

lemma ginv_wait:
  assumes inv: "ginv s" and ph: "phases s r = Waiting itmID a"
    and wait: "lockItem_wait a (gl s) = Some g'"
  shows "ginv \<lparr>gl = g', phases = (phases s)(r := Holding itmID a)\<rparr>"
proof -
  have act: "active (phases s)" by (rule ginvD(1) [OF inv])
  have la: "locks (gl s) itmID = Some a" by (rule ginvD(6) [OF inv disjI1, OF ph])
  note an = ginvD(2) [OF inv la]
  have lk: "lk (heap (gl s) a)"
    and g': "g' = (gl s)\<lparr>heap := (heap (gl s))(a := (heap (gl s) a)\<lparr>lk := False\<rparr>), locks := locks (gl s)\<rparr>"
    using wait by (auto simp: lockItem_wait_def split: if_splits)
  show ?thesis
  proof (rule ginv_upd [OF inv an _ _ g'])
    show "about a (phases s r)" "about a (Holding itmID a)" by (auto simp: ph)
    show "cnt ((heap (gl s) a)\<lparr>lk := False\<rparr>) = callers (uses a) ((phases s)(r := Holding itmID a))
        \<and> 0 < cnt ((heap (gl s) a)\<lparr>lk := False\<rparr>)"
      using ginvD(3,4) [OF inv la] by (subst callers_upd [OF act]) (auto simp: ph)
    show "of_bool (lk ((heap (gl s) a)\<lparr>lk := False\<rparr>))
        + callers (has_token a) ((phases s)(r := Holding itmID a)) = 1"
      using ginvD(8) [OF inv an] lk by (subst callers_upd [OF act]) (auto simp: ph)
  qed (use la ginvD(6) [OF inv] in \<open>auto split: if_splits\<close>)
qed

lemma ginv_unlock:
  assumes inv: "ginv s" and ph: "phases s r = Holding itmID a"
    and unlock: "unlockItem_enter itmID (gl s) = (g', Some b)"
  shows "ginv \<lparr>gl = g', phases = (phases s)(r := Releasing b)\<rparr>"
proof -
  have act: "active (phases s)" by (rule ginvD(1) [OF inv])
  have la: "locks (gl s) itmID = Some a" by (rule ginvD(6) [OF inv disjI2, OF ph])
  note an = ginvD(2) [OF inv la]
  define l' where "l' = (heap (gl s) a)\<lparr>cnt := cnt (heap (gl s) a) - 1\<rparr>"
  define L where "L = (if cnt l' = 0 then (locks (gl s))(itmID := None) else locks (gl s))"
  have ab: "b = a" and g': "g' = (gl s)\<lparr>heap := (heap (gl s))(a := l'), locks := L\<rparr>"
    using unlock by (auto simp: unlockItem_enter_def la Let_def l'_def L_def)
  let ?ph = "(phases s)(r := Releasing a)"
  have cnt: "cnt l' = callers (uses a) ?ph"
    using ginvD(3) [OF inv la] by (subst callers_upd [OF act]) (auto simp: ph l'_def)
  have "L i = Some c" if "?ph q = Waiting i c \<or> ?ph q = Holding i c" for q i c
  proof -
    have lc: "locks (gl s) i = Some c" using that ginvD(6) [OF inv, of q i c] by (auto split: if_splits)
    have "cnt l' \<noteq> 0" if "i = itmID"
    proof -
      have "uses a (?ph q)" using \<open>?ph q = Waiting i c \<or> ?ph q = Holding i c\<close> that lc la by auto
      with cnt show ?thesis using callers_pos [of ?ph "uses a" q] act by simp
    qed
    with lc show ?thesis by (auto simp: L_def)
  qed
  then show ?thesis unfolding ab
  proof (intro ginv_upd [OF inv an _ _ g'])
    show "about a (phases s r)" "about a (Releasing a)" by (auto simp: ph)
    show "L i = Some c \<Longrightarrow> locks (gl s) i = Some c" for i c by (auto simp: L_def split: if_splits)
    show "cnt l' = callers (uses a) ?ph \<and> 0 < cnt l'" if "L i = Some a" for i
    proof -
      have "i = itmID" using that ginvD(5) [OF inv _ la] by (auto simp: L_def split: if_splits)
      with that have "cnt l' \<noteq> 0" by (auto simp: L_def split: if_splits)
      with cnt show ?thesis using callers_nonneg [of "uses a" ?ph] by linarith
    qed
    show "of_bool (lk l') + callers (has_token a) ?ph = 1"
      using ginvD(8) [OF inv an] by (subst callers_upd [OF act]) (auto simp: ph l'_def)
  qed auto
qed

lemma ginv_send:
  assumes inv: "ginv s" and ph: "phases s r = Releasing a"
    and send: "unlockItem_send a (gl s) = Some g'"
  shows "ginv \<lparr>gl = g', phases = (phases s)(r := Free)\<rparr>"
proof -
  have act: "active (phases s)" by (rule ginvD(1) [OF inv])
  note an = ginvD(7) [OF inv ph]
  have lk: "\<not> lk (heap (gl s) a)"
    and g': "g' = (gl s)\<lparr>heap := (heap (gl s))(a := (heap (gl s) a)\<lparr>lk := True\<rparr>), locks := locks (gl s)\<rparr>"
    using send by (auto simp: unlockItem_send_def split: if_splits)
  show ?thesis
  proof (rule ginv_upd [OF inv an _ _ g'])
    show "about a (phases s r)" "about a Free" by (auto simp: ph)
    show "cnt ((heap (gl s) a)\<lparr>lk := True\<rparr>) = callers (uses a) ((phases s)(r := Free))
        \<and> 0 < cnt ((heap (gl s) a)\<lparr>lk := True\<rparr>)" if "locks (gl s) i = Some a" for i
      using ginvD(3,4) [OF inv that] by (subst callers_upd [OF act]) (auto simp: ph)
    show "of_bool (lk ((heap (gl s) a)\<lparr>lk := True\<rparr>))
        + callers (has_token a) ((phases s)(r := Free)) = 1"
      using ginvD(8) [OF inv an] lk by (subst callers_upd [OF act]) (auto simp: ph)
  qed (use ginvD(6) [OF inv] in \<open>auto split: if_splits\<close>)
qed

lemma ginv_init: "ginv init_gsys"
  by (rule ginvI) (auto simp: init_gsys_def new_Guardian_def active_def)

lemma ginv_step: "gstep s t \<Longrightarrow> ginv s \<Longrightarrow> ginv t"
proof (induction rule: gstep.induct)
  case (lock_acquired s r itmID gl' a)
  then show ?case by (intro ginv_enter) auto
next
  case (lock_blocked s r itmID gl' a)
  then show ?case by (intro ginv_enter) auto
qed (auto intro: ginv_wait ginv_unlock ginv_send)

lemma ginv_reach: "greach s \<Longrightarrow> ginv s"
  by (induction rule: greach.induct) (auto intro: ginv_init ginv_step)

subsection \<open>What the invariant gives\<close>

lemma holders_exclusive:
  assumes "ginv s" and "phases s r = Holding i a" and "phases s q = Holding i b"
  shows "r = q"
proof -
  have act: "active (phases s)" by (rule ginvD(1) [OF assms(1)])
  have a: "locks (gl s) i = Some a" and b: "locks (gl s) i = Some b"
    using ginvD(6) [OF assms(1)] assms(2,3) by blast+
  then have ab: "b = a" by simp
  have "callers (has_token a) (phases s) \<le> 1"
    using ginvD(8) [OF assms(1) ginvD(2) [OF assms(1) a]] by (auto simp: of_bool_def split: if_splits)
  then show ?thesis
    using assms(2,3) ab callers_one_unique [OF act, of "has_token a" r q] by auto
qed

lemma send_enabled:
  assumes "ginv s" and "phases s r = Releasing a"
  shows "\<exists>gl'. unlockItem_send a (gl s) = Some gl'"
proof -
  have "1 \<le> callers (has_token a) (phases s)"
    using callers_pos [OF ginvD(1) [OF assms(1)], of "has_token a" r] assms(2) by simp
  with ginvD(8) [OF assms(1) ginvD(7) [OF assms]] have "\<not> lk (heap (gl s) a)"
    by (auto simp: of_bool_def split: if_splits)
  then show ?thesis by (simp add: unlockItem_send_def)
qed

lemma wait_enabled:
  assumes "ginv s" and "phases s r = Waiting i a"
    and "\<And>q. \<not> has_token a (phases s q)"
  shows "\<exists>gl'. lockItem_wait a (gl s) = Some gl'"
proof -
  have "callers (has_token a) (phases s) = 0" using assms(3) by (intro callers_none) blast
  moreover have "a < next_addr (gl s)"
    using ginvD(2,6) [OF assms(1)] assms(2) by blast
  ultimately show ?thesis
    using ginvD(8) [OF assms(1), of a] by (auto simp: lockItem_wait_def of_bool_def split: if_splits)
qed

subsection \<open>One caller alone\<close>

text \<open>Every lock of the table is held, once, and no two names share a lock.\<close>

definition seq_ok :: "GuardianLocker \<Rightarrow> bool" where
  "seq_ok g \<longleftrightarrow>
     (\<forall>i a. locks g i = Some a \<longrightarrow> a < next_addr g \<and> heap g a = \<lparr>lk = False, cnt = 1\<rparr>)
     \<and> (\<forall>i j a. locks g i = Some a \<longrightarrow> locks g j = Some a \<longrightarrow> i = j)"

lemma lockItem_free:
  assumes "seq_ok g" and "locks g i = None" and "i \<noteq> []"
  obtains g' where "lockItem i g = Some g'" "seq_ok g'"
    "dom (locks g') = insert i (dom (locks g))" "refs g' = refs g"
proof -
  let ?n = "next_addr g"
  let ?g = "g\<lparr>heap := (heap g)(?n := \<lparr>lk = False, cnt = 1\<rparr>),
      locks := (locks g)(i \<mapsto> ?n), next_addr := Suc ?n\<rparr>"
  have "lockItem i g = Some ?g"
    using assms by (simp add: lockItem_def lockItem_enter_def lockItem_lookup_def)
  moreover have "seq_ok ?g"
    using assms(1,2) unfolding seq_ok_def by (auto simp: less_Suc_eq split: if_splits)
  ultimately show ?thesis using that by simp
qed

lemma unlockItem_held:
  assumes "seq_ok g" and "i \<in> dom (locks g)"
  obtains g' where "unlockItem i g = Some g'" "seq_ok g'"
    "dom (locks g') = dom (locks g) - {i}" "refs g' = refs g"
proof -
  from assms obtain a where a: "locks g i = Some a" "heap g a = \<lparr>lk = False, cnt = 1\<rparr>"
    by (auto simp: seq_ok_def)
  let ?g = "g\<lparr>heap := (heap g)(a := \<lparr>lk = True, cnt = 0\<rparr>), locks := (locks g)(i := None)\<rparr>"
  have "unlockItem i g = Some ?g"
    using a by (simp add: unlockItem_def unlockItem_enter_def unlockItem_send_def)
  moreover have "seq_ok ?g"
    using assms(1) a(1) unfolding seq_ok_def by (auto split: if_splits)
  ultimately show ?thesis using that by simp
qed

text \<open>
  The interface the loops over several names rest on: taking a free name and giving back a held
  one succeed and change nothing else. \<open>frame\<close> is the part of the state the locks are not
  about.
\<close>

locale named_locks =
  fixes lock unlock :: "'i \<Rightarrow> 's \<Rightarrow> 's option"
    and ok :: "'s \<Rightarrow> bool"
    and held :: "'s \<Rightarrow> 'i set"
    and valid :: "'i \<Rightarrow> bool"
    and frame :: "'s \<Rightarrow> 'f"
  assumes lock_free: "ok s \<Longrightarrow> i \<notin> held s \<Longrightarrow> valid i \<Longrightarrow>
      \<exists>t. lock i s = Some t \<and> ok t \<and> held t = insert i (held s) \<and> frame t = frame s"
    and unlock_held: "ok s \<Longrightarrow> i \<in> held s \<Longrightarrow>
      \<exists>t. unlock i s = Some t \<and> ok t \<and> held t = held s - {i} \<and> frame t = frame s"
begin

lemma lock_all:
  assumes "ok s" and "distinct ids" and "\<forall>i \<in> set ids. valid i" and "set ids \<inter> held s = {}"
  shows "\<exists>t. bind_all lock ids s = Some t \<and> ok t \<and> held t = set ids \<union> held s \<and> frame t = frame s"
  using assms
proof (induction ids arbitrary: s)
  case (Cons i ids)
  then obtain t where t: "lock i s = Some t" "ok t" "held t = insert i (held s)" "frame t = frame s"
    using lock_free [of s i] by auto
  have "set ids \<inter> held t = {}" using Cons.prems t by auto
  with Cons.IH [of t] Cons.prems t show ?case by auto
qed simp

lemma unlock_all:
  assumes "ok s" and "distinct ids" and "set ids \<subseteq> held s"
  shows "\<exists>t. bind_all unlock ids s = Some t \<and> ok t \<and> held t = held s - set ids \<and> frame t = frame s"
  using assms
proof (induction ids arbitrary: s)
  case (Cons i ids)
  then obtain t where t: "unlock i s = Some t" "ok t" "held t = held s - {i}" "frame t = frame s"
    using unlock_held [of s i] by auto
  have "set ids \<subseteq> held t" using Cons.prems t by auto
  with Cons.IH [of t] Cons.prems t show ?case by auto
qed simp

text \<open>Taking several names and giving all of them back leaves the held names as they were.\<close>

lemma lock_unlock_all:
  assumes "ok s" and "distinct ids" and "\<forall>i \<in> set ids. valid i" and "set ids \<inter> held s = {}"
  shows "\<exists>t u. bind_all lock ids s = Some t \<and> bind_all unlock ids t = Some u \<and> ok u
    \<and> held u = held s \<and> frame u = frame s"
proof -
  obtain t where t: "bind_all lock ids s = Some t" "ok t" "held t = set ids \<union> held s"
    "frame t = frame s" using lock_all [OF assms] by blast
  with unlock_all [of t ids] assms(2,4) show ?thesis by auto
qed

end

interpretation gl: named_locks lockItem unlockItem seq_ok "\<lambda>g. dom (locks g)" "\<lambda>i. i \<noteq> []" refs
proof unfold_locales
  fix s :: GuardianLocker and i :: string
  assume "seq_ok s" "i \<notin> dom (locks s)" "i \<noteq> []"
  then show "\<exists>t. lockItem i s = Some t \<and> seq_ok t \<and> dom (locks t) = insert i (dom (locks s))
      \<and> refs t = refs s"
    using lockItem_free [of s i] by (metis domIff)
next
  fix s :: GuardianLocker and i :: string
  assume "seq_ok s" "i \<in> dom (locks s)"
  then show "\<exists>t. unlockItem i s = Some t \<and> seq_ok t \<and> dom (locks t) = dom (locks s) - {i}
      \<and> refs t = refs s"
    using unlockItem_held [of s i] by metis
qed

lemma seq_ok_refs [simp]: "seq_ok (g\<lparr>refs := R\<rparr>) = seq_ok g"
  by (simp add: seq_ok_def)

lemma lockWithReference_free:
  assumes "seq_ok g" and "distinct ids" and "[] \<notin> set ids" and "set ids \<inter> dom (locks g) = {}"
    and "ref \<noteq> []" and "ref \<notin> dom (locks g)" and "ref \<notin> set ids" and "refs g ref = None"
  shows "\<exists>g'. lockWithReference uuid ref ids g = Some (g', ref) \<and> seq_ok g'
    \<and> dom (locks g') = set ids \<union> dom (locks g) \<and> refs g' = (refs g)(ref \<mapsto> ids)"
proof -
  have "locks g ref = None" using assms by (auto simp: domIff)
  then obtain g1 where g1: "lockItem ref g = Some g1" "seq_ok g1"
    "dom (locks g1) = insert ref (dom (locks g))" "refs g1 = refs g"
    using lockItem_free [of g ref] assms by metis
  define g1' where "g1' = g1\<lparr>refs := (refs g1)(ref \<mapsto> ids)\<rparr>"
  have d1: "seq_ok g1'" "dom (locks g1') = insert ref (dom (locks g))"
    "refs g1' = (refs g)(ref \<mapsto> ids)" using g1 by (simp_all add: g1'_def)
  have "set ids \<inter> dom (locks g1') = {}" using assms(4,7) d1(2) by auto
  then obtain g2 where g2: "lockItems ids g1' = Some g2" "seq_ok g2"
    "dom (locks g2) = set ids \<union> dom (locks g1')" "refs g2 = refs g1'"
    using gl.lock_all [of g1' ids] assms(2,3) d1(1) unfolding lockItems_def by metis
  then have "ref \<in> dom (locks g2)" using d1 by simp
  then obtain g3 where g3: "unlockItem ref g2 = Some g3" "seq_ok g3"
    "dom (locks g3) = dom (locks g2) - {ref}" "refs g3 = refs g2"
    using unlockItem_held [of g2 ref] g2 by metis
  have "lockWithReference uuid ref ids g = Some (g3, ref)"
    using g1 g2(1) g3(1) assms(5,8) by (simp add: lockWithReference_def g1'_def)
  moreover have "dom (locks g3) = set ids \<union> dom (locks g)" using g2 g3 d1 assms(6,7) by auto
  ultimately show ?thesis using g2 g3 d1 by simp
qed

lemma unlockWithReference_held:
  assumes "seq_ok g" and "distinct ids" and "set ids \<subseteq> dom (locks g)"
    and "ref \<noteq> []" and "ref \<notin> dom (locks g)" and "refs g ref = Some ids"
  shows "\<exists>g'. unlockWithReference ref g = Some (g', ids) \<and> seq_ok g'
    \<and> dom (locks g') = dom (locks g) - set ids \<and> refs g' = (refs g)(ref := None)"
proof -
  have "locks g ref = None" using assms by (auto simp: domIff)
  then obtain g1 where g1: "lockItem ref g = Some g1" "seq_ok g1"
    "dom (locks g1) = insert ref (dom (locks g))" "refs g1 = refs g"
    using lockItem_free [of g ref] assms by metis
  define g1' where "g1' = g1\<lparr>refs := (refs g1)(ref := None)\<rparr>"
  have d1: "seq_ok g1'" "dom (locks g1') = insert ref (dom (locks g))"
    "refs g1' = (refs g)(ref := None)" using g1 by (simp_all add: g1'_def)
  have "set ids \<subseteq> dom (locks g1')" using assms(3) d1(2) by blast
  then obtain g2 where g2: "unlockItems ids g1' = Some g2" "seq_ok g2"
    "dom (locks g2) = dom (locks g1') - set ids" "refs g2 = refs g1'"
    using gl.unlock_all [of g1' ids] assms(2) d1(1) unfolding unlockItems_def by metis
  then have "ref \<in> dom (locks g2)" using d1 assms(3,5) by blast
  then obtain g3 where g3: "unlockItem ref g2 = Some g3" "seq_ok g3"
    "dom (locks g3) = dom (locks g2) - {ref}" "refs g3 = refs g2"
    using unlockItem_held [of g2 ref] g2 by metis
  have "unlockWithReference ref g = Some (g3, ids)"
    using g1 g2(1) g3(1) assms(6) by (simp add: unlockWithReference_def g1'_def)
  moreover have "dom (locks g3) = dom (locks g) - set ids" using g2 g3 d1 assms(3,5) by auto
  ultimately show ?thesis using g2 g3 d1 by simp
qed

subsection \<open>Properties\<close>

text \<open>A reachable state: the first caller holds a lock that the second one waits for.\<close>

definition held_state :: gsys where
  "held_state = \<lparr>gl = fst (lockItem_enter ''A'' new_Guardian), phases = (\<lambda>_. Free)(0 := Holding ''A'' 0)\<rparr>"

definition waiting_state :: gsys where
  "waiting_state = \<lparr>gl = fst (lockItem_enter ''A'' (gl held_state)),
     phases = (phases held_state)(1 := Waiting ''A'' 0)\<rparr>"

definition releasing_state :: gsys where
  "releasing_state = \<lparr>gl = fst (unlockItem_enter ''A'' (gl waiting_state)),
     phases = (phases waiting_state)(0 := Releasing 0)\<rparr>"

definition sent_state :: gsys where
  "sent_state = \<lparr>gl = the (unlockItem_send 0 (gl releasing_state)),
     phases = (phases releasing_state)(0 := Free)\<rparr>"

lemma greach_held: "greach held_state"
proof -
  have "gstep init_gsys held_state"
    unfolding held_state_def
    using gstep.lock_acquired [of init_gsys 0 "''A''" "fst (lockItem_enter ''A'' new_Guardian)" 0]
    by (simp add: init_gsys_def lockItem_enter_def lockItem_lookup_def new_Guardian_def Let_def)
  with ginit show ?thesis by (rule gnext)
qed

lemma greach_waiting: "greach waiting_state"
proof -
  have "gstep held_state waiting_state"
    unfolding waiting_state_def
    by (rule gstep.lock_blocked)
      (simp_all add: held_state_def lockItem_enter_def lockItem_lookup_def new_Guardian_def Let_def)
  with greach_held show ?thesis by (rule gnext)
qed

lemmas state_simps = waiting_state_def held_state_def releasing_state_def sent_state_def
  lockItem_enter_def lockItem_lookup_def unlockItem_enter_def unlockItem_send_def
  new_Guardian_def Let_def

lemma greach_releasing: "greach releasing_state"
proof -
  have "gstep waiting_state releasing_state"
    unfolding releasing_state_def
    by (rule gstep.unlock_entered) (simp_all add: state_simps)
  with greach_waiting show ?thesis by (rule gnext)
qed

lemma greach_sent: "greach sent_state"
proof -
  have "gstep releasing_state sent_state"
    unfolding sent_state_def
    by (rule gstep.unlock_sent [of releasing_state 0 0]) (auto simp: state_simps fun_eq_iff)
  with greach_releasing show ?thesis by (rule gnext)
qed

text \<open>Claim C31. Mutual exclusion: in every state that any interleaving of callers can reach, at most
  one caller holds the lock of a name, even though locks are dropped from the table and made
  anew.\<close>

theorem guardian_mutual_exclusion:
  assumes "greach s" and "phases s r = Holding i a" and "phases s q = Holding i b"
  shows "r = q \<and> a = b"
  using holders_exclusive [OF ginv_reach [OF assms(1)] assms(2,3)] assms(2,3) by simp

theorem guardian_mutual_exclusion_witness:
  "phases waiting_state 0 = Holding ''A'' 0 \<and> {q. \<exists>b. phases waiting_state q = Holding ''A'' b} = {0}"
proof -
  have h: "phases waiting_state 0 = Holding ''A'' 0"
    by (simp add: waiting_state_def held_state_def)
  then show ?thesis using guardian_mutual_exclusion [OF greach_waiting h] by auto
qed

text \<open>Giving a lock back never blocks, although it happens outside the mutex: the channel
  has room for the token of whoever is releasing.\<close>

theorem guardian_unlock_never_blocks:
  assumes "greach s" and "phases s r = Releasing a"
  shows "\<exists>gl'. unlockItem_send a (gl s) = Some gl'"
  using send_enabled [OF ginv_reach [OF assms(1)] assms(2)] .

theorem guardian_unlock_never_blocks_witness:
  "\<exists>gl'. unlockItem_send 0 (gl releasing_state) = Some gl'"
  using guardian_unlock_never_blocks [OF greach_releasing, of 0 0] by (simp add: state_simps)

text \<open>Claim C32. No wake-up is lost: a caller waiting for a lock that nobody holds or is giving back
  can go on, and takes it.\<close>

theorem guardian_no_lost_wakeup:
  assumes "greach s" and "phases s r = Waiting i a" and "\<And>q. \<not> has_token a (phases s q)"
  shows "\<exists>t. gstep s t \<and> phases t r = Holding i a"
proof -
  obtain g where "lockItem_wait a (gl s) = Some g"
    using wait_enabled [OF ginv_reach [OF assms(1)] assms(2,3)] by blast
  from gstep.lock_resumed [OF assms(2) this] show ?thesis by fastforce
qed

theorem guardian_no_lost_wakeup_witness:
  "\<exists>t. gstep sent_state t \<and> phases t 1 = Holding ''A'' 0"
  by (rule guardian_no_lost_wakeup [OF greach_sent]) (auto simp: state_simps)

text \<open>Locking several names under a reference and unlocking the reference gives every name
  back: both calls go through, the second returns the names locked, and the table and the
  references end as they began.\<close>

theorem guardian_reference_roundtrip:
  assumes "seq_ok g" and "distinct ids" and "[] \<notin> set ids" and "set ids \<inter> dom (locks g) = {}"
    and "ref \<noteq> []" and "ref \<notin> dom (locks g)" and "ref \<notin> set ids" and "refs g ref = None"
  shows "\<exists>g1 g2. GuardIDs uuid ref 0 ids g = Some (g1, ref, False)
    \<and> set ids \<subseteq> dom (locks g1) \<and> UnguardIDs ref g1 = Some (g2, ids)
    \<and> seq_ok g2 \<and> dom (locks g2) = dom (locks g) \<and> refs g2 = refs g"
proof -
  obtain g1 where g1: "lockWithReference uuid ref ids g = Some (g1, ref)" "seq_ok g1"
    "dom (locks g1) = set ids \<union> dom (locks g)" "refs g1 = (refs g)(ref \<mapsto> ids)"
    using lockWithReference_free [OF assms] by blast
  have "ref \<notin> dom (locks g1)" "set ids \<subseteq> dom (locks g1)" using g1(3) assms(6,7) by auto
  with unlockWithReference_held [OF g1(2) assms(2) _ assms(5)] g1(4)
  obtain g2 where g2: "unlockWithReference ref g1 = Some (g2, ids)" "seq_ok g2"
    "dom (locks g2) = dom (locks g1) - set ids" "refs g2 = (refs g1)(ref := None)" by auto
  have "refs g2 = refs g" using g2(4) g1(4) assms(8) by auto
  moreover have "dom (locks g2) = dom (locks g)" using g2(3) g1(3) assms(4) by auto
  ultimately show ?thesis using g1 g2 assms(5) by (auto simp: GuardIDs_def UnguardIDs_def)
qed

theorem guardian_reference_roundtrip_witness:
  "\<exists>g1 g2. GuardIDs ''u'' ''ref'' 0 [''A'', ''B''] new_Guardian = Some (g1, ''ref'', False)
    \<and> set [''A'', ''B''] \<subseteq> dom (locks g1) \<and> UnguardIDs ''ref'' g1 = Some (g2, [''A'', ''B''])
    \<and> seq_ok g2 \<and> dom (locks g2) = dom (locks new_Guardian) \<and> refs g2 = refs new_Guardian"
  by (rule guardian_reference_roundtrip) (simp_all add: new_Guardian_def seq_ok_def)

end
