(* ===== verification/Resources.thy ===== *)
theory Resources
  imports Service_Common Guardian
begin

text \<open>
  \<^verbatim>\<open>engine/resources.go\<close>: counted resources with limits (ResourceS).

  A \<open>Resource\<close> holds the usages granted so far, the ids of those that expire in the order in
  which they were granted (\<open>TTLIdx\<close>) and a cached total (\<open>tUsage\<close>, \<open>None\<close> when it has to be
  recomputed). The operations take the instant \<open>now\<close> that \<^verbatim>\<open>time.Now()\<close> returns; one call
  reads the clock as one instant. \<^verbatim>\<open>matchingResourcesForEvent\<close> and the API handlers take the
  components they call (DataManager, FilterS, the filter indexes, the connection to ThresholdS)
  as an environment \<open>res_env\<close>. The caches the service fills are part of its state \<open>res_svc\<close>,
  without eviction. The handlers run under \<^verbatim>\<open>guardian.Guard\<close>, so one handler at a time
  touches a resource.

  Shown: the representation invariant (and how the panic on a nil total breaks it), that a failed multi resource allocation leaves no
  usage behind, that the total never passes the limit of the resource that granted it, that
  the cached total is the sum of the usages for integral units, that a backup leaves indexed
  exactly what it could not save, and four defects: the nil dereference of
  \<open>removeExpiredUnits\<close>, the lost error of \<open>matchingResourcesForEvent\<close>, the release that is never
  stored and the failed call that the response cache repeats as a success.
\<close>

subsection \<open>Data\<close>

record ResourceProfile =
  rpTenant :: string
  rpID :: string
  rpFilterIDs :: "string list"
  rpActivationInterval :: "ActivationInterval option"
  rpUsageTTL :: duration
  rpLimit :: float64
  rpAllocationMessage :: string
  rpBlocker :: bool
  rpStored :: bool
  rpWeight :: float64
  rpThresholdIDs :: "string list"

definition ResourceProfile_TenantID :: "ResourceProfile \<Rightarrow> string" where
  "ResourceProfile_TenantID rp = ConcatenatedKey [rpTenant rp, rpID rp]"

record ResourceUsage =
  ruTenant :: string
  ruID :: string
  ruExpiryTime :: gotime
  ruUnits :: float64

definition ResourceUsage_TenantID :: "ResourceUsage \<Rightarrow> string" where
  "ResourceUsage_TenantID ru = ConcatenatedKey [ruTenant ru, ruID ru]"

definition isActive :: "ResourceUsage \<Rightarrow> gotime \<Rightarrow> bool" where
  "isActive ru atTime \<longleftrightarrow> IsZero (ruExpiryTime ru) \<or> time_Sub (ruExpiryTime ru) atTime > 0"

record Resource =
  rTenant :: string
  rID :: string
  Usages :: "(string, ResourceUsage) gmap"
  TTLIdx :: "string list"
  rttl :: "duration option"
  tUsage :: "float64 option"
  rdirty :: "bool option"
  rPrf :: "ResourceProfile option"

definition Resource_TenantID :: "Resource \<Rightarrow> string" where
  "Resource_TenantID r = ConcatenatedKey [rTenant r, rID r]"

subsection \<open>One resource\<close>

text \<open>The index of the first usage that is still active.\<close>

fun firstActive :: "gotime \<Rightarrow> (string, ResourceUsage) gmap \<Rightarrow> string list \<Rightarrow> nat" where
  "firstActive now usages [] = 0"
| "firstActive now usages (i # idx) =
     (case gget usages i of
        Some ru \<Rightarrow> if isActive ru now then 0 else Suc (firstActive now usages idx)
      | None \<Rightarrow> Suc (firstActive now usages idx))"

text \<open>The loop that drops the expired usages: \<^verbatim>\<open>*r.tUsage -= ru.Units\<close> panics when the
  total is not cached. The usage is deleted by then, so the panic comes with the resource as it
  was left.\<close>

fun expire_loop :: "string list \<Rightarrow> Resource \<Rightarrow> (Resource \<times> error) + Resource" where
  "expire_loop [] r = Inr r"
| "expire_loop (i # idx) r =
     (case gget (Usages r) i of
        None \<Rightarrow> expire_loop idx r
      | Some ru \<Rightarrow>
          (case tUsage r of
             None \<Rightarrow> Inl (r\<lparr>Usages := gdel (Usages r) i\<rparr>, Panic ''nil pointer dereference'')
           | Some tu \<Rightarrow>
               let tu' = fsub tu (ruUnits ru)
               in expire_loop idx
                    (r\<lparr>Usages := gdel (Usages r) i,
                       tUsage := (if fless tu' (Fin 0) then None else Some tu')\<rparr>)))"

definition removeExpiredUnits :: "gotime \<Rightarrow> Resource \<Rightarrow> (Resource \<times> error) + Resource" where
  "removeExpiredUnits now r =
     (let n = firstActive now (Usages r) (TTLIdx r)
      in if n = 0 then Inr r
         else case expire_loop (take n (TTLIdx r)) r of
                Inl (r', e) \<Rightarrow> Inl (r', e)
              | Inr r' \<Rightarrow> Inr (r'\<lparr>TTLIdx := drop n (TTLIdx r'), tUsage := None\<rparr>))"

definition sum_units :: "(string, ResourceUsage) gmap \<Rightarrow> float64" where
  "sum_units us = foldl (\<lambda>tu kv. fadd tu (ruUnits (snd kv))) (Fin 0) us"

definition totalUsage :: "Resource \<Rightarrow> Resource \<times> float64" where
  "totalUsage r =
     (case tUsage r of
        None \<Rightarrow> let tu = sum_units (Usages r) in (r\<lparr>tUsage := Some tu\<rparr>, tu)
      | Some tu \<Rightarrow> (r, tu))"

definition recordUsage :: "gotime \<Rightarrow> Resource \<Rightarrow> ResourceUsage \<Rightarrow> Resource \<times> error option" where
  "recordUsage now r ru =
     (if ghas (Usages r) (ruID ru) then
        (r, Some (ErrMsg (''duplicate resource usage with id: '' @ ResourceUsage_TenantID ru)))
      else if rttl r = Some 0 then (r, None)
      else
        let ru' = (case rttl r of
                     None \<Rightarrow> ru
                   | Some ttl \<Rightarrow> if ttl \<noteq> -1 then ru\<lparr>ruExpiryTime := time_Add now ttl\<rparr> else ru)
        in (r\<lparr>Usages := gset (Usages r) (ruID ru') ru',
              tUsage := map_option (\<lambda>tu. fadd tu (ruUnits ru')) (tUsage r),
              TTLIdx := (if \<not> IsZero (ruExpiryTime ru') then TTLIdx r @ [ruID ru'] else TTLIdx r)\<rparr>,
            None))"

definition clearUsage :: "Resource \<Rightarrow> string \<Rightarrow> Resource \<times> error option" where
  "clearUsage r ruid =
     (case gget (Usages r) ruid of
        None \<Rightarrow> (r, Some (ErrMsg (''cannot find usage record with id: '' @ ruid)))
      | Some ru \<Rightarrow>
          (r\<lparr>TTLIdx := (if \<not> IsZero (ruExpiryTime ru) then remove1 ruid (TTLIdx r) else TTLIdx r),
             tUsage := map_option (\<lambda>tu. fsub tu (ruUnits ru)) (tUsage r),
             Usages := gdel (Usages r) ruid\<rparr>, None))"

subsection \<open>Several resources\<close>

definition Resources_Sort :: "Resource list \<Rightarrow> Resource list" where
  "Resources_Sort rs =
     sort_less (\<lambda>a b. case (rPrf a, rPrf b) of
                        (Some pa, Some pb) \<Rightarrow> fless (rpWeight pb) (rpWeight pa)
                      | _ \<Rightarrow> False) rs"

fun record_all ::
  "gotime \<Rightarrow> ResourceUsage \<Rightarrow> Resource list \<Rightarrow> Resource list \<times> nat \<times> error option" where
  "record_all now ru [] = ([], 0, None)"
| "record_all now ru (r # rs) =
     (case recordUsage now r ru of
        (r', Some e) \<Rightarrow> (r' # rs, 0, Some e)
      | (r', None) \<Rightarrow>
          (case record_all now ru rs of (rs', n, e) \<Rightarrow> (r' # rs', Suc n, e)))"

definition Resources_recordUsage ::
  "gotime \<Rightarrow> ResourceUsage \<Rightarrow> Resource list \<Rightarrow> Resource list \<times> error option" where
  "Resources_recordUsage now ru rs =
     (case record_all now ru rs of (rs', nonReservedIdx, err) \<Rightarrow>
        if err \<noteq> None then
          (map (\<lambda>r. fst (clearUsage r (ruID ru))) (take nonReservedIdx rs') @ drop nonReservedIdx rs',
           err)
        else (rs', None))"

fun Resources_clearUsage :: "string \<Rightarrow> Resource list \<Rightarrow> Resource list \<times> error option" where
  "Resources_clearUsage ruTntID [] = ([], None)"
| "Resources_clearUsage ruTntID (r # rs) =
     (case clearUsage r ruTntID of (r', errClear) \<Rightarrow>
        let own = (if errClear \<noteq> None \<and> rttl r \<noteq> None \<and> rttl r \<noteq> Some 0 then errClear else None)
        in case Resources_clearUsage ruTntID rs of (rs', err) \<Rightarrow>
             (r' # rs', if err \<noteq> None then err else own))"

definition resIDsMp :: "Resource list \<Rightarrow> StringMap" where
  "resIDsMp rs = fold (\<lambda>r mp. gset mp (rID r) True) rs []"

definition tenatIDs :: "Resource list \<Rightarrow> string list" where
  "tenatIDs rs = map Resource_TenantID rs"

definition Resources_IDs :: "Resource list \<Rightarrow> string list" where
  "Resources_IDs rs = map rID rs"

text \<open>The simulation loop of \<^verbatim>\<open>allocateResource\<close>. One turn gives the resource after it and
  the message of the first resource with room so far, or the error that ends the loop.\<close>

definition alloc_visit ::
  "gotime \<Rightarrow> ResourceUsage \<Rightarrow> bool \<Rightarrow> Resource \<Rightarrow> string \<Rightarrow> (Resource \<times> error) + (Resource \<times> string)" where
  "alloc_visit now ru dryRun r alcMessage =
     (case removeExpiredUnits now r of
        Inl (r', e) \<Rightarrow> Inl (r', e)
      | Inr r1 \<Rightarrow>
          let r2 = (if ghas (Usages r1) (ruID ru) \<and> \<not> dryRun
                    then fst (clearUsage r1 (ruID ru)) else r1)
          in case rPrf r2 of
               None \<Rightarrow>
                 Inl (r2, ErrMsg (''empty configuration for resourceID: '' @ Resource_TenantID r2))
             | Some rp \<Rightarrow>
                 (case totalUsage r2 of (r3, tU) \<Rightarrow>
                    Inr (r3,
                      if fleq (fadd tU (ruUnits ru)) (rpLimit rp) \<and> alcMessage = [] then
                        (if rpAllocationMessage rp \<noteq> [] then rpAllocationMessage rp else rpID rp)
                      else alcMessage)))"

fun alloc_loop ::
  "gotime \<Rightarrow> ResourceUsage \<Rightarrow> bool \<Rightarrow> Resource list \<Rightarrow> string \<Rightarrow>
   Resource list \<times> string \<times> error option" where
  "alloc_loop now ru dryRun [] alcMessage = ([], alcMessage, None)"
| "alloc_loop now ru dryRun (r # rs) alcMessage =
     (case alloc_visit now ru dryRun r alcMessage of
        Inl (r', e) \<Rightarrow> (r' # rs, alcMessage, Some e)
      | Inr (r', alcMessage') \<Rightarrow>
          (case alloc_loop now ru dryRun rs alcMessage' of (rs', msg, err) \<Rightarrow> (r' # rs', msg, err)))"

definition allocateResource ::
  "gotime \<Rightarrow> ResourceUsage \<Rightarrow> bool \<Rightarrow> Resource list \<Rightarrow> Resource list \<times> string \<times> error option" where
  "allocateResource now ru dryRun rs =
     (if rs = [] then (rs, [], Some ErrResourceUnavailable)
      else case alloc_loop now ru dryRun rs [] of
             (rs1, alcMessage, Some e) \<Rightarrow> (rs1, alcMessage, Some e)
           | (rs1, alcMessage, None) \<Rightarrow>
               if alcMessage = [] then (rs1, alcMessage, Some ErrResourceUnavailable)
               else if dryRun then (rs1, alcMessage, None)
               else case Resources_recordUsage now ru rs1 of (rs2, err) \<Rightarrow> (rs2, alcMessage, err))"

subsection \<open>The service\<close>

text \<open>The components the service calls.\<close>

record res_env =
  MatchingItemIDsForEvent :: "CGREvent \<Rightarrow> error + StringMap"
  GetResourceProfile :: "string \<Rightarrow> string \<Rightarrow> error + ResourceProfile"
  filterS_Pass :: "string \<Rightarrow> string list \<Rightarrow> (string, iface) gmap \<Rightarrow> error + bool"
  GetResource :: "string \<Rightarrow> string \<Rightarrow> error + Resource"
  SetResource :: "Resource \<Rightarrow> error option"
  CacheDataFromDB :: "string \<Rightarrow> error option"
  StoreInterval :: duration
  CacheRPCLimit :: int
  ThresholdSConns :: "string list"
  GenUUID :: "nat \<Rightarrow> string"

text \<open>
  The state of the service: the ids to be stored by the next backup, the cached look-ups and
  responses, the cached resources, and, as a trace of what was sent out, the resources written
  to the data base and the events sent to ThresholdS.
\<close>

datatype rpc_result = RString string | RResources "Resource list"

fun asString :: "rpc_result \<Rightarrow> string" where
  "asString (RString x) = x"
| "asString (RResources _) = []"

fun asResources :: "rpc_result \<Rightarrow> Resource list" where
  "asResources (RResources rs) = rs"
| "asResources (RString _) = []"

record res_svc =
  storedResources :: StringMap
  eventResources :: "(string, StringMap option) gmap"
  rpcResponses :: "(string, rpc_result \<times> error option) gmap"
  cacheResources :: "(string, Resource) gmap"
  savedResources :: "Resource list"
  thresholdCalls :: "ArgsProcessEvent list"

text \<open>
  The loop over the candidate profiles. The last argument is the variable \<^verbatim>\<open>err\<close> of the
  enclosing function: the look-up of the profile assigns it, while the errors of \<^verbatim>\<open>Pass\<close> and
  \<^verbatim>\<open>GetResource\<close> are bound to inner variables and end the loop without reaching it.
\<close>

definition bind_profile :: "ResourceProfile \<Rightarrow> duration option \<Rightarrow> Resource \<Rightarrow> Resource" where
  "bind_profile rp usageTTL r =
     (let r1 = (if rpStored rp \<and> rdirty r = None then r\<lparr>rdirty := Some False\<rparr> else r);
          r2 = (case usageTTL of
                  Some ttl \<Rightarrow> if ttl \<noteq> 0 then r1\<lparr>rttl := Some ttl\<rparr> else r1
                | None \<Rightarrow>
                    if rpUsageTTL rp \<ge> 0 then r1\<lparr>rttl := Some (rpUsageTTL rp)\<rparr> else r1)
      in r2\<lparr>rPrf := Some rp\<rparr>)"

fun match_loop ::
  "res_env \<Rightarrow> CGREvent \<Rightarrow> duration option \<Rightarrow> string list \<Rightarrow> (string, Resource) gmap \<Rightarrow>
   error option \<Rightarrow> (string, Resource) gmap \<times> error option" where
  "match_loop env ev usageTTL [] acc err = (acc, err)"
| "match_loop env ev usageTTL (resName # ids) acc err =
     (case GetResourceProfile env (evTenant ev) resName of
        Inl e \<Rightarrow>
          if e = ErrNotFound then match_loop env ev usageTTL ids acc (Some e) else (acc, Some e)
      | Inr rp \<Rightarrow>
          if (case (rpActivationInterval rp, evTime ev) of
                (Some ai, Some t) \<Rightarrow> \<not> IsActiveAtTime ai t | _ \<Rightarrow> False)
          then match_loop env ev usageTTL ids acc None
          else case filterS_Pass env (evTenant ev) (rpFilterIDs rp) (evEvent ev) of
                 Inl _ \<Rightarrow> (acc, None)
               | Inr pass \<Rightarrow>
                   if \<not> pass then match_loop env ev usageTTL ids acc None
                   else case GetResource env (rpTenant rp) (rpID rp) of
                          Inl _ \<Rightarrow> (acc, None)
                        | Inr r \<Rightarrow>
                            match_loop env ev usageTTL ids
                              (gset acc (rpID rp) (bind_profile rp usageTTL r)) None)"

text \<open>Resources up to and including the first one marked as blocker.\<close>

fun upto_blocker :: "Resource list \<Rightarrow> Resource list" where
  "upto_blocker [] = []"
| "upto_blocker (r # rs) =
     (if (case rPrf r of Some p \<Rightarrow> rpBlocker p | None \<Rightarrow> False) then [r]
      else r # upto_blocker rs)"

definition matchingResourcesForEvent ::
  "res_env \<Rightarrow> CGREvent \<Rightarrow> string \<Rightarrow> duration option \<Rightarrow> res_svc \<Rightarrow> res_svc \<times> (error + Resource list)" where
  "matchingResourcesForEvent env ev evUUID usageTTL svc =
     (let run = (\<lambda>isCached rIDs.
            case match_loop env ev usageTTL (map fst rIDs) [] None of
              (_, Some e) \<Rightarrow>
                (if isCached
                 then svc\<lparr>eventResources := gdel (eventResources svc) evUUID\<rparr> else svc, Inl e)
            | (matching, None) \<Rightarrow>
                let rs = upto_blocker (Resources_Sort (map snd matching))
                in (svc\<lparr>eventResources := gset (eventResources svc) evUUID (Some (resIDsMp rs))\<rparr>,
                    Inr rs))
      in case gget (eventResources svc) evUUID of
           Some None \<Rightarrow> (svc, Inl ErrNotFound)
         | Some (Some rIDs) \<Rightarrow> run True rIDs
         | None \<Rightarrow>
             (case MatchingItemIDsForEvent env ev of
                Inl e \<Rightarrow>
                  (if e = ErrNotFound
                   then svc\<lparr>eventResources := gset (eventResources svc) evUUID None\<rparr> else svc, Inl e)
              | Inr rIDs \<Rightarrow> run False rIDs))"

definition StoreResource ::
  "res_env \<Rightarrow> Resource \<Rightarrow> res_svc \<Rightarrow> Resource \<times> res_svc \<times> error option" where
  "StoreResource env r svc =
     (if rdirty r \<noteq> Some True then (r, svc, None)
      else case SetResource env r of
             Some e \<Rightarrow> (r, svc, Some e)
           | None \<Rightarrow>
               let svc' = svc\<lparr>savedResources := savedResources svc @ [r]\<rparr>
               in case CacheDataFromDB env (Resource_TenantID r) of
                    Some e \<Rightarrow> (r, svc', Some e)
                  | None \<Rightarrow> (r\<lparr>rdirty := Some False\<rparr>, svc', None))"

text \<open>The arguments of the API: \<open>None\<close> for a nil event.\<close>

record ArgRSv1ResourceUsage =
  argEvent :: "CGREvent option"
  argUsageID :: string
  argUsageTTL :: "duration option"
  argUnits :: float64

definition check_args :: "ArgRSv1ResourceUsage \<Rightarrow> error + CGREvent" where
  "check_args args =
     (case argEvent args of
        None \<Rightarrow> Inl (ErrMandatoryIeMissing [''Event''])
      | Some ev \<Rightarrow>
          (case MissingStructFields ev [''Tenant'', ''ID'', ''Event''] of (ev', missing) \<Rightarrow>
             if missing \<noteq> [] then Inl (ErrMandatoryIeMissing missing)
             else if argUsageID args = [] then Inl (ErrMandatoryIeMissing [''UsageID''])
             else Inr ev'))"

text \<open>
  The response cache around a handler. \<^verbatim>\<open>defer Cache.Set(..., &CachedRPCResponse{Result: reply,
  Error: err}, ...)\<close> evaluates its arguments where it stands, before the handler has run: what
  is cached is the pointer to the reply, which the handler fills later, and the error of that
  moment, nil.
\<close>

definition with_rpc_cache ::
  "res_env \<Rightarrow> string \<Rightarrow> ('r \<Rightarrow> rpc_result) \<Rightarrow> (rpc_result \<Rightarrow> 'r) \<Rightarrow> 'r \<Rightarrow>
   (res_svc \<Rightarrow> res_svc \<times> Resource list \<times> (error + 'r)) \<Rightarrow> res_svc \<Rightarrow>
   res_svc \<times> Resource list \<times> (error + 'r)" where
  "with_rpc_cache env cacheKey toRes fromRes reply handler svc =
     (if CacheRPCLimit env = 0 then handler svc
      else case gget (rpcResponses svc) cacheKey of
             Some (res, None) \<Rightarrow> (svc, [], Inr (fromRes res))
           | Some (_, Some e) \<Rightarrow> (svc, [], Inl e)
           | None \<Rightarrow>
               (case handler svc of (svc', rs, out) \<Rightarrow>
                  (svc'\<lparr>rpcResponses := gset (rpcResponses svc') cacheKey
                      (toRes (case out of Inr r \<Rightarrow> r | Inl _ \<Rightarrow> reply), None)\<rparr>, rs, out)))"

definition V1ResourcesForEvent ::
  "res_env \<Rightarrow> ArgRSv1ResourceUsage \<Rightarrow> res_svc \<Rightarrow> res_svc \<times> Resource list \<times> (error + Resource list)" where
  "V1ResourcesForEvent env args svc =
     (case check_args args of
        Inl e \<Rightarrow> (svc, [], Inl e)
      | Inr ev \<Rightarrow>
          with_rpc_cache env (ConcatenatedKey [''ResourceSv1.GetResourcesForEvent'', CGREvent_TenantID ev])
            RResources asResources []
            (\<lambda>svc0.
              (case matchingResourcesForEvent env ev (argUsageID args) (argUsageTTL args) svc0 of
                 (svc1, Inl e) \<Rightarrow> (svc1, [], Inl e)
               | (svc1, Inr mtcRLs) \<Rightarrow> (svc1, mtcRLs, Inr mtcRLs))) svc)"

definition V1AuthorizeResources ::
  "res_env \<Rightarrow> gotime \<Rightarrow> ArgRSv1ResourceUsage \<Rightarrow> res_svc \<Rightarrow>
   res_svc \<times> Resource list \<times> (error + string)" where
  "V1AuthorizeResources env now args svc =
     (case check_args args of
        Inl e \<Rightarrow> (svc, [], Inl e)
      | Inr ev \<Rightarrow>
          with_rpc_cache env (ConcatenatedKey [''ResourceSv1.AuthorizeResources'', CGREvent_TenantID ev])
            RString asString []
            (\<lambda>svc0.
              (case matchingResourcesForEvent env ev (argUsageID args) (argUsageTTL args) svc0 of
                 (svc1, Inl e) \<Rightarrow> (svc1, [], Inl e)
               | (svc1, Inr mtcRLs) \<Rightarrow>
                   (case allocateResource now
                           \<lparr>ruTenant = evTenant ev, ruID = argUsageID args, ruExpiryTime = 0,
                            ruUnits = argUnits args\<rparr> True mtcRLs of
                      (rs, _, Some e) \<Rightarrow>
                        (svc1, rs,
                         Inl (if e = ErrResourceUnavailable then ErrResourceUnauthorized else e))
                    | (rs, alcMessage, None) \<Rightarrow> (svc1, rs, Inr alcMessage)))) svc)"

text \<open>The event a change of a resource is reported with. Its answer is not used. The profile is
  there: matching sets it.\<close>

definition processThresholds :: "res_env \<Rightarrow> Resource \<Rightarrow> res_svc \<Rightarrow> Resource \<times> res_svc" where
  "processThresholds env r svc =
     (if ThresholdSConns env = [] then (r, svc)
      else
        let thIDs = (case rPrf r of Some rp \<Rightarrow> rpThresholdIDs rp | None \<Rightarrow> [])
        in if thIDs = [''*none''] then (r, svc)
           else case totalUsage r of (r', tU) \<Rightarrow>
             (r', svc\<lparr>thresholdCalls := thresholdCalls svc @
                [\<lparr>apeThresholdIDs = thIDs,
                  apeCGREvent = \<lparr>evTenant = rTenant r, evID = GenUUID env (length (thresholdCalls svc)),
                    evTime = None,
                    evEvent = [(''EventType'', IString ''ResourceUpdate''),
                               (''ResourceID'', IString (rID r)),
                               (''Usage'', IFloat64 tU)]\<rparr>\<rparr>]\<rparr>))"

text \<open>Indexing the changed resources for storing, after an allocation and after a release.\<close>

fun store_allocated ::
  "res_env \<Rightarrow> Resource list \<Rightarrow> res_svc \<Rightarrow> Resource list \<times> res_svc" where
  "store_allocated env [] svc = ([], svc)"
| "store_allocated env (r # rs) svc =
     (if StoreInterval env = 0 \<or> rdirty r = None then
        (case store_allocated env rs svc of (rs', svc') \<Rightarrow> (r # rs', svc'))
      else
        let stored = (if StoreInterval env = -1 then
                        (case StoreResource env (r\<lparr>rdirty := Some True\<rparr>) svc of (r1, svc1, _) \<Rightarrow> (r1, svc1))
                      else (r\<lparr>rdirty := Some True\<rparr>,
                            svc\<lparr>storedResources := gset (storedResources svc) (Resource_TenantID r) True\<rparr>))
        in case stored of (r1, svc1) \<Rightarrow>
             (case processThresholds env r1 svc1 of (r2, svc2) \<Rightarrow>
                (case store_allocated env rs svc2 of (rs', svc') \<Rightarrow> (r2 # rs', svc'))))"

fun store_released ::
  "res_env \<Rightarrow> Resource list \<Rightarrow> res_svc \<Rightarrow> Resource list \<times> res_svc" where
  "store_released env [] svc = ([], svc)"
| "store_released env (r # rs) svc =
     (let stored = (if rdirty r = None then (r, svc)
                    else if StoreInterval env = -1 then
                      (case StoreResource env r svc of (r1, svc1, _) \<Rightarrow> (r1, svc1))
                    else (r\<lparr>rdirty := Some True\<rparr>,
                          svc\<lparr>storedResources := gset (storedResources svc) (Resource_TenantID r) True\<rparr>))
      in case stored of (r1, svc1) \<Rightarrow>
           (case processThresholds env r1 svc1 of (r2, svc2) \<Rightarrow>
              (case store_released env rs svc2 of (rs', svc') \<Rightarrow> (r2 # rs', svc'))))"

definition V1AllocateResource ::
  "res_env \<Rightarrow> gotime \<Rightarrow> ArgRSv1ResourceUsage \<Rightarrow> res_svc \<Rightarrow>
   res_svc \<times> Resource list \<times> (error + string)" where
  "V1AllocateResource env now args svc =
     (case check_args args of
        Inl e \<Rightarrow> (svc, [], Inl e)
      | Inr ev \<Rightarrow>
          with_rpc_cache env (ConcatenatedKey [''ResourceSv1.AllocateResources'', CGREvent_TenantID ev])
            RString asString []
            (\<lambda>svc0.
              (case matchingResourcesForEvent env ev (argUsageID args) (argUsageTTL args) svc0 of
                 (svc1, Inl e) \<Rightarrow> (svc1, [], Inl e)
               | (svc1, Inr mtcRLs) \<Rightarrow>
                   (case allocateResource now
                           \<lparr>ruTenant = evTenant ev, ruID = argUsageID args, ruExpiryTime = 0,
                            ruUnits = argUnits args\<rparr> False mtcRLs of
                      (rs, _, Some e) \<Rightarrow> (svc1, rs, Inl e)
                    | (rs, alcMsg, None) \<Rightarrow>
                        (case store_allocated env rs svc1 of (rs', svc2) \<Rightarrow>
                           (svc2, rs', Inr alcMsg))))) svc)"

definition V1ReleaseResource ::
  "res_env \<Rightarrow> ArgRSv1ResourceUsage \<Rightarrow> res_svc \<Rightarrow> res_svc \<times> Resource list \<times> (error + string)" where
  "V1ReleaseResource env args svc =
     (case check_args args of
        Inl e \<Rightarrow> (svc, [], Inl e)
      | Inr ev \<Rightarrow>
          with_rpc_cache env (ConcatenatedKey [''ResourceSv1.ReleaseResources'', CGREvent_TenantID ev])
            RString asString []
            (\<lambda>svc0.
              (case matchingResourcesForEvent env ev (argUsageID args) (argUsageTTL args) svc0 of
                 (svc1, Inl e) \<Rightarrow> (svc1, [], Inl e)
               | (svc1, Inr mtcRLs) \<Rightarrow>
                   (case Resources_clearUsage (argUsageID args) mtcRLs of (rs, _) \<Rightarrow>
                      (case store_released env rs svc1 of (rs', svc2) \<Rightarrow>
                         (svc2, rs', Inr ''OK''))))) svc)"

lemma StoreResource_stored [simp]:
  "StoreResource env r svc = (r', svc', e) \<Longrightarrow> storedResources svc' = storedResources svc"
  by (auto simp: StoreResource_def Let_def split: if_splits option.splits)

text \<open>The backup: takes the ids one by one off the index until it is empty and puts back those
  that could not be written. An empty id ends the loop and stays.\<close>

function storeResources_loop :: "res_env \<Rightarrow> res_svc \<Rightarrow> string list \<Rightarrow> res_svc \<times> string list" where
  "storeResources_loop env svc failedRIDs =
     (let rid = StringMap_GetOne (storedResources svc)
      in if rid = [] then (svc, failedRIDs)
         else
           let svc1 = svc\<lparr>storedResources := gdel (storedResources svc) rid\<rparr>
           in case gget (cacheResources svc1) rid of
                None \<Rightarrow> storeResources_loop env svc1 failedRIDs
              | Some r \<Rightarrow>
                  (case StoreResource env r svc1 of
                     (r', svc2, err) \<Rightarrow>
                       storeResources_loop env
                         (svc2\<lparr>cacheResources := gset (cacheResources svc2) rid r'\<rparr>)
                         (if err \<noteq> None then failedRIDs @ [rid] else failedRIDs)))"
  by pat_completeness auto
termination
proof (relation "measure (\<lambda>(env, svc, failedRIDs). length (storedResources svc))", goal_cases)
  case 2
  then show ?case using GetOne_removed by simp
next
  case 3
  then show ?case using GetOne_removed StoreResource_stored [OF sym] by auto
qed simp

declare storeResources_loop.simps [simp del]

definition storeResources :: "res_env \<Rightarrow> res_svc \<Rightarrow> res_svc" where
  "storeResources env svc =
     (case storeResources_loop env svc [] of (svc', failedRIDs) \<Rightarrow>
        svc'\<lparr>storedResources := fold (\<lambda>rid m. gset m rid True) failedRIDs (storedResources svc')\<rparr>)"

definition V1GetResource :: "res_env \<Rightarrow> TenantID \<Rightarrow> error + Resource" where
  "V1GetResource env arg =
     (let tnt = TrimSpace (tntTenant arg); i = TrimSpace (tntID arg);
          missing = (if tnt = [] then [''Tenant''] else []) @ (if i = [] then [''ID''] else [])
      in if missing \<noteq> [] then Inl (ErrMandatoryIeMissing missing) else GetResource env tnt i)"

subsection \<open>The representation invariant\<close>

definition res_inv :: "Resource \<Rightarrow> bool" where
  "res_inv r \<longleftrightarrow>
     gmap_ok (Usages r)
     \<and> (\<forall>k u. gget (Usages r) k = Some u \<longrightarrow> ruID u = k)
     \<and> distinct (TTLIdx r)
     \<and> (\<forall>k. k \<in> set (TTLIdx r) \<longleftrightarrow> (\<exists>u. gget (Usages r) k = Some u \<and> \<not> IsZero (ruExpiryTime u)))"

lemma res_inv_tUsage [simp]: "res_inv (r\<lparr>tUsage := x\<rparr>) = res_inv r"
  by (simp add: res_inv_def)

lemma res_inv_totalUsage: "res_inv r \<Longrightarrow> totalUsage r = (r', tu) \<Longrightarrow> res_inv r'"
  by (auto simp: totalUsage_def Let_def split: option.splits)

lemma res_inv_recordUsage:
  assumes "res_inv r" and "recordUsage now r ru = (r', e)"
  shows "res_inv r'"
proof -
  have "distinct (TTLIdx r @ [ruID ru])" if "gget (Usages r) (ruID ru) = None"
    using assms(1) that by (auto simp: res_inv_def)
  with assms show ?thesis
    by (auto simp: recordUsage_def res_inv_def Let_def split: if_splits option.splits)
qed

lemma res_inv_clearUsage:
  assumes "res_inv r" and "clearUsage r k = (r', e)"
  shows "res_inv r'"
  using assms by (auto simp: clearUsage_def res_inv_def split: option.splits if_splits)

text \<open>The loop of \<^verbatim>\<open>removeExpiredUnits\<close> removes exactly the usages of the ids it is given.\<close>

lemma expire_loop_Inr:
  assumes "expire_loop idx r = Inr r'" and "gmap_ok (Usages r)"
  shows "gmap_ok (Usages r') \<and> TTLIdx r' = TTLIdx r \<and> rPrf r' = rPrf r \<and> rttl r' = rttl r
    \<and> (\<forall>k. gget (Usages r') k = (if k \<in> set idx then None else gget (Usages r) k))"
  using assms
proof (induction idx arbitrary: r)
  case (Cons i idx)
  show ?case
  proof (cases "gget (Usages r) i")
    case None
    with Cons.prems have "expire_loop idx r = Inr r'" by simp
    with Cons.IH [of r] Cons.prems None show ?thesis by auto
  next
    case (Some ru)
    with Cons.prems(1) obtain tu where "tUsage r = Some tu" by (auto split: option.splits)
    with Some Cons.prems obtain x where
      "expire_loop idx (r\<lparr>Usages := gdel (Usages r) i, tUsage := x\<rparr>) = Inr r'"
      by (auto simp: Let_def)
    with Cons.IH Cons.prems(2) show ?thesis by fastforce
  qed
qed simp

lemma removeExpiredUnits_Inr:
  assumes "res_inv r" and "removeExpiredUnits now r = Inr r'"
  shows "res_inv r' \<and> rPrf r' = rPrf r \<and> rttl r' = rttl r
    \<and> (\<forall>k. gget (Usages r') k =
         (if k \<in> set (take (firstActive now (Usages r) (TTLIdx r)) (TTLIdx r)) then None
          else gget (Usages r) k))"
proof -
  let ?n = "firstActive now (Usages r) (TTLIdx r)"
  show ?thesis
  proof (cases "?n = 0")
    case True
    with assms show ?thesis by (simp add: removeExpiredUnits_def)
  next
    case False
    with assms(2) obtain r1 where r1: "expire_loop (take ?n (TTLIdx r)) r = Inr r1"
      "r' = r1\<lparr>TTLIdx := drop ?n (TTLIdx r1), tUsage := None\<rparr>"
      by (auto simp: removeExpiredUnits_def Let_def split: sum.splits)
    have ok: "gmap_ok (Usages r)" using assms(1) by (simp add: res_inv_def)
    note E = expire_loop_Inr [OF r1(1) ok]
    have d: "set (take ?n (TTLIdx r)) \<inter> set (drop ?n (TTLIdx r)) = {}"
      using assms(1) by (simp add: res_inv_def set_take_disj_set_drop_if_distinct)
    have u: "k \<in> set (TTLIdx r) \<longleftrightarrow> k \<in> set (take ?n (TTLIdx r)) \<or> k \<in> set (drop ?n (TTLIdx r))" for k
      by (metis Un_iff append_take_drop_id set_append)
    show ?thesis using assms(1) E r1(2) d u unfolding res_inv_def by (auto split: if_splits)
  qed
qed

text \<open>The panic leaves a usage that is still listed in \<open>TTLIdx\<close> but no longer filed.\<close>

lemma expire_loop_Inl:
  assumes "expire_loop idx r = Inl (r', e)"
  shows "e = Panic ''nil pointer dereference'' \<and> TTLIdx r' = TTLIdx r
    \<and> (\<exists>k \<in> set idx. gget (Usages r') k = None)"
  using assms by (induction idx arbitrary: r) (fastforce simp: Let_def split: option.splits)+

lemma removeExpiredUnits_Inl:
  assumes "removeExpiredUnits now r = Inl (r', e)"
  shows "e = Panic ''nil pointer dereference'' \<and> \<not> res_inv r'"
proof -
  let ?n = "firstActive now (Usages r) (TTLIdx r)"
  from assms have "expire_loop (take ?n (TTLIdx r)) r = Inl (r', e)"
    by (auto simp: removeExpiredUnits_def Let_def split: if_splits sum.splits prod.splits)
  from expire_loop_Inl [OF this] show ?thesis
    unfolding res_inv_def by (metis in_set_takeD option.distinct(1))
qed

lemma res_inv_fst_clearUsage [simp]: "res_inv r \<Longrightarrow> res_inv (fst (clearUsage r k))"
  using res_inv_clearUsage by (cases "clearUsage r k") auto

text \<open>One turn of the allocation loop, in terms of the steps it is made of.\<close>

lemma alloc_visit_cases:
  assumes "res_inv r"
  obtains (panic) r1 where "alloc_visit now ru dry r msg = Inl (r1, Panic ''nil pointer dereference'')"
      "\<not> res_inv r1"
  | (noconf) r2 m where "res_inv r2" "alloc_visit now ru dry r msg = Inl (r2, ErrMsg m)" "rPrf r = None"
  | (visited) r2 r3 tU rp m where "res_inv r2" "rttl r2 = rttl r" "rPrf r2 = rPrf r"
      "rPrf r = Some rp" "totalUsage r2 = (r3, tU)"
      "\<not> dry \<Longrightarrow> gget (Usages r2) (ruID ru) = None"
      "alloc_visit now ru dry r msg = Inr (r3, m)"
      "m = (if fleq (fadd tU (ruUnits ru)) (rpLimit rp) \<and> msg = [] then
              (if rpAllocationMessage rp \<noteq> [] then rpAllocationMessage rp else rpID rp)
            else msg)"
proof (cases "removeExpiredUnits now r")
  case (Inl x)
  obtain r1 e where x: "x = (r1, e)" by (cases x)
  with Inl removeExpiredUnits_Inl [of now r r1 e] panic [of r1] show ?thesis
    by (simp add: alloc_visit_def)
next
  case (Inr r1)
  note R = removeExpiredUnits_Inr [OF assms Inr]
  define r2 where "r2 = (if ghas (Usages r1) (ruID ru) \<and> \<not> dry then fst (clearUsage r1 (ruID ru)) else r1)"
  have inv2: "res_inv r2" using R by (simp add: r2_def)
  have same: "rttl r2 = rttl r" "rPrf r2 = rPrf r"
    using R by (auto simp: r2_def clearUsage_def split: option.splits)
  have absent: "\<not> dry \<Longrightarrow> gget (Usages r2) (ruID ru) = None"
    by (auto simp: r2_def clearUsage_def split: option.splits)
  have v: "alloc_visit now ru dry r msg =
    (case rPrf r2 of
       None \<Rightarrow> Inl (r2, ErrMsg (''empty configuration for resourceID: '' @ Resource_TenantID r2))
     | Some rp \<Rightarrow> (case totalUsage r2 of (r3, tU) \<Rightarrow>
         Inr (r3, if fleq (fadd tU (ruUnits ru)) (rpLimit rp) \<and> msg = [] then
              (if rpAllocationMessage rp \<noteq> [] then rpAllocationMessage rp else rpID rp)
            else msg)))"
    unfolding alloc_visit_def Inr r2_def Let_def by simp
  show ?thesis
  proof (cases "rPrf r")
    case None
    with same v noconf inv2 show ?thesis by simp
  next
    case (Some rp)
    obtain r3 tU where t: "totalUsage r2 = (r3, tU)" by (cases "totalUsage r2")
    show ?thesis
      by (rule visited [OF inv2 same Some t absent])
        (use v Some t same in simp_all)
  qed
qed

lemma res_inv_alloc_visit:
  assumes "res_inv r"
  shows "alloc_visit now ru dry r msg = Inl (r', e) \<Longrightarrow>
      res_inv r' = (e \<noteq> Panic ''nil pointer dereference'')"
    and "alloc_visit now ru dry r msg = Inr (r', m) \<Longrightarrow> res_inv r'"
  using assms by (rule alloc_visit_cases [of r now ru dry msg]; use assms res_inv_totalUsage in auto)+

text \<open>The number of resources that no longer meet the invariant.\<close>

definition broken :: "Resource list \<Rightarrow> nat" where
  "broken rs = length (filter (\<lambda>r. \<not> res_inv r) rs)"

lemma broken_simps [simp]:
  "broken [] = 0" "broken (r # rs) = (if res_inv r then broken rs else Suc (broken rs))"
  by (simp_all add: broken_def)

lemma broken_0: "broken rs = 0 \<longleftrightarrow> (\<forall>r \<in> set rs. res_inv r)"
  by (simp add: broken_def filter_empty_conv)

lemma broken_alloc_loop:
  assumes "alloc_loop now ru dry rs msg = (rs', msg', e)" and "broken rs = 0"
  shows "broken rs' = (if e = Some (Panic ''nil pointer dereference'') then 1 else 0)"
  using assms
proof (induction rs arbitrary: msg rs' msg' e)
  case (Cons r rs)
  have inv: "res_inv r" "broken rs = 0" using Cons.prems(2) by (simp_all split: if_splits)
  show ?case
  proof (cases "alloc_visit now ru dry r msg")
    case (Inl x)
    with Cons.prems(1) inv res_inv_alloc_visit(1) [OF inv(1), of now ru dry msg "fst x" "snd x"]
    show ?thesis by (cases x) auto
  next
    case (Inr x)
    with Cons.prems(1) obtain rs1 where "alloc_loop now ru dry rs (snd x) = (rs1, msg', e)"
      "rs' = fst x # rs1" by (auto split: prod.splits)
    with Inr Cons.IH inv res_inv_alloc_visit(2) [OF inv(1), of now ru dry msg "fst x" "snd x"]
    show ?thesis by simp
  qed
qed simp

subsection \<open>Recording and clearing\<close>

lemma recordUsage_error:
  "recordUsage now r ru = (r', Some e) \<Longrightarrow> r' = r \<and> ghas (Usages r) (ruID ru)"
  by (auto simp: recordUsage_def Let_def split: if_splits option.splits)

text \<open>Clearing what was just recorded gives back the usages and their order of expiry.\<close>

lemma clear_record:
  assumes "res_inv r" and "recordUsage now r ru = (r', None)"
  shows "Usages (fst (clearUsage r' (ruID ru))) = Usages r"
    and "TTLIdx (fst (clearUsage r' (ruID ru))) = TTLIdx r"
proof -
  have n: "gget (Usages r) (ruID ru) = None"
    using assms(2) by (auto simp: recordUsage_def split: if_splits)
  with assms(1) have "ruID ru \<notin> set (TTLIdx r)" by (simp add: res_inv_def)
  then have t: "remove1 (ruID ru) (TTLIdx r @ [ruID ru]) = TTLIdx r"
    by (simp add: remove1_append)
  show "Usages (fst (clearUsage r' (ruID ru))) = Usages r"
    using assms(2) n
    by (auto simp: recordUsage_def clearUsage_def Let_def gset_new gdel_snoc
        split: if_splits option.splits)
  show "TTLIdx (fst (clearUsage r' (ruID ru))) = TTLIdx r"
    using assms(2) n t
    by (auto simp: recordUsage_def clearUsage_def Let_def split: if_splits option.splits)
qed

lemma record_all_length: "record_all now ru rs = (rs', n, e) \<Longrightarrow> length rs' = length rs \<and> n \<le> length rs"
  by (induction rs arbitrary: rs' n e) (fastforce split: prod.splits option.splits)+

lemma rollback_aux:
  assumes "record_all now ru rs = (rs', n, Some e)" and "\<forall>r \<in> set rs. res_inv r"
  shows "map Usages (map (\<lambda>r. fst (clearUsage r (ruID ru))) (take n rs') @ drop n rs') = map Usages rs
    \<and> map TTLIdx (map (\<lambda>r. fst (clearUsage r (ruID ru))) (take n rs') @ drop n rs') = map TTLIdx rs"
  using assms
proof (induction rs arbitrary: rs' n)
  case (Cons r rs)
  obtain r1 e1 where r1: "recordUsage now r ru = (r1, e1)" by (cases "recordUsage now r ru")
  show ?case
  proof (cases e1)
    case (Some x)
    with r1 recordUsage_error [of now r ru r1 x] Cons.prems show ?thesis by simp
  next
    case None
    with r1 Cons.prems obtain rs1 n1 where rec: "record_all now ru rs = (rs1, n1, Some e)"
      "rs' = r1 # rs1" "n = Suc n1" by (auto split: prod.splits)
    with Cons.IH [OF rec(1)] Cons.prems(2) clear_record [of r now ru r1] r1 None show ?thesis by simp
  qed
qed simp

lemma Resources_recordUsage_rollback:
  assumes "Resources_recordUsage now ru rs = (rs', Some e)" and "\<forall>r \<in> set rs. res_inv r"
  shows "map Usages rs' = map Usages rs \<and> map TTLIdx rs' = map TTLIdx rs"
proof -
  obtain rs1 n x where r: "record_all now ru rs = (rs1, n, x)" by (cases "record_all now ru rs")
  with assms(1) have "x = Some e"
    "rs' = map (\<lambda>r. fst (clearUsage r (ruID ru))) (take n rs1) @ drop n rs1"
    by (auto simp: Resources_recordUsage_def split: if_splits)
  with r rollback_aux [OF _ assms(2)] show ?thesis by blast
qed

lemma res_inv_record_all:
  assumes "record_all now ru rs = (rs', n, e)" and "\<forall>r \<in> set rs. res_inv r"
  shows "\<forall>r \<in> set rs'. res_inv r"
  using assms
  by (induction rs arbitrary: rs' n e)
    (fastforce split: prod.splits option.splits dest: res_inv_recordUsage)+

lemma res_inv_Resources_recordUsage:
  assumes "Resources_recordUsage now ru rs = (rs', e)" and "\<forall>r \<in> set rs. res_inv r"
  shows "\<forall>r \<in> set rs'. res_inv r"
proof -
  obtain rs1 n x where r: "record_all now ru rs = (rs1, n, x)" by (cases "record_all now ru rs")
  have inv: "\<forall>r \<in> set rs1. res_inv r" by (rule res_inv_record_all [OF r assms(2)])
  have "\<forall>r \<in> set (take n rs1). res_inv r" "\<forall>r \<in> set (drop n rs1). res_inv r"
    using inv by (meson in_set_takeD in_set_dropD)+
  with inv assms(1) r show ?thesis by (auto simp: Resources_recordUsage_def split: if_splits)
qed

lemma record_error:
  assumes "Resources_recordUsage now ru rs = (rs', e)"
  shows "e \<noteq> Some (Panic m)"
proof -
  have own: "snd (recordUsage now r ru) \<noteq> Some (Panic m)" for r
    by (auto simp: recordUsage_def Let_def)
  have "record_all now ru rs = (rs1, n, x) \<Longrightarrow> x \<noteq> Some (Panic m)" for rs1 n x
    by (induction rs arbitrary: rs1 n x)
      (use own in \<open>fastforce split: prod.splits option.splits dest: arg_cong [of _ _ snd]\<close>)+
  then show ?thesis using assms
    by (auto simp: Resources_recordUsage_def split: prod.splits if_splits)
qed

lemma broken_allocateResource:
  assumes "allocateResource now ru dry rs = (rs', msg, e)" and "broken rs = 0"
  shows "broken rs' = (if e = Some (Panic ''nil pointer dereference'') then 1 else 0)"
proof (cases "rs = []")
  case False
  obtain rs1 m x where l: "alloc_loop now ru dry rs [] = (rs1, m, x)"
    by (cases "alloc_loop now ru dry rs []")
  note b1 = broken_alloc_loop [OF l assms(2)]
  obtain rs2 y where r: "Resources_recordUsage now ru rs1 = (rs2, y)"
    by (cases "Resources_recordUsage now ru rs1")
  have b2: "broken rs1 = 0 \<Longrightarrow> broken rs2 = 0"
    using res_inv_Resources_recordUsage [OF r] by (simp add: broken_0)
  show ?thesis
    using assms(1) False l r b1 b2 record_error [OF r]
    by (auto simp: allocateResource_def split: option.splits if_splits)
qed (use assms in \<open>auto simp: allocateResource_def\<close>)

lemma res_inv_Resources_clearUsage:
  assumes "Resources_clearUsage k rs = (rs', e)" and "\<forall>r \<in> set rs. res_inv r"
  shows "\<forall>r \<in> set rs'. res_inv r"
  using assms
proof (induction k rs arbitrary: rs' e rule: Resources_clearUsage.induct)
  case (2 k r rs)
  obtain r1 x where c: "clearUsage r k = (r1, x)" by (cases "clearUsage r k")
  obtain rs1 y where rec: "Resources_clearUsage k rs = (rs1, y)" by (cases "Resources_clearUsage k rs")
  from "2.IH" [OF c [symmetric] refl rec] "2.prems"(2) have "\<forall>r \<in> set rs1. res_inv r" by simp
  moreover have "res_inv r1" using res_inv_clearUsage [OF _ c] "2.prems"(2) by simp
  ultimately show ?case using "2.prems"(1) c rec by (auto simp: Let_def)
qed simp

subsection \<open>The limit\<close>

text \<open>When the loop of \<^verbatim>\<open>allocateResource\<close> ends with a message, one of the resources had room.\<close>

definition has_room :: "ResourceUsage \<Rightarrow> string \<Rightarrow> Resource \<Rightarrow> bool" where
  "has_room ru msg r \<longleftrightarrow>
     (\<exists>rp tU. rPrf r = Some rp \<and> tUsage r = Some tU \<and> fleq (fadd tU (ruUnits ru)) (rpLimit rp)
        \<and> msg = (if rpAllocationMessage rp \<noteq> [] then rpAllocationMessage rp else rpID rp))"

lemma totalUsage_cached: "totalUsage r = (r', tu) \<Longrightarrow> tUsage r' = Some tu \<and> rPrf r' = rPrf r
    \<and> rttl r' = rttl r \<and> Usages r' = Usages r"
  by (auto simp: totalUsage_def Let_def split: option.splits)

lemma alloc_loop_room:
  assumes "alloc_loop now ru False rs msg = (rs', msg', None)" and "\<forall>r \<in> set rs. res_inv r"
    and "\<forall>r \<in> set rs. rttl r \<noteq> Some 0"
  shows "(\<forall>r \<in> set rs'. rttl r \<noteq> Some 0 \<and> gget (Usages r) (ruID ru) = None)
    \<and> (msg' \<noteq> [] \<longrightarrow> msg' = msg \<or> (\<exists>r \<in> set rs'. has_room ru msg' r))"
  using assms
proof (induction rs arbitrary: msg rs')
  case (Cons r rs)
  have inv: "res_inv r" using Cons.prems(2) by simp
  from inv show ?case
  proof (cases rule: alloc_visit_cases [of r now ru False msg])
    case (visited r2 r3 tU rp m)
    with Cons.prems(1) obtain rs1 where rec: "alloc_loop now ru False rs m = (rs1, msg', None)"
      "rs' = r3 # rs1" by (auto split: prod.splits)
    note C = totalUsage_cached [OF visited(5)]
    have "m = msg \<or> has_room ru m r3" using C visited(3,4,8) by (auto simp: has_room_def)
    moreover have "rttl r3 \<noteq> Some 0" "gget (Usages r3) (ruID ru) = None"
      using C visited(2,6) Cons.prems(3) by simp_all
    ultimately show ?thesis using Cons.IH [OF rec(1)] Cons.prems(2,3) rec(2) by auto
  qed (use Cons.prems in simp_all)
qed simp

lemma record_all_None:
  assumes "record_all now ru rs = (rs', n, None)" and "r \<in> set rs"
  shows "\<exists>r' \<in> set rs'. recordUsage now r ru = (r', None)"
  using assms
  by (induction rs arbitrary: rs' n) (fastforce split: prod.splits option.splits)+

lemma recordUsage_room:
  assumes "has_room ru msg r" and "rttl r \<noteq> Some 0" and "recordUsage now r ru = (r', None)"
  obtains rp where "rPrf r' = Some rp" "ghas (Usages r') (ruID ru)"
    "fleq (snd (totalUsage r')) (rpLimit rp)"
    "msg = (if rpAllocationMessage rp \<noteq> [] then rpAllocationMessage rp else rpID rp)"
proof -
  obtain rp tU where R: "rPrf r = Some rp" "tUsage r = Some tU"
    "fleq (fadd tU (ruUnits ru)) (rpLimit rp)"
    "msg = (if rpAllocationMessage rp \<noteq> [] then rpAllocationMessage rp else rpID rp)"
    using assms(1) unfolding has_room_def by blast
  have "tUsage r' = Some (fadd tU (ruUnits ru))" "rPrf r' = Some rp" "ghas (Usages r') (ruID ru)"
    using assms(2,3) R(1,2) by (auto simp: recordUsage_def Let_def split: if_splits option.splits)
  with R that show ?thesis by (auto simp: totalUsage_def)
qed

subsection \<open>The cached total is the sum\<close>

text \<open>
  For integral units whose sum stays within \<open>2 ^ 53\<close> the floating point arithmetic is exact,
  so the cached total can be compared with the true sum.
\<close>

definition units_int :: "ResourceUsage \<Rightarrow> int" where
  "units_int ru = (case ruUnits ru of Fin q \<Rightarrow> \<lfloor>q\<rfloor> | _ \<Rightarrow> 0)"

definition integral :: "ResourceUsage \<Rightarrow> bool" where
  "integral ru \<longleftrightarrow> ruUnits ru = Fin (of_int (units_int ru)) \<and> 0 \<le> units_int ru"

definition tot_inv :: "Resource \<Rightarrow> bool" where
  "tot_inv r \<longleftrightarrow>
     gmap_ok (Usages r) \<and> (\<forall>u \<in> snd ` set (Usages r). integral u)
     \<and> gsum units_int (Usages r) \<le> 2 ^ 53
     \<and> (tUsage r = None \<or> tUsage r = Some (Fin (of_int (gsum units_int (Usages r)))))"

lemma gsum_units_nonneg:
  "\<forall>u \<in> snd ` set us. integral u \<Longrightarrow> 0 \<le> gsum units_int us"
  unfolding gsum_def by (rule sum_list_nonneg) (auto simp: integral_def)

lemma sum_units_from:
  assumes "\<forall>u \<in> snd ` set us. integral u" and "0 \<le> t" and "t + gsum units_int us \<le> 2 ^ 53"
  shows "foldl (\<lambda>tu kv. fadd tu (ruUnits (snd kv))) (Fin (of_int t)) us
    = Fin (of_int (t + gsum units_int us))"
  using assms
proof (induction us arbitrary: t)
  case (Cons a us)
  obtain k u where a: "a = (k, u)" by (cases a)
  have u: "ruUnits u = Fin (of_int (units_int u))" "0 \<le> units_int u"
    using Cons.prems(1) a by (auto simp: integral_def)
  have rest: "0 \<le> gsum units_int us" using Cons.prems(1) by (intro gsum_units_nonneg) simp
  have "fadd (Fin (of_int t)) (ruUnits u) = Fin (of_int (t + units_int u))"
    unfolding u(1) using Cons.prems(2,3) a u(2) rest by (intro fadd_int) simp
  with Cons.IH [of "t + units_int u"] Cons.prems a u(2) show ?case
    by (simp add: add.assoc del: fadd.simps)
qed simp

lemma totalUsage_exact:
  assumes "tot_inv r"
  shows "snd (totalUsage r) = Fin (of_int (gsum units_int (Usages r)))"
  using assms sum_units_from [of "Usages r" 0]
  by (auto simp: tot_inv_def totalUsage_def sum_units_def Let_def)

lemma tot_inv_totalUsage: "tot_inv r \<Longrightarrow> tot_inv (fst (totalUsage r))"
  using totalUsage_exact [of r]
  by (auto simp: tot_inv_def totalUsage_def Let_def split: option.splits)

lemma tot_inv_recordUsage:
  assumes inv: "tot_inv r" and rec: "recordUsage now r ru = (r', None)" and int: "integral ru"
    and bound: "gsum units_int (Usages r) + units_int ru \<le> 2 ^ 53"
  shows "tot_inv r'"
proof (cases "rttl r = Some 0")
  case True
  with inv rec show ?thesis by (auto simp: recordUsage_def split: if_splits)
next
  case False
  have new: "gget (Usages r) (ruID ru) = None" using rec by (auto simp: recordUsage_def split: if_splits)
  obtain ru' where ru': "Usages r' = gset (Usages r) (ruID ru) ru'"
    "tUsage r' = map_option (\<lambda>tu. fadd tu (ruUnits ru)) (tUsage r)"
    "ruUnits ru' = ruUnits ru"
    using rec new False by (auto simp: recordUsage_def Let_def split: if_splits option.splits)
  have i': "integral ru'" "units_int ru' = units_int ru"
    using int ru'(3) by (auto simp: integral_def units_int_def)
  have sum: "gsum units_int (Usages r') = gsum units_int (Usages r) + units_int ru"
    using new i' by (simp add: ru'(1) gsum_gset_new)
  have nonneg: "0 \<le> gsum units_int (Usages r)" using inv by (intro gsum_units_nonneg) (simp add: tot_inv_def)
  have "fadd (Fin (of_int (gsum units_int (Usages r)))) (ruUnits ru)
      = Fin (of_int (gsum units_int (Usages r) + units_int ru))"
    using int bound nonneg unfolding integral_def by (metis abs_of_nonneg add_nonneg_nonneg fadd_int)
  then have "tUsage r' = None \<or> tUsage r' = Some (Fin (of_int (gsum units_int (Usages r'))))"
    using inv sum ru'(2) by (auto simp: tot_inv_def)
  moreover have "\<forall>u \<in> snd ` set (Usages r'). integral u"
    using inv i'(1) range_gset [of "ruID ru" ru' "Usages r"] unfolding ru'(1) tot_inv_def by blast
  ultimately show ?thesis using inv sum bound by (simp add: tot_inv_def ru'(1))
qed

lemma tot_inv_integral:
  "tot_inv r \<Longrightarrow> gget (Usages r) k = Some ru \<Longrightarrow> integral ru"
  using gget_in_range [of "Usages r" k ru] unfolding tot_inv_def by blast

lemma tot_inv_gdel:
  assumes inv: "tot_inv r" and ru: "gget (Usages r) k = Some ru"
  shows "gsum units_int (gdel (Usages r) k) = gsum units_int (Usages r) - units_int ru"
    and "0 \<le> gsum units_int (gdel (Usages r) k)"
    and "fsub (Fin (of_int (gsum units_int (Usages r)))) (ruUnits ru)
      = Fin (of_int (gsum units_int (gdel (Usages r) k)))"
    and "\<forall>u \<in> snd ` set (gdel (Usages r) k). integral u"
proof -
  have int: "integral ru" using tot_inv_integral [OF inv ru] .
  show sum: "gsum units_int (gdel (Usages r) k) = gsum units_int (Usages r) - units_int ru"
    using inv ru by (intro gsum_gdel) (simp_all add: tot_inv_def)
  show r: "\<forall>u \<in> snd ` set (gdel (Usages r) k). integral u"
    using inv range_gdel [of k "Usages r"] unfolding tot_inv_def by blast
  then show nonneg: "0 \<le> gsum units_int (gdel (Usages r) k)" by (rule gsum_units_nonneg)
  have "\<bar>gsum units_int (Usages r) - units_int ru\<bar> \<le> 2 ^ 53"
    using inv nonneg int sum by (simp add: tot_inv_def integral_def)
  then show "fsub (Fin (of_int (gsum units_int (Usages r)))) (ruUnits ru)
      = Fin (of_int (gsum units_int (gdel (Usages r) k)))"
    using int unfolding integral_def sum by (metis fsub_int)
qed

lemma tot_inv_clearUsage:
  assumes "tot_inv r"
  shows "tot_inv (fst (clearUsage r k))"
proof (cases "gget (Usages r) k")
  case None
  with assms show ?thesis by (simp add: clearUsage_def)
next
  case (Some ru)
  note G = tot_inv_gdel [OF assms Some]
  have "0 \<le> units_int ru"
    using tot_inv_integral [OF assms Some] by (simp add: integral_def)
  then show ?thesis
    using assms Some G(1,3,4) by (auto simp: clearUsage_def tot_inv_def)
qed

text \<open>With the total cached, dropping the expired usages neither panics nor resets it early.\<close>

lemma expire_loop_exact:
  assumes "tot_inv r" and "tUsage r \<noteq> None"
  shows "\<exists>r'. expire_loop idx r = Inr r' \<and> tot_inv r' \<and> tUsage r' \<noteq> None"
  using assms
proof (induction idx arbitrary: r)
  case (Cons i idx)
  show ?case
  proof (cases "gget (Usages r) i")
    case None
    with Cons show ?thesis by simp
  next
    case (Some ru)
    note G = tot_inv_gdel [OF Cons.prems(1) Some]
    have tu: "tUsage r = Some (Fin (of_int (gsum units_int (Usages r))))"
      using Cons.prems by (auto simp: tot_inv_def)
    let ?r = "r\<lparr>Usages := gdel (Usages r) i,
      tUsage := Some (Fin (of_int (gsum units_int (gdel (Usages r) i))))\<rparr>"
    have step: "expire_loop (i # idx) r = expire_loop idx ?r"
      using Some tu G(2,3) by (simp add: Let_def)
    have "0 \<le> units_int ru"
      using tot_inv_integral [OF Cons.prems(1) Some] by (simp add: integral_def)
    then have "tot_inv ?r" using Cons.prems(1) G(1,4) by (simp add: tot_inv_def)
    with Cons.IH [of ?r] step show ?thesis by simp
  qed
qed simp

lemma removeExpiredUnits_exact:
  assumes "tot_inv r" and "tUsage r \<noteq> None"
  shows "\<exists>r'. removeExpiredUnits now r = Inr r' \<and> tot_inv r'"
proof -
  obtain r1 where "expire_loop (take (firstActive now (Usages r) (TTLIdx r)) (TTLIdx r)) r = Inr r1"
    "tot_inv r1" using expire_loop_exact [OF assms] by blast
  then show ?thesis using assms by (auto simp: removeExpiredUnits_def Let_def tot_inv_def)
qed

subsection \<open>Matching\<close>

interpretation ro: matching_order rPrf rpWeight rpBlocker Resources_Sort upto_blocker
  by unfold_locales (simp_all add: Resources_Sort_def)

lemma match_loop_found:
  assumes "\<And>i. i \<in> set ids \<Longrightarrow>
      GetResourceProfile env (evTenant ev) i = Inl ErrNotFound
      \<or> (\<exists>rp b. GetResourceProfile env (evTenant ev) i = Inr rp
           \<and> filterS_Pass env (evTenant ev) (rpFilterIDs rp) (evEvent ev) = Inr b
           \<and> (\<exists>r. GetResource env (rpTenant rp) (rpID rp) = Inr r))"
    and "GetResourceProfile env (evTenant ev) x = Inl ErrNotFound"
  shows "snd (match_loop env ev ttl (ids @ [x]) acc err) = Some ErrNotFound"
  using assms(1)
proof (induction ids arbitrary: acc err)
  case (Cons i ids)
  from Cons.prems [of i] Cons.IH [OF Cons.prems] show ?case
    by (auto simp: Let_def split: sum.splits option.splits)
qed (simp add: assms(2))

subsection \<open>Storing\<close>

lemma processThresholds_saved [simp]:
  "processThresholds env r svc = (r', svc') \<Longrightarrow> savedResources svc' = savedResources svc"
  by (auto simp: processThresholds_def Let_def split: if_splits prod.splits)

lemma store_released_clean:
  assumes "StoreInterval env = -1" and "\<forall>r \<in> set rs. rdirty r \<noteq> Some True"
  shows "savedResources (snd (store_released env rs svc)) = savedResources svc"
  using assms(2)
proof (induction rs arbitrary: svc)
  case (Cons r rs)
  then have c: "StoreResource env r svc = (r, svc, None)" by (simp add: StoreResource_def)
  obtain r2 svc2 where p: "processThresholds env r svc = (r2, svc2)" by (cases "processThresholds env r svc")
  from Cons.IH [of svc2] Cons.prems p c assms(1) show ?case by (auto split: prod.splits)
qed simp

lemma rdirty_clearUsage [simp]: "rdirty (fst (clearUsage r k)) = rdirty r"
  by (simp add: clearUsage_def split: option.splits)

lemma rdirty_Resources_clearUsage:
  "Resources_clearUsage k rs = (rs', e) \<Longrightarrow> map rdirty rs' = map rdirty rs"
proof (induction rs arbitrary: rs' e)
  case (Cons r rs)
  obtain r1 x where c: "clearUsage r k = (r1, x)" by (cases "clearUsage r k")
  obtain rs1 y where rec: "Resources_clearUsage k rs = (rs1, y)" by (cases "Resources_clearUsage k rs")
  have "rdirty r1 = rdirty r" using rdirty_clearUsage [of r k] c by simp
  with Cons.IH [OF rec] Cons.prems c rec show ?case by (auto simp: Let_def)
qed simp


text \<open>What the loop over the candidates collects: resources from the store, each with its
  profile.\<close>

lemma bind_profile_fields:
  "rPrf (bind_profile rp ttl r) = Some rp"
  "rdirty (bind_profile rp ttl r) = (if rpStored rp \<and> rdirty r = None then Some False else rdirty r)"
  "Usages (bind_profile rp ttl r) = Usages r" "TTLIdx (bind_profile rp ttl r) = TTLIdx r"
  by (auto simp: bind_profile_def Let_def split: option.splits)

lemma match_loop_collects:
  assumes fetched: "\<And>t i u j r rp. GetResourceProfile env u j = Inr rp \<Longrightarrow>
      GetResource env t i = Inr r \<Longrightarrow> P (bind_profile rp ttl r)"
    and "\<forall>r \<in> snd ` set acc. P r"
  shows "\<forall>r \<in> snd ` set (fst (match_loop env ev ttl ids acc err)). P r"
  using assms(2)
proof (induction ids arbitrary: acc err)
  case (Cons i ids)
  have new: "\<forall>r \<in> snd ` set (gset acc k x). P r" if "P x" for k x
    using that Cons.prems range_gset [of k x acc] by blast
  have skip: "\<forall>r \<in> snd ` set (fst (match_loop env ev ttl ids acc e)). P r" for e
    by (rule Cons.IH [OF Cons.prems])
  have add: "\<forall>r \<in> snd ` set (fst (match_loop env ev ttl ids
      (gset acc k (bind_profile rp ttl x)) e)). P r"
    if "GetResourceProfile env u i = Inr rp" "GetResource env t j = Inr x" for u i t j x rp k e
    by (rule Cons.IH [OF new [OF fetched [OF that]]])
  show ?case
    using Cons.prems skip add by (simp split: sum.split)
qed simp

text \<open>The answer of \<^verbatim>\<open>matchingResourcesForEvent\<close> comes from the loop.\<close>

lemma matching_Inr:
  assumes "matchingResourcesForEvent env ev uuid ttl svc = (svc', Inr rs)"
  shows "savedResources svc' = savedResources svc \<and>
    (\<exists>ids m. match_loop env ev ttl ids [] None = (m, None)
       \<and> rs = upto_blocker (Resources_Sort (map snd m)))"
  using assms unfolding matchingResourcesForEvent_def Let_def
  by (auto split: option.splits sum.splits prod.splits if_splits)

lemma matching_collects:
  assumes "matchingResourcesForEvent env ev uuid ttl svc = (svc', Inr rs)"
    and "\<And>t i u j r rp. GetResourceProfile env u j = Inr rp \<Longrightarrow>
      GetResource env t i = Inr r \<Longrightarrow> P (bind_profile rp ttl r)"
  shows "\<forall>r \<in> set rs. P r"
proof -
  obtain ids m where m: "match_loop env ev ttl ids [] None = (m, None)"
    "rs = upto_blocker (Resources_Sort (map snd m))" using matching_Inr [OF assms(1)] by blast
  have "\<forall>r \<in> snd ` set (fst (match_loop env ev ttl ids [] None)). P r"
    by (rule match_loop_collects) (auto intro: assms(2))
  with m ro.set_cut_Sort [of "map snd m"] show ?thesis by auto
qed

subsection \<open>The backup\<close>

definition store_fails :: "res_env \<Rightarrow> Resource \<Rightarrow> bool" where
  "store_fails env r \<longleftrightarrow> rdirty r = Some True
     \<and> (SetResource env r \<noteq> None \<or> CacheDataFromDB env (Resource_TenantID r) \<noteq> None)"

lemma StoreResource_outcome:
  assumes "StoreResource env r svc = (r', svc', e)"
  shows "e \<noteq> None \<longleftrightarrow> store_fails env r"
    and "cacheResources svc' = cacheResources svc"
    and "savedResources svc' = savedResources svc
      @ (if rdirty r = Some True \<and> SetResource env r = None then [r] else [])"
proof -
  have "if rdirty r \<noteq> Some True then (r, svc, None) = (r', svc', e)
    else case SetResource env r of
           Some x \<Rightarrow> (r, svc, Some x) = (r', svc', e)
         | None \<Rightarrow> svc' = svc\<lparr>savedResources := savedResources svc @ [r]\<rparr>
             \<and> (e \<noteq> None \<longleftrightarrow> CacheDataFromDB env (Resource_TenantID r) \<noteq> None)"
    using assms unfolding StoreResource_def Let_def by (simp split: if_splits option.splits) auto
  then show "e \<noteq> None \<longleftrightarrow> store_fails env r" "cacheResources svc' = cacheResources svc"
    "savedResources svc' = savedResources svc
      @ (if rdirty r = Some True \<and> SetResource env r = None then [r] else [])"
    unfolding store_fails_def by (cases "SetResource env r"; auto split: if_splits)+
qed

text \<open>One turn of the backup loop, as the contract \<open>backup\<close> sees it.\<close>

definition store_attempt :: "res_env \<Rightarrow> string \<Rightarrow> res_svc \<Rightarrow> res_svc \<times> bool" where
  "store_attempt env rid svc =
     (case gget (cacheResources svc) rid of
        None \<Rightarrow> (svc, False)
      | Some r \<Rightarrow>
          (case StoreResource env r svc of
             (r', svc2, err) \<Rightarrow> (svc2\<lparr>cacheResources := gset (cacheResources svc2) rid r'\<rparr>, err \<noteq> None)))"

definition res_fails :: "res_env \<Rightarrow> Resource option \<Rightarrow> bool" where
  "res_fails env x = (case x of None \<Rightarrow> False | Some r \<Rightarrow> store_fails env r)"

definition res_write :: "res_env \<Rightarrow> Resource option \<Rightarrow> Resource list \<Rightarrow> Resource list" where
  "res_write env x saved =
     (case x of
        None \<Rightarrow> saved
      | Some r \<Rightarrow> saved @ (if rdirty r = Some True \<and> SetResource env r = None then [r] else []))"

lemma set_fold_res_write:
  "set (fold (\<lambda>i. res_write env (f i)) is saved) = set saved
    \<union> {r. \<exists>i \<in> set is. f i = Some r \<and> rdirty r = Some True \<and> SetResource env r = None}"
  by (induction "is" arbitrary: saved) (auto simp: res_write_def split: option.splits)

lemma store_attempt_cases:
  assumes "store_attempt env i svc = (svc', bad)"
  obtains "gget (cacheResources svc) i = None" "svc' = svc" "\<not> bad"
  | r r' svc2 e where "gget (cacheResources svc) i = Some r" "StoreResource env r svc = (r', svc2, e)"
      "svc' = svc2\<lparr>cacheResources := gset (cacheResources svc2) i r'\<rparr>" "bad = (e \<noteq> None)"
  using assms by (auto simp: store_attempt_def split: option.splits prod.splits)

interpretation rb: backup storedResources "\<lambda>m. storedResources_update (\<lambda>_. m)" "store_attempt env"
  "storeResources_loop env" "\<lambda>_. True" "\<lambda>svc. gget (cacheResources svc)" "res_fails env" "res_write env"
  savedResources for env
proof unfold_locales
  fix s failed
  show "storeResources_loop env s failed =
      (let i = StringMap_GetOne (storedResources s)
       in if i = [] then (s, failed)
          else case store_attempt env i (s\<lparr>storedResources := gdel (storedResources s) i\<rparr>) of
                 (s', bad) \<Rightarrow> storeResources_loop env s' (if bad then failed @ [i] else failed))"
    by (subst storeResources_loop.simps) (auto simp: store_attempt_def Let_def split: option.splits prod.splits)
next
  fix i s s' bad
  assume a: "store_attempt env i s = (s', bad)"
  show "storedResources s' = storedResources s"
    using a by (cases rule: store_attempt_cases) auto
  show "bad = res_fails env (gget (cacheResources s) i)"
    using a by (cases rule: store_attempt_cases) (auto simp: res_fails_def dest: StoreResource_outcome(1))
  show "savedResources s' = res_write env (gget (cacheResources s) i) (savedResources s)"
    using a by (cases rule: store_attempt_cases) (auto simp: res_write_def dest: StoreResource_outcome(3))
  show "gget (cacheResources s') j = gget (cacheResources s) j" if "j \<noteq> i" for j
    using a that by (cases rule: store_attempt_cases) (auto dest: StoreResource_outcome(2))
qed simp_all

subsection \<open>Properties\<close>

text \<open>A sample profile, resource and usage.\<close>

definition ex_prfl :: ResourceProfile where
  "ex_prfl = \<lparr>rpTenant = ''cgrates.org'', rpID = ''RES1'', rpFilterIDs = [],
     rpActivationInterval = None, rpUsageTTL = 10, rpLimit = Fin 2, rpAllocationMessage = [],
     rpBlocker = False, rpStored = True, rpWeight = Fin 10, rpThresholdIDs = []\<rparr>"

definition ex_res :: Resource where
  "ex_res = \<lparr>rTenant = ''cgrates.org'', rID = ''RES1'', Usages = [], TTLIdx = [], rttl = Some 10,
     tUsage = None, rdirty = Some False, rPrf = Some ex_prfl\<rparr>"

definition ex_usage :: ResourceUsage where
  "ex_usage = \<lparr>ruTenant = ''cgrates.org'', ruID = ''RU1'', ruExpiryTime = 0, ruUnits = Fin 1\<rparr>"

lemma inv_ex_res: "res_inv ex_res"
  by (simp add: ex_res_def res_inv_def)

text \<open>Claim C1. An allocation that succeeds stays within a limit: when every resource has a time
  to live other than zero, some resource of the list afterwards holds the usage, its total with
  the new units is at most the limit of its profile, and the message returned is the one of that
  profile (its id when no message is configured).\<close>

theorem allocateResource_within_limit:
  assumes alloc: "allocateResource now ru False rs = (rs', msg, None)"
    and inv: "\<forall>r \<in> set rs. res_inv r"
    and ttl: "\<forall>r \<in> set rs. rttl r \<noteq> Some 0"
  shows "\<exists>r' \<in> set rs'. \<exists>rp. rPrf r' = Some rp \<and> ghas (Usages r') (ruID ru)
    \<and> fleq (snd (totalUsage r')) (rpLimit rp)
    \<and> msg = (if rpAllocationMessage rp \<noteq> [] then rpAllocationMessage rp else rpID rp)"
proof -
  obtain rs1 x where l: "alloc_loop now ru False rs [] = (rs1, msg, x)"
    using alloc by (cases "alloc_loop now ru False rs []")
      (auto simp: allocateResource_def split: if_splits option.splits prod.splits)
  with alloc have x: "x = None" "msg \<noteq> []" and r: "Resources_recordUsage now ru rs1 = (rs', None)"
    by (auto simp: allocateResource_def split: if_splits option.splits prod.splits)
  from alloc_loop_room [OF l [unfolded x(1)] inv ttl] x(2)
  obtain r where r1: "r \<in> set rs1" "rttl r \<noteq> Some 0" "has_room ru msg r" by auto
  from r obtain n where "record_all now ru rs1 = (rs', n, None)"
    by (auto simp: Resources_recordUsage_def split: prod.splits if_splits)
  from record_all_None [OF this r1(1)]
  obtain r' where r': "r' \<in> set rs'" "recordUsage now r ru = (r', None)" by blast
  from recordUsage_room [OF r1(3,2) r'(2)] r'(1) show ?thesis by metis
qed

theorem allocateResource_within_limit_witness:
  "\<exists>r' \<in> set (fst (allocateResource 100 ex_usage False [ex_res])). \<exists>rp. rPrf r' = Some rp
    \<and> ghas (Usages r') ''RU1'' \<and> fleq (snd (totalUsage r')) (rpLimit rp)"
proof -
  obtain rs m where a: "allocateResource 100 ex_usage False [ex_res] = (rs, m, None)"
  proof -
    have "snd (snd (allocateResource 100 ex_usage False [ex_res])) = None" by code_simp
    then show ?thesis using that by (metis prod.collapse)
  qed
  from allocateResource_within_limit [OF a] inv_ex_res a show ?thesis
    by (fastforce simp: ex_res_def ex_usage_def)
qed

text \<open>Claim C2. Allocating and releasing keep the representation invariant of every resource
  (unique usages filed under their own id, and \<open>TTLIdx\<close> listing, without duplicates, exactly the
  usages with an expiry time) on every outcome but one: when dropping the expired usages
  dereferences a total that is not cached, the panic leaves exactly one resource broken, the one
  whose usage was deleted while \<open>TTLIdx\<close> still lists it.\<close>

theorem resources_inv_preserved:
  assumes "\<forall>r \<in> set rs. res_inv r"
    and "allocateResource now ru dryRun rs = (rs', msg, err)"
  shows "(err \<noteq> Some (Panic ''nil pointer dereference'') \<longrightarrow> (\<forall>r \<in> set rs'. res_inv r))
    \<and> (err = Some (Panic ''nil pointer dereference'') \<longrightarrow> length (filter (\<lambda>r. \<not> res_inv r) rs') = 1)
    \<and> (\<forall>r \<in> set (fst (Resources_clearUsage k rs)). res_inv r)"
proof (intro conjI impI)
  note B = broken_allocateResource [OF assms(2)]
  show "\<forall>r \<in> set rs'. res_inv r" if "err \<noteq> Some (Panic ''nil pointer dereference'')"
    using B assms(1) that by (simp add: broken_0)
  show "length (filter (\<lambda>r. \<not> res_inv r) rs') = 1" if "err = Some (Panic ''nil pointer dereference'')"
    using B assms(1) that by (simp add: broken_0 broken_def)
  show "\<forall>r \<in> set (fst (Resources_clearUsage k rs)). res_inv r"
    using res_inv_Resources_clearUsage [OF _ assms(1)] by (metis prod.collapse)
qed

theorem resources_inv_preserved_witness:
  "list_all res_inv (fst (allocateResource 100 ex_usage False [ex_res]))
    \<and> length (filter (\<lambda>r. \<not> res_inv r)
        (fst (allocateResource 100 ex_usage False [ex_res, fst (recordUsage 50 ex_res ex_usage)]))) = 1
    \<and> list_all res_inv (fst (Resources_clearUsage ''RU1'' [ex_res]))"
proof -
  let ?rs = "[ex_res, fst (recordUsage 50 ex_res ex_usage)]"
  have i: "\<forall>r \<in> set ?rs. res_inv r"
    using inv_ex_res res_inv_recordUsage [OF inv_ex_res prod.collapse [symmetric]] by simp
  have e: "snd (snd (allocateResource 100 ex_usage False [ex_res])) \<noteq> Some (Panic ''nil pointer dereference'')"
    and p: "snd (snd (allocateResource 100 ex_usage False ?rs)) = Some (Panic ''nil pointer dereference'')"
    by code_simp+
  have "length (filter (\<lambda>r. \<not> res_inv r) (fst (allocateResource 100 ex_usage False ?rs))) = 1"
    using resources_inv_preserved [OF i, of 100 ex_usage False] p by (metis prod.collapse)
  moreover have "list_all res_inv (fst (allocateResource 100 ex_usage False [ex_res]))"
    "list_all res_inv (fst (Resources_clearUsage ''RU1'' [ex_res]))"
    using resources_inv_preserved [of "[ex_res]" 100 ex_usage False _ _ _ "''RU1''"] inv_ex_res e
    unfolding list_all_iff by (metis empty_iff list.set(1) prod.collapse set_ConsD)+
  ultimately show ?thesis by blast
qed

text \<open>Claim C3. Recording a usage on several resources is all or nothing: when one of them already
  has a usage with the id, the error leaves the usages and the expiry order of all of them as
  they were.\<close>

theorem Resources_recordUsage_atomic:
  assumes "snd (Resources_recordUsage now ru rs) \<noteq> None" and "\<forall>r \<in> set rs. res_inv r"
  shows "map Usages (fst (Resources_recordUsage now ru rs)) = map Usages rs
    \<and> map TTLIdx (fst (Resources_recordUsage now ru rs)) = map TTLIdx rs"
  using assms Resources_recordUsage_rollback by (metis option.exhaust prod.collapse)

theorem Resources_recordUsage_atomic_witness:
  "map Usages (fst (Resources_recordUsage 100 ex_usage [ex_res, fst (recordUsage 50 ex_res ex_usage)]))
    = [[], [(''RU1'', ex_usage\<lparr>ruExpiryTime := 60\<rparr>)]]"
proof -
  let ?rs = "[ex_res, fst (recordUsage 50 ex_res ex_usage)]"
  have e: "snd (Resources_recordUsage 100 ex_usage ?rs) \<noteq> None" by code_simp
  have i: "\<forall>r \<in> set ?rs. res_inv r"
    using inv_ex_res res_inv_recordUsage [OF inv_ex_res prod.collapse [symmetric]] by simp
  have "map Usages ?rs = [[], [(''RU1'', ex_usage\<lparr>ruExpiryTime := 60\<rparr>)]]" by code_simp
  with Resources_recordUsage_atomic [OF e i] show ?thesis by metis
qed

text \<open>Claim C4. For integral units whose sum stays within \<open>2 ^ 53\<close> the cached total is the sum of
  the units of the usages: the total returned is that sum, recording, clearing and caching keep it
  so, and dropping the expired usages of a resource with a cached total does not panic.\<close>

theorem total_is_sum_of_usages:
  assumes "tot_inv r"
  shows "snd (totalUsage r) = Fin (of_int (gsum units_int (Usages r)))
    \<and> tot_inv (fst (totalUsage r)) \<and> tot_inv (fst (clearUsage r k))
    \<and> (integral ru \<and> gsum units_int (Usages r) + units_int ru \<le> 2 ^ 53
         \<longrightarrow> tot_inv (fst (recordUsage now r ru)))
    \<and> (tUsage r \<noteq> None \<longrightarrow> (\<exists>r'. removeExpiredUnits now r = Inr r' \<and> tot_inv r'))"
proof -
  have "tot_inv (fst (recordUsage now r ru))"
    if "integral ru" "gsum units_int (Usages r) + units_int ru \<le> 2 ^ 53"
  proof (cases "snd (recordUsage now r ru)")
    case None
    then show ?thesis using tot_inv_recordUsage [OF assms _ that] by (metis prod.collapse)
  next
    case (Some e)
    then show ?thesis using recordUsage_error assms by (metis prod.collapse)
  qed
  then show ?thesis
    using assms by (simp add: totalUsage_exact tot_inv_totalUsage tot_inv_clearUsage removeExpiredUnits_exact)
qed

theorem total_is_sum_of_usages_witness:
  "snd (totalUsage (fst (recordUsage 50 ex_res ex_usage))) = Fin 1
    \<and> tot_inv (fst (recordUsage 50 ex_res ex_usage))"
proof -
  have i: "tot_inv ex_res" "integral ex_usage"
    and b: "gsum units_int (Usages ex_res) + units_int ex_usage \<le> 2 ^ 53"
    by (simp_all add: ex_res_def tot_inv_def ex_usage_def integral_def units_int_def gsum_def)
  have r: "tot_inv (fst (recordUsage 50 ex_res ex_usage))"
    using total_is_sum_of_usages [OF i(1), of "[]" ex_usage 50] i(2) b by blast
  have "gsum units_int (Usages (fst (recordUsage 50 ex_res ex_usage))) = 1" by code_simp
  with total_is_sum_of_usages [OF r, of "[]" ex_usage 50] r show ?thesis by simp
qed

text \<open>A resource whose total is not cached (as when it was just loaded from the data base)
  and whose oldest usage has expired makes \<^verbatim>\<open>removeExpiredUnits\<close> dereference the nil total: the
  call panics with the usage deleted and \<open>TTLIdx\<close> still listing it.\<close>

theorem removeExpiredUnits_nil_total:
  assumes "tUsage r = None" and "TTLIdx r = i # idx" and "gget (Usages r) i = Some ru"
    and "\<not> isActive ru now"
  shows "removeExpiredUnits now r =
    Inl (r\<lparr>Usages := gdel (Usages r) i\<rparr>, Panic ''nil pointer dereference'')"
  using assms by (simp add: removeExpiredUnits_def Let_def)

theorem removeExpiredUnits_nil_total_witness:
  "removeExpiredUnits 100 (fst (recordUsage 50 ex_res ex_usage)) =
    Inl ((fst (recordUsage 50 ex_res ex_usage))\<lparr>Usages :=
      gdel (Usages (fst (recordUsage 50 ex_res ex_usage))) ''RU1''\<rparr>, Panic ''nil pointer dereference'')"
  by (rule removeExpiredUnits_nil_total [where i = "''RU1''" and idx = "[]"
        and ru = "ex_usage\<lparr>ruExpiryTime := 60\<rparr>"]) code_simp+

text \<open>The resources matching an event come in descending order of weight and stop at the
  first blocker: none but the last one is a blocker.\<close>

theorem matching_sorted_upto_blocker:
  assumes "matchingResourcesForEvent env ev uuid ttl svc = (svc', Inr rs)"
    and "\<And>t i rp. GetResourceProfile env t i = Inr rp \<Longrightarrow> rpWeight rp \<noteq> NaN"
  shows "sorted_wrt (weight_desc rPrf rpWeight) rs \<and> (\<forall>r \<in> set (butlast rs). \<forall>p. rPrf r = Some p \<longrightarrow> \<not> rpBlocker p)"
proof -
  obtain ids m where m: "match_loop env ev ttl ids [] None = (m, None)"
    "rs = upto_blocker (Resources_Sort (map snd m))" using matching_Inr [OF assms(1)] by blast
  let ?P = "\<lambda>r. \<exists>p. rPrf r = Some p \<and> rpWeight p \<noteq> NaN"
  have "\<forall>r \<in> snd ` set (fst (match_loop env ev ttl ids [] None)). ?P r"
    by (rule match_loop_collects) (auto simp: bind_profile_fields dest: assms(2))
  then have "\<forall>r \<in> set (map snd m). ?P r" using m(1) by simp
  from ro.cut_Sort_desc [OF this] ro.cut_butlast m(2) show ?thesis by blast
qed

definition ex_env :: res_env where
  "ex_env = \<lparr>MatchingItemIDsForEvent = \<lambda>_. Inr [(''RES1'', True), (''RES2'', True)],
     GetResourceProfile = \<lambda>_ i. if i = ''RES1'' then Inr ex_prfl else Inl ErrNotFound,
     filterS_Pass = \<lambda>_ _ _. Inr True, GetResource = \<lambda>_ _. Inr ex_res,
     SetResource = \<lambda>_. None, CacheDataFromDB = \<lambda>_. None, StoreInterval = -1,
     CacheRPCLimit = 0, ThresholdSConns = [''*localhost''], GenUUID = \<lambda>_. ''uuid''\<rparr>"

definition ex_svc :: res_svc where
  "ex_svc = \<lparr>storedResources = [], eventResources = [(''RU1'', Some [(''RES1'', True)])],
     rpcResponses = [], cacheResources = [], savedResources = [], thresholdCalls = []\<rparr>"

definition ex_ev :: CGREvent where
  "ex_ev = \<lparr>evTenant = ''cgrates.org'', evID = ''ev1'', evTime = None,
     evEvent = [(''Account'', IString ''1001'')]\<rparr>"

definition ex_args :: ArgRSv1ResourceUsage where
  "ex_args = \<lparr>argEvent = Some ex_ev, argUsageID = ''RU1'', argUsageTTL = None, argUnits = Fin 1\<rparr>"

theorem matching_sorted_upto_blocker_witness:
  "matchingResourcesForEvent ex_env ex_ev ''RU1'' None ex_svc = (ex_svc, Inr [ex_res])
    \<and> sorted_wrt (weight_desc rPrf rpWeight) [ex_res]"
proof -
  have m: "matchingResourcesForEvent ex_env ex_ev ''RU1'' None ex_svc = (ex_svc, Inr [ex_res])"
    by code_simp
  have "sorted_wrt (weight_desc rPrf rpWeight) [ex_res]
    \<and> (\<forall>r \<in> set (butlast [ex_res]). \<forall>p. rPrf r = Some p \<longrightarrow> \<not> rpBlocker p)"
    by (rule matching_sorted_upto_blocker [OF m]) (auto simp: ex_env_def ex_prfl_def split: if_splits)
  with m show ?thesis by blast
qed

text \<open>When the last candidate of the look-up has no profile, the event is answered with
  not found although other candidates match: the error of the look-up is kept in the variable the
  function tests after the loop.\<close>

theorem matching_lost_on_missing_profile:
  assumes cached: "gget (eventResources svc) uuid = Some (Some (sm @ [(x, b)]))"
    and found: "\<forall>i \<in> set (map fst sm). \<exists>rp r. GetResourceProfile env (evTenant ev) i = Inr rp
      \<and> filterS_Pass env (evTenant ev) (rpFilterIDs rp) (evEvent ev) = Inr True
      \<and> GetResource env (rpTenant rp) (rpID rp) = Inr r"
    and missing: "GetResourceProfile env (evTenant ev) x = Inl ErrNotFound"
  shows "snd (matchingResourcesForEvent env ev uuid ttl svc) = Inl ErrNotFound"
proof -
  have "snd (match_loop env ev ttl (map fst sm @ [x]) [] None) = Some ErrNotFound"
    using found missing by (intro match_loop_found) blast+
  then show ?thesis
    unfolding matchingResourcesForEvent_def Let_def cached by (auto split: prod.splits option.splits)
qed

theorem matching_lost_on_missing_profile_witness:
  "snd (matchingResourcesForEvent ex_env ex_ev ''RU1'' None
     (ex_svc\<lparr>eventResources := [(''RU1'', Some [(''RES1'', True), (''RES2'', True)])]\<rparr>)) = Inl ErrNotFound"
  by (rule matching_lost_on_missing_profile [where sm = "[(''RES1'', True)]" and x = "''RES2''"])
    (simp_all add: ex_env_def ex_svc_def)

lemma with_rpc_cache_saved:
  assumes "savedResources (fst (h svc)) = savedResources svc"
  shows "savedResources (fst (with_rpc_cache env k f g x h svc)) = savedResources svc"
  using assms by (auto simp: with_rpc_cache_def split: option.splits prod.splits)

lemma release_body_saved:
  assumes "StoreInterval env = -1"
    and "\<And>t i r. GetResource env t i = Inr r \<Longrightarrow> rdirty r \<noteq> Some True"
  shows "savedResources (fst (case matchingResourcesForEvent env ev k ttl svc of
      (svc1, Inl e) \<Rightarrow> (svc1, [], Inl e)
    | (svc1, Inr mtcRLs) \<Rightarrow>
        (case Resources_clearUsage k mtcRLs of (rs, _) \<Rightarrow>
           (case store_released env rs svc1 of (rs', svc2) \<Rightarrow> (svc2, rs', Inr ''OK''))))) = savedResources svc"
proof -
  obtain svc1 res where m: "matchingResourcesForEvent env ev k ttl svc = (svc1, res)"
    by (cases "matchingResourcesForEvent env ev k ttl svc")
  show ?thesis
  proof (cases res)
    case (Inl e)
    with m show ?thesis
      by (auto simp: matchingResourcesForEvent_def Let_def
          split: option.splits sum.splits prod.splits if_splits)
  next
    case (Inr rs)
    have clean: "\<forall>r \<in> set rs. rdirty r \<noteq> Some True"
      by (rule matching_collects [OF m [unfolded Inr]]) (use assms(2) in \<open>auto simp: bind_profile_fields\<close>)
    obtain rs1 e where c: "Resources_clearUsage k rs = (rs1, e)" by (cases "Resources_clearUsage k rs")
    have "map rdirty rs1 = map rdirty rs" by (rule rdirty_Resources_clearUsage [OF c])
    then have "\<forall>r \<in> set rs1. rdirty r \<noteq> Some True" using clean by (metis (mono_tags) image_iff list.set_map)
    from store_released_clean [OF assms(1) this, of svc1] matching_Inr [OF m [unfolded Inr]]
    show ?thesis using m c Inr by (auto split: prod.splits)
  qed
qed

text \<open>With a store interval of minus one a release saves nothing when the resources of the
  data base are not marked dirty, as they are when loaded, although an allocation under the same
  configuration saves every resource it changed.\<close>

theorem V1ReleaseResource_not_saved:
  assumes "StoreInterval env = -1"
    and "\<And>t i r. GetResource env t i = Inr r \<Longrightarrow> rdirty r \<noteq> Some True"
  shows "savedResources (fst (V1ReleaseResource env args svc)) = savedResources svc"
proof (cases "check_args args")
  case (Inr ev)
  then show ?thesis
    unfolding V1ReleaseResource_def
    by (simp add: with_rpc_cache_saved release_body_saved [OF assms])
qed (simp add: V1ReleaseResource_def)

theorem V1ReleaseResource_not_saved_witness:
  "savedResources (fst (V1ReleaseResource ex_env ex_args ex_svc)) = []
    \<and> length (savedResources (fst (V1AllocateResource ex_env 100 ex_args ex_svc))) = 1"
proof -
  have "savedResources (fst (V1ReleaseResource ex_env ex_args ex_svc)) = savedResources ex_svc"
    by (rule V1ReleaseResource_not_saved) (auto simp: ex_env_def ex_res_def)
  moreover have "length (savedResources (fst (V1AllocateResource ex_env 100 ex_args ex_svc))) = 1"
    by code_simp
  ultimately show ?thesis by (simp add: ex_svc_def)
qed

text \<open>A backup ends, and afterwards the index holds exactly the ids of the cached resources
  that are dirty and could not be written or cached; every other dirty resource was written.\<close>

theorem storeResources_complete:
  assumes "gmap_ok (storedResources svc)" and "[] \<notin> fst ` set (storedResources svc)"
  shows "fst ` set (storedResources (storeResources env svc))
      = {i \<in> fst ` set (storedResources svc).
           \<exists>r. gget (cacheResources svc) i = Some r \<and> store_fails env r}
    \<and> set (savedResources (storeResources env svc)) = set (savedResources svc)
      \<union> {r. \<exists>i \<in> fst ` set (storedResources svc). gget (cacheResources svc) i = Some r
              \<and> rdirty r = Some True \<and> SetResource env r = None}"
proof -
  obtain svc' fl where l: "storeResources_loop env svc [] = (svc', fl)"
    by (cases "storeResources_loop env svc []")
  have "res_fails env x \<longleftrightarrow> (\<exists>r. x = Some r \<and> store_fails env r)" for x
    by (auto simp: res_fails_def split: option.splits)
  then show ?thesis
    using rb.backup_complete(1,2) [OF l TrueI assms] l
    by (simp add: storeResources_def set_fold_res_write)
qed

theorem storeResources_complete_witness:
  "let svc = ex_svc\<lparr>storedResources := [(''cgrates.org:RES1'', True)],
                   cacheResources := [(''cgrates.org:RES1'', ex_res\<lparr>rdirty := Some True\<rparr>)]\<rparr>
   in fst ` set (storedResources (storeResources ex_env svc)) = {}
      \<and> ex_res\<lparr>rdirty := Some True\<rparr> \<in> set (savedResources (storeResources ex_env svc))"
  using storeResources_complete [of "ex_svc\<lparr>storedResources := [(''cgrates.org:RES1'', True)],
      cacheResources := [(''cgrates.org:RES1'', ex_res\<lparr>rdirty := Some True\<rparr>)]\<rparr>" ex_env]
  by (auto simp: store_fails_def ex_env_def ex_svc_def)

text \<open>With response caching on, an allocation that failed is answered as a success, with an
  empty message, when the same event is sent again: the error is cached before it is known.\<close>

theorem rpc_cache_forgets_error:
  assumes "CacheRPCLimit env \<noteq> 0" and "check_args args = Inr ev"
    and "gget (rpcResponses svc) (ConcatenatedKey [''ResourceSv1.AllocateResources'', CGREvent_TenantID ev]) = None"
    and "V1AllocateResource env now args svc = (svc', rs, Inl e)"
  shows "snd (snd (V1AllocateResource env now' args svc')) = Inr []"
  using assms by (auto simp: V1AllocateResource_def with_rpc_cache_def split: prod.splits)

theorem rpc_cache_forgets_error_witness:
  "let env = ex_env\<lparr>CacheRPCLimit := -1\<rparr>; args = ex_args\<lparr>argUnits := Fin 3\<rparr>;
       first = V1AllocateResource env 100 args ex_svc
   in snd (snd first) = Inl ErrResourceUnavailable
      \<and> snd (snd (V1AllocateResource env 101 args (fst first))) = Inr []"
proof -
  let ?env = "ex_env\<lparr>CacheRPCLimit := -1\<rparr>" and ?args = "ex_args\<lparr>argUnits := Fin 3\<rparr>"
  let ?first = "V1AllocateResource ?env 100 ?args ex_svc"
  have e: "snd (snd ?first) = Inl ErrResourceUnavailable" by code_simp
  then have f: "?first = (fst ?first, fst (snd ?first), Inl ErrResourceUnavailable)"
    by (metis prod.collapse)
  have c: "check_args ?args = Inr ex_ev" by code_simp
  have "snd (snd (V1AllocateResource ?env 101 ?args (fst ?first))) = Inr []"
    by (rule rpc_cache_forgets_error [OF _ c _ f]) (simp_all add: ex_env_def ex_svc_def)
  with e show ?thesis by (simp add: Let_def)
qed

end
