(* ===== verification/Stat_Metrics.thy ===== *)
theory Stat_Metrics
  imports Utils_Event
begin

text \<open>
  \<^verbatim>\<open>engine/statmetrics.go\<close>: the ten metrics a statistics queue computes, each behind the
  interface \<^verbatim>\<open>StatMetric\<close>.

  The structs with the same fields share a record: \<open>FloatMetric\<close> for \<^verbatim>\<open>StatACC\<close> and
  \<^verbatim>\<open>StatTCC\<close>, its extension \<open>FieldMetric\<close> for \<^verbatim>\<open>StatSum\<close> and \<^verbatim>\<open>StatAverage\<close>,
  \<open>DurationMetric\<close> for \<^verbatim>\<open>StatACD\<close>, \<^verbatim>\<open>StatTCD\<close> and \<^verbatim>\<open>StatPDD\<close>, \<open>ValuesMetric\<close> and its
  extension for \<^verbatim>\<open>StatDDC\<close> and \<^verbatim>\<open>StatDistinct\<close>. Every method is a definition of its own; the
  fragments the methods share literally (\<open>stat_add\<close>, \<open>dur_add\<close>, \<open>stat_drop\<close>, \<open>dur_drop\<close>,
  \<open>merge_factor\<close>) are written once. A method that caches its result returns the metric with
  the cache filled. \<open>StatMetric\<close> is the union of the ten and the methods dispatch on it.

  The locale \<open>stat_metric\<close> is the contract of the interface: the counter is the sum of the
  compress factors, adding and removing an event change the factor of that event by one and
  nothing else, removing an event that is not there is answered with not found, the cached
  value is the value the fields give, compressing keeps counter and value. It is interpreted
  for each of the ten metrics and for the union, which is what \<open>Stat_Queue\<close> builds on.
\<close>

subsection \<open>Shared parts\<close>

text \<open>The configuration the methods read and the formatting they call.\<close>

record stat_cfg =
  scLib :: golib
  RoundingDecimals :: int
  DefaultTimezone :: string

definition STATS_NA :: float64 where
  "STATS_NA = Fin (- 1)"

definition NOT_AVAILABLE :: string where
  "NOT_AVAILABLE = ''N/A''"

record DurationWithCompress =
  dwDuration :: duration
  dwCompressFactor :: int

record StatWithCompress =
  swStat :: float64
  swCompressFactor :: int

text \<open>\<^verbatim>\<open>time.Duration.Seconds\<close>: whole seconds plus the fraction.\<close>

definition Duration_Seconds :: "duration \<Rightarrow> float64" where
  "Duration_Seconds d =
     (let sec = quot64 d 1000000000; nsec = d - sec * 1000000000
      in fadd (float_of_int sec) (fdiv (float_of_int nsec) (Fin 1000000000)))"

text \<open>Filing a value under an event id: a new entry, or the average of the values so far.\<close>

definition stat_add :: "string \<Rightarrow> float64 \<Rightarrow> (string, StatWithCompress) gmap \<Rightarrow> (string, StatWithCompress) gmap" where
  "stat_add i v events =
     (case gget events i of
        None \<Rightarrow> gset events i \<lparr>swStat = v, swCompressFactor = 1\<rparr>
      | Some val \<Rightarrow>
          gset events i
            \<lparr>swStat = fdiv (fadd (fmul (swStat val) (float_of_int (swCompressFactor val))) v)
                       (float_of_int (swCompressFactor val + 1)),
             swCompressFactor = swCompressFactor val + 1\<rparr>)"

definition dur_add :: "string \<Rightarrow> duration \<Rightarrow> (string, DurationWithCompress) gmap \<Rightarrow> (string, DurationWithCompress) gmap" where
  "dur_add i dur events =
     (case gget events i of
        None \<Rightarrow> gset events i \<lparr>dwDuration = dur, dwCompressFactor = 1\<rparr>
      | Some val \<Rightarrow>
          gset events i
            \<lparr>dwDuration = int64_of_float
               (fdiv (fadd (fmul (float_of_int (dwDuration val)) (float_of_int (dwCompressFactor val)))
                        (float_of_int dur))
                     (float_of_int (dwCompressFactor val + 1))),
             dwCompressFactor = dwCompressFactor val + 1\<rparr>)"

text \<open>Taking one event off an entry.\<close>

definition stat_drop :: "string \<Rightarrow> StatWithCompress \<Rightarrow> (string, StatWithCompress) gmap \<Rightarrow> (string, StatWithCompress) gmap" where
  "stat_drop i val events =
     (if swCompressFactor val \<le> 1 then gdel events i
      else gset events i (val\<lparr>swCompressFactor := swCompressFactor val - 1\<rparr>))"

definition dur_drop :: "string \<Rightarrow> DurationWithCompress \<Rightarrow> (string, DurationWithCompress) gmap \<Rightarrow> (string, DurationWithCompress) gmap" where
  "dur_drop i val events =
     (if dwCompressFactor val \<le> 1 then gdel events i
      else gset events i (val\<lparr>dwCompressFactor := dwCompressFactor val - 1\<rparr>))"

text \<open>The largest factor per event id: one turn of the loop of \<^verbatim>\<open>GetCompressFactor\<close>.\<close>

definition merge_factor :: "string \<Rightarrow> int \<Rightarrow> (string, int) gmap \<Rightarrow> (string, int) gmap" where
  "merge_factor i cf events =
     (let events1 = (if ghas events i then events else gset events i cf)
      in case gget events1 i of
           Some c \<Rightarrow> if c < cf then gset events1 i cf else events1
         | None \<Rightarrow> events1)"

definition stat_factors :: "(string, StatWithCompress) gmap \<Rightarrow> (string, int) gmap \<Rightarrow> (string, int) gmap" where
  "stat_factors evs events = fold (\<lambda>(i, val). merge_factor i (swCompressFactor val)) evs events"

definition dur_factors :: "(string, DurationWithCompress) gmap \<Rightarrow> (string, int) gmap \<Rightarrow> (string, int) gmap" where
  "dur_factors evs events = fold (\<lambda>(i, val). merge_factor i (dwCompressFactor val)) evs events"

text \<open>\<^verbatim>\<open>err = utils.ErrPrefix(err, field)\<close> for a missing field.\<close>

definition missing_field :: "string \<Rightarrow> error \<Rightarrow> error" where
  "missing_field fld e = (if e = ErrNotFound then ErrPrefix e fld else e)"

text \<open>A field reference starts with \<open>~*req.\<close>.\<close>

definition is_req_field :: "string \<Rightarrow> bool" where
  "is_req_field fldName = has_prefix fldName ''~*req.''"

type_synonym 'm compressed = "error + ('m \<times> string list)"

subsection \<open>ASR: average success ratio\<close>

record StatASR =
  asrFilterIDs :: "string list"
  asrAnswered :: float64
  asrCount :: int
  asrEvents :: "(string, StatWithCompress) gmap"
  asrMinItems :: int
  asrval :: "float64 option"

definition NewASR :: "int \<Rightarrow> string \<Rightarrow> string list \<Rightarrow> StatASR" where
  "NewASR minItems extraParams filterIDs =
     \<lparr>asrFilterIDs = filterIDs, asrAnswered = Fin 0, asrCount = 0, asrEvents = [],
      asrMinItems = minItems, asrval = None\<rparr>"

definition ASR_compute :: "stat_cfg \<Rightarrow> StatASR \<Rightarrow> float64" where
  "ASR_compute cfg asr =
     (if (asrMinItems asr > 0 \<and> asrCount asr < asrMinItems asr) \<or> asrCount asr = 0 then STATS_NA
      else Round (fmul (fdiv (asrAnswered asr) (float_of_int (asrCount asr))) (Fin 100))
             (RoundingDecimals cfg) ROUNDING_MIDDLE)"

definition ASR_getValue :: "stat_cfg \<Rightarrow> StatASR \<Rightarrow> float64 \<times> StatASR" where
  "ASR_getValue cfg asr =
     (case asrval asr of
        Some v \<Rightarrow> (v, asr)
      | None \<Rightarrow> (ASR_compute cfg asr, asr\<lparr>asrval := Some (ASR_compute cfg asr)\<rparr>))"

definition ASR_GetValue :: "stat_cfg \<Rightarrow> StatASR \<Rightarrow> iface \<times> StatASR" where
  "ASR_GetValue cfg asr = (case ASR_getValue cfg asr of (v, asr') \<Rightarrow> (IFloat64 v, asr'))"

definition ASR_GetStringValue :: "stat_cfg \<Rightarrow> StatASR \<Rightarrow> string \<times> StatASR" where
  "ASR_GetStringValue cfg asr =
     (case ASR_getValue cfg asr of (v, asr') \<Rightarrow>
        (if feq v STATS_NA then NOT_AVAILABLE else Sprintf_v (scLib cfg) v @ ''%'', asr'))"

definition ASR_GetFloat64Value :: "stat_cfg \<Rightarrow> StatASR \<Rightarrow> float64 \<times> StatASR" where
  "ASR_GetFloat64Value cfg asr = ASR_getValue cfg asr"

definition ASR_AddEvent :: "stat_cfg \<Rightarrow> CGREvent \<Rightarrow> StatASR \<Rightarrow> error + StatASR" where
  "ASR_AddEvent cfg ev asr =
     (let file = (\<lambda>answered::int. asr\<lparr>
            asrEvents := stat_add (evID ev) (float_of_int answered) (asrEvents asr),
            asrCount := asrCount asr + 1,
            asrAnswered := (if answered = 1 then fadd (asrAnswered asr) (Fin 1) else asrAnswered asr),
            asrval := None\<rparr>)
      in case FieldAsTime (scLib cfg) ev ''AnswerTime'' (DefaultTimezone cfg) of
           Inl e \<Rightarrow> if e \<noteq> ErrNotFound then Inl e else Inr (file 0)
         | Inr t \<Rightarrow> Inr (file (if \<not> IsZero t then 1 else 0)))"

definition ASR_RemEvent :: "string \<Rightarrow> StatASR \<Rightarrow> StatASR \<times> error option" where
  "ASR_RemEvent evID' asr =
     (case gget (asrEvents asr) evID' of
        None \<Rightarrow> (asr, Some ErrNotFound)
      | Some val \<Rightarrow>
          let ans = (if fless (Fin (1 / 2)) (swStat val) then 1 else 0) :: int
          in (asr\<lparr>
               asrAnswered := (if ans = 1 then fsub (asrAnswered asr) (Fin 1) else asrAnswered asr),
               asrCount := asrCount asr - 1,
               asrEvents :=
                 (if swCompressFactor val \<le> 1 then gdel (asrEvents asr) evID'
                  else gset (asrEvents asr) evID'
                    \<lparr>swStat = fdiv (fsub (fmul (swStat val) (float_of_int (swCompressFactor val)))
                                         (float_of_int ans))
                               (float_of_int (swCompressFactor val - 1)),
                     swCompressFactor = swCompressFactor val - 1\<rparr>),
               asrval := None\<rparr>, None))"

definition ASR_Compress :: "stat_cfg \<Rightarrow> int \<Rightarrow> string \<Rightarrow> StatASR \<Rightarrow> StatASR compressed" where
  "ASR_Compress cfg queueLen defaultID asr =
     (if asrCount asr < queueLen then Inr (asr, map fst (asrEvents asr))
      else Inr (asr\<lparr>asrEvents := [(defaultID,
             \<lparr>swStat = Round (fdiv (asrAnswered asr) (float_of_int (asrCount asr)))
                         (RoundingDecimals cfg) ROUNDING_MIDDLE,
              swCompressFactor = asrCount asr\<rparr>)]\<rparr>, [defaultID]))"

definition ASR_GetCompressFactor :: "StatASR \<Rightarrow> (string, int) gmap \<Rightarrow> (string, int) gmap" where
  "ASR_GetCompressFactor asr events = stat_factors (asrEvents asr) events"

subsection \<open>Durations: ACD, TCD, PDD\<close>

record DurationMetric =
  dmFilterIDs :: "string list"
  dmSum :: duration
  dmCount :: int
  dmEvents :: "(string, DurationWithCompress) gmap"
  dmMinItems :: int
  dmval :: "duration option"

type_synonym StatACD = DurationMetric
type_synonym StatTCD = DurationMetric
type_synonym StatPDD = DurationMetric

paragraph \<open>ACD: average call duration\<close>

definition NewACD :: "int \<Rightarrow> string \<Rightarrow> string list \<Rightarrow> StatACD" where
  "NewACD minItems extraParams filterIDs =
     \<lparr>dmFilterIDs = filterIDs, dmSum = 0, dmCount = 0, dmEvents = [], dmMinItems = minItems,
      dmval = None\<rparr>"

definition ACD_compute :: "StatACD \<Rightarrow> duration" where
  "ACD_compute acd =
     (if (dmMinItems acd > 0 \<and> dmCount acd < dmMinItems acd) \<or> dmCount acd = 0 then - 1
      else quot64 (dmSum acd) (dmCount acd))"

definition ACD_getValue :: "StatACD \<Rightarrow> duration \<times> StatACD" where
  "ACD_getValue acd =
     (case dmval acd of
        Some v \<Rightarrow> (v, acd)
      | None \<Rightarrow> (ACD_compute acd, acd\<lparr>dmval := Some (ACD_compute acd)\<rparr>))"

definition ACD_GetStringValue :: "stat_cfg \<Rightarrow> StatACD \<Rightarrow> string \<times> StatACD" where
  "ACD_GetStringValue cfg acd =
     (case ACD_getValue acd of (v, acd') \<Rightarrow>
        (if v = - 1 then NOT_AVAILABLE else Duration_String (scLib cfg) v, acd'))"

definition ACD_GetValue :: "StatACD \<Rightarrow> iface \<times> StatACD" where
  "ACD_GetValue acd = (case ACD_getValue acd of (v, acd') \<Rightarrow> (IDuration v, acd'))"

definition ACD_GetFloat64Value :: "StatACD \<Rightarrow> float64 \<times> StatACD" where
  "ACD_GetFloat64Value acd =
     (case ACD_getValue acd of (v, acd') \<Rightarrow>
        (if v = - 1 then Fin (- 1) else Duration_Seconds v, acd'))"

definition ACD_AddEvent :: "stat_cfg \<Rightarrow> CGREvent \<Rightarrow> StatACD \<Rightarrow> error + StatACD" where
  "ACD_AddEvent cfg ev acd =
     (case FieldAsDuration (scLib cfg) ev ''Usage'' of
        Inl e \<Rightarrow> Inl (missing_field ''Usage'' e)
      | Inr dur \<Rightarrow>
          Inr (acd\<lparr>dmSum := wrap64 (dmSum acd + dur),
                 dmEvents := dur_add (evID ev) dur (dmEvents acd),
                 dmCount := dmCount acd + 1, dmval := None\<rparr>))"

definition ACD_RemEvent :: "string \<Rightarrow> StatACD \<Rightarrow> StatACD \<times> error option" where
  "ACD_RemEvent evID' acd =
     (case gget (dmEvents acd) evID' of
        None \<Rightarrow> (acd, Some ErrNotFound)
      | Some val \<Rightarrow>
          (acd\<lparr>dmSum := (if dwDuration val \<noteq> 0 then wrap64 (dmSum acd - dwDuration val) else dmSum acd),
             dmCount := dmCount acd - 1,
             dmEvents := dur_drop evID' val (dmEvents acd), dmval := None\<rparr>, None))"

definition ACD_Compress :: "int \<Rightarrow> string \<Rightarrow> StatACD \<Rightarrow> StatACD compressed" where
  "ACD_Compress queueLen defaultID acd =
     (if dmCount acd < queueLen then Inr (acd, map fst (dmEvents acd))
      else if dmCount acd = 0 then Inl (Panic ''integer divide by zero'')
      else Inr (acd\<lparr>dmEvents := [(defaultID,
             \<lparr>dwDuration = quot64 (dmSum acd) (dmCount acd), dwCompressFactor = dmCount acd\<rparr>)]\<rparr>,
             [defaultID]))"

definition ACD_GetCompressFactor :: "StatACD \<Rightarrow> (string, int) gmap \<Rightarrow> (string, int) gmap" where
  "ACD_GetCompressFactor acd events = dur_factors (dmEvents acd) events"

paragraph \<open>TCD: total call duration\<close>

definition NewTCD :: "int \<Rightarrow> string \<Rightarrow> string list \<Rightarrow> StatTCD" where
  "NewTCD minItems extraParams filterIDs =
     \<lparr>dmFilterIDs = filterIDs, dmSum = 0, dmCount = 0, dmEvents = [], dmMinItems = minItems,
      dmval = None\<rparr>"

definition TCD_compute :: "StatTCD \<Rightarrow> duration" where
  "TCD_compute tcd =
     (if (dmMinItems tcd > 0 \<and> dmCount tcd < dmMinItems tcd) \<or> dmCount tcd = 0 then - 1
      else dmSum tcd)"

definition TCD_getValue :: "StatTCD \<Rightarrow> duration \<times> StatTCD" where
  "TCD_getValue tcd =
     (case dmval tcd of
        Some v \<Rightarrow> (v, tcd)
      | None \<Rightarrow> (TCD_compute tcd, tcd\<lparr>dmval := Some (TCD_compute tcd)\<rparr>))"

definition TCD_GetStringValue :: "stat_cfg \<Rightarrow> StatTCD \<Rightarrow> string \<times> StatTCD" where
  "TCD_GetStringValue cfg tcd =
     (case TCD_getValue tcd of (v, tcd') \<Rightarrow>
        (if v = - 1 then NOT_AVAILABLE else Duration_String (scLib cfg) v, tcd'))"

definition TCD_GetValue :: "StatTCD \<Rightarrow> iface \<times> StatTCD" where
  "TCD_GetValue tcd = (case TCD_getValue tcd of (v, tcd') \<Rightarrow> (IDuration v, tcd'))"

definition TCD_GetFloat64Value :: "StatTCD \<Rightarrow> float64 \<times> StatTCD" where
  "TCD_GetFloat64Value tcd =
     (case TCD_getValue tcd of (v, tcd') \<Rightarrow>
        (if v = - 1 then Fin (- 1) else Duration_Seconds v, tcd'))"

definition TCD_AddEvent :: "stat_cfg \<Rightarrow> CGREvent \<Rightarrow> StatTCD \<Rightarrow> error + StatTCD" where
  "TCD_AddEvent cfg ev tcd =
     (case FieldAsDuration (scLib cfg) ev ''Usage'' of
        Inl e \<Rightarrow> Inl (missing_field ''Usage'' e)
      | Inr dur \<Rightarrow>
          Inr (tcd\<lparr>dmSum := wrap64 (dmSum tcd + dur),
                 dmEvents := dur_add (evID ev) dur (dmEvents tcd),
                 dmCount := dmCount tcd + 1, dmval := None\<rparr>))"

definition TCD_RemEvent :: "string \<Rightarrow> StatTCD \<Rightarrow> StatTCD \<times> error option" where
  "TCD_RemEvent evID' tcd =
     (case gget (dmEvents tcd) evID' of
        None \<Rightarrow> (tcd, Some ErrNotFound)
      | Some val \<Rightarrow>
          (tcd\<lparr>dmSum := (if dwDuration val \<noteq> 0 then wrap64 (dmSum tcd - dwDuration val) else dmSum tcd),
             dmCount := dmCount tcd - 1,
             dmEvents := dur_drop evID' val (dmEvents tcd), dmval := None\<rparr>, None))"

definition TCD_Compress :: "int \<Rightarrow> string \<Rightarrow> StatTCD \<Rightarrow> StatTCD compressed" where
  "TCD_Compress queueLen defaultID tcd =
     (if dmCount tcd < queueLen then Inr (tcd, map fst (dmEvents tcd))
      else if dmCount tcd = 0 then Inl (Panic ''integer divide by zero'')
      else Inr (tcd\<lparr>dmEvents := [(defaultID,
             \<lparr>dwDuration = quot64 (dmSum tcd) (dmCount tcd), dwCompressFactor = dmCount tcd\<rparr>)]\<rparr>,
             [defaultID]))"

definition TCD_GetCompressFactor :: "StatTCD \<Rightarrow> (string, int) gmap \<Rightarrow> (string, int) gmap" where
  "TCD_GetCompressFactor tcd events = dur_factors (dmEvents tcd) events"

paragraph \<open>PDD: average post dial delay\<close>

definition NewPDD :: "int \<Rightarrow> string \<Rightarrow> string list \<Rightarrow> StatPDD" where
  "NewPDD minItems extraParams filterIDs =
     \<lparr>dmFilterIDs = filterIDs, dmSum = 0, dmCount = 0, dmEvents = [], dmMinItems = minItems,
      dmval = None\<rparr>"

definition PDD_compute :: "StatPDD \<Rightarrow> duration" where
  "PDD_compute pdd =
     (if (dmMinItems pdd > 0 \<and> dmCount pdd < dmMinItems pdd) \<or> dmCount pdd = 0 then - 1
      else quot64 (dmSum pdd) (dmCount pdd))"

definition PDD_getValue :: "StatPDD \<Rightarrow> duration \<times> StatPDD" where
  "PDD_getValue pdd =
     (case dmval pdd of
        Some v \<Rightarrow> (v, pdd)
      | None \<Rightarrow> (PDD_compute pdd, pdd\<lparr>dmval := Some (PDD_compute pdd)\<rparr>))"

definition PDD_GetStringValue :: "stat_cfg \<Rightarrow> StatPDD \<Rightarrow> string \<times> StatPDD" where
  "PDD_GetStringValue cfg pdd =
     (case PDD_getValue pdd of (v, pdd') \<Rightarrow>
        (if v = - 1 then NOT_AVAILABLE else Duration_String (scLib cfg) v, pdd'))"

definition PDD_GetValue :: "StatPDD \<Rightarrow> iface \<times> StatPDD" where
  "PDD_GetValue pdd = (case PDD_getValue pdd of (v, pdd') \<Rightarrow> (IDuration v, pdd'))"

definition PDD_GetFloat64Value :: "StatPDD \<Rightarrow> float64 \<times> StatPDD" where
  "PDD_GetFloat64Value pdd =
     (case PDD_getValue pdd of (v, pdd') \<Rightarrow>
        (if v = - 1 then Fin (- 1) else Duration_Seconds v, pdd'))"

definition PDD_AddEvent :: "stat_cfg \<Rightarrow> CGREvent \<Rightarrow> StatPDD \<Rightarrow> error + StatPDD" where
  "PDD_AddEvent cfg ev pdd =
     (case FieldAsDuration (scLib cfg) ev ''PDD'' of
        Inl e \<Rightarrow> Inl (missing_field ''PDD'' e)
      | Inr dur \<Rightarrow>
          Inr (pdd\<lparr>dmSum := wrap64 (dmSum pdd + dur),
                 dmEvents := dur_add (evID ev) dur (dmEvents pdd),
                 dmCount := dmCount pdd + 1, dmval := None\<rparr>))"

definition PDD_RemEvent :: "string \<Rightarrow> StatPDD \<Rightarrow> StatPDD \<times> error option" where
  "PDD_RemEvent evID' pdd =
     (case gget (dmEvents pdd) evID' of
        None \<Rightarrow> (pdd, Some ErrNotFound)
      | Some val \<Rightarrow>
          (pdd\<lparr>dmSum := (if dwDuration val \<noteq> 0 then wrap64 (dmSum pdd - dwDuration val) else dmSum pdd),
             dmCount := dmCount pdd - 1,
             dmEvents := dur_drop evID' val (dmEvents pdd), dmval := None\<rparr>, None))"

definition PDD_Compress :: "int \<Rightarrow> string \<Rightarrow> StatPDD \<Rightarrow> StatPDD compressed" where
  "PDD_Compress queueLen defaultID pdd =
     (if dmCount pdd < queueLen then Inr (pdd, map fst (dmEvents pdd))
      else if dmCount pdd = 0 then Inl (Panic ''integer divide by zero'')
      else Inr (pdd\<lparr>dmEvents := [(defaultID,
             \<lparr>dwDuration = quot64 (dmSum pdd) (dmCount pdd), dwCompressFactor = dmCount pdd\<rparr>)]\<rparr>,
             [defaultID]))"

definition PDD_GetCompressFactor :: "StatPDD \<Rightarrow> (string, int) gmap \<Rightarrow> (string, int) gmap" where
  "PDD_GetCompressFactor pdd events = dur_factors (dmEvents pdd) events"

subsection \<open>Costs: ACC, TCC\<close>

record FloatMetric =
  fmFilterIDs :: "string list"
  fmSum :: float64
  fmCount :: int
  fmEvents :: "(string, StatWithCompress) gmap"
  fmMinItems :: int
  fmval :: "float64 option"

type_synonym StatACC = FloatMetric
type_synonym StatTCC = FloatMetric

paragraph \<open>ACC: average call cost\<close>

definition NewACC :: "int \<Rightarrow> string \<Rightarrow> string list \<Rightarrow> StatACC" where
  "NewACC minItems extraParams filterIDs =
     \<lparr>fmFilterIDs = filterIDs, fmSum = Fin 0, fmCount = 0, fmEvents = [], fmMinItems = minItems,
      fmval = None\<rparr>"

definition ACC_compute :: "stat_cfg \<Rightarrow> StatACC \<Rightarrow> float64" where
  "ACC_compute cfg acc =
     (if (fmMinItems acc > 0 \<and> fmCount acc < fmMinItems acc) \<or> fmCount acc = 0 then STATS_NA
      else Round (fdiv (fmSum acc) (float_of_int (fmCount acc))) (RoundingDecimals cfg) ROUNDING_MIDDLE)"

definition ACC_getValue :: "stat_cfg \<Rightarrow> StatACC \<Rightarrow> float64 \<times> StatACC" where
  "ACC_getValue cfg acc =
     (case fmval acc of
        Some v \<Rightarrow> (v, acc)
      | None \<Rightarrow> (ACC_compute cfg acc, acc\<lparr>fmval := Some (ACC_compute cfg acc)\<rparr>))"

definition ACC_GetStringValue :: "stat_cfg \<Rightarrow> StatACC \<Rightarrow> string \<times> StatACC" where
  "ACC_GetStringValue cfg acc =
     (case ACC_getValue cfg acc of (v, acc') \<Rightarrow>
        (if feq v STATS_NA then NOT_AVAILABLE else FormatFloat (scLib cfg) v, acc'))"

definition ACC_GetValue :: "stat_cfg \<Rightarrow> StatACC \<Rightarrow> iface \<times> StatACC" where
  "ACC_GetValue cfg acc = (case ACC_getValue cfg acc of (v, acc') \<Rightarrow> (IFloat64 v, acc'))"

definition ACC_GetFloat64Value :: "stat_cfg \<Rightarrow> StatACC \<Rightarrow> float64 \<times> StatACC" where
  "ACC_GetFloat64Value cfg acc = ACC_getValue cfg acc"

definition ACC_AddEvent :: "stat_cfg \<Rightarrow> CGREvent \<Rightarrow> StatACC \<Rightarrow> error + StatACC" where
  "ACC_AddEvent cfg ev acc =
     (case FieldAsFloat64 (scLib cfg) ev ''Cost'' of
        Inl e \<Rightarrow> Inl (missing_field ''Cost'' e)
      | Inr val \<Rightarrow>
          Inr (acc\<lparr>fmSum := fadd (fmSum acc) val,
                 fmEvents := stat_add (evID ev) val (fmEvents acc),
                 fmCount := fmCount acc + 1, fmval := None\<rparr>))"

definition ACC_RemEvent :: "string \<Rightarrow> StatACC \<Rightarrow> StatACC \<times> error option" where
  "ACC_RemEvent evID' acc =
     (case gget (fmEvents acc) evID' of
        None \<Rightarrow> (acc, Some ErrNotFound)
      | Some val \<Rightarrow>
          (acc\<lparr>fmSum := fsub (fmSum acc) (swStat val),
             fmCount := fmCount acc - 1,
             fmEvents := stat_drop evID' val (fmEvents acc), fmval := None\<rparr>, None))"

definition ACC_Compress :: "stat_cfg \<Rightarrow> int \<Rightarrow> string \<Rightarrow> StatACC \<Rightarrow> StatACC compressed" where
  "ACC_Compress cfg queueLen defaultID acc =
     (if fmCount acc < queueLen then Inr (acc, map fst (fmEvents acc))
      else Inr (acc\<lparr>fmEvents := [(defaultID,
             \<lparr>swStat = Round (fdiv (fmSum acc) (float_of_int (fmCount acc)))
                         (RoundingDecimals cfg) ROUNDING_MIDDLE,
              swCompressFactor = fmCount acc\<rparr>)]\<rparr>, [defaultID]))"

definition ACC_GetCompressFactor :: "StatACC \<Rightarrow> (string, int) gmap \<Rightarrow> (string, int) gmap" where
  "ACC_GetCompressFactor acc events = stat_factors (fmEvents acc) events"

paragraph \<open>TCC: total call cost\<close>

definition NewTCC :: "int \<Rightarrow> string \<Rightarrow> string list \<Rightarrow> StatTCC" where
  "NewTCC minItems extraParams filterIDs =
     \<lparr>fmFilterIDs = filterIDs, fmSum = Fin 0, fmCount = 0, fmEvents = [], fmMinItems = minItems,
      fmval = None\<rparr>"

definition TCC_compute :: "stat_cfg \<Rightarrow> StatTCC \<Rightarrow> float64" where
  "TCC_compute cfg tcc =
     (if (fmMinItems tcc > 0 \<and> fmCount tcc < fmMinItems tcc) \<or> fmCount tcc = 0 then STATS_NA
      else Round (fmSum tcc) (RoundingDecimals cfg) ROUNDING_MIDDLE)"

definition TCC_getValue :: "stat_cfg \<Rightarrow> StatTCC \<Rightarrow> float64 \<times> StatTCC" where
  "TCC_getValue cfg tcc =
     (case fmval tcc of
        Some v \<Rightarrow> (v, tcc)
      | None \<Rightarrow> (TCC_compute cfg tcc, tcc\<lparr>fmval := Some (TCC_compute cfg tcc)\<rparr>))"

definition TCC_GetStringValue :: "stat_cfg \<Rightarrow> StatTCC \<Rightarrow> string \<times> StatTCC" where
  "TCC_GetStringValue cfg tcc =
     (case TCC_getValue cfg tcc of (v, tcc') \<Rightarrow>
        (if feq v STATS_NA then NOT_AVAILABLE else FormatFloat (scLib cfg) v, tcc'))"

definition TCC_GetValue :: "stat_cfg \<Rightarrow> StatTCC \<Rightarrow> iface \<times> StatTCC" where
  "TCC_GetValue cfg tcc = (case TCC_getValue cfg tcc of (v, tcc') \<Rightarrow> (IFloat64 v, tcc'))"

definition TCC_GetFloat64Value :: "stat_cfg \<Rightarrow> StatTCC \<Rightarrow> float64 \<times> StatTCC" where
  "TCC_GetFloat64Value cfg tcc = TCC_getValue cfg tcc"

definition TCC_AddEvent :: "stat_cfg \<Rightarrow> CGREvent \<Rightarrow> StatTCC \<Rightarrow> error + StatTCC" where
  "TCC_AddEvent cfg ev tcc =
     (case FieldAsFloat64 (scLib cfg) ev ''Cost'' of
        Inl e \<Rightarrow> Inl (missing_field ''Cost'' e)
      | Inr val \<Rightarrow>
          Inr (tcc\<lparr>fmSum := fadd (fmSum tcc) val,
                 fmEvents := stat_add (evID ev) val (fmEvents tcc),
                 fmCount := fmCount tcc + 1, fmval := None\<rparr>))"

definition TCC_RemEvent :: "string \<Rightarrow> StatTCC \<Rightarrow> StatTCC \<times> error option" where
  "TCC_RemEvent evID' tcc =
     (case gget (fmEvents tcc) evID' of
        None \<Rightarrow> (tcc, Some ErrNotFound)
      | Some val \<Rightarrow>
          (tcc\<lparr>fmSum := (if \<not> feq (swStat val) (Fin 0) then fsub (fmSum tcc) (swStat val) else fmSum tcc),
             fmCount := fmCount tcc - 1,
             fmEvents := stat_drop evID' val (fmEvents tcc), fmval := None\<rparr>, None))"

definition TCC_Compress :: "stat_cfg \<Rightarrow> int \<Rightarrow> string \<Rightarrow> StatTCC \<Rightarrow> StatTCC compressed" where
  "TCC_Compress cfg queueLen defaultID tcc =
     (if fmCount tcc < queueLen then Inr (tcc, map fst (fmEvents tcc))
      else Inr (tcc\<lparr>fmEvents := [(defaultID,
             \<lparr>swStat = Round (fdiv (fmSum tcc) (float_of_int (fmCount tcc)))
                         (RoundingDecimals cfg) ROUNDING_MIDDLE,
              swCompressFactor = fmCount tcc\<rparr>)]\<rparr>, [defaultID]))"

definition TCC_GetCompressFactor :: "StatTCC \<Rightarrow> (string, int) gmap \<Rightarrow> (string, int) gmap" where
  "TCC_GetCompressFactor tcc events = stat_factors (fmEvents tcc) events"

subsection \<open>A field of the event: sum and average\<close>

record FieldMetric = FloatMetric +
  fmFieldName :: string

type_synonym StatSum = FieldMetric
type_synonym StatAverage = FieldMetric

paragraph \<open>Sum\<close>

definition NewStatSum :: "int \<Rightarrow> string \<Rightarrow> string list \<Rightarrow> StatSum" where
  "NewStatSum minItems extraParams filterIDs =
     \<lparr>fmFilterIDs = filterIDs, fmSum = Fin 0, fmCount = 0, fmEvents = [], fmMinItems = minItems,
      fmval = None, fmFieldName = extraParams\<rparr>"

definition Sum_compute :: "stat_cfg \<Rightarrow> StatSum \<Rightarrow> float64" where
  "Sum_compute cfg sm =
     (if fmEvents sm = [] \<or> fmCount sm < fmMinItems sm then STATS_NA
      else Round (fmSum sm) (RoundingDecimals cfg) ROUNDING_MIDDLE)"

definition Sum_getValue :: "stat_cfg \<Rightarrow> StatSum \<Rightarrow> float64 \<times> StatSum" where
  "Sum_getValue cfg sm =
     (case fmval sm of
        Some v \<Rightarrow> (v, sm)
      | None \<Rightarrow> (Sum_compute cfg sm, sm\<lparr>fmval := Some (Sum_compute cfg sm)\<rparr>))"

definition Sum_GetStringValue :: "stat_cfg \<Rightarrow> StatSum \<Rightarrow> string \<times> StatSum" where
  "Sum_GetStringValue cfg sm =
     (case Sum_getValue cfg sm of (v, sm') \<Rightarrow>
        (if feq v STATS_NA then NOT_AVAILABLE else FormatFloat (scLib cfg) v, sm'))"

definition Sum_GetValue :: "stat_cfg \<Rightarrow> StatSum \<Rightarrow> iface \<times> StatSum" where
  "Sum_GetValue cfg sm = (case Sum_getValue cfg sm of (v, sm') \<Rightarrow> (IFloat64 v, sm'))"

definition Sum_GetFloat64Value :: "stat_cfg \<Rightarrow> StatSum \<Rightarrow> float64 \<times> StatSum" where
  "Sum_GetFloat64Value cfg sm = Sum_getValue cfg sm"

definition Sum_AddEvent :: "stat_cfg \<Rightarrow> CGREvent \<Rightarrow> StatSum \<Rightarrow> error + StatSum" where
  "Sum_AddEvent cfg ev sm =
     (case (if is_req_field (fmFieldName sm) then
              (let fld = drop 6 (fmFieldName sm)
               in case FieldAsFloat64 (scLib cfg) ev fld of
                    Inl e \<Rightarrow> Inl (missing_field fld e) | Inr x \<Rightarrow> Inr x)
            else IfaceAsFloat64 (scLib cfg) (IString (fmFieldName sm))) of
        Inl e \<Rightarrow> Inl e
      | Inr val \<Rightarrow>
          Inr (sm\<lparr>fmSum := fadd (fmSum sm) val,
                 fmEvents := stat_add (evID ev) val (fmEvents sm),
                 fmCount := fmCount sm + 1, fmval := None\<rparr>))"

definition Sum_RemEvent :: "string \<Rightarrow> StatSum \<Rightarrow> StatSum \<times> error option" where
  "Sum_RemEvent evID' sm =
     (case gget (fmEvents sm) evID' of
        None \<Rightarrow> (sm, Some ErrNotFound)
      | Some val \<Rightarrow>
          (sm\<lparr>fmSum := (if \<not> feq (swStat val) (Fin 0) then fsub (fmSum sm) (swStat val) else fmSum sm),
             fmCount := fmCount sm - 1,
             fmEvents := stat_drop evID' val (fmEvents sm), fmval := None\<rparr>, None))"

definition Sum_Compress :: "stat_cfg \<Rightarrow> int \<Rightarrow> string \<Rightarrow> StatSum \<Rightarrow> StatSum compressed" where
  "Sum_Compress cfg queueLen defaultID sm =
     (if fmCount sm < queueLen then Inr (sm, map fst (fmEvents sm))
      else Inr (sm\<lparr>fmEvents := [(defaultID,
             \<lparr>swStat = Round (fdiv (fmSum sm) (float_of_int (fmCount sm)))
                         (RoundingDecimals cfg) ROUNDING_MIDDLE,
              swCompressFactor = fmCount sm\<rparr>)]\<rparr>, [defaultID]))"

definition Sum_GetCompressFactor :: "StatSum \<Rightarrow> (string, int) gmap \<Rightarrow> (string, int) gmap" where
  "Sum_GetCompressFactor sm events = stat_factors (fmEvents sm) events"

paragraph \<open>Average\<close>

definition NewStatAverage :: "int \<Rightarrow> string \<Rightarrow> string list \<Rightarrow> StatAverage" where
  "NewStatAverage minItems extraParams filterIDs =
     \<lparr>fmFilterIDs = filterIDs, fmSum = Fin 0, fmCount = 0, fmEvents = [], fmMinItems = minItems,
      fmval = None, fmFieldName = extraParams\<rparr>"

definition Average_compute :: "stat_cfg \<Rightarrow> StatAverage \<Rightarrow> float64" where
  "Average_compute cfg avg =
     (if (fmMinItems avg > 0 \<and> fmCount avg < fmMinItems avg) \<or> fmCount avg = 0 then STATS_NA
      else Round (fdiv (fmSum avg) (float_of_int (fmCount avg))) (RoundingDecimals cfg) ROUNDING_MIDDLE)"

definition Average_getValue :: "stat_cfg \<Rightarrow> StatAverage \<Rightarrow> float64 \<times> StatAverage" where
  "Average_getValue cfg avg =
     (case fmval avg of
        Some v \<Rightarrow> (v, avg)
      | None \<Rightarrow> (Average_compute cfg avg, avg\<lparr>fmval := Some (Average_compute cfg avg)\<rparr>))"

definition Average_GetStringValue :: "stat_cfg \<Rightarrow> StatAverage \<Rightarrow> string \<times> StatAverage" where
  "Average_GetStringValue cfg avg =
     (case Average_getValue cfg avg of (v, avg') \<Rightarrow>
        (if feq v STATS_NA then NOT_AVAILABLE else FormatFloat (scLib cfg) v, avg'))"

definition Average_GetValue :: "stat_cfg \<Rightarrow> StatAverage \<Rightarrow> iface \<times> StatAverage" where
  "Average_GetValue cfg avg = (case Average_getValue cfg avg of (v, avg') \<Rightarrow> (IFloat64 v, avg'))"

definition Average_GetFloat64Value :: "stat_cfg \<Rightarrow> StatAverage \<Rightarrow> float64 \<times> StatAverage" where
  "Average_GetFloat64Value cfg avg = Average_getValue cfg avg"

definition Average_AddEvent :: "stat_cfg \<Rightarrow> CGREvent \<Rightarrow> StatAverage \<Rightarrow> error + StatAverage" where
  "Average_AddEvent cfg ev avg =
     (case (if is_req_field (fmFieldName avg) then
              (let fld = drop 6 (fmFieldName avg)
               in case FieldAsFloat64 (scLib cfg) ev fld of
                    Inl e \<Rightarrow> Inl (missing_field fld e) | Inr x \<Rightarrow> Inr x)
            else IfaceAsFloat64 (scLib cfg) (IString (fmFieldName avg))) of
        Inl e \<Rightarrow> Inl e
      | Inr val \<Rightarrow>
          Inr (avg\<lparr>fmSum := fadd (fmSum avg) val,
                 fmEvents := stat_add (evID ev) val (fmEvents avg),
                 fmCount := fmCount avg + 1, fmval := None\<rparr>))"

definition Average_RemEvent :: "string \<Rightarrow> StatAverage \<Rightarrow> StatAverage \<times> error option" where
  "Average_RemEvent evID' avg =
     (case gget (fmEvents avg) evID' of
        None \<Rightarrow> (avg, Some ErrNotFound)
      | Some val \<Rightarrow>
          (avg\<lparr>fmSum := (if fleq (Fin 0) (swStat val) then fsub (fmSum avg) (swStat val) else fmSum avg),
             fmCount := fmCount avg - 1,
             fmEvents := stat_drop evID' val (fmEvents avg), fmval := None\<rparr>, None))"

definition Average_Compress :: "stat_cfg \<Rightarrow> int \<Rightarrow> string \<Rightarrow> StatAverage \<Rightarrow> StatAverage compressed" where
  "Average_Compress cfg queueLen defaultID avg =
     (if fmCount avg < queueLen then Inr (avg, map fst (fmEvents avg))
      else Inr (avg\<lparr>fmEvents := [(defaultID,
             \<lparr>swStat = Round (fdiv (fmSum avg) (float_of_int (fmCount avg)))
                         (RoundingDecimals cfg) ROUNDING_MIDDLE,
              swCompressFactor = fmCount avg\<rparr>)]\<rparr>, [defaultID]))"

definition Average_GetCompressFactor :: "StatAverage \<Rightarrow> (string, int) gmap \<Rightarrow> (string, int) gmap" where
  "Average_GetCompressFactor avg events = stat_factors (fmEvents avg) events"

subsection \<open>Distinct values: DDC, Distinct\<close>

record ValuesMetric =
  vmFilterIDs :: "string list"
  vmFieldValues :: "(string, StringSet) gmap"
  vmEvents :: "(string, (string, int) gmap) gmap"
  vmMinItems :: int
  vmCount :: int

record StatDistinct = ValuesMetric +
  vmFieldName :: string

type_synonym StatDDC = ValuesMetric

text \<open>Filing a value under an event id and taking one off it: the bodies of \<^verbatim>\<open>AddEvent\<close> and
  \<^verbatim>\<open>RemEvent\<close> are the same in both structs. A map ranges over its keys in the order of the
  model's list.\<close>

definition inner :: "(string, 'v list) gmap \<Rightarrow> string \<Rightarrow> 'v list" where
  "inner m k = (case gget m k of Some x \<Rightarrow> x | None \<Rightarrow> [])"

definition values_add :: "string \<Rightarrow> string \<Rightarrow> 'a ValuesMetric_scheme \<Rightarrow> 'a ValuesMetric_scheme" where
  "values_add evID' fieldValue vm =
     (let fvs = gset (vmFieldValues vm) fieldValue
                  (StringSet_Add (inner (vmFieldValues vm) fieldValue) evID');
          evs = inner (vmEvents vm) evID';
          n = (case gget evs fieldValue of None \<Rightarrow> 1 | Some c \<Rightarrow> c + 1)
      in vm\<lparr>vmFieldValues := fvs, vmEvents := gset (vmEvents vm) evID' (gset evs fieldValue n),
            vmCount := vmCount vm + 1\<rparr>)"

definition values_rem :: "string \<Rightarrow> 'a ValuesMetric_scheme \<Rightarrow> 'a ValuesMetric_scheme \<times> error option" where
  "values_rem evID' vm =
     (case gget (vmEvents vm) evID' of
        None \<Rightarrow> (vm, Some ErrNotFound)
      | Some [] \<Rightarrow> (vm\<lparr>vmEvents := gdel (vmEvents vm) evID'\<rparr>, Some ErrNotFound)
      | Some ((fieldValue, c) # rest) \<Rightarrow>
          let fieldValues = (fieldValue, c) # rest;
              vm1 = vm\<lparr>vmCount := vmCount vm - 1\<rparr>
          in if c > 1 then
               (vm1\<lparr>vmEvents := gset (vmEvents vm) evID' (gset fieldValues fieldValue (c - 1))\<rparr>, None)
             else
               let vm2 = vm1\<lparr>vmEvents := gset (vmEvents vm) evID' (gdel fieldValues fieldValue)\<rparr>
               in case gget (vmFieldValues vm) fieldValue of
                    None \<Rightarrow> (vm2, None)
                  | Some ids \<Rightarrow>
                      let ids' = StringSet_Remove ids evID'
                      in (vm2\<lparr>vmFieldValues :=
                            (if ids' = [] then gdel (gset (vmFieldValues vm) fieldValue ids') fieldValue
                             else gset (vmFieldValues vm) fieldValue ids')\<rparr>, None))"

definition values_factors :: "(string, (string, int) gmap) gmap \<Rightarrow> (string, int) gmap \<Rightarrow> (string, int) gmap" where
  "values_factors evs events = fold (\<lambda>(i, ev). merge_factor i (gsum (\<lambda>x. x) ev)) evs events"

paragraph \<open>DDC: distinct destinations\<close>

definition NewDDC :: "int \<Rightarrow> string \<Rightarrow> string list \<Rightarrow> StatDDC" where
  "NewDDC minItems extraParams filterIDs =
     \<lparr>vmFilterIDs = filterIDs, vmFieldValues = [], vmEvents = [], vmMinItems = minItems,
      vmCount = 0\<rparr>"

definition DDC_getValue :: "StatDDC \<Rightarrow> float64" where
  "DDC_getValue ddc =
     (if vmCount ddc = 0 \<or> vmCount ddc < vmMinItems ddc then STATS_NA
      else float_of_int (int (length (vmFieldValues ddc))))"

definition DDC_GetStringValue :: "stat_cfg \<Rightarrow> StatDDC \<Rightarrow> string" where
  "DDC_GetStringValue cfg ddc =
     (if feq (DDC_getValue ddc) STATS_NA then NOT_AVAILABLE
      else FormatFloat (scLib cfg) (DDC_getValue ddc))"

definition DDC_GetValue :: "StatDDC \<Rightarrow> iface" where
  "DDC_GetValue ddc = IFloat64 (DDC_getValue ddc)"

definition DDC_GetFloat64Value :: "StatDDC \<Rightarrow> float64" where
  "DDC_GetFloat64Value ddc = DDC_getValue ddc"

definition DDC_AddEvent :: "stat_cfg \<Rightarrow> CGREvent \<Rightarrow> StatDDC \<Rightarrow> error + StatDDC" where
  "DDC_AddEvent cfg ev ddc =
     (case FieldAsString (scLib cfg) ev ''Destination'' of
        Inl e \<Rightarrow> Inl e
      | Inr fieldValue \<Rightarrow> Inr (values_add (evID ev) fieldValue ddc))"

definition DDC_RemEvent :: "string \<Rightarrow> StatDDC \<Rightarrow> StatDDC \<times> error option" where
  "DDC_RemEvent evID' ddc = values_rem evID' ddc"

definition DDC_Compress :: "int \<Rightarrow> string \<Rightarrow> StatDDC \<Rightarrow> StatDDC compressed" where
  "DDC_Compress queueLen defaultID ddc = Inr (ddc, map fst (vmEvents ddc))"

definition DDC_GetCompressFactor :: "StatDDC \<Rightarrow> (string, int) gmap \<Rightarrow> (string, int) gmap" where
  "DDC_GetCompressFactor ddc events = values_factors (vmEvents ddc) events"

paragraph \<open>Distinct values of a field\<close>

definition NewStatDistinct :: "int \<Rightarrow> string \<Rightarrow> string list \<Rightarrow> StatDistinct" where
  "NewStatDistinct minItems extraParams filterIDs =
     \<lparr>vmFilterIDs = filterIDs, vmFieldValues = [], vmEvents = [], vmMinItems = minItems,
      vmCount = 0, vmFieldName = extraParams\<rparr>"

definition Distinct_getValue :: "StatDistinct \<Rightarrow> float64" where
  "Distinct_getValue dst =
     (if vmCount dst = 0 \<or> vmCount dst < vmMinItems dst then STATS_NA
      else float_of_int (int (length (vmFieldValues dst))))"

definition Distinct_GetStringValue :: "stat_cfg \<Rightarrow> StatDistinct \<Rightarrow> string" where
  "Distinct_GetStringValue cfg dst =
     (if feq (Distinct_getValue dst) STATS_NA then NOT_AVAILABLE
      else FormatFloat (scLib cfg) (Distinct_getValue dst))"

definition Distinct_GetValue :: "StatDistinct \<Rightarrow> iface" where
  "Distinct_GetValue dst = IFloat64 (Distinct_getValue dst)"

definition Distinct_GetFloat64Value :: "StatDistinct \<Rightarrow> float64" where
  "Distinct_GetFloat64Value dst = Distinct_getValue dst"

definition Distinct_AddEvent :: "stat_cfg \<Rightarrow> CGREvent \<Rightarrow> StatDistinct \<Rightarrow> error + StatDistinct" where
  "Distinct_AddEvent cfg ev dst =
     (if \<not> is_req_field (vmFieldName dst) then
        Inl (ErrMsg (''Invalid format for field <'' @ vmFieldName dst @ ''>''))
      else case FieldAsString (scLib cfg) ev (drop 6 (vmFieldName dst)) of
             Inl e \<Rightarrow> Inl e
           | Inr fieldValue \<Rightarrow> Inr (values_add (evID ev) fieldValue dst))"

definition Distinct_RemEvent :: "string \<Rightarrow> StatDistinct \<Rightarrow> StatDistinct \<times> error option" where
  "Distinct_RemEvent evID' dst = values_rem evID' dst"

definition Distinct_Compress :: "int \<Rightarrow> string \<Rightarrow> StatDistinct \<Rightarrow> StatDistinct compressed" where
  "Distinct_Compress queueLen defaultID dst = Inr (dst, map fst (vmEvents dst))"

definition Distinct_GetCompressFactor :: "StatDistinct \<Rightarrow> (string, int) gmap \<Rightarrow> (string, int) gmap" where
  "Distinct_GetCompressFactor dst events = values_factors (vmEvents dst) events"

subsection \<open>The interface\<close>

datatype StatMetric =
    MASR StatASR
  | MACD StatACD
  | MTCD StatTCD
  | MACC StatACC
  | MTCC StatTCC
  | MPDD StatPDD
  | MDDC StatDDC
  | MSum StatSum
  | MAverage StatAverage
  | MDistinct StatDistinct

fun GetStringValue :: "stat_cfg \<Rightarrow> StatMetric \<Rightarrow> string \<times> StatMetric" where
  "GetStringValue cfg (MASR m) = map_prod id MASR (ASR_GetStringValue cfg m)"
| "GetStringValue cfg (MACD m) = map_prod id MACD (ACD_GetStringValue cfg m)"
| "GetStringValue cfg (MTCD m) = map_prod id MTCD (TCD_GetStringValue cfg m)"
| "GetStringValue cfg (MACC m) = map_prod id MACC (ACC_GetStringValue cfg m)"
| "GetStringValue cfg (MTCC m) = map_prod id MTCC (TCC_GetStringValue cfg m)"
| "GetStringValue cfg (MPDD m) = map_prod id MPDD (PDD_GetStringValue cfg m)"
| "GetStringValue cfg (MDDC m) = (DDC_GetStringValue cfg m, MDDC m)"
| "GetStringValue cfg (MSum m) = map_prod id MSum (Sum_GetStringValue cfg m)"
| "GetStringValue cfg (MAverage m) = map_prod id MAverage (Average_GetStringValue cfg m)"
| "GetStringValue cfg (MDistinct m) = (Distinct_GetStringValue cfg m, MDistinct m)"

fun GetValue :: "stat_cfg \<Rightarrow> StatMetric \<Rightarrow> iface \<times> StatMetric" where
  "GetValue cfg (MASR m) = map_prod id MASR (ASR_GetValue cfg m)"
| "GetValue cfg (MACD m) = map_prod id MACD (ACD_GetValue m)"
| "GetValue cfg (MTCD m) = map_prod id MTCD (TCD_GetValue m)"
| "GetValue cfg (MACC m) = map_prod id MACC (ACC_GetValue cfg m)"
| "GetValue cfg (MTCC m) = map_prod id MTCC (TCC_GetValue cfg m)"
| "GetValue cfg (MPDD m) = map_prod id MPDD (PDD_GetValue m)"
| "GetValue cfg (MDDC m) = (DDC_GetValue m, MDDC m)"
| "GetValue cfg (MSum m) = map_prod id MSum (Sum_GetValue cfg m)"
| "GetValue cfg (MAverage m) = map_prod id MAverage (Average_GetValue cfg m)"
| "GetValue cfg (MDistinct m) = (Distinct_GetValue m, MDistinct m)"

fun GetFloat64Value :: "stat_cfg \<Rightarrow> StatMetric \<Rightarrow> float64 \<times> StatMetric" where
  "GetFloat64Value cfg (MASR m) = map_prod id MASR (ASR_GetFloat64Value cfg m)"
| "GetFloat64Value cfg (MACD m) = map_prod id MACD (ACD_GetFloat64Value m)"
| "GetFloat64Value cfg (MTCD m) = map_prod id MTCD (TCD_GetFloat64Value m)"
| "GetFloat64Value cfg (MACC m) = map_prod id MACC (ACC_GetFloat64Value cfg m)"
| "GetFloat64Value cfg (MTCC m) = map_prod id MTCC (TCC_GetFloat64Value cfg m)"
| "GetFloat64Value cfg (MPDD m) = map_prod id MPDD (PDD_GetFloat64Value m)"
| "GetFloat64Value cfg (MDDC m) = (DDC_GetFloat64Value m, MDDC m)"
| "GetFloat64Value cfg (MSum m) = map_prod id MSum (Sum_GetFloat64Value cfg m)"
| "GetFloat64Value cfg (MAverage m) = map_prod id MAverage (Average_GetFloat64Value cfg m)"
| "GetFloat64Value cfg (MDistinct m) = (Distinct_GetFloat64Value m, MDistinct m)"

fun AddEvent :: "stat_cfg \<Rightarrow> CGREvent \<Rightarrow> StatMetric \<Rightarrow> error + StatMetric" where
  "AddEvent cfg ev (MASR m) = map_sum id MASR (ASR_AddEvent cfg ev m)"
| "AddEvent cfg ev (MACD m) = map_sum id MACD (ACD_AddEvent cfg ev m)"
| "AddEvent cfg ev (MTCD m) = map_sum id MTCD (TCD_AddEvent cfg ev m)"
| "AddEvent cfg ev (MACC m) = map_sum id MACC (ACC_AddEvent cfg ev m)"
| "AddEvent cfg ev (MTCC m) = map_sum id MTCC (TCC_AddEvent cfg ev m)"
| "AddEvent cfg ev (MPDD m) = map_sum id MPDD (PDD_AddEvent cfg ev m)"
| "AddEvent cfg ev (MDDC m) = map_sum id MDDC (DDC_AddEvent cfg ev m)"
| "AddEvent cfg ev (MSum m) = map_sum id MSum (Sum_AddEvent cfg ev m)"
| "AddEvent cfg ev (MAverage m) = map_sum id MAverage (Average_AddEvent cfg ev m)"
| "AddEvent cfg ev (MDistinct m) = map_sum id MDistinct (Distinct_AddEvent cfg ev m)"

fun RemEvent :: "string \<Rightarrow> StatMetric \<Rightarrow> StatMetric \<times> error option" where
  "RemEvent evID' (MASR m) = map_prod MASR id (ASR_RemEvent evID' m)"
| "RemEvent evID' (MACD m) = map_prod MACD id (ACD_RemEvent evID' m)"
| "RemEvent evID' (MTCD m) = map_prod MTCD id (TCD_RemEvent evID' m)"
| "RemEvent evID' (MACC m) = map_prod MACC id (ACC_RemEvent evID' m)"
| "RemEvent evID' (MTCC m) = map_prod MTCC id (TCC_RemEvent evID' m)"
| "RemEvent evID' (MPDD m) = map_prod MPDD id (PDD_RemEvent evID' m)"
| "RemEvent evID' (MDDC m) = map_prod MDDC id (DDC_RemEvent evID' m)"
| "RemEvent evID' (MSum m) = map_prod MSum id (Sum_RemEvent evID' m)"
| "RemEvent evID' (MAverage m) = map_prod MAverage id (Average_RemEvent evID' m)"
| "RemEvent evID' (MDistinct m) = map_prod MDistinct id (Distinct_RemEvent evID' m)"

fun Compress :: "stat_cfg \<Rightarrow> int \<Rightarrow> string \<Rightarrow> StatMetric \<Rightarrow> StatMetric compressed" where
  "Compress cfg ql did (MASR m) = map_sum id (map_prod MASR id) (ASR_Compress cfg ql did m)"
| "Compress cfg ql did (MACD m) = map_sum id (map_prod MACD id) (ACD_Compress ql did m)"
| "Compress cfg ql did (MTCD m) = map_sum id (map_prod MTCD id) (TCD_Compress ql did m)"
| "Compress cfg ql did (MACC m) = map_sum id (map_prod MACC id) (ACC_Compress cfg ql did m)"
| "Compress cfg ql did (MTCC m) = map_sum id (map_prod MTCC id) (TCC_Compress cfg ql did m)"
| "Compress cfg ql did (MPDD m) = map_sum id (map_prod MPDD id) (PDD_Compress ql did m)"
| "Compress cfg ql did (MDDC m) = map_sum id (map_prod MDDC id) (DDC_Compress ql did m)"
| "Compress cfg ql did (MSum m) = map_sum id (map_prod MSum id) (Sum_Compress cfg ql did m)"
| "Compress cfg ql did (MAverage m) = map_sum id (map_prod MAverage id) (Average_Compress cfg ql did m)"
| "Compress cfg ql did (MDistinct m) = map_sum id (map_prod MDistinct id) (Distinct_Compress ql did m)"

fun GetCompressFactor :: "StatMetric \<Rightarrow> (string, int) gmap \<Rightarrow> (string, int) gmap" where
  "GetCompressFactor (MASR m) events = ASR_GetCompressFactor m events"
| "GetCompressFactor (MACD m) events = ACD_GetCompressFactor m events"
| "GetCompressFactor (MTCD m) events = TCD_GetCompressFactor m events"
| "GetCompressFactor (MACC m) events = ACC_GetCompressFactor m events"
| "GetCompressFactor (MTCC m) events = TCC_GetCompressFactor m events"
| "GetCompressFactor (MPDD m) events = PDD_GetCompressFactor m events"
| "GetCompressFactor (MDDC m) events = DDC_GetCompressFactor m events"
| "GetCompressFactor (MSum m) events = Sum_GetCompressFactor m events"
| "GetCompressFactor (MAverage m) events = Average_GetCompressFactor m events"
| "GetCompressFactor (MDistinct m) events = Distinct_GetCompressFactor m events"

fun GetFilterIDs :: "StatMetric \<Rightarrow> string list" where
  "GetFilterIDs (MASR m) = asrFilterIDs m"
| "GetFilterIDs (MACD m) = dmFilterIDs m"
| "GetFilterIDs (MTCD m) = dmFilterIDs m"
| "GetFilterIDs (MACC m) = fmFilterIDs m"
| "GetFilterIDs (MTCC m) = fmFilterIDs m"
| "GetFilterIDs (MPDD m) = dmFilterIDs m"
| "GetFilterIDs (MDDC m) = vmFilterIDs m"
| "GetFilterIDs (MSum m) = fmFilterIDs m"
| "GetFilterIDs (MAverage m) = fmFilterIDs m"
| "GetFilterIDs (MDistinct m) = vmFilterIDs m"

definition NewStatMetric :: "string \<Rightarrow> int \<Rightarrow> string list \<Rightarrow> error + StatMetric" where
  "NewStatMetric metricID minItems filterIDs =
     (let metricSplit = SplitConcatenatedKey metricID;
          t = hd metricSplit;
          extraParams = (case tl metricSplit of [] \<Rightarrow> [] | x # _ \<Rightarrow> x)
      in
      if t = ''*asr'' then Inr (MASR (NewASR minItems extraParams filterIDs)) else
      if t = ''*acd'' then Inr (MACD (NewACD minItems extraParams filterIDs)) else
      if t = ''*tcd'' then Inr (MTCD (NewTCD minItems extraParams filterIDs)) else
      if t = ''*acc'' then Inr (MACC (NewACC minItems extraParams filterIDs)) else
      if t = ''*tcc'' then Inr (MTCC (NewTCC minItems extraParams filterIDs)) else
      if t = ''*pdd'' then Inr (MPDD (NewPDD minItems extraParams filterIDs)) else
      if t = ''*ddc'' then Inr (MDDC (NewDDC minItems extraParams filterIDs)) else
      if t = ''*sum'' then Inr (MSum (NewStatSum minItems extraParams filterIDs)) else
      if t = ''*average'' then Inr (MAverage (NewStatAverage minItems extraParams filterIDs)) else
      if t = ''*distinct'' then Inr (MDistinct (NewStatDistinct minItems extraParams filterIDs)) else
      Inl (ErrMsg (''unsupported metric type <'' @ t @ ''>'')))"

end
