(* ===== verification/Stat_Laws.thy ===== *)
theory Stat_Laws
  imports Stat_Metrics
begin

text \<open>
  The contract of \<^verbatim>\<open>StatMetric\<close> as a locale, its interpretation for the ten metrics of
  \<open>Stat_Metrics\<close> and for their union, and what the individual metrics compute: the
  duration metrics keep the exact sum of the durations of uncompressed events, the metrics of
  distinct values keep the two maps inverse to each other, and the average of negative values
  drifts when events are removed.
\<close>

subsection \<open>Weights of a map of events\<close>

text \<open>\<open>fw f evs i\<close>: the number of events filed under \<open>i\<close>, read with \<open>f\<close> off the entry.\<close>

definition fw :: "('v \<Rightarrow> int) \<Rightarrow> (string, 'v) gmap \<Rightarrow> string \<Rightarrow> int" where
  "fw f evs i = (case gget evs i of None \<Rightarrow> 0 | Some v \<Rightarrow> f v)"

definition evs_ok :: "('v \<Rightarrow> int) \<Rightarrow> (string, 'v) gmap \<Rightarrow> bool" where
  "evs_ok f evs \<longleftrightarrow> gmap_ok evs \<and> (\<forall>v \<in> snd ` set evs. 0 < f v)"

lemma fw_gset [simp]: "fw f (gset evs i v) = (fw f evs)(i := f v)"
  by (auto simp: fw_def)

lemma fw_gdel [simp]: "fw f (gdel evs i) = (fw f evs)(i := 0)"
  by (auto simp: fw_def)

lemma fw_None: "gget evs i = None \<Longrightarrow> fw f evs i = 0"
  by (simp add: fw_def)

lemma fw_Some: "gget evs i = Some v \<Longrightarrow> fw f evs i = f v"
  by (simp add: fw_def)

lemma fw_same: "gget evs i = Some v \<Longrightarrow> (fw f evs)(i := f v) = fw f evs"
  by (auto simp: fw_def)

lemma gsum_gset:
  fixes f :: "'v \<Rightarrow> int"
  shows "gmap_ok evs \<Longrightarrow> gsum f (gset evs i v) = gsum f evs - fw f evs i + f v"
  by (cases "gget evs i") (simp_all add: gsum_gset_new gsum_gset_old fw_def)

lemma gsum_gdel_fw:
  fixes f :: "'v \<Rightarrow> int"
  shows "gmap_ok evs \<Longrightarrow> gsum f (gdel evs i) = gsum f evs - fw f evs i"
  by (cases "gget evs i") (simp_all add: gsum_gdel gdel_absent fw_def)

lemma evs_okD: "evs_ok f evs \<Longrightarrow> gget evs i = Some v \<Longrightarrow> 0 < f v"
  unfolding evs_ok_def using gget_in_range [of evs i v] by blast

lemma evs_ok_gset: "evs_ok f evs \<Longrightarrow> 0 < f v \<Longrightarrow> evs_ok f (gset evs i v)"
  unfolding evs_ok_def using range_gset [of i v evs] gmap_ok_gset [of evs i v] by blast

lemma evs_ok_gdel: "evs_ok f evs \<Longrightarrow> evs_ok f (gdel evs i)"
  unfolding evs_ok_def using range_gdel [of i evs] by (meson gmap_ok_gdel subsetD)

lemma fw_nonneg:
  assumes "\<forall>v \<in> snd ` set evs. 0 \<le> f v"
  shows "0 \<le> fw f evs i"
  using assms gget_in_range [of evs i] by (auto simp: fw_def split: option.splits)

lemma gsum_nonneg:
  fixes f :: "'v \<Rightarrow> int"
  shows "\<forall>v \<in> snd ` set evs. 0 \<le> f v \<Longrightarrow> 0 \<le> gsum f evs"
  unfolding gsum_def by (rule sum_list_nonneg) auto

lemma fw_le_gsum:
  fixes f :: "'v \<Rightarrow> int"
  assumes "gmap_ok evs" and "\<forall>v \<in> snd ` set evs. 0 \<le> f v"
  shows "fw f evs i \<le> gsum f evs"
proof (cases "gget evs i")
  case None
  with gsum_nonneg [OF assms(2)] show ?thesis by (simp add: fw_def)
next
  case (Some v)
  with gsum_nonneg_le [of evs i v f] assms show ?thesis by (simp add: fw_def)
qed

lemma gsum_zero_iff:
  fixes f :: "'v \<Rightarrow> int"
  assumes "gmap_ok evs" and "\<forall>v \<in> snd ` set evs. 0 \<le> f v"
  shows "gsum f evs = 0 \<longleftrightarrow> (\<forall>i. fw f evs i = 0)"
proof
  assume "gsum f evs = 0"
  then show "\<forall>i. fw f evs i = 0"
    using fw_le_gsum [OF assms] fw_nonneg [OF assms(2)] by (simp add: order_antisym)
next
  assume z: "\<forall>i. fw f evs i = 0"
  have "f v = 0" if "(k, v) \<in> set evs" for k v
    using z [rule_format, of k] that assms(1) by (simp add: fw_def)
  then have "map (\<lambda>kv. f (snd kv)) evs = map (\<lambda>_. 0) evs" by auto
  then show "gsum f evs = 0" unfolding gsum_def by (metis sum_list_0)
qed

lemma evs_ok_nonneg: "evs_ok f evs \<Longrightarrow> gmap_ok evs" "evs_ok f evs \<Longrightarrow> \<forall>v \<in> snd ` set evs. 0 \<le> f v"
  by (auto simp: evs_ok_def)

lemmas evs_bounds =
  fw_nonneg [OF evs_ok_nonneg(2)] fw_le_gsum [OF evs_ok_nonneg]
  gsum_zero_iff [OF evs_ok_nonneg] gsum_nonneg [OF evs_ok_nonneg(2)]

text \<open>Adding and dropping one event.\<close>

lemma stat_add_laws:
  assumes "evs_ok swCompressFactor evs"
  shows "evs_ok swCompressFactor (stat_add i v evs)"
    and "gsum swCompressFactor (stat_add i v evs) = gsum swCompressFactor evs + 1"
    and "fw swCompressFactor (stat_add i v evs)
      = (fw swCompressFactor evs)(i := fw swCompressFactor evs i + 1)"
  using assms evs_okD [OF assms, of i] evs_ok_nonneg(1) [OF assms]
  by (cases "gget evs i"; simp add: stat_add_def evs_ok_gset gsum_gset fw_None fw_Some)+

lemma dur_add_laws:
  assumes "evs_ok dwCompressFactor evs"
  shows "evs_ok dwCompressFactor (dur_add i v evs)"
    and "gsum dwCompressFactor (dur_add i v evs) = gsum dwCompressFactor evs + 1"
    and "fw dwCompressFactor (dur_add i v evs)
      = (fw dwCompressFactor evs)(i := fw dwCompressFactor evs i + 1)"
  using assms evs_okD [OF assms, of i] evs_ok_nonneg(1) [OF assms]
  by (cases "gget evs i"; simp add: dur_add_def evs_ok_gset gsum_gset fw_None fw_Some)+

lemma stat_drop_laws:
  assumes "evs_ok swCompressFactor evs" and "gget evs i = Some val"
  shows "evs_ok swCompressFactor (stat_drop i val evs)"
    and "gsum swCompressFactor (stat_drop i val evs) = gsum swCompressFactor evs - 1"
    and "fw swCompressFactor (stat_drop i val evs)
      = (fw swCompressFactor evs)(i := fw swCompressFactor evs i - 1)"
  using assms evs_okD [OF assms] evs_ok_nonneg(1) [OF assms(1)]
  by (auto simp: stat_drop_def evs_ok_gset evs_ok_gdel gsum_gset gsum_gdel_fw fw_Some)

lemma dur_drop_laws:
  assumes "evs_ok dwCompressFactor evs" and "gget evs i = Some val"
  shows "evs_ok dwCompressFactor (dur_drop i val evs)"
    and "gsum dwCompressFactor (dur_drop i val evs) = gsum dwCompressFactor evs - 1"
    and "fw dwCompressFactor (dur_drop i val evs)
      = (fw dwCompressFactor evs)(i := fw dwCompressFactor evs i - 1)"
  using assms evs_okD [OF assms] evs_ok_nonneg(1) [OF assms(1)]
  by (auto simp: dur_drop_def evs_ok_gset evs_ok_gdel gsum_gset gsum_gdel_fw fw_Some)

text \<open>The map of the largest factors.\<close>

abbreviation facs :: "(string, int) gmap \<Rightarrow> string \<Rightarrow> int" where
  "facs \<equiv> fw (\<lambda>c. c)"

abbreviation facs_ok :: "(string, int) gmap \<Rightarrow> bool" where
  "facs_ok evs \<equiv> \<forall>c \<in> snd ` set evs. 0 \<le> c"

lemma merge_factor_laws:
  assumes "facs_ok evs" and "0 \<le> cf"
  shows "facs_ok (merge_factor i cf evs)"
    and "facs (merge_factor i cf evs) = (facs evs)(i := max (facs evs i) cf)"
proof -
  have "facs_ok (gset evs i cf)" using assms range_gset [of i cf evs] by blast
  then show "facs_ok (merge_factor i cf evs)"
    using assms by (auto simp: merge_factor_def Let_def split: option.splits)
  show "facs (merge_factor i cf evs) = (facs evs)(i := max (facs evs i) cf)"
    using assms(2) by (auto simp: merge_factor_def fw_def Let_def fun_eq_iff split: option.splits)
qed

lemma fold_factors:
  assumes "facs_ok events" and "\<forall>v \<in> snd ` set evs. 0 \<le> f v" and "gmap_ok evs"
  shows "facs_ok (fold (\<lambda>(i, val). merge_factor i (f val)) evs events)
    \<and> (\<forall>j. facs (fold (\<lambda>(i, val). merge_factor i (f val)) evs events) j = max (facs events j) (fw f evs j))"
  using assms
proof (induction evs arbitrary: events)
  case Nil
  then show ?case using fw_nonneg [of events "\<lambda>c. c"] by (auto simp: fw_def [of f])
next
  case (Cons a evs)
  obtain i v where a: "a = (i, v)" by (cases a)
  have v: "0 \<le> f v" and i: "gget evs i = None"
    using Cons.prems a ghas_iff [of evs i] by auto
  note M = merge_factor_laws [OF Cons.prems(1) v, of i]
  note IH = Cons.IH [OF M(1)]
  have "fw f ((i, v) # evs) j = (if j = i then f v else fw f evs j)" for j by (simp add: fw_def)
  moreover have "fw f evs i = 0" using i by (rule fw_None)
  ultimately show ?case
    using IH Cons.prems M(2) a v by (auto simp: max_def)
qed

subsection \<open>The contract\<close>

text \<open>
  \<open>weight m i\<close> is the number of events with id \<open>i\<close> the metric accounts for, \<open>val m\<close> the value
  its fields give. \<open>get\<close> is \<^verbatim>\<open>GetFloat64Value\<close>, which may fill the cache of the metric.
\<close>

locale stat_metric =
  fixes inv :: "'m \<Rightarrow> bool"
    and weight :: "'m \<Rightarrow> string \<Rightarrow> int"
    and count :: "'m \<Rightarrow> int"
    and val :: "'m \<Rightarrow> float64"
    and get :: "'m \<Rightarrow> float64 \<times> 'm"
    and add :: "CGREvent \<Rightarrow> 'm \<Rightarrow> error + 'm"
    and rem :: "string \<Rightarrow> 'm \<Rightarrow> 'm \<times> error option"
    and compress :: "int \<Rightarrow> string \<Rightarrow> 'm \<Rightarrow> error + ('m \<times> string list)"
    and factors :: "'m \<Rightarrow> (string, int) gmap \<Rightarrow> (string, int) gmap"
  assumes weight_nonneg: "inv m \<Longrightarrow> 0 \<le> weight m i"
    and weight_le_count: "inv m \<Longrightarrow> weight m i \<le> count m"
    and count_zero: "inv m \<Longrightarrow> count m = 0 \<longleftrightarrow> (\<forall>i. weight m i = 0)"
    and get_law: "inv m \<Longrightarrow> get m = (v, m') \<Longrightarrow>
      v = val m \<and> inv m' \<and> val m' = val m \<and> weight m' = weight m \<and> count m' = count m"
    and add_law: "inv m \<Longrightarrow> add ev m = Inr m' \<Longrightarrow>
      inv m' \<and> count m' = count m + 1 \<and> weight m' = (weight m)(evID ev := weight m (evID ev) + 1)"
    and rem_in: "inv m \<Longrightarrow> weight m i \<noteq> 0 \<Longrightarrow> rem i m = (m', e) \<Longrightarrow>
      e = None \<and> inv m' \<and> count m' = count m - 1 \<and> weight m' = (weight m)(i := weight m i - 1)"
    and rem_out: "inv m \<Longrightarrow> weight m i = 0 \<Longrightarrow> rem i m = (m', e) \<Longrightarrow>
      e = Some ErrNotFound \<and> inv m' \<and> count m' = count m \<and> weight m' = weight m \<and> val m' = val m"
    and compress_law: "inv m \<Longrightarrow> 0 < n \<Longrightarrow>
      \<exists>m' ids. compress n d m = Inr (m', ids) \<and> inv m' \<and> count m' = count m \<and> val m' = val m
        \<and> (\<forall>i. weight m' i \<noteq> 0 \<longrightarrow> i \<in> set ids)"
    and factors_law: "inv m \<Longrightarrow> facs_ok evs \<Longrightarrow>
      facs_ok (factors m evs) \<and> (\<forall>i. facs (factors m evs) i = max (facs evs i) (weight m i))"
begin

text \<open>An event that was added can be removed, which restores every weight.\<close>

lemma add_rem:
  assumes "inv m" and "add ev m = Inr m'" and "rem (evID ev) m' = (m'', e)"
  shows "e = None \<and> inv m'' \<and> count m'' = count m \<and> weight m'' = weight m"
proof -
  note A = add_law [OF assms(1,2)]
  have "weight m' (evID ev) \<noteq> 0" using A weight_nonneg [OF assms(1), of "evID ev"] by simp
  with rem_in [OF _ this assms(3)] A show ?thesis by auto
qed

text \<open>Removing never fails with anything but not found.\<close>

lemma rem_error:
  assumes "inv m" and "rem i m = (m', Some e)"
  shows "e = ErrNotFound \<and> weight m i = 0"
  using assms rem_in [OF assms(1) _ assms(2)] rem_out [OF assms(1) _ assms(2)] by auto

lemma rem_weight:
  assumes "inv m" and "rem i m = (m', e)"
  shows "inv m' \<and> weight m' = (weight m)(i := max 0 (weight m i - 1))"
  using rem_in [OF assms(1) _ assms(2)] rem_out [OF assms(1) _ assms(2)] weight_nonneg [OF assms(1), of i]
  by (cases "weight m i = 0") (auto simp: max_def)

lemma empty_after_rem_all:
  assumes "inv m" and "weight m i = 1" and "count m = 1" and "rem i m = (m', e)"
  shows "count m' = 0 \<and> (\<forall>j. weight m' j = 0)"
proof -
  have "inv m' \<and> count m' = 0" using rem_in [OF assms(1) _ assms(4)] assms(2,3) by simp
  with count_zero [of m'] show ?thesis by simp
qed

end

subsection \<open>Float metrics\<close>

definition fm_inv :: "('a FloatMetric_scheme \<Rightarrow> float64) \<Rightarrow> 'a FloatMetric_scheme \<Rightarrow> bool" where
  "fm_inv cmp m \<longleftrightarrow> evs_ok swCompressFactor (fmEvents m)
     \<and> fmCount m = gsum swCompressFactor (fmEvents m) \<and> (fmval m = None \<or> fmval m = Some (cmp m))"

abbreviation fm_weight :: "'a FloatMetric_scheme \<Rightarrow> string \<Rightarrow> int" where
  "fm_weight m \<equiv> fw swCompressFactor (fmEvents m)"

abbreviation fm_factors :: "'a FloatMetric_scheme \<Rightarrow> (string, int) gmap \<Rightarrow> (string, int) gmap" where
  "fm_factors m \<equiv> stat_factors (fmEvents m)"

lemma stat_factors_law:
  "evs_ok swCompressFactor evs \<Longrightarrow> facs_ok events \<Longrightarrow>
    facs_ok (stat_factors evs events)
    \<and> (\<forall>i. facs (stat_factors evs events) i = max (facs events i) (fw swCompressFactor evs i))"
  unfolding stat_factors_def by (rule fold_factors) (auto dest: evs_ok_nonneg)

lemma evs_ok_single: "0 < f v \<Longrightarrow> evs_ok f [(d, v)]"
  by (simp add: evs_ok_def)

lemma fw_single: "fw f [(d, v)] i \<noteq> 0 \<Longrightarrow> i = d"
  by (auto simp: fw_def split: if_splits)

lemma fw_in_keys: "fw f evs i \<noteq> 0 \<Longrightarrow> i \<in> fst ` set evs"
  using ghas_iff [of evs i] by (auto simp: fw_def split: option.splits)

text \<open>What the four metrics over \<open>FloatMetric\<close> have in common is a contract of its own, from which
  the one of the interface follows.\<close>

locale float_metric =
  fixes compute :: "'a FloatMetric_scheme \<Rightarrow> float64"
    and get :: "'a FloatMetric_scheme \<Rightarrow> float64 \<times> 'a FloatMetric_scheme"
    and add :: "CGREvent \<Rightarrow> 'a FloatMetric_scheme \<Rightarrow> error + 'a FloatMetric_scheme"
    and rem :: "string \<Rightarrow> 'a FloatMetric_scheme \<Rightarrow> 'a FloatMetric_scheme \<times> error option"
    and compress :: "int \<Rightarrow> string \<Rightarrow> 'a FloatMetric_scheme \<Rightarrow> 'a FloatMetric_scheme compressed"
  assumes compute_fmval: "compute (m\<lparr>fmval := x\<rparr>) = compute m"
    and compute_fmEvents: "fmEvents m \<noteq> [] \<Longrightarrow> compute (m\<lparr>fmEvents := [e]\<rparr>) = compute m"
    and get_eq: "get m = (case fmval m of Some v \<Rightarrow> (v, m) | None \<Rightarrow> (compute m, m\<lparr>fmval := Some (compute m)\<rparr>))"
    and add_eq: "add ev m = Inr m' \<Longrightarrow> \<exists>v s. m' = m\<lparr>fmSum := s, fmEvents := stat_add (evID ev) v (fmEvents m),
      fmCount := fmCount m + 1, fmval := None\<rparr>"
    and rem_None: "gget (fmEvents m) i = None \<Longrightarrow> rem i m = (m, Some ErrNotFound)"
    and rem_Some: "gget (fmEvents m) i = Some v \<Longrightarrow> \<exists>s. rem i m = (m\<lparr>fmSum := s, fmCount := fmCount m - 1,
      fmEvents := stat_drop i v (fmEvents m), fmval := None\<rparr>, None)"
    and compress_eq: "\<exists>x. compress n d m = Inr (if fmCount m < n then (m, map fst (fmEvents m))
      else (m\<lparr>fmEvents := [(d, \<lparr>swStat = x, swCompressFactor = fmCount m\<rparr>)]\<rparr>, [d]))"

sublocale float_metric \<subseteq> stat_metric "fm_inv compute" fm_weight fmCount compute get add rem compress fm_factors
proof
  fix m :: "'a FloatMetric_scheme" and i
  assume inv: "fm_inv compute m"
  then have ok: "evs_ok swCompressFactor (fmEvents m)" and cnt: "fmCount m = gsum swCompressFactor (fmEvents m)"
    by (simp_all add: fm_inv_def)
  show "0 \<le> fm_weight m i" "fm_weight m i \<le> fmCount m" "fmCount m = 0 \<longleftrightarrow> (\<forall>i. fm_weight m i = 0)"
    using ok cnt by (simp_all add: evs_bounds)
  show "facs_ok evs \<Longrightarrow> facs_ok (fm_factors m evs)
      \<and> (\<forall>i. facs (fm_factors m evs) i = max (facs evs i) (fm_weight m i))" for evs
    by (rule stat_factors_law [OF ok])
  show "get m = (v, m') \<Longrightarrow> v = compute m \<and> fm_inv compute m' \<and> compute m' = compute m
      \<and> fm_weight m' = fm_weight m \<and> fmCount m' = fmCount m" for v m'
    using inv by (auto simp: get_eq fm_inv_def compute_fmval split: option.splits)
  show "fm_inv compute m' \<and> fmCount m' = fmCount m + 1
      \<and> fm_weight m' = (fm_weight m)(evID ev := fm_weight m (evID ev) + 1)" if "add ev m = Inr m'" for ev m'
    using add_eq [OF that] cnt stat_add_laws [OF ok] by (auto simp: fm_inv_def)
  show "e = None \<and> fm_inv compute m' \<and> fmCount m' = fmCount m - 1
      \<and> fm_weight m' = (fm_weight m)(i := fm_weight m i - 1)"
    if w: "fm_weight m i \<noteq> 0" and "rem i m = (m', e)" for m' e
  proof -
    obtain v where v: "gget (fmEvents m) i = Some v"
      using w by (cases "gget (fmEvents m) i") (auto simp: fw_def)
    from rem_Some [OF v] that(2) cnt stat_drop_laws [OF ok v] show ?thesis by (auto simp: fm_inv_def)
  qed
  show "e = Some ErrNotFound \<and> fm_inv compute m' \<and> fmCount m' = fmCount m
      \<and> fm_weight m' = fm_weight m \<and> compute m' = compute m"
    if "fm_weight m i = 0" "rem i m = (m', e)" for m' e
  proof -
    have "gget (fmEvents m) i = None"
      using that(1) evs_okD [OF ok, of i] by (auto simp: fw_def split: option.splits)
    with rem_None that(2) inv show ?thesis by auto
  qed
  show "\<exists>m' ids. compress n d m = Inr (m', ids) \<and> fm_inv compute m' \<and> fmCount m' = fmCount m
      \<and> compute m' = compute m \<and> (\<forall>i. fm_weight m' i \<noteq> 0 \<longrightarrow> i \<in> set ids)" if "0 < n" for n d
  proof -
    obtain x where x: "compress n d m = Inr (if fmCount m < n then (m, map fst (fmEvents m))
        else (m\<lparr>fmEvents := [(d, \<lparr>swStat = x, swCompressFactor = fmCount m\<rparr>)]\<rparr>, [d]))"
      using compress_eq by blast
    show ?thesis
    proof (cases "fmCount m < n")
      case True
      with x inv fw_in_keys [of swCompressFactor "fmEvents m"] show ?thesis by auto
    next
      case False
      with that have c: "0 < fmCount m" by simp
      with cnt have "fmEvents m \<noteq> []" by auto
      from compute_fmEvents [OF this] x False c inv show ?thesis
        by (auto simp: fm_inv_def evs_ok_single dest: fw_single)
    qed
  qed
qed

lemma fm_keep_sum:
  "\<exists>s. m\<lparr>fmCount := c, fmEvents := e, fmval := v\<rparr> = m\<lparr>fmSum := s, fmCount := c, fmEvents := e, fmval := v\<rparr>"
  by (rule exI [of _ "fmSum m"]) simp

interpretation acc: float_metric "ACC_compute cfg" "ACC_GetFloat64Value cfg" "ACC_AddEvent cfg"
  ACC_RemEvent "ACC_Compress cfg" for cfg
  by unfold_locales (auto simp: ACC_compute_def ACC_GetFloat64Value_def ACC_getValue_def
      ACC_AddEvent_def ACC_RemEvent_def ACC_Compress_def split: option.splits sum.splits)

interpretation tcc: float_metric "TCC_compute cfg" "TCC_GetFloat64Value cfg" "TCC_AddEvent cfg"
  TCC_RemEvent "TCC_Compress cfg" for cfg
  by unfold_locales (auto simp: TCC_compute_def TCC_GetFloat64Value_def TCC_getValue_def
      TCC_AddEvent_def TCC_RemEvent_def TCC_Compress_def split: option.splits sum.splits intro: fm_keep_sum)

interpretation sm: float_metric "Sum_compute cfg" "Sum_GetFloat64Value cfg" "Sum_AddEvent cfg"
  Sum_RemEvent "Sum_Compress cfg" for cfg
  by unfold_locales (auto simp: Sum_compute_def Sum_GetFloat64Value_def Sum_getValue_def
      Sum_AddEvent_def Sum_RemEvent_def Sum_Compress_def Let_def split: option.splits sum.splits if_splits intro: fm_keep_sum)

interpretation avg: float_metric "Average_compute cfg" "Average_GetFloat64Value cfg" "Average_AddEvent cfg"
  Average_RemEvent "Average_Compress cfg" for cfg
  by unfold_locales (auto simp: Average_compute_def Average_GetFloat64Value_def Average_getValue_def
      Average_AddEvent_def Average_RemEvent_def Average_Compress_def Let_def split: option.splits sum.splits if_splits intro: fm_keep_sum)

subsection \<open>Duration metrics\<close>

definition dm_inv :: "(DurationMetric \<Rightarrow> duration) \<Rightarrow> DurationMetric \<Rightarrow> bool" where
  "dm_inv cmp m \<longleftrightarrow> evs_ok dwCompressFactor (dmEvents m)
     \<and> dmCount m = gsum dwCompressFactor (dmEvents m) \<and> (dmval m = None \<or> dmval m = Some (cmp m))"

abbreviation dm_weight :: "DurationMetric \<Rightarrow> string \<Rightarrow> int" where
  "dm_weight m \<equiv> fw dwCompressFactor (dmEvents m)"

abbreviation dm_factors :: "DurationMetric \<Rightarrow> (string, int) gmap \<Rightarrow> (string, int) gmap" where
  "dm_factors m \<equiv> dur_factors (dmEvents m)"

text \<open>While no event is compressed the sum is the sum of the durations, as a 64 bit integer.\<close>

definition dm_exact :: "DurationMetric \<Rightarrow> bool" where
  "dm_exact m \<longleftrightarrow> evs_ok dwCompressFactor (dmEvents m)
     \<and> (\<forall>v \<in> snd ` set (dmEvents m). dwCompressFactor v = 1)
     \<and> dmSum m = wrap64 (gsum dwDuration (dmEvents m))"

definition dur_value :: "duration \<Rightarrow> float64" where
  "dur_value v = (if v = - 1 then Fin (- 1) else Duration_Seconds v)"

lemma dur_factors_law:
  "evs_ok dwCompressFactor evs \<Longrightarrow> facs_ok events \<Longrightarrow>
    facs_ok (dur_factors evs events)
    \<and> (\<forall>i. facs (dur_factors evs events) i = max (facs events i) (fw dwCompressFactor evs i))"
  unfolding dur_factors_def by (rule fold_factors) (auto dest: evs_ok_nonneg)

locale duration_metric =
  fixes compute :: "DurationMetric \<Rightarrow> duration"
    and get :: "DurationMetric \<Rightarrow> float64 \<times> DurationMetric"
    and fld :: string
    and add :: "CGREvent \<Rightarrow> DurationMetric \<Rightarrow> error + DurationMetric"
    and rem :: "string \<Rightarrow> DurationMetric \<Rightarrow> DurationMetric \<times> error option"
    and compress :: "int \<Rightarrow> string \<Rightarrow> DurationMetric \<Rightarrow> DurationMetric compressed"
    and cfg :: stat_cfg
  assumes compute_dmval: "compute (m\<lparr>dmval := x\<rparr>) = compute m"
    and compute_dmEvents: "compute (m\<lparr>dmEvents := e\<rparr>) = compute m"
    and get_eq: "get m = (case dmval m of Some v \<Rightarrow> (dur_value v, m)
      | None \<Rightarrow> (dur_value (compute m), m\<lparr>dmval := Some (compute m)\<rparr>))"
    and add_eq: "add ev m = (case FieldAsDuration (scLib cfg) ev fld of Inl e \<Rightarrow> Inl (missing_field fld e)
      | Inr dur \<Rightarrow> Inr (m\<lparr>dmSum := wrap64 (dmSum m + dur), dmEvents := dur_add (evID ev) dur (dmEvents m),
          dmCount := dmCount m + 1, dmval := None\<rparr>))"
    and rem_eq: "rem i m = (case gget (dmEvents m) i of None \<Rightarrow> (m, Some ErrNotFound)
      | Some v \<Rightarrow> (m\<lparr>dmSum := (if dwDuration v \<noteq> 0 then wrap64 (dmSum m - dwDuration v) else dmSum m),
          dmCount := dmCount m - 1, dmEvents := dur_drop i v (dmEvents m), dmval := None\<rparr>, None))"
    and compress_eq: "compress n d m = (if dmCount m < n then Inr (m, map fst (dmEvents m))
      else if dmCount m = 0 then Inl (Panic ''integer divide by zero'')
      else Inr (m\<lparr>dmEvents := [(d, \<lparr>dwDuration = quot64 (dmSum m) (dmCount m),
          dwCompressFactor = dmCount m\<rparr>)]\<rparr>, [d]))"

sublocale duration_metric \<subseteq> stat_metric "dm_inv compute" dm_weight dmCount "\<lambda>m. dur_value (compute m)"
  get add rem compress dm_factors
proof
  fix m :: DurationMetric and i
  assume inv: "dm_inv compute m"
  then have ok: "evs_ok dwCompressFactor (dmEvents m)" and cnt: "dmCount m = gsum dwCompressFactor (dmEvents m)"
    by (simp_all add: dm_inv_def)
  show "0 \<le> dm_weight m i" "dm_weight m i \<le> dmCount m" "dmCount m = 0 \<longleftrightarrow> (\<forall>i. dm_weight m i = 0)"
    using ok cnt by (simp_all add: evs_bounds)
  show "facs_ok evs \<Longrightarrow> facs_ok (dm_factors m evs)
      \<and> (\<forall>i. facs (dm_factors m evs) i = max (facs evs i) (dm_weight m i))" for evs
    by (rule dur_factors_law [OF ok])
  show "get m = (v, m') \<Longrightarrow> v = dur_value (compute m) \<and> dm_inv compute m'
      \<and> dur_value (compute m') = dur_value (compute m) \<and> dm_weight m' = dm_weight m \<and> dmCount m' = dmCount m" for v m'
    using inv by (auto simp: get_eq dm_inv_def compute_dmval split: option.splits)
  show "dm_inv compute m' \<and> dmCount m' = dmCount m + 1
      \<and> dm_weight m' = (dm_weight m)(evID ev := dm_weight m (evID ev) + 1)" if "add ev m = Inr m'" for ev m'
    using that cnt dur_add_laws [OF ok] by (auto simp: add_eq dm_inv_def split: sum.splits)
  show "e = None \<and> dm_inv compute m' \<and> dmCount m' = dmCount m - 1
      \<and> dm_weight m' = (dm_weight m)(i := dm_weight m i - 1)"
    if w: "dm_weight m i \<noteq> 0" and "rem i m = (m', e)" for m' e
  proof -
    obtain v where v: "gget (dmEvents m) i = Some v"
      using w by (cases "gget (dmEvents m) i") (auto simp: fw_def)
    with that(2) cnt dur_drop_laws [OF ok v] show ?thesis by (auto simp: rem_eq dm_inv_def)
  qed
  show "e = Some ErrNotFound \<and> dm_inv compute m' \<and> dmCount m' = dmCount m
      \<and> dm_weight m' = dm_weight m \<and> dur_value (compute m') = dur_value (compute m)"
    if "dm_weight m i = 0" "rem i m = (m', e)" for m' e
  proof -
    have "gget (dmEvents m) i = None"
      using that(1) evs_okD [OF ok, of i] by (auto simp: fw_def split: option.splits)
    with that(2) inv show ?thesis by (auto simp: rem_eq)
  qed
  show "\<exists>m' ids. compress n d m = Inr (m', ids) \<and> dm_inv compute m' \<and> dmCount m' = dmCount m
      \<and> dur_value (compute m') = dur_value (compute m)
      \<and> (\<forall>i. dm_weight m' i \<noteq> 0 \<longrightarrow> i \<in> set ids)" if "0 < n" for n d
  proof (cases "dmCount m < n")
    case True
    with inv fw_in_keys [of dwCompressFactor "dmEvents m"] show ?thesis by (auto simp: compress_eq)
  next
    case False
    with that have c: "0 < dmCount m" by simp
    with False inv show ?thesis
      by (auto simp: compress_eq dm_inv_def evs_ok_single compute_dmEvents dest: fw_single)
  qed
qed

context duration_metric
begin

lemma exact_add:
  assumes "dm_exact m" and "add ev m = Inr m'" and new: "gget (dmEvents m) (evID ev) = None"
  shows "dm_exact m'"
proof -
  obtain dur where m': "m' = m\<lparr>dmSum := wrap64 (dmSum m + dur),
      dmEvents := dur_add (evID ev) dur (dmEvents m), dmCount := dmCount m + 1, dmval := None\<rparr>"
    using assms(2) by (auto simp: add_eq split: sum.splits)
  have "dur_add (evID ev) dur (dmEvents m) = dmEvents m @ [(evID ev, \<lparr>dwDuration = dur, dwCompressFactor = 1\<rparr>)]"
    using new by (simp add: dur_add_def gset_new)
  then show ?thesis
    using assms(1) m' dur_add_laws(1) [of "dmEvents m" "evID ev" dur] by (auto simp: dm_exact_def gsum_def)
qed

lemma exact_rem:
  assumes "dm_exact m" and "rem i m = (m', e)"
  shows "dm_exact m'"
proof (cases "gget (dmEvents m) i")
  case None
  with assms show ?thesis by (simp add: rem_eq)
next
  case (Some v)
  have one: "dwCompressFactor v = 1" and ok: "gmap_ok (dmEvents m)"
    using assms(1) gget_in_range [OF Some] unfolding dm_exact_def evs_ok_def by blast+
  have r: "\<forall>v \<in> snd ` set (gdel (dmEvents m) i). dwCompressFactor v = 1"
    using assms(1) range_gdel [of i "dmEvents m"] unfolding dm_exact_def by blast
  have "dmEvents m' = gdel (dmEvents m) i" "dmSum m' = wrap64 (dmSum m - dwDuration v)"
    using assms Some one by (auto simp: rem_eq dur_drop_def dm_exact_def)
  with r assms(1) show ?thesis
    using gsum_gdel [OF ok Some, of dwDuration] by (simp add: dm_exact_def evs_ok_gdel)
qed

end

interpretation acd: duration_metric ACD_compute ACD_GetFloat64Value "''Usage''" "ACD_AddEvent cfg"
  ACD_RemEvent ACD_Compress cfg for cfg
  by unfold_locales (auto simp: ACD_compute_def ACD_GetFloat64Value_def ACD_getValue_def dur_value_def
      ACD_AddEvent_def ACD_RemEvent_def ACD_Compress_def split: option.splits)

interpretation tcd: duration_metric TCD_compute TCD_GetFloat64Value "''Usage''" "TCD_AddEvent cfg"
  TCD_RemEvent TCD_Compress cfg for cfg
  by unfold_locales (auto simp: TCD_compute_def TCD_GetFloat64Value_def TCD_getValue_def dur_value_def
      TCD_AddEvent_def TCD_RemEvent_def TCD_Compress_def split: option.splits)

interpretation pdd: duration_metric PDD_compute PDD_GetFloat64Value "''PDD''" "PDD_AddEvent cfg"
  PDD_RemEvent PDD_Compress cfg for cfg
  by unfold_locales (auto simp: PDD_compute_def PDD_GetFloat64Value_def PDD_getValue_def dur_value_def
      PDD_AddEvent_def PDD_RemEvent_def PDD_Compress_def split: option.splits)

subsection \<open>Metrics of distinct values\<close>

lemma inner_gset [simp]: "inner (gset m k v) = (inner m)(k := v)"
  by (auto simp: inner_def)

lemma inner_gdel [simp]: "inner (gdel m k) = (inner m)(k := [])"
  by (auto simp: inner_def)

lemma inner_range: "\<forall>v \<in> snd ` set m. P v \<Longrightarrow> P [] \<Longrightarrow> P (inner m k)"
  using gget_in_range [of m k] by (auto simp: inner_def split: option.splits)

abbreviation tot :: "(string, int) gmap \<Rightarrow> int" where
  "tot \<equiv> gsum (\<lambda>c. c)"

definition vm_inv :: "'a ValuesMetric_scheme \<Rightarrow> bool" where
  "vm_inv m \<longleftrightarrow> gmap_ok (vmEvents m) \<and> (\<forall>ev \<in> snd ` set (vmEvents m). evs_ok (\<lambda>c. c) ev)
     \<and> vmCount m = gsum tot (vmEvents m)
     \<and> gmap_ok (vmFieldValues m) \<and> (\<forall>ids \<in> snd ` set (vmFieldValues m). gmap_ok ids \<and> ids \<noteq> [])
     \<and> (\<forall>i x. gget (inner (vmEvents m) i) x = None \<longleftrightarrow> gget (inner (vmFieldValues m) x) i = None)"

abbreviation vm_weight :: "'a ValuesMetric_scheme \<Rightarrow> string \<Rightarrow> int" where
  "vm_weight m \<equiv> fw tot (vmEvents m)"

abbreviation vm_factors :: "'a ValuesMetric_scheme \<Rightarrow> (string, int) gmap \<Rightarrow> (string, int) gmap" where
  "vm_factors m \<equiv> values_factors (vmEvents m)"

lemma vm_weight_inner: "vm_weight m i = tot (inner (vmEvents m) i)"
  by (simp add: fw_def inner_def split: option.splits)

lemma range_P_gset: "\<forall>v \<in> snd ` set m. P v \<Longrightarrow> P v \<Longrightarrow> \<forall>w \<in> snd ` set (gset m k v). P w"
  using range_gset [of k v m] by blast

lemma range_P_gdel: "\<forall>v \<in> snd ` set m. P v \<Longrightarrow> \<forall>w \<in> snd ` set (gdel m k). P w"
  using range_gdel [of k m] by blast

lemma values_add_inv:
  assumes inv: "vm_inv m" and m': "m' = values_add i x m"
  shows "vm_inv m' \<and> vmCount m' = vmCount m + 1 \<and> vm_weight m' = (vm_weight m)(i := vm_weight m i + 1)"
proof -
  define evs n where "evs = inner (vmEvents m) i" and "n = (case gget evs x of None \<Rightarrow> 1 | Some c \<Rightarrow> c + 1)"
  define ids where "ids = StringSet_Add (inner (vmFieldValues m) x) i"
  have f: "vmEvents m' = gset (vmEvents m) i (gset evs x n)"
    "vmFieldValues m' = gset (vmFieldValues m) x ids" "vmCount m' = vmCount m + 1"
    by (simp_all add: m' values_add_def Let_def evs_def n_def ids_def)
  have ok: "evs_ok (\<lambda>c. c) evs"
    using inv inner_range [of "vmEvents m" "evs_ok (\<lambda>c. c)" i] unfolding evs_def vm_inv_def
    by (simp add: evs_ok_def)
  have n: "0 < n" using evs_okD [OF ok, of x] by (auto simp: n_def split: option.splits)
  have t: "tot (gset evs x n) = tot evs + 1"
    using ok by (simp add: gsum_gset evs_ok_nonneg n_def fw_def split: option.splits)
  have w: "vm_weight m i = tot evs" by (simp add: vm_weight_inner evs_def)
  have ids: "gmap_ok ids" "ids \<noteq> []" "gget ids j = None \<longleftrightarrow> j \<noteq> i \<and> gget (inner (vmFieldValues m) x) j = None" for j
  proof -
    show "gmap_ok ids"
      unfolding ids_def StringSet_Add_def
      using inv inner_range [of "vmFieldValues m" gmap_ok x] by (simp add: vm_inv_def)
    show "gget ids j = None \<longleftrightarrow> j \<noteq> i \<and> gget (inner (vmFieldValues m) x) j = None"
      by (simp add: ids_def StringSet_Add_def)
    have "gget ids i \<noteq> None" by (simp add: ids_def StringSet_Add_def)
    then show "ids \<noteq> []" by auto
  qed
  have "vm_inv m'"
    unfolding vm_inv_def f
  proof (intro conjI allI)
    show "\<forall>ev \<in> snd ` set (gset (vmEvents m) i (gset evs x n)). evs_ok (\<lambda>c. c) ev"
      using inv ok n by (intro range_P_gset) (auto simp: vm_inv_def evs_ok_gset)
    show "\<forall>v \<in> snd ` set (gset (vmFieldValues m) x ids). gmap_ok v \<and> v \<noteq> []"
      using inv ids by (intro range_P_gset) (auto simp: vm_inv_def)
    show "vmCount m + 1 = gsum tot (gset (vmEvents m) i (gset evs x n))"
      using inv t w by (simp add: vm_inv_def gsum_gset)
    show "gget (inner (gset (vmEvents m) i (gset evs x n)) j) y = None
        \<longleftrightarrow> gget (inner (gset (vmFieldValues m) x ids) y) j = None" for j y
      using inv ids(3) by (auto simp: vm_inv_def evs_def)
  qed (use inv in \<open>simp_all add: vm_inv_def\<close>)
  with f t w show ?thesis by simp
qed

text \<open>Removing an event takes one of the values filed under its id; the last reference to a value
  takes the value out.\<close>

lemma values_rem_inv:
  assumes inv: "vm_inv m" and ev: "gget (vmEvents m) i = Some ((x, c) # rest)"
    and rem: "values_rem i m = (m', e)"
  shows "e = None \<and> vm_inv m' \<and> vmCount m' = vmCount m - 1
    \<and> vm_weight m' = (vm_weight m)(i := vm_weight m i - 1)"
proof -
  let ?evs = "(x, c) # rest"
  have ok: "evs_ok (\<lambda>c. c) ?evs"
    using inv gget_in_range [OF ev] unfolding vm_inv_def by blast
  have inn: "inner (vmEvents m) i = ?evs" using ev by (simp add: inner_def)
  have c: "0 < c" and g: "gmap_ok ?evs" using ok by (simp_all add: evs_ok_def)
  have gmok: "gmap_ok (vmEvents m)" "vmCount m = gsum tot (vmEvents m)" using inv by (simp_all add: vm_inv_def)
  have w: "vm_weight m i = tot ?evs" using ev by (rule fw_Some)
  have sync: "gget (inner (vmEvents m) j) y = None \<longleftrightarrow> gget (inner (vmFieldValues m) y) j = None" for j y
    using inv by (simp add: vm_inv_def)
  show ?thesis
  proof (cases "1 < c")
    case True
    let ?evs' = "gset ?evs x (c - 1)"
    have m': "m' = m\<lparr>vmCount := vmCount m - 1, vmEvents := gset (vmEvents m) i ?evs'\<rparr>" and e: "e = None"
      using rem ev True by (simp_all add: values_rem_def)
    have ok': "evs_ok (\<lambda>c. c) ?evs'" using ok True by (intro evs_ok_gset) simp_all
    have t: "tot ?evs' = tot ?evs - 1" by simp
    have "\<forall>v \<in> snd ` set (gset (vmEvents m) i ?evs'). evs_ok (\<lambda>c. c) v"
      using inv ok' by (intro range_P_gset) (simp_all add: vm_inv_def)
    moreover have "gget (inner (gset (vmEvents m) i ?evs') j) y = None
        \<longleftrightarrow> gget (inner (vmFieldValues m) y) j = None" for j y
      using sync [of j y] inn by (auto split: if_splits)
    moreover have "gsum tot (gset (vmEvents m) i ?evs') = gsum tot (vmEvents m) - 1"
      using gmok w t by (simp add: gsum_gset)
    ultimately have "vm_inv m'" using inv unfolding vm_inv_def m' by simp
    with m' e w show ?thesis by (simp add: algebra_simps)
  next
    case False
    with c have c1: "c = 1" by simp
    have nx: "gget rest x = None" using g ghas_iff [of rest x] by auto
    have "gget (inner (vmFieldValues m) x) i \<noteq> None" using sync [of i x] inn by simp
    then obtain ids where ids: "gget (vmFieldValues m) x = Some ids" "gget ids i \<noteq> None"
      by (auto simp: inner_def split: option.splits)
    have inx: "inner (vmFieldValues m) x = ids" using ids(1) by (simp add: inner_def)
    define ids' F where "ids' = gdel ids i"
      and "F = (if ids' = [] then gdel (gset (vmFieldValues m) x ids') x else gset (vmFieldValues m) x ids')"
    have m': "m' = m\<lparr>vmCount := vmCount m - 1, vmEvents := gset (vmEvents m) i rest, vmFieldValues := F\<rparr>"
      and e: "e = None"
      using rem ev False ids nx
      by (auto simp: values_rem_def Let_def F_def ids'_def StringSet_Remove_def gdel_absent)
    have ok': "evs_ok (\<lambda>c. c) rest" using ok by (simp add: evs_ok_def)
    have t: "tot rest = tot ?evs - 1" using c1 by simp
    have idsok: "gmap_ok ids'" using inv gget_in_range [OF ids(1)] unfolding ids'_def vm_inv_def by auto
    have F: "gmap_ok F" "\<forall>v \<in> snd ` set F. gmap_ok v \<and> v \<noteq> []"
    proof -
      show "gmap_ok F" using inv by (simp add: F_def vm_inv_def)
      have V: "\<forall>v \<in> snd ` set (vmFieldValues m). gmap_ok v \<and> v \<noteq> []" using inv by (simp add: vm_inv_def)
      show "\<forall>v \<in> snd ` set F. gmap_ok v \<and> v \<noteq> []"
      proof (cases "ids' = []")
        case True
        have "F = gdel (vmFieldValues m) x" using True by (simp add: F_def delete_update_same)
        with range_P_gdel [OF V] show ?thesis by simp
      next
        case False
        with range_P_gset [OF V, of ids' x] idsok show ?thesis by (simp add: F_def)
      qed
    qed
    have innF: "inner F = (inner (vmFieldValues m))(x := ids')"
      by (auto simp: F_def)
    have rest: "gget ?evs y = None \<longleftrightarrow> y \<noteq> x \<and> gget rest y = None" for y by simp
    have sync': "gget (inner (gset (vmEvents m) i rest) j) y = None \<longleftrightarrow> gget (inner F y) j = None" for j y
    proof (cases "j = i")
      case ji: True
      show ?thesis
      proof (cases "y = x")
        case True
        with ji nx show ?thesis by (simp add: innF ids'_def)
      next
        case False
        with ji sync [of i y] inn rest [of y] show ?thesis by (simp add: innF)
      qed
    next
      case False
      with sync [of j y] inx show ?thesis by (cases "y = x") (simp_all add: innF ids'_def)
    qed
    have "\<forall>v \<in> snd ` set (gset (vmEvents m) i rest). evs_ok (\<lambda>c. c) v"
      using inv ok' by (intro range_P_gset) (simp_all add: vm_inv_def)
    moreover have "gsum tot (gset (vmEvents m) i rest) = gsum tot (vmEvents m) - 1"
      using gsum_gset [OF gmok(1), of tot i rest] w t by linarith
    ultimately have "vm_inv m'" using F sync' gmok unfolding vm_inv_def m' by simp
    with m' e w c1 show ?thesis by simp
  qed
qed

lemma evs_ok_tot:
  assumes "evs_ok (\<lambda>c. c) evs" and "tot evs = 0"
  shows "evs = []"
proof (cases evs)
  case (Cons a l)
  obtain k c where a: "a = (k, c)" by (cases a)
  have "0 < c" using assms(1) by (simp add: evs_ok_def Cons a)
  moreover have "0 \<le> tot l" using assms(1) by (intro gsum_nonneg) (auto simp: evs_ok_def Cons)
  ultimately show ?thesis using assms(2) by (simp add: Cons a)
qed simp

locale values_metric =
  fixes compute :: "'a ValuesMetric_scheme \<Rightarrow> float64"
    and add :: "CGREvent \<Rightarrow> 'a ValuesMetric_scheme \<Rightarrow> error + 'a ValuesMetric_scheme"
  assumes compute_eq: "compute m = (if vmCount m = 0 \<or> vmCount m < vmMinItems m then STATS_NA
      else float_of_int (int (length (vmFieldValues m))))"
    and add_eq: "add ev m = Inr m' \<Longrightarrow> \<exists>x. m' = values_add (evID ev) x m"

sublocale values_metric \<subseteq> stat_metric vm_inv vm_weight vmCount compute "\<lambda>m. (compute m, m)" add
  values_rem "\<lambda>n d m. Inr (m, map fst (vmEvents m))" vm_factors
proof
  fix m :: "'a ValuesMetric_scheme" and i
  assume inv: "vm_inv m"
  then have ok: "gmap_ok (vmEvents m)" and cnt: "vmCount m = gsum tot (vmEvents m)"
    by (simp_all add: vm_inv_def)
  have nn: "\<forall>v \<in> snd ` set (vmEvents m). 0 \<le> tot v"
    using inv evs_bounds(4) [of "\<lambda>c. c"] unfolding vm_inv_def by blast
  show "0 \<le> vm_weight m i" by (rule fw_nonneg [OF nn])
  show "vm_weight m i \<le> vmCount m" "vmCount m = 0 \<longleftrightarrow> (\<forall>i. vm_weight m i = 0)"
    using fw_le_gsum [OF ok nn] gsum_zero_iff [OF ok nn] cnt by simp_all
  show "facs_ok evs \<Longrightarrow> facs_ok (vm_factors m evs)
      \<and> (\<forall>i. facs (vm_factors m evs) i = max (facs evs i) (vm_weight m i))" for evs
    unfolding values_factors_def by (rule fold_factors [OF _ nn ok])
  show "(compute m, m) = (v, m') \<Longrightarrow> v = compute m \<and> vm_inv m' \<and> compute m' = compute m
      \<and> vm_weight m' = vm_weight m \<and> vmCount m' = vmCount m" for v m'
    using inv by auto
  show "vm_inv m' \<and> vmCount m' = vmCount m + 1
      \<and> vm_weight m' = (vm_weight m)(evID ev := vm_weight m (evID ev) + 1)" if "add ev m = Inr m'" for ev m'
    using add_eq [OF that] values_add_inv [OF inv] by blast
  show "e = None \<and> vm_inv m' \<and> vmCount m' = vmCount m - 1
      \<and> vm_weight m' = (vm_weight m)(i := vm_weight m i - 1)"
    if w: "vm_weight m i \<noteq> 0" and r: "values_rem i m = (m', e)" for m' e
  proof -
    obtain evs where evs: "gget (vmEvents m) i = Some evs" "tot evs \<noteq> 0"
      using w by (cases "gget (vmEvents m) i") (auto simp: fw_def)
    then obtain x c rest where "evs = (x, c) # rest" by (cases evs) auto
    with values_rem_inv [OF inv _ r] evs show ?thesis by blast
  qed
  show "e = Some ErrNotFound \<and> vm_inv m' \<and> vmCount m' = vmCount m
      \<and> vm_weight m' = vm_weight m \<and> compute m' = compute m"
    if w: "vm_weight m i = 0" and r: "values_rem i m = (m', e)" for m' e
  proof (cases "gget (vmEvents m) i")
    case None
    with r inv show ?thesis by (auto simp: values_rem_def)
  next
    case (Some evs)
    have "evs_ok (\<lambda>c. c) evs" using inv gget_in_range [OF Some] unfolding vm_inv_def by blast
    moreover have "tot evs = 0" using w Some by (simp add: fw_def)
    ultimately have "evs = []" using evs_ok_tot by blast
    with r Some have m': "m' = m\<lparr>vmEvents := gdel (vmEvents m) i\<rparr>" "e = Some ErrNotFound"
      by (simp_all add: values_rem_def)
    have "inner (vmEvents m) i = []" using Some \<open>evs = []\<close> by (simp add: inner_def)
    then have same: "(inner (vmEvents m))(i := []) = inner (vmEvents m)" by (auto simp: fun_eq_iff)
    have "\<forall>ev \<in> snd ` set (gdel (vmEvents m) i). evs_ok (\<lambda>c. c) ev"
      using inv by (intro range_P_gdel) (simp add: vm_inv_def)
    then have "vm_inv m'"
      using inv same cnt ok w by (simp add: vm_inv_def m' gsum_gdel_fw)
    moreover have "(vm_weight m)(i := 0) = vm_weight m" using w by (auto simp: fun_eq_iff)
    ultimately show ?thesis using m' by (simp add: compute_eq)
  qed
  show "\<exists>m' ids. Inr (m, map fst (vmEvents m)) = Inr (m', ids) \<and> vm_inv m' \<and> vmCount m' = vmCount m
      \<and> compute m' = compute m \<and> (\<forall>i. vm_weight m' i \<noteq> 0 \<longrightarrow> i \<in> set ids)"
    using inv fw_in_keys [of tot "vmEvents m"] by auto
qed

interpretation ddc: values_metric DDC_getValue "DDC_AddEvent cfg" for cfg
  by unfold_locales (auto simp: DDC_getValue_def DDC_AddEvent_def split: sum.splits)

interpretation dst: values_metric Distinct_getValue "Distinct_AddEvent cfg" for cfg
  by unfold_locales (auto simp: Distinct_getValue_def Distinct_AddEvent_def split: sum.splits if_splits)

text \<open>What is counted is the number of distinct values filed under any event.\<close>

lemma vm_distinct_values:
  assumes "vm_inv m"
  shows "length (vmFieldValues m) = card {x. \<exists>i. gget (inner (vmEvents m) i) x \<noteq> None}"
proof -
  have ok: "gmap_ok (vmFieldValues m)" using assms by (simp add: vm_inv_def)
  have ne: "ids \<noteq> []" if "gget (vmFieldValues m) x = Some ids" for x ids
    using assms gget_in_range [OF that] unfolding vm_inv_def by blast
  have "fst ` set (vmFieldValues m) = {x. \<exists>i. gget (inner (vmFieldValues m) x) i \<noteq> None}"
  proof (intro set_eqI iffI)
    fix x assume "x \<in> fst ` set (vmFieldValues m)"
    then obtain ids where ids: "gget (vmFieldValues m) x = Some ids"
      using ghas_iff [of "vmFieldValues m" x] by auto
    then obtain i u rest where "ids = (i, u) # rest" using ne by (cases ids) auto
    with ids show "x \<in> {x. \<exists>i. gget (inner (vmFieldValues m) x) i \<noteq> None}" by (auto simp: inner_def)
  next
    fix x assume "x \<in> {x. \<exists>i. gget (inner (vmFieldValues m) x) i \<noteq> None}"
    then have "gget (vmFieldValues m) x \<noteq> None" by (auto simp: inner_def split: option.splits)
    then show "x \<in> fst ` set (vmFieldValues m)" by (simp only: ghas_iff)
  qed
  also have "\<dots> = {x. \<exists>i. gget (inner (vmEvents m) i) x \<noteq> None}" using assms by (simp add: vm_inv_def)
  finally show ?thesis using distinct_card [OF ok] by (metis length_map list.set_map)
qed

subsection \<open>ASR\<close>

definition asr_inv :: "stat_cfg \<Rightarrow> StatASR \<Rightarrow> bool" where
  "asr_inv cfg m \<longleftrightarrow> evs_ok swCompressFactor (asrEvents m)
     \<and> asrCount m = gsum swCompressFactor (asrEvents m)
     \<and> (asrval m = None \<or> asrval m = Some (ASR_compute cfg m))"

abbreviation asr_weight :: "StatASR \<Rightarrow> string \<Rightarrow> int" where
  "asr_weight m \<equiv> fw swCompressFactor (asrEvents m)"

interpretation asr: stat_metric "asr_inv cfg" asr_weight asrCount "ASR_compute cfg"
  "ASR_GetFloat64Value cfg" "ASR_AddEvent cfg" ASR_RemEvent "ASR_Compress cfg" ASR_GetCompressFactor
  for cfg
proof
  fix m :: StatASR and i
  assume inv: "asr_inv cfg m"
  then have ok: "evs_ok swCompressFactor (asrEvents m)" and cnt: "asrCount m = gsum swCompressFactor (asrEvents m)"
    by (simp_all add: asr_inv_def)
  show "0 \<le> asr_weight m i" "asr_weight m i \<le> asrCount m" "asrCount m = 0 \<longleftrightarrow> (\<forall>i. asr_weight m i = 0)"
    using ok cnt by (simp_all add: evs_bounds)
  show "facs_ok evs \<Longrightarrow> facs_ok (ASR_GetCompressFactor m evs)
      \<and> (\<forall>i. facs (ASR_GetCompressFactor m evs) i = max (facs evs i) (asr_weight m i))" for evs
    unfolding ASR_GetCompressFactor_def by (rule stat_factors_law [OF ok])
  show "ASR_GetFloat64Value cfg m = (v, m') \<Longrightarrow> v = ASR_compute cfg m \<and> asr_inv cfg m'
      \<and> ASR_compute cfg m' = ASR_compute cfg m \<and> asr_weight m' = asr_weight m \<and> asrCount m' = asrCount m" for v m'
    using inv by (auto simp: ASR_GetFloat64Value_def ASR_getValue_def asr_inv_def ASR_compute_def split: option.splits)
  show "asr_inv cfg m' \<and> asrCount m' = asrCount m + 1
      \<and> asr_weight m' = (asr_weight m)(evID ev := asr_weight m (evID ev) + 1)"
    if "ASR_AddEvent cfg ev m = Inr m'" for ev m'
    using that cnt stat_add_laws [OF ok]
    by (auto simp: ASR_AddEvent_def Let_def asr_inv_def split: sum.splits if_splits)
  show "e = None \<and> asr_inv cfg m' \<and> asrCount m' = asrCount m - 1
      \<and> asr_weight m' = (asr_weight m)(i := asr_weight m i - 1)"
    if w: "asr_weight m i \<noteq> 0" and r: "ASR_RemEvent i m = (m', e)" for m' e
  proof -
    obtain v where v: "gget (asrEvents m) i = Some v"
      using w by (cases "gget (asrEvents m) i") (auto simp: fw_def)
    then have "0 < swCompressFactor v" by (rule evs_okD [OF ok])
    with v r cnt ok show ?thesis
      by (auto simp: ASR_RemEvent_def Let_def asr_inv_def evs_ok_gset evs_ok_gdel gsum_gset gsum_gdel_fw
          fw_Some evs_ok_nonneg)
  qed
  show "e = Some ErrNotFound \<and> asr_inv cfg m' \<and> asrCount m' = asrCount m
      \<and> asr_weight m' = asr_weight m \<and> ASR_compute cfg m' = ASR_compute cfg m"
    if w: "asr_weight m i = 0" and r: "ASR_RemEvent i m = (m', e)" for m' e
  proof -
    have "gget (asrEvents m) i = None"
      using w evs_okD [OF ok, of i] by (auto simp: fw_def split: option.splits)
    with r inv show ?thesis by (auto simp: ASR_RemEvent_def)
  qed
  show "\<exists>m' ids. ASR_Compress cfg n d m = Inr (m', ids) \<and> asr_inv cfg m' \<and> asrCount m' = asrCount m
      \<and> ASR_compute cfg m' = ASR_compute cfg m \<and> (\<forall>i. asr_weight m' i \<noteq> 0 \<longrightarrow> i \<in> set ids)" if "0 < n" for n d
    using that inv fw_in_keys [of swCompressFactor "asrEvents m"]
    by (auto simp: ASR_Compress_def asr_inv_def evs_ok_single ASR_compute_def dest: fw_single)
qed

subsection \<open>The union\<close>

fun m_inv :: "stat_cfg \<Rightarrow> StatMetric \<Rightarrow> bool" where
  "m_inv cfg (MASR m) = (asr_inv cfg m)"
| "m_inv cfg (MACD m) = (dm_inv ACD_compute m)"
| "m_inv cfg (MTCD m) = (dm_inv TCD_compute m)"
| "m_inv cfg (MACC m) = (fm_inv (ACC_compute cfg) m)"
| "m_inv cfg (MTCC m) = (fm_inv (TCC_compute cfg) m)"
| "m_inv cfg (MPDD m) = (dm_inv PDD_compute m)"
| "m_inv cfg (MDDC m) = (vm_inv m)"
| "m_inv cfg (MSum m) = (fm_inv (Sum_compute cfg) m)"
| "m_inv cfg (MAverage m) = (fm_inv (Average_compute cfg) m)"
| "m_inv cfg (MDistinct m) = (vm_inv m)"

fun m_weight :: "StatMetric \<Rightarrow> string \<Rightarrow> int" where
  "m_weight (MASR m) = asr_weight m"
| "m_weight (MACD m) = dm_weight m"
| "m_weight (MTCD m) = dm_weight m"
| "m_weight (MACC m) = fm_weight m"
| "m_weight (MTCC m) = fm_weight m"
| "m_weight (MPDD m) = dm_weight m"
| "m_weight (MDDC m) = vm_weight m"
| "m_weight (MSum m) = fm_weight m"
| "m_weight (MAverage m) = fm_weight m"
| "m_weight (MDistinct m) = vm_weight m"

fun m_count :: "StatMetric \<Rightarrow> int" where
  "m_count (MASR m) = asrCount m"
| "m_count (MACD m) = dmCount m"
| "m_count (MTCD m) = dmCount m"
| "m_count (MACC m) = fmCount m"
| "m_count (MTCC m) = fmCount m"
| "m_count (MPDD m) = dmCount m"
| "m_count (MDDC m) = vmCount m"
| "m_count (MSum m) = fmCount m"
| "m_count (MAverage m) = fmCount m"
| "m_count (MDistinct m) = vmCount m"

fun m_val :: "stat_cfg \<Rightarrow> StatMetric \<Rightarrow> float64" where
  "m_val cfg (MASR m) = ASR_compute cfg m"
| "m_val cfg (MACD m) = dur_value (ACD_compute m)"
| "m_val cfg (MTCD m) = dur_value (TCD_compute m)"
| "m_val cfg (MACC m) = ACC_compute cfg m"
| "m_val cfg (MTCC m) = TCC_compute cfg m"
| "m_val cfg (MPDD m) = dur_value (PDD_compute m)"
| "m_val cfg (MDDC m) = DDC_getValue m"
| "m_val cfg (MSum m) = Sum_compute cfg m"
| "m_val cfg (MAverage m) = Average_compute cfg m"
| "m_val cfg (MDistinct m) = Distinct_getValue m"

lemma map_sum_Inr: "map_sum id C x = Inr y \<longleftrightarrow> (\<exists>z. x = Inr z \<and> y = C z)"
  by (cases x) auto

lemma map_prod_eq: "map_prod f g p = (a, b) \<longleftrightarrow> (\<exists>x y. p = (x, y) \<and> a = f x \<and> b = g y)"
  by (cases p) auto

lemmas factor_defs = ACD_GetCompressFactor_def TCD_GetCompressFactor_def PDD_GetCompressFactor_def
  ACC_GetCompressFactor_def TCC_GetCompressFactor_def Sum_GetCompressFactor_def
  Average_GetCompressFactor_def DDC_GetCompressFactor_def Distinct_GetCompressFactor_def

lemmas value_defs = DDC_GetFloat64Value_def Distinct_GetFloat64Value_def DDC_RemEvent_def
  Distinct_RemEvent_def DDC_Compress_def Distinct_Compress_def

lemma m_rem_in:
  assumes "m_inv cfg m" and "m_weight m i \<noteq> 0" and "RemEvent i m = (m', e)"
  shows "e = None \<and> m_inv cfg m' \<and> m_count m' = m_count m - 1
    \<and> m_weight m' = (m_weight m)(i := m_weight m i - 1)"
proof (cases m)
  case (MASR x)
  with assms(3) obtain y where y: "ASR_RemEvent i x = (y, e)" "m' = MASR y" by (auto simp: map_prod_eq value_defs)
  with assms(1) assms(2) MASR asr.rem_in [OF _ _ y(1)] show ?thesis by simp
next
  case (MACD x)
  with assms(3) obtain y where y: "ACD_RemEvent i x = (y, e)" "m' = MACD y" by (auto simp: map_prod_eq value_defs)
  with assms(1) assms(2) MACD acd.rem_in [OF _ _ y(1)] show ?thesis by simp
next
  case (MTCD x)
  with assms(3) obtain y where y: "TCD_RemEvent i x = (y, e)" "m' = MTCD y" by (auto simp: map_prod_eq value_defs)
  with assms(1) assms(2) MTCD tcd.rem_in [OF _ _ y(1)] show ?thesis by simp
next
  case (MACC x)
  with assms(3) obtain y where y: "ACC_RemEvent i x = (y, e)" "m' = MACC y" by (auto simp: map_prod_eq value_defs)
  with assms(1) assms(2) MACC acc.rem_in [OF _ _ y(1)] show ?thesis by simp
next
  case (MTCC x)
  with assms(3) obtain y where y: "TCC_RemEvent i x = (y, e)" "m' = MTCC y" by (auto simp: map_prod_eq value_defs)
  with assms(1) assms(2) MTCC tcc.rem_in [OF _ _ y(1)] show ?thesis by simp
next
  case (MPDD x)
  with assms(3) obtain y where y: "PDD_RemEvent i x = (y, e)" "m' = MPDD y" by (auto simp: map_prod_eq value_defs)
  with assms(1) assms(2) MPDD pdd.rem_in [OF _ _ y(1)] show ?thesis by simp
next
  case (MDDC x)
  with assms(3) obtain y where y: "values_rem i x = (y, e)" "m' = MDDC y" by (auto simp: map_prod_eq value_defs)
  with assms(1) assms(2) MDDC ddc.rem_in [OF _ _ y(1)] show ?thesis by simp
next
  case (MSum x)
  with assms(3) obtain y where y: "Sum_RemEvent i x = (y, e)" "m' = MSum y" by (auto simp: map_prod_eq value_defs)
  with assms(1) assms(2) MSum sm.rem_in [OF _ _ y(1)] show ?thesis by simp
next
  case (MAverage x)
  with assms(3) obtain y where y: "Average_RemEvent i x = (y, e)" "m' = MAverage y" by (auto simp: map_prod_eq value_defs)
  with assms(1) assms(2) MAverage avg.rem_in [OF _ _ y(1)] show ?thesis by simp
next
  case (MDistinct x)
  with assms(3) obtain y where y: "values_rem i x = (y, e)" "m' = MDistinct y" by (auto simp: map_prod_eq value_defs)
  with assms(1) assms(2) MDistinct dst.rem_in [OF _ _ y(1)] show ?thesis by simp
qed

lemma m_rem_out:
  assumes "m_inv cfg m" and "m_weight m i = 0" and "RemEvent i m = (m', e)"
  shows "e = Some ErrNotFound \<and> m_inv cfg m' \<and> m_count m' = m_count m
    \<and> m_weight m' = m_weight m \<and> m_val cfg m' = m_val cfg m"
proof (cases m)
  case (MASR x)
  with assms(3) obtain y where y: "ASR_RemEvent i x = (y, e)" "m' = MASR y" by (auto simp: map_prod_eq value_defs)
  with assms(1) assms(2) MASR asr.rem_out [OF _ _ y(1)] show ?thesis by simp
next
  case (MACD x)
  with assms(3) obtain y where y: "ACD_RemEvent i x = (y, e)" "m' = MACD y" by (auto simp: map_prod_eq value_defs)
  with assms(1) assms(2) MACD acd.rem_out [OF _ _ y(1)] show ?thesis by simp
next
  case (MTCD x)
  with assms(3) obtain y where y: "TCD_RemEvent i x = (y, e)" "m' = MTCD y" by (auto simp: map_prod_eq value_defs)
  with assms(1) assms(2) MTCD tcd.rem_out [OF _ _ y(1)] show ?thesis by simp
next
  case (MACC x)
  with assms(3) obtain y where y: "ACC_RemEvent i x = (y, e)" "m' = MACC y" by (auto simp: map_prod_eq value_defs)
  with assms(1) assms(2) MACC acc.rem_out [OF _ _ y(1)] show ?thesis by simp
next
  case (MTCC x)
  with assms(3) obtain y where y: "TCC_RemEvent i x = (y, e)" "m' = MTCC y" by (auto simp: map_prod_eq value_defs)
  with assms(1) assms(2) MTCC tcc.rem_out [OF _ _ y(1)] show ?thesis by simp
next
  case (MPDD x)
  with assms(3) obtain y where y: "PDD_RemEvent i x = (y, e)" "m' = MPDD y" by (auto simp: map_prod_eq value_defs)
  with assms(1) assms(2) MPDD pdd.rem_out [OF _ _ y(1)] show ?thesis by simp
next
  case (MDDC x)
  with assms(3) obtain y where y: "values_rem i x = (y, e)" "m' = MDDC y" by (auto simp: map_prod_eq value_defs)
  with assms(1) assms(2) MDDC ddc.rem_out [OF _ _ y(1)] show ?thesis by simp
next
  case (MSum x)
  with assms(3) obtain y where y: "Sum_RemEvent i x = (y, e)" "m' = MSum y" by (auto simp: map_prod_eq value_defs)
  with assms(1) assms(2) MSum sm.rem_out [OF _ _ y(1)] show ?thesis by simp
next
  case (MAverage x)
  with assms(3) obtain y where y: "Average_RemEvent i x = (y, e)" "m' = MAverage y" by (auto simp: map_prod_eq value_defs)
  with assms(1) assms(2) MAverage avg.rem_out [OF _ _ y(1)] show ?thesis by simp
next
  case (MDistinct x)
  with assms(3) obtain y where y: "values_rem i x = (y, e)" "m' = MDistinct y" by (auto simp: map_prod_eq value_defs)
  with assms(1) assms(2) MDistinct dst.rem_out [OF _ _ y(1)] show ?thesis by simp
qed

lemma m_compress:
  assumes "m_inv cfg m" and "0 < n"
  shows "\<exists>m' ids. Compress cfg n d m = Inr (m', ids) \<and> m_inv cfg m' \<and> m_count m' = m_count m
    \<and> m_val cfg m' = m_val cfg m \<and> (\<forall>i. m_weight m' i \<noteq> 0 \<longrightarrow> i \<in> set ids)"
proof (cases m)
  case (MASR x)
  with assms asr.compress_law [where m = x and n = n and d = d] show ?thesis by (fastforce simp: value_defs)
next
  case (MACD x)
  with assms acd.compress_law [where m = x and n = n and d = d] show ?thesis by (fastforce simp: value_defs)
next
  case (MTCD x)
  with assms tcd.compress_law [where m = x and n = n and d = d] show ?thesis by (fastforce simp: value_defs)
next
  case (MACC x)
  with assms acc.compress_law [where m = x and n = n and d = d] show ?thesis by (fastforce simp: value_defs)
next
  case (MTCC x)
  with assms tcc.compress_law [where m = x and n = n and d = d] show ?thesis by (fastforce simp: value_defs)
next
  case (MPDD x)
  with assms pdd.compress_law [where m = x and n = n and d = d] show ?thesis by (fastforce simp: value_defs)
next
  case (MDDC x)
  with assms ddc.compress_law [where m = x and n = n] show ?thesis by (fastforce simp: value_defs)
next
  case (MSum x)
  with assms sm.compress_law [where m = x and n = n and d = d] show ?thesis by (fastforce simp: value_defs)
next
  case (MAverage x)
  with assms avg.compress_law [where m = x and n = n and d = d] show ?thesis by (fastforce simp: value_defs)
next
  case (MDistinct x)
  with assms dst.compress_law [where m = x and n = n] show ?thesis by (fastforce simp: value_defs)
qed

lemma m_factors:
  assumes "m_inv cfg m" and "facs_ok evs"
  shows "facs_ok (GetCompressFactor m evs)
    \<and> (\<forall>i. facs (GetCompressFactor m evs) i = max (facs evs i) (m_weight m i))"
proof (cases m)
  case (MASR x)
  with assms(1) asr.factors_law [OF _ assms(2), where m = x] show ?thesis by (simp add: factor_defs)
next
  case (MACD x)
  with assms(1) acd.factors_law [OF _ assms(2), where m = x] show ?thesis by (simp add: factor_defs)
next
  case (MTCD x)
  with assms(1) tcd.factors_law [OF _ assms(2), where m = x] show ?thesis by (simp add: factor_defs)
next
  case (MACC x)
  with assms(1) acc.factors_law [OF _ assms(2), where m = x] show ?thesis by (simp add: factor_defs)
next
  case (MTCC x)
  with assms(1) tcc.factors_law [OF _ assms(2), where m = x] show ?thesis by (simp add: factor_defs)
next
  case (MPDD x)
  with assms(1) pdd.factors_law [OF _ assms(2), where m = x] show ?thesis by (simp add: factor_defs)
next
  case (MDDC x)
  with assms(1) ddc.factors_law [OF _ assms(2), where m = x] show ?thesis by (simp add: factor_defs)
next
  case (MSum x)
  with assms(1) sm.factors_law [OF _ assms(2), where m = x] show ?thesis by (simp add: factor_defs)
next
  case (MAverage x)
  with assms(1) avg.factors_law [OF _ assms(2), where m = x] show ?thesis by (simp add: factor_defs)
next
  case (MDistinct x)
  with assms(1) dst.factors_law [OF _ assms(2), where m = x] show ?thesis by (simp add: factor_defs)
qed

interpretation mt: stat_metric "m_inv cfg" m_weight m_count "m_val cfg" "GetFloat64Value cfg"
  "AddEvent cfg" RemEvent "Compress cfg" GetCompressFactor for cfg
proof
  fix m :: StatMetric and i
  assume inv: "m_inv cfg m"
  show "0 \<le> m_weight m i"
    using inv by (cases m) (simp_all add: 
        asr.weight_nonneg acd.weight_nonneg tcd.weight_nonneg 
        acc.weight_nonneg tcc.weight_nonneg pdd.weight_nonneg 
        ddc.weight_nonneg sm.weight_nonneg avg.weight_nonneg dst.weight_nonneg)
  show "m_weight m i \<le> m_count m"
    using inv by (cases m) (simp_all add: 
        asr.weight_le_count acd.weight_le_count tcd.weight_le_count 
        acc.weight_le_count tcc.weight_le_count pdd.weight_le_count 
        ddc.weight_le_count sm.weight_le_count avg.weight_le_count dst.weight_le_count)
  show "m_count m = 0 \<longleftrightarrow> (\<forall>i. m_weight m i = 0)"
    using inv by (cases m) (simp_all add: 
        asr.count_zero acd.count_zero tcd.count_zero 
        acc.count_zero tcc.count_zero pdd.count_zero 
        ddc.count_zero sm.count_zero avg.count_zero dst.count_zero)
  show "v = m_val cfg m \<and> m_inv cfg m' \<and> m_val cfg m' = m_val cfg m
      \<and> m_weight m' = m_weight m \<and> m_count m' = m_count m" if "GetFloat64Value cfg m = (v, m')" for v m'
    using inv that
    by (cases m) (auto simp: map_prod_eq value_defs dest: 
        asr.get_law acd.get_law tcd.get_law 
        acc.get_law tcc.get_law pdd.get_law 
        sm.get_law avg.get_law)
  show "m_inv cfg m' \<and> m_count m' = m_count m + 1
      \<and> m_weight m' = (m_weight m)(evID ev := m_weight m (evID ev) + 1)"
    if "AddEvent cfg ev m = Inr m'" for ev m'
    using inv that
    by (cases m) (auto simp: map_sum_Inr dest: 
        asr.add_law acd.add_law tcd.add_law 
        acc.add_law tcc.add_law pdd.add_law 
        ddc.add_law sm.add_law avg.add_law dst.add_law)
  show "e = None \<and> m_inv cfg m' \<and> m_count m' = m_count m - 1
      \<and> m_weight m' = (m_weight m)(i := m_weight m i - 1)"
    if "m_weight m i \<noteq> 0" "RemEvent i m = (m', e)" for m' e
    using m_rem_in [OF inv that] .
  show "e = Some ErrNotFound \<and> m_inv cfg m' \<and> m_count m' = m_count m
      \<and> m_weight m' = m_weight m \<and> m_val cfg m' = m_val cfg m"
    if "m_weight m i = 0" "RemEvent i m = (m', e)" for m' e
    using m_rem_out [OF inv that] .
  show "\<exists>m' ids. Compress cfg n d m = Inr (m', ids) \<and> m_inv cfg m' \<and> m_count m' = m_count m
      \<and> m_val cfg m' = m_val cfg m \<and> (\<forall>i. m_weight m' i \<noteq> 0 \<longrightarrow> i \<in> set ids)" if "0 < n" for n d
    using m_compress [OF inv that] .
  show "facs_ok (GetCompressFactor m evs)
      \<and> (\<forall>i. facs (GetCompressFactor m evs) i = max (facs evs i) (m_weight m i))" if "facs_ok evs" for evs
    using m_factors [OF inv that] .
qed

subsection \<open>Properties\<close>

text \<open>The metrics a queue can hold: made by \<^verbatim>\<open>NewStatMetric\<close> and changed by the methods of the
  interface only.\<close>

inductive m_reach :: "stat_cfg \<Rightarrow> StatMetric \<Rightarrow> bool" for cfg where
  mr_new: "NewStatMetric metricID minItems filterIDs = Inr m \<Longrightarrow> m_reach cfg m"
| mr_add: "m_reach cfg m \<Longrightarrow> AddEvent cfg ev m = Inr m' \<Longrightarrow> m_reach cfg m'"
| mr_rem: "m_reach cfg m \<Longrightarrow> RemEvent i m = (m', e) \<Longrightarrow> m_reach cfg m'"
| mr_get: "m_reach cfg m \<Longrightarrow> GetFloat64Value cfg m = (v, m') \<Longrightarrow> m_reach cfg m'"
| mr_compress: "m_reach cfg m \<Longrightarrow> 0 < n \<Longrightarrow> Compress cfg n d m = Inr (m', ids) \<Longrightarrow> m_reach cfg m'"

lemma NewStatMetric_inv: "NewStatMetric metricID minItems filterIDs = Inr m \<Longrightarrow> m_inv cfg m"
  by (auto simp: NewStatMetric_def Let_def NewASR_def NewACD_def NewTCD_def NewACC_def NewTCC_def
      NewPDD_def NewDDC_def NewStatSum_def NewStatAverage_def NewStatDistinct_def asr_inv_def dm_inv_def
      fm_inv_def vm_inv_def evs_ok_def inner_def split: if_splits)

lemma m_reach_inv: "m_reach cfg m \<Longrightarrow> m_inv cfg m"
proof (induction rule: m_reach.induct)
  case (mr_new metricID minItems filterIDs m)
  then show ?case by (rule NewStatMetric_inv)
next
  case (mr_compress m n d m' ids)
  then show ?case using mt.compress_law [OF mr_compress.IH, of n d] by auto
qed (auto dest: mt.add_law mt.rem_weight mt.get_law)

definition sx_lib :: golib where
  "sx_lib = \<lparr>ParseFloat = \<lambda>_. Inl (ErrMsg []), ParseInt = \<lambda>_. Inl (ErrMsg []),
     ParseBool = \<lambda>_. Inl (ErrMsg []), ParseDuration = \<lambda>_. Inl (ErrMsg []),
     ParseTimeDetectLayout = \<lambda>_ _. Inl (ErrMsg []), FormatInt = \<lambda>_. [], FormatFloat = \<lambda>_. [],
     Sprintf_v = \<lambda>_. [], Duration_String = \<lambda>_. [], Time_Format = \<lambda>_. [], ToJSON = \<lambda>_. []\<rparr>"

definition sx_cfg :: stat_cfg where
  "sx_cfg = \<lparr>scLib = sx_lib, RoundingDecimals = 5, DefaultTimezone = ''Local''\<rparr>"

definition sx_ev :: "string \<Rightarrow> CGREvent" where
  "sx_ev i = \<lparr>evTenant = ''cgrates.org'', evID = i, evTime = None,
     evEvent = [(''Usage'', IDuration 5), (''Cost'', IFloat64 (Fin 2))]\<rparr>"

definition sx_tcd :: StatMetric where
  "sx_tcd = MTCD (NewTCD 1 [] [])"

lemma reach_sx_tcd: "m_reach sx_cfg sx_tcd"
  by (rule mr_new [of "''*tcd''" 1 "[]"]) (simp add: sx_tcd_def NewStatMetric_def SplitConcatenatedKey_def)

text \<open>Claim C29. Every metric that \<^verbatim>\<open>NewStatMetric\<close> makes and the interface changes reports the value
  its fields give, cached or not, its counter bounds the events filed under each id and is zero
  exactly when it holds none.\<close>

theorem metric_value_fresh:
  assumes "m_reach cfg m"
  shows "fst (GetFloat64Value cfg m) = m_val cfg m
    \<and> (\<forall>i. 0 \<le> m_weight m i \<and> m_weight m i \<le> m_count m) \<and> (m_count m = 0 \<longleftrightarrow> (\<forall>i. m_weight m i = 0))"
  using m_reach_inv [OF assms] mt.get_law mt.weight_nonneg mt.weight_le_count mt.count_zero
  by (metis prod.collapse)

theorem metric_value_fresh_witness:
  "fst (GetFloat64Value sx_cfg sx_tcd) = Fin (- 1) \<and> m_count sx_tcd = 0"
proof -
  have "m_val sx_cfg sx_tcd = Fin (- 1)"
    by (simp add: sx_tcd_def NewTCD_def TCD_compute_def dur_value_def)
  with metric_value_fresh [OF reach_sx_tcd] show ?thesis by (simp add: sx_tcd_def NewTCD_def)
qed

text \<open>Claim C30. For every metric, an event that was added can be removed by its id, which restores the
  counter and the weight of every event; an id it holds no event of is answered with not found and
  changes nothing but, for the metrics of distinct values, drops an empty entry.\<close>

theorem metric_add_remove:
  assumes "m_inv cfg m"
  shows "(AddEvent cfg ev m = Inr m1 \<longrightarrow> (\<exists>m2. RemEvent (evID ev) m1 = (m2, None)
      \<and> m_inv cfg m2 \<and> m_count m2 = m_count m \<and> m_weight m2 = m_weight m))
    \<and> (m_weight m i = 0 \<longrightarrow> (\<exists>m2. RemEvent i m = (m2, Some ErrNotFound)
      \<and> m_inv cfg m2 \<and> m_count m2 = m_count m \<and> m_weight m2 = m_weight m \<and> m_val cfg m2 = m_val cfg m))"
  using mt.add_rem [OF assms] mt.rem_out [OF assms] by (metis prod.collapse)

theorem metric_add_remove_witness:
  "\<exists>m1 m2. AddEvent sx_cfg (sx_ev ''e1'') sx_tcd = Inr m1 \<and> RemEvent ''e1'' m1 = (m2, None) \<and> m_count m2 = 0"
proof -
  obtain m1 where a: "AddEvent sx_cfg (sx_ev ''e1'') sx_tcd = Inr m1"
    by (simp add: sx_tcd_def TCD_AddEvent_def FieldAsDuration_def sx_ev_def)
  moreover have "evID (sx_ev ''e1'') = ''e1''" "m_count sx_tcd = 0" by (simp_all add: sx_ev_def sx_tcd_def NewTCD_def)
  ultimately show ?thesis using metric_add_remove [OF m_reach_inv [OF reach_sx_tcd], of "sx_ev ''e1''" m1 "[]"] by auto
qed

text \<open>While its events have different ids, the total call duration is the sum of the durations
  of the events it holds, as a 64 bit integer: adding and removing events keep it so, and it is the
  value returned once the minimum of items is reached.\<close>

theorem TCD_total_exact:
  assumes "dm_exact m" and "dm_inv TCD_compute m"
  shows "(TCD_AddEvent cfg ev m = Inr m1 \<longrightarrow> gget (dmEvents m) (evID ev) = None \<longrightarrow> dm_exact m1)
    \<and> dm_exact (fst (TCD_RemEvent i m))
    \<and> (0 < dmCount m \<and> dmMinItems m \<le> dmCount m \<longrightarrow>
        fst (TCD_getValue m) = wrap64 (gsum dwDuration (dmEvents m)))"
proof (intro conjI impI)
  show "dm_exact m1" if "TCD_AddEvent cfg ev m = Inr m1" "gget (dmEvents m) (evID ev) = None"
    by (rule tcd.exact_add [OF assms(1) that])
  show "dm_exact (fst (TCD_RemEvent i m))" using tcd.exact_rem [OF assms(1)] by (metis prod.collapse)
  show "fst (TCD_getValue m) = wrap64 (gsum dwDuration (dmEvents m))"
    if "0 < dmCount m \<and> dmMinItems m \<le> dmCount m"
    using that assms by (auto simp: TCD_getValue_def dm_inv_def dm_exact_def TCD_compute_def split: option.splits)
qed

theorem TCD_total_exact_witness:
  "\<exists>m1. TCD_AddEvent sx_cfg (sx_ev ''e1'') (NewTCD 1 [] []) = Inr m1 \<and> dm_exact m1 \<and> fst (TCD_getValue m1) = 5"
proof -
  let ?m = "NewTCD 1 [] []"
  have e: "dm_exact ?m" "dm_inv TCD_compute ?m"
    by (simp_all add: NewTCD_def dm_exact_def dm_inv_def evs_ok_def wrap64_def)
  obtain m1 where a: "TCD_AddEvent sx_cfg (sx_ev ''e1'') ?m = Inr m1" "dmCount m1 = 1" "dmMinItems m1 = 1"
    "gsum dwDuration (dmEvents m1) = 5"
    by (simp add: TCD_AddEvent_def FieldAsDuration_def sx_ev_def NewTCD_def dur_add_def)
  have x: "dm_exact m1" using TCD_total_exact [OF e, of sx_cfg "sx_ev ''e1''" m1] a(1) by (simp add: NewTCD_def)
  have "dm_inv TCD_compute m1" using tcd.add_law [OF e(2) a(1)] by blast
  from TCD_total_exact [OF x this] a x show ?thesis by (auto simp: wrap64_def)
qed

text \<open>The metrics of distinct values count them: with enough events \<^verbatim>\<open>DDC\<close> and
  \<^verbatim>\<open>Distinct\<close> return the number of different values filed under any of the events they hold, and
  adding and removing events keep the two maps they count with in step.\<close>

theorem distinct_values_counted:
  assumes "vm_inv (d :: StatDDC)" and "vm_inv (s :: StatDistinct)"
    and "0 < vmCount d" and "vmMinItems d \<le> vmCount d" and "0 < vmCount s" and "vmMinItems s \<le> vmCount s"
  shows "DDC_getValue d = float_of_int (int (card {x. \<exists>i. gget (inner (vmEvents d) i) x \<noteq> None}))
    \<and> Distinct_getValue s = float_of_int (int (card {x. \<exists>i. gget (inner (vmEvents s) i) x \<noteq> None}))
    \<and> (DDC_AddEvent cfg ev d = Inr d1 \<longrightarrow> vm_inv d1) \<and> vm_inv (fst (DDC_RemEvent i d))
    \<and> (Distinct_AddEvent cfg ev s = Inr s1 \<longrightarrow> vm_inv s1) \<and> vm_inv (fst (Distinct_RemEvent i s))"
proof -
  have "vm_inv (fst (DDC_RemEvent i d))" "vm_inv (fst (Distinct_RemEvent i s))"
    using ddc.rem_weight [OF assms(1)] dst.rem_weight [OF assms(2)]
    unfolding DDC_RemEvent_def Distinct_RemEvent_def by (metis prod.collapse)+
  then show ?thesis
    using assms ddc.add_law [OF assms(1), of cfg ev d1] dst.add_law [OF assms(2), of cfg ev s1]
    by (simp add: DDC_getValue_def Distinct_getValue_def vm_distinct_values)
qed

definition sx_ddc :: StatDDC where
  "sx_ddc = values_add ''e2'' ''1002'' (values_add ''e1'' ''1002'' (NewDDC 1 [] []))"

definition sx_dst :: StatDistinct where
  "sx_dst = values_add ''e2'' ''b'' (values_add ''e1'' ''a'' (NewStatDistinct 1 ''~*req.X'' []))"

theorem distinct_values_counted_witness:
  "DDC_getValue sx_ddc = Fin 1 \<and> card {x. \<exists>i. gget (inner (vmEvents sx_ddc) i) x \<noteq> None} = 1
    \<and> vm_inv (fst (DDC_RemEvent ''e1'' sx_ddc))"
proof -
  have new: "vm_inv (NewDDC 1 [] [])" "vm_inv (NewStatDistinct 1 ''~*req.X'' [])"
    by (simp_all add: vm_inv_def NewDDC_def NewStatDistinct_def inner_def)
  have d: "vm_inv sx_ddc" unfolding sx_ddc_def using values_add_inv [OF _ refl] new(1) by blast
  have s: "vm_inv sx_dst" unfolding sx_dst_def using values_add_inv [OF _ refl] new(2) by blast
  have v: "DDC_getValue sx_ddc = Fin 1" "vmCount sx_ddc = 2" "vmMinItems sx_ddc = 1"
    "vmCount sx_dst = 2" "vmMinItems sx_dst = 1" by code_simp+
  have "length (vmFieldValues sx_ddc) = 1" by code_simp
  with vm_distinct_values [OF d] v distinct_values_counted [OF d s, where i = "''e1''"] show ?thesis by simp
qed

text \<open>The average of a field forgets to take negative values off its sum: removing an event
  with a negative value leaves the value in the sum while the counter goes down.\<close>

theorem average_keeps_removed_negative:
  assumes "gget (fmEvents avg) (evID ev) = None" and "is_req_field (fmFieldName avg)"
    and "FieldAsFloat64 (scLib cfg) ev (drop 6 (fmFieldName avg)) = Inr v" and "fless v (Fin 0)"
    and "Average_AddEvent cfg ev avg = Inr avg1"
  shows "fmSum (fst (Average_RemEvent (evID ev) avg1)) = fadd (fmSum avg) v
    \<and> fmCount (fst (Average_RemEvent (evID ev) avg1)) = fmCount avg
    \<and> fmEvents (fst (Average_RemEvent (evID ev) avg1)) = fmEvents avg"
proof -
  have "\<not> fleq (Fin 0) v" using assms(4) by (cases v) (auto simp: fleq_def feq_def)
  moreover have "avg1 = avg\<lparr>fmSum := fadd (fmSum avg) v,
      fmEvents := fmEvents avg @ [(evID ev, \<lparr>swStat = v, swCompressFactor = 1\<rparr>)],
      fmCount := fmCount avg + 1, fmval := None\<rparr>"
    using assms(1,2,3,5) by (simp add: Average_AddEvent_def Let_def stat_add_def gset_new)
  moreover have "gget (fmEvents avg @ [(evID ev, x)]) (evID ev) = Some x" for x
    using assms(1) by (simp add: map_add_def)
  ultimately show ?thesis using assms(1) by (simp add: Average_RemEvent_def stat_drop_def gdel_snoc)
qed

theorem average_keeps_removed_negative_witness:
  "let ev = \<lparr>evTenant = ''cgrates.org'', evID = ''e1'', evTime = None,
             evEvent = [(''X'', IFloat64 (Fin (- 5)))]\<rparr>;
       avg = NewStatAverage 1 ''~*req.X'' []
   in \<exists>avg1. Average_AddEvent sx_cfg ev avg = Inr avg1
      \<and> fmSum (fst (Average_RemEvent ''e1'' avg1)) = Fin (- 5)
      \<and> fmCount (fst (Average_RemEvent ''e1'' avg1)) = 0"
proof -
  let ?ev = "\<lparr>evTenant = ''cgrates.org'', evID = ''e1'', evTime = None,
             evEvent = [(''X'', IFloat64 (Fin (- 5)))]\<rparr>"
  let ?avg = "NewStatAverage 1 ''~*req.X'' []"
  have h: "gget (fmEvents ?avg) (evID ?ev) = None" "is_req_field (fmFieldName ?avg)"
    "FieldAsFloat64 (scLib sx_cfg) ?ev (drop 6 (fmFieldName ?avg)) = Inr (Fin (- 5))"
    "fless (Fin (- 5)) (Fin 0)" "fadd (fmSum ?avg) (Fin (- 5)) = Fin (- 5)" "fmCount ?avg = 0"
    by code_simp+
  obtain avg1 where a: "Average_AddEvent sx_cfg ?ev ?avg = Inr avg1"
    using h(2,3) by (simp add: Average_AddEvent_def Let_def)
  from average_keeps_removed_negative [OF h(1-4) a] h(5,6) a show ?thesis by (simp add: Let_def)
qed

end
