(* ===== verification/Stat_Queue.thy ===== *)
theory Stat_Queue
  imports Stat_Laws
begin

text \<open>
  \<^verbatim>\<open>engine/libstats.go\<close>: a statistics queue, the events of which are the items of a list and
  whose metrics are the ones of \<open>Stat_Metrics\<close>.

  The map of the metrics is ranged over in the order of the model's list. The filter service
  is a parameter (\<open>pass\<close>), the marshaler of the stored form a pair of functions. A method
  takes the instant \<open>now\<close>. An error returns together with the queue as the code leaves it.

  The lemmas rest on the contract \<open>stat_metric\<close> only. The invariant \<open>sq_inv\<close> says that no
  metric accounts for more events of an id than the queue has items with it, so that removing
  the items also empties the metrics; processing an event keeps it, with any outcome, and
  compressing, storing, loading and expanding a queue restores it.
\<close>

subsection \<open>Data\<close>

record MetricWithFilters =
  mwfFilterIDs :: "string list"
  mwfMetricID :: string

record StatQueueProfile =
  sqpTenant :: string
  sqpID :: string
  sqpFilterIDs :: "string list"
  sqpActivationInterval :: "ActivationInterval option"
  sqpQueueLength :: int
  sqpTTL :: duration
  sqpMinItems :: int
  sqpMetrics :: "MetricWithFilters list"
  sqpStored :: bool
  sqpBlocker :: bool
  sqpWeight :: float64
  sqpThresholdIDs :: "string list"

definition StatQueueProfile_TenantID :: "StatQueueProfile \<Rightarrow> string" where
  "StatQueueProfile_TenantID sqp = ConcatenatedKey [sqpTenant sqp, sqpID sqp]"

record SQItem =
  sqiEventID :: string
  sqiExpiryTime :: "gotime option"

record StatQueue =
  sqTenant :: string
  sqID :: string
  SQItems :: "SQItem list"
  SQMetrics :: "(string, StatMetric) gmap"
  sqMinItems :: int
  sqPrfl :: "StatQueueProfile option"
  sqdirty :: "bool option"
  sqttl :: "duration option"

definition StatQueue_TenantID :: "StatQueue \<Rightarrow> string" where
  "StatQueue_TenantID sq = ConcatenatedKey [sqTenant sq, sqID sq]"

subsection \<open>Processing an event\<close>

fun rem_metrics ::
  "string \<Rightarrow> (string, StatMetric) gmap \<Rightarrow> (string, StatMetric) gmap \<times> error option" where
  "rem_metrics evID' [] = ([], None)"
| "rem_metrics evID' ((metricID, metric) # ms) =
     (case RemEvent evID' metric of
        (metric', Some e) \<Rightarrow>
          if Error e = Error ErrNotFound then
            (case rem_metrics evID' ms of (ms', err) \<Rightarrow> ((metricID, metric') # ms', err))
          else ((metricID, metric') # ms, Some e)
      | (metric', None) \<Rightarrow>
          (case rem_metrics evID' ms of (ms', err) \<Rightarrow> ((metricID, metric') # ms', err)))"

definition remEventWithID :: "string \<Rightarrow> StatQueue \<Rightarrow> StatQueue \<times> error option" where
  "remEventWithID evID' sq =
     (case rem_metrics evID' (SQMetrics sq) of (ms, err) \<Rightarrow> (sq\<lparr>SQMetrics := ms\<rparr>, err))"

text \<open>The loop over the items: how many were expired, and the error that ended it.\<close>

fun remExpired_loop ::
  "gotime \<Rightarrow> SQItem list \<Rightarrow> StatQueue \<Rightarrow> StatQueue \<times> nat \<times> error option" where
  "remExpired_loop now [] sq = (sq, 0, None)"
| "remExpired_loop now (item # items) sq =
     (case sqiExpiryTime item of
        None \<Rightarrow> (sq, 0, None)
      | Some t \<Rightarrow>
          if t > now then (sq, 0, None)
          else case remEventWithID (sqiEventID item) sq of
                 (sq', Some e) \<Rightarrow> (sq', 0, Some e)
               | (sq', None) \<Rightarrow>
                   (case remExpired_loop now items sq' of (sq'', n, err) \<Rightarrow> (sq'', Suc n, err)))"

definition remExpired :: "gotime \<Rightarrow> StatQueue \<Rightarrow> StatQueue \<times> error option" where
  "remExpired now sq =
     (case remExpired_loop now (SQItems sq) sq of
        (sq', _, Some e) \<Rightarrow> (sq', Some e)
      | (sq', n, None) \<Rightarrow> (sq'\<lparr>SQItems := drop n (SQItems sq')\<rparr>, None))"

definition remOnQueueLength :: "StatQueue \<Rightarrow> StatQueue \<times> error option" where
  "remOnQueueLength sq =
     (case sqPrfl sq of
        None \<Rightarrow> (sq, Some (Panic ''nil pointer dereference''))
      | Some prfl \<Rightarrow>
          if sqpQueueLength prfl \<le> 0 then (sq, None)
          else if int (length (SQItems sq)) = sqpQueueLength prfl then
            (case SQItems sq of
               [] \<Rightarrow> (sq, Some (Panic ''index out of range''))
             | item # items \<Rightarrow>
                 (case remEventWithID (sqiEventID item) sq of
                    (sq', Some e) \<Rightarrow> (sq', Some e)
                  | (sq', None) \<Rightarrow> (sq'\<lparr>SQItems := items\<rparr>, None)))
          else (sq, None))"

fun add_metrics ::
  "stat_cfg \<Rightarrow> (string list \<Rightarrow> error + bool) \<Rightarrow> CGREvent \<Rightarrow> (string, StatMetric) gmap \<Rightarrow>
   (string, StatMetric) gmap \<times> error option" where
  "add_metrics cfg pass ev [] = ([], None)"
| "add_metrics cfg pass ev ((metricID, metric) # ms) =
     (case pass (GetFilterIDs metric) of
        Inl e \<Rightarrow> ((metricID, metric) # ms, Some e)
      | Inr b \<Rightarrow>
          if \<not> b then
            (case add_metrics cfg pass ev ms of (ms', err) \<Rightarrow> ((metricID, metric) # ms', err))
          else case AddEvent cfg ev metric of
                 Inl e \<Rightarrow> ((metricID, metric) # ms, Some e)
               | Inr metric' \<Rightarrow>
                   (case add_metrics cfg pass ev ms of (ms', err) \<Rightarrow> ((metricID, metric') # ms', err)))"

type_synonym filters = "string \<Rightarrow> string list \<Rightarrow> (string, iface) gmap \<Rightarrow> error + bool"

definition addStatEvent ::
  "stat_cfg \<Rightarrow> filters \<Rightarrow> gotime \<Rightarrow> CGREvent \<Rightarrow> StatQueue \<Rightarrow> StatQueue \<times> error option" where
  "addStatEvent cfg pass now ev sq =
     (let expTime = map_option (\<lambda>ttl. time_Add now ttl) (sqttl sq);
          items = SQItems sq @ [\<lparr>sqiEventID = evID ev, sqiExpiryTime = expTime\<rparr>]
      in case add_metrics cfg (\<lambda>fs. pass (evTenant ev) fs (evEvent ev)) ev (SQMetrics sq) of
           (ms, err) \<Rightarrow> (sq\<lparr>SQItems := items, SQMetrics := ms\<rparr>, err))"

definition ProcessEvent ::
  "stat_cfg \<Rightarrow> filters \<Rightarrow> gotime \<Rightarrow> CGREvent \<Rightarrow> StatQueue \<Rightarrow> StatQueue \<times> error option" where
  "ProcessEvent cfg pass now ev sq =
     (case remExpired now sq of
        (sq1, Some e) \<Rightarrow> (sq1, Some e)
      | (sq1, None) \<Rightarrow>
          (case remOnQueueLength sq1 of
             (sq2, Some e) \<Rightarrow> (sq2, Some e)
           | (sq2, None) \<Rightarrow> addStatEvent cfg pass now ev sq2))"

subsection \<open>Compressing and expanding\<close>

fun compress_metrics ::
  "stat_cfg \<Rightarrow> int \<Rightarrow> string \<Rightarrow> (string, StatMetric) gmap \<Rightarrow> StringSet \<Rightarrow>
   error + ((string, StatMetric) gmap \<times> StringSet)" where
  "compress_metrics cfg maxQL did [] idMap = Inr ([], idMap)"
| "compress_metrics cfg maxQL did ((metricID, m) # ms) idMap =
     (case Compress cfg maxQL did m of
        Inl e \<Rightarrow> Inl e
      | Inr (m', ids) \<Rightarrow>
          (case compress_metrics cfg maxQL did ms (StringSet_AddSlice idMap ids) of
             Inl e \<Rightarrow> Inl e
           | Inr (ms', idMap') \<Rightarrow> Inr ((metricID, m') # ms', idMap')))"

fun exp_before :: "gotime option \<Rightarrow> gotime option \<Rightarrow> bool" where
  "exp_before None _ = False"
| "exp_before (Some _) None = True"
| "exp_before (Some a) (Some b) = (a < b)"

definition StatQueue_Compress :: "stat_cfg \<Rightarrow> int \<Rightarrow> StatQueue \<Rightarrow> error + (StatQueue \<times> bool)" where
  "StatQueue_Compress cfg maxQL sq =
     (if int (length (SQItems sq)) < maxQL \<or> maxQL = 0 then Inr (sq, False)
      else if SQItems sq = [] then Inl (Panic ''index out of range'')
      else
        let defaultCompressID = sqiEventID (last (SQItems sq));
            defaultTTL = sqiExpiryTime (last (SQItems sq));
            sqMap = fold (\<lambda>itm m. gset m (sqiEventID itm) (sqiExpiryTime itm)) (SQItems sq) []
        in case compress_metrics cfg maxQL defaultCompressID (SQMetrics sq) [] of
             Inl e \<Rightarrow> Inl e
           | Inr (ms, idMap) \<Rightarrow>
               let newSQItems = map (\<lambda>k. \<lparr>sqiEventID = k,
                     sqiExpiryTime = (case gget sqMap k of Some ttl \<Rightarrow> ttl | None \<Rightarrow> defaultTTL)\<rparr>) (map fst idMap);
                   sorted = (if sqttl sq \<noteq> None
                     then sort_less (\<lambda>a b. exp_before (sqiExpiryTime a) (sqiExpiryTime b)) newSQItems
                     else newSQItems)
               in Inr (sq\<lparr>SQMetrics := ms, SQItems := sorted\<rparr>, True))"

definition factor_map :: "(string, StatMetric) gmap \<Rightarrow> (string, int) gmap" where
  "factor_map ms = fold (\<lambda>(_, m). GetCompressFactor m) ms []"

definition Expand :: "StatQueue \<Rightarrow> StatQueue" where
  "Expand sq =
     (let compressFactorMap = factor_map (SQMetrics sq)
      in sq\<lparr>SQItems := concat (map (\<lambda>sqi.
             case gget compressFactorMap (sqiEventID sqi) of
               None \<Rightarrow> [] | Some cf \<Rightarrow> replicate (nat cf) sqi) (SQItems sq))\<rparr>)"

definition StatQueues_Sort :: "StatQueue list \<Rightarrow> StatQueue list" where
  "StatQueues_Sort sqs =
     sort_less (\<lambda>a b. case (sqPrfl a, sqPrfl b) of
                        (Some pa, Some pb) \<Rightarrow> fless (sqpWeight pb) (sqpWeight pa)
                      | _ \<Rightarrow> False) sqs"

subsection \<open>The stored form\<close>

record 'b StoredStatQueue =
  ssqTenant :: string
  ssqID :: string
  ssqItems :: "SQItem list"
  ssqMetrics :: "(string, 'b) gmap"
  ssqMinItems :: int
  ssqCompressed :: bool

text \<open>\<open>Marshal\<close> and \<open>LoadMarshaled\<close> of a metric, over the marshaler the data base uses; the bytes it
  produces are opaque (\<open>'b\<close>).\<close>

record 'b marshaler =
  Marshal :: "StatMetric \<Rightarrow> error + 'b"
  LoadMarshaled :: "StatMetric \<Rightarrow> 'b \<Rightarrow> error + StatMetric"

definition SqID :: "'b StoredStatQueue \<Rightarrow> string" where
  "SqID ssq = ConcatenatedKey [ssqTenant ssq, ssqID ssq]"

fun marshal_all :: "'b marshaler \<Rightarrow> (string, StatMetric) gmap \<Rightarrow> error + (string, 'b) gmap" where
  "marshal_all ms [] = Inr []"
| "marshal_all ms ((metricID, metric) # rest) =
     (case Marshal ms metric of
        Inl e \<Rightarrow> Inl e
      | Inr s \<Rightarrow> (case marshal_all ms rest of Inl e \<Rightarrow> Inl e | Inr out \<Rightarrow> Inr ((metricID, s) # out)))"

text \<open>Storing compresses the queue itself: the compressed queue is returned beside the stored form.\<close>

definition NewStoredStatQueue ::
  "stat_cfg \<Rightarrow> int \<Rightarrow> 'b marshaler \<Rightarrow> StatQueue \<Rightarrow> error + (StatQueue \<times> 'b StoredStatQueue)" where
  "NewStoredStatQueue cfg storeUncompressedLimit ms sq =
     (case StatQueue_Compress cfg storeUncompressedLimit sq of
        Inl e \<Rightarrow> Inl e
      | Inr (sq', compressed) \<Rightarrow>
          (case marshal_all ms (SQMetrics sq') of
             Inl e \<Rightarrow> Inl e
           | Inr mm \<Rightarrow>
               Inr (sq', \<lparr>ssqTenant = sqTenant sq', ssqID = sqID sq', ssqItems = SQItems sq',
                          ssqMetrics = mm, ssqMinItems = sqMinItems sq', ssqCompressed = compressed\<rparr>)))"

fun load_all :: "'b marshaler \<Rightarrow> int \<Rightarrow> (string, 'b) gmap \<Rightarrow> error + (string, StatMetric) gmap" where
  "load_all ms minItems [] = Inr []"
| "load_all ms minItems ((metricID, marshaled) # rest) =
     (case NewStatMetric metricID minItems [] of
        Inl e \<Rightarrow> Inl e
      | Inr fresh \<Rightarrow>
          (case LoadMarshaled ms fresh marshaled of
             Inl e \<Rightarrow> Inl e
           | Inr metric \<Rightarrow>
               (case load_all ms minItems rest of
                  Inl e \<Rightarrow> Inl e | Inr out \<Rightarrow> Inr ((metricID, metric) # out))))"

definition AsStatQueue :: "'b marshaler \<Rightarrow> 'b StoredStatQueue \<Rightarrow> error + StatQueue" where
  "AsStatQueue ms ssq =
     (case load_all ms (ssqMinItems ssq) (ssqMetrics ssq) of
        Inl e \<Rightarrow> Inl e
      | Inr metrics \<Rightarrow>
          let sq = \<lparr>sqTenant = ssqTenant ssq, sqID = ssqID ssq, SQItems = ssqItems ssq,
                    SQMetrics = metrics, sqMinItems = ssqMinItems ssq, sqPrfl = None,
                    sqdirty = None, sqttl = None\<rparr>
          in Inr (if ssqCompressed ssq then Expand sq else sq))"

subsection \<open>The invariant\<close>

abbreviation ids_of :: "SQItem list \<Rightarrow> string list" where
  "ids_of items \<equiv> map sqiEventID items"

definition metrics_le :: "stat_cfg \<Rightarrow> (string, StatMetric) gmap \<Rightarrow> SQItem list \<Rightarrow> bool" where
  "metrics_le cfg ms items \<longleftrightarrow>
     (\<forall>m \<in> snd ` set ms. m_inv cfg m \<and> (\<forall>i. m_weight m i \<le> int (count_list (ids_of items) i)))"

definition sq_inv :: "stat_cfg \<Rightarrow> StatQueue \<Rightarrow> bool" where
  "sq_inv cfg sq \<longleftrightarrow> metrics_le cfg (SQMetrics sq) (SQItems sq)"

lemma metrics_le_Nil [simp]: "metrics_le cfg [] items"
  by (simp add: metrics_le_def)

lemma metrics_le_Cons [simp]:
  "metrics_le cfg ((k, m) # ms) items \<longleftrightarrow>
    m_inv cfg m \<and> (\<forall>i. m_weight m i \<le> int (count_list (ids_of items) i)) \<and> metrics_le cfg ms items"
  by (auto simp: metrics_le_def)

text \<open>Taking an item off the queue and its event off every metric.\<close>

lemma rem_metrics_le:
  assumes "metrics_le cfg ms (item # items)" and "rem_metrics (sqiEventID item) ms = (ms', err)"
  shows "err = None \<and> metrics_le cfg ms' items \<and> map fst ms' = map fst ms"
  using assms
proof (induction ms arbitrary: ms' err)
  case (Cons a ms)
  obtain k m where a: "a = (k, m)" by (cases a)
  obtain m1 e1 where r: "RemEvent (sqiEventID item) m = (m1, e1)" by (cases "RemEvent (sqiEventID item) m")
  obtain ms1 err1 where rec: "rem_metrics (sqiEventID item) ms = (ms1, err1)"
    by (cases "rem_metrics (sqiEventID item) ms")
  have inv: "m_inv cfg m" and w: "\<And>i. m_weight m i \<le> int (count_list (ids_of (item # items)) i)"
    using Cons.prems(1) a by simp_all
  note IH = Cons.IH [OF _ rec]
  note W = mt.rem_weight [OF inv r]
  have e: "e1 = None \<or> e1 = Some ErrNotFound" using mt.rem_error [OF inv] r by (cases e1) auto
  then have m': "ms' = (k, m1) # ms1" "err = err1" using Cons.prems(2) a r rec by auto
  have "m_weight m1 i \<le> int (count_list (ids_of items) i)" for i
    using w [of i] W by (auto split: if_splits)
  with IH W Cons.prems(1) a m' show ?case by simp
qed simp

abbreviation same_queue :: "StatQueue \<Rightarrow> StatQueue \<Rightarrow> bool" where
  "same_queue sq sq' \<equiv> SQItems sq' = SQItems sq \<and> sqPrfl sq' = sqPrfl sq \<and> sqttl sq' = sqttl sq"

lemma remEventWithID_le:
  assumes "metrics_le cfg (SQMetrics sq) (item # items)" and "remEventWithID (sqiEventID item) sq = (sq', err)"
  shows "err = None \<and> metrics_le cfg (SQMetrics sq') items
    \<and> same_queue sq sq' \<and> map fst (SQMetrics sq') = map fst (SQMetrics sq)"
  using assms(2) rem_metrics_le [OF assms(1)] by (auto simp: remEventWithID_def split: prod.splits)

definition expired :: "gotime \<Rightarrow> SQItem \<Rightarrow> bool" where
  "expired now item = (case sqiExpiryTime item of None \<Rightarrow> False | Some t \<Rightarrow> t \<le> now)"

lemma remExpired_loop_le:
  assumes "metrics_le cfg (SQMetrics sq) items" and "remExpired_loop now items sq = (sq', n, err)"
  shows "err = None \<and> n = length (takeWhile (expired now) items)
    \<and> metrics_le cfg (SQMetrics sq') (drop n items) \<and> same_queue sq sq'"
  using assms
proof (induction items arbitrary: sq sq' n err)
  case (Cons item items)
  show ?case
  proof (cases "expired now item")
    case True
    obtain sq1 e1 where r: "remEventWithID (sqiEventID item) sq = (sq1, e1)"
      by (cases "remEventWithID (sqiEventID item) sq")
    note R = remEventWithID_le [OF Cons.prems(1) r]
    obtain sq2 n2 e2 where rec: "remExpired_loop now items sq1 = (sq2, n2, e2)"
      by (cases "remExpired_loop now items sq1")
    have IH: "e2 = None \<and> n2 = length (takeWhile (expired now) items)
      \<and> metrics_le cfg (SQMetrics sq2) (drop n2 items) \<and> same_queue sq1 sq2"
      using Cons.IH [OF _ rec] R by blast
    have "sq' = sq2" "n = Suc n2" "err = e2"
      using Cons.prems(2) True r R rec by (auto simp: expired_def split: option.splits)
    then show ?thesis using IH R True by auto
  next
    case False
    then have "sq' = sq" "n = 0" "err = None"
      using Cons.prems(2) by (auto simp: expired_def split: option.splits if_splits)
    with False Cons.prems(1) show ?thesis by simp
  qed
qed simp

lemma remExpired_le:
  assumes "sq_inv cfg sq" and "remExpired now sq = (sq', err)"
  shows "err = None \<and> sq_inv cfg sq' \<and> SQItems sq' = dropWhile (expired now) (SQItems sq)
    \<and> sqPrfl sq' = sqPrfl sq \<and> sqttl sq' = sqttl sq"
proof -
  obtain sq1 n e where l: "remExpired_loop now (SQItems sq) sq = (sq1, n, e)"
    by (cases "remExpired_loop now (SQItems sq) sq")
  note L = remExpired_loop_le [OF assms(1) [unfolded sq_inv_def] l]
  with l assms(2) show ?thesis
    by (auto simp: remExpired_def sq_inv_def dropWhile_eq_drop)
qed

lemma remOnQueueLength_le:
  assumes "sq_inv cfg sq" and "remOnQueueLength sq = (sq', err)"
  shows "sq_inv cfg sq'"
    and "sqPrfl sq = Some p \<Longrightarrow> err = None \<and> SQItems sq' =
      (if 0 < sqpQueueLength p \<and> int (length (SQItems sq)) = sqpQueueLength p then tl (SQItems sq) else SQItems sq)"
    and "sqttl sq' = sqttl sq" and "sqPrfl sq' = sqPrfl sq"
proof -
  have "sq_inv cfg sq' \<and> sqttl sq' = sqttl sq \<and> sqPrfl sq' = sqPrfl sq
    \<and> (\<forall>p. sqPrfl sq = Some p \<longrightarrow> err = None \<and> SQItems sq' =
      (if 0 < sqpQueueLength p \<and> int (length (SQItems sq)) = sqpQueueLength p then tl (SQItems sq) else SQItems sq))"
  proof (cases "SQItems sq")
    case Nil
    with assms show ?thesis by (auto simp: remOnQueueLength_def split: option.splits if_splits)
  next
    case (Cons item items)
    obtain sq1 e1 where r: "remEventWithID (sqiEventID item) sq = (sq1, e1)"
      by (cases "remEventWithID (sqiEventID item) sq")
    have R: "e1 = None \<and> metrics_le cfg (SQMetrics sq1) items \<and> same_queue sq sq1"
      using remEventWithID_le [OF _ r] assms(1) Cons by (simp add: sq_inv_def)
    with assms r Cons show ?thesis
      by (auto simp: remOnQueueLength_def sq_inv_def split: option.splits if_splits)
  qed
  then show "sq_inv cfg sq'" "sqttl sq' = sqttl sq" "sqPrfl sq' = sqPrfl sq"
    "sqPrfl sq = Some p \<Longrightarrow> err = None \<and> SQItems sq' =
      (if 0 < sqpQueueLength p \<and> int (length (SQItems sq)) = sqpQueueLength p then tl (SQItems sq) else SQItems sq)"
    by blast+
qed

text \<open>Adding an event to the metrics that accept it.\<close>

lemma add_metrics_le:
  assumes "metrics_le cfg ms items" and "add_metrics cfg pass ev ms = (ms', err)"
    and "sqiEventID item = evID ev"
  shows "metrics_le cfg ms' (items @ [item])"
  using assms(1,2)
proof (induction ms arbitrary: ms' err)
  case (Cons a ms)
  obtain k m where a: "a = (k, m)" by (cases a)
  obtain ms1 e1 where rec: "add_metrics cfg pass ev ms = (ms1, e1)" by (cases "add_metrics cfg pass ev ms")
  have inv: "m_inv cfg m" and w: "\<And>i. m_weight m i \<le> int (count_list (ids_of items) i)"
    and rest: "metrics_le cfg ms items" using Cons.prems(1) a by simp_all
  have cnt: "count_list (ids_of items) i \<le> count_list (ids_of (items @ [item])) i" for i by simp
  have keep: "metrics_le cfg ms (items @ [item])"
    using rest cnt unfolding metrics_le_def by (meson of_nat_le_iff order_trans)
  have wk: "m_weight m i \<le> int (count_list (ids_of (items @ [item])) i)" for i
    using w [of i] cnt [of i] by linarith
  note IH = Cons.IH [OF rest rec]
  show ?case
  proof (cases "\<exists>m1. AddEvent cfg ev m = Inr m1 \<and> pass (GetFilterIDs m) = Inr True")
    case True
    then obtain m1 where m1: "AddEvent cfg ev m = Inr m1" "pass (GetFilterIDs m) = Inr True" by blast
    have A: "m_inv cfg m1" "m_weight m1 = (m_weight m)(evID ev := m_weight m (evID ev) + 1)"
      using mt.add_law [OF inv m1(1)] by blast+
    have "m_weight m1 i \<le> int (count_list (ids_of (items @ [item])) i)" for i
      using w [of i] A(2) assms(3) by auto
    then show ?thesis using Cons.prems(2) a m1 rec IH A(1) by auto
  next
    case False
    then have "ms' = a # ms \<or> ms' = a # ms1"
      using Cons.prems(2) a rec by (auto split: sum.splits if_splits)
    then show ?thesis using IH keep inv wk a by auto
  qed
qed simp

lemma addStatEvent_le:
  assumes "sq_inv cfg sq" and "addStatEvent cfg pass now ev sq = (sq', err)"
  shows "sq_inv cfg sq' \<and> length (SQItems sq') = Suc (length (SQItems sq))"
  using assms add_metrics_le [OF assms(1) [unfolded sq_inv_def]]
  by (auto simp: addStatEvent_def Let_def sq_inv_def split: prod.splits)

lemma ProcessEvent_le:
  assumes "sq_inv cfg sq"
  shows "sq_inv cfg (fst (ProcessEvent cfg pass now ev sq))"
proof -
  obtain sq1 e1 where r1: "remExpired now sq = (sq1, e1)" by (cases "remExpired now sq")
  obtain sq2 e2 where r2: "remOnQueueLength sq1 = (sq2, e2)" by (cases "remOnQueueLength sq1")
  obtain sq3 e3 where r3: "addStatEvent cfg pass now ev sq2 = (sq3, e3)"
    by (cases "addStatEvent cfg pass now ev sq2")
  have i1: "sq_inv cfg sq1" using remExpired_le [OF assms r1] by blast
  have i2: "sq_inv cfg sq2" by (rule remOnQueueLength_le(1) [OF i1 r2])
  have "sq_inv cfg sq3" using addStatEvent_le [OF i2 r3] by blast
  then show ?thesis using r1 r2 r3 i1 i2 by (simp add: ProcessEvent_def split: option.splits)
qed

lemma ProcessEvent_length:
  assumes "sq_inv cfg sq" and "sqPrfl sq = Some p"
  shows "length (SQItems (fst (ProcessEvent cfg pass now ev sq))) =
    (let n = length (dropWhile (expired now) (SQItems sq))
     in if 0 < sqpQueueLength p \<and> int n = sqpQueueLength p then n else Suc n)"
proof -
  obtain sq1 e1 where r1: "remExpired now sq = (sq1, e1)" by (cases "remExpired now sq")
  obtain sq2 e2 where r2: "remOnQueueLength sq1 = (sq2, e2)" by (cases "remOnQueueLength sq1")
  obtain sq3 e3 where r3: "addStatEvent cfg pass now ev sq2 = (sq3, e3)"
    by (cases "addStatEvent cfg pass now ev sq2")
  note R1 = remExpired_le [OF assms(1) r1]
  then have i1: "sq_inv cfg sq1" and p1: "sqPrfl sq1 = Some p" using assms(2) by simp_all
  note R2 = remOnQueueLength_le(1,2) [OF i1 r2]
  note R3 = addStatEvent_le [OF R2(1) r3]
  have "ProcessEvent cfg pass now ev sq = (sq3, e3)"
    using r1 r2 r3 R1 R2(2) [OF p1] by (simp add: ProcessEvent_def)
  then show ?thesis using R1 R2(2) [OF p1] R3 by (auto simp: Let_def)
qed

subsection \<open>Compressing and expanding restores the invariant\<close>

lemma compress_metrics_spec:
  assumes "\<forall>m \<in> snd ` set ms. m_inv cfg m" and "0 < n" and "gmap_ok idMap"
  shows "\<exists>ms' idMap'. compress_metrics cfg n did ms idMap = Inr (ms', idMap') \<and> gmap_ok idMap'
    \<and> ss_set idMap \<subseteq> ss_set idMap' \<and> map fst ms' = map fst ms
    \<and> map (\<lambda>km. m_val cfg (snd km)) ms' = map (\<lambda>km. m_val cfg (snd km)) ms
    \<and> map (\<lambda>km. m_count (snd km)) ms' = map (\<lambda>km. m_count (snd km)) ms
    \<and> (\<forall>m \<in> snd ` set ms'. m_inv cfg m \<and> (\<forall>i. m_weight m i \<noteq> 0 \<longrightarrow> i \<in> ss_set idMap'))"
  using assms(1,3)
proof (induction ms arbitrary: idMap)
  case (Cons a ms)
  obtain k m where a: "a = (k, m)" by (cases a)
  then have inv: "m_inv cfg m" using Cons.prems by simp
  from mt.compress_law [OF inv assms(2), of did]
  obtain m1 ids where c: "Compress cfg n did m = Inr (m1, ids)" "m_inv cfg m1" "m_count m1 = m_count m"
    "m_val cfg m1 = m_val cfg m" "\<forall>i. m_weight m1 i \<noteq> 0 \<longrightarrow> i \<in> set ids" by blast
  let ?idMap = "StringSet_AddSlice idMap ids"
  have ok: "gmap_ok ?idMap" using Cons.prems(2) by (simp add: StringSet_AddSlice_def ss.add_slice)
  have set1: "ss_set ?idMap = ss_set idMap \<union> set ids" by (simp add: StringSet_AddSlice_def ss.add_slice)
  from Cons.IH [OF _ ok] Cons.prems a
  obtain ms1 idMap1 where rec: "compress_metrics cfg n did ms ?idMap = Inr (ms1, idMap1)" "gmap_ok idMap1"
    "ss_set ?idMap \<subseteq> ss_set idMap1" "map fst ms1 = map fst ms"
    "map (\<lambda>km. m_val cfg (snd km)) ms1 = map (\<lambda>km. m_val cfg (snd km)) ms"
    "map (\<lambda>km. m_count (snd km)) ms1 = map (\<lambda>km. m_count (snd km)) ms"
    "\<forall>m \<in> snd ` set ms1. m_inv cfg m \<and> (\<forall>i. m_weight m i \<noteq> 0 \<longrightarrow> i \<in> ss_set idMap1)" by auto
  have "\<forall>i. m_weight m1 i \<noteq> 0 \<longrightarrow> i \<in> ss_set idMap1" using c(5) set1 rec(3) by blast
  then show ?case using a c rec set1 by auto
qed simp

lemma facs_factor_fold:
  assumes "\<forall>m \<in> snd ` set ms. m_inv cfg m" and "facs_ok evs"
  shows "facs_ok (fold (\<lambda>(_, m). GetCompressFactor m) ms evs)
    \<and> (\<forall>i. facs evs i \<le> facs (fold (\<lambda>(_, m). GetCompressFactor m) ms evs) i)
    \<and> (\<forall>m \<in> snd ` set ms. \<forall>i. m_weight m i \<le> facs (fold (\<lambda>(_, m). GetCompressFactor m) ms evs) i)"
  using assms
proof (induction ms arbitrary: evs)
  case (Cons a ms)
  obtain k m where a: "a = (k, m)" by (cases a)
  have F: "facs_ok (GetCompressFactor m evs)"
    "\<And>i. facs (GetCompressFactor m evs) i = max (facs evs i) (m_weight m i)"
    using mt.factors_law [OF _ Cons.prems(2), of cfg m] Cons.prems(1) a by auto
  have "\<forall>m \<in> snd ` set ms. m_inv cfg m" using Cons.prems(1) by simp
  note IH = Cons.IH [OF this F(1)]
  let ?F = "fold (\<lambda>(_, m). GetCompressFactor m) ms (GetCompressFactor m evs)"
  have "facs evs i \<le> facs ?F i" "m_weight m i \<le> facs ?F i" for i
    using IH F(2) [of i] by (metis max.bounded_iff)+
  then show ?case using IH a by simp
qed simp

lemma facs_factor_map:
  assumes "\<forall>m \<in> snd ` set ms. m_inv cfg m" and "m \<in> snd ` set ms"
  shows "m_weight m i \<le> facs (factor_map ms) i"
  using facs_factor_fold [OF assms(1), of "[]"] assms(2) unfolding factor_map_def by auto

lemma count_expand:
  assumes "i \<in> set (ids_of items)"
  shows "facs cfm i \<le> int (count_list (ids_of (concat (map (\<lambda>sqi.
      case gget cfm (sqiEventID sqi) of None \<Rightarrow> [] | Some cf \<Rightarrow> replicate (nat cf) sqi) items))) i)"
  using assms
proof (induction items)
  case (Cons item items)
  have rep: "count_list (ids_of (replicate n item)) (sqiEventID item) = n" for n
    by (induction n) auto
  show ?case
  proof (cases "sqiEventID item = i")
    case True
    with rep show ?thesis by (cases "gget cfm i") (auto simp: fw_def)
  next
    case False
    with Cons show ?thesis by (auto simp: fw_def split: option.splits)
  qed
qed simp

lemma Expand_le:
  assumes "\<forall>m \<in> snd ` set (SQMetrics sq). m_inv cfg m"
    and "\<forall>m \<in> snd ` set (SQMetrics sq). \<forall>i. m_weight m i \<noteq> 0 \<longrightarrow> i \<in> set (ids_of (SQItems sq))"
  shows "sq_inv cfg (Expand sq)"
proof -
  have "m_weight m i \<le> int (count_list (ids_of (SQItems (Expand sq))) i)" if m: "m \<in> snd ` set (SQMetrics sq)" for m i
  proof (cases "m_weight m i = 0")
    case False
    with assms(2) m have "i \<in> set (ids_of (SQItems sq))" by blast
    from facs_factor_map [OF assms(1) m, of i] count_expand [OF this, of "factor_map (SQMetrics sq)"]
    show ?thesis by (simp add: Expand_def Let_def)
  qed simp
  with assms(1) show ?thesis by (simp add: sq_inv_def metrics_le_def Expand_def Let_def)
qed

text \<open>Compressing: every metric keeps its value and its count, and each event a metric still knows has
  an item.\<close>

lemma StatQueue_Compress_spec:
  assumes "sq_inv cfg sq" and "0 < maxQL" and "maxQL \<le> int (length (SQItems sq))"
  obtains sq' where "StatQueue_Compress cfg maxQL sq = Inr (sq', True)"
    "\<forall>m \<in> snd ` set (SQMetrics sq'). m_inv cfg m"
    "\<forall>m \<in> snd ` set (SQMetrics sq'). \<forall>i. m_weight m i \<noteq> 0 \<longrightarrow> i \<in> set (ids_of (SQItems sq'))"
    "map (\<lambda>km. m_val cfg (snd km)) (SQMetrics sq') = map (\<lambda>km. m_val cfg (snd km)) (SQMetrics sq)"
    "map fst (SQMetrics sq') = map fst (SQMetrics sq)"
    "distinct (ids_of (SQItems sq'))"
    "sqttl sq \<noteq> None \<Longrightarrow> sorted_wrt (\<lambda>a b. \<not> exp_before (sqiExpiryTime b) (sqiExpiryTime a)) (SQItems sq')"
proof -
  have ne: "SQItems sq \<noteq> []" using assms(2,3) by auto
  let ?did = "sqiEventID (last (SQItems sq))"
  let ?sqMap = "fold (\<lambda>itm m. gset m (sqiEventID itm) (sqiExpiryTime itm)) (SQItems sq) []"
  let ?lt = "\<lambda>a b. exp_before (sqiExpiryTime a) (sqiExpiryTime b)"
  have inv: "\<forall>m \<in> snd ` set (SQMetrics sq). m_inv cfg m" using assms(1) by (simp add: sq_inv_def metrics_le_def)
  from compress_metrics_spec [OF inv assms(2), of "[]" ?did]
  obtain ms idMap where c: "compress_metrics cfg maxQL ?did (SQMetrics sq) [] = Inr (ms, idMap)" "gmap_ok idMap"
    "map fst ms = map fst (SQMetrics sq)"
    "map (\<lambda>km. m_val cfg (snd km)) ms = map (\<lambda>km. m_val cfg (snd km)) (SQMetrics sq)"
    "\<forall>m \<in> snd ` set ms. m_inv cfg m \<and> (\<forall>i. m_weight m i \<noteq> 0 \<longrightarrow> i \<in> ss_set idMap)" by auto
  define items where "items = map (\<lambda>k. \<lparr>sqiEventID = k, sqiExpiryTime =
      (case gget ?sqMap k of Some ttl \<Rightarrow> ttl | None \<Rightarrow> sqiExpiryTime (last (SQItems sq)))\<rparr>) (map fst idMap)"
  define items' where "items' = (if sqttl sq \<noteq> None then sort_less ?lt items else items)"
  have comp: "StatQueue_Compress cfg maxQL sq = Inr (sq\<lparr>SQMetrics := ms, SQItems := items'\<rparr>, True)"
    using assms(2,3) ne c(1) by (simp add: StatQueue_Compress_def Let_def items'_def items_def)
  have ids: "ids_of items = map fst idMap" by (simp add: items_def comp_def)
  have ms: "mset (ids_of items') = mset (map fst idMap)"
    unfolding items'_def by (simp flip: ids)
  then have set': "set (ids_of items') = ss_set idMap" by (metis list.set_map mset_eq_setD)
  have dist: "distinct (ids_of items')" using ms c(2) by (metis mset_eq_imp_distinct_iff)
  have "sorted_wrt (\<lambda>a b. \<not> ?lt b a) (sort_less ?lt items)"
  proof (rule sort_less_sorted [of UNIV])
    show "\<not> ?lt b a" if "?lt a b" for a b :: SQItem
      using that by (cases "sqiExpiryTime a"; cases "sqiExpiryTime b") auto
    show "\<not> ?lt c a" if "\<not> ?lt b a" "\<not> ?lt c b" for a b c :: SQItem
      using that by (cases "sqiExpiryTime a"; cases "sqiExpiryTime b"; cases "sqiExpiryTime c") auto
  qed simp
  then show ?thesis using that [OF comp] c set' dist by (simp add: items'_def)
qed

text \<open>The stored form: the marshaler gives back the metric without its cached value.\<close>

fun uncached :: "StatMetric \<Rightarrow> StatMetric" where
  "uncached (MASR m) = MASR (m\<lparr>asrval := None\<rparr>)"
| "uncached (MACD m) = MACD (m\<lparr>dmval := None\<rparr>)"
| "uncached (MTCD m) = MTCD (m\<lparr>dmval := None\<rparr>)"
| "uncached (MACC m) = MACC (m\<lparr>fmval := None\<rparr>)"
| "uncached (MTCC m) = MTCC (m\<lparr>fmval := None\<rparr>)"
| "uncached (MPDD m) = MPDD (m\<lparr>dmval := None\<rparr>)"
| "uncached (MDDC m) = MDDC m"
| "uncached (MSum m) = MSum (m\<lparr>fmval := None\<rparr>)"
| "uncached (MAverage m) = MAverage (m\<lparr>fmval := None\<rparr>)"
| "uncached (MDistinct m) = MDistinct m"

fun metric_type :: "StatMetric \<Rightarrow> string" where
  "metric_type (MASR _) = ''*asr''"
| "metric_type (MACD _) = ''*acd''"
| "metric_type (MTCD _) = ''*tcd''"
| "metric_type (MACC _) = ''*acc''"
| "metric_type (MTCC _) = ''*tcc''"
| "metric_type (MPDD _) = ''*pdd''"
| "metric_type (MDDC _) = ''*ddc''"
| "metric_type (MSum _) = ''*sum''"
| "metric_type (MAverage _) = ''*average''"
| "metric_type (MDistinct _) = ''*distinct''"

lemma uncached_laws:
  "m_inv cfg m \<Longrightarrow> m_inv cfg (uncached m)" "m_weight (uncached m) = m_weight m"
  "m_val cfg (uncached m) = m_val cfg m"
  by (cases m; auto simp: asr_inv_def dm_inv_def fm_inv_def ASR_compute_def acd.compute_dmval
      tcd.compute_dmval pdd.compute_dmval acc.compute_fmval tcc.compute_fmval sm.compute_fmval avg.compute_fmval)+

lemma NewStatMetric_type:
  assumes "hd (SplitConcatenatedKey metricID) = metric_type m"
  shows "\<exists>fresh. NewStatMetric metricID minItems fids = Inr fresh \<and> metric_type fresh = metric_type m"
  using assms by (cases m) (simp_all add: NewStatMetric_def Let_def)

definition marshal_ok :: "'b marshaler \<Rightarrow> bool" where
  "marshal_ok ms \<longleftrightarrow> (\<forall>m. \<exists>x. Marshal ms m = Inr x
     \<and> (\<forall>fresh. metric_type fresh = metric_type m \<longrightarrow> LoadMarshaled ms fresh x = Inr (uncached m)))"

abbreviation typed_metrics :: "(string, StatMetric) gmap \<Rightarrow> bool" where
  "typed_metrics mm \<equiv> \<forall>km \<in> set mm. hd (SplitConcatenatedKey (fst km)) = metric_type (snd km)"

lemma marshal_load_all:
  assumes "marshal_ok ms" and "typed_metrics mm"
  shows "\<exists>out. marshal_all ms mm = Inr out
    \<and> load_all ms minItems out = Inr (map (\<lambda>km. (fst km, uncached (snd km))) mm)"
  using assms(2)
proof (induction mm)
  case (Cons a mm)
  obtain k m where a: "a = (k, m)" by (cases a)
  obtain x where x: "Marshal ms m = Inr x"
    "\<forall>fresh. metric_type fresh = metric_type m \<longrightarrow> LoadMarshaled ms fresh x = Inr (uncached m)"
    using assms(1) unfolding marshal_ok_def by blast
  obtain fresh where f: "NewStatMetric k minItems [] = Inr fresh" "metric_type fresh = metric_type m"
    using NewStatMetric_type [of k m minItems "[]"] Cons.prems a by auto
  obtain out where "marshal_all ms mm = Inr out"
    "load_all ms minItems out = Inr (map (\<lambda>km. (fst km, uncached (snd km))) mm)" using Cons by auto
  with x f a show ?case by auto
qed simp

lemma Compress_type: "Compress cfg n d m = Inr (m', ids) \<Longrightarrow> metric_type m' = metric_type m"
  by (cases m) (auto simp: map_sum_Inr map_prod_eq)

lemma compress_metrics_types:
  "compress_metrics cfg n d mm idMap = Inr (mm', idMap') \<Longrightarrow> typed_metrics mm \<Longrightarrow> typed_metrics mm'"
proof (induction mm arbitrary: mm' idMap)
  case (Cons a mm)
  obtain k m where a: "a = (k, m)" by (cases a)
  from Cons.prems a obtain m1 ids mm1 where c: "Compress cfg n d m = Inr (m1, ids)"
    "compress_metrics cfg n d mm (StringSet_AddSlice idMap ids) = Inr (mm1, idMap')" "mm' = (k, m1) # mm1"
    by (auto split: sum.splits prod.splits)
  with Cons.IH [OF c(2)] Cons.prems(2) a Compress_type [OF c(1)] show ?case by simp
qed simp

lemma StatQueue_Compress_types:
  assumes "StatQueue_Compress cfg n sq = Inr (sq', b)" and "typed_metrics (SQMetrics sq)"
  shows "typed_metrics (SQMetrics sq')"
proof (cases b)
  case False
  with assms show ?thesis
    by (auto simp: StatQueue_Compress_def Let_def split: if_splits sum.splits prod.splits)
next
  case True
  then obtain idMap where
    "compress_metrics cfg n (sqiEventID (last (SQItems sq))) (SQMetrics sq) [] = Inr (SQMetrics sq', idMap)"
    using assms(1) by (auto simp: StatQueue_Compress_def Let_def split: if_splits sum.splits prod.splits)
  from compress_metrics_types [OF this assms(2)] show ?thesis .
qed

subsection \<open>Properties\<close>

definition sx_prfl :: StatQueueProfile where
  "sx_prfl = \<lparr>sqpTenant = ''cgrates.org'', sqpID = ''SQ1'', sqpFilterIDs = [],
     sqpActivationInterval = None, sqpQueueLength = 2, sqpTTL = 10, sqpMinItems = 1,
     sqpMetrics = [], sqpStored = True, sqpBlocker = False, sqpWeight = Fin 20, sqpThresholdIDs = []\<rparr>"

definition sx_sq :: StatQueue where
  "sx_sq = \<lparr>sqTenant = ''cgrates.org'', sqID = ''SQ1'', SQItems = [],
     SQMetrics = [(''*tcd'', MTCD (NewTCD 1 [] [])), (''*tcc'', MTCC (NewTCC 1 [] []))],
     sqMinItems = 1, sqPrfl = Some sx_prfl, sqdirty = Some False, sqttl = Some 10\<rparr>"

lemma inv_sx_sq: "sq_inv cfg sx_sq"
  by (simp add: sx_sq_def sq_inv_def NewTCD_def NewTCC_def dm_inv_def fm_inv_def evs_ok_def fw_def)

text \<open>Claim C27. Processing an event, whatever its outcome, keeps the queue and its metrics together: no
  metric accounts for more events of an id than the queue holds items with it, every counter is the
  sum of the compress factors, and removing expired or surplus items never fails.\<close>

theorem ProcessEvent_keeps_inv:
  assumes "sq_inv cfg sq"
  shows "sq_inv cfg (fst (ProcessEvent cfg pass now ev sq)) \<and> snd (remExpired now sq) = None
    \<and> (sqPrfl sq \<noteq> None \<longrightarrow> snd (remOnQueueLength sq) = None)"
  using ProcessEvent_le [OF assms] remExpired_le [OF assms] remOnQueueLength_le(2) [OF assms]
  by (metis option.exhaust prod.collapse)

theorem ProcessEvent_keeps_inv_witness:
  "sq_inv sx_cfg (fst (ProcessEvent sx_cfg (\<lambda>_ _ _. Inr True) 100 (sx_ev ''e1'') sx_sq))
    \<and> length (SQItems (fst (ProcessEvent sx_cfg (\<lambda>_ _ _. Inr True) 100 (sx_ev ''e1'') sx_sq))) = 1"
proof -
  have "length (SQItems (fst (ProcessEvent sx_cfg (\<lambda>_ _ _. Inr True) 100 (sx_ev ''e1'') sx_sq))) = 1"
    by code_simp
  then show ?thesis using ProcessEvent_keeps_inv [OF inv_sx_sq] by blast
qed

text \<open>A queue within its configured length stays within it when events are processed, but the
  test is for equality: a queue that is longer, as after its length was lowered in the profile, is
  never shortened and grows by one with every event that finds nothing expired.\<close>

theorem queue_length_bound:
  assumes "sq_inv cfg sq" and "sqPrfl sq = Some p" and "0 < sqpQueueLength p"
  shows "(int (length (SQItems sq)) \<le> sqpQueueLength p \<longrightarrow>
      int (length (SQItems (fst (ProcessEvent cfg pass now ev sq)))) \<le> sqpQueueLength p)
    \<and> (sqpQueueLength p < int (length (SQItems sq)) \<longrightarrow> takeWhile (expired now) (SQItems sq) = [] \<longrightarrow>
      length (SQItems (fst (ProcessEvent cfg pass now ev sq))) = Suc (length (SQItems sq)))"
proof -
  have d: "length (dropWhile (expired now) (SQItems sq)) \<le> length (SQItems sq)"
    by (rule length_dropWhile_le)
  have k: "takeWhile (expired now) (SQItems sq) = [] \<Longrightarrow> dropWhile (expired now) (SQItems sq) = SQItems sq"
    using takeWhile_dropWhile_id [of "expired now" "SQItems sq"] by simp
  show ?thesis using ProcessEvent_length [OF assms(1,2), of pass now ev] assms(3) d k by (auto simp: Let_def)
qed

theorem queue_length_bound_witness:
  "int (length (SQItems (fst (ProcessEvent sx_cfg (\<lambda>_ _ _. Inr True) 100 (sx_ev ''e1'') sx_sq)))) \<le> 2"
  using queue_length_bound [OF inv_sx_sq, of sx_prfl sx_cfg "\<lambda>_ _ _. Inr True" 100 "sx_ev ''e1''"]
  by (simp add: sx_sq_def sx_prfl_def)

text \<open>Removing expired items takes off exactly the leading expired ones; when the items are in
  the order of their expiry none that has expired is left.\<close>

theorem remExpired_complete:
  assumes "sq_inv cfg sq"
    and "sorted_wrt (\<lambda>a b. \<not> exp_before (sqiExpiryTime b) (sqiExpiryTime a)) (SQItems sq)"
  shows "SQItems (fst (remExpired now sq)) = dropWhile (expired now) (SQItems sq)
    \<and> filter (expired now) (SQItems (fst (remExpired now sq))) = []"
proof -
  have r: "SQItems (fst (remExpired now sq)) = dropWhile (expired now) (SQItems sq)"
    using remExpired_le [OF assms(1)] by (metis prod.collapse)
  have "filter (expired now) (dropWhile (expired now) items) = []"
    if "sorted_wrt (\<lambda>a b. \<not> exp_before (sqiExpiryTime b) (sqiExpiryTime a)) items" for items
    using that
  proof (induction items)
    case (Cons x xs)
    have later: "\<not> expired now y" if y: "y \<in> set xs" "\<not> expired now x" for y
    proof -
      have "\<not> exp_before (sqiExpiryTime y) (sqiExpiryTime x)" using Cons.prems y(1) by simp
      with y(2) show ?thesis
        by (cases "sqiExpiryTime x"; cases "sqiExpiryTime y") (simp_all add: expired_def)
    qed
    show ?case
    proof (cases "expired now x")
      case True
      with Cons show ?thesis by simp
    next
      case False
      with later show ?thesis by (simp add: filter_empty_conv)
    qed
  qed simp
  with r assms(2) show ?thesis by simp
qed

theorem remExpired_complete_witness:
  "let sq = fst (ProcessEvent sx_cfg (\<lambda>_ _ _. Inr True) 100 (sx_ev ''e1'') sx_sq)
   in length (SQItems sq) = 1 \<and> filter (expired 110) (SQItems (fst (remExpired 110 sq))) = []"
proof -
  let ?sq = "fst (ProcessEvent sx_cfg (\<lambda>_ _ _. Inr True) 100 (sx_ev ''e1'') sx_sq)"
  have l: "length (SQItems ?sq) = 1" by code_simp
  then obtain x where "SQItems ?sq = [x]" by (cases "SQItems ?sq") auto
  then have "sorted_wrt (\<lambda>a b. \<not> exp_before (sqiExpiryTime b) (sqiExpiryTime a)) (SQItems ?sq)" by simp
  from remExpired_complete [OF ProcessEvent_le [OF inv_sx_sq] this, of 110] l show ?thesis
    unfolding Let_def by blast
qed

text \<open>Claim C28. Storing a queue and loading it again, with compression of the stored form or without,
  gives a queue whose items and metrics are in step again and whose metrics have the values they
  had.\<close>

theorem store_load_queue:
  assumes "sq_inv cfg sq" and "typed_metrics (SQMetrics sq)" and "marshal_ok ms" and "0 \<le> limit"
  shows "\<exists>sq' ssq sq''. NewStoredStatQueue cfg limit ms sq = Inr (sq', ssq) \<and> AsStatQueue ms ssq = Inr sq''
    \<and> sq_inv cfg sq''
    \<and> map (\<lambda>km. (fst km, m_val cfg (snd km))) (SQMetrics sq'')
      = map (\<lambda>km. (fst km, m_val cfg (snd km))) (SQMetrics sq)"
proof -
  define load :: "(string, StatMetric) gmap \<Rightarrow> (string, StatMetric) gmap"
    where "load = (\<lambda>mm. map (\<lambda>km. (fst km, uncached (snd km))) mm)"
  have vals: "map (\<lambda>km. (fst km, m_val cfg (snd km))) (load mm) = map (\<lambda>km. (fst km, m_val cfg (snd km))) mm" for mm
    by (simp add: load_def uncached_laws)
  have ms: "snd ` set (load mm) = uncached ` snd ` set mm" for mm by (auto simp: load_def image_image)
  show ?thesis
  proof (cases "0 < limit \<and> limit \<le> int (length (SQItems sq))")
    case False
    with assms(4) have c: "StatQueue_Compress cfg limit sq = Inr (sq, False)" by (auto simp: StatQueue_Compress_def)
    from marshal_load_all [OF assms(3,2), of "sqMinItems sq"] obtain out where
      "marshal_all ms (SQMetrics sq) = Inr out" "load_all ms (sqMinItems sq) out = Inr (load (SQMetrics sq))"
      unfolding load_def by blast
    moreover have "metrics_le cfg (load (SQMetrics sq)) (SQItems sq)"
      using assms(1) by (auto simp: sq_inv_def metrics_le_def ms uncached_laws)
    ultimately show ?thesis
      using c vals by (simp add: NewStoredStatQueue_def AsStatQueue_def Let_def sq_inv_def)
  next
    case True
    then obtain sq' where c: "StatQueue_Compress cfg limit sq = Inr (sq', True)"
      "\<forall>m \<in> snd ` set (SQMetrics sq'). m_inv cfg m"
      "\<forall>m \<in> snd ` set (SQMetrics sq'). \<forall>i. m_weight m i \<noteq> 0 \<longrightarrow> i \<in> set (ids_of (SQItems sq'))"
      "map (\<lambda>km. m_val cfg (snd km)) (SQMetrics sq') = map (\<lambda>km. m_val cfg (snd km)) (SQMetrics sq)"
      "map fst (SQMetrics sq') = map fst (SQMetrics sq)"
      using StatQueue_Compress_spec [OF assms(1)] by metis
    have same: "map (\<lambda>km. (fst km, m_val cfg (snd km))) (SQMetrics sq')
        = map (\<lambda>km. (fst km, m_val cfg (snd km))) (SQMetrics sq)"
      using c(4,5) by (simp add: list_eq_iff_nth_eq)
    from marshal_load_all [OF assms(3) StatQueue_Compress_types [OF c(1) assms(2)], of "sqMinItems sq'"]
    obtain out where m: "marshal_all ms (SQMetrics sq') = Inr out"
      "load_all ms (sqMinItems sq') out = Inr (load (SQMetrics sq'))" unfolding load_def by blast
    define sq0 where "sq0 = \<lparr>sqTenant = sqTenant sq', sqID = sqID sq', SQItems = SQItems sq',
      SQMetrics = load (SQMetrics sq'), sqMinItems = sqMinItems sq', sqPrfl = None, sqdirty = None, sqttl = None\<rparr>"
    have "sq_inv cfg (Expand sq0)"
      by (rule Expand_le) (use c(2,3) in \<open>auto simp: sq0_def ms uncached_laws\<close>)
    moreover have "SQMetrics (Expand sq0) = load (SQMetrics sq')" by (simp add: Expand_def Let_def sq0_def)
    ultimately show ?thesis
      using c(1) m same vals by (simp add: NewStoredStatQueue_def AsStatQueue_def Let_def flip: sq0_def)
  qed
qed

definition sx_ms :: "StatMetric marshaler" where
  "sx_ms = \<lparr>Marshal = Inr, LoadMarshaled = \<lambda>_ x. Inr (uncached x)\<rparr>"

theorem store_load_queue_witness:
  "let sq = fst (ProcessEvent sx_cfg (\<lambda>_ _ _. Inr True) 100 (sx_ev ''e1'') sx_sq)
   in \<exists>sq' ssq sq''. NewStoredStatQueue sx_cfg 1 sx_ms sq = Inr (sq', ssq) \<and> AsStatQueue sx_ms ssq = Inr sq''
      \<and> sq_inv sx_cfg sq''"
proof -
  let ?sq = "fst (ProcessEvent sx_cfg (\<lambda>_ _ _. Inr True) 100 (sx_ev ''e1'') sx_sq)"
  have t: "typed_metrics (SQMetrics ?sq)" by code_simp
  have m: "marshal_ok sx_ms" by (simp add: marshal_ok_def sx_ms_def)
  from store_load_queue [OF ProcessEvent_le [OF inv_sx_sq] t m, of 1] show ?thesis
    unfolding Let_def by auto
qed

end
