(* ===== verification/Thresholds.thy ===== *)
theory Thresholds
  imports Service_Common
begin

text \<open>
  \<^verbatim>\<open>engine/thresholds.go\<close>: ThresholdS counts the events that match a profile and runs the
  profile's actions; with the operations of \<^verbatim>\<open>engine/datamanager.go\<close> and
  \<^verbatim>\<open>engine/storage_redis.go\<close> it stores thresholds with.

  A \<open>*Threshold\<close> is shared: the cache, the slice of matching thresholds and the backup all hold the
  same pointer. So the state has a heap (\<open>objs\<close>, the address of an object is its index) and the
  cache maps a key to an address, or to \<open>None\<close> for a cached nil. The data base holds what the
  marshaler keeps of a threshold, its exported fields. The cache keeps every entry it is given,
  or none when its limit is 0. ThresholdS takes no lock around a threshold; the model is that of
  one handler after the other. A handler reads the clock as one instant \<open>now\<close>.

  FilterS, the filter indexes, the profiles, Redis' answers, remote engines and the execution of
  actions are the environment \<open>th_env\<close>. The actions a handler waited for are kept as a trace
  (\<open>executed\<close>). For a profile with \<open>Async\<close> a handler starts one goroutine per action and goes on:
  these are the multiset \<open>pending\<close>, from which a step of its own runs any one at any later time.
\<close>

subsection \<open>Data\<close>

record ThresholdProfile =
  tpTenant :: string
  tpID :: string
  tpFilterIDs :: "string list"
  tpActivationInterval :: "ActivationInterval option"
  tpMaxHits :: int
  tpMinHits :: int
  tpMinSleep :: duration
  tpBlocker :: bool
  tpWeight :: float64
  tpActionIDs :: "string list"
  tpAsync :: bool

definition ThresholdProfile_TenantID :: "ThresholdProfile \<Rightarrow> string" where
  "ThresholdProfile_TenantID tp = ConcatenatedKey [tpTenant tp, tpID tp]"

record Threshold =
  tTenant :: string
  tID :: string
  tHits :: int
  tSnooze :: gotime
  tPrfl :: "ThresholdProfile option"
  tdirty :: "bool option"

definition Threshold_TenantID :: "Threshold \<Rightarrow> string" where
  "Threshold_TenantID t = ConcatenatedKey [tTenant t, tID t]"

text \<open>What \<^verbatim>\<open>ProcessEvent\<close> sets of an \<^verbatim>\<open>ActionTiming\<close>.\<close>

record ActionTiming =
  atUuid :: string
  atActionsID :: string
  atExtraData :: CGREvent
  ataccountIDs :: "StringMap option"

record th_env =
  th_lib :: golib
  th_MatchingItemIDsForEvent :: "CGREvent \<Rightarrow> error + StringMap"
  th_GetThresholdProfile :: "string \<Rightarrow> string \<Rightarrow> error + ThresholdProfile"
  th_Pass :: "string \<Rightarrow> string list \<Rightarrow> (string, iface) gmap \<Rightarrow> error + bool"
  th_Cmd :: "string \<Rightarrow> string \<Rightarrow> error option"
  th_Remote :: bool
  th_RemoteGet :: "string \<Rightarrow> string \<Rightarrow> error + Threshold"
  th_Replicate :: bool
  th_ReplicatorSet :: "Threshold \<Rightarrow> error option"
  th_CacheLimit :: int
  th_StoreInterval :: duration
  th_Execute :: "ActionTiming \<Rightarrow> error option"
  th_GenUUID :: "nat \<Rightarrow> string"
  th_GetKeysForPrefix :: "string \<Rightarrow> error + string list"

record th_svc =
  objs :: "Threshold list"
  cacheThresholds :: "(string, nat option) gmap"
  dbThresholds :: "(string, Threshold) gmap"
  storedTdIDs :: StringMap
  executed :: "ActionTiming list"
  pending :: "ActionTiming multiset"

abbreviation deref :: "th_svc \<Rightarrow> nat \<Rightarrow> Threshold" where
  "deref svc a \<equiv> objs svc ! a"

definition assign :: "nat \<Rightarrow> Threshold \<Rightarrow> th_svc \<Rightarrow> th_svc" where
  "assign a t svc = svc\<lparr>objs := (objs svc)[a := t]\<rparr>"

subsection \<open>storage\_redis.go: the data base\<close>

text \<open>\<open>th_Cmd\<close> is the error of a Redis command on a key, other than that the key is absent. The
  marshaler keeps the exported fields.\<close>

definition exported :: "Threshold \<Rightarrow> Threshold" where
  "exported t = t\<lparr>tPrfl := None, tdirty := None\<rparr>"

definition GetThresholdDrv :: "th_env \<Rightarrow> string \<Rightarrow> string \<Rightarrow> th_svc \<Rightarrow> error + Threshold" where
  "GetThresholdDrv env tenant i svc =
     (let key = ConcatenatedKey [tenant, i]
      in case th_Cmd env ''GET'' (''thd_'' @ key) of
           Some e \<Rightarrow> Inl e
         | None \<Rightarrow> (case gget (dbThresholds svc) key of None \<Rightarrow> Inl ErrNotFound | Some t \<Rightarrow> Inr t))"

definition SetThresholdDrv :: "th_env \<Rightarrow> Threshold \<Rightarrow> th_svc \<Rightarrow> th_svc \<times> error option" where
  "SetThresholdDrv env t svc =
     (case th_Cmd env ''SET'' (''thd_'' @ Threshold_TenantID t) of
        Some e \<Rightarrow> (svc, Some e)
      | None \<Rightarrow> (svc\<lparr>dbThresholds := gset (dbThresholds svc) (Threshold_TenantID t) (exported t)\<rparr>, None))"

definition RemoveThresholdDrv :: "th_env \<Rightarrow> string \<Rightarrow> string \<Rightarrow> th_svc \<Rightarrow> th_svc \<times> error option" where
  "RemoveThresholdDrv env tenant i svc =
     (let key = ConcatenatedKey [tenant, i]
      in case th_Cmd env ''DEL'' (''thd_'' @ key) of
           Some e \<Rightarrow> (svc, Some e)
         | None \<Rightarrow> (svc\<lparr>dbThresholds := gdel (dbThresholds svc) key\<rparr>, None))"

subsection \<open>datamanager.go: thresholds\<close>

definition cache_set :: "th_env \<Rightarrow> string \<Rightarrow> nat option \<Rightarrow> th_svc \<Rightarrow> th_svc" where
  "cache_set env key x svc =
     (if th_CacheLimit env = 0 then svc
      else svc\<lparr>cacheThresholds := gset (cacheThresholds svc) key x\<rparr>)"

text \<open>Reading a threshold from the data base, or from a remote engine when it is not there.\<close>

definition load_threshold :: "th_env \<Rightarrow> string \<Rightarrow> string \<Rightarrow> th_svc \<Rightarrow> th_svc \<times> (error + Threshold)" where
  "load_threshold env tenant i svc =
     (case GetThresholdDrv env tenant i svc of
        Inr t \<Rightarrow> (svc, Inr t)
      | Inl e \<Rightarrow>
          if e = ErrNotFound \<and> th_Remote env then
            (case th_RemoteGet env tenant i of
               Inl e' \<Rightarrow> (svc, Inl (CastRPCErr e'))
             | Inr t \<Rightarrow>
                 (case SetThresholdDrv env t svc of
                    (svc', Some e') \<Rightarrow> (svc', Inl (CastRPCErr e'))
                  | (svc', None) \<Rightarrow> (svc', Inr t)))
          else (svc, Inl (CastRPCErr e)))"

definition GetThreshold ::
  "th_env \<Rightarrow> string \<Rightarrow> string \<Rightarrow> bool \<Rightarrow> bool \<Rightarrow> th_svc \<Rightarrow> th_svc \<times> (error + nat)" where
  "GetThreshold env tenant i cacheRead cacheWrite svc =
     (let tntID = ConcatenatedKey [tenant, i]
      in case (if cacheRead then gget (cacheThresholds svc) tntID else None) of
           Some None \<Rightarrow> (svc, Inl ErrNotFound)
         | Some (Some a) \<Rightarrow> (svc, Inr a)
         | None \<Rightarrow>
             (case load_threshold env tenant i svc of
                (svc1, Inl e) \<Rightarrow>
                  (if e = ErrNotFound \<and> cacheWrite then cache_set env tntID None svc1 else svc1, Inl e)
              | (svc1, Inr t) \<Rightarrow>
                  let a = length (objs svc1); svc2 = svc1\<lparr>objs := objs svc1 @ [t]\<rparr>
                  in (if cacheWrite then cache_set env tntID (Some a) svc2 else svc2, Inr a)))"

definition SetThreshold :: "th_env \<Rightarrow> Threshold \<Rightarrow> th_svc \<Rightarrow> th_svc \<times> error option" where
  "SetThreshold env t svc =
     (case SetThresholdDrv env t svc of
        (svc', Some e) \<Rightarrow> (svc', Some e)
      | (svc', None) \<Rightarrow>
          (svc', if th_Replicate env then map_option CastRPCErr (th_ReplicatorSet env t) else None))"

text \<open>The answer of the engine the removal is replicated to is not looked at.\<close>

definition RemoveThreshold :: "th_env \<Rightarrow> string \<Rightarrow> string \<Rightarrow> th_svc \<Rightarrow> th_svc \<times> error option" where
  "RemoveThreshold env tenant i svc = RemoveThresholdDrv env tenant i svc"

text \<open>\<^verbatim>\<open>CacheDataFromDB(ThresholdPrefix, {dataID}, true)\<close>: what is cached is read again, and
  dropped when it is no longer in the data base.\<close>

definition CacheDataFromDB_threshold :: "th_env \<Rightarrow> string \<Rightarrow> th_svc \<Rightarrow> th_svc \<times> error option" where
  "CacheDataFromDB_threshold env dataID svc =
     (if th_CacheLimit env = 0 then (svc, None)
      else if \<not> ghas (cacheThresholds svc) dataID then (svc, None)
      else
        let tnt = NewTenantID dataID
        in case GetThreshold env (tntTenant tnt) (tntID tnt) False True svc of
             (svc', Inr _) \<Rightarrow> (svc', None)
           | (svc', Inl e) \<Rightarrow>
               if e = ErrNotFound
               then (svc'\<lparr>cacheThresholds := gdel (cacheThresholds svc') dataID\<rparr>, None)
               else (svc', Some (ErrMsg (Error e))))"

subsection \<open>One threshold\<close>

text \<open>The loop over the actions of a profile: each is waited for, or left to a goroutine of its own.\<close>

fun run_actions ::
  "th_env \<Rightarrow> CGREvent \<Rightarrow> string \<Rightarrow> bool \<Rightarrow> string list \<Rightarrow> error option \<Rightarrow> th_svc \<Rightarrow> th_svc \<times> error option" where
  "run_actions env ev acntID async [] err svc = (svc, err)"
| "run_actions env ev acntID async (actionSetID # ids) err svc =
     (let act = \<lparr>atUuid = th_GenUUID env (length (executed svc) + size (pending svc)), atActionsID = actionSetID,
                 atExtraData = ev,
                 ataccountIDs = (if acntID \<noteq> [] then Some (NewStringMap [acntID]) else None)\<rparr>
      in if async then run_actions env ev acntID async ids err (svc\<lparr>pending := add_mset act (pending svc)\<rparr>)
         else run_actions env ev acntID async ids
                (if th_Execute env act \<noteq> None then Some ErrPartiallyExecuted else err)
                (svc\<lparr>executed := executed svc @ [act]\<rparr>))"

text \<open>A goroutine that was started runs its action, in the order the scheduler picks; its error is logged.\<close>

definition run_pending :: "ActionTiming \<Rightarrow> th_svc \<Rightarrow> th_svc" where
  "run_pending act svc =
     (if act \<in># pending svc
      then svc\<lparr>pending := pending svc - {#act#}, executed := executed svc @ [act]\<rparr> else svc)"

definition Threshold_ProcessEvent ::
  "th_env \<Rightarrow> gotime \<Rightarrow> CGREvent \<Rightarrow> nat \<Rightarrow> th_svc \<Rightarrow> th_svc \<times> error option" where
  "Threshold_ProcessEvent env now ev a svc =
     (let t = deref svc a
      in if tSnooze t > now then (svc, None)
         else case tPrfl t of
           None \<Rightarrow> (svc, Some (Panic ''nil pointer dereference''))
         | Some tp \<Rightarrow>
             if tHits t < tpMinHits tp then (svc, None)
             else if tpMaxHits tp \<noteq> -1 \<and> tHits t > tpMaxHits tp then (svc, None)
             else
               let acnt = (case FieldAsString (th_lib env) ev ''Account'' of Inr s \<Rightarrow> s | Inl _ \<Rightarrow> []);
                   acntID = (if acnt \<noteq> [] then ConcatenatedKey [evTenant ev, acnt] else [])
               in run_actions env ev acntID (tpAsync tp) (tpActionIDs tp) None svc)"

subsection \<open>Matching\<close>

definition Thresholds_Sort :: "Threshold list \<Rightarrow> Threshold list" where
  "Thresholds_Sort ts =
     sort_less (\<lambda>a b. case (tPrfl a, tPrfl b) of
                        (Some pa, Some pb) \<Rightarrow> fless (tpWeight pb) (tpWeight pa)
                      | _ \<Rightarrow> False) ts"

text \<open>The same on a slice of pointers.\<close>

definition sort_ptrs :: "th_svc \<Rightarrow> nat list \<Rightarrow> nat list" where
  "sort_ptrs svc ts =
     sort_less (\<lambda>a b. case (tPrfl (deref svc a), tPrfl (deref svc b)) of
                        (Some pa, Some pb) \<Rightarrow> fless (tpWeight pb) (tpWeight pa)
                      | _ \<Rightarrow> False) ts"

fun cut_ptrs :: "th_svc \<Rightarrow> nat list \<Rightarrow> nat list" where
  "cut_ptrs svc [] = []"
| "cut_ptrs svc (t # ts) =
     (if (case tPrfl (deref svc t) of Some p \<Rightarrow> tpBlocker p | None \<Rightarrow> False) then [t]
      else t # cut_ptrs svc ts)"

text \<open>The flag of a threshold is reset to \<open>false\<close> unless its hits are used up.\<close>

definition bind_threshold :: "ThresholdProfile \<Rightarrow> Threshold \<Rightarrow> Threshold" where
  "bind_threshold tp t =
     t\<lparr>tdirty := (if tdirty t = None \<or> tpMaxHits tp = -1 \<or> tHits t < tpMaxHits tp
                  then Some False else tdirty t),
       tPrfl := Some tp\<rparr>"

fun th_match_loop ::
  "th_env \<Rightarrow> CGREvent \<Rightarrow> string list \<Rightarrow> (string, nat) gmap \<Rightarrow> th_svc \<Rightarrow>
   th_svc \<times> (error + (string, nat) gmap)" where
  "th_match_loop env ev [] acc svc = (svc, Inr acc)"
| "th_match_loop env ev (tid # tIDs) acc svc =
     (case th_GetThresholdProfile env (evTenant ev) tid of
        Inl e \<Rightarrow> if e = ErrNotFound then th_match_loop env ev tIDs acc svc else (svc, Inl e)
      | Inr tp \<Rightarrow>
          if (case (tpActivationInterval tp, evTime ev) of
                (Some ai, Some t) \<Rightarrow> \<not> IsActiveAtTime ai t | _ \<Rightarrow> False)
          then th_match_loop env ev tIDs acc svc
          else case th_Pass env (evTenant ev) (tpFilterIDs tp) (evEvent ev) of
                 Inl e \<Rightarrow> (svc, Inl e)
               | Inr pass \<Rightarrow>
                   if \<not> pass then th_match_loop env ev tIDs acc svc
                   else case GetThreshold env (tpTenant tp) (tpID tp) True True svc of
                          (svc1, Inl e) \<Rightarrow> (svc1, Inl e)
                        | (svc1, Inr a) \<Rightarrow>
                            th_match_loop env ev tIDs (gset acc (tpID tp) a)
                              (assign a (bind_threshold tp (deref svc1 a)) svc1))"

definition matchingThresholdsForEvent ::
  "th_env \<Rightarrow> ArgsProcessEvent \<Rightarrow> th_svc \<Rightarrow> th_svc \<times> (error + nat list)" where
  "matchingThresholdsForEvent env args svc =
     (let ev = apeCGREvent args
      in case (if apeThresholdIDs args \<noteq> [] then Inr (apeThresholdIDs args)
               else case th_MatchingItemIDsForEvent env ev of
                      Inl e \<Rightarrow> Inl e | Inr m \<Rightarrow> Inr (StringMap_Slice m)) of
           Inl e \<Rightarrow> (svc, Inl e)
         | Inr tIDs \<Rightarrow>
             (case th_match_loop env ev tIDs [] svc of
                (svc1, Inl e) \<Rightarrow> (svc1, Inl e)
              | (svc1, Inr matchingTs) \<Rightarrow>
                  (svc1, Inr (cut_ptrs svc1 (sort_ptrs svc1 (map snd matchingTs))))))"

subsection \<open>The service\<close>

definition StoreThreshold :: "th_env \<Rightarrow> nat \<Rightarrow> th_svc \<Rightarrow> th_svc \<times> error option" where
  "StoreThreshold env a svc =
     (if tdirty (deref svc a) \<noteq> Some True then (svc, None)
      else case SetThreshold env (deref svc a) svc of
             (svc', Some e) \<Rightarrow> (svc', Some e)
           | (svc', None) \<Rightarrow> (assign a ((deref svc' a)\<lparr>tdirty := Some False\<rparr>) svc', None))"

text \<open>One turn of the loop of \<^verbatim>\<open>processEvent\<close>; the flag says whether something went wrong.\<close>

definition process_one ::
  "th_env \<Rightarrow> gotime \<Rightarrow> CGREvent \<Rightarrow> nat \<Rightarrow> th_svc \<Rightarrow> th_svc \<times> bool" where
  "process_one env now ev a svc =
     (let svc1 = assign a ((deref svc a)\<lparr>tHits := wrap64 (tHits (deref svc a) + 1)\<rparr>) svc
      in case Threshold_ProcessEvent env now ev a svc1 of
           (svc2, Some _) \<Rightarrow> (svc2, True)
         | (svc2, None) \<Rightarrow>
             let t = deref svc2 a
             in if tdirty t = None \<or> (case tPrfl t of Some tp \<Rightarrow> tHits t = tpMaxHits tp | None \<Rightarrow> False) then
                  (case RemoveThreshold env (tTenant t) (tID t) svc2 of (svc3, e1) \<Rightarrow>
                     (case CacheDataFromDB_threshold env (Threshold_TenantID t) svc3 of (svc4, e2) \<Rightarrow>
                        (svc4, e1 \<noteq> None \<or> e2 \<noteq> None)))
                else
                  let minSleep = (case tPrfl t of Some tp \<Rightarrow> tpMinSleep tp | None \<Rightarrow> 0);
                      svc3 = assign a (t\<lparr>tSnooze := time_Add now minSleep, tdirty := Some True\<rparr>) svc2
                  in if th_StoreInterval env = -1 then (fst (StoreThreshold env a svc3), False)
                     else (svc3\<lparr>storedTdIDs := gset (storedTdIDs svc3) (Threshold_TenantID t) True\<rparr>, False))"

fun process_all ::
  "th_env \<Rightarrow> gotime \<Rightarrow> CGREvent \<Rightarrow> nat list \<Rightarrow> th_svc \<Rightarrow> th_svc \<times> bool" where
  "process_all env now ev [] svc = (svc, False)"
| "process_all env now ev (a # ts) svc =
     (case process_one env now ev a svc of (svc1, bad) \<Rightarrow>
        (case process_all env now ev ts svc1 of (svc2, bad') \<Rightarrow> (svc2, bad \<or> bad')))"

definition th_processEvent ::
  "th_env \<Rightarrow> gotime \<Rightarrow> ArgsProcessEvent \<Rightarrow> th_svc \<Rightarrow> th_svc \<times> string list \<times> error option" where
  "th_processEvent env now args svc =
     (case matchingThresholdsForEvent env args svc of
        (svc1, Inl e) \<Rightarrow> (svc1, [], Some e)
      | (svc1, Inr matchTs) \<Rightarrow>
          (case process_all env now (apeCGREvent args) matchTs svc1 of (svc2, withErrors) \<Rightarrow>
             if matchTs = [] then (svc2, [], Some ErrNotFound)
             else (svc2, map (\<lambda>a. tID (deref svc1 a)) matchTs,
                   if withErrors then Some ErrPartiallyExecuted else None)))"

definition th_V1ProcessEvent ::
  "th_env \<Rightarrow> gotime \<Rightarrow> V1Args \<Rightarrow> th_svc \<Rightarrow> th_svc \<times> (error + string list)" where
  "th_V1ProcessEvent env now args svc =
     (case check_event args of
        Inl e \<Rightarrow> (svc, Inl e)
      | Inr ev \<Rightarrow>
          (case th_processEvent env now \<lparr>apeThresholdIDs = v1IDs args, apeCGREvent = ev\<rparr> svc of
             (svc', ids, Some e) \<Rightarrow> (svc', Inl e)
           | (svc', ids, None) \<Rightarrow> (svc', Inr ids)))"

definition V1GetThresholdsForEvent ::
  "th_env \<Rightarrow> V1Args \<Rightarrow> th_svc \<Rightarrow> th_svc \<times> (error + nat list)" where
  "V1GetThresholdsForEvent env args svc =
     (case check_event args of
        Inl e \<Rightarrow> (svc, Inl e)
      | Inr ev \<Rightarrow>
          matchingThresholdsForEvent env \<lparr>apeThresholdIDs = v1IDs args, apeCGREvent = ev\<rparr> svc)"

definition V1GetThresholdIDs :: "th_env \<Rightarrow> string \<Rightarrow> error + string list" where
  "V1GetThresholdIDs env tenant =
     (let prfx = ''thd_'' @ tenant @ '':''
      in case th_GetKeysForPrefix env prfx of
           Inl e \<Rightarrow> Inl e
         | Inr keys \<Rightarrow>
             if list_all (\<lambda>key. length prfx \<le> length key) keys
             then Inr (map (drop (length prfx)) keys) else Inl (Panic ''slice bounds out of range''))"

definition V1GetThreshold :: "th_env \<Rightarrow> TenantID \<Rightarrow> th_svc \<Rightarrow> th_svc \<times> (error + Threshold)" where
  "V1GetThreshold env tnt svc =
     (case GetThreshold env (tntTenant tnt) (tntID tnt) True True svc of
        (svc', Inl e) \<Rightarrow> (svc', Inl e)
      | (svc', Inr a) \<Rightarrow> (svc', Inr (deref svc' a)))"

subsection \<open>The backup\<close>

definition th_attempt :: "th_env \<Rightarrow> string \<Rightarrow> th_svc \<Rightarrow> th_svc \<times> bool" where
  "th_attempt env tid svc =
     (case gget (cacheThresholds svc) tid of
        Some (Some a) \<Rightarrow>
          (case StoreThreshold env a svc of (svc', err) \<Rightarrow> (svc', err \<noteq> None))
      | _ \<Rightarrow> (svc, False))"

lemma SetThreshold_stored: "SetThreshold env t svc = (svc', e) \<Longrightarrow> storedTdIDs svc' = storedTdIDs svc"
  by (auto simp: SetThreshold_def SetThresholdDrv_def split: option.splits)

lemma StoreThreshold_stored:
  "StoreThreshold env a svc = (svc', e) \<Longrightarrow> storedTdIDs svc' = storedTdIDs svc"
  by (auto simp: StoreThreshold_def assign_def SetThreshold_stored split: if_splits prod.splits option.splits)

lemma th_attempt_stored: "th_attempt env i svc = (svc', bad) \<Longrightarrow> storedTdIDs svc' = storedTdIDs svc"
  by (auto simp: th_attempt_def StoreThreshold_stored split: option.splits prod.splits)

function storeThresholds_loop :: "th_env \<Rightarrow> th_svc \<Rightarrow> string list \<Rightarrow> th_svc \<times> string list" where
  "storeThresholds_loop env svc failedTdIDs =
     (let tid = StringMap_GetOne (storedTdIDs svc)
      in if tid = [] then (svc, failedTdIDs)
         else case th_attempt env tid (svc\<lparr>storedTdIDs := gdel (storedTdIDs svc) tid\<rparr>) of
                (svc', bad) \<Rightarrow>
                  storeThresholds_loop env svc' (if bad then failedTdIDs @ [tid] else failedTdIDs))"
  by pat_completeness auto
termination
proof (relation "measure (\<lambda>(env, svc, failedTdIDs). length (storedTdIDs svc))", goal_cases)
  case 2
  then show ?case using GetOne_removed th_attempt_stored [OF sym] by fastforce
qed simp

declare storeThresholds_loop.simps [simp del]

definition storeThresholds :: "th_env \<Rightarrow> th_svc \<Rightarrow> th_svc" where
  "storeThresholds env svc =
     (case storeThresholds_loop env svc [] of (svc', failedTdIDs) \<Rightarrow>
        svc'\<lparr>storedTdIDs := fold (\<lambda>i m. gset m i True) failedTdIDs (storedTdIDs svc')\<rparr>)"

text \<open>A shutdown stores what is left, once.\<close>

definition ThresholdService_Shutdown :: "th_env \<Rightarrow> th_svc \<Rightarrow> th_svc" where
  "ThresholdService_Shutdown env svc = storeThresholds env svc"

definition NewThresholdService :: "(string, Threshold) gmap \<Rightarrow> th_svc" where
  "NewThresholdService db =
     \<lparr>objs = [], cacheThresholds = [], dbThresholds = db, storedTdIDs = [], executed = [], pending = {#}\<rparr>"

subsection \<open>The representation invariant\<close>

text \<open>Every address in the cache is one of the heap, and what is cached or stored under a key is the
  threshold of that key. A remote engine answers with the threshold it was asked for.\<close>

definition th_inv :: "th_svc \<Rightarrow> bool" where
  "th_inv svc \<longleftrightarrow>
     (\<forall>k a. gget (cacheThresholds svc) k = Some (Some a) \<longrightarrow>
        a < length (objs svc) \<and> Threshold_TenantID (deref svc a) = k)
     \<and> (\<forall>k t. gget (dbThresholds svc) k = Some t \<longrightarrow> Threshold_TenantID t = k)
     \<and> gmap_ok (storedTdIDs svc) \<and> [] \<notin> fst ` set (storedTdIDs svc)"

definition remote_ok :: "th_env \<Rightarrow> bool" where
  "remote_ok env \<longleftrightarrow> (\<forall>tnt i t. th_RemoteGet env tnt i = Inr t \<longrightarrow> tTenant t = tnt \<and> tID t = i)"

lemma TenantID_nonempty [simp]: "Threshold_TenantID t \<noteq> []"
  by (simp add: Threshold_TenantID_def ConcatenatedKey_def)

lemma TenantID_update [simp]:
  "Threshold_TenantID (t\<lparr>tHits := h\<rparr>) = Threshold_TenantID t"
  "Threshold_TenantID (t\<lparr>tSnooze := s\<rparr>) = Threshold_TenantID t"
  "Threshold_TenantID (t\<lparr>tdirty := d\<rparr>) = Threshold_TenantID t"
  "Threshold_TenantID (t\<lparr>tPrfl := p\<rparr>) = Threshold_TenantID t"
  "Threshold_TenantID (exported t) = Threshold_TenantID t"
  "Threshold_TenantID (bind_threshold tp t) = Threshold_TenantID t"
  by (simp_all add: Threshold_TenantID_def exported_def bind_threshold_def)

lemma assign_simps [simp]:
  "cacheThresholds (assign a t svc) = cacheThresholds svc"
  "dbThresholds (assign a t svc) = dbThresholds svc"
  "storedTdIDs (assign a t svc) = storedTdIDs svc"
  "executed (assign a t svc) = executed svc"
  "length (objs (assign a t svc)) = length (objs svc)"
  by (simp_all add: assign_def)

lemma deref_assign: "deref (assign a t svc) b = (if a = b \<and> a < length (objs svc) then t else deref svc b)"
  by (cases "a = b"; cases "a < length (objs svc)") (simp_all add: assign_def list_update_beyond)

lemma th_inv_assign:
  "th_inv svc \<Longrightarrow> Threshold_TenantID t = Threshold_TenantID (deref svc a) \<Longrightarrow> th_inv (assign a t svc)"
  unfolding th_inv_def by (auto simp: deref_assign)

lemma th_inv_SetThresholdDrv:
  "th_inv svc \<Longrightarrow> SetThresholdDrv env t svc = (svc', e) \<Longrightarrow> th_inv svc'"
  by (auto simp: SetThresholdDrv_def th_inv_def split: option.splits if_splits)

lemma SetThresholdDrv_frame:
  assumes "SetThresholdDrv env t svc = (svc', e)"
  shows "objs svc' = objs svc" "cacheThresholds svc' = cacheThresholds svc" "executed svc' = executed svc"
  using assms by (auto simp: SetThresholdDrv_def split: option.splits)

lemma th_inv_cache_set:
  assumes "th_inv svc"
    and "\<And>a. x = Some a \<Longrightarrow> a < length (objs svc) \<and> Threshold_TenantID (deref svc a) = k"
  shows "th_inv (cache_set env k x svc)"
  using assms by (auto simp: th_inv_def cache_set_def)

lemma cache_set_simps [simp]:
  "objs (cache_set env k x svc) = objs svc" "dbThresholds (cache_set env k x svc) = dbThresholds svc"
  "storedTdIDs (cache_set env k x svc) = storedTdIDs svc" "executed (cache_set env k x svc) = executed svc"
  by (simp_all add: cache_set_def)

lemma load_threshold_cases:
  assumes "load_threshold env tenant i svc = (svc', out)"
  obtains (db) t where "svc' = svc" "out = Inr t" "gget (dbThresholds svc) (ConcatenatedKey [tenant, i]) = Some t"
  | (absent) e where "svc' = svc" "out = Inl e"
  | (remote) t e where "th_RemoteGet env tenant i = Inr t" "SetThresholdDrv env t svc = (svc', e)"
      "out = (case e of None \<Rightarrow> Inr t | Some x \<Rightarrow> Inl (CastRPCErr x))"
  using assms
  by (auto simp: load_threshold_def GetThresholdDrv_def Let_def
      split: sum.splits option.splits if_splits prod.splits)

lemma load_threshold_inv:
  assumes "th_inv svc" and "remote_ok env" and l: "load_threshold env tenant i svc = (svc', out)"
  shows "th_inv svc'" and "objs svc' = objs svc" and "cacheThresholds svc' = cacheThresholds svc"
    and "executed svc' = executed svc"
    and "\<And>t. out = Inr t \<Longrightarrow> Threshold_TenantID t = ConcatenatedKey [tenant, i]"
proof -
  show "th_inv svc'" using l assms(1)
    by (cases rule: load_threshold_cases) (auto dest: th_inv_SetThresholdDrv)
  show "objs svc' = objs svc" "cacheThresholds svc' = cacheThresholds svc" "executed svc' = executed svc"
    using l by (cases rule: load_threshold_cases; auto dest: SetThresholdDrv_frame)+
  show "Threshold_TenantID t = ConcatenatedKey [tenant, i]" if "out = Inr t" for t
    using l that assms(1,2)
    by (cases rule: load_threshold_cases)
      (auto simp: th_inv_def remote_ok_def Threshold_TenantID_def split: option.splits)
qed

text \<open>A threshold that was fetched is on the heap under its key; fetching moves no object.\<close>

lemma GetThreshold_inv:
  assumes "th_inv svc" and "remote_ok env" and "GetThreshold env tenant i cr cw svc = (svc', out)"
  shows "th_inv svc'" and "\<exists>new. objs svc' = objs svc @ new" and "executed svc' = executed svc"
    and "\<And>a. out = Inr a \<Longrightarrow>
      a < length (objs svc') \<and> Threshold_TenantID (deref svc' a) = ConcatenatedKey [tenant, i]"
proof -
  obtain svc1 o1 where l: "load_threshold env tenant i svc = (svc1, o1)"
    by (cases "load_threshold env tenant i svc")
  note L = load_threshold_inv [OF assms(1,2) l]
  let ?k = "ConcatenatedKey [tenant, i]"
  have new: "th_inv (svc1\<lparr>objs := objs svc1 @ [t]\<rparr>)" for t
    using L(1) unfolding th_inv_def by (auto simp: nth_append less_Suc_eq)
  have cached: "gget (cacheThresholds svc) ?k = Some (Some a) \<Longrightarrow>
      a < length (objs svc) \<and> Threshold_TenantID (deref svc a) = ?k" for a
    using assms(1) by (simp add: th_inv_def)
  note def = assms(3) [unfolded GetThreshold_def Let_def l]
  show "th_inv svc'" using def assms(1) L(1,5) new
    by (auto split: option.splits sum.splits if_splits intro!: th_inv_cache_set)
  show "\<exists>new. objs svc' = objs svc @ new" using def L(2)
    by (auto split: option.splits sum.splits if_splits)
  show "executed svc' = executed svc" using def L(4)
    by (auto split: option.splits sum.splits if_splits)
  show "a < length (objs svc') \<and> Threshold_TenantID (deref svc' a) = ?k" if "out = Inr a" for a
    using def L(2,5) cached that by (auto split: option.splits sum.splits if_splits)
qed

text \<open>One candidate of the matching loop: skipped, an error, or bound to its profile.\<close>

lemma th_match_Cons:
  assumes "th_match_loop env ev (tid # tIDs) acc svc = (svc', out)"
  obtains (skip) "th_match_loop env ev tIDs acc svc = (svc', out)"
  | (stop) e where "svc' = svc" "out = Inl e"
  | (gone) tp e where "th_GetThresholdProfile env (evTenant ev) tid = Inr tp"
      "GetThreshold env (tpTenant tp) (tpID tp) True True svc = (svc', Inl e)" "out = Inl e"
  | (found) tp a svc1 where "th_GetThresholdProfile env (evTenant ev) tid = Inr tp"
      "GetThreshold env (tpTenant tp) (tpID tp) True True svc = (svc1, Inr a)"
      "th_match_loop env ev tIDs (gset acc (tpID tp) a)
         (assign a (bind_threshold tp (deref svc1 a)) svc1) = (svc', out)"
proof (cases "th_GetThresholdProfile env (evTenant ev) tid")
  case (Inl e)
  with assms skip stop show ?thesis by (auto split: if_splits)
next
  case (Inr tp)
  obtain svc1 o1 where g: "GetThreshold env (tpTenant tp) (tpID tp) True True svc = (svc1, o1)"
    by (cases "GetThreshold env (tpTenant tp) (tpID tp) True True svc")
  from assms Inr g show ?thesis
    by (cases o1) (auto split: if_splits sum.splits intro: skip stop gone found)
qed

text \<open>What the loop collects: pointers to thresholds of the heap, each bound to its profile and with
  its flag set.\<close>

definition profiles_ok :: "th_env \<Rightarrow> bool" where
  "profiles_ok env \<longleftrightarrow>
     (\<forall>tnt i tp. th_GetThresholdProfile env tnt i = Inr tp \<longrightarrow> tpTenant tp = tnt \<and> tpID tp = i)"

definition bound :: "th_env \<Rightarrow> string \<Rightarrow> th_svc \<Rightarrow> string \<Rightarrow> nat \<Rightarrow> bool" where
  "bound env tnt svc i a \<longleftrightarrow> a < length (objs svc)
     \<and> Threshold_TenantID (deref svc a) = ConcatenatedKey [tnt, i]
     \<and> (\<exists>tp. tPrfl (deref svc a) = Some tp \<and> th_GetThresholdProfile env tnt i = Inr tp
          \<and> tdirty (deref svc a) \<noteq> None
          \<and> (tpMaxHits tp = -1 \<or> tHits (deref svc a) < tpMaxHits tp \<longrightarrow> tdirty (deref svc a) = Some False))"

lemma bound_append: "bound env tnt svc i a \<Longrightarrow> objs svc' = objs svc @ new \<Longrightarrow> bound env tnt svc' i a"
  by (auto simp: bound_def nth_append)

lemma bound_bind:
  assumes "th_GetThresholdProfile env tnt i = Inr tp" and "a < length (objs svc)"
    and "Threshold_TenantID (deref svc a) = ConcatenatedKey [tnt, i]"
  shows "bound env tnt (assign a (bind_threshold tp (deref svc a)) svc) i a"
  using assms by (auto simp: bound_def deref_assign bind_threshold_def Threshold_TenantID_def)

lemma bound_other: "bound env tnt svc i a \<Longrightarrow> a \<noteq> b \<Longrightarrow> bound env tnt (assign b t svc) i a"
  by (simp add: bound_def deref_assign)

lemma same_address_same_id:
  "bound env tnt svc i a \<Longrightarrow> Threshold_TenantID (deref svc a) = ConcatenatedKey [tnt, j] \<Longrightarrow> i = j"
  by (simp add: bound_def ConcatenatedKey_def)

lemma th_match_loop_spec:
  assumes ok: "remote_ok env" "profiles_ok env"
    and "th_inv svc" and "gmap_ok acc" and "\<forall>i a. gget acc i = Some a \<longrightarrow> bound env (evTenant ev) svc i a"
    and "th_match_loop env ev tIDs acc svc = (svc', out)"
  shows "th_inv svc' \<and> executed svc' = executed svc
    \<and> (\<forall>m. out = Inr m \<longrightarrow> gmap_ok m \<and> (\<forall>i a. gget m i = Some a \<longrightarrow> bound env (evTenant ev) svc' i a))"
  using assms(3-)
proof (induction tIDs arbitrary: acc svc)
  case (Cons tid tIDs)
  from Cons.prems(4) show ?case
  proof (cases rule: th_match_Cons)
    case skip
    with Cons show ?thesis by blast
  next
    case stop
    with Cons.prems show ?thesis by auto
  next
    case gone
    with GetThreshold_inv [OF Cons.prems(1) ok(1) gone(2)] show ?thesis by auto
  next
    case (found tp a svc1)
    note G = GetThreshold_inv [OF Cons.prems(1) ok(1) found(2)]
    have tp: "tpTenant tp = evTenant ev" "tpID tp = tid" using ok(2) found(1) by (auto simp: profiles_ok_def)
    let ?svc2 = "assign a (bind_threshold tp (deref svc1 a)) svc1"
    have a: "a < length (objs svc1)" "Threshold_TenantID (deref svc1 a) = ConcatenatedKey [evTenant ev, tid]"
      using G(4) tp by auto
    have own: "bound env (evTenant ev) ?svc2 tid a" using found(1) a by (rule bound_bind)
    have "bound env (evTenant ev) ?svc2 i b" if "gget (gset acc tid a) i = Some b" for i b
    proof (cases "i = tid")
      case False
      with that Cons.prems(3) have "bound env (evTenant ev) svc i b" by simp
      then have b: "bound env (evTenant ev) svc1 i b" using G(2) bound_append by blast
      then have "a \<noteq> b" using same_address_same_id [OF b] a(2) False by blast
      then show ?thesis using bound_other [OF b, of a] by simp
    qed (use own that in simp)
    then have acc: "\<forall>i b. gget (gset acc tid a) i = Some b \<longrightarrow> bound env (evTenant ev) ?svc2 i b" by blast
    have "th_inv ?svc2" by (rule th_inv_assign [OF G(1)]) simp
    then have "th_inv svc' \<and> executed svc' = executed ?svc2
      \<and> (\<forall>m. out = Inr m \<longrightarrow> gmap_ok m \<and> (\<forall>i a. gget m i = Some a \<longrightarrow> bound env (evTenant ev) svc' i a))"
      by (rule Cons.IH [OF _ gmap_ok_gset [OF Cons.prems(2)] acc found(3) [unfolded tp(2)]])
    with G(3) show ?thesis by simp
  qed
qed auto

interpretation tm: matching_order "\<lambda>a. tPrfl (deref svc a)" tpWeight tpBlocker "sort_ptrs svc" "cut_ptrs svc" for svc
  by unfold_locales (simp_all add: sort_ptrs_def)

lemma matchingThresholds_cases:
  assumes "matchingThresholdsForEvent env args svc = (svc', out)"
  obtains (index) e where "svc' = svc" "out = Inl e"
  | (loop) tIDs o1 where "th_match_loop env (apeCGREvent args) tIDs [] svc = (svc', o1)"
      "apeThresholdIDs args \<noteq> [] \<longrightarrow> tIDs = apeThresholdIDs args"
      "out = (case o1 of Inl e \<Rightarrow> Inl e | Inr m \<Rightarrow> Inr (cut_ptrs svc' (sort_ptrs svc' (map snd m))))"
  using assms
  by (auto simp: matchingThresholdsForEvent_def Let_def split: if_splits sum.splits prod.splits)

lemma matchingThresholds_spec:
  assumes ok: "remote_ok env" "profiles_ok env" and "th_inv svc"
    and "matchingThresholdsForEvent env args svc = (svc', out)"
  shows "th_inv svc'" and "executed svc' = executed svc"
    and "\<And>ts. out = Inr ts \<Longrightarrow> distinct (map (\<lambda>a. Threshold_TenantID (deref svc' a)) ts)
      \<and> (\<forall>a \<in> set ts. \<exists>i. bound env (evTenant (apeCGREvent args)) svc' i a)"
proof -
  let ?tnt = "evTenant (apeCGREvent args)"
  have *: "th_inv svc' \<and> executed svc' = executed svc
    \<and> (\<forall>ts. out = Inr ts \<longrightarrow> distinct (map (\<lambda>a. Threshold_TenantID (deref svc' a)) ts)
      \<and> (\<forall>a \<in> set ts. \<exists>i. bound env ?tnt svc' i a))"
    using assms(4)
  proof (cases rule: matchingThresholds_cases)
    case (loop tIDs o1)
    note M = th_match_loop_spec [OF ok assms(3) _ _ loop(1), simplified]
    have "distinct (map (\<lambda>a. Threshold_TenantID (deref svc' a)) ts)
      \<and> (\<forall>a \<in> set ts. \<exists>i. bound env ?tnt svc' i a)"
      if "out = Inr ts" for ts
    proof -
      from that loop(3) obtain m where m: "o1 = Inr m" "ts = cut_ptrs svc' (sort_ptrs svc' (map snd m))"
        by (auto split: sum.splits)
      have b: "bound env ?tnt svc' i a" if "(i, a) \<in> set m" for i a
        using M m(1) that by (auto simp: map_of_eq_Some_iff)
      then have "map (\<lambda>a. Threshold_TenantID (deref svc' a)) (map snd m) = map (\<lambda>i. ConcatenatedKey [?tnt, i]) (map fst m)"
        by (auto simp: bound_def)
      moreover have "distinct (map (\<lambda>i. ConcatenatedKey [?tnt, i]) (map fst m))"
        using M m(1) by (simp add: distinct_map inj_on_def ConcatenatedKey_def)
      ultimately have "distinct (map (\<lambda>a. Threshold_TenantID (deref svc' a)) ts)"
        using tm.distinct_cut_Sort m(2) by metis
      moreover have "set ts \<subseteq> snd ` set m" using tm.set_cut_Sort [of svc' "map snd m"] m(2) by simp
      ultimately show ?thesis using b by fastforce
    qed
    then show ?thesis using M by blast
  qed (use assms(3) in simp)
  then show "th_inv svc'" "executed svc' = executed svc"
    "\<And>ts. out = Inr ts \<Longrightarrow> distinct (map (\<lambda>a. Threshold_TenantID (deref svc' a)) ts)
      \<and> (\<forall>a \<in> set ts. \<exists>i. bound env ?tnt svc' i a)"
    by blast+
qed

text \<open>Running actions changes nothing but the trace of those waited for and the goroutines started.\<close>

definition started :: "bool \<Rightarrow> ActionTiming list \<Rightarrow> th_svc \<Rightarrow> th_svc" where
  "started async acts svc =
     svc\<lparr>executed := executed svc @ (if async then [] else acts),
         pending := pending svc + (if async then mset acts else {#})\<rparr>"

lemma run_actions_spec:
  "\<exists>acts. run_actions env ev acntID async ids err svc =
      (started async acts svc,
       if \<not> async \<and> (\<exists>act \<in> set acts. th_Execute env act \<noteq> None) then Some ErrPartiallyExecuted else err)
    \<and> map atActionsID acts = ids \<and> list_all (\<lambda>act. atExtraData act = ev) acts"
proof (induction ids arbitrary: err svc)
  case (Cons i ids)
  let ?act = "\<lparr>atUuid = th_GenUUID env (length (executed svc) + size (pending svc)), atActionsID = i, atExtraData = ev,
    ataccountIDs = (if acntID \<noteq> [] then Some (NewStringMap [acntID]) else None)\<rparr>"
  let ?err = "if \<not> async \<and> th_Execute env ?act \<noteq> None then Some ErrPartiallyExecuted else err"
  from Cons.IH [of ?err "started async [?act] svc"] obtain acts where
    acts: "run_actions env ev acntID async ids ?err (started async [?act] svc) =
      (started async acts (started async [?act] svc),
       if \<not> async \<and> (\<exists>act \<in> set acts. th_Execute env act \<noteq> None) then Some ErrPartiallyExecuted else ?err)"
    "map atActionsID acts = ids" "list_all (\<lambda>act. atExtraData act = ev) acts" by blast
  have "run_actions env ev acntID async (i # ids) err svc = run_actions env ev acntID async ids ?err (started async [?act] svc)"
    by (simp add: Let_def started_def)
  moreover have "started async acts (started async [?act] svc) = started async (?act # acts) svc"
    by (simp add: started_def)
  ultimately show ?case using acts by (intro exI [of _ "?act # acts"]) auto
qed (auto intro!: exI [of _ "[]"] simp: started_def)

lemma started_simps [simp]:
  "objs (started async acts svc) = objs svc" "cacheThresholds (started async acts svc) = cacheThresholds svc"
  "dbThresholds (started async acts svc) = dbThresholds svc" "storedTdIDs (started async acts svc) = storedTdIDs svc"
  by (simp_all add: started_def)

definition fires :: "gotime \<Rightarrow> ThresholdProfile \<Rightarrow> Threshold \<Rightarrow> bool" where
  "fires now tp t \<longleftrightarrow> tSnooze t \<le> now \<and> tpMinHits tp \<le> tHits t
     \<and> (tpMaxHits tp = -1 \<or> tHits t \<le> tpMaxHits tp)"

lemma Threshold_ProcessEvent_spec:
  assumes "tPrfl (deref svc a) = Some tp"
  shows "\<exists>acts. Threshold_ProcessEvent env now ev a svc =
      (started (tpAsync tp) acts svc,
       if \<not> tpAsync tp \<and> (\<exists>act \<in> set acts. th_Execute env act \<noteq> None) then Some ErrPartiallyExecuted else None)
    \<and> map atActionsID acts = (if fires now tp (deref svc a) then tpActionIDs tp else [])
    \<and> list_all (\<lambda>act. atExtraData act = ev) acts"
proof (cases "fires now tp (deref svc a)")
  case True
  then show ?thesis
    using assms run_actions_spec [of env ev _ "tpAsync tp" "tpActionIDs tp" None svc]
    by (auto simp: Threshold_ProcessEvent_def fires_def Let_def)
next
  case False
  then show ?thesis using assms
    by (intro exI [of _ "[]"]) (auto simp: Threshold_ProcessEvent_def fires_def Let_def started_def)
qed

subsection \<open>Frames\<close>

text \<open>What an operation on the threshold of one key leaves alone: the objects at other addresses and
  the rows of other keys.\<close>

definition frame :: "string \<Rightarrow> nat \<Rightarrow> th_svc \<Rightarrow> th_svc \<Rightarrow> bool" where
  "frame k a svc svc' \<longleftrightarrow> length (objs svc) \<le> length (objs svc')
     \<and> (\<forall>b < length (objs svc). b \<noteq> a \<longrightarrow> deref svc' b = deref svc b)
     \<and> (\<forall>j. j \<noteq> k \<longrightarrow> gget (dbThresholds svc') j = gget (dbThresholds svc) j)"

lemma frame_refl [simp]: "frame k a svc svc"
  by (simp add: frame_def)

lemma frame_trans: "frame k a s1 s2 \<Longrightarrow> frame k a s2 s3 \<Longrightarrow> frame k a s1 s3"
  unfolding frame_def by (metis order_less_le_trans order_trans)

lemma frame_upd [simp]:
  "frame k a svc (started async acts svc') = frame k a svc svc'"
  "frame k a svc (svc'\<lparr>storedTdIDs := y\<rparr>) = frame k a svc svc'"
  "frame k a svc (svc'\<lparr>cacheThresholds := z\<rparr>) = frame k a svc svc'"
  by (simp_all add: frame_def)

lemma frame_assign: "frame k a svc svc' \<Longrightarrow> frame k a svc (assign a t svc')"
  by (simp add: frame_def deref_assign)

lemma frame_SetThresholdDrv:
  "SetThresholdDrv env t svc = (svc', e) \<Longrightarrow> frame (Threshold_TenantID t) a svc svc'"
  by (auto simp: SetThresholdDrv_def frame_def split: option.splits)

lemma frame_SetThreshold:
  "SetThreshold env t svc = (svc', e) \<Longrightarrow> frame (Threshold_TenantID t) a svc svc'"
  by (auto simp: SetThreshold_def split: prod.splits option.splits dest: frame_SetThresholdDrv)

lemma frame_StoreThreshold:
  "StoreThreshold env a svc = (svc', e) \<Longrightarrow> frame (Threshold_TenantID (deref svc a)) a svc svc'"
  by (auto simp: StoreThreshold_def split: if_splits prod.splits option.splits
      intro!: frame_assign dest: frame_SetThreshold)

lemma th_inv_StoreThreshold: "th_inv svc \<Longrightarrow> StoreThreshold env a svc = (svc', e) \<Longrightarrow> th_inv svc'"
  by (auto simp: StoreThreshold_def SetThreshold_def split: if_splits prod.splits option.splits
      intro!: th_inv_assign dest: th_inv_SetThresholdDrv)

lemma frame_RemoveThreshold:
  "RemoveThreshold env tnt i svc = (svc', e) \<Longrightarrow> frame (ConcatenatedKey [tnt, i]) a svc svc'"
  by (auto simp: RemoveThreshold_def RemoveThresholdDrv_def Let_def frame_def split: option.splits)

lemma th_inv_RemoveThreshold: "th_inv svc \<Longrightarrow> RemoveThreshold env tnt i svc = (svc', e) \<Longrightarrow> th_inv svc'"
  by (auto simp: RemoveThreshold_def RemoveThresholdDrv_def Let_def th_inv_def split: option.splits if_splits)

lemma frame_GetThreshold:
  assumes "th_inv svc" and "remote_ok env" and "GetThreshold env tnt i cr cw svc = (svc', out)"
  shows "frame (ConcatenatedKey [tnt, i]) a svc svc'"
proof -
  have "dbThresholds svc' = dbThresholds svc
    \<or> (\<exists>svc1 t e. SetThresholdDrv env t svc = (svc1, e) \<and> th_RemoteGet env tnt i = Inr t
        \<and> dbThresholds svc' = dbThresholds svc1)"
    using assms(3) unfolding GetThreshold_def Let_def load_threshold_def
    by (auto split: option.splits sum.splits if_splits prod.splits)
  then have "gget (dbThresholds svc') j = gget (dbThresholds svc) j" if "j \<noteq> ConcatenatedKey [tnt, i]" for j
    using assms(2) that frame_SetThresholdDrv [where a = a]
    by (fastforce simp: remote_ok_def frame_def Threshold_TenantID_def)
  then show ?thesis
    using GetThreshold_inv(2) [OF assms] by (auto simp: frame_def nth_append)
qed

lemma NewTenantID_key:
  "CHR '':'' \<in> set k \<Longrightarrow> ConcatenatedKey [tntTenant (NewTenantID k), tntID (NewTenantID k)] = k"
proof -
  assume k: "CHR '':'' \<in> set k"
  have "join_with '':'' (split_on CHR '':'' k) = k" by (rule join_split)
  moreover have "tl (split_on CHR '':'' k) \<noteq> []"
    using k by (induction k) (auto split: list.splits)
  ultimately show ?thesis using k
    by (cases "split_on CHR '':'' k"; cases "tl (split_on CHR '':'' k)")
      (auto simp: NewTenantID_def ConcatenatedKey_def Let_def)
qed

lemma colon_TenantID [simp]: "CHR '':'' \<in> set (Threshold_TenantID t)"
  by (simp add: Threshold_TenantID_def ConcatenatedKey_def)

lemma th_inv_gdel: "th_inv svc \<Longrightarrow> th_inv (svc\<lparr>cacheThresholds := gdel (cacheThresholds svc) k\<rparr>)"
  by (auto simp: th_inv_def split: if_splits)

lemma CacheDataFromDB_threshold_spec:
  assumes "th_inv svc" and "remote_ok env" and "CHR '':'' \<in> set k"
    and "CacheDataFromDB_threshold env k svc = (svc', e)"
  shows "th_inv svc'" and "frame k a svc svc'" and "executed svc' = executed svc"
    and "length (objs svc) \<le> length (objs svc') \<and> take (length (objs svc)) (objs svc') = objs svc"
proof -
  let ?t = "NewTenantID k"
  obtain s o1 where g: "GetThreshold env (tntTenant ?t) (tntID ?t) False True svc = (s, o1)"
    by (cases "GetThreshold env (tntTenant ?t) (tntID ?t) False True svc")
  note G = GetThreshold_inv [OF assms(1,2) g]
    and F = frame_GetThreshold [OF assms(1,2) g, unfolded NewTenantID_key [OF assms(3)]]
  consider "svc' = svc" | "svc' = s" | "svc' = s\<lparr>cacheThresholds := gdel (cacheThresholds s) k\<rparr>"
    using assms(4) g by (auto simp: CacheDataFromDB_threshold_def Let_def split: if_splits sum.splits)
  note cs = this
  show "th_inv svc'" by (cases rule: cs) (use assms(1) G(1) th_inv_gdel in auto)
  show "frame k a svc svc'" by (cases rule: cs) (use F in auto)
  show "executed svc' = executed svc" by (cases rule: cs) (use G(3) in auto)
  show "length (objs svc) \<le> length (objs svc') \<and> take (length (objs svc)) (objs svc') = objs svc"
    by (cases rule: cs) (use G(2) in auto)
qed

text \<open>One turn of \<^verbatim>\<open>processEvent\<close>: the hit is counted and the actions run; on an error nothing else
  happens, otherwise the threshold is removed or snoozed and stored.\<close>

definition hit :: "Threshold \<Rightarrow> Threshold" where
  "hit t = t\<lparr>tHits := wrap64 (tHits t + 1)\<rparr>"

lemma hit_simps [simp]:
  "Threshold_TenantID (hit t) = Threshold_TenantID t" "tPrfl (hit t) = tPrfl t" "tdirty (hit t) = tdirty t"
  "tHits (hit t) = wrap64 (tHits t + 1)" "tSnooze (hit t) = tSnooze t" "tTenant (hit t) = tTenant t"
  "tID (hit t) = tID t"
  by (simp_all add: hit_def)

lemma process_one_cases:
  assumes p: "process_one env now ev a svc = (svc', bad)"
    and a: "a < length (objs svc)" and tp: "tPrfl (deref svc a) = Some tp" and d: "tdirty (deref svc a) \<noteq> None"
  obtains (failed) acts where "svc' = started (tpAsync tp) acts (assign a (hit (deref svc a)) svc)" "bad"
  | (removed) acts svc3 e1 e2 where "tHits (hit (deref svc a)) = tpMaxHits tp"
      "RemoveThreshold env (tTenant (deref svc a)) (tID (deref svc a))
        (started (tpAsync tp) acts (assign a (hit (deref svc a)) svc)) = (svc3, e1)"
      "CacheDataFromDB_threshold env (Threshold_TenantID (deref svc a)) svc3 = (svc', e2)"
      "bad = (e1 \<noteq> None \<or> e2 \<noteq> None)"
  | (stored) acts svc3 where "tHits (hit (deref svc a)) \<noteq> tpMaxHits tp" "\<not> bad"
      "svc3 = assign a ((hit (deref svc a))\<lparr>tSnooze := time_Add now (tpMinSleep tp), tdirty := Some True\<rparr>)
        (started (tpAsync tp) acts (assign a (hit (deref svc a)) svc))"
      "svc' = (if th_StoreInterval env = -1 then fst (StoreThreshold env a svc3)
        else svc3\<lparr>storedTdIDs := gset (storedTdIDs svc) (Threshold_TenantID (deref svc a)) True\<rparr>)"
proof -
  let ?svc1 = "assign a (hit (deref svc a)) svc"
  have d1: "deref ?svc1 a = hit (deref svc a)" using a by (simp add: deref_assign)
  have tp1: "tPrfl (deref ?svc1 a) = Some tp" using d1 tp by simp
  obtain acts e where ran: "Threshold_ProcessEvent env now ev a ?svc1 = (started (tpAsync tp) acts ?svc1, e)"
    using Threshold_ProcessEvent_spec [OF tp1, of env now ev] by auto
  let ?svc2 = "started (tpAsync tp) acts ?svc1"
  have d2: "deref ?svc2 a = hit (deref svc a)" using d1 by simp
  note def = p [unfolded process_one_def Let_def, folded hit_def, unfolded ran]
  show ?thesis
  proof (cases e)
    case (Some x)
    show ?thesis by (rule failed [of acts]) (use def Some in auto)
  next
    case None
    show ?thesis
    proof (cases "tHits (hit (deref svc a)) = tpMaxHits tp")
      case True
      with None def d2 d1 tp d show ?thesis
        by (auto split: prod.splits intro: removed)
    next
      case False
      with None def d2 d1 tp d show ?thesis by (auto split: if_splits intro: stored)
    qed
  qed
qed

lemma process_one_inv:
  assumes "th_inv svc" and "remote_ok env" and "process_one env now ev a svc = (svc', bad)"
    and "a < length (objs svc)" and "tPrfl (deref svc a) = Some tp" and "tdirty (deref svc a) \<noteq> None"
  shows "th_inv svc'" and "frame (Threshold_TenantID (deref svc a)) a svc svc'"
proof -
  let ?k = "Threshold_TenantID (deref svc a)"
  let ?hit = "\<lambda>acts. started (tpAsync tp) acts (assign a (hit (deref svc a)) svc)"
  have inv_upd: "th_inv (started async acts s) = th_inv s" for s async acts by (simp add: th_inv_def)
  have hit_inv: "th_inv (?hit acts)" for acts
    unfolding inv_upd by (rule th_inv_assign [OF assms(1)]) simp
  have hit_fr: "frame ?k a svc (?hit acts)" for acts by (simp add: frame_assign)
  have both: "th_inv svc' \<and> frame ?k a svc svc'"
    using assms(3-6)
  proof (cases rule: process_one_cases)
    case failed
    then show ?thesis using hit_inv hit_fr by simp
  next
    case (removed acts svc3 e1 e2)
    have i3: "th_inv svc3" by (rule th_inv_RemoveThreshold [OF hit_inv removed(2)])
    have f3: "frame ?k a (?hit acts) svc3"
      using frame_RemoveThreshold [OF removed(2)] by (simp add: Threshold_TenantID_def)
    note C = CacheDataFromDB_threshold_spec [OF i3 assms(2) colon_TenantID removed(3)]
    from frame_trans [OF frame_trans [OF hit_fr f3] C(2)] C(1) show ?thesis by blast
  next
    case (stored acts svc3)
    have i3: "th_inv svc3" unfolding stored(3) by (rule th_inv_assign [OF hit_inv]) (simp add: deref_assign assms(4))
    have f3: "frame ?k a svc svc3" unfolding stored(3) by (rule frame_assign [OF hit_fr])
    have k3: "Threshold_TenantID (deref svc3 a) = ?k" unfolding stored(3) by (simp add: deref_assign assms(4))
    obtain svc4 e where s4: "StoreThreshold env a svc3 = (svc4, e)" by (cases "StoreThreshold env a svc3")
    have "th_inv (svc3\<lparr>storedTdIDs := gset (storedTdIDs svc) ?k True\<rparr>)"
      using i3 assms(1) by (auto simp: th_inv_def not_sym [OF TenantID_nonempty])
    moreover have "th_inv svc4" "frame ?k a svc svc4"
      using th_inv_StoreThreshold [OF i3 s4] frame_trans [OF f3] frame_StoreThreshold [OF s4] k3 by auto
    ultimately show ?thesis using stored(4) s4 f3 by simp
  qed
  then show "th_inv svc'" "frame ?k a svc svc'" by simp_all
qed

text \<open>A run over several thresholds with different keys.\<close>

definition ready :: "th_svc \<Rightarrow> nat \<Rightarrow> bool" where
  "ready svc a \<longleftrightarrow> a < length (objs svc) \<and> tPrfl (deref svc a) \<noteq> None \<and> tdirty (deref svc a) \<noteq> None"

lemma bound_ready: "bound env tnt svc i a \<Longrightarrow> ready svc a"
  by (auto simp: bound_def ready_def)

lemma ready_frame: "ready svc b \<Longrightarrow> frame k a svc svc' \<Longrightarrow> b \<noteq> a \<Longrightarrow> ready svc' b"
  by (auto simp: ready_def frame_def)

lemma process_all_inv:
  assumes "remote_ok env" and "th_inv svc" and "process_all env now ev ts svc = (svc', bad)"
    and "\<forall>a \<in> set ts. ready svc a" and "distinct ts"
  shows "th_inv svc'"
  using assms(2-)
proof (induction ts arbitrary: svc svc' bad)
  case (Cons a ts)
  obtain s1 b1 where p1: "process_one env now ev a svc = (s1, b1)" by (cases "process_one env now ev a svc")
  obtain s2 b2 where p2: "process_all env now ev ts s1 = (s2, b2)" by (cases "process_all env now ev ts s1")
  obtain tp where tp: "tPrfl (deref svc a) = Some tp" using Cons.prems(3) by (auto simp: ready_def)
  have r: "a < length (objs svc)" "tdirty (deref svc a) \<noteq> None" using Cons.prems(3) by (auto simp: ready_def)
  note I = process_one_inv [OF Cons.prems(1) assms(1) p1 r(1) tp r(2)]
  have "\<forall>b \<in> set ts. ready s1 b" using Cons.prems(3,4) I(2) by (auto intro: ready_frame)
  with Cons.IH [OF I(1) p2] Cons.prems p1 p2 show ?case by simp
qed simp

subsection \<open>The backup contract\<close>

definition th_view :: "th_svc \<Rightarrow> string \<Rightarrow> Threshold option" where
  "th_view svc i = (case gget (cacheThresholds svc) i of Some (Some a) \<Rightarrow> Some (deref svc a) | _ \<Rightarrow> None)"

definition set_ok :: "th_env \<Rightarrow> Threshold \<Rightarrow> bool" where
  "set_ok env t \<longleftrightarrow> th_Cmd env ''SET'' (''thd_'' @ Threshold_TenantID t) = None"

definition set_fails :: "th_env \<Rightarrow> Threshold \<Rightarrow> bool" where
  "set_fails env t \<longleftrightarrow> \<not> set_ok env t \<or> th_Replicate env \<and> th_ReplicatorSet env t \<noteq> None"

definition th_fails :: "th_env \<Rightarrow> Threshold option \<Rightarrow> bool" where
  "th_fails env x = (case x of None \<Rightarrow> False | Some t \<Rightarrow> tdirty t = Some True \<and> set_fails env t)"

definition th_write :: "th_env \<Rightarrow> Threshold option \<Rightarrow> (string, Threshold) gmap \<Rightarrow> (string, Threshold) gmap" where
  "th_write env x db =
     (case x of
        None \<Rightarrow> db
      | Some t \<Rightarrow>
          if tdirty t = Some True \<and> set_ok env t
          then gset db (Threshold_TenantID t) (exported t) else db)"

lemma StoreThreshold_cases:
  assumes "StoreThreshold env a svc = (svc', e)"
  obtains (clean) "tdirty (deref svc a) \<noteq> Some True" "svc' = svc" "e = None"
  | (unset) "tdirty (deref svc a) = Some True" "\<not> set_ok env (deref svc a)" "svc' = svc" "e \<noteq> None"
  | (set) svc1 where "tdirty (deref svc a) = Some True" "set_ok env (deref svc a)"
      "svc1 = svc\<lparr>dbThresholds := gset (dbThresholds svc) (Threshold_TenantID (deref svc a)) (exported (deref svc a))\<rparr>"
      "svc' = (if set_fails env (deref svc a) then svc1
        else assign a ((deref svc a)\<lparr>tdirty := Some False\<rparr>) svc1)"
      "e \<noteq> None \<longleftrightarrow> set_fails env (deref svc a)"
proof (cases "tdirty (deref svc a) = Some True")
  case False
  show ?thesis by (rule clean [OF False]) (use assms False in \<open>simp_all add: StoreThreshold_def\<close>)
next
  case True
  show ?thesis
  proof (cases "set_ok env (deref svc a)")
    case ok: True
    let ?r = "if th_Replicate env then map_option CastRPCErr (th_ReplicatorSet env (deref svc a)) else None"
    let ?svc1 = "svc\<lparr>dbThresholds := gset (dbThresholds svc) (Threshold_TenantID (deref svc a)) (exported (deref svc a))\<rparr>"
    have "(svc', e) = (case ?r of Some x \<Rightarrow> (?svc1, Some x)
        | None \<Rightarrow> (assign a ((deref svc a)\<lparr>tdirty := Some False\<rparr>) ?svc1, None))"
      using True ok unfolding assms [symmetric]
      by (simp add: StoreThreshold_def SetThreshold_def SetThresholdDrv_def set_ok_def)
    moreover have "?r \<noteq> None \<longleftrightarrow> set_fails env (deref svc a)" using ok by (simp add: set_fails_def)
    ultimately show ?thesis
      by (intro set [OF True ok refl]) (cases ?r; simp)+
  next
    case bad: False
    then obtain x where x: "th_Cmd env ''SET'' (''thd_'' @ Threshold_TenantID (deref svc a)) = Some x"
      by (auto simp: set_ok_def)
    have "StoreThreshold env a svc = (svc, Some x)"
      using True x by (simp add: StoreThreshold_def SetThreshold_def SetThresholdDrv_def)
    with assms have "svc' = svc" "e = Some x" by simp_all
    then show ?thesis by (intro unset [OF True bad]) simp_all
  qed
qed

lemma StoreThreshold_spec:
  assumes "StoreThreshold env a svc = (svc', e)"
  shows "e \<noteq> None \<longleftrightarrow> tdirty (deref svc a) = Some True \<and> set_fails env (deref svc a)"
    and "dbThresholds svc' = th_write env (Some (deref svc a)) (dbThresholds svc)"
    and "cacheThresholds svc' = cacheThresholds svc"
  using assms by (cases rule: StoreThreshold_cases; simp add: th_write_def set_fails_def)+

lemma th_attempt_cases:
  assumes "th_attempt env i svc = (svc', bad)"
  obtains (none) "th_view svc i = None" "svc' = svc" "\<not> bad"
  | (some) a e where "gget (cacheThresholds svc) i = Some (Some a)" "th_view svc i = Some (deref svc a)"
      "StoreThreshold env a svc = (svc', e)" "bad = (e \<noteq> None)"
  using assms by (auto simp: th_attempt_def th_view_def split: option.splits prod.splits)

interpretation tb: backup storedTdIDs "\<lambda>m. storedTdIDs_update (\<lambda>_. m)" "th_attempt env"
  "storeThresholds_loop env" "\<lambda>svc. th_inv (svc\<lparr>storedTdIDs := []\<rparr>)" th_view "th_fails env" "th_write env" dbThresholds for env
proof unfold_locales
  fix s failed
  show "storeThresholds_loop env s failed =
      (let i = StringMap_GetOne (storedTdIDs s)
       in if i = [] then (s, failed)
          else case th_attempt env i (s\<lparr>storedTdIDs := gdel (storedTdIDs s) i\<rparr>) of
                 (s', bad) \<Rightarrow> storeThresholds_loop env s' (if bad then failed @ [i] else failed))"
    by (rule storeThresholds_loop.simps)
next
  fix i s s' bad
  assume a: "th_attempt env i s = (s', bad)"
  show "storedTdIDs s' = storedTdIDs s" by (rule th_attempt_stored [OF a])
  assume inv: "th_inv (s\<lparr>storedTdIDs := []\<rparr>)"
  show "bad = th_fails env (th_view s i)"
    using a by (cases rule: th_attempt_cases) (auto simp: th_fails_def dest: StoreThreshold_spec(1))
  show "dbThresholds s' = th_write env (th_view s i) (dbThresholds s)"
    using a by (cases rule: th_attempt_cases) (auto simp: th_write_def dest: StoreThreshold_spec(2))
  show "th_inv (s'\<lparr>storedTdIDs := []\<rparr>)"
    using a
  proof (cases rule: th_attempt_cases)
    case (some x e)
    from some(3) show ?thesis
    proof (cases rule: StoreThreshold_cases)
      case (set s1)
      have "th_inv (s1\<lparr>storedTdIDs := []\<rparr>)" unfolding set(3) using inv by (auto simp: th_inv_def)
      moreover have "(assign x t s1)\<lparr>storedTdIDs := []\<rparr> = assign x t (s1\<lparr>storedTdIDs := []\<rparr>)" for t
        by (simp add: assign_def)
      ultimately show ?thesis using set(3,4) by (auto intro!: th_inv_assign)
    qed (use inv in simp_all)
  qed (use inv in simp)
  show "th_view s' j = th_view s j" if "j \<noteq> i" for j
    using a
  proof (cases rule: th_attempt_cases)
    case (some x e)
    have "y < length (objs s) \<and> y \<noteq> x" if "gget (cacheThresholds s) j = Some (Some y)" for y
      using inv that some(1) \<open>j \<noteq> i\<close> unfolding th_inv_def by simp metis
    then show ?thesis
      using frame_StoreThreshold [OF some(3)] StoreThreshold_spec(3) [OF some(3)]
      by (auto simp: th_view_def frame_def split: option.splits)
  qed simp
qed (auto simp: th_view_def fun_eq_iff split: option.splits)

text \<open>The rows after a backup.\<close>

lemma gget_th_write:
  "gget (th_write env x db) k =
     (case x of
        None \<Rightarrow> gget db k
      | Some t \<Rightarrow>
          if tdirty t = Some True \<and> set_ok env t \<and> Threshold_TenantID t = k
          then Some (exported t) else gget db k)"
  by (auto simp: th_write_def split: option.splits)

lemma fold_th_write:
  assumes "\<And>i t. i \<in> set is \<Longrightarrow> f i = Some t \<Longrightarrow> Threshold_TenantID t = i" and "distinct is"
  shows "gget (fold (\<lambda>i. th_write env (f i)) is db) k =
    (if k \<in> set is then gget (th_write env (f k) db) k else gget db k)"
  using assms
proof (induction "is" arbitrary: db)
  case (Cons i "is")
  have other: "gget (th_write env (f i) db) j = gget db j" if "j \<noteq> i" for j
    using that Cons.prems(1) [of i] by (auto simp: gget_th_write split: option.splits)
  have "gget (th_write env (f k) (th_write env (f i) db)) k = gget (th_write env (f k) db) k" if "k \<noteq> i"
    using other [OF that] by (auto simp: gget_th_write [of env "f k"] split: option.splits)
  with Cons other show ?case by auto
qed simp

lemma storeThresholds_spec:
  assumes "th_inv svc"
  shows "th_inv (storeThresholds env svc)"
    and "fst ` set (storedTdIDs (storeThresholds env svc)) =
      {i \<in> fst ` set (storedTdIDs svc). th_fails env (th_view svc i)}"
    and "gget (dbThresholds (storeThresholds env svc)) k =
      (if k \<in> fst ` set (storedTdIDs svc) then gget (th_write env (th_view svc k) (dbThresholds svc)) k
       else gget (dbThresholds svc) k)"
proof -
  obtain svc' fl where l: "storeThresholds_loop env svc [] = (svc', fl)" by (cases "storeThresholds_loop env svc []")
  have inv0: "th_inv (svc\<lparr>storedTdIDs := []\<rparr>)" and ok: "gmap_ok (storedTdIDs svc)" "[] \<notin> fst ` set (storedTdIDs svc)"
    using assms by (auto simp: th_inv_def)
  note B = tb.backup_complete [OF l inv0 ok]
  have res: "storeThresholds env svc = svc'\<lparr>storedTdIDs := fold (\<lambda>i m. gset m i True) fl (storedTdIDs svc')\<rparr>"
    by (simp add: storeThresholds_def l)
  show idx: "fst ` set (storedTdIDs (storeThresholds env svc)) =
      {i \<in> fst ` set (storedTdIDs svc). th_fails env (th_view svc i)}"
    using B(1) by (simp add: res)
  have "storedTdIDs svc' = []" using tb.loop_spec [OF l inv0 ok] by simp
  then have "gmap_ok (storedTdIDs (storeThresholds env svc))"
    unfolding res by (simp add: gmap_ok_fold_gset)
  then show "th_inv (storeThresholds env svc)"
    using B(3) idx ok(2) by (auto simp: th_inv_def res)
  have "Threshold_TenantID t = i" if "th_view svc i = Some t" for i t
    using assms that by (auto simp: th_inv_def th_view_def split: option.splits)
  then show "gget (dbThresholds (storeThresholds env svc)) k =
      (if k \<in> fst ` set (storedTdIDs svc) then gget (th_write env (th_view svc k) (dbThresholds svc)) k
       else gget (dbThresholds svc) k)"
    using fold_th_write [of "map fst (storedTdIDs svc)" "th_view svc" env "dbThresholds svc" k] ok(1) B(2)
    by (simp add: res)
qed

subsection \<open>The service as a state machine\<close>

text \<open>The calls a running service answers, in any order.\<close>

inductive th_step :: "th_env \<Rightarrow> th_svc \<Rightarrow> th_svc \<Rightarrow> bool" for env where
  step_process: "th_step env svc (fst (th_V1ProcessEvent env now args svc))"
| step_query: "th_step env svc (fst (V1GetThresholdsForEvent env args svc))"
| step_get: "th_step env svc (fst (V1GetThreshold env tnt svc))"
| step_backup: "th_step env svc (storeThresholds env svc)"
| step_pending: "th_step env svc (run_pending act svc)"

abbreviation th_reachable :: "th_env \<Rightarrow> (string, Threshold) gmap \<Rightarrow> th_svc \<Rightarrow> bool" where
  "th_reachable env db svc \<equiv> (th_step env)\<^sup>*\<^sup>* (NewThresholdService db) svc"

definition rows_ok :: "(string, Threshold) gmap \<Rightarrow> bool" where
  "rows_ok db \<longleftrightarrow> (\<forall>k t. gget db k = Some t \<longrightarrow> Threshold_TenantID t = k)"

lemma th_inv_new: "rows_ok db \<Longrightarrow> th_inv (NewThresholdService db)"
  by (simp add: th_inv_def rows_ok_def NewThresholdService_def)

lemma th_processEvent_inv:
  assumes ok: "remote_ok env" "profiles_ok env" and "th_inv svc"
  shows "th_inv (fst (th_processEvent env now args svc))"
proof -
  obtain svc1 o1 where m: "matchingThresholdsForEvent env args svc = (svc1, o1)"
    by (cases "matchingThresholdsForEvent env args svc")
  note M = matchingThresholds_spec [OF ok assms(3) m]
  show ?thesis
  proof (cases o1)
    case (Inl e)
    with m M(1) show ?thesis by (simp add: th_processEvent_def)
  next
    case (Inr ts)
    obtain svc2 bad where p: "process_all env now (apeCGREvent args) ts svc1 = (svc2, bad)"
      by (cases "process_all env now (apeCGREvent args) ts svc1")
    have "th_inv svc2"
      by (rule process_all_inv [OF ok(1) M(1) p])
        (use M(3) [OF Inr] bound_ready in \<open>auto simp: distinct_map\<close>)
    with m Inr p show ?thesis by (simp add: th_processEvent_def)
  qed
qed

lemma th_step_inv:
  assumes ok: "remote_ok env" "profiles_ok env" and "th_inv svc" and "th_step env svc svc'"
  shows "th_inv svc'"
  using assms(4)
proof cases
  case (step_process now args)
  then show ?thesis
    using assms(3) th_processEvent_inv [OF ok assms(3)]
    by (auto simp: th_V1ProcessEvent_def split: sum.splits option.splits prod.splits) (metis fst_conv)+
next
  case (step_query args)
  then show ?thesis
    using assms(3) matchingThresholds_spec(1) [OF ok assms(3) surjective_pairing]
    by (auto simp: V1GetThresholdsForEvent_def split: sum.splits)
next
  case (step_get tnt)
  then show ?thesis
    using GetThreshold_inv(1) [OF assms(3) ok(1) surjective_pairing]
    by (auto simp: V1GetThreshold_def split: prod.splits sum.splits) (metis fst_conv)+
next
  case step_backup
  then show ?thesis using storeThresholds_spec(1) [OF assms(3)] by simp
next
  case (step_pending act)
  then show ?thesis using assms(3) by (simp add: run_pending_def th_inv_def)
qed

subsection \<open>What is stored\<close>

text \<open>An environment in which every Redis command succeeds and no other engine is involved.\<close>

definition local_env :: "th_env \<Rightarrow> bool" where
  "local_env env \<longleftrightarrow> \<not> th_Remote env \<and> \<not> th_Replicate env"

definition cmd_ok :: "th_env \<Rightarrow> bool" where
  "cmd_ok env \<longleftrightarrow> (\<forall>c k. th_Cmd env c k = None)"

lemma GetThreshold_local_db:
  "\<not> th_Remote env \<Longrightarrow> GetThreshold env tnt i cr cw svc = (svc', out) \<Longrightarrow> dbThresholds svc' = dbThresholds svc"
  by (auto simp: GetThreshold_def load_threshold_def Let_def split: option.splits sum.splits if_splits)

lemma CacheDataFromDB_local_db:
  "\<not> th_Remote env \<Longrightarrow> CacheDataFromDB_threshold env k svc = (svc', e) \<Longrightarrow> dbThresholds svc' = dbThresholds svc"
  by (auto simp: CacheDataFromDB_threshold_def Let_def split: if_splits sum.splits prod.splits
      dest: GetThreshold_local_db)

definition new_row :: "gotime \<Rightarrow> Threshold \<Rightarrow> ThresholdProfile \<Rightarrow> Threshold option" where
  "new_row now t tp =
     (if wrap64 (tHits t + 1) = tpMaxHits tp then None
      else Some (exported (t\<lparr>tHits := wrap64 (tHits t + 1), tSnooze := time_Add now (tpMinSleep tp)\<rparr>)))"

lemma process_one_row:
  assumes env: "local_env env" "cmd_ok env" "th_StoreInterval env = -1"
    and "process_one env now ev a svc = (svc', False)"
    and a: "a < length (objs svc)" and tp: "tPrfl (deref svc a) = Some tp" and "tdirty (deref svc a) \<noteq> None"
  shows "gget (dbThresholds svc') (Threshold_TenantID (deref svc a)) = new_row now (deref svc a) tp"
  using assms(4-)
proof (cases rule: process_one_cases)
  case (removed acts svc3 e1 e2)
  have "gget (dbThresholds svc3) (Threshold_TenantID (deref svc a)) = None"
    using removed(2) env(2)
    by (auto simp: RemoveThreshold_def RemoveThresholdDrv_def Let_def cmd_ok_def Threshold_TenantID_def)
  moreover have "dbThresholds svc' = dbThresholds svc3"
    using env(1) removed(3) by (auto simp: local_env_def dest: CacheDataFromDB_local_db)
  ultimately show ?thesis using removed(1) by (simp add: new_row_def)
next
  case (stored acts svc3)
  obtain svc4 e where s4: "StoreThreshold env a svc3 = (svc4, e)" by (cases "StoreThreshold env a svc3")
  let ?t = "(hit (deref svc a))\<lparr>tSnooze := time_Add now (tpMinSleep tp), tdirty := Some True\<rparr>"
  have d3: "deref svc3 a = ?t" unfolding stored(3) using a by (simp add: deref_assign)
  have "set_ok env ?t" using env(2) by (simp add: set_ok_def cmd_ok_def)
  then have "gget (dbThresholds svc4) (Threshold_TenantID (deref svc a)) = Some (exported ?t)"
    using StoreThreshold_spec(2) [OF s4] d3 by (simp add: gget_th_write)
  moreover have "exported ?t = exported ((deref svc a)\<lparr>tHits := wrap64 (tHits (deref svc a) + 1),
      tSnooze := time_Add now (tpMinSleep tp)\<rparr>)"
    by (simp add: exported_def hit_def)
  ultimately show ?thesis using stored(1,4) env(3) s4 by (simp add: new_row_def)
qed simp

lemma process_all_rows:
  assumes "remote_ok env" and "th_inv svc" and "process_all env now ev ts svc = (svc', bad)"
    and "\<forall>a \<in> set ts. ready svc a" and "distinct (map (\<lambda>a. Threshold_TenantID (deref svc a)) ts)"
  shows "(\<forall>k. k \<notin> (\<lambda>a. Threshold_TenantID (deref svc a)) ` set ts \<longrightarrow>
      gget (dbThresholds svc') k = gget (dbThresholds svc) k)
    \<and> (local_env env \<and> cmd_ok env \<and> th_StoreInterval env = -1 \<and> \<not> bad \<longrightarrow>
      (\<forall>a \<in> set ts. \<forall>tp. tPrfl (deref svc a) = Some tp \<longrightarrow>
        gget (dbThresholds svc') (Threshold_TenantID (deref svc a)) = new_row now (deref svc a) tp))"
  using assms(2-)
proof (induction ts arbitrary: svc svc' bad)
  case (Cons a ts)
  obtain s1 b1 where p1: "process_one env now ev a svc = (s1, b1)" by (cases "process_one env now ev a svc")
  obtain s2 b2 where p2: "process_all env now ev ts s1 = (s2, b2)" by (cases "process_all env now ev ts s1")
  have res: "svc' = s2" "bad = (b1 \<or> b2)" using Cons.prems(2) p1 p2 by auto
  obtain tp where tp: "tPrfl (deref svc a) = Some tp" using Cons.prems(3) by (auto simp: ready_def)
  have r: "a < length (objs svc)" "tdirty (deref svc a) \<noteq> None" using Cons.prems(3) by (auto simp: ready_def)
  note I = process_one_inv [OF Cons.prems(1) assms(1) p1 r(1) tp r(2)]
  have b_ne: "b \<noteq> a" if "b \<in> set ts" for b using Cons.prems(4) that by auto
  have same: "deref s1 b = deref svc b" if "b \<in> set ts" for b
    using I(2) b_ne [OF that] Cons.prems(3) that by (auto simp: frame_def ready_def)
  have rd: "\<forall>b \<in> set ts. ready s1 b" using Cons.prems(3) I(2) b_ne by (auto intro: ready_frame)
  have keys: "map (\<lambda>b. Threshold_TenantID (deref s1 b)) ts = map (\<lambda>b. Threshold_TenantID (deref svc b)) ts"
    using same by simp
  note IH = Cons.IH [OF I(1) p2 rd, unfolded keys]
  have ks: "(\<lambda>b. Threshold_TenantID (deref s1 b)) ` set ts = (\<lambda>b. Threshold_TenantID (deref svc b)) ` set ts"
    using same by simp
  have fr: "gget (dbThresholds s1) k = gget (dbThresholds svc) k" if "k \<noteq> Threshold_TenantID (deref svc a)" for k
    using I(2) that by (simp add: frame_def)
  have own: "gget (dbThresholds s2) (Threshold_TenantID (deref svc a)) = new_row now (deref svc a) tp"
    if "local_env env \<and> cmd_ok env \<and> th_StoreInterval env = -1 \<and> \<not> bad"
    using process_one_row [of env now ev a svc s1 tp] p1 r tp that res(2) IH Cons.prems(4) ks by auto
  show ?case using IH Cons.prems(4) own fr same tp unfolding res ks by auto
qed simp

subsection \<open>A threshold that is gone\<close>

definition gone :: "string \<Rightarrow> th_svc \<Rightarrow> bool" where
  "gone k svc \<longleftrightarrow> gget (dbThresholds svc) k = None \<and> gget (cacheThresholds svc) k \<in> {None, Some None}"

lemma load_gone:
  assumes "gone k svc" and "\<not> th_Remote env" and "cmd_ok env" and "k = ConcatenatedKey [tnt, i]"
  shows "load_threshold env tnt i svc = (svc, Inl ErrNotFound)"
  using assms by (simp add: load_threshold_def GetThresholdDrv_def gone_def cmd_ok_def CastRPCErr_def Let_def)

lemma GetThreshold_gone:
  assumes "gone k svc" and "\<not> th_Remote env" and "cmd_ok env" and "k = ConcatenatedKey [tnt, i]"
  shows "snd (GetThreshold env tnt i cr cw svc) = Inl ErrNotFound"
  using assms load_gone [OF assms] by (auto simp: GetThreshold_def gone_def Let_def split: option.splits)

lemma gone_cache_set: "gone k svc \<Longrightarrow> k \<noteq> j \<or> x = None \<Longrightarrow> gone k (cache_set env j x svc)"
  by (auto simp: gone_def cache_set_def)

lemma gone_upd [simp]:
  "gone k (svc\<lparr>objs := y\<rparr>) = gone k svc" "gone k (assign a t svc) = gone k svc"
  by (simp_all add: gone_def)

lemma gone_GetThreshold:
  assumes g: "gone k svc" and "\<not> th_Remote env" and "cmd_ok env" and "GetThreshold env tnt i cr cw svc = (svc', out)"
  shows "gone k svc'"
proof -
  obtain svc1 o1 where l: "load_threshold env tnt i svc = (svc1, o1)" by (cases "load_threshold env tnt i svc")
  have "svc1 = svc" using l assms(2) by (auto simp: load_threshold_def split: sum.splits)
  moreover have "\<exists>e. o1 = Inl e" if "k = ConcatenatedKey [tnt, i]" using load_gone [OF assms(1-3) that] l by simp
  ultimately show ?thesis using assms(4) g l unfolding GetThreshold_def Let_def
    by (auto split: option.splits sum.splits if_splits intro!: gone_cache_set)
qed

text \<open>A candidate whose threshold is gone ends the matching with an error, whatever the others are.\<close>

lemma match_loop_gone:
  assumes env: "\<not> th_Remote env" "cmd_ok env" and "gone k svc" and "tid \<in> set tIDs"
    and tp: "th_GetThresholdProfile env (evTenant ev) tid = Inr tp" "k = ConcatenatedKey [tpTenant tp, tpID tp]"
      "case (tpActivationInterval tp, evTime ev) of (Some ai, Some t) \<Rightarrow> IsActiveAtTime ai t | _ \<Rightarrow> True"
      "th_Pass env (evTenant ev) (tpFilterIDs tp) (evEvent ev) = Inr True"
  shows "\<exists>e. snd (th_match_loop env ev tIDs acc svc) = Inl e"
  using assms(3,4)
proof (induction tIDs arbitrary: acc svc)
  case (Cons i tIDs)
  show ?case
  proof (cases "i = tid")
    case True
    obtain s where "GetThreshold env (tpTenant tp) (tpID tp) True True svc = (s, Inl ErrNotFound)"
      using GetThreshold_gone [OF Cons.prems(1) env tp(2)] by (metis prod.collapse)
    with True tp show ?thesis by (auto split: option.splits)
  next
    case False
    with Cons.prems(2) have mem: "tid \<in> set tIDs" by simp
    obtain s' out where l: "th_match_loop env ev (i # tIDs) acc svc = (s', out)"
      by (cases "th_match_loop env ev (i # tIDs) acc svc")
    from l have "\<exists>e. out = Inl e"
    proof (cases rule: th_match_Cons)
      case skip
      with Cons.IH [OF Cons.prems(1) mem, of acc] show ?thesis by simp
    next
      case (found tp' a svc1)
      from gone_GetThreshold [OF Cons.prems(1) env found(2)] Cons.IH [OF _ mem] found(3)
      show ?thesis by (metis gone_upd(2) snd_conv)
    qed simp_all
    with l show ?thesis by simp
  qed
qed simp

lemma GetThreshold_only_loads:
  assumes "GetThreshold env tnt i cr cw svc = (svc', out)"
  shows "\<exists>new. objs svc' = objs svc @ new" "executed svc' = executed svc" "pending svc' = pending svc"
  using assms by (auto simp: GetThreshold_def load_threshold_def SetThresholdDrv_def cache_set_def Let_def split: if_splits option.splits sum.splits prod.splits)

text \<open>Matching counts no hits and runs no actions.\<close>

lemma match_loop_hits:
  assumes "th_match_loop env ev tIDs acc svc = (svc', out)"
  shows "(\<forall>b < length (objs svc). tHits (deref svc' b) = tHits (deref svc b)) \<and> executed svc' = executed svc \<and> pending svc' = pending svc"
  using assms
proof (induction tIDs arbitrary: acc svc)
  case (Cons i tIDs)
  from Cons.prems show ?case
  proof (cases rule: th_match_Cons)
    case (found tp' a svc1)
    note L = GetThreshold_only_loads [OF found(2)]
    let ?s = "assign a (bind_threshold tp' (deref svc1 a)) svc1"
    have h: "tHits (deref ?s b) = tHits (deref svc b)" if "b < length (objs svc)" for b
      using that L(1) by (auto simp: assign_def bind_threshold_def nth_append nth_list_update split: if_splits)
    have "length (objs svc) \<le> length (objs ?s)" using L(1) by (auto simp: assign_def)
    moreover from Cons.IH [OF found(3)]
    have "\<forall>b < length (objs ?s). tHits (deref svc' b) = tHits (deref ?s b)" "executed svc' = executed ?s" "pending svc' = pending ?s"
      by blast+
    ultimately show ?thesis using h L(2,3) by (simp add: assign_def)
  next
    case (gone tp e)
    from GetThreshold_only_loads [OF gone(2)] show ?thesis by (auto simp: nth_append)
  qed (use Cons.IH in simp_all)
qed simp

lemma process_one_gone:
  assumes env: "\<not> th_Remote env" "cmd_ok env" "th_CacheLimit env \<noteq> 0"
    and "process_one env now ev a svc = (svc', False)"
    and "a < length (objs svc)" and "tPrfl (deref svc a) = Some tp" and "tdirty (deref svc a) \<noteq> None"
    and last: "wrap64 (tHits (deref svc a) + 1) = tpMaxHits tp"
  shows "gone (Threshold_TenantID (deref svc a)) svc'"
  using assms(4-7)
proof (cases rule: process_one_cases)
  case (removed acts svc3 e1 e2)
  let ?k = "Threshold_TenantID (deref svc a)"
  let ?n = "NewTenantID ?k"
  have db: "gget (dbThresholds svc3) ?k = None"
    using removed(2) env(2)
    by (auto simp: RemoveThreshold_def RemoveThresholdDrv_def Let_def cmd_ok_def Threshold_TenantID_def)
  have k: "ConcatenatedKey [tntTenant ?n, tntID ?n] = ?k" by (simp add: NewTenantID_key)
  have "load_threshold env (tntTenant ?n) (tntID ?n) svc3 = (svc3, Inl ErrNotFound)"
    using db env k by (simp add: load_threshold_def GetThresholdDrv_def cmd_ok_def CastRPCErr_def Let_def)
  then have "GetThreshold env (tntTenant ?n) (tntID ?n) False True svc3 = (cache_set env ?k None svc3, Inl ErrNotFound)"
    by (simp add: GetThreshold_def Let_def k)
  then show ?thesis using removed(3) db env(3)
    by (auto simp: CacheDataFromDB_threshold_def gone_def Let_def cache_set_def split: if_splits)
qed (use last in simp_all)

subsection \<open>Properties\<close>

text \<open>Samples for the witnesses: two profiles, of which the first is good for one hit.\<close>

definition thx_lib :: golib where
  "thx_lib = \<lparr>ParseFloat = \<lambda>_. Inl ErrNotFound, ParseInt = \<lambda>_. Inl ErrNotFound, ParseBool = \<lambda>_. Inl ErrNotFound,
     ParseDuration = \<lambda>_. Inl ErrNotFound, ParseTimeDetectLayout = \<lambda>_ _. Inl ErrNotFound,
     FormatInt = \<lambda>_. [], FormatFloat = \<lambda>_. [], Sprintf_v = \<lambda>_. [], Duration_String = \<lambda>_. [],
     Time_Format = \<lambda>_. [], ToJSON = \<lambda>_. []\<rparr>"

definition thx_prfl :: "string \<Rightarrow> int \<Rightarrow> ThresholdProfile" where
  "thx_prfl i maxHits = \<lparr>tpTenant = ''cgrates.org'', tpID = i, tpFilterIDs = [], tpActivationInterval = None,
     tpMaxHits = maxHits, tpMinHits = 1, tpMinSleep = 10, tpBlocker = False, tpWeight = Fin 1,
     tpActionIDs = [''ACT_LOG''], tpAsync = False\<rparr>"

definition thx_env :: th_env where
  "thx_env = \<lparr>th_lib = thx_lib, th_MatchingItemIDsForEvent = \<lambda>_. Inr [(''THD2'', True), (''THD1'', True)],
     th_GetThresholdProfile = \<lambda>tnt i. if tnt = ''cgrates.org'' \<and> i = ''THD1'' then Inr (thx_prfl i 1)
       else if tnt = ''cgrates.org'' \<and> i = ''THD2'' then Inr (thx_prfl i (-1)) else Inl ErrNotFound,
     th_Pass = \<lambda>_ _ _. Inr True, th_Cmd = \<lambda>_ _. None, th_Remote = False, th_RemoteGet = \<lambda>_ _. Inl ErrNotFound,
     th_Replicate = False, th_ReplicatorSet = \<lambda>_. None, th_CacheLimit = -1, th_StoreInterval = -1,
     th_Execute = \<lambda>_. None, th_GenUUID = \<lambda>_. ''uuid'', th_GetKeysForPrefix = \<lambda>_. Inr []\<rparr>"

definition thx_row :: "string \<Rightarrow> int \<Rightarrow> Threshold" where
  "thx_row i hits = \<lparr>tTenant = ''cgrates.org'', tID = i, tHits = hits, tSnooze = 0, tPrfl = None, tdirty = None\<rparr>"

definition thx_svc :: th_svc where
  "thx_svc = NewThresholdService [(''cgrates.org:THD1'', thx_row ''THD1'' 0), (''cgrates.org:THD2'', thx_row ''THD2'' 4)]"

definition thx_ev :: CGREvent where
  "thx_ev = \<lparr>evTenant = ''cgrates.org'', evID = ''ev1'', evTime = None, evEvent = [(''Account'', IString ''1001'')]\<rparr>"

definition thx_args :: ArgsProcessEvent where
  "thx_args = \<lparr>apeThresholdIDs = [''THD1'', ''THD2''], apeCGREvent = thx_ev\<rparr>"

lemma thx_ok: "remote_ok thx_env" "profiles_ok thx_env" "th_inv thx_svc" "cmd_ok thx_env" "local_env thx_env"
  by (auto simp: remote_ok_def profiles_ok_def thx_env_def thx_prfl_def th_inv_def thx_svc_def thx_row_def
      NewThresholdService_def Threshold_TenantID_def ConcatenatedKey_def cmd_ok_def local_env_def split: if_splits)

text \<open>Claim C21. Whatever calls a service answers, in whatever order, the cache only holds pointers to
  thresholds of their key, the rows of the data base belong to their key, and the index of what is to be
  stored has no duplicates.\<close>

theorem thresholds_reachable_inv:
  assumes "remote_ok env" and "profiles_ok env" and "rows_ok db" and "th_reachable env db svc"
  shows "th_inv svc"
  using assms(4)
proof (induction rule: rtranclp_induct)
  case base
  show ?case using assms(3) by (rule th_inv_new)
next
  case (step svc svc')
  then show ?case using th_step_inv [OF assms(1,2)] by blast
qed

theorem thresholds_reachable_inv_witness:
  "th_inv (storeThresholds thx_env (fst (V1GetThresholdsForEvent thx_env
     \<lparr>v1IDs = [], v1CGREvent = Some thx_ev, v1EventNil = False\<rparr> thx_svc)))"
    (is "th_inv (storeThresholds _ ?svc1)")
proof (rule thresholds_reachable_inv [OF thx_ok(1,2)])
  show "rows_ok (dbThresholds thx_svc)" using thx_ok(3) by (simp add: th_inv_def rows_ok_def)
  have new: "NewThresholdService (dbThresholds thx_svc) = thx_svc" by (simp add: thx_svc_def NewThresholdService_def)
  have "th_step thx_env thx_svc ?svc1" by (rule step_query)
  moreover have "th_step thx_env ?svc1 (storeThresholds thx_env ?svc1)" by (rule step_backup)
  ultimately show "th_reachable thx_env (dbThresholds thx_svc) (storeThresholds thx_env ?svc1)"
    unfolding new by (rule rtranclp.rtrancl_into_rtrancl [OF r_into_rtranclp])
qed

text \<open>Claim C22. A threshold runs its actions exactly when it is not snoozed, has the minimum of hits and
  not more than the maximum; then it handles all of them, with the event. The actions of a synchronous
  profile have run when it returns, in the order of the profile, and an error is reported exactly when
  one of them failed. For an \<open>Async\<close> profile each action is left to a goroutine: when the handler returns it
  is only started, in no order, and no error is reported.\<close>

theorem actions_run_iff:
  assumes "tPrfl (deref svc a) = Some tp" and "Threshold_ProcessEvent env now ev a svc = (svc', err)"
  shows "\<exists>acts. map atActionsID acts =
        (if tSnooze (deref svc a) \<le> now \<and> tpMinHits tp \<le> tHits (deref svc a)
            \<and> (tpMaxHits tp = -1 \<or> tHits (deref svc a) \<le> tpMaxHits tp)
         then tpActionIDs tp else [])
    \<and> list_all (\<lambda>act. atExtraData act = ev) acts
    \<and> svc' = (if tpAsync tp then svc\<lparr>pending := pending svc + mset acts\<rparr> else svc\<lparr>executed := executed svc @ acts\<rparr>)
    \<and> err = (if \<not> tpAsync tp \<and> list_ex (\<lambda>act. th_Execute env act \<noteq> None) acts
             then Some ErrPartiallyExecuted else None)"
proof -
  obtain acts where a: "Threshold_ProcessEvent env now ev a svc = (started (tpAsync tp) acts svc,
       if \<not> tpAsync tp \<and> (\<exists>act \<in> set acts. th_Execute env act \<noteq> None) then Some ErrPartiallyExecuted else None)"
    "map atActionsID acts = (if fires now tp (deref svc a) then tpActionIDs tp else [])"
    "list_all (\<lambda>act. atExtraData act = ev) acts"
    using Threshold_ProcessEvent_spec [OF assms(1), of env now ev] by blast
  have s: "svc' = started (tpAsync tp) acts svc"
    and e: "err = (if \<not> tpAsync tp \<and> list_ex (\<lambda>act. th_Execute env act \<noteq> None) acts then Some ErrPartiallyExecuted else None)"
    using assms(2) unfolding a(1) list_ex_iff by (blast dest: Pair_inject)+
  have st: "started (tpAsync tp) acts svc =
      (if tpAsync tp then svc\<lparr>pending := pending svc + mset acts\<rparr> else svc\<lparr>executed := executed svc @ acts\<rparr>)"
    by (simp add: started_def)
  show ?thesis by (intro exI [of _ acts] conjI) (use a(2,3) in \<open>simp_all only: fires_def s st e\<close>)
qed

definition thx_bound :: "bool \<Rightarrow> th_svc" where
  "thx_bound async = thx_svc\<lparr>objs := [(thx_row ''THD1'' 1)\<lparr>tPrfl := Some ((thx_prfl ''THD1'' 1)
     \<lparr>tpActionIDs := [''ACT_LOG'', ''ACT_TOPUP''], tpAsync := async\<rparr>)\<rparr>]\<rparr>"

theorem actions_run_iff_witness:
  "map atActionsID (executed (fst (Threshold_ProcessEvent thx_env 100 thx_ev 0 (thx_bound False)))) = [''ACT_LOG'', ''ACT_TOPUP'']
    \<and> image_mset atActionsID (pending (fst (Threshold_ProcessEvent thx_env 100 thx_ev 0 (thx_bound True)))) = {#''ACT_TOPUP'', ''ACT_LOG''#}"
proof -
  let ?tp = "\<lambda>async. (thx_prfl ''THD1'' 1)\<lparr>tpActionIDs := [''ACT_LOG'', ''ACT_TOPUP''], tpAsync := async\<rparr>"
  have tp: "tPrfl (deref (thx_bound async) 0) = Some (?tp async)" for async by (simp add: thx_bound_def)
  have ok: "tSnooze (deref (thx_bound async) 0) \<le> 100 \<and> tpMinHits (?tp async) \<le> tHits (deref (thx_bound async) 0)
      \<and> (tpMaxHits (?tp async) = -1 \<or> tHits (deref (thx_bound async) 0) \<le> tpMaxHits (?tp async))" for async
    by (simp add: thx_bound_def thx_row_def thx_prfl_def)
  have none: "executed (thx_bound async) = []" "pending (thx_bound async) = {#}" for async
    by (simp_all add: thx_bound_def thx_svc_def NewThresholdService_def)
  note run = actions_run_iff [where env = thx_env and now = 100 and ev = thx_ev, OF tp surjective_pairing, unfolded if_P [OF ok]]
  from run [of False] obtain acts where s: "map atActionsID acts = [''ACT_LOG'', ''ACT_TOPUP'']"
    "fst (Threshold_ProcessEvent thx_env 100 thx_ev 0 (thx_bound False)) = (thx_bound False)\<lparr>executed := executed (thx_bound False) @ acts\<rparr>"
    by (elim exE conjE) (rule that; simp)
  from run [of True] obtain acts' where a: "map atActionsID acts' = [''ACT_LOG'', ''ACT_TOPUP'']"
    "fst (Threshold_ProcessEvent thx_env 100 thx_ev 0 (thx_bound True)) = (thx_bound True)\<lparr>pending := pending (thx_bound True) + mset acts'\<rparr>"
    by (elim exE conjE) (rule that; simp)
  show ?thesis unfolding s(2) a(2) using s(1) a(1) by (simp add: none mset_map [symmetric] add_mset_commute del: mset_map)
qed

text \<open>Claim C23. With immediate storing and no failure, after an event the data base holds, for every
  threshold that matched, the hit just counted and the end of the new pause; the row of a threshold that
  used up its hits is gone.\<close>

theorem hits_stored_at_once:
  assumes env: "remote_ok env" "profiles_ok env" "local_env env" "cmd_ok env" "th_StoreInterval env = -1"
    and inv: "th_inv svc"
    and m: "matchingThresholdsForEvent env args svc = (svc1, Inr ts)"
    and p: "th_processEvent env now args svc = (svc', ids, None)"
    and a: "a \<in> set ts" and tp: "tPrfl (deref svc1 a) = Some tp"
  shows "gget (dbThresholds svc') (Threshold_TenantID (deref svc1 a)) =
    (if wrap64 (tHits (deref svc1 a) + 1) = tpMaxHits tp then None
     else Some (exported ((deref svc1 a)\<lparr>tHits := wrap64 (tHits (deref svc1 a) + 1),
                                         tSnooze := time_Add now (tpMinSleep tp)\<rparr>)))"
proof -
  note M = matchingThresholds_spec [OF env(1,2) inv m]
  obtain svc2 bad where q: "process_all env now (apeCGREvent args) ts svc1 = (svc2, bad)"
    by (cases "process_all env now (apeCGREvent args) ts svc1")
  have "svc' = svc2" "\<not> bad" using p m q a by (auto simp: th_processEvent_def split: if_splits)
  moreover have "\<forall>a \<in> set ts. ready svc1 a" using M(3) bound_ready by blast
  ultimately show ?thesis
    using process_all_rows [OF env(1) M(1) q] M(3) env(3-5) a tp by (simp add: new_row_def)
qed

theorem hits_stored_at_once_witness:
  "gget (dbThresholds (fst (th_processEvent thx_env 100 thx_args thx_svc))) ''cgrates.org:THD2''
     = Some ((thx_row ''THD2'' 5)\<lparr>tSnooze := 110\<rparr>)"
proof -
  let ?m = "matchingThresholdsForEvent thx_env thx_args thx_svc"
  let ?p = "th_processEvent thx_env 100 thx_args thx_svc"
  have m: "?m = (fst ?m, Inr [0, 1])" by code_simp
  have p: "?p = (fst ?p, [''THD1'', ''THD2''], None)" by code_simp
  have d: "deref (fst ?m) 1 = (thx_row ''THD2'' 4)\<lparr>tPrfl := Some (thx_prfl ''THD2'' (-1)), tdirty := Some False\<rparr>"
    by code_simp
  then have tp: "tPrfl (deref (fst ?m) 1) = Some (thx_prfl ''THD2'' (-1))" by simp
  have s: "th_StoreInterval thx_env = -1" by (simp add: thx_env_def)
  have "gget (dbThresholds (fst ?p)) (Threshold_TenantID (deref (fst ?m) 1)) =
    (if wrap64 (tHits (deref (fst ?m) 1) + 1) = tpMaxHits (thx_prfl ''THD2'' (-1)) then None
     else Some (exported ((deref (fst ?m) 1)\<lparr>tHits := wrap64 (tHits (deref (fst ?m) 1) + 1),
        tSnooze := time_Add 100 (tpMinSleep (thx_prfl ''THD2'' (-1)))\<rparr>)))"
    by (rule hits_stored_at_once [OF thx_ok(1,2,5,4) s thx_ok(3) m p _ tp]) simp
  then show ?thesis
    unfolding d by (simp add: thx_row_def thx_prfl_def Threshold_TenantID_def ConcatenatedKey_def
        exported_def time_Add_def wrap64_def)
qed

text \<open>Claim C24. When a threshold has used up its hits and was removed without an error (no remote engine, a data base
  that answers, the cache in use), the next event fails as a whole if the profile is still there and the event is active for
  it and passes its filters: whether the event names the threshold or finds it by the indexes, the answer is an error with no
  threshold, and none of the other thresholds that match is processed.\<close>

theorem exhausted_threshold_blocks_others:
  assumes env: "\<not> th_Remote env" "cmd_ok env" "th_CacheLimit env \<noteq> 0"
    and last: "process_one env now ev a svc = (svc', False)" "a < length (objs svc)"
      "tPrfl (deref svc a) = Some tp" "tdirty (deref svc a) \<noteq> None"
      "wrap64 (tHits (deref svc a) + 1) = tpMaxHits tp"
    and ids: "if apeThresholdIDs args \<noteq> [] then tIDs = apeThresholdIDs args
      else \<exists>m. th_MatchingItemIDsForEvent env (apeCGREvent args) = Inr m \<and> tIDs = StringMap_Slice m"
    and cand: "tid \<in> set tIDs"
      "th_GetThresholdProfile env (evTenant (apeCGREvent args)) tid = Inr tp'"
      "Threshold_TenantID (deref svc a) = ConcatenatedKey [tpTenant tp', tpID tp']"
      "case (tpActivationInterval tp', evTime (apeCGREvent args)) of (Some ai, Some t) \<Rightarrow> IsActiveAtTime ai t | _ \<Rightarrow> True"
      "th_Pass env (evTenant (apeCGREvent args)) (tpFilterIDs tp') (evEvent (apeCGREvent args)) = Inr True"
  shows "\<exists>e svc''. th_processEvent env now' args svc' = (svc'', [], Some e)
    \<and> (\<forall>b < length (objs svc'). tHits (deref svc'' b) = tHits (deref svc' b)) \<and> executed svc'' = executed svc' \<and> pending svc'' = pending svc'"
proof -
  have g: "gone (Threshold_TenantID (deref svc a)) svc'" by (rule process_one_gone [OF env last])
  obtain s e where e: "th_match_loop env (apeCGREvent args) tIDs [] svc' = (s, Inl e)"
    using match_loop_gone [OF env(1,2) g cand] by (metis prod.collapse)
  then have "matchingThresholdsForEvent env args svc' = (s, Inl e)"
    using ids by (auto simp: matchingThresholdsForEvent_def Let_def split: if_splits)
  then show ?thesis using match_loop_hits [OF e] by (simp add: th_processEvent_def)
qed

theorem exhausted_threshold_blocks_others_witness:
  "let svc1 = fst (matchingThresholdsForEvent thx_env thx_args thx_svc);
       svc2 = fst (process_one thx_env 100 thx_ev 0 svc1)
   in snd (matchingThresholdsForEvent thx_env thx_args thx_svc) = Inr [0, 1]
      \<and> (\<exists>e svc3. th_processEvent thx_env 500 (thx_args\<lparr>apeThresholdIDs := []\<rparr>) svc2 = (svc3, [], Some e)
            \<and> tHits (deref svc3 1) = 4)"
proof -
  let ?svc1 = "fst (matchingThresholdsForEvent thx_env thx_args thx_svc)"
  let ?p = "process_one thx_env 100 thx_ev 0 ?svc1"
  have m: "snd (matchingThresholdsForEvent thx_env thx_args thx_svc) = Inr [0, 1]" by code_simp
  have p: "?p = (fst ?p, False)" by code_simp
  have len: "0 < length (objs ?svc1)" by code_simp
  have d: "deref ?svc1 0 = (thx_row ''THD1'' 0)\<lparr>tPrfl := Some (thx_prfl ''THD1'' 1), tdirty := Some False\<rparr>"
    by code_simp
  note env = thx_env_def thx_args_def thx_ev_def thx_prfl_def
  let ?args = "thx_args\<lparr>apeThresholdIDs := []\<rparr>"
  have c: "\<not> th_Remote thx_env" "th_CacheLimit thx_env \<noteq> 0"
    "if apeThresholdIDs ?args \<noteq> [] then [''THD2'', ''THD1''] = apeThresholdIDs ?args
      else \<exists>m. th_MatchingItemIDsForEvent thx_env (apeCGREvent ?args) = Inr m \<and> [''THD2'', ''THD1''] = StringMap_Slice m"
    "''THD1'' \<in> set [''THD2'', ''THD1'']"
    "th_GetThresholdProfile thx_env (evTenant (apeCGREvent ?args)) ''THD1'' = Inr (thx_prfl ''THD1'' 1)"
    "case (tpActivationInterval (thx_prfl ''THD1'' 1), evTime (apeCGREvent ?args)) of (Some ai, Some t) \<Rightarrow> IsActiveAtTime ai t | _ \<Rightarrow> True"
    "th_Pass thx_env (evTenant (apeCGREvent ?args)) (tpFilterIDs (thx_prfl ''THD1'' 1)) (evEvent (apeCGREvent ?args)) = Inr True"
    by (simp_all add: env StringMap_Slice_def)
  have t: "tPrfl (deref ?svc1 0) = Some (thx_prfl ''THD1'' 1)" "tdirty (deref ?svc1 0) \<noteq> None"
    "wrap64 (tHits (deref ?svc1 0) + 1) = tpMaxHits (thx_prfl ''THD1'' 1)"
    "Threshold_TenantID (deref ?svc1 0) = ConcatenatedKey [tpTenant (thx_prfl ''THD1'' 1), tpID (thx_prfl ''THD1'' 1)]"
    unfolding d by (simp_all add: thx_row_def thx_prfl_def wrap64_def Threshold_TenantID_def)
  have h: "length (objs (fst ?p)) = 2" "tHits (deref (fst ?p) 1) = 4" by code_simp+
  from exhausted_threshold_blocks_others [OF c(1) thx_ok(4) c(2) p len t(1-3) c(3-5) t(4) c(6,7), of 500] h
  obtain e svc3 where "th_processEvent thx_env 500 ?args (fst ?p) = (svc3, [], Some e)" "tHits (deref svc3 1) = 4" by auto
  with m show ?thesis by (auto simp: Let_def)
qed

text \<open>Claim C25. A query takes back the mark that a threshold has to be stored: after
  \<^verbatim>\<open>V1GetThresholdsForEvent\<close> returned a threshold without a limit, a backup does not write it, and its
  id is off the index. Hits counted since the last backup are lost with the cache.\<close>

theorem query_drops_pending_save:
  assumes env: "remote_ok env" "profiles_ok env" and inv: "th_inv svc"
    and q: "V1GetThresholdsForEvent env args svc = (svc', Inr ts)" and a: "a \<in> set ts"
    and tp: "tPrfl (deref svc' a) = Some tp" "tpMaxHits tp = -1"
    and k: "k = Threshold_TenantID (deref svc' a)"
    and cached: "gget (cacheThresholds svc') k = Some (Some a)"
  shows "gget (dbThresholds (storeThresholds env svc')) k = gget (dbThresholds svc') k
    \<and> k \<notin> fst ` set (storedTdIDs (storeThresholds env svc'))"
proof -
  from q obtain ev where m: "matchingThresholdsForEvent env \<lparr>apeThresholdIDs = v1IDs args, apeCGREvent = ev\<rparr> svc
      = (svc', Inr ts)" by (auto simp: V1GetThresholdsForEvent_def split: sum.splits)
  note M = matchingThresholds_spec [OF env inv m]
  have "tdirty (deref svc' a) = Some False" using M(3) a tp by (fastforce simp: bound_def)
  then have "th_fails env (th_view svc' k) = False"
    and "gget (th_write env (th_view svc' k) (dbThresholds svc')) k = gget (dbThresholds svc') k"
    using cached by (simp_all add: th_view_def th_fails_def th_write_def)
  then show ?thesis using storeThresholds_spec(2,3) [OF M(1)] by simp
qed

definition thx_pending :: th_svc where
  "thx_pending = thx_svc\<lparr>objs := [(thx_row ''THD2'' 7)\<lparr>tPrfl := Some (thx_prfl ''THD2'' (-1)), tdirty := Some True\<rparr>],
     cacheThresholds := [(''cgrates.org:THD2'', Some 0)], storedTdIDs := [(''cgrates.org:THD2'', True)]\<rparr>"

definition thx_query :: V1Args where
  "thx_query = \<lparr>v1IDs = [''THD2''], v1CGREvent = Some thx_ev, v1EventNil = False\<rparr>"

text \<open>A threshold with seven hits of which four are stored: a backup stores the seven, but not after a
  query.\<close>

theorem query_drops_pending_save_witness:
  "gget (dbThresholds (storeThresholds thx_env thx_pending)) ''cgrates.org:THD2'' = Some (thx_row ''THD2'' 7)
    \<and> gget (dbThresholds (storeThresholds thx_env (fst (V1GetThresholdsForEvent thx_env thx_query thx_pending))))
        ''cgrates.org:THD2'' = Some (thx_row ''THD2'' 4)"
proof -
  let ?q = "V1GetThresholdsForEvent thx_env thx_query thx_pending"
  have inv: "th_inv thx_pending"
    using thx_ok(3) by (auto simp: th_inv_def thx_pending_def thx_row_def Threshold_TenantID_def ConcatenatedKey_def)
  have before: "gget (dbThresholds (storeThresholds thx_env thx_pending)) ''cgrates.org:THD2'' = Some (thx_row ''THD2'' 7)"
    unfolding storeThresholds_spec(3) [OF inv]
    by (simp add: gget_th_write th_view_def thx_pending_def thx_row_def set_ok_def thx_env_def exported_def
        Threshold_TenantID_def ConcatenatedKey_def)
  have q: "?q = (fst ?q, Inr [0])" by code_simp
  have tp: "tPrfl (deref (fst ?q) 0) = Some (thx_prfl ''THD2'' (-1))" by code_simp
  have k: "''cgrates.org:THD2'' = Threshold_TenantID (deref (fst ?q) 0)" by code_simp
  have c: "gget (cacheThresholds (fst ?q)) ''cgrates.org:THD2'' = Some (Some 0)" by code_simp
  have db: "gget (dbThresholds (fst ?q)) ''cgrates.org:THD2'' = Some (thx_row ''THD2'' 4)" by code_simp
  have "gget (dbThresholds (storeThresholds thx_env (fst ?q))) ''cgrates.org:THD2''
      = gget (dbThresholds (fst ?q)) ''cgrates.org:THD2''"
    using query_drops_pending_save [OF thx_ok(1,2) inv q _ tp _ k c] by (simp add: thx_prfl_def)
  with before db show ?thesis by simp
qed

text \<open>Claim C26. A backup ends; afterwards the index holds exactly the ids of the cached thresholds that
  are marked and could not be written or replicated, and the row of every marked threshold that could be
  written is that of the threshold.\<close>

theorem storeThresholds_complete:
  assumes "th_inv svc"
  shows "fst ` set (storedTdIDs (storeThresholds env svc)) =
      {i \<in> fst ` set (storedTdIDs svc). \<exists>a. gget (cacheThresholds svc) i = Some (Some a)
         \<and> tdirty (deref svc a) = Some True
         \<and> (th_Cmd env ''SET'' (''thd_'' @ i) \<noteq> None
            \<or> th_Replicate env \<and> th_ReplicatorSet env (deref svc a) \<noteq> None)}
    \<and> (\<forall>i a. i \<in> fst ` set (storedTdIDs svc) \<longrightarrow> gget (cacheThresholds svc) i = Some (Some a) \<longrightarrow>
         tdirty (deref svc a) = Some True \<longrightarrow> th_Cmd env ''SET'' (''thd_'' @ i) = None \<longrightarrow>
         gget (dbThresholds (storeThresholds env svc)) i = Some (exported (deref svc a)))"
proof -
  have key: "Threshold_TenantID (deref svc a) = i" if "gget (cacheThresholds svc) i = Some (Some a)" for i a
    using assms that by (simp add: th_inv_def)
  have f: "th_fails env (th_view svc i) \<longleftrightarrow> (\<exists>a. gget (cacheThresholds svc) i = Some (Some a)
      \<and> tdirty (deref svc a) = Some True \<and> (th_Cmd env ''SET'' (''thd_'' @ i) \<noteq> None
         \<or> th_Replicate env \<and> th_ReplicatorSet env (deref svc a) \<noteq> None))" for i
    using key [of i] by (auto simp: th_fails_def th_view_def set_fails_def set_ok_def split: option.splits)
  have w: "gget (th_write env (th_view svc i) (dbThresholds svc)) i = Some (exported (deref svc a))"
    if "gget (cacheThresholds svc) i = Some (Some a)" "tdirty (deref svc a) = Some True"
      "th_Cmd env ''SET'' (''thd_'' @ i) = None" for i a
    using that key [OF that(1)] by (simp add: gget_th_write th_view_def set_ok_def)
  show ?thesis
    by (intro conjI allI impI) (simp_all only: storeThresholds_spec(2,3) [OF assms] f w if_True)
qed

theorem storeThresholds_complete_witness:
  "fst ` set (storedTdIDs (storeThresholds thx_env thx_pending)) = {}
    \<and> gget (dbThresholds (storeThresholds thx_env thx_pending)) ''cgrates.org:THD2'' = Some (thx_row ''THD2'' 7)"
proof -
  have inv: "th_inv thx_pending"
    using thx_ok(3) by (auto simp: th_inv_def thx_pending_def thx_row_def Threshold_TenantID_def ConcatenatedKey_def)
  have c: "''cgrates.org:THD2'' \<in> fst ` set (storedTdIDs thx_pending)"
    "gget (cacheThresholds thx_pending) ''cgrates.org:THD2'' = Some (Some 0)" "tdirty (deref thx_pending 0) = Some True"
    "th_Cmd thx_env ''SET'' (''thd_'' @ ''cgrates.org:THD2'') = None" "\<not> th_Replicate thx_env"
    "\<And>k. th_Cmd thx_env ''SET'' k = None"
    by (simp_all add: thx_pending_def thx_env_def)
  have "exported (deref thx_pending 0) = thx_row ''THD2'' 7" by (simp add: thx_pending_def exported_def thx_row_def)
  with storeThresholds_complete [OF inv, of thx_env] c show ?thesis by auto
qed

end
