(* ===== verification/Date_Series.thy ===== *)
theory Date_Series
  imports Utils_Core
begin

text \<open>
  Dates: what the code uses of Go's \<^verbatim>\<open>time\<close> and \<^verbatim>\<open>strconv\<close> packages, and
  \<^verbatim>\<open>utils/dateseries.go\<close>, the lists of years, months, month days and week days of a timing.

  An instant is a number of nanoseconds since January 1 of year 1, as in \<open>Prelude\<close>; dates are
  those of the Gregorian calendar in one location, UTC. \<open>Date\<close> normalises what is out of range as
  the library does: it is linear in days, hours, minutes and seconds, and carries months into years.

  The four series have the same operations. Their contract, that what is printed can be read
  again, is the locale \<open>date_series\<close>.
\<close>

subsection \<open>strconv: decimal integers\<close>

definition digit :: "nat \<Rightarrow> char" where
  "digit n = char_of (48 + n)"

fun digits :: "nat \<Rightarrow> string" where
  "digits n = (if n < 10 then [digit n] else digits (n div 10) @ [digit (n mod 10)])"

declare digits.simps [simp del]

definition Itoa :: "int \<Rightarrow> string" where
  "Itoa i = (if i < 0 then CHR ''-'' # digits (nat (- i)) else digits (nat i))"

definition is_digit :: "char \<Rightarrow> bool" where
  "is_digit c \<longleftrightarrow> 48 \<le> (of_char c :: nat) \<and> (of_char c :: nat) \<le> 57"

definition digits_val :: "string \<Rightarrow> int" where
  "digits_val s = foldl (\<lambda>n c. 10 * n + (int (of_char c) - 48)) 0 s"

text \<open>\<open>Atoi\<close> gives the number it read and whether it failed: 0 for text that is no number, the
  nearest bound for one that does not fit.\<close>

definition Atoi :: "string \<Rightarrow> int \<times> bool" where
  "Atoi s =
     (let neg = (s \<noteq> [] \<and> hd s = CHR ''-'');
          s' = (if s \<noteq> [] \<and> (hd s = CHR ''-'' \<or> hd s = CHR ''+'') then tl s else s)
      in if s' = [] \<or> \<not> list_all is_digit s' then (0, True)
         else let n = (if neg then - digits_val s' else digits_val s')
              in if n < - (2 ^ 63) then (- (2 ^ 63), True)
                 else if n \<ge> 2 ^ 63 then (2 ^ 63 - 1, True) else (n, False))"

lemma is_digit_digit [simp]: "n < 10 \<Longrightarrow> is_digit (digit n)"
  by (simp add: is_digit_def digit_def of_char_of take_bit_eq_mod)

lemma digit_val [simp]: "n < 10 \<Longrightarrow> int (of_char (digit n)) - 48 = int n"
  by (simp add: digit_def of_char_of take_bit_eq_mod)

lemma digits_ne [simp]: "digits n \<noteq> []"
  by (subst digits.simps) simp

lemma list_all_digits: "list_all is_digit (digits n)"
proof (induction n rule: digits.induct)
  case (1 n)
  then show ?case by (subst digits.simps) (auto)
qed

lemma digits_val_digits: "digits_val (digits n) = int n"
proof (induction n rule: digits.induct)
  case (1 n)
  show ?case
  proof (cases "n < 10")
    case True
    then show ?thesis using digit_val [of n] by (simp add: digits.simps [of n] digits_val_def)
  next
    case False
    then have "digits_val (digits n) = 10 * digits_val (digits (n div 10)) + int (n mod 10)"
      using digit_val [of "n mod 10"] by (simp add: digits.simps [of n] digits_val_def)
    moreover have "int n = 10 * int (n div 10) + int (n mod 10)" by presburger
    ultimately show ?thesis using "1.IH" [OF False] by linarith
  qed
qed

lemma hd_digits: "is_digit (hd (digits n))"
  using list_all_digits [of n] by (cases "digits n") auto

lemma Atoi_Itoa: "is_int64 n \<Longrightarrow> Atoi (Itoa n) = (n, False)"
proof -
  assume n: "is_int64 n"
  have "hd (digits k) \<noteq> CHR ''-''" "hd (digits k) \<noteq> CHR ''+''" for k
    using hd_digits [of k] by (auto simp: is_digit_def)
  then show ?thesis using n
    by (auto simp: Atoi_def Itoa_def Let_def list_all_digits digits_val_digits is_int64_def)
qed

lemma Itoa_chars: "c \<in> set (Itoa n) \<Longrightarrow> is_digit c \<or> c = CHR ''-''"
  using list_all_digits by (auto simp: Itoa_def list_all_iff split: if_splits)

lemma Itoa_ne [simp]: "Itoa n \<noteq> []"
  by (simp add: Itoa_def)

subsection \<open>time: the calendar\<close>

definition day_ns :: int where
  "day_ns = 86400000000000"

definition is_leap :: "int \<Rightarrow> bool" where
  "is_leap y \<longleftrightarrow> 4 dvd y \<and> (\<not> 100 dvd y \<or> 400 dvd y)"

definition days_before_year :: "int \<Rightarrow> int" where
  "days_before_year y = 365 * (y - 1) + (y - 1) div 4 - (y - 1) div 100 + (y - 1) div 400"

definition days_before_month :: "bool \<Rightarrow> nat \<Rightarrow> int" where
  "days_before_month leap m =
     [0, 31, 59, 90, 120, 151, 181, 212, 243, 273, 304, 334, 365] ! (m - 1) + (if leap \<and> 2 < m then 1 else 0)"

text \<open>The year of a day number and the day in that year, by cycles of 400, 100, 4 and 1 years.\<close>

definition year_and_yday :: "int \<Rightarrow> int \<times> int" where
  "year_and_yday days =
     (let n400 = days div 146097; d1 = days mod 146097;
          n100 = d1 div 36524 - d1 div 36524 div 4; d2 = d1 - 36524 * n100;
          n4 = d2 div 1461; d3 = d2 mod 1461;
          n1 = d3 div 365 - d3 div 365 div 4
      in (400 * n400 + 100 * n100 + 4 * n4 + n1 + 1, d3 - 365 * n1))"

definition month_of :: "bool \<Rightarrow> int \<Rightarrow> nat" where
  "month_of leap yday = length (filter (\<lambda>m. days_before_month leap m \<le> yday) [1..<13])"

definition Year :: "gotime \<Rightarrow> int" where
  "Year t = fst (year_and_yday (t div day_ns))"

definition Month :: "gotime \<Rightarrow> int" where
  "Month t = int (month_of (is_leap (Year t)) (snd (year_and_yday (t div day_ns))))"

definition Day :: "gotime \<Rightarrow> int" where
  "Day t = snd (year_and_yday (t div day_ns)) - days_before_month (is_leap (Year t)) (nat (Month t)) + 1"

definition Weekday :: "gotime \<Rightarrow> int" where
  "Weekday t = (t div day_ns + 1) mod 7"

definition Hour :: "gotime \<Rightarrow> int" where
  "Hour t = t mod day_ns div 3600000000000"

definition Minute :: "gotime \<Rightarrow> int" where
  "Minute t = t mod day_ns div 60000000000 mod 60"

definition Second :: "gotime \<Rightarrow> int" where
  "Second t = t mod day_ns div 1000000000 mod 60"

definition Nanosecond :: "gotime \<Rightarrow> int" where
  "Nanosecond t = t mod 1000000000"

definition days_of_civil :: "int \<Rightarrow> int \<Rightarrow> int \<Rightarrow> int" where
  "days_of_civil y m d =
     (let y' = y + (m - 1) div 12; m' = (m - 1) mod 12 + 1
      in days_before_year y' + days_before_month (is_leap y') (nat m') + d - 1)"

definition Date :: "int \<Rightarrow> int \<Rightarrow> int \<Rightarrow> int \<Rightarrow> int \<Rightarrow> int \<Rightarrow> int \<Rightarrow> gotime" where
  "Date y m d h mi s ns =
     days_of_civil y m d * day_ns + h * 3600000000000 + mi * 60000000000 + s * 1000000000 + ns"

definition AddDate :: "gotime \<Rightarrow> int \<Rightarrow> int \<Rightarrow> int \<Rightarrow> gotime" where
  "AddDate t years months ds =
     Date (Year t + years) (Month t + months) (Day t + ds) (Hour t) (Minute t) (Second t) (Nanosecond t)"

text \<open>Every fourth unit of a cycle is one day longer.\<close>

lemma short_cycle:
  fixes d n :: int
  assumes "0 \<le> d" and "d \<le> 4 * n" and "0 < n"
  shows "0 \<le> d div n - d div n div 4" "d div n - d div n div 4 \<le> 3"
    "0 \<le> d - n * (d div n - d div n div 4)" "d - n * (d div n - d div n div 4) \<le> n"
    "d div n - d div n div 4 < 3 \<longrightarrow> d - n * (d div n - d div n div 4) < n"
proof -
  define q where "q = d div n"
  have q: "0 \<le> q" "n * q \<le> d" "d < n * q + n"
    using assms mult_div_mod_eq [of n d] pos_mod_bound [of n d] pos_mod_sign [of n d]
      pos_imp_zdiv_nonneg_iff [of n d]
    unfolding q_def by linarith+
  have "n * q \<le> n * 4" using q(2) assms(2) by simp
  then have "q \<le> 4" using assms(3) by (simp add: mult_le_cancel_left_pos)
  with q(1) consider "q = 0" | "q = 1" | "q = 2" | "q = 3" | "q = 4" by linarith
  note c = this
  show "0 \<le> d div n - d div n div 4" "d div n - d div n div 4 \<le> 3"
    "0 \<le> d - n * (d div n - d div n div 4)" "d - n * (d div n - d div n div 4) \<le> n"
    "d div n - d div n div 4 < 3 \<longrightarrow> d - n * (d div n - d div n div 4) < n"
    unfolding q_def [symmetric] by (cases rule: c; use q assms(2) in simp)+
qed

lemma year_and_yday_correct:
  assumes "year_and_yday D = (y, d)"
  shows "D = days_before_year y + d" "0 \<le> d" "d < (if is_leap y then 366 else 365)"
proof -
  define a where "a = D div 146097"
  define d1 where "d1 = D mod 146097"
  define b where "b = d1 div 36524 - d1 div 36524 div 4"
  define d2 where "d2 = d1 - 36524 * b"
  define c where "c = d2 div 1461"
  define d3 where "d3 = d2 mod 1461"
  define e where "e = d3 div 365 - d3 div 365 div 4"
  have y: "y = 400 * a + 100 * b + 4 * c + e + 1" and d: "d = d3 - 365 * e"
    using assms [unfolded year_and_yday_def Let_def, folded a_def d1_def, folded b_def, folded d2_def,
        folded c_def d3_def, folded e_def] by (simp_all only: prod.inject)
  have D: "D = 146097 * a + d1" "0 \<le> d1" "d1 < 146097" by (auto simp: a_def d1_def)
  have pre1: "0 \<le> d1" "d1 \<le> 4 * 36524" "(0::int) < 36524" using D by simp_all
  note S1 = short_cycle [OF pre1, folded b_def, folded d2_def]
  have b: "0 \<le> b" "b \<le> 3" "0 \<le> d2" "d2 \<le> 36524" "b < 3 \<longrightarrow> d2 < 36524"
    using S1 by simp_all
  have c: "d2 = 1461 * c + d3" "0 \<le> d3" "d3 < 1461" by (auto simp: c_def d3_def)
  have c': "0 \<le> c" "c \<le> 24" "b < 3 \<and> c = 24 \<longrightarrow> d3 < 1460" using b c by linarith+
  have pre2: "0 \<le> d3" "d3 \<le> 4 * 365" "(0::int) < 365" using c by simp_all
  note S2 = short_cycle [OF pre2, folded e_def, folded d]
  have e: "0 \<le> e" "e \<le> 3" "0 \<le> d" "d \<le> 365" "e < 3 \<longrightarrow> d < 365"
    using S2 by simp_all
  let ?q = "400 * a + 100 * b + 4 * c + e"
  have q: "?q div 4 = 100 * a + 25 * b + c" "?q div 100 = 4 * a + b" "?q div 400 = a"
    using b(1,2) c'(1,2) e(1,2) by linarith+
  show "D = days_before_year y + d"
    using D(1) c(1) by (simp add: days_before_year_def y q d d2_def)
  show "0 \<le> d" by (rule e(3))
  have "is_leap y" if "d = 365"
  proof -
    have "e = 3" using that e(1,2,5) by linarith
    have "4 dvd y" unfolding y \<open>e = 3\<close> by presburger
    moreover have "100 dvd y \<longrightarrow> 400 dvd y"
    proof
      assume "100 dvd y"
      moreover have "y = 100 * (4 * a + b) + 4 * (c + 1)" unfolding y \<open>e = 3\<close> by simp
      ultimately have "100 dvd 4 * (c + 1)" by (metis dvd_add_right_iff dvd_triv_left)
      then obtain k where "4 * (c + 1) = 100 * k" by (rule dvdE)
      then have "c = 24" using c'(1,2) by presburger
      with that c'(3) d \<open>e = 3\<close> have "b = 3" using b(1,2) by linarith
      show "400 dvd y" unfolding y \<open>e = 3\<close> \<open>c = 24\<close> \<open>b = 3\<close> by (rule dvdI [of _ _ "a + 1"]) simp
    qed
    ultimately show ?thesis by (simp add: is_leap_def)
  qed
  then show "d < (if is_leap y then 366 else 365)" using e(4) by (cases "d = 365") auto
qed

lemma month_table:
  "map (days_before_month leap) [1..<13] =
    (if leap then [0, 31, 60, 91, 121, 152, 182, 213, 244, 274, 305, 335]
     else [0, 31, 59, 90, 120, 151, 181, 212, 243, 273, 304, 334])"
  by (simp add: days_before_month_def upt_rec)

lemma last_below:
  fixes xs :: "int list"
  assumes "sorted xs" and "xs \<noteq> []" and "hd xs \<le> d"
  shows "0 < length (filter (\<lambda>x. x \<le> d) xs)" "length (filter (\<lambda>x. x \<le> d) xs) \<le> length xs"
    "xs ! (length (filter (\<lambda>x. x \<le> d) xs) - 1) \<le> d"
proof -
  have eq: "filter (\<lambda>x. x \<le> d) xs = takeWhile (\<lambda>x. x \<le> d) xs"
    using assms(1) by (induction xs) (auto simp: filter_empty_conv takeWhile_eq_Nil_iff neq_Nil_conv)
  show pos: "0 < length (filter (\<lambda>x. x \<le> d) xs)" using assms(2,3) by (cases xs) auto
  show "length (filter (\<lambda>x. x \<le> d) xs) \<le> length xs" by (rule length_filter_le)
  let ?n = "length (takeWhile (\<lambda>x. x \<le> d) xs) - 1"
  have n: "?n < length (takeWhile (\<lambda>x. x \<le> d) xs)" using pos eq by simp
  then have "takeWhile (\<lambda>x. x \<le> d) xs ! ?n \<le> d" using set_takeWhileD [OF nth_mem [OF n]] by simp
  with takeWhile_nth [OF n] eq show "xs ! (length (filter (\<lambda>x. x \<le> d) xs) - 1) \<le> d" by simp
qed

lemma month_of_range:
  assumes "0 \<le> d"
  shows "1 \<le> month_of leap d" "month_of leap d \<le> 12" "days_before_month leap (month_of leap d) \<le> d"
proof -
  let ?xs = "map (days_before_month leap) [1..<13]"
  have m: "month_of leap d = length (filter (\<lambda>x. x \<le> d) ?xs)"
    by (simp add: month_of_def filter_map o_def)
  have "sorted ?xs" "hd ?xs \<le> d" using assms unfolding month_table by (cases leap; simp)+
  note L = last_below [OF this(1) _ this(2), folded m]
  show r: "1 \<le> month_of leap d" "month_of leap d \<le> 12" using L(1,2) by simp_all
  then have "?xs ! (month_of leap d - 1) = days_before_month leap (month_of leap d)" by simp
  then show "days_before_month leap (month_of leap d) \<le> d" using L(3) by simp
qed

text \<open>A date read off an instant is the date of the midnight before it.\<close>

lemma Month_bounds: "1 \<le> Month t" "Month t \<le> 12"
proof -
  obtain y d where yd: "year_and_yday (t div day_ns) = (y, d)" by (cases "year_and_yday (t div day_ns)")
  from month_of_range(1,2) [OF year_and_yday_correct(2) [OF yd]] show "1 \<le> Month t" "Month t \<le> 12"
    by (auto simp: Month_def yd)
qed

lemma days_of_civil_of: "days_of_civil (Year t) (Month t) (Day t) = t div day_ns"
proof -
  obtain y d where yd: "year_and_yday (t div day_ns) = (y, d)" by (cases "year_and_yday (t div day_ns)")
  have "(Month t - 1) div 12 = 0" "(Month t - 1) mod 12 = Month t - 1"
    using Month_bounds [of t] by simp_all
  then have "days_of_civil (Year t) (Month t) (Day t) = days_before_year (Year t) + d"
    by (simp add: days_of_civil_def Let_def Day_def yd)
  then have "days_of_civil (Year t) (Month t) (Day t) = days_before_year y + d" by (simp add: Year_def yd)
  also have "\<dots> = t div day_ns" using year_and_yday_correct(1) [OF yd] by (rule sym)
  finally show ?thesis .
qed

text \<open>Months have at least 28 days, so instants with the same day of the month are on the same day or at least 28
  days apart.\<close>

definition month_start :: "int \<Rightarrow> int" where
  "month_start k = days_of_civil 0 (k + 1) 1"

lemma days_before_year_step: "days_before_year y + 365 \<le> days_before_year (y + 1)"
proof -
  have "(y - 1) div 4 + y div 100 \<le> y div 4 + (y - 1) div 100"
  proof (cases "100 dvd y")
    case True
    then obtain k where "y = 100 * k" by (rule dvdE)
    moreover have "(100 * k - 1) div 4 = 25 * k - 1" "(100 * k - 1) div 100 = k - 1" "100 * k div 4 = 25 * k" by linarith+
    ultimately show ?thesis by simp
  next
    case False
    then have "0 < y mod 100" by (simp add: dvd_eq_mod_eq_0 order_le_neq_trans)
    moreover have "y - 1 = 100 * (y div 100) + (y mod 100 - 1)" by simp
    ultimately have "(y - 1) div 100 = y div 100" by (intro int_div_pos_eq [of _ _ _ "y mod 100 - 1"]) simp_all
    then show ?thesis by (simp add: zdiv_mono1)
  qed
  moreover have "(y - 1) div 400 \<le> y div 400" by (simp add: zdiv_mono1)
  ultimately show ?thesis by (simp add: days_before_year_def)
qed

lemma days_before_month_step:
  "1 \<le> m \<Longrightarrow> m < 12 \<Longrightarrow> days_before_month leap m + 28 \<le> days_before_month leap (Suc m)"
proof -
  assume "1 \<le> m" "m < 12"
  then have "m = 1 \<or> m = 2 \<or> m = 3 \<or> m = 4 \<or> m = 5 \<or> m = 6 \<or> m = 7 \<or> m = 8 \<or> m = 9 \<or> m = 10 \<or> m = 11" by arith
  then show ?thesis by (elim disjE) (simp_all add: days_before_month_def)
qed

lemma month_start_step: "month_start k + 28 \<le> month_start (k + 1)"
proof -
  have ms: "month_start j = days_before_year (j div 12) + days_before_month (is_leap (j div 12)) (nat (j mod 12 + 1))" for j
    by (simp add: month_start_def days_of_civil_def Let_def)
  show ?thesis
  proof (cases "k mod 12 = 11")
    case True
    then have "k + 1 = 12 * (k div 12 + 1)" using mult_div_mod_eq [of 12 k] unfolding distrib_left by linarith
    then have "(k + 1) div 12 = k div 12 + 1" "(k + 1) mod 12 = 0" by (metis nonzero_mult_div_cancel_left zero_neq_numeral, metis mod_mult_self1_is_0)
    moreover have "days_before_month (is_leap (k div 12)) 12 \<le> 335" by (simp add: days_before_month_def)
    moreover have "days_before_month l 1 = 0" for l by (simp add: days_before_month_def)
    ultimately show ?thesis using days_before_year_step [of "k div 12"] True by (simp add: ms add.commute)
  next
    case False
    then have r: "0 \<le> k mod 12" "k mod 12 < 11" using pos_mod_bound [of 12 k] by (simp, linarith)
    moreover have "k + 1 = 12 * (k div 12) + (k mod 12 + 1)" by simp
    ultimately have "(k + 1) div 12 = k div 12" "(k + 1) mod 12 = k mod 12 + 1"
      using int_div_pos_eq [of "k + 1" 12 "k div 12" "k mod 12 + 1"] int_mod_pos_eq [of "k + 1" 12 "k div 12" "k mod 12 + 1"] by simp_all
    moreover from r
    have "nat (k mod 12 + 2) = Suc (nat (k mod 12 + 1))" "1 \<le> nat (k mod 12 + 1)" "nat (k mod 12 + 1) < 12" by simp_all
    ultimately show ?thesis using days_before_month_step [of "nat (k mod 12 + 1)" "is_leap (k div 12)"] by (simp add: ms add.commute)
  qed
qed

lemma month_start_less: "j < k \<Longrightarrow> month_start j + 28 \<le> month_start k"
proof (induction k rule: int_gr_induct [of j])
  case base
  then show ?case by (rule month_start_step)
next
  case (step i)
  then show ?case using month_start_step [of i] by simp
qed

lemma day_number: "t div day_ns = month_start (12 * Year t + Month t - 1) + Day t - 1"
proof -
  have m: "0 \<le> Month t - 1" "Month t - 1 < 12" using Month_bounds [of t] by simp_all
  have "12 * Year t + Month t - 1 = (Month t - 1) + 12 * Year t" by simp
  with m have "(12 * Year t + Month t - 1) div 12 = Year t" "(12 * Year t + Month t - 1) mod 12 = Month t - 1"
    by (simp_all only: div_mult_self2 mod_mult_self2 div_pos_pos_trivial mod_pos_pos_trivial)
  with m have "days_of_civil (Year t) (Month t) (Day t) = month_start (12 * Year t + Month t - 1) + Day t - 1"
    by (simp add: month_start_def days_of_civil_def Let_def)
  then show ?thesis by (simp add: days_of_civil_of)
qed

lemma same_Day: "Day t = Day u \<Longrightarrow> t div day_ns < u div day_ns \<Longrightarrow> t div day_ns + 28 \<le> u div day_ns"
proof -
  assume d: "Day t = Day u" "t div day_ns < u div day_ns"
  let ?j = "12 * Year t + Month t - 1" and ?k = "12 * Year u + Month u - 1"
  have "month_start ?j < month_start ?k" using d day_number [of t] day_number [of u] by simp
  then have "\<not> ?k < ?j" "?j \<noteq> ?k" using month_start_less [of ?k ?j] by auto
  then have "?j < ?k" by simp
  then show ?thesis using month_start_less [of ?j ?k] d day_number [of t] day_number [of u] by simp
qed

lemma Date_midnight: "Date (Year t) (Month t) (Day t) 0 0 0 0 = t div day_ns * day_ns"
  by (simp add: Date_def days_of_civil_of)

lemma Hour_Minute_Second:
  "t mod day_ns = Hour t * 3600000000000 + Minute t * 60000000000 + Second t * 1000000000 + Nanosecond t"
  "0 \<le> Hour t" "Hour t < 24" "0 \<le> Minute t" "Minute t < 60" "0 \<le> Second t" "Second t < 60"
  "0 \<le> Nanosecond t" "Nanosecond t < 1000000000"
proof -
  define u where "u = t mod day_ns"
  have u: "0 \<le> u" "u < 86400000000000" by (simp_all add: u_def day_ns_def)
  have ns: "t mod 1000000000 = u mod 1000000000"
    unfolding u_def day_ns_def by (simp add: mod_mod_cancel)
  have h: "u div 3600000000000 = u div 1000000000 div 60 div 60" "u div 60000000000 = u div 1000000000 div 60"
    using div_mult2_eq' [of u 1000000000 3600] by (simp_all flip: zdiv_zmult2_eq)
  show "t mod day_ns = Hour t * 3600000000000 + Minute t * 60000000000 + Second t * 1000000000 + Nanosecond t"
    unfolding Hour_def Minute_def Second_def Nanosecond_def u_def [symmetric] ns h by presburger
  show "0 \<le> Hour t" "Hour t < 24" "0 \<le> Minute t" "Minute t < 60" "0 \<le> Second t" "Second t < 60"
    "0 \<le> Nanosecond t" "Nanosecond t < 1000000000"
    using u unfolding Hour_def Minute_def Second_def Nanosecond_def u_def [symmetric]
    by (simp_all add: div_int_pos_iff)
qed

text \<open>Reading the parts of an instant and building it again gives the instant.\<close>

lemma Date_of_parts: "Date (Year t) (Month t) (Day t) (Hour t) (Minute t) (Second t) (Nanosecond t) = t"
proof -
  have "Date (Year t) (Month t) (Day t) (Hour t) (Minute t) (Second t) (Nanosecond t)
      = t div day_ns * day_ns + t mod day_ns"
    unfolding Hour_Minute_Second(1) by (simp add: Date_def days_of_civil_of)
  then show ?thesis by simp
qed

subsection \<open>coreutils.go: hours\<close>

definition CopyHour :: "gotime \<Rightarrow> gotime \<Rightarrow> gotime" where
  "CopyHour src dest =
     (if Hour src = 0 \<and> Minute src = 0 \<and> Second src = 0 then src
      else Date (Year dest) (Month dest) (Day dest) (Hour src) (Minute src) (Second src) (Nanosecond src))"

definition TimeIs0h :: "gotime \<Rightarrow> bool" where
  "TimeIs0h t \<longleftrightarrow> Hour t = 0 \<and> Minute t = 0 \<and> Second t = 0"

subsection \<open>dateseries.go\<close>

type_synonym Years = "int list"

definition Years_Sort :: "Years \<Rightarrow> Years" where
  "Years_Sort ys = sort_less (<) ys"

fun Years_Contains :: "Years \<Rightarrow> int \<Rightarrow> bool" where
  "Years_Contains [] year = False"
| "Years_Contains (yss # ys) year = (if yss = year then True else Years_Contains ys year)"

definition Years_Parse :: "Years \<Rightarrow> string \<Rightarrow> char \<Rightarrow> Years" where
  "Years_Parse ys input sep =
     (if input = ''*any'' \<or> input = [] then []
      else ys @ concat (map (\<lambda>yss. case Atoi yss of (n, err) \<Rightarrow> if err then [] else [n])
                        (split_on sep input)))"

definition Years_Serialize :: "Years \<Rightarrow> char \<Rightarrow> string" where
  "Years_Serialize ys sep = (if ys = [] then ''*any'' else join_with [sep] (map Itoa ys))"

fun Years_Equals :: "Years \<Rightarrow> Years \<Rightarrow> bool" where
  "Years_Equals [] [] = True"
| "Years_Equals (a # ys) (b # oYS) = (a = b \<and> Years_Equals ys oYS)"
| "Years_Equals _ _ = False"

type_synonym Months = "int list"

definition Months_Sort :: "Months \<Rightarrow> Months" where
  "Months_Sort m = sort_less (<) m"

fun Months_Contains :: "Months \<Rightarrow> int \<Rightarrow> bool" where
  "Months_Contains [] month = False"
| "Months_Contains (ms # m) month = (if ms = month then True else Months_Contains m month)"

definition Months_Parse :: "Months \<Rightarrow> string \<Rightarrow> char \<Rightarrow> Months" where
  "Months_Parse m input sep =
     (if input = ''*any'' \<or> input = [] then []
      else m @ concat (map (\<lambda>ms. case Atoi ms of (n, err) \<Rightarrow> if err then [] else [n])
                        (split_on sep input)))"

definition Months_Serialize :: "Months \<Rightarrow> char \<Rightarrow> string" where
  "Months_Serialize m sep = (if m = [] then ''*any'' else join_with [sep] (map Itoa m))"

fun Months_Equals :: "Months \<Rightarrow> Months \<Rightarrow> bool" where
  "Months_Equals [] [] = True"
| "Months_Equals (a # m) (b # oM) = (a = b \<and> Months_Equals m oM)"
| "Months_Equals _ _ = False"

type_synonym MonthDays = "int list"

definition MonthDays_Sort :: "MonthDays \<Rightarrow> MonthDays" where
  "MonthDays_Sort md = sort_less (<) md"

fun MonthDays_Contains :: "MonthDays \<Rightarrow> int \<Rightarrow> bool" where
  "MonthDays_Contains [] monthDay = False"
| "MonthDays_Contains (mds # md) monthDay = (if mds = monthDay then True else MonthDays_Contains md monthDay)"

definition MonthDays_Parse :: "MonthDays \<Rightarrow> string \<Rightarrow> char \<Rightarrow> MonthDays" where
  "MonthDays_Parse md input sep =
     (if input = ''*any'' \<or> input = [] then []
      else md @ concat (map (\<lambda>mds. case Atoi mds of (n, err) \<Rightarrow> if err then [] else [n])
                        (split_on sep input)))"

definition MonthDays_Serialize :: "MonthDays \<Rightarrow> char \<Rightarrow> string" where
  "MonthDays_Serialize md sep = (if md = [] then ''*any'' else join_with [sep] (map Itoa md))"

fun MonthDays_Equals :: "MonthDays \<Rightarrow> MonthDays \<Rightarrow> bool" where
  "MonthDays_Equals [] [] = True"
| "MonthDays_Equals (a # md) (b # omd) = (a = b \<and> MonthDays_Equals md omd)"
| "MonthDays_Equals _ _ = False"

definition Months_IsComplete :: "Months \<Rightarrow> bool" where
  "Months_IsComplete m \<longleftrightarrow> Months_Sort m = [1, 2, 3, 4, 5, 6, 7, 8, 9, 10, 11, 12]"

text \<open>Week days are read modulo 7 (Go's remainder), so that Sunday may be written as 7.\<close>

type_synonym WeekDays = "int list"

definition rem7 :: "int \<Rightarrow> int" where
  "rem7 day = sgn day * (\<bar>day\<bar> mod 7)"

definition WeekDays_Sort :: "WeekDays \<Rightarrow> WeekDays" where
  "WeekDays_Sort wd = sort_less (<) wd"

fun WeekDays_Contains :: "WeekDays \<Rightarrow> int \<Rightarrow> bool" where
  "WeekDays_Contains [] weekDay = False"
| "WeekDays_Contains (wds # wd) weekDay = (if wds = weekDay then True else WeekDays_Contains wd weekDay)"

definition WeekDays_Parse :: "WeekDays \<Rightarrow> string \<Rightarrow> char \<Rightarrow> WeekDays" where
  "WeekDays_Parse wd input sep =
     (if input = ''*any'' \<or> input = [] then []
      else wd @ concat (map (\<lambda>wds. case Atoi wds of (n, err) \<Rightarrow> if err then [] else [rem7 n])
                        (split_on sep input)))"

definition WeekDays_Serialize :: "WeekDays \<Rightarrow> char \<Rightarrow> string" where
  "WeekDays_Serialize wd sep = (if wd = [] then ''*any'' else join_with [sep] (map Itoa wd))"

fun WeekDays_Equals :: "WeekDays \<Rightarrow> WeekDays \<Rightarrow> bool" where
  "WeekDays_Equals [] [] = True"
| "WeekDays_Equals (a # wd) (b # oWD) = (a = b \<and> WeekDays_Equals wd oWD)"
| "WeekDays_Equals _ _ = False"

definition DaysInMonth :: "int \<Rightarrow> int \<Rightarrow> float64" where
  "DaysInMonth year month = float_of_int (Day (AddDate (Date year month 1 0 0 0 0) 0 1 (-1)))"

definition Duration_Hours :: "duration \<Rightarrow> float64" where
  "Duration_Hours d =
     fadd (float_of_int (quot64 d 3600000000000))
          (fdiv (float_of_int (d - 3600000000000 * quot64 d 3600000000000)) (Fin 3600000000000))"

definition DaysInYear :: "int \<Rightarrow> float64" where
  "DaysInYear year =
     (let first = Date year 1 1 0 0 0 0; last = AddDate first 1 0 0
      in fdiv (Duration_Hours (time_Sub last first)) (Fin 24))"

subsection \<open>The contract of a series\<close>

locale date_series =
  fixes Contains :: "int list \<Rightarrow> int \<Rightarrow> bool" and Parse :: "int list \<Rightarrow> string \<Rightarrow> char \<Rightarrow> int list"
    and Serialize :: "int list \<Rightarrow> char \<Rightarrow> string" and Equals :: "int list \<Rightarrow> int list \<Rightarrow> bool"
    and norm :: "int \<Rightarrow> int"
  assumes Contains_Nil: "\<not> Contains [] x" and Contains_Cons: "Contains (y # ys) x \<longleftrightarrow> y = x \<or> Contains ys x"
    and Parse_eq: "Parse xs input sep =
      (if input = ''*any'' \<or> input = [] then []
       else xs @ concat (map (\<lambda>w. case Atoi w of (n, err) \<Rightarrow> if err then [] else [norm n]) (split_on sep input)))"
    and Serialize_eq: "Serialize xs sep = (if xs = [] then ''*any'' else join_with [sep] (map Itoa xs))"
    and Equals_eq: "Equals xs ys \<longleftrightarrow> xs = ys"
begin

lemma Contains_iff: "Contains xs x \<longleftrightarrow> x \<in> set xs"
  by (induction xs) (auto simp: Contains_Nil Contains_Cons)

lemma Parse_Serialize:
  assumes "\<And>x. x \<in> set xs \<Longrightarrow> is_int64 x \<and> norm x = x" and sep: "\<not> is_digit sep" "sep \<noteq> CHR ''-''"
  shows "Parse ys (Serialize xs sep) sep = (if xs = [] then [] else ys @ xs)"
proof (cases xs)
  case (Cons x xs')
  have "sep \<notin> set (Itoa n)" for n using Itoa_chars sep by blast
  then have split: "split_on sep (Serialize xs sep) = map Itoa xs"
    unfolding Serialize_eq using Cons split_join [of "map Itoa xs" sep] by auto
  have "Serialize xs sep = Itoa x @ (if xs' = [] then [] else sep # join_with [sep] (map Itoa xs'))"
    by (cases xs') (simp_all add: Serialize_eq Cons)
  moreover have "hd (Itoa x) \<noteq> CHR ''*''" using Itoa_chars [of "hd (Itoa x)" x] by (auto simp: is_digit_def)
  ultimately have ne: "Serialize xs sep \<noteq> ''*any''" "Serialize xs sep \<noteq> []"
    by (cases "Itoa x"; auto)+
  have m: "map (\<lambda>w. case Atoi w of (n, err) \<Rightarrow> if err then [] else [norm n]) (map Itoa xs) = map (\<lambda>n. [n]) xs"
    using assms(1) by (simp add: Atoi_Itoa)
  have "Parse ys (Serialize xs sep) sep = ys @ concat (map (\<lambda>n. [n]) xs)"
    by (simp only: Parse_eq split m ne simp_thms if_False)
  then show ?thesis using Cons by simp
qed (simp add: Parse_eq Serialize_eq)

end

lemma Years_Equals_eq: "Years_Equals xs ys \<longleftrightarrow> xs = ys"
  by (induction xs ys rule: Years_Equals.induct) auto

lemma Months_Equals_eq: "Months_Equals xs ys \<longleftrightarrow> xs = ys"
  by (induction xs ys rule: Months_Equals.induct) auto

lemma MonthDays_Equals_eq: "MonthDays_Equals xs ys \<longleftrightarrow> xs = ys"
  by (induction xs ys rule: MonthDays_Equals.induct) auto

lemma WeekDays_Equals_eq: "WeekDays_Equals xs ys \<longleftrightarrow> xs = ys"
  by (induction xs ys rule: WeekDays_Equals.induct) auto

interpretation ys: date_series Years_Contains Years_Parse Years_Serialize Years_Equals "\<lambda>n. n"
  by unfold_locales (auto simp: Years_Parse_def Years_Serialize_def Years_Equals_eq)

interpretation ms: date_series Months_Contains Months_Parse Months_Serialize Months_Equals "\<lambda>n. n"
  by unfold_locales (auto simp: Months_Parse_def Months_Serialize_def Months_Equals_eq)

interpretation mds: date_series MonthDays_Contains MonthDays_Parse MonthDays_Serialize MonthDays_Equals "\<lambda>n. n"
  by unfold_locales (auto simp: MonthDays_Parse_def MonthDays_Serialize_def MonthDays_Equals_eq)

interpretation wds: date_series WeekDays_Contains WeekDays_Parse WeekDays_Serialize WeekDays_Equals rem7
  by unfold_locales (auto simp: WeekDays_Parse_def WeekDays_Serialize_def WeekDays_Equals_eq)

subsection \<open>Properties\<close>

text \<open>What \<^verbatim>\<open>Serialize\<close> prints of a series \<^verbatim>\<open>Parse\<close> reads again, for all four kinds of
  series; week days survive when they are in the range Sunday (0) to Saturday (6). A separator is
  any character but a digit or the minus sign.\<close>

theorem date_series_roundtrip:
  assumes "list_all is_int64 xs" and "\<not> is_digit sep" and "sep \<noteq> CHR ''-''"
  shows "Years_Parse [] (Years_Serialize xs sep) sep = xs
    \<and> Months_Parse [] (Months_Serialize xs sep) sep = xs
    \<and> MonthDays_Parse [] (MonthDays_Serialize xs sep) sep = xs
    \<and> (list_all (\<lambda>d. 0 \<le> d \<and> d < 7) xs \<longrightarrow> WeekDays_Parse [] (WeekDays_Serialize xs sep) sep = xs)"
proof -
  have r: "rem7 x = x" if "0 \<le> x" "x < 7" for x using that by (simp add: rem7_def sgn_if)
  have i: "is_int64 x" if "x \<in> set xs" for x using assms(1) that by (simp add: list_all_iff)
  show ?thesis
    using ys.Parse_Serialize [of xs sep "[]"] ms.Parse_Serialize [of xs sep "[]"]
      mds.Parse_Serialize [of xs sep "[]"] wds.Parse_Serialize [of xs sep "[]"] i r assms(2,3)
    by (auto simp: list_all_iff)
qed

theorem date_series_roundtrip_witness:
  "WeekDays_Parse [] (WeekDays_Serialize [1, 5, 0] CHR '';'') CHR '';'' = [1, 5, 0]
    \<and> Years_Serialize [2019, 2020] CHR '';'' = ''2019;2020''
    \<and> Years_Parse [] ''2019;2020'' CHR '';'' = [2019, 2020]"
proof -
  have s: "\<not> is_digit CHR '';''" by (simp add: is_digit_def)
  have ser: "Years_Serialize [2019, 2020] CHR '';'' = ''2019;2020''"
    by (simp add: Years_Serialize_def Itoa_def digits.simps digit_def char_of_def bit_Suc_0_iff)
  show ?thesis
    using date_series_roundtrip [of "[1, 5, 0]" "CHR '';''"] date_series_roundtrip [of "[2019, 2020]" "CHR '';''"] s ser
    by (simp add: is_int64_def)
qed

text \<open>Building an instant from its year, month, day and time of day gives the instant back, and
  its month is between 1 and 12 and its day at least 1, so that the margins of a timing fall on the
  day they are computed for.\<close>

theorem calendar_roundtrip:
  "Date (Year t) (Month t) (Day t) (Hour t) (Minute t) (Second t) (Nanosecond t) = t
    \<and> 1 \<le> Month t \<and> Month t \<le> 12 \<and> 1 \<le> Day t \<and> CopyHour t t = t"
proof -
  obtain y d where yd: "year_and_yday (t div day_ns) = (y, d)" by (cases "year_and_yday (t div day_ns)")
  have "1 \<le> Day t"
    using month_of_range(3) [OF year_and_yday_correct(2) [OF yd], of "is_leap y"]
    by (simp add: Day_def Month_def Year_def yd)
  then show ?thesis using Date_of_parts [of t] Month_bounds [of t] by (simp add: CopyHour_def)
qed

end
