(* ===== verification/Rate_Interval.thy ===== *)
theory Rate_Interval
  imports Utils_Event Date_Series
begin

text \<open>
  \<^verbatim>\<open>engine/rateinterval.go\<close>: when a price applies (\<open>RITiming\<close>) and what it is (\<open>RIRate\<close>, groups of
  rates that start at a second of the call).

  A margin is computed from a text \<^verbatim>\<open>hh:mm:ss\<close>; a text with fewer parts makes the code index out of
  range, and a nil timing is dereferenced, so these operations return \<open>error + _\<close> with a \<open>Panic\<close>.
  \<^verbatim>\<open>GetRateParameters\<close> sorts the rates in place and fills in missing increments: it returns the
  interval it leaves behind, and what later calls read from that interval is shown to be the same
  (\<open>rate_params_stable\<close>), so that its other users take the result only.
\<close>

definition ebind :: "error + 'a \<Rightarrow> ('a \<Rightarrow> error + 'b) \<Rightarrow> error + 'b" where
  "ebind x f = (case x of Inl e \<Rightarrow> Inl e | Inr a \<Rightarrow> f a)"

text \<open>Evaluation sees the case distinction, so that it does not go into the continuation before it is reached.\<close>

declare ebind_def [code_unfold]

lemma ebind_simps [simp]: "ebind (Inl e) f = Inl e" "ebind (Inr a) f = f a"
  by (simp_all add: ebind_def)

lemma ebind_Inr: "ebind x f = Inr b \<longleftrightarrow> (\<exists>a. x = Inr a \<and> f a = Inr b)"
  by (cases x) simp_all

subsection \<open>Data\<close>

record RITiming =
  rtYears :: Years
  rtMonths :: Months
  rtMonthDays :: MonthDays
  rtWeekDays :: WeekDays
  rtStartTime :: string
  rtEndTime :: string
  rtcronString :: string
  rttag :: string

record Rate =
  GroupIntervalStart :: duration
  rateValue :: float64
  RateIncrement :: duration
  RateUnit :: duration

record RIRate =
  rrConnectFee :: float64
  rrRoundingMethod :: string
  rrRoundingDecimals :: int
  rrMaxCost :: float64
  rrMaxCostStrategy :: string
  rrRates :: "Rate list"
  rrtag :: string

record RateInterval =
  riTiming :: "RITiming option"
  riRating :: "RIRate option"
  riWeight :: float64

subsection \<open>RITiming\<close>

definition strip0 :: "string \<Rightarrow> string" where
  "strip0 s = (if has_prefix s ''0'' then tl s else s)"

definition cron_list :: "int list \<Rightarrow> string" where
  "cron_list xs = (if xs = [] then ''*'' else join_with '','' (map Itoa xs))"

definition CronString :: "RITiming \<Rightarrow> RITiming \<times> string" where
  "CronString rit =
     (if rtcronString rit \<noteq> [] then (rit, rtcronString rit)
      else
        let (hour, min, sec) =
              (if rtStartTime rit = [] then (''*'', ''*'', ''*'')
               else if rtStartTime rit = ''*every_minute'' then (''*'', ''*'', ''0'')
               else if rtStartTime rit = ''*hourly'' then (''*'', ''0'', ''0'')
               else case split_on CHR '':'' (rtStartTime rit) of
                      [h, m, s] \<Rightarrow> (strip0 h, strip0 m, strip0 s)
                    | _ \<Rightarrow> (''*'', ''*'', ''*''));
            cs = join_with '' '' [sec, min, hour, cron_list (rtMonthDays rit), cron_list (rtMonths rit),
                                  cron_list (rtWeekDays rit), cron_list (rtYears rit)]
        in (rit\<lparr>rtcronString := cs\<rparr>, cs))"

definition parse_hms :: "string \<Rightarrow> error + (int \<times> int \<times> int)" where
  "parse_hms s =
     (case split_on CHR '':'' s of
        h # m # sec # _ \<Rightarrow> Inr (fst (Atoi h), fst (Atoi m), fst (Atoi sec))
      | _ \<Rightarrow> Inl (Panic ''index out of range''))"

definition getRightMargin :: "RITiming \<Rightarrow> gotime \<Rightarrow> error + gotime" where
  "getRightMargin rit t =
     (if rtEndTime rit \<noteq> [] then
        ebind (parse_hms (rtEndTime rit)) (\<lambda>(hour, min, sec). Inr (Date (Year t) (Month t) (Day t) hour min sec 0))
      else Inr (time_Add (Date (Year t) (Month t) (Day t) 23 59 59 0) 1000000000))"

definition getLeftMargin :: "RITiming \<Rightarrow> gotime \<Rightarrow> error + gotime" where
  "getLeftMargin rit t =
     (if rtStartTime rit \<noteq> [] then
        ebind (parse_hms (rtStartTime rit)) (\<lambda>(hour, min, sec). Inr (Date (Year t) (Month t) (Day t) hour min sec 0))
      else Inr (Date (Year t) (Month t) (Day t) 0 0 0 0))"

definition IsActiveAt :: "RITiming \<Rightarrow> gotime \<Rightarrow> error + bool" where
  "IsActiveAt rit t =
     (if rtYears rit \<noteq> [] \<and> \<not> Years_Contains (rtYears rit) (Year t) then Inr False
      else if rtMonths rit \<noteq> [] \<and> \<not> Months_Contains (rtMonths rit) (Month t) then Inr False
      else if rtMonthDays rit \<noteq> [] \<and> \<not> MonthDays_Contains (rtMonthDays rit) (Day t) then Inr False
      else if rtWeekDays rit \<noteq> [] \<and> \<not> WeekDays_Contains (rtWeekDays rit) (Weekday t) then Inr False
      else ebind (getLeftMargin rit t) (\<lambda>left.
             if t < left then Inr False
             else ebind (getRightMargin rit t) (\<lambda>right. Inr (\<not> t > right))))"

definition IsBlank :: "RITiming \<Rightarrow> bool" where
  "IsBlank rit \<longleftrightarrow> rtYears rit = [] \<and> rtMonths rit = [] \<and> rtMonthDays rit = [] \<and> rtWeekDays rit = []
     \<and> rtStartTime rit = ''00:00:00''"

text \<open>A clone has no cached cron string and no tag.\<close>

definition RITiming_Clone :: "RITiming option \<Rightarrow> RITiming option" where
  "RITiming_Clone rit =
     map_option (\<lambda>r. \<lparr>rtYears = rtYears r, rtMonths = rtMonths r, rtMonthDays = rtMonthDays r,
       rtWeekDays = rtWeekDays r, rtStartTime = rtStartTime r, rtEndTime = rtEndTime r,
       rtcronString = [], rttag = []\<rparr>) rit"

subsection \<open>Rates\<close>

definition Rate_FieldAsInterface :: "Rate \<Rightarrow> string list \<Rightarrow> error + iface" where
  "Rate_FieldAsInterface r fldPath =
     (case fldPath of
        [fld] \<Rightarrow>
          if fld = ''GroupIntervalStart'' then Inr (IDuration (GroupIntervalStart r))
          else if fld = ''Value'' then Inr (IFloat64 (rateValue r))
          else if fld = ''RateIncrement'' then Inr (IDuration (RateIncrement r))
          else if fld = ''RateUnit'' then Inr (IDuration (RateUnit r))
          else Inl (ErrMsg (''unsupported field prefix: <'' @ fld @ ''>''))
      | _ \<Rightarrow> Inl ErrNotFound)"

definition Rate_Equal :: "Rate \<Rightarrow> Rate \<Rightarrow> bool" where
  "Rate_Equal p q \<longleftrightarrow> GroupIntervalStart p = GroupIntervalStart q \<and> feq (rateValue p) (rateValue q)
     \<and> RateIncrement p = RateIncrement q \<and> RateUnit p = RateUnit q"

definition RateGroups_Sort :: "Rate list \<Rightarrow> Rate list" where
  "RateGroups_Sort pg = sort_less (\<lambda>a b. GroupIntervalStart a < GroupIntervalStart b) pg"

fun RateGroups_Equal :: "Rate list \<Rightarrow> Rate list \<Rightarrow> bool" where
  "RateGroups_Equal [] [] = True"
| "RateGroups_Equal (p # pg) (q # og) = (Rate_Equal p q \<and> RateGroups_Equal pg og)"
| "RateGroups_Equal _ _ = False"

fun AddRate :: "Rate list \<Rightarrow> Rate list \<Rightarrow> Rate list" where
  "AddRate pg [] = pg"
| "AddRate pg (p # ps) = AddRate (if list_ex (\<lambda>op. Rate_Equal op p) pg then pg else pg @ [p]) ps"

definition Rate_Clone :: "Rate \<Rightarrow> Rate" where
  "Rate_Clone r = \<lparr>GroupIntervalStart = GroupIntervalStart r, rateValue = rateValue r,
     RateIncrement = RateIncrement r, RateUnit = RateUnit r\<rparr>"

definition RateGroups_Clone :: "Rate list \<Rightarrow> Rate list" where
  "RateGroups_Clone pg = map Rate_Clone pg"

definition RIRate_Clone :: "RIRate option \<Rightarrow> RIRate option" where
  "RIRate_Clone rir =
     map_option (\<lambda>r. \<lparr>rrConnectFee = rrConnectFee r, rrRoundingMethod = rrRoundingMethod r,
       rrRoundingDecimals = rrRoundingDecimals r, rrMaxCost = rrMaxCost r,
       rrMaxCostStrategy = rrMaxCostStrategy r, rrRates = map Rate_Clone (rrRates r), rrtag = []\<rparr>) rir"

subsection \<open>RateInterval\<close>

definition ri_Contains :: "RateInterval \<Rightarrow> gotime \<Rightarrow> bool \<Rightarrow> error + bool" where
  "ri_Contains i t endTime =
     (let t' = (if endTime \<and> TimeIs0h t then time_Add t (- 1000000000) else t)
      in case riTiming i of
           None \<Rightarrow> Inl (Panic ''nil pointer dereference'')
         | Some rit \<Rightarrow> IsActiveAt rit t')"

definition RateInterval_Equal :: "RateInterval option \<Rightarrow> RateInterval option \<Rightarrow> error + bool" where
  "RateInterval_Equal i oi =
     (case (i, oi) of
        (None, None) \<Rightarrow> Inr True
      | (Some a, Some b) \<Rightarrow>
          if \<not> feq (riWeight a) (riWeight b) then Inr False
          else (case (riTiming a, riTiming b) of
                  (None, None) \<Rightarrow> Inr True
                | (Some x, Some y) \<Rightarrow>
                    Inr (rtYears x = rtYears y \<and> rtMonths x = rtMonths y \<and> rtMonthDays x = rtMonthDays y
                         \<and> rtWeekDays x = rtWeekDays y \<and> rtStartTime x = rtStartTime y
                         \<and> rtEndTime x = rtEndTime y)
                | _ \<Rightarrow> Inl (Panic ''nil pointer dereference''))
      | _ \<Rightarrow> Inr False)"

definition set_defaults :: "Rate \<Rightarrow> Rate" where
  "set_defaults p = p\<lparr>RateIncrement := (if RateIncrement p = 0 then 1000000000 else RateIncrement p),
     RateUnit := (if RateUnit p = 0 then 1000000000 else RateUnit p)\<rparr>"

fun rate_scan :: "duration \<Rightarrow> Rate list \<Rightarrow> (Rate list \<times> Rate) option" where
  "rate_scan startSecond [] = None"
| "rate_scan startSecond (p # ps) =
     (if GroupIntervalStart p \<le> startSecond
         \<and> (case ps of [] \<Rightarrow> True | q # _ \<Rightarrow> GroupIntervalStart q > startSecond)
      then Some (set_defaults p # ps, set_defaults p)
      else map_option (\<lambda>(qs, r). (p # qs, r)) (rate_scan startSecond ps))"

definition GetRateParameters ::
  "RateInterval \<Rightarrow> duration \<Rightarrow> RateInterval \<times> float64 \<times> duration \<times> duration" where
  "GetRateParameters i startSecond =
     (case riRating i of
        None \<Rightarrow> (i, Fin (-1), -1, -1)
      | Some rir \<Rightarrow>
          let rates = RateGroups_Sort (rrRates rir)
          in case rate_scan startSecond rates of
               None \<Rightarrow> (i\<lparr>riRating := Some (rir\<lparr>rrRates := rates\<rparr>)\<rparr>, Fin (-1), -1, -1)
             | Some (rates', p) \<Rightarrow>
                 (i\<lparr>riRating := Some (rir\<lparr>rrRates := rates'\<rparr>)\<rparr>,
                  rateValue p, RateIncrement p, RateUnit p))"

abbreviation rate_params :: "RateInterval \<Rightarrow> duration \<Rightarrow> float64 \<times> duration \<times> duration" where
  "rate_params i startSecond \<equiv> snd (GetRateParameters i startSecond)"

definition globalRoundingDecimals :: int where
  "globalRoundingDecimals = 6"

definition ri_GetCost :: "RateInterval \<Rightarrow> duration \<Rightarrow> duration \<Rightarrow> float64" where
  "ri_GetCost i d startSecond =
     (case rate_params i startSecond of (price, _, rateUnit) \<Rightarrow>
        Round (fmul (float_of_int d) (fdiv price (float_of_int rateUnit))) globalRoundingDecimals ROUNDING_MIDDLE)"

definition GetMaxCost :: "RateInterval \<Rightarrow> float64 \<times> string" where
  "GetMaxCost ri = (case riRating ri of None \<Rightarrow> (Fin 0, []) | Some r \<Rightarrow> (rrMaxCost r, rrMaxCostStrategy r))"

definition GetWeight :: "RateInterval list \<Rightarrow> float64" where
  "GetWeight rl = foldl (\<lambda>maxWeight r. if fless maxWeight (riWeight r) then riWeight r else maxWeight) (Fin 0) rl"

definition RateInterval_Clone :: "RateInterval option \<Rightarrow> RateInterval option" where
  "RateInterval_Clone i =
     map_option (\<lambda>r. \<lparr>riTiming = RITiming_Clone (riTiming r), riRating = RIRate_Clone (riRating r),
       riWeight = riWeight r\<rparr>) i"

subsection \<open>Sorting by weight and time\<close>

text \<open>\<^verbatim>\<open>Less(j, i)\<close> of \<^verbatim>\<open>RateIntervalTimeSorter\<close>: whether the interval \<open>a\<close> (at \<open>j\<close>) goes before \<open>b\<close>
  (at \<open>i\<close>).\<close>

definition timing_left :: "RateInterval \<Rightarrow> gotime \<Rightarrow> error + gotime" where
  "timing_left i t =
     (case riTiming i of
        None \<Rightarrow> Inl (Panic ''nil pointer dereference'')
      | Some rit \<Rightarrow> getLeftMargin rit t)"

definition ri_Less :: "gotime \<Rightarrow> RateInterval \<Rightarrow> RateInterval \<Rightarrow> error + bool" where
  "ri_Less referenceTime a b =
     (if fless (riWeight b) (riWeight a) then Inr True
      else ebind (timing_left b referenceTime) (\<lambda>t1.
             ebind (timing_left a referenceTime) (\<lambda>t2. Inr (t1 > t2))))"

text \<open>Because \<open>ri_Less\<close> is no order, what the sort returns depends on the algorithm. The library sorts up to
  twelve elements by insertion, moving each one to the left while it goes before its neighbour; longer
  lists of intervals are sorted here in the same way. The prefix is held reversed.\<close>

fun insert_lessE :: "('a \<Rightarrow> 'a \<Rightarrow> error + bool) \<Rightarrow> 'a \<Rightarrow> 'a list \<Rightarrow> error + 'a list" where
  "insert_lessE lt x [] = Inr [x]"
| "insert_lessE lt x (y # ys) =
     ebind (lt x y) (\<lambda>before.
       if before then ebind (insert_lessE lt x ys) (\<lambda>zs. Inr (y # zs)) else Inr (x # y # ys))"

fun sort_lessE :: "('a \<Rightarrow> 'a \<Rightarrow> error + bool) \<Rightarrow> 'a list \<Rightarrow> 'a list \<Rightarrow> error + 'a list" where
  "sort_lessE lt prefix [] = Inr (rev prefix)"
| "sort_lessE lt prefix (x # xs) = ebind (insert_lessE lt x prefix) (\<lambda>prefix'. sort_lessE lt prefix' xs)"

definition TimeSorter_Sort :: "gotime \<Rightarrow> RateInterval list \<Rightarrow> error + RateInterval list" where
  "TimeSorter_Sort referenceTime ris = sort_lessE (ri_Less referenceTime) [] ris"

subsection \<open>The rate of a group\<close>

abbreviation starts_sorted :: "Rate list \<Rightarrow> bool" where
  "starts_sorted \<equiv> sorted_wrt (\<lambda>a b. \<not> GroupIntervalStart b < GroupIntervalStart a)"

lemma RateGroups_Sort_sorted: "starts_sorted (RateGroups_Sort pg)"
  unfolding RateGroups_Sort_def by (rule sort_less_sorted [of UNIV]) auto

lemma set_RateGroups_Sort [simp]: "set (RateGroups_Sort pg) = set pg"
  by (simp add: RateGroups_Sort_def)

lemma RateGroups_Sort_id: "starts_sorted pg \<Longrightarrow> RateGroups_Sort pg = pg"
  unfolding RateGroups_Sort_def by (rule sort_less_id)

lemma rate_scan_None: "starts_sorted rates \<Longrightarrow> rate_scan s rates = None \<longleftrightarrow> (\<forall>p \<in> set rates. s < GroupIntervalStart p)"
proof (induction rates)
  case (Cons p ps)
  then show ?case by (cases ps) auto
qed simp

lemma rate_scan_Some:
  assumes "starts_sorted rates" and "rate_scan s rates = Some (rates', r)"
  shows "\<exists>p \<in> set rates. r = set_defaults p \<and> GroupIntervalStart p \<le> s
    \<and> (\<forall>q \<in> set rates. GroupIntervalStart q \<le> s \<longrightarrow> GroupIntervalStart q \<le> GroupIntervalStart p)"
  using assms
proof (induction rates arbitrary: rates')
  case (Cons p ps)
  show ?case
  proof (cases "GroupIntervalStart p \<le> s \<and> (case ps of [] \<Rightarrow> True | q # _ \<Rightarrow> GroupIntervalStart q > s)")
    case True
    with Cons.prems show ?thesis by (cases ps) auto
  next
    case False
    then obtain qs where "rate_scan s ps = Some (qs, r)" using Cons.prems(2) by auto
    with Cons.IH Cons.prems(1) show ?thesis by fastforce
  qed
qed simp

lemma set_defaults_simps [simp]:
  "set_defaults (set_defaults p) = set_defaults p" "GroupIntervalStart (set_defaults p) = GroupIntervalStart p"
  by (simp_all add: set_defaults_def)

lemma rate_scan_keeps:
  assumes "rate_scan s rates = Some (rates', r)"
  shows "map GroupIntervalStart rates' = map GroupIntervalStart rates"
    and "map_option snd (rate_scan s2 rates') = map_option snd (rate_scan s2 rates)"
proof -
  have "map GroupIntervalStart rates' = map GroupIntervalStart rates
    \<and> map_option snd (rate_scan s2 rates') = map_option snd (rate_scan s2 rates)"
    using assms
  proof (induction rates arbitrary: rates')
    case (Cons p ps)
    show ?case
    proof (cases "GroupIntervalStart p \<le> s \<and> (case ps of [] \<Rightarrow> True | q # _ \<Rightarrow> GroupIntervalStart q > s)")
      case True
      with Cons.prems show ?thesis by (auto simp: option.map_comp o_def split_def)
    next
      case False
      then obtain qs where qs: "rate_scan s ps = Some (qs, r)" "rates' = p # qs" using Cons.prems by auto
      note IH = Cons.IH [OF qs(1)]
      have "(case qs of [] \<Rightarrow> True | q # _ \<Rightarrow> GroupIntervalStart q > s2)
          = (case ps of [] \<Rightarrow> True | q # _ \<Rightarrow> GroupIntervalStart q > s2)"
        using IH by (cases qs; cases ps) auto
      then show ?thesis using IH by (simp add: qs(2) option.map_comp o_def split_def)
    qed
  qed simp
  then show "map GroupIntervalStart rates' = map GroupIntervalStart rates"
    and "map_option snd (rate_scan s2 rates') = map_option snd (rate_scan s2 rates)" by simp_all
qed

lemma starts_sorted_map: "map GroupIntervalStart xs = map GroupIntervalStart ys \<Longrightarrow> starts_sorted ys \<Longrightarrow> starts_sorted xs"
proof -
  assume m: "map GroupIntervalStart xs = map GroupIntervalStart ys" and s: "starts_sorted ys"
  have "starts_sorted zs = sorted_wrt (\<lambda>a b. \<not> b < a) (map GroupIntervalStart zs)" for zs
    by (simp add: sorted_wrt_map)
  with m s show ?thesis by simp
qed

lemma rate_params_scan:
  "riRating i = Some rir \<Longrightarrow> rate_params i s =
    (case map_option snd (rate_scan s (RateGroups_Sort (rrRates rir))) of
       None \<Rightarrow> (Fin (-1), -1, -1) | Some p \<Rightarrow> (rateValue p, RateIncrement p, RateUnit p))"
  by (auto simp: GetRateParameters_def Let_def split: option.splits)

text \<open>Sorting the rates and filling in the defaults changes no later answer.\<close>

lemma rate_params_stable: "rate_params (fst (GetRateParameters i s)) s2 = rate_params i s2"
proof (cases "riRating i")
  case None
  then show ?thesis by (simp add: GetRateParameters_def)
next
  case (Some rir)
  let ?rates = "RateGroups_Sort (rrRates rir)"
  show ?thesis
  proof (cases "rate_scan s ?rates")
    case None
    then have "riRating (fst (GetRateParameters i s)) = Some (rir\<lparr>rrRates := ?rates\<rparr>)"
      by (simp add: GetRateParameters_def Some Let_def)
    then show ?thesis using rate_params_scan [of _ _ s2] Some
      by (simp add: RateGroups_Sort_id [OF RateGroups_Sort_sorted])
  next
    case (Some x)
    obtain rates' p where x: "rate_scan s ?rates = Some (rates', p)" using Some by (cases x) auto
    note K = rate_scan_keeps [OF x]
    have srt: "RateGroups_Sort rates' = rates'"
      by (rule RateGroups_Sort_id [OF starts_sorted_map [OF K(1) RateGroups_Sort_sorted]])
    have "riRating (fst (GetRateParameters i s)) = Some (rir\<lparr>rrRates := rates'\<rparr>)"
      using x by (simp add: GetRateParameters_def \<open>riRating i = Some rir\<close> Let_def)
    note R = rate_params_scan [OF this, of s2]
    have "rrRates (rir\<lparr>rrRates := rates'\<rparr>) = rates'" by simp
    from R [unfolded this srt] show ?thesis
      unfolding rate_params_scan [OF \<open>riRating i = Some rir\<close>] K(2) [of s2] .
  qed
qed

subsection \<open>When a timing applies\<close>

definition time_of_day :: "int \<times> int \<times> int \<Rightarrow> int" where
  "time_of_day hms = (case hms of (h, m, s) \<Rightarrow> h * 3600000000000 + m * 60000000000 + s * 1000000000)"

lemma Date_on_day: "Date (Year t) (Month t) (Day t) h m s 0 = t div day_ns * day_ns + time_of_day (h, m, s)"
  by (simp add: Date_def days_of_civil_of time_of_day_def)

lemma getLeftMargin_eq:
  "rtStartTime rit = [] \<Longrightarrow> getLeftMargin rit t = Inr (t div day_ns * day_ns)"
  "rtStartTime rit \<noteq> [] \<Longrightarrow> parse_hms (rtStartTime rit) = Inr hms \<Longrightarrow>
    getLeftMargin rit t = Inr (t div day_ns * day_ns + time_of_day hms)"
  by (auto simp: getLeftMargin_def Date_on_day time_of_day_def split: prod.splits)

lemma getRightMargin_eq:
  "rtEndTime rit = [] \<Longrightarrow> getRightMargin rit t = Inr (t div day_ns * day_ns + day_ns)"
  "rtEndTime rit \<noteq> [] \<Longrightarrow> parse_hms (rtEndTime rit) = Inr hms \<Longrightarrow>
    getRightMargin rit t = Inr (t div day_ns * day_ns + time_of_day hms)"
  by (auto simp: getRightMargin_def Date_on_day time_Add_def time_of_day_def day_ns_def split: prod.splits)

subsection \<open>Properties\<close>

text \<open>Claim C39. The price of a second of a call is that of the group with the latest start not after it;
  an increment or a unit of 0 counts as one second. Without rates, or before the first group starts,
  all three parameters are -1.\<close>

theorem rate_parameters_of_group:
  "case riRating i of
     None \<Rightarrow> rate_params i s = (Fin (-1), -1, -1)
   | Some rir \<Rightarrow>
       if \<forall>p \<in> set (rrRates rir). s < GroupIntervalStart p then rate_params i s = (Fin (-1), -1, -1)
       else \<exists>p \<in> set (rrRates rir). GroupIntervalStart p \<le> s
         \<and> (\<forall>q \<in> set (rrRates rir). GroupIntervalStart q \<le> s \<longrightarrow> GroupIntervalStart q \<le> GroupIntervalStart p)
         \<and> rate_params i s = (rateValue p, if RateIncrement p = 0 then 1000000000 else RateIncrement p,
                               if RateUnit p = 0 then 1000000000 else RateUnit p)"
proof (cases "riRating i")
  case None
  then show ?thesis by (simp add: GetRateParameters_def)
next
  case (Some rir)
  let ?rates = "RateGroups_Sort (rrRates rir)"
  note P = rate_params_scan [OF Some, of s] and srt = RateGroups_Sort_sorted [of "rrRates rir"]
  show ?thesis
  proof (cases "rate_scan s ?rates")
    case None
    with rate_scan_None [OF srt] P Some show ?thesis by auto
  next
    case (Some x)
    obtain rates' r where x: "rate_scan s ?rates = Some (rates', r)" using Some by (cases x) auto
    have "\<not> (\<forall>p \<in> set (rrRates rir). s < GroupIntervalStart p)" using rate_scan_None [OF srt, of s] x by simp
    moreover obtain p where "p \<in> set (rrRates rir)" "r = set_defaults p" "GroupIntervalStart p \<le> s"
      "\<forall>q \<in> set (rrRates rir). GroupIntervalStart q \<le> s \<longrightarrow> GroupIntervalStart q \<le> GroupIntervalStart p"
      using rate_scan_Some [OF srt x] by auto
    ultimately show ?thesis using P x \<open>riRating i = Some rir\<close> by (auto simp: set_defaults_def)
  qed
qed

definition rx_rate :: "duration \<Rightarrow> rat \<Rightarrow> Rate" where
  "rx_rate start v = \<lparr>GroupIntervalStart = start, rateValue = Fin v, RateIncrement = 0, RateUnit = 60000000000\<rparr>"

definition rx_rating :: RIRate where
  "rx_rating = \<lparr>rrConnectFee = Fin 0, rrRoundingMethod = ''*up'', rrRoundingDecimals = 4, rrMaxCost = Fin 0,
     rrMaxCostStrategy = [], rrRates = [rx_rate 60000000000 1, rx_rate 0 2], rrtag = []\<rparr>"

definition rx_timing :: "string \<Rightarrow> string \<Rightarrow> RITiming" where
  "rx_timing st en = \<lparr>rtYears = [], rtMonths = [], rtMonthDays = [], rtWeekDays = [1, 2, 3, 4, 5], rtStartTime = st,
     rtEndTime = en, rtcronString = [], rttag = []\<rparr>"

definition rx_interval :: "string \<Rightarrow> rat \<Rightarrow> RateInterval" where
  "rx_interval st w = \<lparr>riTiming = Some (rx_timing st []), riRating = Some rx_rating, riWeight = Fin w\<rparr>"

theorem rate_parameters_of_group_witness:
  "\<exists>p \<in> set (rrRates rx_rating). GroupIntervalStart p \<le> 90000000000
     \<and> rate_params (rx_interval ''00:00:00'' 10) 90000000000 = (rateValue p, 1000000000, RateUnit p)"
  using rate_parameters_of_group [of "rx_interval ''00:00:00'' 10" 90000000000]
  by (auto simp: rx_interval_def rx_rating_def rx_rate_def)

text \<open>Claim C40. A timing with well formed start and end is active exactly at the instants whose year, month,
  day and weekday are listed (an empty list admits all) and whose time of day is between start and
  end, both included; an empty end is the end of the day.\<close>

theorem timing_active_iff:
  assumes "rtStartTime rit = [] \<and> start = (0, 0, 0) \<or> rtStartTime rit \<noteq> [] \<and> parse_hms (rtStartTime rit) = Inr start"
    and "rtEndTime rit = [] \<and> end' = (24, 0, 0) \<or> rtEndTime rit \<noteq> [] \<and> parse_hms (rtEndTime rit) = Inr end'"
  shows "IsActiveAt rit t = Inr
    ((rtYears rit = [] \<or> Year t \<in> set (rtYears rit)) \<and> (rtMonths rit = [] \<or> Month t \<in> set (rtMonths rit))
     \<and> (rtMonthDays rit = [] \<or> Day t \<in> set (rtMonthDays rit))
     \<and> (rtWeekDays rit = [] \<or> Weekday t \<in> set (rtWeekDays rit))
     \<and> time_of_day start \<le> t mod day_ns \<and> t mod day_ns \<le> time_of_day end')"
proof -
  have z: "time_of_day (0, 0, 0) = 0" "time_of_day (24, 0, 0) = day_ns" by (simp_all add: time_of_day_def day_ns_def)
  have l: "getLeftMargin rit t = Inr (t div day_ns * day_ns + time_of_day start)"
    using assms(1) getLeftMargin_eq(1) [of rit t] getLeftMargin_eq(2) [of rit start t] z by fastforce
  have r: "getRightMargin rit t = Inr (t div day_ns * day_ns + time_of_day end')"
    using assms(2) getRightMargin_eq(1) [of rit t] getRightMargin_eq(2) [of rit end' t] z by fastforce
  have t: "t = t div day_ns * day_ns + t mod day_ns" by simp
  have c: "t < t div day_ns * day_ns + x \<longleftrightarrow> t mod day_ns < x" "t > t div day_ns * day_ns + x \<longleftrightarrow> t mod day_ns > x" for x
    using t by linarith+
  show ?thesis
    unfolding IsActiveAt_def l r ebind_simps c ys.Contains_iff ms.Contains_iff mds.Contains_iff wds.Contains_iff
    by (simp add: not_less)
qed

theorem timing_active_iff_witness:
  "IsActiveAt (rx_timing ''08:00:00'' ''18:00:00'') (Date 2020 1 6 9 30 0 0) = Inr True
    \<and> IsActiveAt (rx_timing ''08:00:00'' ''18:00:00'') (Date 2020 1 6 18 0 0 1) = Inr False"
proof -
  let ?tm = "rx_timing ''08:00:00'' ''18:00:00''"
  have p: "parse_hms ''08:00:00'' = Inr (8, 0, 0)" "parse_hms ''18:00:00'' = Inr (18, 0, 0)" by code_simp+
  have c: "Weekday (Date 2020 1 6 9 30 0 0) = 1" "Weekday (Date 2020 1 6 18 0 0 1) = 1"
    "Date 2020 1 6 9 30 0 0 mod day_ns = 34200000000000" "Date 2020 1 6 18 0 0 1 mod day_ns = 64800000000001" by code_simp+
  have "IsActiveAt ?tm t = Inr (Weekday t \<in> {1, 2, 3, 4, 5} \<and> 28800000000000 \<le> t mod day_ns \<and> t mod day_ns \<le> 64800000000000)" for t
    using timing_active_iff [of ?tm "(8, 0, 0)" "(18, 0, 0)" t] p by (simp add: rx_timing_def time_of_day_def)
  then show ?thesis by (simp add: c)
qed

text \<open>The order the intervals of a rating plan are sorted by is not an order: an interval with a
  higher weight that starts later than another both precedes and follows it. Sorting the two exchanges
  them whatever their order was, so the order the code works with alternates from one time span to the
  next.\<close>

theorem time_sorter_exchanges:
  assumes "fless (riWeight a) (riWeight b)" and "timing_left a t = Inr la" and "timing_left b t = Inr lb" and "la < lb"
  shows "ri_Less t a b = Inr True \<and> ri_Less t b a = Inr True
    \<and> TimeSorter_Sort t [a, b] = Inr [b, a] \<and> TimeSorter_Sort t [b, a] = Inr [a, b]"
proof -
  have "ri_Less t b a = Inr True" using assms(1) by (simp add: ri_Less_def)
  moreover have "ri_Less t a b = Inr True" using assms fless_asym [OF assms(1)] by (simp add: ri_Less_def)
  ultimately show ?thesis by (simp add: TimeSorter_Sort_def)
qed

theorem time_sorter_exchanges_witness:
  "TimeSorter_Sort (Date 2020 1 6 9 0 0 0) [rx_interval ''08:00:00'' 10, rx_interval ''18:00:00'' 20]
     = Inr [rx_interval ''18:00:00'' 20, rx_interval ''08:00:00'' 10]
    \<and> TimeSorter_Sort (Date 2020 1 6 9 0 0 0) [rx_interval ''18:00:00'' 20, rx_interval ''08:00:00'' 10]
     = Inr [rx_interval ''08:00:00'' 10, rx_interval ''18:00:00'' 20]"
proof -
  let ?t = "Date 2020 1 6 9 0 0 0"
  have l: "timing_left (rx_interval ''08:00:00'' 10) ?t = Inr (Date 2020 1 6 8 0 0 0)"
    "timing_left (rx_interval ''18:00:00'' 20) ?t = Inr (Date 2020 1 6 18 0 0 0)" by code_simp+
  have "fless (riWeight (rx_interval ''08:00:00'' 10)) (riWeight (rx_interval ''18:00:00'' 20))"
    by (simp add: rx_interval_def)
  from time_sorter_exchanges [OF this l] show ?thesis by (simp add: Date_def)
qed

end
