(* ===== verification/Time_Spans.thy ===== *)
theory Time_Spans
  imports Rate_Interval
begin

text \<open>
  \<^verbatim>\<open>engine/timespans.go\<close>: the increments a call is charged by, the spans a call is split into, the ways to
  split, round, compress and merge them. Instants are in UTC.

  A span points to the rating information it was selected from; the pointer is the position in the list
  of the call descriptor (\<open>ris\<close>), whose intervals are sorted in place by \<open>Rating\<close>. Increments and spans
  are values: no two of a call share an increment or a balance information. A getter of a compress
  factor stores the 1 it returns for 0; the functions that only read return the 1 and the ones that
  keep the increment or the span (\<^verbatim>\<open>Compress\<close>, \<^verbatim>\<open>Decompress\<close>) store it.

  Results are \<open>error + _\<close> where the code dereferences a pointer that may be nil or a timing that may not
  be well formed.
\<close>

subsection \<open>Data\<close>

record MonetaryInfo =
  miUUID :: string
  miID :: string
  miValue :: float64
  miRateInterval :: "RateInterval option"

record UnitInfo =
  uiUUID :: string
  uiID :: string
  uiValue :: float64
  uiDestinationID :: string
  uiConsumed :: float64
  uiToR :: string
  uiRateInterval :: "RateInterval option"

record DebitInfo =
  diUnit :: "UnitInfo option"
  diMonetary :: "MonetaryInfo option"
  diAccountID :: string

record Increment =
  icDuration :: duration
  icCost :: float64
  icBalanceInfo :: "DebitInfo option"
  icCompressFactor :: int
  icpaid :: bool

record RatingInfo =
  rfMatchedSubject :: string
  rfRatingPlanId :: string
  rfMatchedPrefix :: string
  rfMatchedDestId :: string
  rfActivationTime :: gotime
  rfRateIntervals :: "RateInterval list option"
  rfFallbackKeys :: "string list"

record TimeSpan =
  tsTimeStart :: gotime
  tsTimeEnd :: gotime
  tsCost :: float64
  tsRateInterval :: "RateInterval option"
  tsDurationIndex :: duration
  tsIncrements :: "Increment list"
  tsRoundIncrement :: "Increment option"
  tsMatchedSubject :: string
  tsMatchedPrefix :: string
  tsMatchedDestId :: string
  tsRatingPlanId :: string
  tsCompressFactor :: int
  tsratingInfo :: "nat option"

definition new_TimeSpan :: "gotime \<Rightarrow> gotime \<Rightarrow> TimeSpan" where
  "new_TimeSpan s e = \<lparr>tsTimeStart = s, tsTimeEnd = e, tsCost = Fin 0, tsRateInterval = None, tsDurationIndex = 0,
     tsIncrements = [], tsRoundIncrement = None, tsMatchedSubject = [], tsMatchedPrefix = [], tsMatchedDestId = [],
     tsRatingPlanId = [], tsCompressFactor = 0, tsratingInfo = None\<rparr>"

definition nil_deref :: error where
  "nil_deref = Panic ''nil pointer dereference''"

subsection \<open>Balance information\<close>

definition MonetaryInfo_Equal :: "MonetaryInfo option \<Rightarrow> MonetaryInfo option \<Rightarrow> bool" where
  "MonetaryInfo_Equal mi om =
     (case (mi, om) of
        (None, None) \<Rightarrow> True
      | (Some a, Some b) \<Rightarrow> miUUID a = miUUID b \<and> miRateInterval a = miRateInterval b
      | _ \<Rightarrow> False)"

definition UnitInfo_Equal :: "UnitInfo option \<Rightarrow> UnitInfo option \<Rightarrow> bool" where
  "UnitInfo_Equal ui ou =
     (case (ui, ou) of
        (None, None) \<Rightarrow> True
      | (Some a, Some b) \<Rightarrow> uiUUID a = uiUUID b \<and> uiDestinationID a = uiDestinationID b
          \<and> feq (uiConsumed a) (uiConsumed b) \<and> uiToR a = uiToR b \<and> uiRateInterval a = uiRateInterval b
      | _ \<Rightarrow> False)"

definition DebitInfo_Equal :: "DebitInfo \<Rightarrow> DebitInfo \<Rightarrow> bool" where
  "DebitInfo_Equal di od \<longleftrightarrow> UnitInfo_Equal (diUnit di) (diUnit od) \<and> MonetaryInfo_Equal (diMonetary di) (diMonetary od)
     \<and> diAccountID di = diAccountID od"

definition DebitInfo_Clone :: "DebitInfo \<Rightarrow> DebitInfo" where
  "DebitInfo_Clone di = \<lparr>diUnit = diUnit di, diMonetary = diMonetary di, diAccountID = diAccountID di\<rparr>"

subsection \<open>Increments\<close>

text \<open>A clone is not marked as paid.\<close>

definition Increment_Clone :: "Increment \<Rightarrow> Increment" where
  "Increment_Clone i = \<lparr>icDuration = icDuration i, icCost = icCost i,
     icBalanceInfo = map_option DebitInfo_Clone (icBalanceInfo i), icCompressFactor = icCompressFactor i, icpaid = False\<rparr>"

definition Increment_Equal :: "Increment \<Rightarrow> Increment \<Rightarrow> error + bool" where
  "Increment_Equal a b =
     (if icDuration a \<noteq> icDuration b \<or> \<not> feq (icCost a) (icCost b) then Inr False
      else case (icBalanceInfo a, icBalanceInfo b) of
             (None, None) \<Rightarrow> Inr True
           | (Some x, Some y) \<Rightarrow> Inr (DebitInfo_Equal x y)
           | _ \<Rightarrow> Inl nil_deref)"

definition inc_GetCompressFactor :: "Increment \<Rightarrow> int" where
  "inc_GetCompressFactor i = (if icCompressFactor i = 0 then 1 else icCompressFactor i)"

definition inc_GetCost :: "Increment \<Rightarrow> float64" where
  "inc_GetCost i = fmul (float_of_int (inc_GetCompressFactor i)) (icCost i)"

definition Increments_Clone :: "Increment list \<Rightarrow> Increment list" where
  "Increments_Clone incs = map Increment_Clone incs"

fun Increments_Equal :: "Increment list \<Rightarrow> Increment list \<Rightarrow> error + bool" where
  "Increments_Equal [] _ = Inr True"
| "Increments_Equal (_ # _) [] = Inr False"
| "Increments_Equal (i # incs) (j # other) =
     (if length other < length incs then Inr False
      else ebind (Increment_Equal i j) (\<lambda>e.
             if \<not> e \<or> inc_GetCompressFactor i \<noteq> inc_GetCompressFactor j then Inr False
             else Increments_Equal incs other))"

text \<open>The last increment kept takes in an equal one: the factor is raised by one and the balance values
  become those of the later increment.\<close>

definition take_values :: "DebitInfo \<Rightarrow> DebitInfo \<Rightarrow> DebitInfo" where
  "take_values di od = di\<lparr>
     diMonetary := (case (diMonetary di, diMonetary od) of
                      (Some m, Some om) \<Rightarrow> Some (m\<lparr>miValue := miValue om\<rparr>) | _ \<Rightarrow> diMonetary di),
     diUnit := (case (diUnit di, diUnit od) of
                  (Some u, Some ou) \<Rightarrow> Some (u\<lparr>uiValue := uiValue ou\<rparr>) | _ \<Rightarrow> diUnit di)\<rparr>"

definition absorb :: "Increment \<Rightarrow> Increment \<Rightarrow> Increment" where
  "absorb kept incr = kept\<lparr>icCompressFactor := wrap64 (icCompressFactor kept + 1),
     icBalanceInfo := (case (icBalanceInfo kept, icBalanceInfo incr) of
                         (Some a, Some b) \<Rightarrow> Some (take_values a b) | _ \<Rightarrow> icBalanceInfo kept)\<rparr>"

definition with_factor :: "Increment \<Rightarrow> Increment" where
  "with_factor i = i\<lparr>icCompressFactor := inc_GetCompressFactor i\<rparr>"

fun compress_loop :: "Increment list \<Rightarrow> Increment list \<Rightarrow> error + Increment list" where
  "compress_loop cIncrs [] = Inr (rev cIncrs)"
| "compress_loop [] (incr # incs) = compress_loop [with_factor incr] incs"
| "compress_loop (kept # cIncrs) (incr # incs) =
     ebind (Increment_Equal kept incr) (\<lambda>e.
       if e then compress_loop (absorb kept incr # cIncrs) incs
       else compress_loop (with_factor incr # kept # cIncrs) incs)"

definition Increments_Compress :: "Increment list \<Rightarrow> error + Increment list" where
  "Increments_Compress incs = compress_loop [] incs"

definition unit_increment :: "Increment \<Rightarrow> int \<Rightarrow> int \<Rightarrow> Increment" where
  "unit_increment c cf i = (Increment_Clone c)\<lparr>icCompressFactor := 1,
     icBalanceInfo := map_option (\<lambda>di. di\<lparr>
       diMonetary := map_option (\<lambda>m. m\<lparr>miValue := fadd (miValue m) (fmul (float_of_int (cf - (i + 1))) (icCost c))\<rparr>)
                       (diMonetary di),
       diUnit := map_option (\<lambda>u. u\<lparr>uiValue := fadd (uiValue u) (fmul (float_of_int (cf - (i + 1))) (uiConsumed u))\<rparr>)
                   (diUnit di)\<rparr>)
       (icBalanceInfo (Increment_Clone c))\<rparr>"

definition Increments_Decompress :: "Increment list \<Rightarrow> Increment list" where
  "Increments_Decompress incs =
     concat (map (\<lambda>c. map (unit_increment c (inc_GetCompressFactor c)) [0..inc_GetCompressFactor c - 1]) incs)"

fun signature_loop :: "Increment list \<Rightarrow> Increment list \<Rightarrow> error + bool" where
  "signature_loop [] _ = Inr True"
| "signature_loop (_ # _) [] = Inr False"
| "signature_loop (i # incs) (j # other) =
     ebind (Increment_Equal i j) (\<lambda>e. if \<not> e then Inr False else signature_loop incs other)"

definition Increments_SharingSignature :: "Increment list \<Rightarrow> Increment list \<Rightarrow> error + bool" where
  "Increments_SharingSignature incs other =
     ebind (Increments_Compress (Increments_Clone other)) (\<lambda>otherCloned.
       ebind (Increments_Compress (Increments_Clone incs)) (\<lambda>thisCloned.
         if length otherCloned < length thisCloned then Inr False else signature_loop thisCloned otherCloned))"

definition GetTotalCost :: "Increment list \<Rightarrow> float64" where
  "GetTotalCost incs =
     Round (foldl (\<lambda>cost i. fadd cost (inc_GetCost i)) (Fin 0) incs) globalRoundingDecimals ROUNDING_MIDDLE"

definition Increments_Length :: "Increment list \<Rightarrow> int" where
  "Increments_Length incs = foldl (\<lambda>len i. wrap64 (len + inc_GetCompressFactor i)) 0 incs"

subsection \<open>A span\<close>

definition ts_GetDuration :: "TimeSpan \<Rightarrow> duration" where
  "ts_GetDuration ts = time_Sub (tsTimeEnd ts) (tsTimeStart ts)"

definition ts_GetCompressFactor :: "TimeSpan \<Rightarrow> int" where
  "ts_GetCompressFactor ts = (if tsCompressFactor ts = 0 then 1 else tsCompressFactor ts)"

definition GetUnitDuration :: "TimeSpan \<Rightarrow> duration" where
  "GetUnitDuration ts = quot64 (ts_GetDuration ts) (ts_GetCompressFactor ts)"

definition GetUnitCost :: "TimeSpan \<Rightarrow> float64" where
  "GetUnitCost ts = fdiv (tsCost ts) (float_of_int (ts_GetCompressFactor ts))"

definition ts_Contains :: "TimeSpan \<Rightarrow> gotime \<Rightarrow> bool" where
  "ts_Contains ts t \<longleftrightarrow> t > tsTimeStart ts \<and> t < tsTimeEnd ts"

definition GetGroupStart :: "TimeSpan \<Rightarrow> duration" where
  "GetGroupStart ts = (let s = wrap64 (tsDurationIndex ts - ts_GetDuration ts) in if s < 0 then 0 else s)"

definition GetGroupEnd :: "TimeSpan \<Rightarrow> duration" where
  "GetGroupEnd ts = tsDurationIndex ts"

definition SetNewDurationIndex :: "TimeSpan \<Rightarrow> TimeSpan \<Rightarrow> TimeSpan" where
  "SetNewDurationIndex ts nts =
     (let d = wrap64 (tsDurationIndex ts - ts_GetDuration nts) in ts\<lparr>tsDurationIndex := (if d < 0 then 0 else d)\<rparr>)"

definition setRatingInfo :: "RatingInfo list \<Rightarrow> nat \<Rightarrow> TimeSpan \<Rightarrow> TimeSpan" where
  "setRatingInfo ris k ts = ts\<lparr>tsratingInfo := Some k, tsMatchedSubject := rfMatchedSubject (ris ! k),
     tsMatchedPrefix := rfMatchedPrefix (ris ! k), tsMatchedDestId := rfMatchedDestId (ris ! k),
     tsRatingPlanId := rfRatingPlanId (ris ! k)\<rparr>"

definition copyRatingInfo :: "RatingInfo list \<Rightarrow> TimeSpan \<Rightarrow> TimeSpan \<Rightarrow> TimeSpan" where
  "copyRatingInfo ris nts ts = (case tsratingInfo ts of None \<Rightarrow> nts | Some k \<Rightarrow> setRatingInfo ris k nts)"

definition GetTimeStartForIncrement :: "TimeSpan \<Rightarrow> nat \<Rightarrow> gotime" where
  "GetTimeStartForIncrement ts index =
     foldl (\<lambda>start inc. time_Add start (icDuration inc)) (tsTimeStart ts) (take index (tsIncrements ts))"

definition RoundToDuration :: "TimeSpan \<Rightarrow> duration \<Rightarrow> TimeSpan" where
  "RoundToDuration ts d =
     (let d' = (if d < ts_GetDuration ts then RoundDuration d (ts_GetDuration ts) else d)
      in if d' > ts_GetDuration ts
         then ts\<lparr>tsTimeEnd := time_Add (tsTimeStart ts) d',
                 tsDurationIndex := wrap64 (tsDurationIndex ts + wrap64 (d' - ts_GetDuration ts))\<rparr>
         else ts)"

text \<open>The result of \<^verbatim>\<open>ts.TimeEnd.Add\<close> is dropped: the end of the span does not move.\<close>

definition AddIncrement :: "TimeSpan \<Rightarrow> Increment \<Rightarrow> TimeSpan" where
  "AddIncrement ts inc = ts\<lparr>tsIncrements := tsIncrements ts @ [inc]\<rparr>"

definition hasBetterRateIntervalThan :: "TimeSpan \<Rightarrow> RateInterval \<Rightarrow> error + bool" where
  "hasBetterRateIntervalThan ts interval =
     (case riTiming interval of
        None \<Rightarrow> Inr False
      | Some rit \<Rightarrow> ebind (getLeftMargin rit (tsTimeStart ts)) (\<lambda>otherLeftMargin.
          let otherDistance = time_Sub (tsTimeStart ts) otherLeftMargin
          in if otherDistance < 0 then Inr True
             else case tsRateInterval ts of
                    None \<Rightarrow> Inr False
                  | Some own \<Rightarrow>
                      if fless (riWeight own) (riWeight interval) then Inr False
                      else ebind (timing_left own (tsTimeStart ts)) (\<lambda>ownLeftMargin.
                             if time_Sub (tsTimeStart ts) ownLeftMargin > otherDistance then Inr False
                             else Inr True)))"

definition SetRateInterval :: "TimeSpan \<Rightarrow> RateInterval \<Rightarrow> error + TimeSpan" where
  "SetRateInterval ts interval =
     ebind (hasBetterRateIntervalThan ts interval) (\<lambda>better.
       Inr (if \<not> better then ts\<lparr>tsRateInterval := Some interval\<rparr> else ts))"

definition CalculateCost :: "TimeSpan \<Rightarrow> float64" where
  "CalculateCost ts =
     (if Increments_Length (tsIncrements ts) = 0 then
        (case tsRateInterval ts of None \<Rightarrow> Fin 0 | Some i \<Rightarrow> ri_GetCost i (ts_GetDuration ts) (GetGroupStart ts))
      else fmul (GetTotalCost (tsIncrements ts)) (float_of_int (ts_GetCompressFactor ts)))"

text \<open>The increments are made for \<^verbatim>\<open>ts.CalculateCost()\<close> of a span whose increments were emptied. \<open>maxIncrements\<close> is
  the configured bound.\<close>

definition createIncrementsSlice :: "int \<Rightarrow> TimeSpan \<Rightarrow> TimeSpan" where
  "createIncrementsSlice maxIncrements ts =
     (case tsRateInterval ts of
        None \<Rightarrow> ts
      | Some ri \<Rightarrow>
          let ts0 = ts\<lparr>tsIncrements := []\<rparr>;
              (_, rateIncrement, _) = rate_params ri (GetGroupStart ts0);
              nbIncrements = quot64 (ts_GetDuration ts0) rateIncrement
          in if nbIncrements > maxIncrements then ts0
             else let incrementCost = Round (fdiv (CalculateCost ts0) (float_of_int nbIncrements))
                        globalRoundingDecimals ROUNDING_MIDDLE;
                      inc = \<lparr>icDuration = rateIncrement, icCost = incrementCost,
                             icBalanceInfo = Some \<lparr>diUnit = None, diMonetary = None, diAccountID = []\<rparr>,
                             icCompressFactor = 0, icpaid = False\<rparr>
                  in ts0\<lparr>tsIncrements := replicate (nat nbIncrements) inc,
                         tsCost := fmul incrementCost (float_of_int nbIncrements)\<rparr>)"

fun unpaid_from :: "int \<Rightarrow> Increment list \<Rightarrow> bool \<times> int" where
  "unpaid_from n [] = (True, n)"
| "unpaid_from n (i # incs) = (if \<not> icpaid i then (False, n) else unpaid_from (n + 1) incs)"

definition ts_IsPaid :: "TimeSpan \<Rightarrow> bool \<times> int" where
  "ts_IsPaid ts = (if Increments_Length (tsIncrements ts) = 0 then (False, 0) else unpaid_from 0 (tsIncrements ts))"

subsection \<open>Splitting\<close>

text \<open>A split returns the span it shortened and the new one, if any. \<open>cut_span\<close> is the work the splits
  share: the new span takes the time from \<open>at_time\<close> on, the rating information and the duration index.\<close>

definition cut_span :: "RatingInfo list \<Rightarrow> TimeSpan \<Rightarrow> gotime \<Rightarrow> TimeSpan \<times> TimeSpan" where
  "cut_span ris ts at_time =
     (let nts = (copyRatingInfo ris (new_TimeSpan at_time (tsTimeEnd ts)) ts)\<lparr>tsDurationIndex := tsDurationIndex ts\<rparr>
      in (SetNewDurationIndex (ts\<lparr>tsTimeEnd := at_time\<rparr>) nts, nts))"

definition group_split :: "TimeSpan \<Rightarrow> Rate list \<Rightarrow> Rate option" where
  "group_split ts rates =
     find (\<lambda>rate. GetGroupStart ts < GroupIntervalStart rate \<and> GetGroupEnd ts > GroupIntervalStart rate) rates"

definition SplitByRateInterval ::
  "RatingInfo list \<Rightarrow> TimeSpan \<Rightarrow> RateInterval \<Rightarrow> bool \<Rightarrow> error + (TimeSpan \<times> TimeSpan option)" where
  "SplitByRateInterval ris ts i data =
     ebind (ri_Contains i (tsTimeStart ts) False) (\<lambda>inStart.
     ebind (ri_Contains i (tsTimeEnd ts) True) (\<lambda>inEnd.
       if \<not> (inStart \<or> inEnd) then Inr (ts, None)
       else
         case (case riRating i of None \<Rightarrow> None | Some rir \<Rightarrow> group_split ts (RateGroups_Sort (rrRates rir))) of
           Some rate \<Rightarrow>
             ebind (SetRateInterval ts i) (\<lambda>ts1.
               let splitTime = time_Add (tsTimeStart ts1) (wrap64 (GroupIntervalStart rate - GetGroupStart ts1));
                   (ts2, nts) = cut_span ris ts1 splitTime
               in ebind (SetRateInterval nts i) (\<lambda>nts'. Inr (ts2, Some nts')))
         | None \<Rightarrow>
             if data then
               (if inStart then ebind (SetRateInterval ts i) (\<lambda>ts1. Inr (ts1, None)) else Inr (ts, None))
             else if inStart \<and> inEnd then ebind (SetRateInterval ts i) (\<lambda>ts1. Inr (ts1, None))
             else
               case riTiming i of
                 None \<Rightarrow> Inl nil_deref
               | Some rit \<Rightarrow>
                   if inStart then
                     ebind (getRightMargin rit (tsTimeStart ts)) (\<lambda>splitTime.
                     ebind (SetRateInterval ts i) (\<lambda>ts1.
                       if splitTime = tsTimeStart ts1 \<or> splitTime = tsTimeEnd ts1 then Inr (ts1, None)
                       else let (ts2, nts) = cut_span ris ts1 splitTime in Inr (ts2, Some nts)))
                   else
                     ebind (getLeftMargin rit (tsTimeEnd ts)) (\<lambda>left.
                       let splitTime = CopyHour left (tsTimeStart ts)
                       in if splitTime = tsTimeEnd ts then Inr (ts, None)
                          else let (ts2, nts) = cut_span ris ts splitTime
                               in ebind (SetRateInterval nts i) (\<lambda>nts'. Inr (ts2, Some nts')))))"

definition SplitByIncrement :: "RatingInfo list \<Rightarrow> TimeSpan \<Rightarrow> int \<Rightarrow> TimeSpan \<times> TimeSpan option" where
  "SplitByIncrement ris ts index =
     (if index \<le> 0 \<or> index \<ge> int (length (tsIncrements ts)) then (ts, None)
      else let timeStart = GetTimeStartForIncrement ts (nat index);
               (ts1, nts) = cut_span ris ts timeStart
           in (ts1\<lparr>tsIncrements := take (nat index) (tsIncrements ts)\<rparr>,
               Some (nts\<lparr>tsRateInterval := tsRateInterval ts, tsIncrements := drop (nat index) (tsIncrements ts)\<rparr>)))"

text \<open>The increments of the two parts of a span cut after \<open>d\<close>. The loop goes on when the cut falls between
  two increments, so the next one is cut at 0 and appears in both parts.\<close>

fun split_increments :: "duration \<Rightarrow> Increment list \<Rightarrow> Increment list \<times> Increment list" where
  "split_increments d [] = ([], [])"
| "split_increments d (incr # incs) =
     (if wrap64 (d - icDuration incr) \<ge> 0 then
        (let (l, r) = split_increments (wrap64 (d - icDuration incr)) incs in (incr # l, r))
      else ([incr\<lparr>icDuration := d\<rparr>], (Increment_Clone incr)\<lparr>icDuration := wrap64 (icDuration incr - d)\<rparr> # incs))"

definition SplitByDuration :: "RatingInfo list \<Rightarrow> TimeSpan \<Rightarrow> duration \<Rightarrow> TimeSpan \<times> TimeSpan option" where
  "SplitByDuration ris ts d =
     (if d \<le> 0 \<or> d \<ge> ts_GetDuration ts then (ts, None)
      else let (ts1, nts) = cut_span ris ts (time_Add (tsTimeStart ts) d);
               (l, r) = split_increments d (tsIncrements ts)
           in (ts1\<lparr>tsIncrements := l\<rparr>, Some (nts\<lparr>tsRateInterval := tsRateInterval ts, tsIncrements := r\<rparr>)))"

definition SplitByRatingPlan :: "RatingInfo list \<Rightarrow> TimeSpan \<Rightarrow> RatingInfo \<Rightarrow> TimeSpan \<times> TimeSpan option" where
  "SplitByRatingPlan ris ts rp =
     (if \<not> ts_Contains ts (rfActivationTime rp) then (ts, None)
      else let (ts1, nts) = cut_span ris ts (rfActivationTime rp) in (ts1, Some nts))"

definition SplitByDay :: "RatingInfo list \<Rightarrow> TimeSpan \<Rightarrow> TimeSpan \<times> TimeSpan option" where
  "SplitByDay ris ts =
     (if Day (tsTimeStart ts) = Day (tsTimeEnd ts) \<or> TimeIs0h (tsTimeEnd ts) then (ts, None)
      else let splitDate = AddDate (tsTimeStart ts) 0 0 1;
               splitDate = Date (Year splitDate) (Month splitDate) (Day splitDate) 0 0 0 0;
               (ts1, nts) = cut_span ris ts splitDate
           in (ts1, Some nts))"

subsection \<open>Comparing and merging\<close>

definition same_match :: "TimeSpan \<Rightarrow> TimeSpan \<Rightarrow> bool" where
  "same_match ts other \<longleftrightarrow> tsMatchedSubject ts = tsMatchedSubject other \<and> tsMatchedPrefix ts = tsMatchedPrefix other
     \<and> tsMatchedDestId ts = tsMatchedDestId other \<and> tsRatingPlanId ts = tsRatingPlanId other"

definition TimeSpan_Equal :: "TimeSpan \<Rightarrow> TimeSpan \<Rightarrow> error + bool" where
  "TimeSpan_Equal ts other =
     ebind (Increments_Equal (tsIncrements ts) (tsIncrements other)) (\<lambda>e.
       if \<not> e then Inr False
       else ebind (RateInterval_Equal (tsRateInterval ts) (tsRateInterval other)) (\<lambda>e2.
              Inr (e2 \<and> feq (GetUnitCost ts) (GetUnitCost other) \<and> GetUnitDuration ts = GetUnitDuration other
                   \<and> same_match ts other)))"

definition TimeSpan_SharingSignature :: "TimeSpan \<Rightarrow> TimeSpan \<Rightarrow> error + bool" where
  "TimeSpan_SharingSignature ts other =
     (if ts_GetCompressFactor ts \<noteq> ts_GetCompressFactor other then Inr False
      else ebind (Increments_SharingSignature (tsIncrements ts) (tsIncrements other)) (\<lambda>e.
             if \<not> e then Inr False
             else ebind (RateInterval_Equal (tsRateInterval ts) (tsRateInterval other)) (\<lambda>e2.
                    Inr (e2 \<and> same_match ts other))))"

definition TimeSpan_Merge :: "TimeSpan \<Rightarrow> TimeSpan \<Rightarrow> error + (TimeSpan \<times> bool)" where
  "TimeSpan_Merge ts other =
     ebind (TimeSpan_SharingSignature ts other) (\<lambda>share.
       if \<not> share then Inr (ts, False)
       else if tsTimeEnd ts \<noteq> tsTimeStart other then Inr (ts, False)
       else Inr (ts\<lparr>tsTimeEnd := tsTimeEnd other, tsCost := fadd (tsCost ts) (tsCost other),
                    tsDurationIndex := tsDurationIndex other,
                    tsIncrements := tsIncrements ts @ tsIncrements other\<rparr>, True))"

subsection \<open>Lists of spans\<close>

text \<open>\<open>overlap_scan e n j rest\<close>: the spans after the one that now ends at \<open>e\<close>; \<open>j\<close> counts the ones seen, \<open>n\<close> is
  the number of the last one found to end within it.\<close>

fun overlap_scan :: "gotime \<Rightarrow> nat \<Rightarrow> nat \<Rightarrow> TimeSpan list \<Rightarrow> nat \<times> TimeSpan list" where
  "overlap_scan e n j [] = (n, [])"
| "overlap_scan e n j (t # rest) =
     (if tsTimeEnd t < e \<or> tsTimeEnd t = e then
        (let (m, rest') = overlap_scan e (Suc j) (Suc j) rest in (m, t # rest'))
      else if tsTimeStart t < e then (n, t\<lparr>tsTimeStart := e\<rparr> # rest)
      else (let (m, rest') = overlap_scan e n (Suc j) rest in (m, t # rest')))"

definition RemoveOverlapedFromIndex :: "TimeSpan list \<Rightarrow> nat \<Rightarrow> error + TimeSpan list" where
  "RemoveOverlapedFromIndex tsList index =
     (if index \<ge> length tsList then Inl (Panic ''index out of range'')
      else let (n, rest) = overlap_scan (tsTimeEnd (tsList ! index)) 0 0 (drop (Suc index) tsList)
           in Inr (take (Suc index) tsList @ drop n rest))"

fun compress_increments :: "TimeSpan list \<Rightarrow> error + TimeSpan list" where
  "compress_increments [] = Inr []"
| "compress_increments (ts # tss) =
     ebind (Increments_Compress (tsIncrements ts)) (\<lambda>incs.
     ebind (compress_increments tss) (\<lambda>rest. Inr (ts\<lparr>tsIncrements := incs\<rparr> # rest)))"

fun compress_spans :: "TimeSpan list \<Rightarrow> TimeSpan list \<Rightarrow> error + TimeSpan list" where
  "compress_spans cTss [] = Inr (rev cTss)"
| "compress_spans [] (ts # tss) = compress_spans [ts\<lparr>tsCompressFactor := ts_GetCompressFactor ts\<rparr>] tss"
| "compress_spans (cTs # cTss) (ts # tss) =
     ebind (TimeSpan_Equal cTs ts) (\<lambda>e.
       if \<not> e then compress_spans (ts\<lparr>tsCompressFactor := ts_GetCompressFactor ts\<rparr> # cTs # cTss) tss
       else compress_spans (cTs\<lparr>tsCompressFactor := wrap64 (tsCompressFactor cTs + 1),
                                tsCost := fadd (tsCost cTs) (tsCost ts), tsTimeEnd := tsTimeEnd ts,
                                tsDurationIndex := tsDurationIndex ts\<rparr> # cTss) tss)"

definition TimeSpans_Compress :: "TimeSpan list \<Rightarrow> error + TimeSpan list" where
  "TimeSpans_Compress tss = ebind (compress_increments tss) (compress_spans [])"

text \<open>The unit spans taken off the front of a compressed one: \<open>i\<close> counts down to 1.\<close>

fun decompress_span :: "duration \<Rightarrow> nat \<Rightarrow> TimeSpan \<Rightarrow> TimeSpan list" where
  "decompress_span d 0 cTs = [cTs\<lparr>tsCost := GetUnitCost cTs, tsCompressFactor := 1\<rparr>]"
| "decompress_span d (Suc i) cTs =
     (let uTs = cTs\<lparr>tsTimeEnd := time_Add (tsTimeStart cTs) d,
                    tsDurationIndex := wrap64 (tsDurationIndex cTs - wrap64 (int (Suc i) * d)),
                    tsCompressFactor := 1,
                    tsCost := fdiv (tsCost cTs) (float_of_int (ts_GetCompressFactor cTs))\<rparr>
      in uTs # decompress_span d i (cTs\<lparr>tsTimeStart := tsTimeEnd uTs\<rparr>))"

definition TimeSpans_Decompress :: "TimeSpan list \<Rightarrow> TimeSpan list" where
  "TimeSpans_Decompress tss =
     concat (map (\<lambda>ts. let cTs = ts\<lparr>tsIncrements := Increments_Decompress (tsIncrements ts),
                                    tsCompressFactor := ts_GetCompressFactor ts\<rparr>
                       in decompress_span (if ts_GetCompressFactor cTs > 1 then GetUnitDuration cTs else 0)
                            (nat (ts_GetCompressFactor cTs - 1)) cTs) tss)"

text \<open>The scan of \<^verbatim>\<open>Merge\<close>: a span goes on taking in its successors while it can.\<close>

fun merge_scan :: "TimeSpan list \<Rightarrow> error + TimeSpan list" where
  "merge_scan (ts # other # tss) =
     ebind (TimeSpan_Merge ts other) (\<lambda>(ts', merged).
       if merged then merge_scan (ts' # tss)
       else ebind (merge_scan (other # tss)) (\<lambda>rest. Inr (ts' # rest)))"
| "merge_scan tss = Inr tss"

function TimeSpans_Merge :: "TimeSpan list \<Rightarrow> error + TimeSpan list" where
  "TimeSpans_Merge tss =
     (if length tss > 2 then
        (let middle = length tss div 2
         in ebind (TimeSpans_Merge (take middle tss)) (\<lambda>tss1.
            ebind (TimeSpans_Merge (drop middle tss)) (\<lambda>tss2. merge_scan (tss1 @ tss2))))
      else merge_scan tss)"
  by pat_completeness auto
termination by (relation "measure length") auto

declare TimeSpans_Merge.simps [simp del]

end
