(* ===== verification/Span_Laws.thy ===== *)
theory Span_Laws
  imports Time_Spans
begin

text \<open>
  What the operations of \<open>Time_Spans\<close> keep. A locale states the contract of a split (the two parts follow
  each other, cover the span and share its duration index), its client lemmas say that a call that is
  covered by contiguous spans stays so; each split of the code is an interpretation. Compressing and
  decompressing increments is inverse, merging loses no increment.
\<close>

subsection \<open>The contract of a split\<close>

definition keeps :: "TimeSpan \<Rightarrow> TimeSpan \<Rightarrow> bool" where
  "keeps ts a \<longleftrightarrow> tsTimeStart a = tsTimeStart ts \<and> tsTimeEnd a = tsTimeEnd ts \<and> tsDurationIndex a = tsDurationIndex ts
     \<and> tsratingInfo a = tsratingInfo ts"

definition divides :: "TimeSpan \<Rightarrow> TimeSpan \<Rightarrow> TimeSpan \<Rightarrow> bool" where
  "divides ts a b \<longleftrightarrow> tsTimeStart a = tsTimeStart ts \<and> tsTimeStart ts < tsTimeEnd a \<and> tsTimeEnd a = tsTimeStart b
     \<and> tsTimeStart b < tsTimeEnd ts \<and> tsTimeEnd b = tsTimeEnd ts
     \<and> tsDurationIndex b = tsDurationIndex ts
     \<and> tsDurationIndex a = max 0 (wrap64 (tsDurationIndex ts - time_Sub (tsTimeEnd ts) (tsTimeStart b)))
     \<and> tsratingInfo a = tsratingInfo ts \<and> tsratingInfo b = tsratingInfo ts"

text \<open>\<open>chain s tss e\<close>: the spans follow each other without gap or overlap from \<open>s\<close> to \<open>e\<close> and none is empty.\<close>

fun chain :: "gotime \<Rightarrow> TimeSpan list \<Rightarrow> gotime \<Rightarrow> bool" where
  "chain s [] e \<longleftrightarrow> s = e"
| "chain s (ts # tss) e \<longleftrightarrow> tsTimeStart ts = s \<and> s < tsTimeEnd ts \<and> chain (tsTimeEnd ts) tss e"

text \<open>The duration index of a span of a call that ends at \<open>e\<close> with the index \<open>d\<close>.\<close>

definition indexed :: "duration \<Rightarrow> gotime \<Rightarrow> TimeSpan \<Rightarrow> bool" where
  "indexed d e ts \<longleftrightarrow> tsDurationIndex ts = d - (e - tsTimeEnd ts)"

definition call_spans :: "duration \<Rightarrow> gotime \<Rightarrow> gotime \<Rightarrow> TimeSpan list \<Rightarrow> bool" where
  "call_spans d s e tss \<longleftrightarrow> chain s tss e \<and> list_all (indexed d e) tss"

abbreviation spans_ns :: "TimeSpan list \<Rightarrow> int" where
  "spans_ns tss \<equiv> sum_list (map (\<lambda>ts. tsTimeEnd ts - tsTimeStart ts) tss)"

lemma chain_append: "chain s (xs @ ys) e \<longleftrightarrow> (\<exists>m. chain s xs m \<and> chain m ys e)"
  by (induction xs arbitrary: s) auto

lemma chain_le: "chain s tss e \<Longrightarrow> s \<le> e"
  by (induction tss arbitrary: s) fastforce+

lemma chain_bounds: "chain s tss e \<Longrightarrow> ts \<in> set tss \<Longrightarrow> s \<le> tsTimeStart ts \<and> tsTimeStart ts < tsTimeEnd ts \<and> tsTimeEnd ts \<le> e"
proof (induction tss arbitrary: s)
  case (Cons a tss)
  then show ?case using chain_le [of "tsTimeEnd a" tss e] by fastforce
qed simp

lemma chain_spans_ns: "chain s tss e \<Longrightarrow> spans_ns tss = e - s"
  by (induction tss arbitrary: s) auto

lemma chain_keeps: "keeps ts a \<Longrightarrow> chain s (ts # tss) e \<longleftrightarrow> chain s (a # tss) e"
  by (simp add: keeps_def)

lemma chain_divides: "divides ts a b \<Longrightarrow> chain s (ts # tss) e \<Longrightarrow> chain s (a # b # tss) e"
  by (auto simp: divides_def)

lemma call_spans_keeps:
  "keeps ts a \<Longrightarrow> call_spans d s e (pre @ ts # tss) \<Longrightarrow> call_spans d s e (pre @ a # tss)"
  by (auto simp: call_spans_def chain_append keeps_def indexed_def)

text \<open>A call that lasted at most \<open>d\<close> so far, a 64 bit duration: no index is clamped or wraps.\<close>

lemma call_spans_divides:
  assumes "divides ts a b" and "call_spans d s e (pre @ ts # tss)" and "e - s \<le> d" and "is_int64 d"
  shows "call_spans d s e (pre @ a # b # tss)"
proof -
  from assms(2) have c: "chain s (pre @ ts # tss) e" and i: "list_all (indexed d e) (pre @ ts # tss)"
    by (simp_all add: call_spans_def)
  have "ts \<in> set (pre @ ts # tss)" by simp
  note B = chain_bounds [OF c this]
  have D: "tsTimeStart b < tsTimeEnd ts" "tsTimeStart ts < tsTimeStart b" using assms(1) by (auto simp: divides_def)
  have "is_int64 (tsTimeEnd ts - tsTimeStart b)" "is_int64 (d + (tsTimeStart b - e))"
    using B D assms(3,4) by (simp_all add: is_int64_def)
  moreover have "tsDurationIndex ts = d - (e - tsTimeEnd ts)" using i by (simp add: indexed_def)
  ultimately have "indexed d e a" "indexed d e b"
    using assms(1,3) B D by (auto simp: divides_def indexed_def time_Sub_exact)
  then show ?thesis using c i assms(1) by (auto simp: call_spans_def chain_append divides_def)
qed

locale splitter =
  fixes split :: "'p \<Rightarrow> TimeSpan \<Rightarrow> error + (TimeSpan \<times> TimeSpan option)"
    and fit :: "'p \<Rightarrow> TimeSpan \<Rightarrow> bool"
  assumes split_one: "split p ts = Inr (a, None) \<Longrightarrow> keeps ts a"
    and split_two: "fit p ts \<Longrightarrow> split p ts = Inr (a, Some b) \<Longrightarrow> divides ts a b"
begin

text \<open>Replacing a span of a call by what the split returns.\<close>

lemma split_call:
  assumes "split p ts = Inr (a, nb)" and "fit p ts" and "call_spans d s e (pre @ ts # tss)" and "e - s \<le> d" and "is_int64 d"
  shows "call_spans d s e (pre @ a # (case nb of None \<Rightarrow> tss | Some b \<Rightarrow> b # tss))"
proof (cases nb)
  case None
  with assms(1) have "keeps ts a" by (simp add: split_one)
  with assms(3) None show ?thesis by (simp add: call_spans_keeps)
next
  case (Some b)
  with assms have "divides ts a b" by (simp add: split_two)
  with assms(3-5) Some show ?thesis by (simp add: call_spans_divides)
qed

lemma split_shorter: "split p ts = Inr (a, Some b) \<Longrightarrow> fit p ts \<Longrightarrow>
    tsTimeEnd b - tsTimeStart b < tsTimeEnd ts - tsTimeStart ts \<and> tsTimeEnd a - tsTimeStart a < tsTimeEnd ts - tsTimeStart ts"
  using split_two [of p ts a b] by (auto simp: divides_def)

end

lemma copyRatingInfo_simps [simp]:
  "tsTimeStart (copyRatingInfo ris nts ts) = tsTimeStart nts" "tsTimeEnd (copyRatingInfo ris nts ts) = tsTimeEnd nts"
  "tsRateInterval (copyRatingInfo ris nts ts) = tsRateInterval nts"
  "tsIncrements (copyRatingInfo ris nts ts) = tsIncrements nts"
  by (simp_all add: copyRatingInfo_def setRatingInfo_def split: option.splits)

lemma cut_span_divides:
  assumes "cut_span ris ts t = (a, b)" and "tsTimeStart ts < t" and "t < tsTimeEnd ts"
  shows "divides ts a b"
proof -
  have "tsratingInfo b = tsratingInfo ts"
    using assms(1) by (auto simp: cut_span_def Let_def copyRatingInfo_def setRatingInfo_def new_TimeSpan_def split: option.splits)
  then show ?thesis using assms
    by (auto simp: divides_def cut_span_def SetNewDurationIndex_def Let_def ts_GetDuration_def new_TimeSpan_def max_def)
qed

lemma divides_update [simp]:
  "divides ts (a\<lparr>tsIncrements := x\<rparr>) b = divides ts a b" "divides ts a (b\<lparr>tsIncrements := x\<rparr>) = divides ts a b"
  "divides ts (a\<lparr>tsRateInterval := i\<rparr>) b = divides ts a b" "divides ts a (b\<lparr>tsRateInterval := i\<rparr>) = divides ts a b"
  "divides (ts\<lparr>tsRateInterval := i\<rparr>) a b = divides ts a b"
  by (simp_all add: divides_def)

lemma keeps_refl [simp]: "keeps ts ts" "keeps ts (ts\<lparr>tsRateInterval := i\<rparr>)"
  by (simp_all add: keeps_def)

abbreviation some_time :: "TimeSpan \<Rightarrow> bool" where
  "some_time ts \<equiv> tsTimeStart ts < tsTimeEnd ts"

interpretation by_plan: splitter "\<lambda>(ris, rp) ts. Inr (SplitByRatingPlan ris ts rp)" "\<lambda>_ _. True"
proof (unfold_locales, goal_cases)
  case (1 p ts a)
  then show ?case by (cases p) (auto simp: SplitByRatingPlan_def split: if_splits prod.splits)
next
  case (2 p ts a b)
  then obtain ris rp where "SplitByRatingPlan ris ts rp = (a, Some b)" by (cases p) auto
  then show ?case using cut_span_divides [of ris ts "rfActivationTime rp"]
    by (auto simp: SplitByRatingPlan_def ts_Contains_def split: if_splits prod.splits)
qed

interpretation by_duration: splitter "\<lambda>(ris, d) ts. Inr (SplitByDuration ris ts d)" "\<lambda>_ _. True"
proof (unfold_locales, goal_cases)
  case (1 p ts a)
  then show ?case by (cases p) (auto simp: SplitByDuration_def Let_def split: if_splits prod.splits)
next
  case (2 p ts a b)
  then obtain ris d where s: "SplitByDuration ris ts d = (a, Some b)" by (cases p) auto
  then have "0 < d" "d < time_Sub (tsTimeEnd ts) (tsTimeStart ts)"
    by (auto simp: SplitByDuration_def ts_GetDuration_def split: if_splits)
  then have "tsTimeStart ts < time_Add (tsTimeStart ts) d" "time_Add (tsTimeStart ts) d < tsTimeEnd ts"
    by (auto simp: time_Add_def time_Sub_def max_def min_def split: if_splits)
  with s show ?case using cut_span_divides [of ris ts "time_Add (tsTimeStart ts) d"]
    by (auto simp: SplitByDuration_def Let_def split: if_splits prod.splits)
qed

text \<open>The day split cuts at the midnight after the start.\<close>

definition next_midnight :: "gotime \<Rightarrow> gotime" where
  "next_midnight t = (t div day_ns + 1) * day_ns"

lemma AddDate_day: "AddDate t 0 0 1 = t + day_ns"
proof -
  have "days_of_civil (Year t) (Month t) (Day t + 1) = days_of_civil (Year t) (Month t) (Day t) + 1"
    by (simp add: days_of_civil_def Let_def)
  then have "AddDate t 0 0 1 = Date (Year t) (Month t) (Day t) (Hour t) (Minute t) (Second t) (Nanosecond t) + day_ns"
    by (simp add: AddDate_def Date_def algebra_simps)
  then show ?thesis by (simp add: Date_of_parts)
qed

lemma SplitByDay_at: "SplitByDay ris ts =
    (if Day (tsTimeStart ts) = Day (tsTimeEnd ts) \<or> TimeIs0h (tsTimeEnd ts) then (ts, None)
     else map_prod id Some (cut_span ris ts (next_midnight (tsTimeStart ts))))"
proof -
  have "(t + day_ns) div day_ns = t div day_ns + 1" for t by (simp add: day_ns_def)
  then show ?thesis
    by (simp add: SplitByDay_def AddDate_day Date_midnight next_midnight_def split: prod.splits)
qed

lemma same_day_Day: "t div day_ns = u div day_ns \<Longrightarrow> Day t = Day u"
  by (simp add: Day_def Month_def Year_def)

lemma midnight_0h: "TimeIs0h (n * day_ns)"
  by (simp add: TimeIs0h_def Hour_def Minute_def Second_def)

lemma before_next_midnight: "t < next_midnight t"
proof -
  have "t mod day_ns < day_ns" by (simp add: day_ns_def)
  then show ?thesis using div_mult_mod_eq [of t day_ns] unfolding next_midnight_def distrib_right by linarith
qed

lemma later_day: "t < u \<Longrightarrow> t div day_ns \<noteq> u div day_ns \<Longrightarrow> next_midnight t \<le> u"
proof -
  assume "t < u" and "t div day_ns \<noteq> u div day_ns"
  moreover have "0 < day_ns" by (simp add: day_ns_def)
  ultimately have "t div day_ns + 1 \<le> u div day_ns" using zdiv_mono1 [of t u day_ns] by linarith
  then have "(t div day_ns + 1) * day_ns \<le> u div day_ns * day_ns" by (simp add: day_ns_def)
  also have "\<dots> \<le> u" using \<open>0 < day_ns\<close> by (metis div_mult_mod_eq le_add_same_cancel1 pos_mod_sign)
  finally show ?thesis by (simp add: next_midnight_def)
qed

interpretation by_day: splitter "\<lambda>ris ts. Inr (SplitByDay ris ts)" "\<lambda>_. some_time"
proof (unfold_locales, goal_cases)
  case (1 ris ts a)
  then show ?case
    by (cases "cut_span ris ts (next_midnight (tsTimeStart ts))") (auto simp: SplitByDay_at split: if_splits)
next
  case (2 ris ts a b)
  let ?m = "next_midnight (tsTimeStart ts)"
  from 2(2) have nd: "Day (tsTimeStart ts) \<noteq> Day (tsTimeEnd ts)" "\<not> TimeIs0h (tsTimeEnd ts)"
    and c: "cut_span ris ts ?m = (a, b)"
    by (cases "cut_span ris ts ?m"; auto simp: SplitByDay_at split: if_splits)+
  from nd(1) have "tsTimeStart ts div day_ns \<noteq> tsTimeEnd ts div day_ns" using same_day_Day by blast
  with 2(1) have "?m \<le> tsTimeEnd ts" by (rule later_day)
  moreover have "?m \<noteq> tsTimeEnd ts"
  proof
    assume "?m = tsTimeEnd ts"
    then have "TimeIs0h (tsTimeEnd ts)" using midnight_0h [of "tsTimeStart ts div day_ns + 1"] by (simp add: next_midnight_def)
    with nd(2) show False by simp
  qed
  ultimately show ?case using cut_span_divides [OF c] before_next_midnight by simp
qed

lemma foldl_time_Add: "foldl (\<lambda>start inc. time_Add start (icDuration inc)) t incs = t + sum_list (map icDuration incs)"
  by (induction incs arbitrary: t) (simp_all add: time_Add_def)

text \<open>The increments of a span are positive and make up its time.\<close>

definition fills :: "TimeSpan \<Rightarrow> bool" where
  "fills ts \<longleftrightarrow> list_all (\<lambda>i. 0 < icDuration i) (tsIncrements ts)
     \<and> sum_list (map icDuration (tsIncrements ts)) = tsTimeEnd ts - tsTimeStart ts"

lemma sum_list_pos_ne: "list_all (\<lambda>x. (0::int) < f x) xs \<Longrightarrow> xs \<noteq> [] \<Longrightarrow> 0 < sum_list (map f xs)"
proof (induction xs)
  case (Cons x xs)
  then show ?case by (cases xs) auto
qed simp

lemma GetTimeStartForIncrement_inside:
  assumes "fills ts" and "0 < n" and "n < length (tsIncrements ts)"
  shows "tsTimeStart ts < GetTimeStartForIncrement ts n" "GetTimeStartForIncrement ts n < tsTimeEnd ts"
proof -
  let ?l = "take n (tsIncrements ts)" and ?r = "drop n (tsIncrements ts)"
  have "list_all (\<lambda>i. 0 < icDuration i) ?l" "list_all (\<lambda>i. 0 < icDuration i) ?r" "?l \<noteq> []" "?r \<noteq> []"
    using assms by (auto simp: fills_def list_all_iff dest: in_set_takeD in_set_dropD)
  then have "0 < sum_list (map icDuration ?l)" "0 < sum_list (map icDuration ?r)" by (blast intro: sum_list_pos_ne)+
  moreover have "sum_list (map icDuration ?l) + sum_list (map icDuration ?r) = tsTimeEnd ts - tsTimeStart ts"
    using assms(1) unfolding fills_def by (metis append_take_drop_id map_append sum_list_append)
  ultimately show "tsTimeStart ts < GetTimeStartForIncrement ts n" "GetTimeStartForIncrement ts n < tsTimeEnd ts"
    by (simp_all add: GetTimeStartForIncrement_def foldl_time_Add)
qed

interpretation by_increment: splitter "\<lambda>(ris, n) ts. Inr (SplitByIncrement ris ts n)" "\<lambda>_. fills"
proof (unfold_locales, goal_cases)
  case (1 p ts a)
  then show ?case by (cases p) (auto simp: SplitByIncrement_def Let_def split: if_splits prod.splits)
next
  case (2 p ts a b)
  then obtain ris n where s: "SplitByIncrement ris ts n = (a, Some b)" by (cases p) auto
  then have n: "0 < nat n" "nat n < length (tsIncrements ts)" by (auto simp: SplitByIncrement_def split: if_splits)
  show ?case using s cut_span_divides [of ris ts "GetTimeStartForIncrement ts (nat n)"]
      GetTimeStartForIncrement_inside [OF 2(1) n]
    by (auto simp: SplitByIncrement_def Let_def split: if_splits prod.splits)
qed

text \<open>The split by a rate interval. Its margins must be well formed, its groups start at whole seconds and have
  increments up to \<open>2 ^ 52\<close> ns (52 days); the span lies within a day and has whole seconds.\<close>

abbreviation whole_s :: "int \<Rightarrow> bool" where
  "whole_s t \<equiv> 1000000000 dvd t"

definition margin_ok :: "string \<Rightarrow> bool" where
  "margin_ok s \<longleftrightarrow> s = [] \<or> (case parse_hms s of Inl _ \<Rightarrow> False | Inr hms \<Rightarrow> 0 \<le> time_of_day hms \<and> time_of_day hms \<le> day_ns)"

definition interval_ok :: "RateInterval \<Rightarrow> bool" where
  "interval_ok i \<longleftrightarrow> (case riTiming i of None \<Rightarrow> False | Some rit \<Rightarrow> margin_ok (rtStartTime rit) \<and> margin_ok (rtEndTime rit))
     \<and> (case riRating i of None \<Rightarrow> True | Some rir \<Rightarrow> list_all (\<lambda>r. whole_s (GroupIntervalStart r) \<and> 0 \<le> RateIncrement r \<and> RateIncrement r \<le> 2 ^ 52) (rrRates rir))"

definition one_day :: "TimeSpan \<Rightarrow> bool" where
  "one_day ts \<longleftrightarrow> tsTimeStart ts < tsTimeEnd ts \<and> tsTimeEnd ts \<le> next_midnight (tsTimeStart ts)
     \<and> whole_s (tsTimeStart ts) \<and> whole_s (tsTimeEnd ts)"

definition index_ok :: "TimeSpan \<Rightarrow> bool" where
  "index_ok ts \<longleftrightarrow> tsTimeStart ts < tsTimeEnd ts \<and> 0 \<le> tsDurationIndex ts \<and> is_int64 (tsDurationIndex ts)
     \<and> is_int64 (tsTimeEnd ts - tsTimeStart ts)"

definition rate_fit :: "RateInterval \<Rightarrow> bool \<Rightarrow> TimeSpan \<Rightarrow> bool" where
  "rate_fit i data ts \<longleftrightarrow> index_ok ts \<and> (data \<or> one_day ts \<and> interval_ok i)"

lemma whole_s_time_of_day: "whole_s (time_of_day hms)"
proof (cases hms)
  case (fields h m s)
  have "time_of_day hms = 1000000000 * (h * 3600 + m * 60 + s)" by (simp add: time_of_day_def fields)
  then show ?thesis by (metis dvd_triv_left)
qed

lemma whole_s_day: "whole_s (n * day_ns)"
  by (simp add: day_ns_def)

lemma getMargins:
  assumes "margin_ok (rtStartTime rit)" and "margin_ok (rtEndTime rit)"
  obtains l r where "0 \<le> l" "l \<le> day_ns" "0 \<le> r" "r \<le> day_ns" "whole_s l" "whole_s r"
    "\<forall>t. getLeftMargin rit t = Inr (t div day_ns * day_ns + l)" "\<forall>t. getRightMargin rit t = Inr (t div day_ns * day_ns + r)"
proof -
  have d: "0 \<le> day_ns" "whole_s day_ns" by (simp_all add: day_ns_def)
  obtain l where "0 \<le> l" "l \<le> day_ns" "whole_s l" "\<forall>t. getLeftMargin rit t = Inr (t div day_ns * day_ns + l)"
  proof (cases "rtStartTime rit = []")
    case True
    with that [of 0] d getLeftMargin_eq(1) show ?thesis by simp
  next
    case False
    with assms(1) obtain hms where "parse_hms (rtStartTime rit) = Inr hms" "0 \<le> time_of_day hms" "time_of_day hms \<le> day_ns"
      by (auto simp: margin_ok_def split: sum.splits)
    with that False getLeftMargin_eq(2) whole_s_time_of_day show ?thesis by blast
  qed
  moreover obtain r where "0 \<le> r" "r \<le> day_ns" "whole_s r" "\<forall>t. getRightMargin rit t = Inr (t div day_ns * day_ns + r)"
  proof (cases "rtEndTime rit = []")
    case True
    with that [of day_ns] d getRightMargin_eq(1) show ?thesis by simp
  next
    case False
    with assms(2) obtain hms where "parse_hms (rtEndTime rit) = Inr hms" "0 \<le> time_of_day hms" "time_of_day hms \<le> day_ns"
      by (auto simp: margin_ok_def split: sum.splits)
    with that False getRightMargin_eq(2) whole_s_time_of_day show ?thesis by blast
  qed
  ultimately show thesis using that by blast
qed

text \<open>Within one day a timing is active between its margins, if the day is one of its days.\<close>

definition day_listed :: "RITiming \<Rightarrow> int \<Rightarrow> bool" where
  "day_listed rit n \<longleftrightarrow> (let t = n * day_ns in
     (rtYears rit = [] \<or> Year t \<in> set (rtYears rit)) \<and> (rtMonths rit = [] \<or> Month t \<in> set (rtMonths rit))
     \<and> (rtMonthDays rit = [] \<or> Day t \<in> set (rtMonthDays rit)) \<and> (rtWeekDays rit = [] \<or> Weekday t \<in> set (rtWeekDays rit)))"

lemma IsActiveAt_margins:
  assumes l: "getLeftMargin rit t = Inr l" and r: "getRightMargin rit t = Inr r"
  shows "IsActiveAt rit t = Inr (day_listed rit (t div day_ns) \<and> l \<le> t \<and> t \<le> r)"
proof -
  have n: "(t div day_ns * day_ns) div day_ns = t div day_ns" by (simp add: day_ns_def)
  have "Year (t div day_ns * day_ns) = Year t" "Month (t div day_ns * day_ns) = Month t"
    "Day (t div day_ns * day_ns) = Day t" "Weekday (t div day_ns * day_ns) = Weekday t"
    unfolding Year_def Month_def Day_def Weekday_def n by (rule refl)+
  then show ?thesis
    unfolding IsActiveAt_def l r ebind_simps ys.Contains_iff ms.Contains_iff mds.Contains_iff wds.Contains_iff
      day_listed_def Let_def by (simp add: not_less)
qed

definition last_second :: "gotime \<Rightarrow> gotime" where
  "last_second t = (if TimeIs0h t then t - 1000000000 else t)"

lemma ri_Contains_eq:
  "riTiming i = Some rit \<Longrightarrow> ri_Contains i t e = IsActiveAt rit (if e then last_second t else t)"
  by (simp add: ri_Contains_def last_second_def time_Add_def)

lemma whole_0h: "TimeIs0h t \<Longrightarrow> whole_s t \<Longrightarrow> t = t div day_ns * day_ns"
proof -
  assume "TimeIs0h t" "whole_s t"
  then have "t mod day_ns = 0" using Hour_Minute_Second(1) [of t] by (simp add: TimeIs0h_def Nanosecond_def)
  then show ?thesis using div_mult_mod_eq [of t day_ns] by linarith
qed

lemma day_of: "n * day_ns \<le> t \<Longrightarrow> t < (n + 1) * day_ns \<Longrightarrow> t div day_ns = n"
  by (rule int_div_pos_eq [of _ _ _ "t - n * day_ns"]) (simp_all add: algebra_simps)

lemma day_floor: "t div day_ns * day_ns \<le> t"
  using div_mult_mod_eq [of t day_ns] pos_mod_sign [of day_ns t] by (simp add: day_ns_def)

lemma last_second_one_day:
  assumes "one_day ts"
  shows "last_second (tsTimeEnd ts) div day_ns = tsTimeStart ts div day_ns"
    and "tsTimeStart ts \<le> last_second (tsTimeEnd ts)"
    and "last_second (tsTimeEnd ts) = tsTimeEnd ts
      \<or> last_second (tsTimeEnd ts) = tsTimeEnd ts - 1000000000 \<and> tsTimeEnd ts = next_midnight (tsTimeStart ts)"
proof -
  let ?s = "tsTimeStart ts" and ?e = "tsTimeEnd ts" and ?n = "tsTimeStart ts div day_ns"
  from assms have o: "?s < ?e" "?e \<le> next_midnight ?s" "whole_s ?s" "whole_s ?e" by (simp_all add: one_day_def)
  have "last_second ?e div day_ns = ?n \<and> ?s \<le> last_second ?e
    \<and> (last_second ?e = ?e \<or> last_second ?e = ?e - 1000000000 \<and> ?e = next_midnight ?s)"
  proof (cases "TimeIs0h ?e")
    case True
    then have e: "?e = ?e div day_ns * day_ns" using o(4) by (rule whole_0h)
    have "?n \<noteq> ?e div day_ns" using o(1) e day_floor [of ?s] by auto
    then have "?e = next_midnight ?s" using later_day [OF o(1)] o(2) by simp
    moreover from o have "?s \<le> ?e - 1000000000" by (auto elim!: dvdE)
    ultimately show ?thesis using True day_of [of ?n "?e - 1000000000"] day_floor [of ?s]
      by (simp add: last_second_def next_midnight_def)
  next
    case False
    then have "?e \<noteq> next_midnight ?s" using midnight_0h by (auto simp: next_midnight_def)
    then have "?e div day_ns = ?n" using o day_of [of ?n ?e] day_floor [of ?s] by (simp add: next_midnight_def)
    with False o show ?thesis by (simp add: last_second_def)
  qed
  then show "last_second ?e div day_ns = ?n" "?s \<le> last_second ?e"
    "last_second ?e = ?e \<or> last_second ?e = ?e - 1000000000 \<and> ?e = next_midnight ?s" by blast+
qed

lemma CopyHour_same_time:
  "0 \<le> x \<Longrightarrow> x < day_ns \<Longrightarrow> \<not> TimeIs0h (n * day_ns + x) \<Longrightarrow>
    CopyHour (n * day_ns + x) dest = dest div day_ns * day_ns + x"
proof -
  assume x: "0 \<le> x" "x < day_ns" and h: "\<not> TimeIs0h (n * day_ns + x)"
  let ?t = "n * day_ns + x"
  have "?t mod day_ns = x" using x by (simp add: mod_pos_pos_trivial)
  then have "CopyHour ?t dest = days_of_civil (Year dest) (Month dest) (Day dest) * day_ns + x"
    using Hour_Minute_Second(1) [of ?t] h by (auto simp: CopyHour_def TimeIs0h_def Date_def)
  then show ?thesis by (simp add: days_of_civil_of)
qed

lemma group_inside:
  assumes "index_ok ts" and "GetGroupStart ts < g" and "g < GetGroupEnd ts"
  shows "tsTimeStart ts < time_Add (tsTimeStart ts) (wrap64 (g - GetGroupStart ts))"
    and "time_Add (tsTimeStart ts) (wrap64 (g - GetGroupStart ts)) < tsTimeEnd ts"
proof -
  let ?d = "tsTimeEnd ts - tsTimeStart ts"
  from assms(1) have "is_int64 (tsDurationIndex ts - ?d)" by (simp add: index_ok_def is_int64_def)
  then have g: "GetGroupStart ts = (if tsDurationIndex ts - ?d < 0 then 0 else tsDurationIndex ts - ?d)"
    using assms(1) by (simp add: GetGroupStart_def Let_def ts_GetDuration_def time_Sub_exact index_ok_def)
  then have "0 < g - GetGroupStart ts" "g - GetGroupStart ts < ?d"
    using assms(2,3) by (auto simp: GetGroupEnd_def split: if_splits)
  moreover from this have "is_int64 (g - GetGroupStart ts)" using assms(1) by (simp add: index_ok_def is_int64_def)
  ultimately show "tsTimeStart ts < time_Add (tsTimeStart ts) (wrap64 (g - GetGroupStart ts))"
    and "time_Add (tsTimeStart ts) (wrap64 (g - GetGroupStart ts)) < tsTimeEnd ts"
    by (simp_all add: time_Add_def)
qed

lemma SetRateInterval_cases: "SetRateInterval ts i = Inr ts' \<Longrightarrow> ts' = ts \<or> ts' = ts\<lparr>tsRateInterval := Some i\<rparr>"
  by (auto simp: SetRateInterval_def ebind_Inr)

text \<open>Where the span is cut at a margin.\<close>

lemma margins_inside:
  assumes "one_day ts" and "interval_ok i" and "riTiming i = Some rit"
  shows "ri_Contains i (tsTimeStart ts) False = Inr True \<Longrightarrow> ri_Contains i (tsTimeEnd ts) True = Inr False \<Longrightarrow>
      getRightMargin rit (tsTimeStart ts) = Inr t \<Longrightarrow> t \<noteq> tsTimeStart ts \<Longrightarrow> t \<noteq> tsTimeEnd ts \<Longrightarrow>
      tsTimeStart ts < t \<and> t < tsTimeEnd ts"
    and "ri_Contains i (tsTimeStart ts) False = Inr False \<Longrightarrow> ri_Contains i (tsTimeEnd ts) True = Inr True \<Longrightarrow>
      getLeftMargin rit (tsTimeEnd ts) = Inr t' \<Longrightarrow> CopyHour t' (tsTimeStart ts) \<noteq> tsTimeEnd ts \<Longrightarrow>
      tsTimeStart ts < CopyHour t' (tsTimeStart ts) \<and> CopyHour t' (tsTimeStart ts) < tsTimeEnd ts"
proof -
  let ?s = "tsTimeStart ts" and ?e = "tsTimeEnd ts" and ?n = "tsTimeStart ts div day_ns"
  note L = last_second_one_day [OF assms(1)]
  from assms(2,3) have "margin_ok (rtStartTime rit)" "margin_ok (rtEndTime rit)" by (simp_all add: interval_ok_def)
  then obtain l r where lr: "0 \<le> l" "l \<le> day_ns" "0 \<le> r" "r \<le> day_ns" "whole_s l" "whole_s r"
    and m': "\<forall>t. getLeftMargin rit t = Inr (t div day_ns * day_ns + l)" "\<forall>t. getRightMargin rit t = Inr (t div day_ns * day_ns + r)"
    by (rule getMargins)
  note m = m' [rule_format]
  note A = IsActiveAt_margins [OF m]
  have S: "ri_Contains i ?s False = Inr (day_listed rit ?n \<and> ?n * day_ns + l \<le> ?s \<and> ?s \<le> ?n * day_ns + r)"
    by (simp add: ri_Contains_eq [OF assms(3)] A)
  have E: "ri_Contains i ?e True = Inr (day_listed rit ?n \<and> ?n * day_ns + l \<le> last_second ?e \<and> last_second ?e \<le> ?n * day_ns + r)"
    by (simp add: ri_Contains_eq [OF assms(3)] A L(1))
  { assume "ri_Contains i ?s False = Inr True" "ri_Contains i ?e True = Inr False" "getRightMargin rit ?s = Inr t" "t \<noteq> ?s" "t \<noteq> ?e"
    then show "?s < t \<and> t < ?e" using S E L(2,3) by (auto simp: m) }
  { assume H: "ri_Contains i ?s False = Inr False" "ri_Contains i ?e True = Inr True" "getLeftMargin rit ?e = Inr t'" "CopyHour t' ?s \<noteq> ?e"
    have t': "t' = ?e div day_ns * day_ns + l" using H(3) by (simp add: m)
    from H(1,2) have sl: "?s < ?n * day_ns + l" "?n * day_ns + l \<le> last_second ?e" using S E L(2) by auto
    have le: "last_second ?e \<le> ?e" by (simp add: last_second_def)
    have "l < day_ns" using sl(2) L(1) day_floor [of "last_second ?e"] before_next_midnight [of "last_second ?e"]
      by (simp add: next_midnight_def algebra_simps)
    have "CopyHour t' ?s = ?n * day_ns + l"
    proof (cases "TimeIs0h t'")
      case True
      then have "t' = t' div day_ns * day_ns" using whole_0h lr(5) whole_s_day by (simp add: t')
      then have "l = 0" using t' lr(1) \<open>l < day_ns\<close> day_of [of "?e div day_ns" t'] by (simp add: algebra_simps)
      with sl(1) day_floor [of ?s] show ?thesis by simp
    next
      case False
      then show ?thesis unfolding t' using CopyHour_same_time lr(1) \<open>l < day_ns\<close> by blast
    qed
    then show "?s < CopyHour t' ?s \<and> CopyHour t' ?s < ?e" using sl le H(4) by simp }
qed

definition cut_reason :: "RateInterval \<Rightarrow> bool \<Rightarrow> TimeSpan \<Rightarrow> gotime \<Rightarrow> bool" where
  "cut_reason i data ts t \<longleftrightarrow>
     (\<exists>rir rate. riRating i = Some rir \<and> rate \<in> set (rrRates rir) \<and> GetGroupStart ts < GroupIntervalStart rate
        \<and> GroupIntervalStart rate < GetGroupEnd ts
        \<and> t = time_Add (tsTimeStart ts) (wrap64 (GroupIntervalStart rate - GetGroupStart ts)))
   \<or> \<not> data \<and> (\<exists>rit. riTiming i = Some rit
        \<and> (ri_Contains i (tsTimeStart ts) False = Inr True \<and> ri_Contains i (tsTimeEnd ts) True = Inr False
           \<and> getRightMargin rit (tsTimeStart ts) = Inr t \<and> t \<noteq> tsTimeStart ts \<and> t \<noteq> tsTimeEnd ts
         \<or> ri_Contains i (tsTimeStart ts) False = Inr False \<and> ri_Contains i (tsTimeEnd ts) True = Inr True
           \<and> (\<exists>left. getLeftMargin rit (tsTimeEnd ts) = Inr left \<and> t = CopyHour left (tsTimeStart ts) \<and> t \<noteq> tsTimeEnd ts)))"

lemma group_split_Some: "group_split ts (RateGroups_Sort rates) = Some rate \<Longrightarrow>
    rate \<in> set rates \<and> GetGroupStart ts < GroupIntervalStart rate \<and> GroupIntervalStart rate < GetGroupEnd ts"
  by (metis (mono_tags, lifting) find_Some_iff group_split_def nth_mem set_RateGroups_Sort)

lemma SplitByRateInterval_None:
  "SplitByRateInterval ris ts i data = Inr (a, None) \<Longrightarrow> a = ts \<or> a = ts\<lparr>tsRateInterval := Some i\<rparr>"
  by (auto simp: SplitByRateInterval_def ebind_Inr Let_def split: if_splits option.splits prod.splits dest!: SetRateInterval_cases)

lemma GetGroupStart_update [simp]: "GetGroupStart (ts\<lparr>tsRateInterval := x\<rparr>) = GetGroupStart ts"
  by (simp add: GetGroupStart_def ts_GetDuration_def)

lemma SplitByRateInterval_Some:
  assumes "SplitByRateInterval ris ts i data = Inr (a, Some b)"
  obtains t ts1 b0 where "ts1 = ts \<or> ts1 = ts\<lparr>tsRateInterval := Some i\<rparr>" "cut_span ris ts1 t = (a, b0)"
    "b = b0 \<or> b = b0\<lparr>tsRateInterval := Some i\<rparr>" "cut_reason i data ts t"
proof -
  let ?g = "case riRating i of None \<Rightarrow> None | Some rir \<Rightarrow> group_split ts (RateGroups_Sort (rrRates rir))"
  obtain s e where se: "ri_Contains i (tsTimeStart ts) False = Inr s" "ri_Contains i (tsTimeEnd ts) True = Inr e"
    using assms by (auto simp: SplitByRateInterval_def ebind_Inr)
  show thesis
  proof (cases ?g)
    case (Some rate)
    then obtain rir where rir: "riRating i = Some rir" "group_split ts (RateGroups_Sort (rrRates rir)) = Some rate"
      by (auto split: option.splits)
    from rir group_split_Some [OF rir(2)]
    have "cut_reason i data ts (time_Add (tsTimeStart ts) (wrap64 (GroupIntervalStart rate - GetGroupStart ts)))"
      by (auto simp: cut_reason_def)
    moreover from assms obtain ts1 b0 where "SetRateInterval ts i = Inr ts1" "SetRateInterval b0 i = Inr b"
      "cut_span ris ts1 (time_Add (tsTimeStart ts1) (wrap64 (GroupIntervalStart rate - GetGroupStart ts1))) = (a, b0)"
      by (auto simp: SplitByRateInterval_def se rir ebind_Inr Let_def split_def prod_eq_iff split: if_splits)
    ultimately show thesis
      using that [of ts1 "time_Add (tsTimeStart ts) (wrap64 (GroupIntervalStart rate - GetGroupStart ts))" b0]
        SetRateInterval_cases [of ts i ts1] SetRateInterval_cases [of b0 i b] by auto
  next
    case None
    have g: "?g = None" by (rule None)
    from assms obtain rit where nd: "\<not> data" "s \<noteq> e" and rit: "riTiming i = Some rit"
      by (auto simp: SplitByRateInterval_def g se ebind_Inr Let_def split: if_splits option.splits)
    show thesis
    proof (cases s)
      case True
      with assms obtain t ts1 where "getRightMargin rit (tsTimeStart ts) = Inr t" "SetRateInterval ts i = Inr ts1"
        "t \<noteq> tsTimeStart ts1" "t \<noteq> tsTimeEnd ts1" "cut_span ris ts1 t = (a, b)"
        using nd by (auto simp: SplitByRateInterval_def g se rit ebind_Inr Let_def split_def prod_eq_iff split: if_splits)
      then show thesis using that [of ts1 t b] SetRateInterval_cases [of ts i ts1] se nd True rit by (auto simp: cut_reason_def)
    next
      case False
      with assms obtain left b0 where "getLeftMargin rit (tsTimeEnd ts) = Inr left" "CopyHour left (tsTimeStart ts) \<noteq> tsTimeEnd ts"
        "cut_span ris ts (CopyHour left (tsTimeStart ts)) = (a, b0)" "SetRateInterval b0 i = Inr b"
        using nd by (auto simp: SplitByRateInterval_def g se rit ebind_Inr Let_def split_def prod_eq_iff split: if_splits)
      then show thesis using that [of ts "CopyHour left (tsTimeStart ts)" b0] SetRateInterval_cases [of b0 i b] se nd False rit
        by (auto simp: cut_reason_def)
    qed
  qed
qed

lemma cut_inside: "rate_fit i data ts \<Longrightarrow> cut_reason i data ts t \<Longrightarrow> tsTimeStart ts < t \<and> t < tsTimeEnd ts"
  unfolding cut_reason_def rate_fit_def using group_inside [of ts] margins_inside [of ts i] by blast

interpretation by_rate: splitter "\<lambda>(ris, i, data) ts. SplitByRateInterval ris ts i data" "\<lambda>(ris, i, data). rate_fit i data"
proof (unfold_locales, goal_cases)
  case (1 p ts a)
  then show ?case by (cases p) (auto dest!: SplitByRateInterval_None)
next
  case (2 p ts a b)
  then obtain ris i data where s: "SplitByRateInterval ris ts i data = Inr (a, Some b)" and f: "rate_fit i data ts" by (cases p) auto
  from s obtain t ts1 b0 where c: "ts1 = ts \<or> ts1 = ts\<lparr>tsRateInterval := Some i\<rparr>" "cut_span ris ts1 t = (a, b0)"
    "b = b0 \<or> b = b0\<lparr>tsRateInterval := Some i\<rparr>" and r: "cut_reason i data ts t" by (rule SplitByRateInterval_Some)
  from c(1) cut_inside [OF f r] cut_span_divides [OF c(2)] have "divides ts a b0" by auto
  with c(3) show ?case by auto
qed

end
