(* ===== verification/Increment_Laws.thy ===== *)
theory Increment_Laws
  imports Span_Laws
begin

text \<open>
  Compressing and decompressing increments, merging spans, cutting a span after a duration.
\<close>

subsection \<open>Amounts\<close>

text \<open>\<open>value_ok m v c\<close>: the value \<open>v\<close> and \<open>m\<close> more costs \<open>c\<close> are whole numbers that a float holds exactly.\<close>

definition value_ok :: "int \<Rightarrow> float64 \<Rightarrow> float64 \<Rightarrow> bool" where
  "value_ok m v c \<longleftrightarrow> (case (v, c) of
     (Fin x, Fin y) \<Rightarrow> x = of_int \<lfloor>x\<rfloor> \<and> y = of_int \<lfloor>y\<rfloor> \<and> 0 \<le> x \<and> 0 \<le> y \<and> y \<le> 2 ^ 53 \<and> x + of_int m * y \<le> 2 ^ 53
   | _ \<Rightarrow> False)"

lemma value_okE:
  assumes "value_ok m v c" and "0 \<le> m"
  obtains k j where "v = Fin (of_int k)" "c = Fin (of_int j)" "0 \<le> k" "0 \<le> j" "j \<le> 2 ^ 53" "k + m * j \<le> 2 ^ 53"
proof -
  obtain x y where xy: "v = Fin x" "c = Fin y" "x = of_int \<lfloor>x\<rfloor>" "y = of_int \<lfloor>y\<rfloor>" "0 \<le> x" "0 \<le> y" "y \<le> 2 ^ 53" "x + of_int m * y \<le> 2 ^ 53"
    using assms by (auto simp: value_ok_def split: float64.splits)
  let ?k = "\<lfloor>x\<rfloor>" and ?j = "\<lfloor>y\<rfloor>"
  have "of_int (?k + m * ?j) \<le> (of_int (2 ^ 53) :: rat)" using xy(3,4,8) by simp
  then have "?k + m * ?j \<le> 2 ^ 53" by (simp only: of_int_le_iff)
  moreover have "of_int ?j \<le> (of_int (2 ^ 53) :: rat)" using xy(4,7) by simp
  then have "?j \<le> 2 ^ 53" by (simp only: of_int_le_iff)
  moreover have "0 \<le> ?k" "0 \<le> ?j" using xy(5,6) by simp_all
  ultimately show thesis using that [of ?k ?j] xy(1-4) assms(2) by auto
qed

lemma value_ok_int [simp]:
  "value_ok m (Fin (of_int k)) (Fin (of_int j)) \<longleftrightarrow> 0 \<le> k \<and> 0 \<le> j \<and> j \<le> 2 ^ 53 \<and> k + m * j \<le> 2 ^ 53"
proof -
  have "of_int k + of_int m * of_int j = (of_int (k + m * j) :: rat)" by simp
  moreover have "of_int n \<le> (2 ^ 53 :: rat) \<longleftrightarrow> of_int n \<le> (of_int (2 ^ 53) :: rat)" for n by simp
  ultimately show ?thesis by (simp only: value_ok_def float64.case prod.case of_int_le_iff of_int_0_le_iff floor_of_int simp_thms)
qed

lemma raised_value:
  assumes "0 \<le> m" and "m \<le> 2 ^ 53" and "0 \<le> k" and "0 \<le> j" and "k + m * j \<le> 2 ^ 53"
  shows "fadd (Fin (of_int k)) (fmul (float_of_int m) (Fin (of_int j))) = Fin (of_int (k + m * j))"
proof -
  have "0 \<le> m * j" using assms by simp
  then show ?thesis using assms by (simp only: float_of_int_exact fmul_int fadd_int abs_of_nonneg add_nonneg_nonneg)
qed

lemma value_next:
  assumes "value_ok m v c" and "value_ok 0 (fsub v c) c" and "0 \<le> m" and "m + 1 \<le> 2 ^ 53"
  shows "fadd (fsub v c) (fmul (float_of_int (m + 1)) c) = fadd v (fmul (float_of_int m) c)"
    and "value_ok (m + 1) (fsub v c) c"
proof -
  obtain k j where kj: "v = Fin (of_int k)" "c = Fin (of_int j)" "0 \<le> k" "0 \<le> j" "j \<le> 2 ^ 53" "k + m * j \<le> 2 ^ 53"
    using value_okE [OF assms(1,3)] by metis
  then have "0 \<le> m * j" using assms(3) by simp
  then have "\<bar>k - j\<bar> \<le> 2 ^ 53" using kj by (simp add: abs_if)
  then have d: "fsub v c = Fin (of_int (k - j))" unfolding kj by (rule fsub_int)
  have "0 \<le> k - j" using assms(2) [unfolded d, unfolded kj(2)] by (simp only: value_ok_int)
  moreover have s: "k - j + (m + 1) * j = k + m * j" by (simp add: algebra_simps)
  ultimately have "value_ok (m + 1) (Fin (of_int (k - j))) (Fin (of_int j))" using kj by (simp only: value_ok_int)
  then show "value_ok (m + 1) (fsub v c) c" by (simp only: d [symmetric] kj(2) [symmetric])
  show "fadd (fsub v c) (fmul (float_of_int (m + 1)) c) = fadd v (fmul (float_of_int m) c)"
    unfolding d unfolding kj(1,2) using raised_value [of m k j] raised_value [of "m + 1" "k - j" j] kj assms(3,4) \<open>0 \<le> k - j\<close> s by simp
qed

subsection \<open>A run of equal increments\<close>

text \<open>\<open>raise_info m c\<close> adds \<open>m\<close> times what an increment took to the balance values; decompressing does it.\<close>

definition raise_info :: "int \<Rightarrow> float64 \<Rightarrow> DebitInfo \<Rightarrow> DebitInfo" where
  "raise_info m c di = di\<lparr>
     diMonetary := map_option (\<lambda>x. x\<lparr>miValue := fadd (miValue x) (fmul (float_of_int m) c)\<rparr>) (diMonetary di),
     diUnit := map_option (\<lambda>u. u\<lparr>uiValue := fadd (uiValue u) (fmul (float_of_int m) (uiConsumed u))\<rparr>) (diUnit di)\<rparr>"

definition lower_info :: "float64 \<Rightarrow> DebitInfo \<Rightarrow> DebitInfo" where
  "lower_info c di = di\<lparr>
     diMonetary := map_option (\<lambda>x. x\<lparr>miValue := fsub (miValue x) c\<rparr>) (diMonetary di),
     diUnit := map_option (\<lambda>u. u\<lparr>uiValue := fsub (uiValue u) (uiConsumed u)\<rparr>) (diUnit di)\<rparr>"

definition info_ok :: "int \<Rightarrow> float64 \<Rightarrow> DebitInfo \<Rightarrow> bool" where
  "info_ok m c di \<longleftrightarrow> pred_option (\<lambda>x. value_ok m (miValue x) c) (diMonetary di)
     \<and> pred_option (\<lambda>u. value_ok m (uiValue u) (uiConsumed u)) (diUnit di)"

definition amounts_ok :: "int \<Rightarrow> Increment \<Rightarrow> bool" where
  "amounts_ok m i \<longleftrightarrow> pred_option (info_ok m (icCost i)) (icBalanceInfo i)"

text \<open>\<open>debits_next a b\<close>: \<open>b\<close> is the increment after \<open>a\<close>, paid from the same balances.\<close>

definition debits_next :: "Increment \<Rightarrow> Increment \<Rightarrow> bool" where
  "debits_next a b \<longleftrightarrow> b = a\<lparr>icBalanceInfo := map_option (lower_info (icCost a)) (icBalanceInfo a)\<rparr>"

fun debited :: "Increment list \<Rightarrow> bool" where
  "debited (a # b # incs) \<longleftrightarrow>
     (case Increment_Equal a b of Inl _ \<Rightarrow> False | Inr e \<Rightarrow> e \<longrightarrow> debits_next a b) \<and> debited (b # incs)"
| "debited _ \<longleftrightarrow> True"

definition fresh :: "Increment \<Rightarrow> bool" where
  "fresh i \<longleftrightarrow> icCompressFactor i = 1 \<and> \<not> icpaid i \<and> amounts_ok 0 i"

lemma Clone_unpaid: "\<not> icpaid i \<Longrightarrow> Increment_Clone i = i"
  by (cases "icBalanceInfo i") (simp_all add: Increment_Clone_def DebitInfo_Clone_def)

lemma unit_increment_raise:
  "\<not> icpaid i \<Longrightarrow> unit_increment i cf k
    = i\<lparr>icCompressFactor := 1, icBalanceInfo := map_option (raise_info (cf - (k + 1)) (icCost i)) (icBalanceInfo i)\<rparr>"
  by (simp add: unit_increment_def Clone_unpaid raise_info_def [abs_def])

lemma raise_info_0: "info_ok 0 c di \<Longrightarrow> raise_info 0 c di = di"
proof -
  assume ok: "info_ok 0 c di"
  have "fadd v (fmul (float_of_int 0) x) = v" if "value_ok 0 v x" for v x
    using that raised_value [of 0] by (auto elim!: value_okE)
  with ok show ?thesis by (cases "diMonetary di"; cases "diUnit di") (simp_all add: info_ok_def raise_info_def)
qed

lemma lower_info_next:
  assumes "info_ok m c di" and "info_ok 0 c (lower_info c di)" and "0 \<le> m" and "m + 1 \<le> 2 ^ 53"
  shows "raise_info (m + 1) c (lower_info c di) = raise_info m c di" and "info_ok (m + 1) c (lower_info c di)"
  using assms value_next [OF _ _ assms(3,4)]
  by (cases "diMonetary di"; cases "diUnit di"; simp add: raise_info_def lower_info_def info_ok_def)+

definition run :: "Increment \<Rightarrow> int \<Rightarrow> Increment" where
  "run l n = l\<lparr>icCompressFactor := n\<rparr>"

lemma Equal_run [simp]: "Increment_Equal (run l n) x = Increment_Equal l x"
  by (simp add: Increment_Equal_def run_def)

lemma run_1 [simp]: "fresh l \<Longrightarrow> run l 1 = l"
  by (simp add: run_def fresh_def)

lemma Decompress_append [simp]: "Increments_Decompress (xs @ ys) = Increments_Decompress xs @ Increments_Decompress ys"
  by (simp add: Increments_Decompress_def)

lemma Decompress_run:
  assumes "\<not> icpaid l" and "1 \<le> n"
  shows "Increments_Decompress [run l n] = map (\<lambda>k. l\<lparr>icCompressFactor := 1,
     icBalanceInfo := map_option (raise_info (n - (k + 1)) (icCost l)) (icBalanceInfo l)\<rparr>) [0..n - 1]"
  using assms by (simp add: Increments_Decompress_def inc_GetCompressFactor_def unit_increment_raise run_def)

lemma Decompress_fresh: "fresh l \<Longrightarrow> Increments_Decompress [l] = [l]"
proof -
  assume f: "fresh l"
  then have "map_option (raise_info 0 (icCost l)) (icBalanceInfo l) = icBalanceInfo l"
    by (cases "icBalanceInfo l") (simp_all add: fresh_def amounts_ok_def raise_info_0)
  with f Decompress_run [of l 1] run_1 [OF f] show ?thesis by (simp add: fresh_def)
qed

lemma take_values_lower: "take_values di (lower_info c di) = lower_info c di"
  by (cases "diMonetary di"; cases "diUnit di") (simp_all add: take_values_def lower_info_def)

lemma absorb_run:
  "debits_next l x \<Longrightarrow> is_int64 (n + 1) \<Longrightarrow> absorb (run l n) x = run x (n + 1)"
  by (cases "icBalanceInfo l") (simp_all add: absorb_def run_def debits_next_def take_values_lower)

lemma Decompress_run_next:
  assumes "debits_next l x" and "fresh l" and "fresh x" and "amounts_ok (n - 1) l" and "1 \<le> n" and "n \<le> 2 ^ 53"
  shows "Increments_Decompress [run x (n + 1)] = Increments_Decompress [run l n] @ [x]" and "amounts_ok n x"
proof -
  let ?at = "\<lambda>y m. y\<lparr>icCompressFactor := 1, icBalanceInfo := map_option (raise_info m (icCost y)) (icBalanceInfo y)\<rparr>"
  have x: "x = l\<lparr>icBalanceInfo := map_option (lower_info (icCost l)) (icBalanceInfo l)\<rparr>" using assms(1) by (simp add: debits_next_def)
  have c: "icCost x = icCost l" by (simp add: x)
  have n: "0 \<le> n - 1" "n - 1 + 1 \<le> 2 ^ 53" using assms(5,6) by simp_all
  show "amounts_ok n x"
    using assms(3,4) lower_info_next(2) [OF _ _ n, of "icCost l"]
    by (cases "icBalanceInfo l") (auto simp: x amounts_ok_def fresh_def)
  have up: "?at x (m + 1) = ?at l m" if "0 \<le> m" "m \<le> n - 1" for m
  proof (cases "icBalanceInfo l")
    case (Some di)
    have mono: "value_ok m v y" if vy: "value_ok (n - 1) v y" for v y
    proof -
      obtain k j where kj: "v = Fin (of_int k)" "y = Fin (of_int j)" "0 \<le> k" "0 \<le> j" "j \<le> 2 ^ 53" "k + (n - 1) * j \<le> 2 ^ 53"
        using value_okE [OF vy n(1)] by metis
      have "m * j \<le> (n - 1) * j" using kj(4) \<open>m \<le> n - 1\<close> by (simp add: mult_right_mono)
      with kj(6) have "k + m * j \<le> 2 ^ 53" by linarith
      with kj show ?thesis by (simp only: value_ok_int)
    qed
    have "info_ok m (icCost l) di" using assms(4) Some mono
      by (cases "diMonetary di"; cases "diUnit di") (simp_all add: amounts_ok_def info_ok_def)
    moreover have "info_ok 0 (icCost l) (lower_info (icCost l) di)" using assms(3) Some by (simp add: x fresh_def amounts_ok_def)
    ultimately have "raise_info (m + 1) (icCost l) (lower_info (icCost l) di) = raise_info m (icCost l) di"
      using lower_info_next(1) that n(2) by simp
    then show ?thesis using Some by (simp add: x)
  qed (simp add: x)
  have "[0..n] = [0..n - 1] @ [n]" using assms(5) upto_rec2 [of 0 n] by simp
  moreover have "Increments_Decompress [x] = [?at x 0]" using Decompress_run [of x 1] run_1 [OF assms(3)] assms(3) by (simp add: fresh_def)
  then have "?at x 0 = x" using Decompress_fresh [OF assms(3)] by simp
  moreover have "?at x (n - k) = ?at l (n - (k + 1))" if "k \<in> set [0..n - 1]" for k
    using up [of "n - (k + 1)"] that by simp
  ultimately show "Increments_Decompress [run x (n + 1)] = Increments_Decompress [run l n] @ [x]"
    using assms(2,3,5) by (simp add: Decompress_run fresh_def)
qed

lemma compress_loop_decompress:
  assumes "fresh l" and "list_all fresh incs" and "debited (l # incs)" and "1 \<le> n" and "amounts_ok (n - 1) l"
    and "n + int (length incs) \<le> 2 ^ 53"
  shows "\<exists>c. compress_loop (run l n # acc) incs = Inr c
    \<and> Increments_Decompress c = Increments_Decompress (rev acc) @ Increments_Decompress [run l n] @ incs"
  using assms
proof (induction incs arbitrary: l n acc)
  case (Cons x incs)
  from Cons.prems have x: "fresh x" "list_all fresh incs" "debited (x # incs)" by simp_all
  obtain e where e: "Increment_Equal l x = Inr e" "e \<Longrightarrow> debits_next l x" using Cons.prems(3) by (auto split: sum.splits)
  show ?case
  proof (cases e)
    case True
    have "n \<le> 2 ^ 53" "is_int64 (n + 1)" using Cons.prems(4,6) by (simp_all add: is_int64_def)
    note N = Decompress_run_next [OF e(2) [OF True] Cons.prems(1) x(1) Cons.prems(5,4) this(1)]
    from Cons.IH [OF x, of "n + 1" acc] N Cons.prems(4,6) absorb_run [OF e(2) [OF True] \<open>is_int64 (n + 1)\<close>]
    show ?thesis by (simp add: e(1) True)
  next
    case False
    have "with_factor x = run x 1" using x(1) by (simp add: with_factor_def run_def inc_GetCompressFactor_def fresh_def)
    moreover have "amounts_ok (1 - 1) x" using x(1) by (simp add: fresh_def)
    ultimately show ?thesis
      using Cons.IH [OF x, of 1 "run l n # acc"] Cons.prems(4,6) x(1) by (simp add: e(1) False Decompress_fresh)
  qed
qed simp

subsection \<open>Merging\<close>

lemma TimeSpan_Merge_True:
  assumes "TimeSpan_Merge ts other = Inr (ts', True)"
  shows "tsTimeStart ts' = tsTimeStart ts" "tsTimeEnd ts = tsTimeStart other" "tsTimeEnd ts' = tsTimeEnd other"
    "tsDurationIndex ts' = tsDurationIndex other" "tsIncrements ts' = tsIncrements ts @ tsIncrements other"
    "tsRateInterval ts' = tsRateInterval ts" "same_match ts other"
  using assms by (auto simp: TimeSpan_Merge_def TimeSpan_SharingSignature_def ebind_Inr split: if_splits)

lemma TimeSpan_Merge_False: "TimeSpan_Merge ts other = Inr (ts', False) \<Longrightarrow> ts' = ts"
  by (auto simp: TimeSpan_Merge_def ebind_Inr split: if_splits)

definition same_content :: "TimeSpan list \<Rightarrow> TimeSpan list \<Rightarrow> bool" where
  "same_content tss res \<longleftrightarrow> concat (map tsIncrements res) = concat (map tsIncrements tss)
     \<and> length res \<le> length tss
     \<and> (\<forall>d s e. call_spans d s e tss \<longrightarrow> call_spans d s e res)"

lemma same_content_trans: "same_content a b \<Longrightarrow> same_content b c \<Longrightarrow> same_content a c"
  by (simp add: same_content_def)

lemma call_spans_append:
  "call_spans d s e (xs @ ys) \<longleftrightarrow> (\<exists>m. call_spans (d - (e - m)) s m xs \<and> call_spans d m e ys)"
proof -
  have "indexed (d - (e - m)) m ts = indexed d e ts" for m ts by (auto simp: indexed_def)
  then have "indexed (d - (e - m)) m = indexed d e" for m by (rule ext)
  then show ?thesis by (auto simp: call_spans_def chain_append)
qed

lemma same_content_append: "same_content a b \<Longrightarrow> same_content c d \<Longrightarrow> same_content (a @ c) (b @ d)"
  by (auto simp: same_content_def call_spans_append add_mono) metis

lemma merge_scan_content: "merge_scan tss = Inr res \<Longrightarrow> same_content tss res"
proof (induction tss arbitrary: res rule: merge_scan.induct)
  case (1 ts other tss)
  then obtain ts' merged where m: "TimeSpan_Merge ts other = Inr (ts', merged)" by (auto simp: ebind_Inr)
  show ?case
  proof (cases merged)
    case True
    with 1 m have r: "same_content (ts' # tss) res" by simp
    have "TimeSpan_Merge ts other = Inr (ts', True)" using m True by simp
    note M = TimeSpan_Merge_True [OF this]
    have "same_content (ts # other # tss) (ts' # tss)"
      using M by (auto simp: same_content_def call_spans_def indexed_def)
    from same_content_trans [OF this r] show ?thesis .
  next
    case False
    with 1 m obtain rest where rest: "merge_scan (other # tss) = Inr rest" "res = ts # rest"
      by (auto simp: ebind_Inr dest: TimeSpan_Merge_False)
    with 1(2) m False have "same_content (other # tss) rest" by simp
    from same_content_append [OF _ this, of "[ts]" "[ts]"] rest(2) show ?thesis by (simp add: same_content_def)
  qed
qed (auto simp: same_content_def)

lemma TimeSpans_Merge_content: "TimeSpans_Merge tss = Inr res \<Longrightarrow> same_content tss res"
proof (induction tss arbitrary: res rule: TimeSpans_Merge.induct)
  case (1 tss)
  show ?case
  proof (cases "length tss > 2")
    case True
    let ?m = "length tss div 2"
    from 1(3) True obtain a b where ab: "TimeSpans_Merge (take ?m tss) = Inr a" "TimeSpans_Merge (drop ?m tss) = Inr b"
      "merge_scan (a @ b) = Inr res" by (auto simp: TimeSpans_Merge.simps [of tss] Let_def ebind_Inr)
    from 1(1) [OF True refl ab(1)] 1(2) [OF True refl ab(2)] have "same_content (take ?m tss @ drop ?m tss) (a @ b)"
      using same_content_append ab(1) by blast
    then show ?thesis using same_content_trans merge_scan_content [OF ab(3)] by simp
  next
    case False
    with 1(3) show ?thesis using merge_scan_content by (simp add: TimeSpans_Merge.simps [of tss])
  qed
qed

subsection \<open>Properties\<close>

text \<open>Claim C38. Compressing increments and decompressing them again gives them back, with the balance values each
  one left: for increments with factor 1, not yet marked as paid, whose amounts are whole numbers a
  float holds, and where equal neighbours were paid from the same balances one after the other.\<close>

theorem compress_decompress:
  assumes "list_all fresh incs" and "debited incs" and "int (length incs) \<le> 2 ^ 53"
  shows "\<exists>c. Increments_Compress incs = Inr c \<and> Increments_Decompress c = incs"
proof (cases incs)
  case Nil
  then show ?thesis by (simp add: Increments_Compress_def Increments_Decompress_def)
next
  case (Cons x xs)
  with assms(1) have x: "fresh x" "list_all fresh xs" by simp_all
  then have "with_factor x = run x 1" by (simp add: with_factor_def run_def inc_GetCompressFactor_def fresh_def)
  moreover have "amounts_ok (1 - 1) x" using x(1) by (simp add: fresh_def)
  ultimately show ?thesis
    using compress_loop_decompress [OF x, of 1 "[]"] assms(2,3) Cons x(1)
    by (simp add: Increments_Compress_def Decompress_fresh) (simp add: Increments_Decompress_def)
qed

definition ix_inc :: "int \<Rightarrow> Increment" where
  "ix_inc v = \<lparr>icDuration = 60000000000, icCost = Fin 10, icBalanceInfo = Some \<lparr>diUnit = None,
     diMonetary = Some \<lparr>miUUID = ''u1'', miID = ''b1'', miValue = Fin (of_int v), miRateInterval = None\<rparr>,
     diAccountID = ''t:1001''\<rparr>, icCompressFactor = 1, icpaid = False\<rparr>"

theorem compress_decompress_witness:
  "\<exists>c. Increments_Compress [ix_inc 90, ix_inc 80, ix_inc 70] = Inr c \<and> length c = 1
     \<and> Increments_Decompress c = [ix_inc 90, ix_inc 80, ix_inc 70]"
proof -
  have d: "debited [ix_inc 90, ix_inc 80, ix_inc 70]" by code_simp
  have f: "list_all fresh [ix_inc 90, ix_inc 80, ix_inc 70]"
    by (simp add: fresh_def ix_inc_def amounts_ok_def info_ok_def value_ok_def)
  obtain c where "Increments_Compress [ix_inc 90, ix_inc 80, ix_inc 70] = Inr c"
    "Increments_Decompress c = [ix_inc 90, ix_inc 80, ix_inc 70]"
    using compress_decompress [OF f d] by auto
  moreover have "map_sum id length (Increments_Compress [ix_inc 90, ix_inc 80, ix_inc 70]) = Inr 1" by code_simp
  ultimately show ?thesis by auto
qed

text \<open>Merging a list of spans ends, whatever the spans, and when no comparison dereferences a nil pointer
  the result holds the same increments in the same order; contiguous spans of a call stay contiguous,
  cover the same time and keep their duration index.\<close>

theorem merge_loses_nothing:
  assumes "TimeSpans_Merge tss = Inr res"
  shows "concat (map tsIncrements res) = concat (map tsIncrements tss) \<and> length res \<le> length tss
    \<and> (call_spans d s e tss \<longrightarrow> call_spans d s e res)"
  using TimeSpans_Merge_content [OF assms] by (simp add: same_content_def)

definition ix_span :: "int \<Rightarrow> int \<Rightarrow> Increment list \<Rightarrow> TimeSpan" where
  "ix_span s e incs = (new_TimeSpan s e)\<lparr>tsDurationIndex := e, tsIncrements := incs\<rparr>"

theorem merge_loses_nothing_witness:
  "\<exists>res. TimeSpans_Merge [ix_span 0 60 [ix_inc 90], ix_span 60 120 [ix_inc 80], ix_span 120 180 [ix_inc 70]] = Inr res
     \<and> length res = 1 \<and> concat (map tsIncrements res) = [ix_inc 90, ix_inc 80, ix_inc 70] \<and> call_spans 180 0 180 res"
proof -
  let ?tss = "[ix_span 0 60 [ix_inc 90], ix_span 60 120 [ix_inc 80], ix_span 120 180 [ix_inc 70]]"
  have l: "map_sum id length (TimeSpans_Merge ?tss) = Inr 1" by code_simp
  then obtain res where r: "TimeSpans_Merge ?tss = Inr res" by (cases "TimeSpans_Merge ?tss") auto
  have "call_spans 180 0 180 ?tss" by (simp add: call_spans_def ix_span_def new_TimeSpan_def indexed_def)
  then have "concat (map tsIncrements res) = [ix_inc 90, ix_inc 80, ix_inc 70]" "call_spans 180 0 180 res"
    using merge_loses_nothing [OF r, of 180 0 180] by (simp_all add: ix_span_def)
  moreover have "length res = 1" using l r by simp
  ultimately show ?thesis using r by blast
qed

end
