(* ===== verification/Rating_Plans.thy ===== *)
theory Rating_Plans
  imports Increment_Laws
begin

text \<open>
  \<^verbatim>\<open>engine/ratingplan.go\<close>, \<^verbatim>\<open>engine/ratingprofile.go\<close> and the part of \<^verbatim>\<open>engine/calldesc.go\<close> that loads the rating
  information of a call.

  \<open>rt_env\<close> is what the data manager and the configuration answer. A result \<open>Inl\<close> is a panic; an error the
  code returns is a value, since callers go on after it. The fallback to other subjects recurses up to
  \<open>RECURSION_MAX_DEPTH\<close>; its loop may lengthen the list it runs over and is shown to end.
\<close>

subsection \<open>ratingplan.go\<close>

record RPRate =
  rprTiming :: string
  rprRating :: string
  rprWeight :: float64

record RatingPlan =
  rpnId :: string
  rpnTimings :: "(string, RITiming) gmap"
  rpnRatings :: "(string, RIRate) gmap"
  rpnDestinationRates :: "(string, RPRate list) gmap"

definition RPRate_Equal :: "RPRate \<Rightarrow> RPRate \<Rightarrow> bool" where
  "RPRate_Equal r o' \<longleftrightarrow> rprTiming r = rprTiming o' \<and> rprRating r = rprRating o' \<and> feq (rprWeight r) (rprWeight o')"

definition dest_rates :: "RatingPlan \<Rightarrow> string \<Rightarrow> RPRate list" where
  "dest_rates rp dId = (case gget (rpnDestinationRates rp) dId of None \<Rightarrow> [] | Some l \<Rightarrow> l)"

definition RateIntervalList :: "RatingPlan \<Rightarrow> string \<Rightarrow> RateInterval list" where
  "RateIntervalList rp dId =
     map (\<lambda>rpr. \<lparr>riTiming = gget (rpnTimings rp) (rprTiming rpr), riRating = gget (rpnRatings rp) (rprRating rpr),
                 riWeight = rprWeight rpr\<rparr>) (dest_rates rp dId)"

text \<open>The tags are hashes of the printed timing and rating: \<open>tagT\<close> and \<open>tagR\<close>.\<close>

definition add_interval ::
  "(RITiming \<Rightarrow> string) \<Rightarrow> (RIRate \<Rightarrow> string) \<Rightarrow> string \<Rightarrow> RateInterval \<Rightarrow> RatingPlan \<Rightarrow> RatingPlan" where
  "add_interval tagT tagR dId ri rp =
     (let tms = (case riTiming ri of None \<Rightarrow> rpnTimings rp | Some t \<Rightarrow> gset (rpnTimings rp) (tagT t) t);
          rts = (case riRating ri of None \<Rightarrow> rpnRatings rp | Some r \<Rightarrow> gset (rpnRatings rp) (tagR r) r);
          rpr = \<lparr>rprTiming = (case riTiming ri of None \<Rightarrow> [] | Some t \<Rightarrow> tagT t),
                 rprRating = (case riRating ri of None \<Rightarrow> [] | Some r \<Rightarrow> tagR r), rprWeight = riWeight ri\<rparr>;
          rp1 = rp\<lparr>rpnTimings := tms, rpnRatings := rts\<rparr>
      in if list_ex (\<lambda>e. RPRate_Equal e rpr) (dest_rates rp dId) then rp1
         else rp1\<lparr>rpnDestinationRates := gset (rpnDestinationRates rp) dId (dest_rates rp dId @ [rpr])\<rparr>)"

definition AddRateInterval ::
  "(RITiming \<Rightarrow> string) \<Rightarrow> (RIRate \<Rightarrow> string) \<Rightarrow> RatingPlan \<Rightarrow> string \<Rightarrow> RateInterval list \<Rightarrow> RatingPlan" where
  "AddRateInterval tagT tagR rp dId ris = fold (add_interval tagT tagR dId) ris rp"

definition RatingPlan_Equal :: "RatingPlan \<Rightarrow> RatingPlan \<Rightarrow> bool" where
  "RatingPlan_Equal rp o' \<longleftrightarrow> rpnId rp = rpnId o'"

text \<open>\<open>seen\<close> are the weekdays found so far; a weekday outside 0 to 6 indexes out of range.\<close>

fun continous_from :: "int list \<Rightarrow> RITiming list \<Rightarrow> error + bool" where
  "continous_from seen [] = Inr False"
| "continous_from seen (tm # tms) =
     (if IsBlank tm then Inr True
      else if rtYears tm \<noteq> [] \<or> rtMonths tm \<noteq> [] \<or> rtMonthDays tm \<noteq> [] then continous_from seen tms
      else if rtStartTime tm \<noteq> ''00:00:00'' then continous_from seen tms
      else if \<not> list_all (\<lambda>wd. 0 \<le> wd \<and> wd < 7) (rtWeekDays tm) then Inl (Panic ''index out of range'')
      else let seen' = rtWeekDays tm @ seen
           in if list_all (\<lambda>wd. List.member seen' wd) [0..6] then Inr True else continous_from seen' tms)"

definition isContinous :: "RatingPlan \<Rightarrow> error + bool" where
  "isContinous rp = continous_from [] (map snd (rpnTimings rp))"

fun sane_rates :: "Rate list \<Rightarrow> bool" where
  "sane_rates (r # n # rs) \<longleftrightarrow>
     \<not> GroupIntervalStart n \<le> GroupIntervalStart r
     \<and> feq (math_Mod (float_of_int (GroupIntervalStart n)) (float_of_int (RateIncrement r))) (Fin 0)
     \<and> \<not> (RateUnit r = 0 \<or> RateIncrement r = 0) \<and> sane_rates (n # rs)"
| "sane_rates _ \<longleftrightarrow> True"

definition getFirstUnsaneRating :: "RatingPlan \<Rightarrow> string" where
  "getFirstUnsaneRating rp =
     (case find (\<lambda>r. \<not> sane_rates (RateGroups_Sort (rrRates r))) (map snd (rpnRatings rp)) of
        None \<Rightarrow> [] | Some r \<Rightarrow> rrtag r)"

definition getFirstUnsaneTiming :: "RatingPlan \<Rightarrow> string" where
  "getFirstUnsaneTiming rp =
     (case find (\<lambda>t. (rtYears t \<noteq> [] \<or> rtMonths t \<noteq> [] \<or> rtMonthDays t \<noteq> []) \<and> rtWeekDays t \<noteq> []) (map snd (rpnTimings rp)) of
        None \<Rightarrow> [] | Some t \<Rightarrow> rttag t)"

subsection \<open>ratingprofile.go\<close>

record RatingPlanActivation =
  rpaActivationTime :: gotime
  rpaRatingPlanId :: string
  rpaFallbackKeys :: "string list"

record RatingProfile =
  rpfId :: string
  rpfRatingPlanActivations :: "RatingPlanActivation list"

definition RatingPlanActivation_Equal :: "RatingPlanActivation \<Rightarrow> RatingPlanActivation \<Rightarrow> bool" where
  "RatingPlanActivation_Equal r o' \<longleftrightarrow> rpaActivationTime r = rpaActivationTime o' \<and> rpaRatingPlanId r = rpaRatingPlanId o'"

definition RatingPlanActivations_Sort :: "RatingPlanActivation list \<Rightarrow> RatingPlanActivation list" where
  "RatingPlanActivations_Sort rpas = sort_less (\<lambda>a b. rpaActivationTime a < rpaActivationTime b) rpas"

definition RatingInfos_Sort :: "RatingInfo list \<Rightarrow> RatingInfo list" where
  "RatingInfos_Sort ris = sort_less (\<lambda>a b. rfActivationTime a < rfActivationTime b) ris"

fun active_bounds :: "gotime \<Rightarrow> gotime \<Rightarrow> nat \<Rightarrow> nat \<Rightarrow> RatingPlanActivation list \<Rightarrow> nat \<times> nat" where
  "active_bounds start end' index lastBeforeCallStart [] = (lastBeforeCallStart, index)"
| "active_bounds start end' index lastBeforeCallStart (rpa # rpas) =
     (let lastB = (if rpaActivationTime rpa < start \<or> rpaActivationTime rpa = start then index else lastBeforeCallStart)
      in if rpaActivationTime rpa > end' then (lastB, index) else active_bounds start end' (Suc index) lastB rpas)"

definition GetActiveForCall :: "RatingPlanActivation list \<Rightarrow> gotime \<Rightarrow> gotime \<Rightarrow> RatingPlanActivation list" where
  "GetActiveForCall rpas start end' =
     (let rpas' = RatingPlanActivations_Sort rpas; (lastB, firstA) = active_bounds start end' 0 0 rpas'
      in drop lastB (take firstA rpas'))"

text \<open>The intervals of \<^verbatim>\<open>SelectRatingIntevalsForTimespan\<close>: the best one that contains the start, then the later
  ones of at least its weight that begin before the end.\<close>

fun best_interval :: "gotime \<Rightarrow> nat \<Rightarrow> duration \<Rightarrow> nat \<Rightarrow> float64 \<Rightarrow> RateInterval list \<Rightarrow> error + (nat \<times> float64)" where
  "best_interval start index delta bestIndex bestWeight [] = Inr (bestIndex, bestWeight)"
| "best_interval start index delta bestIndex bestWeight (r # rs) =
     ebind (ri_Contains r start False) (\<lambda>c.
       if \<not> c then best_interval start (Suc index) delta bestIndex bestWeight rs
       else if fless (riWeight r) bestWeight then Inr (bestIndex, bestWeight)
       else ebind (timing_left r start) (\<lambda>startTime.
              let tmpDelta = time_Sub start startTime
              in if (startTime < start \<or> startTime = start) \<and> (delta = -1 \<or> tmpDelta < delta)
                 then best_interval start (Suc index) tmpDelta index (riWeight r) rs
                 else best_interval start (Suc index) delta bestIndex bestWeight rs))"

fun later_intervals :: "gotime \<Rightarrow> gotime \<Rightarrow> float64 \<Rightarrow> RateInterval list \<Rightarrow> error + RateInterval list" where
  "later_intervals start end' bestWeight [] = Inr []"
| "later_intervals start end' bestWeight (r # rs) =
     (if fless (riWeight r) bestWeight then Inr []
      else ebind (timing_left r start) (\<lambda>startTime.
           ebind (later_intervals start end' bestWeight rs) (\<lambda>rest.
             Inr (if startTime < end' then r # rest else rest))))"

text \<open>Returns the intervals as it sorted them, and the selection.\<close>

definition SelectRatingIntevalsForTimespan ::
  "RatingInfo \<Rightarrow> TimeSpan \<Rightarrow> error + (RateInterval list \<times> RateInterval list)" where
  "SelectRatingIntevalsForTimespan ri ts =
     ebind (TimeSorter_Sort (tsTimeStart ts) (case rfRateIntervals ri of None \<Rightarrow> [] | Some l \<Rightarrow> l)) (\<lambda>ris.
     ebind (best_interval (tsTimeStart ts) 0 (-1) 0 (Fin 0) ris) (\<lambda>(best, w).
       if best \<ge> length ris then Inl (Panic ''index out of range'')
       else ebind (later_intervals (tsTimeStart ts) (tsTimeEnd ts) w (drop (Suc best) ris)) (\<lambda>later.
              Inr (ris, ris ! best # later))))"

subsection \<open>calldesc.go: the call descriptor\<close>

record CallDescriptor =
  cdCategory :: string
  cdTenant :: string
  cdSubject :: string
  cdAccount :: string
  cdDestination :: string
  cdTimeStart :: gotime
  cdTimeEnd :: gotime
  cdLoopIndex :: float64
  cdDurationIndex :: duration
  cdFallbackSubject :: string
  cdRatingInfos :: "RatingInfo list"
  cdIncrements :: "Increment list"
  cdToR :: string
  cdExtraFields :: "(string, string) gmap option"
  cdMaxRate :: float64
  cdMaxRateUnit :: duration
  cdMaxCostSoFar :: float64
  cdCgrID :: string
  cdRunID :: string
  cdForceDuration :: bool
  cdPerformRounding :: bool
  cdDryRun :: bool
  cdDenyNegativeAccount :: bool

definition new_CallDescriptor :: CallDescriptor where
  "new_CallDescriptor = \<lparr>cdCategory = [], cdTenant = [], cdSubject = [], cdAccount = [], cdDestination = [],
     cdTimeStart = 0, cdTimeEnd = 0, cdLoopIndex = Fin 0, cdDurationIndex = 0, cdFallbackSubject = [],
     cdRatingInfos = [], cdIncrements = [], cdToR = [], cdExtraFields = None, cdMaxRate = Fin 0, cdMaxRateUnit = 0,
     cdMaxCostSoFar = Fin 0, cdCgrID = [], cdRunID = [], cdForceDuration = False, cdPerformRounding = False,
     cdDryRun = False, cdDenyNegativeAccount = False\<rparr>"

definition NewCallDescriptorFromCGREvent :: "golib \<Rightarrow> CGREvent \<Rightarrow> string \<Rightarrow> error + CallDescriptor" where
  "NewCallDescriptorFromCGREvent lib cgrEv timezone =
     (let optional = (\<lambda>fld. if ghas (evEvent cgrEv) fld then FieldAsString lib cgrEv fld else Inr [])
      in ebind (optional ''Category'') (\<lambda>category.
         ebind (FieldAsString lib cgrEv ''Account'') (\<lambda>account.
         ebind (case FieldAsString lib cgrEv ''Subject'' of
                  Inl e \<Rightarrow> if e \<noteq> ErrNotFound then Inl e else Inr account
                | Inr s \<Rightarrow> Inr s) (\<lambda>subject.
         ebind (FieldAsString lib cgrEv ''Destination'') (\<lambda>destination.
         ebind (FieldAsTime lib cgrEv ''SetupTime'' timezone) (\<lambda>setup.
         ebind (if ghas (evEvent cgrEv) ''AnswerTime''
                then ebind (FieldAsTime lib cgrEv ''AnswerTime'' timezone) (\<lambda>a. Inr (if IsZero a then setup else a))
                else Inr setup) (\<lambda>start.
         ebind (FieldAsDuration lib cgrEv ''Usage'') (\<lambda>usage.
         ebind (optional ''ToR'') (\<lambda>tor.
           Inr (new_CallDescriptor\<lparr>cdTenant := evTenant cgrEv, cdCategory := category, cdAccount := account,
             cdSubject := subject, cdDestination := destination, cdTimeStart := start,
             cdTimeEnd := time_Add start usage, cdToR := tor\<rparr>))))))))))"

definition AsCGREvent :: "string \<Rightarrow> CallDescriptor \<Rightarrow> CGREvent" where
  "AsCGREvent uuid cd = \<lparr>evTenant = cdTenant cd, evID = uuid, evTime = None,
     evEvent = fold (\<lambda>(k, v) m. gset m k v)
       (map (\<lambda>(k, v). (k, IString v)) (case cdExtraFields cd of None \<Rightarrow> [] | Some m \<Rightarrow> m) @
        [(''ToR'', IString (cdToR cd)), (''Tenant'', IString (cdTenant cd)), (''Category'', IString (cdCategory cd)),
         (''Account'', IString (cdAccount cd)), (''Subject'', IString (cdSubject cd)),
         (''Destination'', IString (cdDestination cd)), (''AnswerTime'', ITime (cdTimeStart cd)),
         (''Usage'', IDuration (time_Sub (cdTimeEnd cd) (cdTimeStart cd)))]) []\<rparr>"

text \<open>The fields are set one by one: an error leaves the earlier ones set, and a text field that cannot be
  read is set to the empty text first. Another field goes to the extra fields, a map that is nil unless
  the caller made one.\<close>

definition update_field :: "golib \<Rightarrow> string \<Rightarrow> CGREvent \<Rightarrow> string \<Rightarrow> CallDescriptor \<Rightarrow> CallDescriptor \<times> error option" where
  "update_field lib tz cgrEv fldName cd =
     (let str = (\<lambda>upd. case FieldAsString lib cgrEv fldName of
                         Inl e \<Rightarrow> (upd [], Some e) | Inr v \<Rightarrow> (upd v, None))
      in if fldName = ''ToR'' then str (\<lambda>v. cd\<lparr>cdToR := v\<rparr>)
         else if fldName = ''Tenant'' then str (\<lambda>v. cd\<lparr>cdTenant := v\<rparr>)
         else if fldName = ''Category'' then str (\<lambda>v. cd\<lparr>cdCategory := v\<rparr>)
         else if fldName = ''Account'' then str (\<lambda>v. cd\<lparr>cdAccount := v\<rparr>)
         else if fldName = ''Subject'' then str (\<lambda>v. cd\<lparr>cdSubject := v\<rparr>)
         else if fldName = ''Destination'' then str (\<lambda>v. cd\<lparr>cdDestination := v\<rparr>)
         else if fldName = ''AnswerTime'' then
           (case FieldAsTime lib cgrEv fldName tz of
              Inl e \<Rightarrow> (cd\<lparr>cdTimeStart := 0\<rparr>, Some e) | Inr t \<Rightarrow> (cd\<lparr>cdTimeStart := t\<rparr>, None))
         else if fldName = ''Usage'' then
           (case FieldAsDuration lib cgrEv fldName of
              Inl e \<Rightarrow> (cd, Some e) | Inr d \<Rightarrow> (cd\<lparr>cdTimeEnd := time_Add (cdTimeStart cd) d\<rparr>, None))
         else
           (case FieldAsString lib cgrEv fldName of
              Inl e \<Rightarrow> (cd, Some e)
            | Inr v \<Rightarrow>
                (case cdExtraFields cd of
                   None \<Rightarrow> (cd, Some (Panic ''assignment to entry in nil map''))
                 | Some m \<Rightarrow> (cd\<lparr>cdExtraFields := Some (gset m fldName v)\<rparr>, None))))"

fun UpdateFromCGREvent :: "golib \<Rightarrow> string \<Rightarrow> CGREvent \<Rightarrow> string list \<Rightarrow> CallDescriptor \<Rightarrow> CallDescriptor \<times> error option" where
  "UpdateFromCGREvent lib tz cgrEv [] cd = (cd, None)"
| "UpdateFromCGREvent lib tz cgrEv (fld # flds) cd =
     (case update_field lib tz cgrEv fld cd of
        (cd', Some e) \<Rightarrow> (cd', Some e)
      | (cd', None) \<Rightarrow> UpdateFromCGREvent lib tz cgrEv flds cd')"

definition ValidateCallData :: "CallDescriptor \<Rightarrow> error option" where
  "ValidateCallData cd =
     (if cdTimeStart cd > cdTimeEnd cd \<or> cdTimeStart cd = cdTimeEnd cd
      then Some (ErrMsg ''TimeStart must be strctly before TimeEnd'')
      else if time_Sub (cdTimeEnd cd) (cdTimeStart cd) < cdDurationIndex cd
      then Some (ErrMsg ''DurationIndex must be equal or greater than TimeEnd - TimeStart'')
      else None)"

definition AddRatingInfo :: "CallDescriptor \<Rightarrow> RatingInfo list \<Rightarrow> CallDescriptor" where
  "AddRatingInfo cd ris = cd\<lparr>cdRatingInfos := cdRatingInfos cd @ ris\<rparr>"

definition cd_GetDuration :: "CallDescriptor \<Rightarrow> duration" where
  "cd_GetDuration cd = time_Sub (cdTimeEnd cd) (cdTimeStart cd)"

definition GetKey :: "CallDescriptor \<Rightarrow> string \<Rightarrow> string" where
  "GetKey cd subject = ConcatenatedKey [''*out'', cdTenant cd, cdCategory cd, subject]"

definition GetAccountKey :: "CallDescriptor \<Rightarrow> string" where
  "GetAccountKey cd = ConcatenatedKey [cdTenant cd, if cdAccount cd \<noteq> [] then cdAccount cd else cdSubject cd]"

text \<open>The cached account and the call cost set by tests are not part of the model.\<close>

definition CallDescriptor_Clone :: "CallDescriptor \<Rightarrow> CallDescriptor" where
  "CallDescriptor_Clone cd = cd\<lparr>cdRatingInfos := [], cdIncrements := [], cdExtraFields := None, cdDenyNegativeAccount := False\<rparr>"

definition continousRatingInfos :: "CallDescriptor \<Rightarrow> bool" where
  "continousRatingInfos cd \<longleftrightarrow>
     (case cdRatingInfos cd of [] \<Rightarrow> False
      | ri # _ \<Rightarrow> \<not> rfActivationTime ri > cdTimeStart cd \<and> list_all (\<lambda>r. rfRateIntervals r \<noteq> None) (cdRatingInfos cd))"

definition addRatingInfos :: "CallDescriptor \<Rightarrow> RatingInfo list \<Rightarrow> CallDescriptor" where
  "addRatingInfos cd ris =
     (case cdRatingInfos cd of
        [] \<Rightarrow> cd\<lparr>cdRatingInfos := ris\<rparr>
      | _ \<Rightarrow>
          let infos = RatingInfos_Sort (cdRatingInfos cd)
          in if rfActivationTime (hd infos) > cdTimeStart cd \<and> rfActivationTime (hd ris) < rfActivationTime (hd infos)
             then cd\<lparr>cdRatingInfos := RatingInfos_Sort (infos @ [hd ris])\<rparr>
             else cd\<lparr>cdRatingInfos := infos\<rparr>)"

subsection \<open>Loading the rating information\<close>

record rt_env =
  GetRatingProfile :: "string \<Rightarrow> error + RatingProfile option"
  GetRatingPlan :: "string \<Rightarrow> error + RatingPlan option"
  GetReverseDestination :: "string \<Rightarrow> error + string list"
  rpSubjectPrefixMatching :: bool
  MaxIncrements :: int

definition ANY :: string where
  "ANY = ''*any''"

primrec any_active :: "gotime \<Rightarrow> RateInterval list \<Rightarrow> error + bool" where
  "any_active t [] = Inr False"
| "any_active t (ri # ril) =
     (case riTiming ri of
        None \<Rightarrow> Inl nil_deref
      | Some rit \<Rightarrow> ebind (IsActiveAt rit t) (\<lambda>a. if a then Inr True else any_active t ril))"

type_synonym dest_match = "RateInterval list \<times> string \<times> string"

text \<open>The destination ids of one prefix: the match of highest weight among those active at the start.\<close>

primrec best_dest :: "RatingPlan \<Rightarrow> gotime \<Rightarrow> string \<Rightarrow> float64 option \<Rightarrow> dest_match option \<Rightarrow> string list \<Rightarrow> error + dest_match option" where
  "best_dest rpl t p bestWeight found [] = Inr found"
| "best_dest rpl t p bestWeight found (dID # destIDs) =
     (if \<not> ghas (rpnDestinationRates rpl) dID then best_dest rpl t p bestWeight found destIDs
      else let ril = RateIntervalList rpl dID; currentWeight = GetWeight ril
           in ebind (any_active t ril) (\<lambda>timeChecker.
                if timeChecker \<and> (case bestWeight of None \<Rightarrow> True | Some w \<Rightarrow> fless w currentWeight)
                then best_dest rpl t p (Some currentWeight) (Some (ril, p, dID)) destIDs
                else best_dest rpl t p bestWeight found destIDs))"

primrec match_prefixes :: "rt_env \<Rightarrow> RatingPlan \<Rightarrow> gotime \<Rightarrow> string list \<Rightarrow> error + dest_match option" where
  "match_prefixes env rpl t [] = Inr None"
| "match_prefixes env rpl t (p # ps) =
     (case GetReverseDestination env p of
        Inl _ \<Rightarrow> match_prefixes env rpl t ps
      | Inr destIDs \<Rightarrow>
          ebind (best_dest rpl t p None None destIDs) (\<lambda>found.
            case found of None \<Rightarrow> match_prefixes env rpl t ps | Some m \<Rightarrow> Inr (Some m)))"

definition any_match :: "RatingPlan \<Rightarrow> dest_match option" where
  "any_match rpl = (if ghas (rpnDestinationRates rpl) ANY then Some (RateIntervalList rpl ANY, ANY, ANY) else None)"

definition match_plan :: "rt_env \<Rightarrow> CallDescriptor \<Rightarrow> RatingPlan \<Rightarrow> error + dest_match option" where
  "match_plan env cd rpl =
     (if cdDestination cd = ANY \<or> cdDestination cd = [] then Inr (any_match rpl)
      else ebind (match_prefixes env rpl (cdTimeStart cd) (SplitPrefix (cdDestination cd) 1)) (\<lambda>found.
             Inr (case found of None \<Rightarrow> any_match rpl | Some m \<Rightarrow> Some m)))"

definition blank_info :: "gotime \<Rightarrow> string list \<Rightarrow> RatingInfo" where
  "blank_info t keys = \<lparr>rfMatchedSubject = [], rfRatingPlanId = [], rfMatchedPrefix = [], rfMatchedDestId = [],
     rfActivationTime = t, rfRateIntervals = None, rfFallbackKeys = keys\<rparr>"

primrec activation_infos ::
  "rt_env \<Rightarrow> string \<Rightarrow> CallDescriptor \<Rightarrow> nat \<Rightarrow> RatingPlanActivation list \<Rightarrow> error + (CallDescriptor \<times> RatingInfo list)" where
  "activation_infos env rpfid cd index [] = Inr (cd, [])"
| "activation_infos env rpfid cd index (rpa # rpas) =
     (case GetRatingPlan env (rpaRatingPlanId rpa) of
        Inr (Some rpl) \<Rightarrow>
          (let cd1 = (if cdDestination cd = ANY \<or> cdDestination cd = [] then cd\<lparr>cdDestination := ANY\<rparr> else cd)
           in ebind (match_plan env cd1 rpl) (\<lambda>m.
              ebind (activation_infos env rpfid cd1 (Suc index) rpas) (\<lambda>(cd2, rest).
                Inr (cd2,
                  (if index = 0 \<and> cdTimeStart cd < rpaActivationTime rpa
                   then [blank_info (cdTimeStart cd) [GetKey cd ANY]] else [])
                  @ (case m of
                       Some (rps, prefix, destinationId) \<Rightarrow>
                         [\<lparr>rfMatchedSubject = rpfid, rfRatingPlanId = rpnId rpl, rfMatchedPrefix = prefix,
                           rfMatchedDestId = destinationId, rfActivationTime = rpaActivationTime rpa,
                           rfRateIntervals = Some rps, rfFallbackKeys = rpaFallbackKeys rpa\<rparr>]
                     | None \<Rightarrow>
                         (if rpaFallbackKeys rpa \<noteq> [] then [blank_info (rpaActivationTime rpa) (rpaFallbackKeys rpa)] else []))
                  @ rest))))
      | _ \<Rightarrow> activation_infos env rpfid cd (Suc index) rpas)"

definition GetRatingPlansForPrefix ::
  "rt_env \<Rightarrow> RatingProfile \<Rightarrow> CallDescriptor \<Rightarrow> error + (CallDescriptor \<times> error option)" where
  "GetRatingPlansForPrefix env rpf cd =
     ebind (activation_infos env (rpfId rpf) cd 0
              (GetActiveForCall (rpfRatingPlanActivations rpf) (cdTimeStart cd) (cdTimeEnd cd))) (\<lambda>(cd', ris).
       Inr (if ris \<noteq> [] then (addRatingInfos cd' ris, None) else (cd', Some ErrNotFound)))"

text \<open>The position of the last colon: the key is cut there and the subject shortened from its end.\<close>

primrec try_profiles :: "(string \<Rightarrow> error + RatingProfile option) \<Rightarrow> error + RatingProfile option \<Rightarrow> string list
    \<Rightarrow> error + RatingProfile option" where
  "try_profiles get prev [] = prev"
| "try_profiles get prev (k # ks) =
     (case get k of Inr (Some rp) \<Rightarrow> Inr (Some rp) | r \<Rightarrow> try_profiles get r ks)"

definition has_suffix :: "string \<Rightarrow> string \<Rightarrow> bool" where
  "has_suffix s suf = has_prefix (rev s) (rev suf)"

definition RatingProfileSubjectPrefixMatching :: "rt_env \<Rightarrow> string \<Rightarrow> error + (error + RatingProfile option)" where
  "RatingProfileSubjectPrefixMatching env key =
     (if \<not> rpSubjectPrefixMatching env \<or> has_suffix key ANY then Inr (GetRatingProfile env key)
      else case GetRatingProfile env key of
             Inr (Some rp) \<Rightarrow> Inr (Inr (Some rp))
           | r \<Rightarrow>
               if CHR '':'' \<notin> set key then Inl (Panic ''slice bounds out of range'')
               else let subject = CHR '':'' # rev (takeWhile (\<lambda>c. c \<noteq> CHR '':'') (rev key));
                        baseKey = take (length key - length subject) key
                    in Inr (try_profiles (GetRatingProfile env) r
                         (map (\<lambda>i. baseKey @ take (length subject - i) subject) [1..<length subject - 1])))"

subsection \<open>Fallback to other subjects\<close>

definition RECURSION_MAX_DEPTH :: nat where
  "RECURSION_MAX_DEPTH = 3"

definition ErrMaxRecursionDepth :: error where
  "ErrMaxRecursionDepth = ErrMsg ''MAX_RECURSION_DEPTH''"

definition ErrRatingPlanNotFound :: error where
  "ErrRatingPlanNotFound = ErrMsg ''RATING_PLAN_NOT_FOUND''"

definition ErrUnauthorizedDestination :: error where
  "ErrUnauthorizedDestination = ErrMsg ''UNAUTHORIZED_DESTINATION''"

definition filled :: "RatingInfo \<Rightarrow> bool" where
  "filled ri \<longleftrightarrow> (case rfRateIntervals ri of Some (_ # _) \<Rightarrow> True | _ \<Rightarrow> False)"

text \<open>Copies what the fallback found to position \<open>index\<close> and after it; a position past the end panics.\<close>

fun take_infos :: "nat \<Rightarrow> nat \<Rightarrow> RatingInfo list \<Rightarrow> RatingInfo list \<Rightarrow> error + RatingInfo list" where
  "take_infos index newIndex [] infos = Inr infos"
| "take_infos index newIndex (newRI # rest) infos =
     (if \<not> filled newRI then take_infos index (Suc newIndex) rest infos
      else if newIndex = 0 then take_infos index (Suc newIndex) rest (infos[index := newRI])
      else if index + newIndex > length infos then Inl (Panic ''slice bounds out of range'')
      else take_infos index (Suc newIndex) rest
             (take (index + newIndex) infos @ newRI # drop (index + newIndex) infos))"

primrec try_keys :: "(string \<Rightarrow> CallDescriptor \<Rightarrow> error + (CallDescriptor \<times> error option)) \<Rightarrow> nat \<Rightarrow> string list
    \<Rightarrow> CallDescriptor \<Rightarrow> RatingInfo list \<Rightarrow> error + RatingInfo list" where
  "try_keys rec index [] tempCD infos = Inr infos"
| "try_keys rec index (fbk # fbks) tempCD infos =
     ebind (rec fbk tempCD) (\<lambda>(tempCD', err).
       if err \<noteq> None then try_keys rec index fbks tempCD' infos
       else ebind (take_infos index 0 (cdRatingInfos tempCD') infos) (\<lambda>infos'.
              if continousRatingInfos tempCD' then Inr infos' else try_keys rec index fbks tempCD' infos'))"

definition fallback_at :: "(string \<Rightarrow> CallDescriptor \<Rightarrow> error + (CallDescriptor \<times> error option)) \<Rightarrow> CallDescriptor \<Rightarrow> nat
    \<Rightarrow> RatingInfo list \<Rightarrow> error + RatingInfo list" where
  "fallback_at rec cd index infos =
     (let ri = infos ! index
      in if filled ri then Inr infos
         else if rfFallbackKeys ri \<noteq> [] then
           try_keys rec index (rfFallbackKeys ri)
             (new_CallDescriptor\<lparr>cdCategory := cdCategory cd, cdTenant := cdTenant cd, cdDestination := cdDestination cd,
                cdTimeStart := (if index = 0 then cdTimeStart cd else rfActivationTime ri),
                cdTimeEnd := (if index = length infos - 1 then cdTimeEnd cd else rfActivationTime (infos ! Suc index))\<rparr>)
             infos
         else Inr infos)"

abbreviation unfilled :: "RatingInfo list \<Rightarrow> nat" where
  "unfilled infos \<equiv> length (filter (\<lambda>r. \<not> filled r) infos)"

lemma take_infos_keeps:
  assumes "take_infos index newIndex new infos = Inr infos'" and "index < length infos"
  shows "length infos \<le> length infos' \<and> unfilled (drop (Suc index) infos') = unfilled (drop (Suc index) infos)"
  using assms
proof (induction index newIndex new infos rule: take_infos.induct)
  case (2 index newIndex newRI rest infos)
  let ?i = "index + newIndex"
  let ?ins = "take ?i infos @ newRI # drop ?i infos"
  show ?case
  proof (cases "filled newRI \<and> newIndex \<noteq> 0")
    case True
    with 2(4) have le: "?i \<le> length infos" and r: "take_infos index (Suc newIndex) rest ?ins = Inr infos'" by (auto split: if_splits)
    have "drop (Suc index) ?ins = take (?i - Suc index) (drop (Suc index) infos) @ newRI # drop (?i - Suc index) (drop (Suc index) infos)"
      using True le by (simp add: drop_take add.commute)
    also have "unfilled \<dots> = unfilled (take (?i - Suc index) (drop (Suc index) infos) @ drop (?i - Suc index) (drop (Suc index) infos))"
      using True by simp
    finally have "unfilled (drop (Suc index) ?ins) = unfilled (drop (Suc index) infos)" by (simp only: append_take_drop_id)
    moreover have "length infos \<le> length infos' \<and> unfilled (drop (Suc index) infos') = unfilled (drop (Suc index) ?ins)"
    proof -
      have "index < length ?ins" using 2(5) le by simp
      moreover have "\<not> length infos < ?i" using le by simp
      ultimately have "length ?ins \<le> length infos' \<and> unfilled (drop (Suc index) infos') = unfilled (drop (Suc index) ?ins)"
        using True by (intro 2(3) [OF _ _ _ r]) simp_all
      then show ?thesis using le by simp
    qed
    ultimately show ?thesis by simp
  next
    case False
    show ?thesis
    proof (cases "filled newRI")
      case True
      with False 2(4) have n: "newIndex = 0" "take_infos index (Suc newIndex) rest (infos[index := newRI]) = Inr infos'" by simp_all
      from 2(2) [OF _ n] True 2(5) show ?thesis by simp
    next
      case nf: False
      with 2(4) have "take_infos index (Suc newIndex) rest infos = Inr infos'" by simp
      from 2(1) [OF nf this 2(5)] show ?thesis .
    qed
  qed
qed simp

lemma try_keys_keeps:
  assumes "try_keys rec index keys temp infos = Inr infos'" and "index < length infos"
  shows "length infos \<le> length infos' \<and> unfilled (drop (Suc index) infos') = unfilled (drop (Suc index) infos)"
  using assms
proof (induction keys arbitrary: temp infos)
  case (Cons k keys)
  then obtain temp' err where r: "rec k temp = Inr (temp', err)" by (auto simp: ebind_Inr)
  show ?case
  proof (cases "err = None")
    case True
    with Cons.prems r obtain mid where m: "take_infos index 0 (cdRatingInfos temp') infos = Inr mid"
      "(if continousRatingInfos temp' then Inr mid else try_keys rec index keys temp' mid) = Inr infos'"
      by (auto simp: ebind_Inr)
    note K = take_infos_keeps [OF m(1) Cons.prems(2)]
    from m(2) show ?thesis
    proof (cases "continousRatingInfos temp'")
      case False
      then show ?thesis using Cons.IH [of temp' mid] m(2) K Cons.prems(2) by simp
    qed (use m(2) K in simp)
  next
    case False
    with Cons.IH [of temp' infos] Cons.prems r show ?thesis by simp
  qed
qed simp

lemma fallback_at_keeps:
  assumes "fallback_at rec cd index infos = Inr infos'" and "index < length infos"
  shows "unfilled (drop (Suc index) infos') < unfilled (drop index infos) \<or> infos' = infos"
proof (cases "filled (infos ! index) \<or> rfFallbackKeys (infos ! index) = []")
  case True
  with assms(1) show ?thesis by (auto simp: fallback_at_def Let_def split: if_splits)
next
  case False
  then obtain temp where "try_keys rec index (rfFallbackKeys (infos ! index)) temp infos = Inr infos'"
    using assms(1) by (auto simp: fallback_at_def Let_def)
  from try_keys_keeps [OF this assms(2)] have "unfilled (drop (Suc index) infos') = unfilled (drop (Suc index) infos)" by simp
  also have "\<dots> < unfilled (infos ! index # drop (Suc index) infos)" using False by simp
  finally show ?thesis by (simp only: Cons_nth_drop_Suc [OF assms(2)] simp_thms)
qed

lemma ebind_cong [fundef_cong]: "x = y \<Longrightarrow> (\<And>a. y = Inr a \<Longrightarrow> f a = g a) \<Longrightarrow> ebind x f = ebind y g"
  by (cases y) simp_all

function fallback_loop :: "(string \<Rightarrow> CallDescriptor \<Rightarrow> error + (CallDescriptor \<times> error option)) \<Rightarrow> CallDescriptor \<Rightarrow> nat
    \<Rightarrow> RatingInfo list \<Rightarrow> error + RatingInfo list" where
  "fallback_loop rec cd index infos =
     (if index \<ge> length infos then Inr infos
      else ebind (fallback_at rec cd index infos) (\<lambda>infos'. fallback_loop rec cd (Suc index) infos'))"
  by pat_completeness auto
termination
proof (relation "measures [\<lambda>(_, _, index, infos). unfilled (drop index infos), \<lambda>(_, _, index, infos). length infos - index]", goal_cases)
  case (2 rec cd index infos infos')
  then have i: "index < length infos" by simp
  then have "unfilled (drop (Suc index) infos) \<le> unfilled (drop index infos)"
    using Cons_nth_drop_Suc [OF i, symmetric] by simp
  then have "unfilled (drop (Suc index) infos') < unfilled (drop index infos)
      \<or> unfilled (drop (Suc index) infos') \<le> unfilled (drop index infos) \<and> length infos' - Suc index < length infos - index"
    using fallback_at_keeps [OF 2(2) i] diff_less_mono2 [OF lessI i] by blast
  then show ?case unfolding in_measures prod.case by linarith
qed (rule wf_measures)

declare fallback_loop.simps [simp del]

primrec getRatingPlansForPrefix :: "rt_env \<Rightarrow> nat \<Rightarrow> string \<Rightarrow> CallDescriptor \<Rightarrow> error + (CallDescriptor \<times> error option \<times> bool)" where
  "getRatingPlansForPrefix env 0 key cd = Inr (cd, Some ErrMaxRecursionDepth, False)"
| "getRatingPlansForPrefix env (Suc n) key cd =
     ebind (RatingProfileSubjectPrefixMatching env key) (\<lambda>r.
       case r of
         Inr (Some rpf) \<Rightarrow>
           ebind (GetRatingPlansForPrefix env rpf cd) (\<lambda>(cd1, err).
             if err \<noteq> None \<or> \<not> continousRatingInfos cd1 then
               ebind (fallback_loop (\<lambda>k c. ebind (getRatingPlansForPrefix env n k c) (\<lambda>(c', e, _). Inr (c', e)))
                        cd1 0 (cdRatingInfos cd1)) (\<lambda>infos.
                 Inr (cd1\<lparr>cdRatingInfos := infos\<rparr>, None, True))
             else Inr (cd1, None, False))
       | _ \<Rightarrow> Inr (cd, Some ErrNotFound, False))"

definition LoadRatingPlans :: "rt_env \<Rightarrow> CallDescriptor \<Rightarrow> error + (CallDescriptor \<times> error option)" where
  "LoadRatingPlans env cd =
     ebind (getRatingPlansForPrefix env RECURSION_MAX_DEPTH (GetKey cd (cdSubject cd)) cd) (\<lambda>(cd1, err, deeper).
     ebind (if err = Some ErrNotFound \<and> \<not> deeper
            then ebind (getRatingPlansForPrefix env RECURSION_MAX_DEPTH (GetKey cd1 ANY) cd1) (\<lambda>(cd2, e, _). Inr (cd2, e))
            else Inr (cd1, err)) (\<lambda>(cd2, err2).
       Inr (cd2, if err2 \<noteq> None then Some ErrRatingPlanNotFound
                 else if \<not> continousRatingInfos cd2 then Some ErrUnauthorizedDestination else None)))"

end
