(* ===== verification/Rating.thy ===== *)
theory Rating
  imports Rating_Plans
begin

text \<open>
  \<^verbatim>\<open>engine/calldesc.go\<close> and \<^verbatim>\<open>engine/callcost.go\<close>: a call is split into time spans, each with the rate interval that
  applies, the spans are rounded to increments and priced.

  The loops that split by day and by rate interval insert spans into the list they run over; they are
  \<^verbatim>\<open>partial_function (option)\<close>s whose result \<open>None\<close> means that the loop does not end. \<open>Inl\<close> is a panic.
\<close>

subsection \<open>Splitting a call\<close>

definition VOICE :: string where
  "VOICE = ''*voice''"

text \<open>The loop over the spans for one rating information stops at the first span it does not split; new spans
  go to the end of the list. \<open>plan_scan\<close> returns the spans and whether a span was not split.\<close>

function plan_scan :: "RatingInfo list \<Rightarrow> RatingInfo \<Rightarrow> nat \<Rightarrow> TimeSpan list \<Rightarrow> TimeSpan list \<times> bool" where
  "plan_scan ris rp i tss =
     (if i \<ge> length tss then (tss, False)
      else case SplitByRatingPlan ris (tss ! i) rp of
             (ts, None) \<Rightarrow> (tss[i := ts], True)
           | (ts, Some newTs) \<Rightarrow> plan_scan ris rp (Suc i) (tss[i := ts] @ [newTs]))"
  by pat_completeness auto

lemma SplitByRatingPlan_contains:
  "SplitByRatingPlan ris ts rp = (a, Some b) \<Longrightarrow> ts_Contains ts (rfActivationTime rp) \<and> \<not> ts_Contains b (rfActivationTime rp)"
  by (auto simp: SplitByRatingPlan_def cut_span_def Let_def ts_Contains_def new_TimeSpan_def split: if_splits)

termination plan_scan
proof (relation "measure (\<lambda>(_, rp, i, tss). length (filter (\<lambda>ts. ts_Contains ts (rfActivationTime rp)) (drop i tss)))", goal_cases)
  case (2 ris rp i tss ts nb newTs)
  then have i: "i < length tss" and c: "ts_Contains (tss ! i) (rfActivationTime rp)" "\<not> ts_Contains newTs (rfActivationTime rp)"
    using SplitByRatingPlan_contains [of ris "tss ! i" rp ts newTs] by simp_all
  then have "filter (\<lambda>ts. ts_Contains ts (rfActivationTime rp)) (drop i tss)
      = tss ! i # filter (\<lambda>ts. ts_Contains ts (rfActivationTime rp)) (drop (Suc i) tss)"
    by (simp flip: Cons_nth_drop_Suc)
  then show ?case using i c by simp
qed simp

declare plan_scan.simps [simp del]

primrec plan_loop :: "RatingInfo list \<Rightarrow> gotime \<Rightarrow> bool \<Rightarrow> bool \<Rightarrow> (nat \<times> RatingInfo) list \<Rightarrow> TimeSpan list \<Rightarrow> TimeSpan list" where
  "plan_loop ris start afterStart afterEnd [] tss = tss"
| "plan_loop ris start afterStart afterEnd (krp # rps) tss =
     (if \<not> afterStart \<and> \<not> afterEnd \<and> rfActivationTime (snd krp) < start
      then plan_loop ris start afterStart afterEnd rps (tss[0 := setRatingInfo ris (fst krp) (tss ! 0)])
      else let (tss', e) = plan_scan ris (snd krp) 0 tss
           in plan_loop ris start True (afterEnd \<or> e) rps tss')"

text \<open>A new span is inserted after the one it was taken from, so it is the next one looked at. \<open>prev\<close> are the spans
  passed, reversed.\<close>

partial_function (option) days_loop :: "RatingInfo list \<Rightarrow> TimeSpan list \<Rightarrow> TimeSpan list \<Rightarrow> (error + TimeSpan list) option" where
  "days_loop ris prev todo =
     (case todo of
        [] \<Rightarrow> Some (Inr (rev prev))
      | ts # rest \<Rightarrow>
          (case SplitByDay ris ts of
             (ts', None) \<Rightarrow> days_loop ris (ts' # prev) rest
           | (ts', Some newTs) \<Rightarrow>
               (case tsratingInfo ts of
                  None \<Rightarrow> Some (Inl nil_deref)
                | Some k \<Rightarrow> days_loop ris (ts' # prev) (setRatingInfo ris k newTs # rest))))"

declare days_loop.simps [code]

text \<open>One span against the intervals selected for it; \<open>new\<close> are the spans inserted after it. The loop stops at a split
  that left the span with a rate interval.\<close>

fun interval_loop :: "RatingInfo list \<Rightarrow> bool \<Rightarrow> nat \<Rightarrow> TimeSpan \<Rightarrow> TimeSpan list \<Rightarrow> RateInterval list \<Rightarrow> error + (TimeSpan \<times> TimeSpan list)" where
  "interval_loop ris data k ts new [] = Inr (ts, new)"
| "interval_loop ris data k ts new (interval # intervals) =
     ebind (SplitByRateInterval ris ts interval data) (\<lambda>(ts', nb).
       case nb of
         None \<Rightarrow> interval_loop ris data k ts' new intervals
       | Some newTs \<Rightarrow>
           let new' = setRatingInfo ris k newTs # new
           in if tsRateInterval ts' \<noteq> None then Inr (ts', new') else interval_loop ris data k ts' new' intervals)"

definition rate_span :: "bool \<Rightarrow> RatingInfo list \<Rightarrow> TimeSpan \<Rightarrow> error + (RatingInfo list \<times> TimeSpan \<times> TimeSpan list)" where
  "rate_span data ris ts =
     (case tsratingInfo ts of
        None \<Rightarrow> Inl nil_deref
      | Some k \<Rightarrow>
          ebind (SelectRatingIntevalsForTimespan (ris ! k) ts) (\<lambda>(sorted, intervals).
            let ris' = ris[k := (ris ! k)\<lparr>rfRateIntervals := Some sorted\<rparr>]
            in ebind (interval_loop ris' data k ts [] intervals) (\<lambda>(ts', new). Inr (ris', ts', new))))"

type_synonym rates_state = "RatingInfo list \<times> TimeSpan list \<times> TimeSpan list"

text \<open>One round of the loop: the result, or the next state.\<close>

definition rates_step :: "bool \<Rightarrow> rates_state \<Rightarrow> (error + (RatingInfo list \<times> TimeSpan list)) + rates_state" where
  "rates_step data st =
     (case st of
        (ris, prev, []) \<Rightarrow> Inl (Inr (ris, rev prev))
      | (ris, prev, ts # rest) \<Rightarrow>
          (case rate_span data ris ts of
             Inl e \<Rightarrow> Inl (Inl e)
           | Inr (ris', ts', new) \<Rightarrow> Inr (ris', ts' # prev, new @ rest)))"

partial_function (option) rates_loop :: "bool \<Rightarrow> rates_state \<Rightarrow> (error + (RatingInfo list \<times> TimeSpan list)) option" where
  "rates_loop data st = (case rates_step data st of Inl r \<Rightarrow> Some r | Inr st' \<Rightarrow> rates_loop data st')"

declare rates_loop.simps [code]

subsection \<open>Rounding to increments\<close>

definition drop_overlaped :: "gotime \<Rightarrow> TimeSpan list \<Rightarrow> TimeSpan list" where
  "drop_overlaped e rest = (let (n, rest') = overlap_scan e 0 0 rest in drop n rest')"

lemma RemoveOverlaped_head: "RemoveOverlapedFromIndex (ts # rest) 0 = Inr (ts # drop_overlaped (tsTimeEnd ts) rest)"
  by (simp add: RemoveOverlapedFromIndex_def drop_overlaped_def split: prod.splits)

lemma length_overlap_scan [simp]: "length (snd (overlap_scan e n j rest)) = length rest"
  by (induction e n j rest rule: overlap_scan.induct) (auto simp: split_def Let_def)

lemma length_drop_overlaped: "length (drop_overlaped e rest) \<le> length rest"
  using length_overlap_scan [of e 0 0 rest] by (simp add: drop_overlaped_def split_def Let_def del: length_overlap_scan)

definition round_span :: "TimeSpan \<Rightarrow> TimeSpan option" where
  "round_span ts =
     (case tsRateInterval ts of
        None \<Rightarrow> None
      | Some ri \<Rightarrow>
          let (_, rateIncrement, _) = rate_params ri (GetGroupStart ts);
              d = ts_GetDuration ts;
              inc = (if rateIncrement < d then RoundDuration rateIncrement d else rateIncrement)
          in if inc > d
             then Some (ts\<lparr>tsTimeEnd := time_Add (tsTimeStart ts) inc,
                           tsDurationIndex := wrap64 (tsDurationIndex ts + wrap64 (inc - d))\<rparr>)
             else None)"

text \<open>A span that grows swallows the ones after it; the spans before it are not looked at again.\<close>

function roundTimeSpansToIncrement :: "TimeSpan list \<Rightarrow> TimeSpan list" where
  "roundTimeSpansToIncrement [] = []"
| "roundTimeSpansToIncrement (ts # rest) =
     (case round_span ts of
        None \<Rightarrow> ts # roundTimeSpansToIncrement rest
      | Some ts' \<Rightarrow> ts' # roundTimeSpansToIncrement (drop_overlaped (tsTimeEnd ts') rest))"
  by pat_completeness auto
termination by (relation "measure length") (simp_all add: le_imp_less_Suc length_drop_overlaped)

definition splitInTimeSpans :: "CallDescriptor \<Rightarrow> (error + (CallDescriptor \<times> TimeSpan list)) option" where
  "splitInTimeSpans cd =
     (let firstSpan = (new_TimeSpan (cdTimeStart cd) (cdTimeEnd cd))\<lparr>tsDurationIndex := cdDurationIndex cd\<rparr>;
          ris = cdRatingInfos cd
      in if ris = [] then Some (Inr (cd, [firstSpan]))
         else
           let tss0 = [setRatingInfo ris 0 firstSpan];
               voice = (cdToR cd = VOICE);
               days = (if voice then days_loop ris [] (plan_loop ris (cdTimeStart cd) False False (enumerate 0 ris) tss0)
                       else Some (Inr tss0))
           in Option.bind days (\<lambda>d.
                case d of
                  Inl e \<Rightarrow> Some (Inl e)
                | Inr tss \<Rightarrow>
                    Option.bind (rates_loop (\<not> voice) (ris, [], tss)) (\<lambda>r.
                      Some (ebind r (\<lambda>(ris', tss'). Inr (cd\<lparr>cdRatingInfos := ris'\<rparr>, roundTimeSpansToIncrement tss'))))))"

subsection \<open>callcost.go\<close>

record CallCost =
  ccCategory :: string
  ccTenant :: string
  ccSubject :: string
  ccAccount :: string
  ccDestination :: string
  ccToR :: string
  ccCost :: float64
  ccTimespans :: "TimeSpan list"
  ccRatedUsage :: float64
  ccdeductConnectFee :: bool
  ccnegativeConnectFee :: bool
  ccmaxCostDisconect :: bool

definition new_CallCost :: CallCost where
  "new_CallCost = \<lparr>ccCategory = [], ccTenant = [], ccSubject = [], ccAccount = [], ccDestination = [], ccToR = [],
     ccCost = Fin 0, ccTimespans = [], ccRatedUsage = Fin 0, ccdeductConnectFee = False,
     ccnegativeConnectFee = False, ccmaxCostDisconect = False\<rparr>"

definition CallCost_Merge :: "CallCost \<Rightarrow> CallCost \<Rightarrow> CallCost" where
  "CallCost_Merge cc other = cc\<lparr>ccTimespans := ccTimespans cc @ ccTimespans other, ccCost := fadd (ccCost cc) (ccCost other)\<rparr>"

definition GetStartTime :: "gotime \<Rightarrow> CallCost \<Rightarrow> gotime" where
  "GetStartTime now cc = (case ccTimespans cc of [] \<Rightarrow> now | ts # _ \<Rightarrow> tsTimeStart ts)"

definition GetEndTime :: "gotime \<Rightarrow> CallCost \<Rightarrow> gotime" where
  "GetEndTime now cc = (if ccTimespans cc = [] then now else tsTimeEnd (last (ccTimespans cc)))"

definition cc_GetDuration :: "CallCost \<Rightarrow> duration" where
  "cc_GetDuration cc = foldl (\<lambda>td ts. wrap64 (td + ts_GetDuration ts)) 0 (ccTimespans cc)"

definition UpdateRatedUsage :: "CallCost \<Rightarrow> CallCost \<times> duration" where
  "UpdateRatedUsage cc = (cc\<lparr>ccRatedUsage := float_of_int (cc_GetDuration cc)\<rparr>, cc_GetDuration cc)"

definition GetConnectFee :: "CallCost \<Rightarrow> float64" where
  "GetConnectFee cc =
     (case ccTimespans cc of
        [] \<Rightarrow> Fin 0
      | ts # _ \<Rightarrow> (case tsRateInterval ts of
                     None \<Rightarrow> Fin 0
                   | Some ri \<Rightarrow> (case riRating ri of None \<Rightarrow> Fin 0 | Some r \<Rightarrow> rrConnectFee r)))"

definition CreateCallDescriptor :: "CallCost \<Rightarrow> CallDescriptor" where
  "CreateCallDescriptor cc = new_CallDescriptor\<lparr>cdCategory := ccCategory cc, cdTenant := ccTenant cc, cdSubject := ccSubject cc,
     cdAccount := ccAccount cc, cdDestination := ccDestination cc, cdToR := ccToR cc\<rparr>"

definition CreateCallCost :: "CallDescriptor \<Rightarrow> CallCost" where
  "CreateCallCost cd = new_CallCost\<lparr>ccCategory := cdCategory cd, ccTenant := cdTenant cd, ccSubject := cdSubject cd,
     ccAccount := cdAccount cd, ccDestination := cdDestination cd, ccToR := cdToR cd,
     ccdeductConnectFee := feq (cdLoopIndex cd) (Fin 0)\<rparr>"

definition cc_IsPaid :: "CallCost \<Rightarrow> bool" where
  "cc_IsPaid cc \<longleftrightarrow> list_all (\<lambda>ts. fst (ts_IsPaid ts)) (ccTimespans cc)"

definition nn_rating :: "RateInterval \<Rightarrow> error + RIRate" where
  "nn_rating ri = (case riRating ri of None \<Rightarrow> Inl nil_deref | Some r \<Rightarrow> Inr r)"

primrec longest_rounding :: "int \<Rightarrow> string \<Rightarrow> TimeSpan list \<Rightarrow> error + (int \<times> string)" where
  "longest_rounding dec meth [] = Inr (dec, meth)"
| "longest_rounding dec meth (ts # tss) =
     (case tsRateInterval ts of
        None \<Rightarrow> longest_rounding dec meth tss
      | Some ri \<Rightarrow> ebind (nn_rating ri) (\<lambda>r.
          if rrRoundingDecimals r > dec then longest_rounding (rrRoundingDecimals r) (rrRoundingMethod r) tss
          else longest_rounding dec meth tss))"

definition GetLongestRounding :: "CallCost \<Rightarrow> error + (int \<times> string)" where
  "GetLongestRounding cc = longest_rounding 0 [] (ccTimespans cc)"

primrec update_costs :: "float64 \<Rightarrow> TimeSpan list \<Rightarrow> TimeSpan list \<times> float64" where
  "update_costs cost [] = ([], cost)"
| "update_costs cost (ts # tss) =
     (let c = CalculateCost ts;
          (rest, total) = update_costs (Round (fadd cost c) globalRoundingDecimals ROUNDING_MIDDLE) tss
      in (ts\<lparr>tsCost := c\<rparr> # rest, total))"

definition updateCost :: "CallCost \<Rightarrow> CallCost" where
  "updateCost cc = (let (tss, cost) = update_costs (Fin 0) (ccTimespans cc) in cc\<lparr>ccTimespans := tss, ccCost := cost\<rparr>)"

definition UpdateCost :: "CallCost \<Rightarrow> CallCost" where
  "UpdateCost cc = updateCost (cc\<lparr>ccdeductConnectFee := True\<rparr>)"

text \<open>The correction of one span; a span paid in units, or free, is not rounded.\<close>

definition round_cost :: "TimeSpan \<Rightarrow> error + (TimeSpan \<times> float64)" where
  "round_cost ts =
     (case tsIncrements ts of
        [] \<Rightarrow> Inr (ts, Fin 0)
      | inc # _ \<Rightarrow>
          (case icBalanceInfo inc of
             None \<Rightarrow> Inr (ts, Fin 0)
           | Some di \<Rightarrow>
               if diMonetary di = None \<or> feq (icCost inc) (Fin 0) then Inr (ts, Fin 0)
               else case tsRateInterval ts of
                      None \<Rightarrow> Inl nil_deref
                    | Some ri \<Rightarrow> ebind (nn_rating ri) (\<lambda>r.
                        let cost = CalculateCost ts;
                            correctionCost = fsub (Round cost (rrRoundingDecimals r) (rrRoundingMethod r)) cost
                        in if \<not> feq correctionCost (Fin 0)
                           then Inr (ts\<lparr>tsRoundIncrement := Some \<lparr>icDuration = 0, icCost = correctionCost,
                                         icBalanceInfo = Some di, icCompressFactor = 1, icpaid = False\<rparr>,
                                       tsCost := fadd (tsCost ts) correctionCost\<rparr>, correctionCost)
                           else Inr (ts, Fin 0))))"

primrec round_costs :: "TimeSpan list \<Rightarrow> float64 \<Rightarrow> error + (TimeSpan list \<times> float64)" where
  "round_costs [] sofar = Inr ([], sofar)"
| "round_costs (ts # tss) sofar =
     ebind (round_cost ts) (\<lambda>(ts', c).
     ebind (round_costs tss (if feq c (Fin 0) then sofar else fadd sofar c)) (\<lambda>(rest, t). Inr (ts' # rest, t)))"

definition CallCost_Round :: "CallCost \<Rightarrow> error + CallCost" where
  "CallCost_Round cc =
     (if ccTimespans cc = [] then Inr cc
      else ebind (round_costs (ccTimespans cc) (Fin 0)) (\<lambda>(tss, total).
             Inr (cc\<lparr>ccTimespans := tss, ccCost := fadd (ccCost cc) total\<rparr>)))"

definition GetRoundIncrements :: "CallCost \<Rightarrow> Increment list" where
  "GetRoundIncrements cc =
     filter (\<lambda>i. \<not> feq (icCost i) (Fin 0)) (List.map_filter tsRoundIncrement (ccTimespans cc))"

subsection \<open>The cost of a call\<close>

definition lift_err :: "error + 'a \<Rightarrow> ('a \<Rightarrow> (error + 'b) option) \<Rightarrow> (error + 'b) option" where
  "lift_err x f = (case x of Inl e \<Rightarrow> Some (Inl e) | Inr a \<Rightarrow> f a)"

primrec price_spans :: "int \<Rightarrow> float64 \<Rightarrow> TimeSpan list \<Rightarrow> TimeSpan list \<times> float64" where
  "price_spans maxInc cost [] = ([], cost)"
| "price_spans maxInc cost (ts # tss) =
     (let ts' = createIncrementsSlice maxInc ts;
          (rest, total) = price_spans maxInc (fadd cost (CalculateCost ts')) tss
      in (ts' # rest, total))"

definition connect_fee :: "CallDescriptor \<Rightarrow> TimeSpan list \<Rightarrow> error + float64" where
  "connect_fee cd tss =
     (case tss of
        [] \<Rightarrow> Inr (Fin 0)
      | ts # _ \<Rightarrow> (case tsRateInterval ts of
                     None \<Rightarrow> Inr (Fin 0)
                   | Some ri \<Rightarrow> if feq (cdLoopIndex cd) (Fin 0)
                                then ebind (nn_rating ri) (\<lambda>r. Inr (rrConnectFee r)) else Inr (Fin 0)))"

text \<open>A call without duration: the rating information only.\<close>

definition zero_cost :: "rt_env \<Rightarrow> CallDescriptor \<Rightarrow> error + (CallDescriptor \<times> CallCost)" where
  "zero_cost env cd =
     ebind (LoadRatingPlans env cd) (\<lambda>(cd', err).
       Inr (cd', if err = None \<and> cdRatingInfos cd' \<noteq> []
                 then (CreateCallCost cd)\<lparr>ccTimespans :=
                        [setRatingInfo (cdRatingInfos cd') 0 (new_TimeSpan (cdTimeStart cd') (cdTimeEnd cd'))]\<rparr>
                 else CreateCallCost cd))"

definition getCost :: "rt_env \<Rightarrow> CallDescriptor \<Rightarrow> (error + (CallDescriptor \<times> CallCost \<times> error option)) option" where
  "getCost env cd0 =
     (if cd_GetDuration cd0 = 0 then Some (ebind (zero_cost env cd0) (\<lambda>(cd, cc). Inr (cd, cc, None)))
      else
        let d = cd_GetDuration cd0;
            cd1 = cd0\<lparr>cdDurationIndex := (if cdDurationIndex cd0 < d then d else cdDurationIndex cd0),
                      cdToR := (if cdToR cd0 = [] then VOICE else cdToR cd0)\<rparr>
        in lift_err (LoadRatingPlans env cd1) (\<lambda>(cd2, err).
             if err \<noteq> None then Some (Inr (cd2, new_CallCost\<lparr>ccCost := Fin (-1)\<rparr>, err))
             else Option.bind (splitInTimeSpans cd2) (\<lambda>split.
                    Some (ebind split (\<lambda>(cd3, tss).
                          ebind (connect_fee cd3 tss) (\<lambda>fee.
                            let (tss', cost) = price_spans (MaxIncrements env) (fadd (Fin 0) fee) tss;
                                cc = (CreateCallCost cd3)\<lparr>ccCost := cost, ccTimespans := tss'\<rparr>
                            in ebind (GetLongestRounding cc) (\<lambda>(dec, meth).
                               ebind (TimeSpans_Compress tss') (\<lambda>ctss.
                                 Inr (cd3, fst (UpdateRatedUsage (cc\<lparr>ccCost := Round cost dec meth, ccTimespans := ctss\<rparr>)), None)))))))))"

text \<open>\<^verbatim>\<open>GetCost\<close> puts the connect fee before the increments of the first span and totals the costs again, up to the maximum
  cost. A span without rate interval is dereferenced.\<close>

primrec total_costs :: "bool \<Rightarrow> float64 \<Rightarrow> float64 \<Rightarrow> TimeSpan list \<Rightarrow> error + (TimeSpan list \<times> float64 \<times> float64)" where
  "total_costs fee cost maxSoFar [] = Inr ([], cost, maxSoFar)"
| "total_costs fee cost maxSoFar (ts # tss) =
     (case tsRateInterval ts of
        None \<Rightarrow> Inl nil_deref
      | Some ri \<Rightarrow>
          ebind (if fee then
                   ebind (nn_rating ri) (\<lambda>r.
                     Inr (ts\<lparr>tsIncrements := \<lparr>icDuration = 0, icCost = rrConnectFee r,
                               icBalanceInfo = Some \<lparr>diUnit = None, diMonetary = None, diAccountID = []\<rparr>,
                               icCompressFactor = 1, icpaid = False\<rparr> # tsIncrements ts,
                             tsCost := fadd (tsCost ts) (rrConnectFee r)\<rparr>))
                 else Inr ts) (\<lambda>ts1.
            let (maxCost, strategy) = GetMaxCost ri;
                c = CalculateCost ts1;
                cost1 = fadd cost c;
                so_far = fadd maxSoFar cost1;
                capped = (strategy \<noteq> [] \<and> fless (Fin 0) maxCost \<and> strategy = ''*free'' \<and> fleq maxCost so_far)
            in ebind (total_costs False (if capped then maxCost else cost1) (if capped then maxCost else so_far) tss)
                 (\<lambda>(rest, total, m). Inr (ts1\<lparr>tsCost := c\<rparr> # rest, total, m))))"

definition GetCost :: "rt_env \<Rightarrow> CallDescriptor \<Rightarrow> (error + (CallDescriptor \<times> CallCost \<times> error option)) option" where
  "GetCost env cd =
     Option.bind (getCost env cd) (\<lambda>res. Some (ebind res (\<lambda>(cd1, cc, err).
       if err \<noteq> None \<or> cd_GetDuration cd1 = 0 then Inr (cd1, cc, err)
       else ebind (total_costs (feq (cdLoopIndex cd1) (Fin 0)) (Fin 0) (cdMaxCostSoFar cd1) (ccTimespans cc)) (\<lambda>(tss, cost, m).
              let cc1 = cc\<lparr>ccTimespans := tss, ccCost := cost\<rparr>
              in ebind (GetLongestRounding cc1) (\<lambda>(dec, meth).
                   Inr (cd1\<lparr>cdMaxCostSoFar := m\<rparr>, cc1\<lparr>ccCost := Round cost dec meth\<rparr>, None))))))"

end
