(* ===== verification/Rating_Laws.thy ===== *)
theory Rating_Laws
  imports Rating
begin

text \<open>
  How a call is split: the loops of \<open>Rating\<close> end and keep the time of the call covered, for calls in whole
  seconds whose rate intervals have well formed margins; every span is rated with the same rating
  information; what goes wrong outside of these conditions.
\<close>

subsection \<open>Totality of the selection of intervals\<close>

lemma insert_lessE_total:
  assumes "\<And>a b. a \<in> insert x (set ys) \<Longrightarrow> b \<in> insert x (set ys) \<Longrightarrow> \<exists>r. lt a b = Inr r"
  shows "\<exists>zs. insert_lessE lt x ys = Inr zs \<and> set zs = insert x (set ys)"
  using assms
proof (induction ys)
  case (Cons y ys)
  obtain r where r: "lt x y = Inr r" using Cons.prems [of x y] by auto
  obtain zs where "insert_lessE lt x ys = Inr zs" "set zs = insert x (set ys)" using Cons.IH Cons.prems by force
  with r show ?case by (cases r) auto
qed simp

lemma sort_lessE_total:
  assumes "\<And>a b. a \<in> set prefix \<union> set xs \<Longrightarrow> b \<in> set prefix \<union> set xs \<Longrightarrow> \<exists>r. lt a b = Inr r"
  shows "\<exists>zs. sort_lessE lt prefix xs = Inr zs \<and> set zs = set prefix \<union> set xs"
  using assms
proof (induction xs arbitrary: prefix)
  case (Cons x xs)
  obtain p where p: "insert_lessE lt x prefix = Inr p" "set p = insert x (set prefix)"
    using insert_lessE_total [of x prefix lt] Cons.prems by auto
  have "\<exists>zs. sort_lessE lt p xs = Inr zs \<and> set zs = set p \<union> set xs"
    using Cons.prems p(2) by (intro Cons.IH) auto
  with p show ?case by auto
qed simp

lemma interval_margins:
  assumes "interval_ok i"
  shows "\<exists>l. timing_left i t = Inr l" "\<exists>c. ri_Contains i t e = Inr c"
    "\<exists>rit r. riTiming i = Some rit \<and> getRightMargin rit t = Inr r"
proof -
  obtain rit where rit: "riTiming i = Some rit" "margin_ok (rtStartTime rit)" "margin_ok (rtEndTime rit)"
    using assms by (auto simp: interval_ok_def split: option.splits)
  from rit(2,3) obtain l r where m: "\<forall>t. getLeftMargin rit t = Inr (t div day_ns * day_ns + l)"
    "\<forall>t. getRightMargin rit t = Inr (t div day_ns * day_ns + r)" by (rule getMargins)
  show "\<exists>l. timing_left i t = Inr l" using m rit(1) by (simp add: timing_left_def)
  show "\<exists>c. ri_Contains i t e = Inr c" using IsActiveAt_margins m rit(1) by (simp add: ri_Contains_def Let_def)
  show "\<exists>rit r. riTiming i = Some rit \<and> getRightMargin rit t = Inr r" using m rit(1) by simp
qed

lemma TimeSorter_total:
  "list_all interval_ok ris \<Longrightarrow> \<exists>zs. TimeSorter_Sort t ris = Inr zs \<and> set zs = set ris"
proof -
  assume ok: "list_all interval_ok ris"
  have "\<exists>r. ri_Less t a b = Inr r" if "a \<in> set ris" "b \<in> set ris" for a b
    using interval_margins(1) [of a t] interval_margins(1) [of b t] ok that by (auto simp: ri_Less_def list_all_iff)
  then show ?thesis using sort_lessE_total [of "[]" ris "ri_Less t"] by (auto simp: TimeSorter_Sort_def)
qed

lemma best_interval_total:
  "list_all interval_ok rs \<Longrightarrow>
    \<exists>b w. best_interval start index delta best bw rs = Inr (b, w) \<and> (b = best \<or> b < index + length rs)"
proof (induction rs arbitrary: index delta best bw)
  case (Cons r rs)
  from Cons.prems have ok: "interval_ok r" "list_all interval_ok rs" by simp_all
  obtain c l where c: "ri_Contains r start False = Inr c" "timing_left r start = Inr l"
    using interval_margins [OF ok(1)] by blast
  show ?case
  proof (cases "c \<and> \<not> fless (riWeight r) bw \<and> (l < start \<or> l = start) \<and> (delta = -1 \<or> time_Sub start l < delta)")
    case True
    from Cons.IH [OF ok(2), of "Suc index" "time_Sub start l" index "riWeight r"] obtain b w
      where "best_interval start (Suc index) (time_Sub start l) index (riWeight r) rs = Inr (b, w)"
        "b = index \<or> b < Suc index + length rs" by blast
    with True c show ?thesis by auto
  next
    case False
    from Cons.IH [OF ok(2), of "Suc index" delta best bw] obtain b w
      where "best_interval start (Suc index) delta best bw rs = Inr (b, w)" "b = best \<or> b < Suc index + length rs" by blast
    with False c show ?thesis by (auto simp: Let_def)
  qed
qed simp

lemma later_intervals_total:
  "list_all interval_ok rs \<Longrightarrow> \<exists>ls. later_intervals start end' w rs = Inr ls \<and> set ls \<subseteq> set rs"
proof (induction rs)
  case (Cons r rs)
  then obtain l where "timing_left r start = Inr l" using interval_margins(1) [of r start] by auto
  with Cons show ?case by auto
qed simp

definition info_intervals :: "RatingInfo \<Rightarrow> RateInterval list" where
  "info_intervals ri = (case rfRateIntervals ri of None \<Rightarrow> [] | Some l \<Rightarrow> l)"

lemma Select_total:
  assumes "list_all interval_ok (info_intervals ri)" and "info_intervals ri \<noteq> []"
  shows "\<exists>sorted sel. SelectRatingIntevalsForTimespan ri ts = Inr (sorted, sel) \<and> set sorted = set (info_intervals ri)
    \<and> set sel \<subseteq> set (info_intervals ri)"
proof -
  obtain zs where z: "TimeSorter_Sort (tsTimeStart ts) (info_intervals ri) = Inr zs" "set zs = set (info_intervals ri)"
    using TimeSorter_total assms(1) by blast
  then have ok: "list_all interval_ok zs" "zs \<noteq> []" using assms by (auto simp: list_all_iff)
  then obtain b w where b: "best_interval (tsTimeStart ts) 0 (-1) 0 (Fin 0) zs = Inr (b, w)" "b < length zs"
    using best_interval_total [OF ok(1), of "tsTimeStart ts" 0 "-1" 0 "Fin 0"] by fastforce
  have "list_all interval_ok (drop (Suc b) zs)" using ok(1) by (auto simp: list_all_iff dest: in_set_dropD)
  then obtain ls where l: "later_intervals (tsTimeStart ts) (tsTimeEnd ts) w (drop (Suc b) zs) = Inr ls" "set ls \<subseteq> set (drop (Suc b) zs)"
    using later_intervals_total by blast
  have "set (zs ! b # ls) \<subseteq> set (info_intervals ri)" using l(2) b(2) z(2) set_drop_subset [of "Suc b" zs] by auto
  then show ?thesis using z b l by (simp add: SelectRatingIntevalsForTimespan_def info_intervals_def not_le [symmetric])
qed

subsection \<open>Splitting by rate intervals\<close>

definition rated_ok :: "TimeSpan \<Rightarrow> bool" where
  "rated_ok ts \<longleftrightarrow> (case tsRateInterval ts of None \<Rightarrow> True | Some i \<Rightarrow> interval_ok i)"

lemma SetRateInterval_total:
  assumes "interval_ok i" and "rated_ok ts"
  shows "\<exists>ts'. SetRateInterval ts i = Inr ts'"
proof -
  have l: "\<exists>l. timing_left i t = Inr l" for t using interval_margins(1) [OF assms(1)] .
  obtain rit where rit: "riTiming i = Some rit" using assms(1) by (auto simp: interval_ok_def split: option.splits)
  then obtain m where m: "getLeftMargin rit (tsTimeStart ts) = Inr m" using l [of "tsTimeStart ts"] by (auto simp: timing_left_def)
  show ?thesis
  proof (cases "tsRateInterval ts")
    case None
    then show ?thesis by (simp add: SetRateInterval_def hasBetterRateIntervalThan_def rit m Let_def)
  next
    case (Some own)
    then obtain o' where "timing_left own (tsTimeStart ts) = Inr o'"
      using interval_margins(1) [of own "tsTimeStart ts"] assms(2) by (auto simp: rated_ok_def)
    with Some show ?thesis by (simp add: SetRateInterval_def hasBetterRateIntervalThan_def rit m Let_def)
  qed
qed

lemma rated_ok_set: "SetRateInterval ts i = Inr ts' \<Longrightarrow> interval_ok i \<Longrightarrow> rated_ok ts \<Longrightarrow> rated_ok ts'"
  by (auto simp: rated_ok_def dest!: SetRateInterval_cases)

lemma rated_ok_cut:
  "cut_span ris ts t = (a, b) \<Longrightarrow> rated_ok a = rated_ok ts \<and> rated_ok b"
  by (auto simp: cut_span_def Let_def rated_ok_def SetNewDurationIndex_def new_TimeSpan_def)

lemma SplitByRateInterval_total:
  assumes ok: "interval_ok i" and r: "rated_ok ts"
  shows "\<exists>a nb. SplitByRateInterval ris ts i data = Inr (a, nb)"
proof -
  obtain s e where se: "ri_Contains i (tsTimeStart ts) False = Inr s" "ri_Contains i (tsTimeEnd ts) True = Inr e"
    using interval_margins(2) [OF ok] by metis
  obtain rit m where rit: "riTiming i = Some rit" "getRightMargin rit (tsTimeStart ts) = Inr m"
    using interval_margins(3) [OF ok] by blast
  obtain l where l: "getLeftMargin rit (tsTimeEnd ts) = Inr l" using interval_margins(1) [OF ok, of "tsTimeEnd ts"] rit(1) by (auto simp: timing_left_def)
  obtain ts1 where t1: "SetRateInterval ts i = Inr ts1" using SetRateInterval_total [OF ok r] by blast
  have n: "\<exists>b'. SetRateInterval (snd (cut_span ris x t)) i = Inr b'" for x t
    using SetRateInterval_total [OF ok] rated_ok_cut [of ris x t] by (metis prod.collapse)
  obtain b1 where b1: "SetRateInterval (snd (cut_span ris ts1 t)) i = Inr (b1 t)" for t using n by metis
  obtain b2 where b2: "SetRateInterval (snd (cut_span ris ts t)) i = Inr (b2 t)" for t using n by metis
  show ?thesis
    by (auto simp: SplitByRateInterval_def se rit l t1 Let_def split_def b1 b2 split: option.splits)
qed

lemma rated_ok_split:
  assumes "SplitByRateInterval ris ts i data = Inr (a, nb)" and "interval_ok i" and "rated_ok ts"
  shows "rated_ok a \<and> (case nb of None \<Rightarrow> True | Some b \<Rightarrow> rated_ok b)"
proof (cases nb)
  case None
  then show ?thesis using assms SplitByRateInterval_None [of ris ts i data a] by (auto simp: rated_ok_def)
next
  case (Some b)
  then obtain t ts1 b0 where "ts1 = ts \<or> ts1 = ts\<lparr>tsRateInterval := Some i\<rparr>" "cut_span ris ts1 t = (a, b0)"
    "b = b0 \<or> b = b0\<lparr>tsRateInterval := Some i\<rparr>" using SplitByRateInterval_Some assms(1) by metis
  with Some assms(2,3) rated_ok_cut [of ris ts1 t a b0] show ?thesis by (auto simp: rated_ok_def)
qed

text \<open>A span ready to be rated: for voice it lies within a day and has whole seconds.\<close>

definition ready :: "bool \<Rightarrow> nat \<Rightarrow> TimeSpan \<Rightarrow> bool" where
  "ready data k ts \<longleftrightarrow> (data \<or> one_day ts) \<and> rated_ok ts \<and> tsratingInfo ts = Some k"

text \<open>The call: it ends at \<open>e\<close> with the duration index \<open>d\<close>.\<close>

definition call_ok :: "bool \<Rightarrow> duration \<Rightarrow> gotime \<Rightarrow> gotime \<Rightarrow> bool" where
  "call_ok data d s e \<longleftrightarrow> e - s \<le> d \<and> is_int64 d \<and> (data \<or> whole_s d \<and> whole_s s \<and> whole_s e)"

lemma index_ok_call:
  "call_spans d s e tss \<Longrightarrow> ts \<in> set tss \<Longrightarrow> e - s \<le> d \<Longrightarrow> is_int64 d \<Longrightarrow> index_ok ts"
  using chain_bounds [of s tss e ts] by (auto simp: call_spans_def index_ok_def indexed_def list_all_iff is_int64_def)

lemma next_midnight_mono: "t \<le> u \<Longrightarrow> next_midnight t \<le> next_midnight u"
proof -
  assume "t \<le> u"
  then have "t div day_ns + 1 \<le> u div day_ns + 1" by (simp add: zdiv_mono1 day_ns_def)
  then show ?thesis unfolding next_midnight_def by (rule mult_right_mono) (simp add: day_ns_def)
qed

lemma one_day_parts: "divides ts a b \<Longrightarrow> one_day ts \<Longrightarrow> whole_s (tsTimeStart b) \<Longrightarrow> one_day a \<and> one_day b"
  using next_midnight_mono [of "tsTimeStart ts" "tsTimeStart b"] by (auto simp: divides_def one_day_def)

lemma GetGroupStart_exact:
  assumes "index_ok ts" and "tsTimeEnd ts - tsTimeStart ts \<le> tsDurationIndex ts"
  shows "GetGroupStart ts = tsDurationIndex ts - (tsTimeEnd ts - tsTimeStart ts)"
proof -
  have "is_int64 (tsDurationIndex ts - (tsTimeEnd ts - tsTimeStart ts))" using assms by (simp add: index_ok_def is_int64_def)
  then show ?thesis using assms by (simp add: GetGroupStart_def Let_def ts_GetDuration_def time_Sub_exact index_ok_def)
qed

lemma cut_whole:
  assumes "cut_reason i False ts t" and "interval_ok i" and "one_day ts" and "index_ok ts"
    and "tsTimeEnd ts - tsTimeStart ts \<le> tsDurationIndex ts" and "whole_s (tsDurationIndex ts)"
  shows "whole_s t"
proof -
  have w: "whole_s (tsTimeStart ts)" "whole_s (tsTimeEnd ts)" using assms(3) by (simp_all add: one_day_def)
  obtain rit where rit: "riTiming i = Some rit" "margin_ok (rtStartTime rit)" "margin_ok (rtEndTime rit)"
    using assms(2) by (auto simp: interval_ok_def split: option.splits)
  from rit(2,3) obtain l r where lr: "whole_s l" "whole_s r" "0 \<le> l" "l \<le> day_ns"
    and m: "\<forall>t. getLeftMargin rit t = Inr (t div day_ns * day_ns + l)" "\<forall>t. getRightMargin rit t = Inr (t div day_ns * day_ns + r)"
    by (rule getMargins)
  from assms(1) consider (group) rir rate where "riRating i = Some rir" "rate \<in> set (rrRates rir)"
      "GetGroupStart ts < GroupIntervalStart rate" "GroupIntervalStart rate < GetGroupEnd ts"
      "t = time_Add (tsTimeStart ts) (wrap64 (GroupIntervalStart rate - GetGroupStart ts))"
    | (right) "getRightMargin rit (tsTimeStart ts) = Inr t"
    | (left) left where "getLeftMargin rit (tsTimeEnd ts) = Inr left" "t = CopyHour left (tsTimeStart ts)"
    using rit(1) by (auto simp: cut_reason_def)
  then show ?thesis
  proof cases
    case group
    have "whole_s (GroupIntervalStart rate)" using assms(2) group(1,2) by (auto simp: interval_ok_def list_all_iff)
    moreover have "whole_s (GetGroupStart ts)" using GetGroupStart_exact [OF assms(4,5)] assms(6) w by simp
    moreover have "is_int64 (GroupIntervalStart rate - GetGroupStart ts)"
      using group(3,4) GetGroupStart_exact [OF assms(4,5)] assms(4) by (simp add: GetGroupEnd_def index_ok_def is_int64_def)
    ultimately show ?thesis using w by (simp add: group(5) time_Add_def)
  next
    case right
    then have "t = tsTimeStart ts div day_ns * day_ns + r" by (simp add: m)
    then show ?thesis using lr(2) whole_s_day by simp
  next
    case left
    then have l: "left = tsTimeEnd ts div day_ns * day_ns + l" by (simp add: m)
    have "whole_s left" using l lr(1) whole_s_day by simp
    then have "Nanosecond left = 0" by (simp add: Nanosecond_def)
    then show ?thesis using \<open>whole_s left\<close> by (auto simp: left(2) CopyHour_def Date_def day_ns_def)
  qed
qed

lemma setRatingInfo_simps [simp]:
  "tsTimeStart (setRatingInfo ris k ts) = tsTimeStart ts" "tsTimeEnd (setRatingInfo ris k ts) = tsTimeEnd ts"
  "tsDurationIndex (setRatingInfo ris k ts) = tsDurationIndex ts" "tsRateInterval (setRatingInfo ris k ts) = tsRateInterval ts"
  "tsratingInfo (setRatingInfo ris k ts) = Some k" "tsIncrements (setRatingInfo ris k ts) = tsIncrements ts"
  by (simp_all add: setRatingInfo_def)

lemma one_day_cong: "tsTimeStart a = tsTimeStart b \<Longrightarrow> tsTimeEnd a = tsTimeEnd b \<Longrightarrow> one_day a = one_day b"
  by (simp add: one_day_def)

lemma divides_setRatingInfo [simp]: "divides ts a b \<Longrightarrow> tsratingInfo ts = Some k \<Longrightarrow> divides ts a (setRatingInfo ris k b)"
  by (simp add: divides_def)

lemma call_span_index:
  assumes "call_spans d s e (pre @ ts # rest)" and "call_ok data d s e"
  shows "index_ok ts" "tsTimeEnd ts - tsTimeStart ts \<le> tsDurationIndex ts"
    "\<not> data \<Longrightarrow> whole_s (tsTimeEnd ts) \<Longrightarrow> whole_s (tsDurationIndex ts)"
proof -
  have t: "ts \<in> set (pre @ ts # rest)" by simp
  show "index_ok ts" using index_ok_call [OF assms(1) t] assms(2) by (simp add: call_ok_def)
  have i: "tsDurationIndex ts = d - (e - tsTimeEnd ts)" using assms(1) by (simp add: call_spans_def indexed_def)
  show "tsTimeEnd ts - tsTimeStart ts \<le> tsDurationIndex ts"
    using i assms chain_bounds [of s "pre @ ts # rest" e ts] by (simp add: call_spans_def call_ok_def)
  show "\<not> data \<Longrightarrow> whole_s (tsTimeEnd ts) \<Longrightarrow> whole_s (tsDurationIndex ts)" using i assms(2) by (simp add: call_ok_def)
qed

lemma split_ready:
  assumes "SplitByRateInterval ris ts i data = Inr (a, nb)" and i: "interval_ok i" and r: "ready data k ts"
    and c: "call_spans d s e (pre @ ts # rest)" and ok: "call_ok data d s e"
  shows "ready data k a \<and> call_spans d s e (pre @ a # (case nb of None \<Rightarrow> rest | Some b \<Rightarrow> b # rest))
    \<and> (case nb of None \<Rightarrow> True | Some b \<Rightarrow> ready data k b \<and> divides ts a b)"
proof -
  note I = call_span_index [OF c ok]
  have f: "rate_fit i data ts" using I(1) r i by (auto simp: rate_fit_def ready_def)
  have rr: "rated_ok a" "case nb of None \<Rightarrow> True | Some b \<Rightarrow> rated_ok b"
    using rated_ok_split [OF assms(1) i] r by (auto simp: ready_def)
  have cs: "call_spans d s e (pre @ a # (case nb of None \<Rightarrow> rest | Some b \<Rightarrow> b # rest))"
    using by_rate.split_call [of "(ris, i, data)" ts a nb] assms(1) f c ok by (simp add: call_ok_def)
  show ?thesis
  proof (cases nb)
    case None
    then have "keeps ts a" using by_rate.split_one [of "(ris, i, data)" ts a] assms(1) by simp
    then show ?thesis using None r rr cs one_day_cong [of a ts] by (auto simp: ready_def keeps_def)
  next
    case (Some b)
    then have d: "divides ts a b" using by_rate.split_two [of "(ris, i, data)" ts a b] assms(1) f by simp
    have "data \<or> one_day a \<and> one_day b"
    proof (cases data)
      case False
      obtain t ts1 b0 where x: "cut_span ris ts1 t = (a, b0)" "b = b0 \<or> b = b0\<lparr>tsRateInterval := Some i\<rparr>" "cut_reason i data ts t"
        using SplitByRateInterval_Some assms(1) Some by metis
      have "tsTimeStart b = t" using x(1,2) by (auto simp: cut_span_def Let_def new_TimeSpan_def)
      moreover have "whole_s t" using cut_whole [of i ts t] x(3) i r I False by (auto simp: ready_def one_day_def)
      ultimately show ?thesis using one_day_parts [OF d] r False by (simp add: ready_def)
    qed simp
    then show ?thesis using Some r rr cs d by (auto simp: ready_def divides_def)
  qed
qed

lemma interval_loop_ok:
  assumes "list_all interval_ok intervals" and "ready data k ts" and "list_all (ready data k) new"
    and "call_spans d s e (pre @ ts # new @ rest)" and "call_ok data d s e"
  shows "\<exists>ts' new'. interval_loop ris data k ts new intervals = Inr (ts', new') \<and> ready data k ts' \<and> list_all (ready data k) new'
    \<and> call_spans d s e (pre @ ts' # new' @ rest)"
  using assms(1-4)
proof (induction intervals arbitrary: ts new)
  case (Cons i intervals)
  then have i: "interval_ok i" "list_all interval_ok intervals" by simp_all
  obtain a nb where a: "SplitByRateInterval ris ts i data = Inr (a, nb)"
    using SplitByRateInterval_total [OF i(1), of ts ris data] Cons.prems(2) by (auto simp: ready_def)
  note R = split_ready [OF a i(1) Cons.prems(2,4) assms(5)]
  show ?case
  proof (cases nb)
    case None
    then show ?thesis using Cons.IH [OF i(2) _ Cons.prems(3), of a] R a by simp
  next
    case (Some b)
    let ?b = "setRatingInfo ris k b"
    have "ready data k ?b" "call_spans d s e (pre @ a # ?b # new @ rest)"
      using R Some one_day_cong [of ?b b] by (auto simp: ready_def rated_ok_def call_spans_def chain_append indexed_def)
    then show ?thesis using Cons.IH [OF i(2), of a "?b # new"] R Some a Cons.prems(3) by (auto simp: Let_def)
  qed
qed simp

definition infos_ok :: "RatingInfo list \<Rightarrow> bool" where
  "infos_ok ris \<longleftrightarrow> list_all (\<lambda>ri. info_intervals ri \<noteq> [] \<and> list_all interval_ok (info_intervals ri)) ris"

lemma rate_span_ok:
  assumes "infos_ok ris" and "k < length ris" and "ready data k ts"
    and "call_spans d s e (pre @ ts # rest)" and "call_ok data d s e"
  shows "\<exists>ris' ts' new. rate_span data ris ts = Inr (ris', ts', new) \<and> infos_ok ris' \<and> length ris' = length ris
    \<and> ready data k ts' \<and> list_all (ready data k) new \<and> call_spans d s e (pre @ ts' # new @ rest)"
proof -
  from assms(1,2) have k: "info_intervals (ris ! k) \<noteq> []" "list_all interval_ok (info_intervals (ris ! k))"
    by (auto simp: infos_ok_def list_all_length)
  obtain sorted sel where sel: "SelectRatingIntevalsForTimespan (ris ! k) ts = Inr (sorted, sel)"
    "set sorted = set (info_intervals (ris ! k))" "set sel \<subseteq> set (info_intervals (ris ! k))"
    using Select_total [OF k(2,1)] by blast
  let ?ris = "ris[k := (ris ! k)\<lparr>rfRateIntervals := Some sorted\<rparr>]"
  have s: "list_all interval_ok sel" "list_all interval_ok sorted" "sorted \<noteq> []" using sel k by (auto simp: list_all_iff)
  obtain ts' new where l: "interval_loop ?ris data k ts [] sel = Inr (ts', new)" "ready data k ts'" "list_all (ready data k) new"
    "call_spans d s e (pre @ ts' # new @ rest)"
    using interval_loop_ok [OF s(1) assms(3), of "[]" d s e pre rest ?ris] assms(4,5) by auto
  have "infos_ok ?ris"
    unfolding infos_ok_def list_all_iff
  proof
    fix ri assume "ri \<in> set ?ris"
    then have "ri \<in> set ris \<or> ri = (ris ! k)\<lparr>rfRateIntervals := Some sorted\<rparr>" using set_update_subset_insert by fastforce
    then show "info_intervals ri \<noteq> [] \<and> (\<forall>x\<in>set (info_intervals ri). interval_ok x)"
      using assms(1) s by (auto simp: infos_ok_def list_all_iff info_intervals_def)
  qed
  then show ?thesis using l sel(1) assms(3) by (simp add: rate_span_def ready_def)
qed

lemma rates_loop_ok:
  assumes "infos_ok ris" and "k < length ris" and "list_all (ready data k) todo" and "list_all (ready data k) prev"
    and "call_spans d s e (rev prev @ todo)" and "call_ok data d s e"
  shows "\<exists>ris' tss. rates_loop data (ris, prev, todo) = Some (Inr (ris', tss)) \<and> list_all (ready data k) tss
    \<and> call_spans d s e tss \<and> length ris' = length ris"
  using assms(1-5)
proof (induction "nat (spans_ns todo)" arbitrary: ris prev todo rule: less_induct)
  case less
  show ?case
  proof (cases todo)
    case Nil
    then show ?thesis using less.prems by (simp add: rates_loop.simps rates_step_def)
  next
    case (Cons ts rest)
    with less.prems have "ready data k ts" "list_all (ready data k) rest" "call_spans d s e (rev prev @ ts # rest)" by simp_all
    from rate_span_ok [OF less.prems(1,2) this(1,3) assms(6)] obtain ris' ts' new where
      r: "rate_span data ris ts = Inr (ris', ts', new)" "infos_ok ris'" "length ris' = length ris" "ready data k ts'"
        "list_all (ready data k) new" "call_spans d s e (rev prev @ ts' # new @ rest)" by blast
    have m: "spans_ns (rev prev @ todo) = spans_ns (rev prev @ ts' # new @ rest)"
      using less.prems(5) r(6) chain_spans_ns by (metis call_spans_def)
    have pos: "tsTimeStart ts' < tsTimeEnd ts'" using r(6) by (auto simp: call_spans_def chain_append)
    obtain mid where "chain mid (new @ rest) e" using r(6) by (auto simp: call_spans_def chain_append)
    then have "0 \<le> spans_ns (new @ rest)" using chain_spans_ns [of mid "new @ rest" e] chain_le by simp
    then have "nat (spans_ns (new @ rest)) < nat (spans_ns todo)" using m pos by simp
    note IH = less.hyps [OF this r(2), of "ts' # prev"]
    have "rates_loop data (ris, prev, todo) = rates_loop data (ris', ts' # prev, new @ rest)"
      by (subst rates_loop.simps) (simp add: rates_step_def r(1) Cons)
    then show ?thesis using IH r less.prems Cons by simp
  qed
qed

subsection \<open>Splitting by days and by rating plans\<close>

text \<open>The times between which the day split works: within a day, or less than four weeks and not ending at
  midnight.\<close>

definition day_splittable :: "gotime \<Rightarrow> gotime \<Rightarrow> bool" where
  "day_splittable s e \<longleftrightarrow> e \<le> next_midnight s \<or> \<not> TimeIs0h e \<and> e div day_ns \<le> s div day_ns + 27"

lemma next_midnight_day: "next_midnight s div day_ns = s div day_ns + 1"
  by (simp add: next_midnight_def day_ns_def)

lemma whole_next_midnight: "whole_s (next_midnight s)"
  unfolding next_midnight_def by (rule whole_s_day)

lemma SplitByDay_None:
  "SplitByDay ris ts = (a, None) \<Longrightarrow> a = ts \<and> (Day (tsTimeStart ts) = Day (tsTimeEnd ts) \<or> TimeIs0h (tsTimeEnd ts))"
  by (cases "cut_span ris ts (next_midnight (tsTimeStart ts))") (auto simp: SplitByDay_at split: if_splits)

lemma SplitByDay_Some:
  "SplitByDay ris ts = (a, Some b) \<Longrightarrow> Day (tsTimeStart ts) \<noteq> Day (tsTimeEnd ts) \<and> \<not> TimeIs0h (tsTimeEnd ts)
    \<and> cut_span ris ts (next_midnight (tsTimeStart ts)) = (a, b)"
  by (cases "cut_span ris ts (next_midnight (tsTimeStart ts))") (auto simp: SplitByDay_at split: if_splits)

lemma day_after: "next_midnight s \<le> e \<Longrightarrow> s div day_ns < e div day_ns"
  using next_midnight_day [of s] zdiv_mono1 [of "next_midnight s" e day_ns] by (simp add: day_ns_def)

lemma splittable_unsplit:
  assumes "day_splittable s e" and "Day s = Day e \<or> TimeIs0h e"
  shows "e \<le> next_midnight s"
proof (rule ccontr)
  assume n: "\<not> e \<le> next_midnight s"
  with assms(1) have "\<not> TimeIs0h e" "e div day_ns \<le> s div day_ns + 27" by (auto simp: day_splittable_def)
  with assms(2) day_after [of s e] n same_Day [of s e] show False by simp
qed

lemma splittable_rest:
  assumes "day_splittable s e" and "Day s \<noteq> Day e" and "\<not> TimeIs0h e" and "s < e"
  shows "next_midnight s \<le> e" "s div day_ns < e div day_ns" "day_splittable (next_midnight s) e"
proof -
  have "s div day_ns \<noteq> e div day_ns" using assms(2) same_day_Day by blast
  then show n: "next_midnight s \<le> e" using later_day assms(4) by blast
  show "s div day_ns < e div day_ns" by (rule day_after [OF n])
  show "day_splittable (next_midnight s) e"
    using assms n next_midnight_mono [of s "next_midnight s"] before_next_midnight [of s]
    by (auto simp: day_splittable_def next_midnight_day)
qed

lemma days_loop_span:
  assumes "call_spans d s e (pre @ ts # rest)" and "call_ok False d s e" and "tsratingInfo ts = Some k"
    and "day_splittable (tsTimeStart ts) (tsTimeEnd ts)" and "whole_s (tsTimeStart ts)" and "whole_s (tsTimeEnd ts)"
    and "tsRateInterval ts = None"
  shows "\<exists>ds. days_loop ris (rev pre) (ts # rest) = days_loop ris (rev (pre @ ds)) rest
    \<and> call_spans d s e (pre @ ds @ rest) \<and> list_all (ready False k) ds"
  using assms(1,3-7)
proof (induction "nat (tsTimeEnd ts div day_ns - tsTimeStart ts div day_ns)" arbitrary: pre ts rule: less_induct)
  case less
  let ?s = "tsTimeStart ts" and ?e = "tsTimeEnd ts"
  have t: "?s < ?e" using less.prems(1) by (auto simp: call_spans_def chain_append)
  obtain a nb where sp: "SplitByDay ris ts = (a, nb)" by (cases "SplitByDay ris ts")
  show ?case
  proof (cases nb)
    case None
    with sp have a: "a = ts" "Day ?s = Day ?e \<or> TimeIs0h ?e" using SplitByDay_None by blast+
    with less.prems t splittable_unsplit have "ready False k ts" by (simp add: ready_def one_day_def rated_ok_def)
    moreover have "days_loop ris (rev pre) (ts # rest) = days_loop ris (rev (pre @ [ts])) rest"
      by (subst days_loop.simps) (simp add: sp None a)
    ultimately show ?thesis using less.prems(1) by (intro exI [of _ "[ts]"]) simp
  next
    case (Some b)
    have nd: "Day ?s \<noteq> Day ?e" "\<not> TimeIs0h ?e" and cut: "cut_span ris ts (next_midnight ?s) = (a, b)"
      using SplitByDay_Some sp Some by blast+
    have dv: "divides ts a b" using by_day.split_two [of ts ris a b] t sp Some by simp
    have b: "tsTimeStart b = next_midnight ?s" "tsRateInterval b = None" "tsRateInterval a = None"
      using cut less.prems(6) by (auto simp: cut_span_def Let_def new_TimeSpan_def SetNewDurationIndex_def)
    let ?b = "setRatingInfo ris k b"
    have cs: "call_spans d s e ((pre @ [a]) @ ?b # rest)"
      using call_spans_divides [OF divides_setRatingInfo [OF dv less.prems(2), of ris] less.prems(1)] assms(2)
      by (simp add: call_ok_def)
    have ab: "tsTimeEnd ?b = ?e" "tsTimeStart ?b = next_midnight ?s" "tsTimeEnd a = next_midnight ?s" "tsTimeStart a = ?s"
      using dv b(1) by (simp_all add: divides_def)
    note R = splittable_rest [OF less.prems(3) nd t]
    then have "nat (tsTimeEnd ?b div day_ns - tsTimeStart ?b div day_ns) < nat (?e div day_ns - ?s div day_ns)"
      using ab by (simp add: next_midnight_day)
    then obtain ds where ds: "days_loop ris (rev (pre @ [a])) (?b # rest) = days_loop ris (rev ((pre @ [a]) @ ds)) rest"
      "call_spans d s e ((pre @ [a]) @ ds @ rest)" "list_all (ready False k) ds"
      using less.hyps [of ?b "pre @ [a]"] cs less.prems(5) b ab whole_next_midnight R(3) by auto
    have "ready False k a"
      using ab b(3) less.prems dv before_next_midnight whole_next_midnight by (auto simp: ready_def one_day_def rated_ok_def divides_def)
    moreover have "days_loop ris (rev pre) (ts # rest) = days_loop ris (rev (pre @ [a])) (?b # rest)"
      by (subst days_loop.simps) (simp add: sp Some less.prems(2))
    ultimately show ?thesis using ds by (intro exI [of _ "a # ds"]) simp
  qed
qed

lemma days_loop_ok:
  assumes "call_spans d s e (pre @ todo)" and "call_ok False d s e" and "list_all (ready False k) pre"
    and "list_all (\<lambda>ts. tsratingInfo ts = Some k \<and> tsRateInterval ts = None \<and> day_splittable (tsTimeStart ts) (tsTimeEnd ts)
      \<and> whole_s (tsTimeStart ts) \<and> whole_s (tsTimeEnd ts)) todo"
  shows "\<exists>tss. days_loop ris (rev pre) todo = Some (Inr tss) \<and> call_spans d s e tss \<and> list_all (ready False k) tss"
  using assms(1,3,4)
proof (induction todo arbitrary: pre)
  case Nil
  then show ?case by (subst days_loop.simps) simp
next
  case (Cons ts rest)
  then obtain ds where "days_loop ris (rev pre) (ts # rest) = days_loop ris (rev (pre @ ds)) rest"
    "call_spans d s e (pre @ ds @ rest)" "list_all (ready False k) ds"
    using days_loop_span [OF Cons.prems(1) assms(2), of k ris] by auto
  with Cons.IH [of "pre @ ds"] Cons.prems show ?case by simp
qed

text \<open>The split by rating plans. With the informations in order of activation at most one split is made, and the
  new span keeps the information of the one it was taken from.\<close>

lemma plan_scan_stop: "tss \<noteq> [] \<Longrightarrow> \<not> ts_Contains (tss ! 0) (rfActivationTime rp) \<Longrightarrow> plan_scan ris rp 0 tss = (tss, True)"
  by (subst plan_scan.simps) (simp add: SplitByRatingPlan_def)

lemma plan_scan_split:
  assumes "ts_Contains ts (rfActivationTime rp)" and "cut_span ris ts (rfActivationTime rp) = (a, b)"
  shows "plan_scan ris rp 0 [ts] = ([a, b], True)"
proof -
  have s: "SplitByRatingPlan ris ts rp = (a, Some b)" using assms by (simp add: SplitByRatingPlan_def)
  have "SplitByRatingPlan ris b rp = (b, None)"
    using SplitByRatingPlan_contains [OF s] by (simp add: SplitByRatingPlan_def)
  then have "plan_scan ris rp (Suc 0) [a, b] = ([a, b], True)" by (subst plan_scan.simps) simp
  then show ?thesis by (subst plan_scan.simps) (simp add: s)
qed

definition plan_cut :: "(nat \<times> RatingInfo) list \<Rightarrow> TimeSpan list \<Rightarrow> bool" where
  "plan_cut rps tss \<longleftrightarrow> length tss = 1 \<or> length tss = 2 \<and> list_all (\<lambda>krp. tsTimeEnd (tss ! 0) \<le> rfActivationTime (snd krp)) rps"

text \<open>The start and the end of a span are those of the call or an activation within it.\<close>

definition cut_times :: "RatingInfo list \<Rightarrow> gotime \<Rightarrow> gotime \<Rightarrow> gotime list" where
  "cut_times ris s e = s # e # filter (\<lambda>t. s < t \<and> t < e) (map rfActivationTime ris)"

definition planned :: "RatingInfo list \<Rightarrow> gotime \<Rightarrow> gotime \<Rightarrow> nat \<Rightarrow> TimeSpan \<Rightarrow> bool" where
  "planned ris s e k ts \<longleftrightarrow> tsratingInfo ts = Some k \<and> tsRateInterval ts = None
     \<and> tsTimeStart ts \<in> set (cut_times ris s e) \<and> tsTimeEnd ts \<in> set (cut_times ris s e)"

lemma plan_loop_ok:
  assumes "call_ok data d s e" and "list_all (\<lambda>krp. fst krp < length ris \<and> snd krp \<in> set ris) rps"
    and "sorted (map (\<lambda>krp. rfActivationTime (snd krp)) rps)"
    and "plan_cut rps tss" and "call_spans d s e tss" and "list_all (planned ris s e k) tss" and "k < length ris"
    and "length tss = 1 \<or> afterStart"
  shows "\<exists>k' < length ris. call_spans d s e (plan_loop ris start afterStart afterEnd rps tss)
    \<and> list_all (planned ris s e k') (plan_loop ris start afterStart afterEnd rps tss)"
  using assms(2-)
proof (induction rps arbitrary: tss afterStart afterEnd k)
  case Nil
  then show ?case by auto
next
  case (Cons krp rps)
  from Cons.prems have c: "fst krp < length ris" "snd krp \<in> set ris"
    "list_all (\<lambda>krp. fst krp < length ris \<and> snd krp \<in> set ris) rps" "sorted (map (\<lambda>krp. rfActivationTime (snd krp)) rps)" by simp_all
  let ?t = "rfActivationTime (snd krp)"
  show ?case
  proof (cases "\<not> afterStart \<and> \<not> afterEnd \<and> ?t < start")
    case True
    with Cons.prems(7) obtain ts where ts: "tss = [ts]" by (auto simp: length_Suc_conv)
    let ?ts = "setRatingInfo ris (fst krp) ts"
    have "call_spans d s e [?ts]" "list_all (planned ris s e (fst krp)) [?ts]"
      using Cons.prems(4,5) by (auto simp: ts call_spans_def indexed_def planned_def)
    from Cons.IH [OF c(3,4) _ this c(1), of afterStart afterEnd] True ts show ?thesis by (simp add: plan_cut_def)
  next
    case False
    note IH = Cons.IH [OF c(3,4), where afterStart = True and afterEnd = "afterEnd \<or> True"]
    have ne: "tss \<noteq> []" using Cons.prems(3) by (auto simp: plan_cut_def)
    show ?thesis
    proof (cases "ts_Contains (tss ! 0) ?t")
      case nc: False
      have "plan_cut rps tss" using Cons.prems(3) by (auto simp: plan_cut_def)
      from IH [OF this Cons.prems(4,5,6)] plan_scan_stop [OF ne nc] False show ?thesis by auto
    next
      case ct: True
      then obtain ts where ts: "tss = [ts]" using Cons.prems(3) by (auto simp: plan_cut_def ts_Contains_def length_Suc_conv)
      obtain a b where ab: "cut_span ris ts ?t = (a, b)" by (cases "cut_span ris ts ?t")
      have dv: "divides ts a b" using cut_span_divides [OF ab] ct by (simp add: ts ts_Contains_def)
      have b: "tsTimeStart b = ?t" "tsRateInterval b = None" "tsRateInterval a = tsRateInterval ts"
        using ab by (auto simp: cut_span_def Let_def new_TimeSpan_def SetNewDurationIndex_def)
      have "call_spans d s e [a, b]"
        using call_spans_divides [OF dv, of d s e "[]" "[]"] Cons.prems(4) assms(1) by (simp add: ts call_ok_def)
      moreover have "s < ?t \<and> ?t < e" using ct Cons.prems(4) by (auto simp: ts ts_Contains_def call_spans_def)
      then have "?t \<in> set (cut_times ris s e)" using c(2) by (auto simp: cut_times_def)
      then have "list_all (planned ris s e k) [a, b]" using Cons.prems(5) dv b by (auto simp: ts planned_def divides_def)
      moreover have "plan_cut rps [a, b]" using Cons.prems(2) dv b(1) by (auto simp: plan_cut_def divides_def list_all_iff)
      ultimately show ?thesis using IH [of "[a, b]" k] Cons.prems(6) plan_scan_split [OF _ ab] ct False by (auto simp: ts)
    qed
  qed
qed

subsection \<open>Rounding to increments\<close>

lemma overlap_scan_after: "chain m rest v \<Longrightarrow> x \<le> m \<Longrightarrow> overlap_scan x n j rest = (n, rest)"
proof (induction rest arbitrary: m j)
  case (Cons t rest)
  then show ?case using Cons.IH [of "tsTimeEnd t" "Suc j"] by auto
qed simp

definition moved :: "gotime \<Rightarrow> TimeSpan list \<Rightarrow> TimeSpan \<Rightarrow> bool" where
  "moved x rest y \<longleftrightarrow> (\<exists>z \<in> set rest. y = z \<or> y = z\<lparr>tsTimeStart := x\<rparr>)"

lemma overlap_scan_chain:
  assumes "chain m rest v" and "m \<le> x"
  shows "\<exists>c r. overlap_scan x j j rest = (j + c, r) \<and> list_all (moved x rest) (drop c r)
    \<and> (x \<le> v \<longrightarrow> chain x (drop c r) v) \<and> (v \<le> x \<longrightarrow> drop c r = [])"
  using assms
proof (induction rest arbitrary: m j)
  case (Cons t rest)
  show ?case
  proof (cases "tsTimeEnd t \<le> x")
    case True
    then obtain c r where r: "overlap_scan x (Suc j) (Suc j) rest = (Suc j + c, r)" "list_all (moved x rest) (drop c r)"
      "x \<le> v \<longrightarrow> chain x (drop c r) v" "v \<le> x \<longrightarrow> drop c r = []"
      using Cons.IH [of "tsTimeEnd t" "Suc j"] Cons.prems by auto
    moreover have "list_all (moved x (t # rest)) (drop c r)" using r(2) by (auto simp: list_all_iff moved_def)
    ultimately show ?thesis using True by (intro exI [of _ "Suc c"] exI [of _ "t # r"]) (auto simp: order_le_less)
  next
    case nt: False
    with Cons.prems(1) have "x < v" using chain_le [of "tsTimeEnd t" rest v] by auto
    have rest: "list_all (moved x (t # rest)) rest" "moved x (t # rest) t" "moved x (t # rest) (t\<lparr>tsTimeStart := x\<rparr>)"
      by (auto simp: list_all_iff moved_def)
    show ?thesis
    proof (cases "tsTimeStart t < x")
      case True
      then show ?thesis using nt Cons.prems \<open>x < v\<close> rest
        by (intro exI [of _ 0] exI [of _ "t\<lparr>tsTimeStart := x\<rparr> # rest"]) auto
    next
      case False
      then have "overlap_scan x j (Suc j) rest = (j, rest)"
        using Cons.prems nt overlap_scan_after [of "tsTimeEnd t" rest v x j "Suc j"] by auto
      then show ?thesis using nt False Cons.prems \<open>x < v\<close> rest
        by (intro exI [of _ 0] exI [of _ "t # rest"]) auto
    qed
  qed
qed auto

lemma drop_overlaped_chain:
  assumes "chain m rest v" and "m \<le> x"
  shows "list_all (moved x rest) (drop_overlaped x rest)" "x \<le> v \<Longrightarrow> chain x (drop_overlaped x rest) v" "v \<le> x \<Longrightarrow> drop_overlaped x rest = []"
  using overlap_scan_chain [OF assms, of 0] by (auto simp: drop_overlaped_def)

lemma rate_increment_cases:
  assumes "interval_ok i" and "rate_params i g = (p, inc, u)"
  shows "inc = -1 \<or> 0 < inc \<and> inc \<le> 2 ^ 52"
proof (cases "riRating i")
  case None
  then show ?thesis using assms(2) by (simp add: GetRateParameters_def)
next
  case (Some rir)
  let ?rates = "RateGroups_Sort (rrRates rir)"
  show ?thesis
  proof (cases "rate_scan g ?rates")
    case None
    then show ?thesis using rate_params_scan [OF Some, of g] assms(2) by simp
  next
    case s: (Some x)
    obtain rates' r where x: "rate_scan g ?rates = Some (rates', r)" using s by (cases x) auto
    then obtain q where "q \<in> set (rrRates rir)" "r = set_defaults q"
      using rate_scan_Some [OF RateGroups_Sort_sorted x] by auto
    moreover have "inc = RateIncrement r" using rate_params_scan [OF Some, of g] x assms(2) by simp
    ultimately show ?thesis using assms(1) Some by (auto simp: interval_ok_def list_all_iff set_defaults_def)
  qed
qed

definition rounded :: "TimeSpan \<Rightarrow> bool" where
  "rounded ts \<longleftrightarrow> (case tsRateInterval ts of
     None \<Rightarrow> True
   | Some ri \<Rightarrow> (case rate_params ri (GetGroupStart ts) of
                   (_, inc, _) \<Rightarrow> inc > 0 \<longrightarrow> inc dvd (tsTimeEnd ts - tsTimeStart ts)))"

text \<open>The span to be rounded: its end is at most \<open>2 ^ 52\<close> ns after its start, its index far from overflow.\<close>

definition small :: "TimeSpan \<Rightarrow> bool" where
  "small ts \<longleftrightarrow> tsTimeStart ts < tsTimeEnd ts \<and> tsTimeEnd ts - tsTimeStart ts \<le> 2 ^ 52
     \<and> tsTimeEnd ts - tsTimeStart ts \<le> tsDurationIndex ts \<and> tsDurationIndex ts \<le> 2 ^ 62"

lemma increment_rounded:
  assumes "interval_ok i" and "rate_params i g = (p, inc, u)" and "0 < d" and "d \<le> 2 ^ 52"
  defines "r \<equiv> (if inc < d then RoundDuration inc d else inc)"
  shows "inc = -1 \<and> r = d \<or> 0 < inc \<and> inc dvd r \<and> d \<le> r \<and> r \<le> 2 ^ 53"
proof (cases "0 < inc")
  case True
  then have "inc \<le> 2 ^ 52" using rate_increment_cases [OF assms(1,2)] by simp
  then have "inc + d \<le> 2 ^ 53" using assms(4) by simp
  then have "inc dvd RoundDuration inc d \<and> d \<le> RoundDuration inc d \<and> RoundDuration inc d < d + inc"
    using True assms(3) by (intro RoundDuration_multiple) simp_all
  then show ?thesis using True \<open>inc + d \<le> 2 ^ 53\<close> \<open>inc \<le> 2 ^ 52\<close> by (auto simp: r_def)
next
  case False
  then have "inc = -1" using rate_increment_cases [OF assms(1,2)] by simp
  moreover have "RoundDuration (-1) d = d"
    using assms(3,4) by (simp add: RoundDuration_def Let_def float_of_int_exact feq_def trunc_rat_def)
  ultimately show ?thesis using assms(3) by (simp add: r_def)
qed

lemma round_span_cases:
  assumes "rated_ok ts" and "small ts"
  shows "case round_span ts of
      None \<Rightarrow> rounded ts
    | Some ts' \<Rightarrow> rounded ts' \<and> tsTimeStart ts' = tsTimeStart ts \<and> tsTimeEnd ts < tsTimeEnd ts' \<and> tsratingInfo ts' = tsratingInfo ts"
proof (cases "tsRateInterval ts")
  case None
  then show ?thesis by (simp add: round_span_def rounded_def)
next
  case (Some ri)
  let ?d = "tsTimeEnd ts - tsTimeStart ts" and ?g = "GetGroupStart ts"
  have d: "0 < ?d" "?d \<le> 2 ^ 52" "index_ok ts" "?d \<le> tsDurationIndex ts" "tsDurationIndex ts \<le> 2 ^ 62"
    using assms(2) by (simp_all add: small_def index_ok_def is_int64_def)
  have dur: "ts_GetDuration ts = ?d" using d(3) by (simp add: ts_GetDuration_def time_Sub_exact index_ok_def)
  obtain p inc u where r: "rate_params ri ?g = (p, inc, u)" by (cases "rate_params ri ?g")
  have ok: "interval_ok ri" using assms(1) Some by (simp add: rated_ok_def)
  let ?inc = "if inc < ?d then RoundDuration inc ?d else inc"
  note i = increment_rounded [OF ok r d(1,2)]
  show ?thesis
  proof (cases "?inc > ?d")
    case True
    let ?ts = "ts\<lparr>tsTimeEnd := time_Add (tsTimeStart ts) ?inc, tsDurationIndex := wrap64 (tsDurationIndex ts + wrap64 (?inc - ?d))\<rparr>"
    have s: "round_span ts = Some ?ts" using True by (simp add: round_span_def Some r dur Let_def)
    have n: "is_int64 (?inc - ?d)" "is_int64 (tsDurationIndex ts + (?inc - ?d))" using i True d by (auto simp: is_int64_def)
    then have x: "tsTimeEnd ?ts - tsTimeStart ?ts = ?inc" "tsDurationIndex ?ts = tsDurationIndex ts + (?inc - ?d)"
      by (simp_all add: time_Add_def)
    have "index_ok ?ts" using x n d i True by (auto simp: index_ok_def is_int64_def time_Add_def)
    then have "GetGroupStart ?ts = ?g" using GetGroupStart_exact [of ?ts] GetGroupStart_exact [OF d(3,4)] x d(4) by simp
    then have "rounded ?ts" using i True Some r x(1) by (auto simp: rounded_def)
    then show ?thesis using s True by (simp add: time_Add_def)
  next
    case False
    then have "round_span ts = None" by (simp add: round_span_def Some r dur Let_def)
    moreover have "inc > 0 \<longrightarrow> inc dvd ?d" using i False by auto
    ultimately show ?thesis using Some r by (simp add: rounded_def)
  qed
qed

lemma round_loop_ok:
  assumes "chain m tss e" and "list_all rated_ok tss" and "\<forall>ts \<in> set tss. indexed d e ts \<and> tsratingInfo ts = Some k"
    and "e - m \<le> d" and "d \<le> 2 ^ 62" and "e - m \<le> 2 ^ 52"
  shows "\<exists>e'. e \<le> e' \<and> chain m (roundTimeSpansToIncrement tss) e'
    \<and> list_all (\<lambda>ts. rounded ts \<and> tsratingInfo ts = Some k) (roundTimeSpansToIncrement tss)"
  using assms(1-4,6)
proof (induction tss arbitrary: m rule: roundTimeSpansToIncrement.induct)
  case (2 ts rest)
  from "2.prems" have c: "tsTimeStart ts = m" "m < tsTimeEnd ts" "chain (tsTimeEnd ts) rest e" "rated_ok ts" "list_all rated_ok rest"
    "indexed d e ts" "tsratingInfo ts = Some k" "\<forall>ts \<in> set rest. indexed d e ts \<and> tsratingInfo ts = Some k" by simp_all
  have le: "tsTimeEnd ts \<le> e" by (rule chain_le [OF c(3)])
  have "small ts" using c le "2.prems"(4,5) assms(5) by (simp add: small_def indexed_def)
  note R = round_span_cases [OF c(4) this]
  show ?case
  proof (cases "round_span ts")
    case None
    then show ?thesis using "2.IH"(1) [OF None c(3,5,8)] R c le "2.prems"(4,5) by auto
  next
    case (Some ts')
    let ?x = "tsTimeEnd ts'"
    have r: "rounded ts'" "tsTimeStart ts' = m" "tsTimeEnd ts < ?x" "tsratingInfo ts' = Some k" using R c by (simp_all add: Some)
    note D = drop_overlaped_chain [OF c(3), of ?x]
    show ?thesis
    proof (cases "?x \<le> e")
      case True
      have "list_all rated_ok (drop_overlaped ?x rest)"
        "\<forall>ts \<in> set (drop_overlaped ?x rest). indexed d e ts \<and> tsratingInfo ts = Some k"
        using D(1) r(3) c(5,8) by (auto simp: list_all_iff moved_def rated_ok_def indexed_def)
      from "2.IH"(2) [OF Some D(2) [OF _ True] this] True r c(2) "2.prems"(4,5) show ?thesis by (auto simp: Some)
    next
      case False
      then have "drop_overlaped ?x rest = []" using D(3) r(3) by simp
      then show ?thesis using r c(2) False by (auto simp: Some)
    qed
  qed
qed auto

subsection \<open>Properties\<close>

text \<open>The conditions under which the split is analysed; this is not code. A voice call in whole seconds whose rating informations are in order of activation and have well formed
  intervals. The call and its parts between activations are within a day, or shorter than four weeks
  and not ending at midnight; it is shorter than 52 days.\<close>

definition voice_call :: "CallDescriptor \<Rightarrow> bool" where
  "voice_call cd \<longleftrightarrow> cdToR cd = VOICE \<and> cdTimeStart cd < cdTimeEnd cd
     \<and> cdTimeEnd cd - cdTimeStart cd \<le> 2 ^ 52 \<and> cdDurationIndex cd \<le> 2 ^ 62
     \<and> call_ok False (cdDurationIndex cd) (cdTimeStart cd) (cdTimeEnd cd)
     \<and> cdRatingInfos cd \<noteq> [] \<and> infos_ok (cdRatingInfos cd) \<and> sorted (map rfActivationTime (cdRatingInfos cd))
     \<and> (let ts = cut_times (cdRatingInfos cd) (cdTimeStart cd) (cdTimeEnd cd)
         in list_all (\<lambda>u. whole_s u \<and> list_all (\<lambda>v. u < v \<longrightarrow> day_splittable u v) ts) ts)"

lemma split_voice:
  assumes "voice_call cd"
  shows "\<exists>cd' tss k. splitInTimeSpans cd = Some (Inr (cd', roundTimeSpansToIncrement tss))
    \<and> call_spans (cdDurationIndex cd) (cdTimeStart cd) (cdTimeEnd cd) tss \<and> list_all (ready False k) tss"
proof -
  let ?s = "cdTimeStart cd" and ?e = "cdTimeEnd cd" and ?d = "cdDurationIndex cd" and ?ris = "cdRatingInfos cd"
  let ?first = "setRatingInfo ?ris 0 ((new_TimeSpan ?s ?e)\<lparr>tsDurationIndex := ?d\<rparr>)"
  from assms have v: "cdToR cd = VOICE" "?s < ?e" "call_ok False ?d ?s ?e" "?ris \<noteq> []" "infos_ok ?ris"
    "sorted (map rfActivationTime ?ris)"
    and u: "\<And>u v. u \<in> set (cut_times ?ris ?s ?e) \<Longrightarrow> v \<in> set (cut_times ?ris ?s ?e) \<Longrightarrow> u < v \<Longrightarrow> day_splittable u v"
    and w: "\<And>u. u \<in> set (cut_times ?ris ?s ?e) \<Longrightarrow> whole_s u"
    by (auto simp: voice_call_def Let_def list_all_iff)
  have c0: "call_spans ?d ?s ?e [?first]" "list_all (planned ?ris ?s ?e 0) [?first]"
    using v(2) by (auto simp: call_spans_def indexed_def planned_def cut_times_def new_TimeSpan_def)
  have "map (\<lambda>krp. rfActivationTime (snd krp)) (enumerate 0 ?ris) = map rfActivationTime (map snd (enumerate 0 ?ris))"
    by (simp only: map_map o_def)
  then have srt: "sorted (map (\<lambda>krp. rfActivationTime (snd krp)) (enumerate 0 ?ris))" using v(6) by simp
  have "\<exists>k < length ?ris. call_spans ?d ?s ?e (plan_loop ?ris ?s False False (enumerate 0 ?ris) [?first])
      \<and> list_all (planned ?ris ?s ?e k) (plan_loop ?ris ?s False False (enumerate 0 ?ris) [?first])"
    using v(4) c0 srt by (intro plan_loop_ok [OF v(3), of _ _ _ 0]) (auto simp: list_all_iff in_set_enumerate_eq plan_cut_def)
  then obtain k tss1 where p: "k < length ?ris" "plan_loop ?ris ?s False False (enumerate 0 ?ris) [?first] = tss1"
    "call_spans ?d ?s ?e tss1" "list_all (planned ?ris ?s ?e k) tss1" by blast
  have "list_all (\<lambda>ts. tsratingInfo ts = Some k \<and> tsRateInterval ts = None \<and> day_splittable (tsTimeStart ts) (tsTimeEnd ts)
      \<and> whole_s (tsTimeStart ts) \<and> whole_s (tsTimeEnd ts)) tss1"
    using p(4) u w chain_bounds [of ?s tss1 ?e] p(3) by (auto simp: list_all_iff planned_def call_spans_def)
  then obtain tss2 where days: "days_loop ?ris [] tss1 = Some (Inr tss2)" "call_spans ?d ?s ?e tss2" "list_all (ready False k) tss2"
    using days_loop_ok [of ?d ?s ?e "[]" tss1 k ?ris] p(3) v(3) by auto
  then obtain ris' tss where r: "rates_loop False (?ris, [], tss2) = Some (Inr (ris', tss))" "list_all (ready False k) tss"
    "call_spans ?d ?s ?e tss" using rates_loop_ok [OF v(5) p(1) days(3), of "[]" ?d ?s ?e] v(3) by auto
  have "splitInTimeSpans cd = Some (Inr (cd\<lparr>cdRatingInfos := ris'\<rparr>, roundTimeSpansToIncrement tss))"
    using v(1,4) p(2) days(1) r(1) by (simp add: splitInTimeSpans_def Let_def)
  with r show ?thesis by blast
qed

lemma split_voice_rounded:
  assumes "voice_call cd"
  shows "\<exists>cd' tss e k. splitInTimeSpans cd = Some (Inr (cd', tss)) \<and> cdTimeEnd cd \<le> e \<and> chain (cdTimeStart cd) tss e
    \<and> list_all (\<lambda>ts. rounded ts \<and> tsratingInfo ts = Some k) tss"
proof -
  let ?s = "cdTimeStart cd" and ?e = "cdTimeEnd cd" and ?d = "cdDurationIndex cd"
  from split_voice [OF assms] obtain cd' tss k where t: "splitInTimeSpans cd = Some (Inr (cd', roundTimeSpansToIncrement tss))"
    "chain ?s tss ?e" "list_all (indexed ?d ?e) tss" "list_all (ready False k) tss" by (auto simp: call_spans_def)
  have "list_all rated_ok tss" "\<forall>ts \<in> set tss. indexed ?d ?e ts \<and> tsratingInfo ts = Some k"
    using t(3,4) by (auto simp: list_all_iff ready_def)
  from round_loop_ok [OF t(2) this] assms t(1) show ?thesis by (auto simp: voice_call_def call_ok_def)
qed


definition rlx_iv :: "int list \<Rightarrow> string \<Rightarrow> string \<Rightarrow> RateInterval" where
  "rlx_iv wds st en = \<lparr>riTiming = Some \<lparr>rtYears = [], rtMonths = [], rtMonthDays = [], rtWeekDays = wds, rtStartTime = st,
       rtEndTime = en, rtcronString = [], rttag = []\<rparr>,
     riRating = Some \<lparr>rrConnectFee = Fin 0, rrRoundingMethod = ''*up'', rrRoundingDecimals = 4, rrMaxCost = Fin 0,
       rrMaxCostStrategy = [], rrRates = [\<lparr>GroupIntervalStart = 0, rateValue = Fin 1, RateIncrement = 60000000000,
         RateUnit = 60000000000\<rparr>], rrtag = []\<rparr>, riWeight = Fin 10\<rparr>"

definition rlx_info :: "string \<Rightarrow> gotime \<Rightarrow> RateInterval \<Rightarrow> RatingInfo" where
  "rlx_info plan t iv = \<lparr>rfMatchedSubject = ''s'', rfRatingPlanId = plan, rfMatchedPrefix = ''*any'', rfMatchedDestId = ''*any'',
     rfActivationTime = t, rfRateIntervals = Some [iv], rfFallbackKeys = []\<rparr>"

definition rlx_cd :: "gotime \<Rightarrow> gotime \<Rightarrow> RatingInfo list \<Rightarrow> CallDescriptor" where
  "rlx_cd s e ris = new_CallDescriptor\<lparr>cdTimeStart := s, cdTimeEnd := e, cdDurationIndex := e - s, cdToR := VOICE, cdRatingInfos := ris\<rparr>"

text \<open>A call on a Monday from 9:00 to 10:00:30; the rating plan changes at 9:30.\<close>

definition rlx_call :: CallDescriptor where
  "rlx_call = rlx_cd (Date 2020 1 6 9 0 0 0) (Date 2020 1 6 10 0 30 0)
     [rlx_info ''P1'' 0 (rlx_iv [1, 2, 3, 4, 5] ''08:00:00'' []),
      rlx_info ''P2'' (Date 2020 1 6 9 30 0 0) (rlx_iv [1, 2, 3, 4, 5] ''08:00:00'' [])]"

lemma rlx_call_ok: "voice_call rlx_call" "cdTimeStart rlx_call = Date 2020 1 6 9 0 0 0" "cdTimeEnd rlx_call = Date 2020 1 6 10 0 30 0"
  by code_simp+


text \<open>Claim C35. A change of the rating plan during a voice call is not applied: under the conditions of \<open>voice_call\<close> (whole
  seconds, no part over several days that ends at midnight, at most \<open>2 ^ 52\<close> nanoseconds, sorted rating informations) every span
  of the call is rated with one and the same rating information.\<close>

theorem rating_change_ignored:
  assumes "voice_call cd"
  shows "\<exists>cd' tss k. splitInTimeSpans cd = Some (Inr (cd', tss)) \<and> list_all (\<lambda>ts. tsratingInfo ts = Some k) tss"
  using split_voice_rounded [OF assms] by (fastforce simp: list_all_iff)

theorem rating_change_ignored_witness:
  "\<exists>cd' tss k. splitInTimeSpans rlx_call = Some (Inr (cd', tss)) \<and> list_all (\<lambda>ts. tsratingInfo ts = Some k) tss
     \<and> map rfRatingPlanId (cdRatingInfos rlx_call) = [''P1'', ''P2'']"
proof -
  have "map rfRatingPlanId (cdRatingInfos rlx_call) = [''P1'', ''P2'']" by code_simp
  with rating_change_ignored [OF rlx_call_ok(1)] show ?thesis by simp
qed

text \<open>A span that is split into itself and an earlier one keeps the loop from ending.\<close>

lemma rates_loop_stuck:
  assumes "rate_span data ris ts = Inr (ris, a, [ts])"
  shows "rates_loop data (ris, prev, ts # rest) = None"
proof -
  let ?stuck = "\<lambda>d st. d = data \<and> (\<exists>prev rest. st = (ris, prev, ts # rest))"
  have "\<not> ?stuck d st" if "rates_loop d st = Some r" for d st r
  proof (rule rates_loop.raw_induct [where P = "\<lambda>d st r. \<not> ?stuck d st", OF _ that])
    fix f d st r
    assume IH: "\<And>d st r. f d st = Some r \<Longrightarrow> \<not> ?stuck d st"
      and eq: "(case rates_step d st of Inl r \<Rightarrow> Some r | Inr st' \<Rightarrow> f d st') = Some r"
    show "\<not> ?stuck d st"
    proof
      assume "?stuck d st"
      then obtain prev rest where "d = data" "st = (ris, prev, ts # rest)" by blast
      with eq have "f data (ris, a # prev, ts # rest) = Some r" by (simp add: rates_step_def assms)
      from IH [OF this] show False by blast
    qed
  qed
  then show ?thesis by (cases "rates_loop data (ris, prev, ts # rest)") blast+
qed

text \<open>A call from Monday 10:00 to the midnight before Wednesday, with a rate for Tuesdays from 8:00.\<close>

definition rlx_tuesday :: "RatingInfo list" where
  "rlx_tuesday = [rlx_info ''P1'' 0 (rlx_iv [2] ''08:00:00'' [])]"

definition rlx_endless :: CallDescriptor where
  "rlx_endless = rlx_cd (Date 2020 1 6 10 0 0 0) (Date 2020 1 8 0 0 0 0) rlx_tuesday"

definition rlx_span :: TimeSpan where
  "rlx_span = setRatingInfo rlx_tuesday 0 ((new_TimeSpan (Date 2020 1 6 10 0 0 0) (Date 2020 1 8 0 0 0 0))\<lparr>tsDurationIndex := 136800000000000\<rparr>)"

definition rlx_stuck :: TimeSpan where
  "rlx_stuck = setRatingInfo rlx_tuesday 0 ((new_TimeSpan (Date 2020 1 6 8 0 0 0) (Date 2020 1 8 0 0 0 0))\<lparr>tsDurationIndex := 136800000000000,
     tsRateInterval := Some (rlx_iv [2] ''08:00:00'' [])\<rparr>)"

text \<open>The cut of a span of which the interval contains the end only: at the hour of the interval's start, on the
  day of the span's start.\<close>

lemma SplitByRateInterval_end_only:
  assumes "ri_Contains i (tsTimeStart ts) False = Inr False" "ri_Contains i (tsTimeEnd ts) True = Inr True"
    "map_option (\<lambda>rir. group_split ts (RateGroups_Sort (rrRates rir))) (riRating i) = Some None"
    "map_option (\<lambda>rit. getLeftMargin rit (tsTimeEnd ts)) (riTiming i) = Some (Inr left)"
    "CopyHour left (tsTimeStart ts) = s" "s \<noteq> tsTimeEnd ts"
    "SetRateInterval (snd (cut_span ris ts s)) i = Inr nts"
  shows "SplitByRateInterval ris ts i False = Inr (fst (cut_span ris ts s), Some nts)"
  using assms by (auto simp: SplitByRateInterval_def split: option.splits prod.splits)

abbreviation "rlx_rate \<equiv> rlx_iv [2] ''08:00:00'' []"

lemma rlx_select: "SelectRatingIntevalsForTimespan (rlx_tuesday ! 0) rlx_span = Inr ([rlx_rate], [rlx_rate])"
  "SelectRatingIntevalsForTimespan (rlx_tuesday ! 0) rlx_stuck = Inr ([rlx_rate], [rlx_rate])"
  by code_simp+

lemma rlx_contains: "ri_Contains rlx_rate (tsTimeStart rlx_span) False = Inr False"
  "ri_Contains rlx_rate (tsTimeStart rlx_stuck) False = Inr False"
  "ri_Contains rlx_rate (tsTimeEnd rlx_span) True = Inr True" "ri_Contains rlx_rate (tsTimeEnd rlx_stuck) True = Inr True"
  by code_simp+

lemma rlx_groups: "map_option (\<lambda>rir. group_split rlx_span (RateGroups_Sort (rrRates rir))) (riRating rlx_rate) = Some None"
  "map_option (\<lambda>rir. group_split rlx_stuck (RateGroups_Sort (rrRates rir))) (riRating rlx_rate) = Some None"
  by code_simp+

lemma rlx_margin: "map_option (\<lambda>rit. getLeftMargin rit (tsTimeEnd rlx_span)) (riTiming rlx_rate) = Some (Inr (Date 2020 1 8 8 0 0 0))"
  "map_option (\<lambda>rit. getLeftMargin rit (tsTimeEnd rlx_stuck)) (riTiming rlx_rate) = Some (Inr (Date 2020 1 8 8 0 0 0))"
  "CopyHour (Date 2020 1 8 8 0 0 0) (tsTimeStart rlx_span) = Date 2020 1 6 8 0 0 0"
  "CopyHour (Date 2020 1 8 8 0 0 0) (tsTimeStart rlx_stuck) = Date 2020 1 6 8 0 0 0"
  "Date 2020 1 6 8 0 0 0 \<noteq> tsTimeEnd rlx_span" "Date 2020 1 6 8 0 0 0 \<noteq> tsTimeEnd rlx_stuck"
  by code_simp+

lemma rlx_cut:
  "fst (cut_span rlx_tuesday rlx_span (Date 2020 1 6 8 0 0 0)) = rlx_span\<lparr>tsTimeEnd := Date 2020 1 6 8 0 0 0, tsDurationIndex := 0\<rparr>"
  "SetRateInterval (snd (cut_span rlx_tuesday rlx_span (Date 2020 1 6 8 0 0 0))) rlx_rate = Inr rlx_stuck"
  "SetRateInterval (snd (cut_span rlx_tuesday rlx_stuck (Date 2020 1 6 8 0 0 0))) rlx_rate = Inr rlx_stuck"
  by code_simp+

lemmas rlx_split =
  SplitByRateInterval_end_only [OF rlx_contains(1,3) rlx_groups(1) rlx_margin(1,3,5) rlx_cut(2), unfolded rlx_cut(1)]
  SplitByRateInterval_end_only [OF rlx_contains(2,4) rlx_groups(2) rlx_margin(2,4,6) rlx_cut(3)]

lemma rlx_spans: "tsratingInfo rlx_span = Some 0" "tsratingInfo rlx_stuck = Some 0" "tsRateInterval rlx_span = None"
  "setRatingInfo rlx_tuesday 0 rlx_stuck = rlx_stuck" "rlx_tuesday[0 := (rlx_tuesday ! 0)\<lparr>rfRateIntervals := Some [rlx_rate]\<rparr>] = rlx_tuesday"
  by (simp_all add: rlx_span_def rlx_stuck_def setRatingInfo_def rlx_tuesday_def rlx_info_def new_TimeSpan_def)

lemma rlx_step: "rate_span False rlx_tuesday rlx_span = Inr (rlx_tuesday, rlx_span\<lparr>tsTimeEnd := Date 2020 1 6 8 0 0 0, tsDurationIndex := 0\<rparr>, [rlx_stuck])"
  unfolding rate_span_def by (simp add: rlx_spans rlx_select rlx_split del: list_update.simps)

lemma rlx_again: "\<exists>a. rate_span False rlx_tuesday rlx_stuck = Inr (rlx_tuesday, a, [rlx_stuck])"
  unfolding rate_span_def by (simp add: rlx_spans rlx_select rlx_split Let_def)

lemma rlx_days: "days_loop rlx_tuesday [] (plan_loop rlx_tuesday (Date 2020 1 6 10 0 0 0) False False (enumerate 0 rlx_tuesday) [rlx_span]) = Some (Inr [rlx_span])"
  by code_simp

text \<open>Claim C34. Splitting a call by rate intervals need not end. A voice call from Monday 10:00 to the midnight after
  Tuesday, valid for the code, whose only rate is for Tuesdays from 8:00, keeps the engine in the loop:
  the day split leaves the call whole because it ends at midnight, and the interval split then cuts it at
  8:00 of its first day, before it began.\<close>

theorem split_does_not_end:
  "ValidateCallData rlx_endless = None \<and> continousRatingInfos rlx_endless \<and> splitInTimeSpans rlx_endless = None"
proof -
  obtain a where a: "rate_span False rlx_tuesday rlx_stuck = Inr (rlx_tuesday, a, [rlx_stuck])" using rlx_again by blast
  have "rates_loop False (rlx_tuesday, [], [rlx_span]) = None"
    by (subst rates_loop.simps) (simp add: rates_step_def rlx_step rates_loop_stuck [OF a])
  moreover have "setRatingInfo rlx_tuesday 0 ((new_TimeSpan (Date 2020 1 6 10 0 0 0) (Date 2020 1 8 0 0 0 0))
      \<lparr>tsDurationIndex := Date 2020 1 8 0 0 0 0 - Date 2020 1 6 10 0 0 0\<rparr>) = rlx_span" by code_simp
  moreover have "rlx_tuesday \<noteq> []" by (simp add: rlx_tuesday_def)
  ultimately have "splitInTimeSpans rlx_endless = None"
    using rlx_days by (simp add: splitInTimeSpans_def rlx_endless_def rlx_cd_def new_CallDescriptor_def Let_def)
  moreover have "ValidateCallData rlx_endless = None" "continousRatingInfos rlx_endless" by code_simp+
  ultimately show ?thesis by simp
qed

definition rlx_short :: CallDescriptor where
  "rlx_short = rlx_cd (Date 2020 1 6 0 0 0 0) (Date 2020 1 6 0 0 0 500000000) [rlx_info ''P1'' 0 (rlx_iv [1] ''00:00:00'' [])]"

text \<open>A call of half a second at the beginning of a Monday, with a rate for Mondays, is rated as a span of a
  whole day: its end is taken for the end of Sunday, so the span is extended to the end of Monday, and a
  second span of negative length makes up for it.\<close>

theorem short_call_rated_as_a_day:
  "cd_GetDuration rlx_short = 500000000
   \<and> map_option (map_sum id (\<lambda>(cd, tss). map (\<lambda>ts. (ts_GetDuration ts, tsRateInterval ts \<noteq> None, CalculateCost ts)) tss))
       (splitInTimeSpans rlx_short)
     = Some (Inr [(day_ns, True, Fin 1440), (500000000 - day_ns, False, Fin 0)])"
proof -
  have "cd_GetDuration rlx_short = 500000000" by code_simp
  moreover have "map_option (map_sum id (\<lambda>(cd, tss). map (\<lambda>ts. (ts_GetDuration ts, tsRateInterval ts \<noteq> None, CalculateCost ts)) tss))
       (splitInTimeSpans rlx_short)
     = Some (Inr [(day_ns, True, Fin 1440), (500000000 - day_ns, False, Fin 0)])" by code_simp
  ultimately show ?thesis by simp
qed

end
