(* ===== verification/Cost_Laws.thy ===== *)
theory Cost_Laws
  imports Rating_Laws
begin

text \<open>
  The cost of a call: the increments a rated span is divided into, and what \<^verbatim>\<open>GetCost\<close> of \<^verbatim>\<open>engine/calldesc.go\<close> does with
  the spans that no rate interval covers.
\<close>

subsection \<open>Increments\<close>

text \<open>Claim C36. A rated span of a whole number of increments, and of no more of them than \<^verbatim>\<open>MaxIncrements\<close> (above that number
  \<^verbatim>\<open>createIncrementsSlice\<close> makes none), is filled by the increments made for it: they are positive, their durations add up to its
  time, and a debit that stops before any of them cuts the span in two adjacent ones.\<close>

theorem increments_fill_span:
  assumes "tsRateInterval ts = Some ri" and "rate_params ri (GetGroupStart ts) = (p, inc, u)" and "0 < inc"
    and "inc dvd tsTimeEnd ts - tsTimeStart ts" and "tsTimeStart ts \<le> tsTimeEnd ts" and "is_int64 (tsTimeEnd ts - tsTimeStart ts)"
    and "(tsTimeEnd ts - tsTimeStart ts) div inc \<le> maxInc"
  defines "ts' \<equiv> createIncrementsSlice maxInc ts"
  shows "fills ts' \<and> int (length (tsIncrements ts')) * inc = tsTimeEnd ts - tsTimeStart ts
    \<and> (\<forall>n. 0 < n \<and> n < length (tsIncrements ts') \<longrightarrow>
         (\<exists>a b. SplitByIncrement ris ts' (int n) = (a, Some b) \<and> divides ts' a b))"
proof -
  let ?d = "tsTimeEnd ts - tsTimeStart ts"
  have g: "GetGroupStart (ts\<lparr>tsIncrements := []\<rparr>) = GetGroupStart ts" by (simp add: GetGroupStart_def ts_GetDuration_def)
  have d: "ts_GetDuration (ts\<lparr>tsIncrements := []\<rparr>) = ?d" using assms(6) by (simp add: ts_GetDuration_def time_Sub_exact)
  have q: "quot64 ?d inc = ?d div inc"
  proof -
    have "0 \<le> ?d div inc" "?d div inc \<le> ?d" using assms(3,5) int_div_le_self [of ?d inc]
      by (cases "?d = 0"; simp add: pos_imp_zdiv_nonneg_iff)+
    then have "is_int64 (?d div inc)" using assms(6) by (simp add: is_int64_def)
    then show ?thesis using assms(3,5) by (cases "?d = 0") (simp_all add: quot64_def)
  qed
  have inc: "\<exists>i. icDuration i = inc \<and> tsIncrements ts' = replicate (nat (?d div inc)) i"
    using assms(1,2,7)
    by (intro exI [of _ "\<lparr>icDuration = inc, icCost = Round (fdiv (CalculateCost (ts\<lparr>tsIncrements := []\<rparr>)) (float_of_int (?d div inc)))
          globalRoundingDecimals ROUNDING_MIDDLE, icBalanceInfo = Some \<lparr>diUnit = None, diMonetary = None, diAccountID = []\<rparr>,
          icCompressFactor = 0, icpaid = False\<rparr>"]) (simp add: ts'_def createIncrementsSlice_def Let_def g d q)
  have t: "tsTimeStart ts' = tsTimeStart ts" "tsTimeEnd ts' = tsTimeEnd ts"
    by (simp_all add: ts'_def createIncrementsSlice_def Let_def split: option.splits prod.splits)
  have "int (nat (?d div inc)) * inc = ?d" using assms(3-5) by (simp add: pos_imp_zdiv_nonneg_iff)
  with inc t have f: "fills ts'" "int (length (tsIncrements ts')) * inc = ?d"
    using assms(3) by (auto simp: fills_def sum_list_replicate list_all_iff)
  moreover have "\<exists>a b. SplitByIncrement ris ts' (int n) = (a, Some b) \<and> divides ts' a b"
    if n: "0 < n" "n < length (tsIncrements ts')" for n
  proof -
    obtain a b where ab: "SplitByIncrement ris ts' (int n) = (a, Some b)"
      using n by (cases "cut_span ris ts' (GetTimeStartForIncrement ts' n)") (simp add: SplitByIncrement_def)
    then show ?thesis using by_increment.split_two [where p = "(ris, int n)" and ts = ts'] f(1) by auto
  qed
  ultimately show ?thesis by blast
qed

definition clx_span :: TimeSpan where
  "clx_span = (new_TimeSpan 0 180000000000)\<lparr>tsDurationIndex := 180000000000, tsRateInterval := Some rlx_rate\<rparr>"

theorem increments_fill_span_witness:
  "fills (createIncrementsSlice 1000 clx_span)
    \<and> (\<exists>a b. SplitByIncrement [] (createIncrementsSlice 1000 clx_span) 2 = (a, Some b) \<and> divides (createIncrementsSlice 1000 clx_span) a b)"
proof -
  have r: "rate_params rlx_rate (GetGroupStart clx_span) = (Fin 1, 60000000000, 60000000000)" by code_simp
  have f: "tsRateInterval clx_span = Some rlx_rate" "tsTimeStart clx_span = 0" "tsTimeEnd clx_span = 180000000000"
    by (simp_all add: clx_span_def new_TimeSpan_def)
  have "int (length (tsIncrements (createIncrementsSlice 1000 clx_span))) * 60000000000 = 180000000000"
    and a: "fills (createIncrementsSlice 1000 clx_span)"
    and b: "\<forall>n. 0 < n \<and> n < length (tsIncrements (createIncrementsSlice 1000 clx_span)) \<longrightarrow>
      (\<exists>a b. SplitByIncrement [] (createIncrementsSlice 1000 clx_span) (int n) = (a, Some b) \<and> divides (createIncrementsSlice 1000 clx_span) a b)"
    using increments_fill_span [OF f(1) r, of 1000 "[]"] by (simp_all add: f(2,3) is_int64_def)
  then have "length (tsIncrements (createIncrementsSlice 1000 clx_span)) = 3" by linarith
  then show ?thesis using a b [rule_format, of 2] by simp
qed

subsection \<open>Spans without a rate\<close>

lemma total_costs_nil:
  assumes "ts \<in> set tss" and "tsRateInterval ts = None"
  shows "total_costs fee cost m tss = Inl nil_deref"
  using assms by (induction tss arbitrary: fee cost m) (auto simp: nn_rating_def Let_def split: option.splits prod.splits)

text \<open>Claim C37. \<^verbatim>\<open>GetCost\<close> panics on a call with a span that no rate interval covers: the guard of the
  connect fee allows for such spans, the maximum cost is read from a nil interval.\<close>

theorem GetCost_needs_interval:
  assumes "getCost env cd = Some (Inr (cd', cc, None))" and "cd_GetDuration cd' \<noteq> 0"
    and "ts \<in> set (ccTimespans cc)" and "tsRateInterval ts = None"
  shows "GetCost env cd = Some (Inl nil_deref)"
  using assms(1,2) by (simp add: GetCost_def total_costs_nil [OF assms(3,4)])

text \<open>A data session on a Monday with a rate for Tuesdays.\<close>

definition clx_env :: rt_env where
  "clx_env = \<lparr>GetRatingProfile = (\<lambda>_. Inr (Some \<lparr>rpfId = ''p'', rpfRatingPlanActivations =
       [\<lparr>rpaActivationTime = 0, rpaRatingPlanId = ''P1'', rpaFallbackKeys = []\<rparr>]\<rparr>)),
     GetRatingPlan = (\<lambda>_. Inr (Some \<lparr>rpnId = ''P1'', rpnTimings = (case riTiming rlx_rate of None \<Rightarrow> [] | Some t \<Rightarrow> [(''t'', t)]),
       rpnRatings = (case riRating rlx_rate of None \<Rightarrow> [] | Some r \<Rightarrow> [(''r'', r)]),
       rpnDestinationRates = [(''*any'', [\<lparr>rprTiming = ''t'', rprRating = ''r'', rprWeight = Fin 10\<rparr>])]\<rparr>)),
     GetReverseDestination = (\<lambda>_. Inl ErrNotFound), rpSubjectPrefixMatching = False, MaxIncrements = 1000\<rparr>"

definition clx_data :: CallDescriptor where
  "clx_data = new_CallDescriptor\<lparr>cdTimeStart := Date 2020 1 6 10 0 0 0, cdTimeEnd := Date 2020 1 6 10 1 0 0, cdToR := ''*data'', cdDestination := ''*any''\<rparr>"

lemma clx_rates: "map_option (map_sum id (\<lambda>(cd, cc, err). (cd_GetDuration cd, map tsRateInterval (ccTimespans cc), err))) (getCost clx_env clx_data)
   = Some (Inr (60000000000, [None], None))"
  by code_simp

theorem GetCost_needs_interval_witness: "GetCost clx_env clx_data = Some (Inl nil_deref)"
proof -
  obtain cd cc where c: "getCost clx_env clx_data = Some (Inr (cd, cc, None))" "cd_GetDuration cd = 60000000000"
    "map tsRateInterval (ccTimespans cc) = [None]"
    using clx_rates by (cases "getCost clx_env clx_data"; cases "the (getCost clx_env clx_data)") auto
  then obtain ts where "ts \<in> set (ccTimespans cc)" "tsRateInterval ts = None" by (cases "ccTimespans cc") auto
  with c show ?thesis by (intro GetCost_needs_interval [OF c(1)]) simp_all
qed

end
