(* ===== verification/Balances.thy ===== *)
theory Balances
  imports Rating Utils_Event
begin

text \<open>
  Balances of an account: \<^verbatim>\<open>engine/balance_filter.go\<close>, the parts of \<^verbatim>\<open>engine/balances.go\<close> that concern one balance or a
  list of values, and the formulas of \<^verbatim>\<open>utils/value_formula.go\<close>.

  A field of a filter that points to a value is an option, \<open>None\<close> for nil; so are the maps of a balance, whose
  clone and comparison tell nil from empty. The time is an argument. \<open>precision\<close> is what the search for
  balances of a destination notes down; \<open>baccount\<close> is the account a balance was found in, as a position in
  the list of accounts loaded.
\<close>

subsection \<open>value\_formula.go\<close>

type_synonym ValueFactor = "(string, float64) gmap"

record ValueFormula =
  vfMethod :: string
  vfParams :: "(string, iface) gmap"
  vfStatic :: float64

definition param_text :: "(string, iface) gmap \<Rightarrow> string \<Rightarrow> string option" where
  "param_text params k = (case gget params k of Some (IString s) \<Rightarrow> Some s | _ \<Rightarrow> None)"

definition incrementalFormula :: "gotime \<Rightarrow> (string, iface) gmap \<Rightarrow> float64" where
  "incrementalFormula now params =
     (case (gget params ''Units'', param_text params ''Interval'', param_text params ''Increment'') of
        (Some (IFloat64 units), Some interval, Some increment) \<Rightarrow>
          (let dm = DaysInMonth (Year now) (Month now); dy = DaysInYear (Year now)
           in if increment = ''day'' \<and> interval = ''week'' then fdiv units (Fin 7)
              else if increment = ''day'' \<and> interval = ''month'' then fdiv units dm
              else if increment = ''day'' \<and> interval = ''year'' then fdiv units dy
              else if increment = ''hour'' \<and> interval = ''day'' then fdiv units (Fin 24)
              else if increment = ''hour'' \<and> interval = ''month'' then fdiv units (fmul dm (Fin 24))
              else if increment = ''hour'' \<and> interval = ''year'' then fdiv units (fmul dy (Fin 24))
              else if increment = ''minute'' \<and> interval = ''hour'' then fdiv units (Fin 60)
              else Fin 0)
      | _ \<Rightarrow> Fin 0)"

definition ValueFormulas :: "string \<Rightarrow> (gotime \<Rightarrow> (string, iface) gmap \<Rightarrow> float64) option" where
  "ValueFormulas m = (if m = ''*incremental'' then Some incrementalFormula else None)"

definition factor_GetValue :: "ValueFactor \<Rightarrow> string \<Rightarrow> float64" where
  "factor_GetValue f tor = (case gget f tor of Some v \<Rightarrow> v | None \<Rightarrow> Fin 1)"

subsection \<open>Data\<close>

record BalanceFilter =
  bfUuid :: "string option"
  bfID :: "string option"
  bfType :: "string option"
  bfValue :: "ValueFormula option"
  bfExpirationDate :: "gotime option"
  bfWeight :: "float64 option"
  bfDestinationIDs :: "StringMap option"
  bfRatingSubject :: "string option"
  bfCategories :: "StringMap option"
  bfSharedGroups :: "StringMap option"
  bfTimingIDs :: "StringMap option"
  bfTimings :: "RITiming list option"
  bfDisabled :: "bool option"
  bfFactor :: "ValueFactor option"
  bfBlocker :: "bool option"

definition new_BalanceFilter :: BalanceFilter where
  "new_BalanceFilter = \<lparr>bfUuid = None, bfID = None, bfType = None, bfValue = None, bfExpirationDate = None, bfWeight = None,
     bfDestinationIDs = None, bfRatingSubject = None, bfCategories = None, bfSharedGroups = None, bfTimingIDs = None,
     bfTimings = None, bfDisabled = None, bfFactor = None, bfBlocker = None\<rparr>"

record Balance =
  bUuid :: string
  bID :: string
  bValue :: float64
  bExpirationDate :: gotime
  bWeight :: float64
  bDestinationIDs :: "StringMap option"
  bRatingSubject :: string
  bCategories :: "StringMap option"
  bSharedGroups :: "StringMap option"
  bTimings :: "RITiming list"
  bTimingIDs :: "StringMap option"
  bDisabled :: bool
  bFactor :: "ValueFactor option"
  bBlocker :: bool
  bprecision :: int
  baccount :: "nat option"
  bdirty :: bool

definition new_Balance :: Balance where
  "new_Balance = \<lparr>bUuid = [], bID = [], bValue = Fin 0, bExpirationDate = 0, bWeight = Fin 0, bDestinationIDs = None,
     bRatingSubject = [], bCategories = None, bSharedGroups = None, bTimings = [], bTimingIDs = None, bDisabled = False,
     bFactor = None, bBlocker = False, bprecision = 0, baccount = None, bdirty = False\<rparr>"

subsection \<open>balance\_filter.go\<close>

text \<open>Reads of a filter that may be nil.\<close>

definition bf_get :: "(BalanceFilter \<Rightarrow> 'a option) \<Rightarrow> 'a \<Rightarrow> BalanceFilter option \<Rightarrow> 'a" where
  "bf_get sel d bp = (case bp of None \<Rightarrow> d | Some f \<Rightarrow> (case sel f of None \<Rightarrow> d | Some v \<Rightarrow> v))"

definition bf_GetType :: "BalanceFilter option \<Rightarrow> string" where
  "bf_GetType = bf_get bfType []"

definition bf_GetUuid :: "BalanceFilter option \<Rightarrow> string" where
  "bf_GetUuid = bf_get bfUuid []"

definition bf_GetID :: "BalanceFilter option \<Rightarrow> string" where
  "bf_GetID = bf_get bfID []"

definition bf_GetDestinationIDs :: "BalanceFilter option \<Rightarrow> StringMap" where
  "bf_GetDestinationIDs = bf_get bfDestinationIDs []"

definition bf_GetCategories :: "BalanceFilter option \<Rightarrow> StringMap" where
  "bf_GetCategories = bf_get bfCategories []"

definition bf_GetTimingIDs :: "BalanceFilter option \<Rightarrow> StringMap" where
  "bf_GetTimingIDs = bf_get bfTimingIDs []"

definition bf_GetSharedGroups :: "BalanceFilter option \<Rightarrow> StringMap" where
  "bf_GetSharedGroups = bf_get bfSharedGroups []"

definition bf_GetWeight :: "BalanceFilter option \<Rightarrow> float64" where
  "bf_GetWeight = bf_get bfWeight (Fin 0)"

definition bf_GetRatingSubject :: "BalanceFilter option \<Rightarrow> string" where
  "bf_GetRatingSubject = bf_get bfRatingSubject []"

definition bf_GetDisabled :: "BalanceFilter option \<Rightarrow> bool" where
  "bf_GetDisabled = bf_get bfDisabled False"

definition bf_GetBlocker :: "BalanceFilter option \<Rightarrow> bool" where
  "bf_GetBlocker = bf_get bfBlocker False"

definition bf_GetExpirationDate :: "BalanceFilter option \<Rightarrow> gotime" where
  "bf_GetExpirationDate = bf_get bfExpirationDate 0"

definition bf_GetFactor :: "BalanceFilter option \<Rightarrow> ValueFactor" where
  "bf_GetFactor = bf_get bfFactor []"

definition EmptyExpirationDate :: "BalanceFilter \<Rightarrow> bool" where
  "EmptyExpirationDate bp = (case bfExpirationDate bp of None \<Rightarrow> True | Some t \<Rightarrow> IsZero t)"

definition bf_GetValue :: "gotime \<Rightarrow> BalanceFilter option \<Rightarrow> float64" where
  "bf_GetValue now bp =
     (case bp of
        None \<Rightarrow> Fin 0
      | Some f \<Rightarrow>
          (case bfValue f of
             None \<Rightarrow> Fin 0
           | Some v \<Rightarrow>
               if vfMethod v = [] then vfStatic v
               else (case ValueFormulas (vfMethod v) of None \<Rightarrow> Fin 0 | Some formula \<Rightarrow> formula now (vfParams v))))"

definition bf_SetValue :: "BalanceFilter \<Rightarrow> float64 \<Rightarrow> BalanceFilter" where
  "bf_SetValue bp x =
     bp\<lparr>bfValue := Some ((case bfValue bp of None \<Rightarrow> \<lparr>vfMethod = [], vfParams = [], vfStatic = Fin 0\<rparr> | Some f \<Rightarrow> f)
          \<lparr>vfStatic := x\<rparr>)\<rparr>"

definition Balance_Clone :: "Balance \<Rightarrow> Balance" where
  "Balance_Clone b = new_Balance\<lparr>bUuid := bUuid b, bID := bID b, bValue := bValue b, bExpirationDate := bExpirationDate b,
     bWeight := bWeight b, bRatingSubject := bRatingSubject b, bCategories := bCategories b, bSharedGroups := bSharedGroups b,
     bTimingIDs := bTimingIDs b, bTimings := bTimings b, bBlocker := bBlocker b, bDisabled := bDisabled b, bdirty := bdirty b,
     bDestinationIDs := map_option StringMap_Clone (bDestinationIDs b)\<rparr>"

definition CreateBalance :: "gotime \<Rightarrow> BalanceFilter option \<Rightarrow> error + Balance" where
  "CreateBalance now bp =
     (case bp of
        None \<Rightarrow> Inl nil_deref
      | Some f \<Rightarrow>
          Inr (Balance_Clone (new_Balance\<lparr>bUuid := bf_GetUuid bp, bID := bf_GetID bp, bValue := bf_GetValue now bp,
            bExpirationDate := bf_GetExpirationDate bp, bWeight := bf_GetWeight bp, bDestinationIDs := Some (bf_GetDestinationIDs bp),
            bRatingSubject := bf_GetRatingSubject bp, bCategories := Some (bf_GetCategories bp),
            bSharedGroups := Some (bf_GetSharedGroups bp), bTimings := (case bfTimings f of None \<Rightarrow> [] | Some l \<Rightarrow> l),
            bTimingIDs := Some (bf_GetTimingIDs bp), bDisabled := bf_GetDisabled bp, bFactor := Some (bf_GetFactor bp),
            bBlocker := bf_GetBlocker bp\<rparr>)))"

definition BalanceFilter_Clone :: "BalanceFilter option \<Rightarrow> BalanceFilter option" where
  "BalanceFilter_Clone bf =
     map_option (\<lambda>f. f\<lparr>bfDestinationIDs := map_option StringMap_Clone (bfDestinationIDs f),
       bfCategories := map_option StringMap_Clone (bfCategories f), bfSharedGroups := map_option StringMap_Clone (bfSharedGroups f),
       bfTimingIDs := map_option StringMap_Clone (bfTimingIDs f),
       bfTimings := map_option (List.map_filter (\<lambda>t. RITiming_Clone (Some t))) (bfTimings f)\<rparr>) bf"

text \<open>Fails when the balance has a value and the filter has none. The last line of the code sets the timings again.\<close>

definition LoadFromBalance :: "BalanceFilter \<Rightarrow> Balance \<Rightarrow> error + BalanceFilter" where
  "LoadFromBalance bf b =
     (let bf1 = bf\<lparr>bfUuid := (if bUuid b \<noteq> [] then Some (bUuid b) else bfUuid bf),
                   bfID := (if bID b \<noteq> [] then Some (bID b) else bfID bf)\<rparr>
      in ebind (if feq (bValue b) (Fin 0) then Inr bf1
                else (case bfValue bf1 of
                        None \<Rightarrow> Inl nil_deref
                      | Some f \<Rightarrow> Inr (bf1\<lparr>bfValue := Some (f\<lparr>vfStatic := bValue b\<rparr>)\<rparr>))) (\<lambda>bf2.
           Inr (bf2\<lparr>bfExpirationDate := (if \<not> IsZero (bExpirationDate b) then Some (bExpirationDate b) else bfExpirationDate bf2),
             bfWeight := (if \<not> feq (bWeight b) (Fin 0) then Some (bWeight b) else bfWeight bf2),
             bfDestinationIDs := (if \<not> StringMap_IsEmpty (bDestinationIDs b) then Some (sm_entries (bDestinationIDs b)) else bfDestinationIDs bf2),
             bfRatingSubject := (if bRatingSubject b \<noteq> [] then Some (bRatingSubject b) else bfRatingSubject bf2),
             bfCategories := (if \<not> StringMap_IsEmpty (bCategories b) then Some (sm_entries (bCategories b)) else bfCategories bf2),
             bfSharedGroups := (if \<not> StringMap_IsEmpty (bSharedGroups b) then Some (sm_entries (bSharedGroups b)) else bfSharedGroups bf2),
             bfTimingIDs := (if \<not> StringMap_IsEmpty (bTimingIDs b) then Some (sm_entries (bTimingIDs b)) else bfTimingIDs bf2),
             bfFactor := (case bFactor b of Some (f # fs) \<Rightarrow> Some (f # fs) | _ \<Rightarrow> bfFactor bf2),
             bfDisabled := (if bDisabled b then Some True else bfDisabled bf2),
             bfBlocker := (if bBlocker b then Some True else bfBlocker bf2),
             bfTimings := Some (bTimings b)\<rparr>)))"

text \<open>\<^verbatim>\<open>reflect.DeepEqual\<close> on maps and on what a filter points to.\<close>

definition map_deep_eq :: "('v \<Rightarrow> 'v \<Rightarrow> bool) \<Rightarrow> ('k, 'v) gmap \<Rightarrow> ('k, 'v) gmap \<Rightarrow> bool" where
  "map_deep_eq eq m n \<longleftrightarrow> length m = length n
     \<and> list_all (\<lambda>(k, v). case gget n k of None \<Rightarrow> False | Some w \<Rightarrow> eq v w) m"

definition ptr_deep_eq :: "('a \<Rightarrow> 'a \<Rightarrow> bool) \<Rightarrow> 'a option \<Rightarrow> 'a option \<Rightarrow> bool" where
  "ptr_deep_eq eq x y = (case (x, y) of (None, None) \<Rightarrow> True | (Some a, Some b) \<Rightarrow> eq a b | _ \<Rightarrow> False)"

definition formula_deep_eq :: "ValueFormula \<Rightarrow> ValueFormula \<Rightarrow> bool" where
  "formula_deep_eq f g \<longleftrightarrow> vfMethod f = vfMethod g \<and> map_deep_eq (=) (vfParams f) (vfParams g) \<and> feq (vfStatic f) (vfStatic g)"

definition filter_deep_eq :: "BalanceFilter \<Rightarrow> BalanceFilter \<Rightarrow> bool" where
  "filter_deep_eq f g \<longleftrightarrow> bfUuid f = bfUuid g \<and> bfID f = bfID g \<and> bfType f = bfType g
     \<and> ptr_deep_eq formula_deep_eq (bfValue f) (bfValue g) \<and> bfExpirationDate f = bfExpirationDate g
     \<and> ptr_deep_eq feq (bfWeight f) (bfWeight g) \<and> ptr_deep_eq (map_deep_eq (=)) (bfDestinationIDs f) (bfDestinationIDs g)
     \<and> bfRatingSubject f = bfRatingSubject g \<and> ptr_deep_eq (map_deep_eq (=)) (bfCategories f) (bfCategories g)
     \<and> ptr_deep_eq (map_deep_eq (=)) (bfSharedGroups f) (bfSharedGroups g)
     \<and> ptr_deep_eq (map_deep_eq (=)) (bfTimingIDs f) (bfTimingIDs g) \<and> bfTimings f = bfTimings g
     \<and> bfDisabled f = bfDisabled g \<and> ptr_deep_eq (map_deep_eq feq) (bfFactor f) (bfFactor g) \<and> bfBlocker f = bfBlocker g"

definition BalanceFilter_Equal :: "BalanceFilter option \<Rightarrow> BalanceFilter option \<Rightarrow> error + bool" where
  "BalanceFilter_Equal bp ob =
     (case bp of
        None \<Rightarrow> Inl nil_deref
      | Some f \<Rightarrow>
          (case bfID f of
             None \<Rightarrow> Inr (ptr_deep_eq filter_deep_eq bp ob)
           | Some i \<Rightarrow>
               (case ob of
                  None \<Rightarrow> Inl nil_deref
                | Some g \<Rightarrow> (case bfID g of Some j \<Rightarrow> Inr (i = j) | None \<Rightarrow> Inr (filter_deep_eq f g)))))"

definition ModifyBalance :: "gotime \<Rightarrow> BalanceFilter \<Rightarrow> Balance \<Rightarrow> Balance" where
  "ModifyBalance now bf b =
     (let set = (\<lambda>new old. case new of None \<Rightarrow> old | Some v \<Rightarrow> v);
          setm = (\<lambda>new old. case new of None \<Rightarrow> old | Some (m::StringMap) \<Rightarrow> Some m)
      in b\<lparr>bID := (case bfID bf of None \<Rightarrow> bID b | Some i \<Rightarrow> i),
           bValue := (if bfValue bf \<noteq> None then bf_GetValue now (Some bf) else bValue b),
           bExpirationDate := (case bfExpirationDate bf of None \<Rightarrow> bExpirationDate b | Some t \<Rightarrow> t),
           bRatingSubject := (case bfRatingSubject bf of None \<Rightarrow> bRatingSubject b | Some s \<Rightarrow> s),
           bCategories := setm (bfCategories bf) (bCategories b), bDestinationIDs := setm (bfDestinationIDs bf) (bDestinationIDs b),
           bSharedGroups := setm (bfSharedGroups bf) (bSharedGroups b), bTimingIDs := setm (bfTimingIDs bf) (bTimingIDs b),
           bTimings := (case bfTimings bf of Some (t # ts) \<Rightarrow> t # ts | _ \<Rightarrow> bTimings b),
           bWeight := (case bfWeight bf of None \<Rightarrow> bWeight b | Some w \<Rightarrow> w),
           bBlocker := set (bfBlocker bf) (bBlocker b), bDisabled := set (bfDisabled bf) (bDisabled b), bdirty := True\<rparr>)"

subsection \<open>balances.go: one balance\<close>

definition with_any_dest :: "Balance \<Rightarrow> Balance" where
  "with_any_dest b = (if sm_entries (bDestinationIDs b) = [] then b\<lparr>bDestinationIDs := Some [(ANY, True)]\<rparr> else b)"

text \<open>The comparison completes the destinations of both balances; they are returned.\<close>

definition Balance_Equal :: "Balance \<Rightarrow> Balance \<Rightarrow> bool \<times> Balance \<times> Balance" where
  "Balance_Equal b0 o0 =
     (let b = with_any_dest b0; ob = with_any_dest o0
      in (bUuid b = bUuid ob \<and> bID b = bID ob \<and> bExpirationDate b = bExpirationDate ob \<and> feq (bWeight b) (bWeight ob)
          \<and> StringMap_Equal (bDestinationIDs b) (bDestinationIDs ob) \<and> bRatingSubject b = bRatingSubject ob
          \<and> StringMap_Equal (bCategories b) (bCategories ob) \<and> StringMap_Equal (bSharedGroups b) (bSharedGroups ob)
          \<and> bDisabled b = bDisabled ob \<and> bBlocker b = bBlocker ob, b, ob))"

definition match_opt :: "('a \<Rightarrow> bool) \<Rightarrow> 'a option \<Rightarrow> bool" where
  "match_opt P x = (case x of None \<Rightarrow> True | Some a \<Rightarrow> P a)"

definition MatchFilter :: "Balance \<Rightarrow> BalanceFilter option \<Rightarrow> bool \<Rightarrow> bool \<Rightarrow> bool" where
  "MatchFilter b bf skipIds skipExpiry =
     (case bf of
        None \<Rightarrow> True
      | Some f \<Rightarrow>
          if \<not> skipIds \<and> bfUuid f \<noteq> None \<and> bfUuid f \<noteq> Some [] then bfUuid f = Some (bUuid b)
          else if \<not> skipIds \<and> bfID f \<noteq> None \<and> bfID f \<noteq> Some [] then bfID f = Some (bID b)
          else if \<not> skipExpiry \<and> \<not> match_opt (\<lambda>t. bExpirationDate b = t) (bfExpirationDate f) then False
          else match_opt (\<lambda>w. feq (bWeight b) w) (bfWeight f) \<and> match_opt (\<lambda>x. bBlocker b = x) (bfBlocker f)
            \<and> match_opt (\<lambda>x. bDisabled b = x) (bfDisabled f)
            \<and> match_opt (StringMap_Includes (sm_entries (bDestinationIDs b))) (bfDestinationIDs f)
            \<and> match_opt (StringMap_Includes (sm_entries (bCategories b))) (bfCategories f)
            \<and> match_opt (StringMap_Includes (sm_entries (bTimingIDs b))) (bfTimingIDs f)
            \<and> match_opt (StringMap_Includes (sm_entries (bSharedGroups b))) (bfSharedGroups f)
            \<and> match_opt (\<lambda>s. bRatingSubject b = s) (bfRatingSubject f))"

definition HardMatchFilter :: "Balance \<Rightarrow> BalanceFilter option \<Rightarrow> bool \<Rightarrow> bool" where
  "HardMatchFilter b bf skipIds =
     (case bf of
        None \<Rightarrow> True
      | Some f \<Rightarrow>
          if \<not> skipIds \<and> bfUuid f \<noteq> None \<and> bfUuid f \<noteq> Some [] then bfUuid f = Some (bUuid b)
          else if \<not> skipIds \<and> bfID f \<noteq> None \<and> bfID f \<noteq> Some [] then bfID f = Some (bID b)
          else match_opt (\<lambda>t. bExpirationDate b = t) (bfExpirationDate f)
            \<and> match_opt (\<lambda>w. feq (bWeight b) w) (bfWeight f) \<and> match_opt (\<lambda>x. bBlocker b = x) (bfBlocker f)
            \<and> match_opt (\<lambda>x. bDisabled b = x) (bfDisabled f)
            \<and> match_opt (\<lambda>m. StringMap_Equal (bDestinationIDs b) (Some m)) (bfDestinationIDs f)
            \<and> match_opt (\<lambda>m. StringMap_Equal (bCategories b) (Some m)) (bfCategories f)
            \<and> match_opt (\<lambda>m. StringMap_Equal (bTimingIDs b) (Some m)) (bfTimingIDs f)
            \<and> match_opt (\<lambda>m. StringMap_Equal (bSharedGroups b) (Some m)) (bfSharedGroups f)
            \<and> match_opt (\<lambda>s. bRatingSubject b = s) (bfRatingSubject f))"

definition META_DEFAULT :: string where
  "META_DEFAULT = ''*default''"

definition MONETARY :: string where
  "MONETARY = ''*monetary''"

definition GENERIC :: string where
  "GENERIC = ''*generic''"

definition IsDefault :: "Balance \<Rightarrow> bool" where
  "IsDefault b \<longleftrightarrow> bID b = META_DEFAULT"

definition IsExpiredAt :: "Balance \<Rightarrow> gotime \<Rightarrow> bool" where
  "IsExpiredAt b t \<longleftrightarrow> \<not> IsZero (bExpirationDate b) \<and> bExpirationDate b < t"

primrec some_active :: "gotime \<Rightarrow> RITiming list \<Rightarrow> error + bool" where
  "some_active t [] = Inr False"
| "some_active t (tim # tims) = ebind (IsActiveAt tim t) (\<lambda>a. if a then Inr True else some_active t tims)"

definition bal_IsActiveAt :: "Balance \<Rightarrow> gotime \<Rightarrow> error + bool" where
  "bal_IsActiveAt b t = (if bDisabled b then Inr False else if bTimings b = [] then Inr True else some_active t (bTimings b))"

definition MatchCategory :: "Balance \<Rightarrow> string \<Rightarrow> bool" where
  "MatchCategory b category \<longleftrightarrow> sm_entries (bCategories b) = [] \<or> sm_index (sm_entries (bCategories b)) category"

definition HasDestination :: "Balance \<Rightarrow> bool" where
  "HasDestination b \<longleftrightarrow> sm_entries (bDestinationIDs b) \<noteq> [] \<and> \<not> sm_index (sm_entries (bDestinationIDs b)) ANY"

definition MatchDestination :: "Balance \<Rightarrow> string \<Rightarrow> bool" where
  "MatchDestination b destinationID \<longleftrightarrow> \<not> HasDestination b \<or> sm_index (sm_entries (bDestinationIDs b)) destinationID"

text \<open>The first prefix with a destination id of the balance.\<close>

fun first_dest :: "(string \<Rightarrow> error + string list) \<Rightarrow> StringMap \<Rightarrow> string list \<Rightarrow> (string \<times> string) option" where
  "first_dest revd ids [] = None"
| "first_dest revd ids (p # ps) =
     (case revd p of
        Inl _ \<Rightarrow> first_dest revd ids ps
      | Inr destIDs \<Rightarrow>
          (case find (sm_index ids) destIDs of Some dID \<Rightarrow> Some (p, dID) | None \<Rightarrow> first_dest revd ids ps))"

definition getMatchingPrefixAndDestID :: "(string \<Rightarrow> error + string list) \<Rightarrow> Balance \<Rightarrow> string \<Rightarrow> string \<times> string" where
  "getMatchingPrefixAndDestID revd b dest =
     (if HasDestination b
      then (case first_dest revd (sm_entries (bDestinationIDs b)) (SplitPrefix dest 1) of None \<Rightarrow> ([], []) | Some r \<Rightarrow> r)
      else ([], []))"

definition bal_SetValue :: "Balance \<Rightarrow> float64 \<Rightarrow> Balance" where
  "bal_SetValue b amount = b\<lparr>bValue := Round amount globalRoundingDecimals ROUNDING_MIDDLE, bdirty := True\<rparr>"

definition AddValue :: "Balance \<Rightarrow> float64 \<Rightarrow> Balance" where
  "AddValue b amount = bal_SetValue b (fadd (bValue b) amount)"

definition SubstractValue :: "Balance \<Rightarrow> float64 \<Rightarrow> Balance" where
  "SubstractValue b amount = bal_SetValue b (fsub (bValue b) amount)"

definition SetDirty :: "Balance \<Rightarrow> Balance" where
  "SetDirty b = b\<lparr>bdirty := True\<rparr>"

definition ZERO_RATING_SUBJECT_PREFIX :: string where
  "ZERO_RATING_SUBJECT_PREFIX = ''*zero''"

definition ParseZeroRatingSubject :: "golib \<Rightarrow> string \<Rightarrow> string \<Rightarrow> (string, string) gmap \<Rightarrow> error + duration" where
  "ParseZeroRatingSubject lib tor rateSubj defaultRateSubj =
     (let subj = TrimSpace rateSubj;
          subj = (if subj = [] \<or> subj = ANY
                  then (case gget defaultRateSubj tor of
                          Some r \<Rightarrow> r
                        | None \<Rightarrow> (case gget defaultRateSubj ANY of Some r \<Rightarrow> r | None \<Rightarrow> []))
                  else subj)
      in if \<not> has_prefix subj ZERO_RATING_SUBJECT_PREFIX then Inl (ErrMsg (''malformed rating subject: '' @ subj))
         else let durStr = drop (length ZERO_RATING_SUBJECT_PREFIX) subj
              in ParseDuration lib (case ParseFloat lib durStr of Inr _ \<Rightarrow> durStr @ ''ns'' | Inl _ \<Rightarrow> durStr))"

text \<open>The cost of a call with the rating subject of a balance. The descriptor is returned with the changes the
  computation leaves in it.\<close>

definition bal_GetCost :: "rt_env \<Rightarrow> Balance \<Rightarrow> CallDescriptor \<Rightarrow> bool
    \<Rightarrow> (error + (CallDescriptor \<times> CallCost \<times> error option)) option" where
  "bal_GetCost env b cd getStandardIfEmpty =
     (if bRatingSubject b \<noteq> [] \<and> \<not> has_prefix (bRatingSubject b) ZERO_RATING_SUBJECT_PREFIX then
        map_option (\<lambda>r. ebind r (\<lambda>(cd', cc, err). Inr (cd'\<lparr>cdSubject := cdSubject cd, cdAccount := cdAccount cd\<rparr>, cc, err)))
          (getCost env (cd\<lparr>cdSubject := bRatingSubject b, cdAccount := bRatingSubject b, cdRatingInfos := []\<rparr>))
      else if getStandardIfEmpty then getCost env (cd\<lparr>cdRatingInfos := []\<rparr>)
      else Some (Inr (cd, (CreateCallCost cd)\<lparr>ccCost := Fin 0\<rparr>, None)))"

text \<open>The increments a credit and a number of units pay for: the duration, the credit and the units left, and whether the loop
  went through.\<close>

fun affordable :: "Increment list \<Rightarrow> duration \<Rightarrow> float64 \<Rightarrow> duration \<Rightarrow> bool \<times> duration \<times> float64 \<times> duration" where
  "affordable [] d credit av = (True, d, credit, av)"
| "affordable (incr # incs) d credit av =
     (if fleq (icCost incr) credit \<and> wrap64 (av - icDuration incr) \<ge> 0
      then affordable incs (wrap64 (d + icDuration incr)) (fsub credit (icCost incr)) (wrap64 (av - icDuration incr))
      else (False, d, credit, av))"

primrec minutes_loop :: "int \<Rightarrow> CallDescriptor \<Rightarrow> TimeSpan list \<Rightarrow> duration \<times> float64 \<times> duration \<Rightarrow> error + (duration \<times> float64)" where
  "minutes_loop maxInc cd [] st = Inr (fst st, fst (snd st))"
| "minutes_loop maxInc cd (ts0 # tss) st =
     (let ts = createIncrementsSlice maxInc ts0; (d, credit, av) = st
      in ebind (if fless (Fin 0) (cdMaxRate cd) \<and> cdMaxRateUnit cd > 0 then
                  (case tsRateInterval ts of
                     None \<Rightarrow> Inl nil_deref
                   | Some ri \<Rightarrow>
                       let (rate, _, rateUnit) = rate_params ri (GetGroupStart ts)
                       in Inr (fless (fdiv (cdMaxRate cd) (float_of_int (cdMaxRateUnit cd))) (fdiv rate (float_of_int rateUnit))))
                else Inr False) (\<lambda>too_dear.
           if too_dear then Inr (d, credit)
           else case affordable (tsIncrements ts) d credit av of
                  (True, st') \<Rightarrow> minutes_loop maxInc cd tss st'
                | (False, d', credit', _) \<Rightarrow> Inr (d', credit')))"

definition GetMinutesForCredit :: "rt_env \<Rightarrow> Balance \<Rightarrow> CallDescriptor \<Rightarrow> float64 \<Rightarrow> (error + (duration \<times> float64)) option" where
  "GetMinutesForCredit env b origCD initialCredit =
     (let cd = CallDescriptor_Clone origCD;
          availableDuration = wrap64 (int64_of_float (bValue b) * 1000000000)
      in Option.bind (bal_GetCost env b cd False) (\<lambda>r. Some (ebind r (\<lambda>(cd', cc, err).
           if err \<noteq> None then Inr (0, initialCredit)
           else (let connectFee = GetConnectFee cc in
                  if ccdeductConnectFee cc \<and> \<not> fleq connectFee initialCredit then Inr (0, initialCredit)
                  else let credit = (if ccdeductConnectFee cc then fsub initialCredit connectFee else initialCredit);
                           cost = (if ccdeductConnectFee cc then fsub (ccCost cc) connectFee else ccCost cc)
                       in if fless (Fin 0) cost then minutes_loop (MaxIncrements env) cd' (ccTimespans cc) (0, credit, availableDuration)
                          else Inr (availableDuration, credit))))))"

record BalanceSummary =
  bsUUID :: string
  bsID :: string
  bsType :: string
  bsValue :: float64
  bsDisabled :: bool

definition AsBalanceSummary :: "Balance \<Rightarrow> string \<Rightarrow> BalanceSummary" where
  "AsBalanceSummary b typ = \<lparr>bsUUID = bUuid b, bsID = (if bID b = [] then bUuid b else bID b), bsType = typ, bsValue = bValue b,
     bsDisabled = bDisabled b\<rparr>"

definition BalanceSummaryWithUUD :: "BalanceSummary list \<Rightarrow> string \<Rightarrow> BalanceSummary option" where
  "BalanceSummaryWithUUD bs u = find (\<lambda>b. bsUUID b = u) bs"

definition bs_FieldAsInterface :: "BalanceSummary \<Rightarrow> string list \<Rightarrow> error + iface" where
  "bs_FieldAsInterface bl fldPath =
     (case fldPath of
        [f] \<Rightarrow>
          if f = ''UUID'' then Inr (IString (bsUUID bl))
          else if f = ''ID'' then Inr (IString (bsID bl))
          else if f = ''Type'' then Inr (IString (bsType bl))
          else if f = ''Value'' then Inr (IFloat64 (bsValue bl))
          else if f = ''Disabled'' then Inr (IBool (bsDisabled bl))
          else Inl (ErrMsg (''unsupported field prefix: <'' @ f @ ''>''))
      | _ \<Rightarrow> Inl ErrNotFound)"

subsection \<open>balances.go: lists of balances\<close>

text \<open>\<^verbatim>\<open>Less(j, i)\<close>: whether \<open>a\<close> goes before \<open>b\<close>.\<close>

definition bal_Less :: "Balance \<Rightarrow> Balance \<Rightarrow> bool" where
  "bal_Less a b \<longleftrightarrow> bprecision b < bprecision a \<or> bprecision b = bprecision a \<and> fless (bWeight b) (bWeight a)"

primrec total_value :: "gotime \<Rightarrow> float64 \<Rightarrow> Balance list \<Rightarrow> error + float64" where
  "total_value now t [] = Inr t"
| "total_value now t (b # bs) =
     ebind (if IsExpiredAt b now then Inr False else bal_IsActiveAt b now) (\<lambda>a.
       total_value now (if a then fadd t (bValue b) else t) bs)"

definition GetTotalValue :: "gotime \<Rightarrow> Balance list \<Rightarrow> error + float64" where
  "GetTotalValue now bc = ebind (total_value now (Fin 0) bc) (\<lambda>t. Inr (Round t globalRoundingDecimals ROUNDING_MIDDLE))"

end
