(* ===== verification/Unit_Counters.thy ===== *)
theory Unit_Counters
  imports Balances
begin

text \<open>
  Unit counters, action triggers and actions as data: \<^verbatim>\<open>engine/units_counter.go\<close>, the parts of \<^verbatim>\<open>engine/action_trigger.go\<close>,
  \<^verbatim>\<open>engine/action.go\<close> and \<^verbatim>\<open>engine/account.go\<close> that only compute with counters and triggers, and \<^verbatim>\<open>MatchCCFilter\<close> of
  \<^verbatim>\<open>engine/callcost.go\<close>.

  A comparison of filters may dereference nil, so what uses it returns an error. A list of counters holds no
  nil counter.
\<close>

subsection \<open>Data\<close>

record CounterFilter =
  cfValue :: float64
  cfFilter :: "BalanceFilter option"

record UnitCounter =
  ucCounterType :: string
  ucCounters :: "CounterFilter list"

type_synonym UnitCounters = "(string, UnitCounter list) gmap"

record ActionTrigger =
  atID :: string
  atUniqueID :: string
  atThresholdType :: string
  atThresholdValue :: float64
  atRecurrent :: bool
  atMinSleep :: duration
  atExpirationDate :: gotime
  atActivationDate :: gotime
  atBalance :: "BalanceFilter option"
  atWeight :: float64
  atActionsID :: string
  atMinQueuedItems :: int
  atExecuted :: bool
  atLastExecutionTime :: gotime

record Action =
  acId :: string
  acActionType :: string
  acExtraParameters :: string
  acFilter :: string
  acExpirationString :: string
  acWeight :: float64
  acBalance :: "BalanceFilter option"
  acbalanceValue :: float64

definition Action_Clone :: "Action \<Rightarrow> Action" where
  "Action_Clone a = a\<lparr>acBalance := BalanceFilter_Clone (acBalance a), acbalanceValue := Fin 0\<rparr>"

definition Actions_Sort :: "Action list \<Rightarrow> Action list" where
  "Actions_Sort = sort_less (\<lambda>a b. fless (acWeight b) (acWeight a))"

subsection \<open>units\_counter.go\<close>

primrec HasCounter :: "CounterFilter list \<Rightarrow> CounterFilter \<Rightarrow> error + bool" where
  "HasCounter [] cf = Inr False"
| "HasCounter (c # cs) cf = ebind (BalanceFilter_Equal (cfFilter c) (cfFilter cf)) (\<lambda>e. if e then Inr True else HasCounter cs cf)"

definition CounterFilter_Clone :: "CounterFilter \<Rightarrow> CounterFilter" where
  "CounterFilter_Clone c = c\<lparr>cfFilter := BalanceFilter_Clone (cfFilter c)\<rparr>"

definition UnitCounter_Clone :: "UnitCounter \<Rightarrow> UnitCounter" where
  "UnitCounter_Clone uc = uc\<lparr>ucCounters := map CounterFilter_Clone (ucCounters uc)\<rparr>"

definition UnitCounters_Clone :: "UnitCounters \<Rightarrow> UnitCounters" where
  "UnitCounters_Clone ucs = map (\<lambda>(k, l). (k, map UnitCounter_Clone l)) ucs"

text \<open>The value of the first old counter with an equal filter.\<close>

primrec old_value :: "CounterFilter \<Rightarrow> CounterFilter list \<Rightarrow> error + CounterFilter" where
  "old_value c [] = Inr c"
| "old_value c (oldC # olds) =
     ebind (BalanceFilter_Equal (cfFilter c) (cfFilter oldC)) (\<lambda>e.
       if e then Inr (c\<lparr>cfValue := cfValue oldC\<rparr>) else old_value c olds)"

primrec old_values :: "CounterFilter list \<Rightarrow> CounterFilter list \<Rightarrow> error + CounterFilter list" where
  "old_values [] olds = Inr []"
| "old_values (c # cs) olds = ebind (old_value c olds) (\<lambda>c'. ebind (old_values cs olds) (\<lambda>cs'. Inr (c' # cs')))"

definition CopyCounterValues :: "UnitCounter \<Rightarrow> UnitCounter \<Rightarrow> error + (bool \<times> UnitCounter)" where
  "CopyCounterValues uc oldUc =
     (if ucCounterType uc \<noteq> ucCounterType oldUc then Inr (False, uc)
      else ebind (old_values (ucCounters uc) (ucCounters oldUc)) (\<lambda>cs. Inr (True, uc\<lparr>ucCounters := cs\<rparr>)))"

text \<open>The destinations of a filter against those of the prefixes of a number.\<close>

fun some_dest :: "(string \<Rightarrow> error + string list) \<Rightarrow> StringMap \<Rightarrow> string list \<Rightarrow> bool" where
  "some_dest revd ids [] = False"
| "some_dest revd ids (p # ps) =
     ((case revd p of Inl _ \<Rightarrow> False | Inr destIDs \<Rightarrow> list_ex (ghas ids) destIDs) \<or> some_dest revd ids ps)"

definition MatchCCFilter :: "(string \<Rightarrow> error + string list) \<Rightarrow> CallCost \<Rightarrow> BalanceFilter option \<Rightarrow> bool" where
  "MatchCCFilter revd cc bf =
     (case bf of
        None \<Rightarrow> True
      | Some f \<Rightarrow>
          if (case bfCategories f of None \<Rightarrow> False | Some m \<Rightarrow> ccCategory cc \<noteq> [] \<and> \<not> sm_index m (ccCategory cc)) then False
          else case bfDestinationIDs f of
                 None \<Rightarrow> True
               | Some ids \<Rightarrow> ccDestination cc = [] \<or> some_dest revd ids (SplitPrefix (ccDestination cc) 1))"

definition COUNTER_EVENT :: string where
  "COUNTER_EVENT = ''*event''"

definition COUNTER_BALANCE :: string where
  "COUNTER_BALANCE = ''*balance''"

definition count_unit :: "(string \<Rightarrow> error + string list) \<Rightarrow> float64 \<Rightarrow> CallCost option \<Rightarrow> Balance option \<Rightarrow> UnitCounter \<Rightarrow> UnitCounter" where
  "count_unit revd amount cc b uc0 =
     (let uc = (if ucCounterType uc0 = [] then uc0\<lparr>ucCounterType := COUNTER_EVENT\<rparr> else uc0)
      in uc\<lparr>ucCounters := map (\<lambda>c.
           if ucCounterType uc = COUNTER_EVENT \<and> (case cc of None \<Rightarrow> False | Some x \<Rightarrow> MatchCCFilter revd x (cfFilter c))
              \<or> ucCounterType uc = COUNTER_BALANCE \<and> (case b of None \<Rightarrow> False | Some x \<Rightarrow> MatchFilter x (cfFilter c) True False)
           then c\<lparr>cfValue := fadd (cfValue c) amount\<rparr> else c) (ucCounters uc)\<rparr>)"

definition addUnits :: "(string \<Rightarrow> error + string list) \<Rightarrow> UnitCounters \<Rightarrow> float64 \<Rightarrow> string \<Rightarrow> CallCost option \<Rightarrow> Balance option \<Rightarrow> UnitCounters" where
  "addUnits revd ucs amount kind cc b =
     (case gget ucs kind of
        None \<Rightarrow> ucs
      | Some counters \<Rightarrow> gset ucs kind (map (count_unit revd amount cc b) counters))"

primrec reset_filters :: "Action option \<Rightarrow> CounterFilter list \<Rightarrow> error + CounterFilter list" where
  "reset_filters a [] = Inr []"
| "reset_filters a (cf # cfs) =
     ebind (case a of
              None \<Rightarrow> Inr True
            | Some x \<Rightarrow> if acBalance x = None then Inr True else BalanceFilter_Equal (cfFilter cf) (acBalance x)) (\<lambda>m.
     ebind (reset_filters a cfs) (\<lambda>rest. Inr ((if m then cf\<lparr>cfValue := Fin 0\<rparr> else cf) # rest)))"

primrec reset_units :: "Action option \<Rightarrow> UnitCounter list \<Rightarrow> error + UnitCounter list" where
  "reset_units a [] = Inr []"
| "reset_units a (uc # ucs) =
     ebind (reset_filters a (ucCounters uc)) (\<lambda>cs. ebind (reset_units a ucs) (\<lambda>rest. Inr (uc\<lparr>ucCounters := cs\<rparr> # rest)))"

text \<open>An action without balance is dereferenced for its type.\<close>

primrec resetCounters :: "Action option \<Rightarrow> UnitCounters \<Rightarrow> error + UnitCounters" where
  "resetCounters a [] = Inr []"
| "resetCounters a (kc # ucs) =
     ebind (case a of
              None \<Rightarrow> Inr False
            | Some x \<Rightarrow> (case acBalance x of
                           None \<Rightarrow> Inl nil_deref
                         | Some f \<Rightarrow> Inr (bfType f \<noteq> None \<and> bf_GetType (Some f) \<noteq> fst kc))) (\<lambda>other.
     ebind (if other then Inr (snd kc) else reset_units a (snd kc)) (\<lambda>cs.
     ebind (resetCounters a ucs) (\<lambda>rest. Inr ((fst kc, cs) # rest))))"

subsection \<open>action\_trigger.go\<close>

definition at_IsActive :: "ActionTrigger \<Rightarrow> gotime \<Rightarrow> bool" where
  "at_IsActive at' t \<longleftrightarrow> IsZero (atActivationDate at') \<or> t > atActivationDate at'"

definition at_IsExpired :: "ActionTrigger \<Rightarrow> gotime \<Rightarrow> bool" where
  "at_IsExpired at' t \<longleftrightarrow> \<not> IsZero (atExpirationDate at') \<and> t > atExpirationDate at'"

definition ActionTrigger_Equals :: "ActionTrigger \<Rightarrow> ActionTrigger \<Rightarrow> bool" where
  "ActionTrigger_Equals at' oat \<longleftrightarrow> atID at' = atID oat \<and> atUniqueID at' = atUniqueID oat"

definition ActionTrigger_Clone :: "ActionTrigger \<Rightarrow> ActionTrigger" where
  "ActionTrigger_Clone at' = at'\<lparr>atBalance := BalanceFilter_Clone (atBalance at')\<rparr>"

definition at_CreateBalance :: "gotime \<Rightarrow> ActionTrigger \<Rightarrow> error + Balance" where
  "at_CreateBalance now at' = ebind (CreateBalance now (atBalance at')) (\<lambda>b. Inr (b\<lparr>bID := atUniqueID at'\<rparr>))"

definition ActionTriggers_Sort :: "ActionTrigger list \<Rightarrow> ActionTrigger list" where
  "ActionTriggers_Sort = sort_less (\<lambda>a b. fless (atWeight b) (atWeight a))"

text \<open>\<open>json\<close> reads the group id, unique id and threshold type from the extra parameters.\<close>

definition at_Match :: "(string \<Rightarrow> string \<times> string \<times> string) \<Rightarrow> gotime \<Rightarrow> ActionTrigger \<Rightarrow> Action option \<Rightarrow> error + bool" where
  "at_Match json now at' a =
     (case a of
        None \<Rightarrow> Inr True
      | Some x \<Rightarrow>
          (case acBalance x of
             None \<Rightarrow> Inr True
           | Some f \<Rightarrow>
               if bfType f \<noteq> None \<and> bf_GetType (Some f) \<noteq> bf_GetType (atBalance at') then Inr False
               else
                 let (groupID, uniqueID, thresholdType) = (if acExtraParameters x \<noteq> [] then json (acExtraParameters x) else ([], [], []))
                 in if groupID \<noteq> [] then Inr (atID at' = groupID)
                    else if uniqueID \<noteq> [] then Inr (atUniqueID at' = uniqueID)
                    else if \<not> (thresholdType = [] \<or> atThresholdType at' = thresholdType) then Inr False
                    else ebind (CreateBalance now (atBalance at')) (\<lambda>b. Inr (MatchFilter b (Some f) False False))))"

subsection \<open>account.go: the counters of the triggers\<close>

definition str_contains :: "string \<Rightarrow> string \<Rightarrow> bool" where
  "str_contains s sub \<longleftrightarrow> list_ex (\<lambda>n. has_prefix (drop n s) sub) [0..<Suc (length s)]"

definition trigger_kind :: "ActionTrigger \<Rightarrow> string" where
  "trigger_kind at' = (if str_contains (atThresholdType at') ''balance'' then COUNTER_BALANCE else COUNTER_EVENT)"

definition trigger_counter :: "ActionTrigger \<Rightarrow> error + CounterFilter" where
  "trigger_counter at' =
     (case atBalance at' of
        None \<Rightarrow> Inl nil_deref
      | Some _ \<Rightarrow>
          Inr \<lparr>cfValue = Fin 0, cfFilter = map_option (\<lambda>f.
            if (bfID f = None \<or> bfID f = Some []) \<and> atUniqueID at' \<noteq> [] then f\<lparr>bfID := Some (atUniqueID at')\<rparr> else f)
            (BalanceFilter_Clone (atBalance at'))\<rparr>)"

text \<open>Adds a counter to the unit counter of its kind, made when there is none. A trigger of type \<open>t\<close> and kind \<open>k\<close> is
  looked up under the concatenation of both.\<close>

fun add_to_kind :: "string \<Rightarrow> CounterFilter \<Rightarrow> UnitCounter list \<Rightarrow> error + UnitCounter list" where
  "add_to_kind ct c [] = Inr [\<lparr>ucCounterType = ct, ucCounters = [c]\<rparr>]"
| "add_to_kind ct c (uc # ucs) =
     (if ucCounterType uc = ct then
        ebind (HasCounter (ucCounters uc) c) (\<lambda>has. Inr ((if has then uc else uc\<lparr>ucCounters := ucCounters uc @ [c]\<rparr>) # ucs))
      else ebind (add_to_kind ct c ucs) (\<lambda>r. Inr (uc # r)))"

primrec init_counters :: "ActionTrigger list \<Rightarrow> UnitCounters \<Rightarrow> error + UnitCounters" where
  "init_counters [] ucs = Inr ucs"
| "init_counters (at' # ats) ucs =
     (if \<not> str_contains (atThresholdType at') ''counter'' then init_counters ats ucs
      else ebind (trigger_counter at') (\<lambda>c.
           ebind (add_to_kind (trigger_kind at') c (case gget ucs (bf_GetType (atBalance at')) of None \<Rightarrow> [] | Some l \<Rightarrow> l)) (\<lambda>l.
             init_counters ats (gset ucs (bf_GetType (atBalance at')) l))))"

primrec copy_first :: "UnitCounter \<Rightarrow> UnitCounter list \<Rightarrow> error + UnitCounter" where
  "copy_first uc [] = Inr uc"
| "copy_first uc (oldUc # olds) = ebind (CopyCounterValues uc oldUc) (\<lambda>(same, uc'). if same then Inr uc' else copy_first uc olds)"

primrec copy_all :: "UnitCounter list \<Rightarrow> UnitCounter list \<Rightarrow> error + UnitCounter list" where
  "copy_all [] olds = Inr []"
| "copy_all (uc # ucs) olds = ebind (copy_first uc olds) (\<lambda>uc'. ebind (copy_all ucs olds) (\<lambda>rest. Inr (uc' # rest)))"

primrec copy_counters :: "UnitCounters \<Rightarrow> UnitCounters \<Rightarrow> error + UnitCounters" where
  "copy_counters [] oldUcs = Inr []"
| "copy_counters (kc # ucs) oldUcs =
     ebind (case gget oldUcs (fst kc) of None \<Rightarrow> Inr (snd kc) | Some olds \<Rightarrow> copy_all (snd kc) olds) (\<lambda>cs.
     ebind (copy_counters ucs oldUcs) (\<lambda>rest. Inr ((fst kc, cs) # rest)))"

definition InitCounters :: "ActionTrigger list \<Rightarrow> UnitCounters \<Rightarrow> error + UnitCounters" where
  "InitCounters ats oldUcs = ebind (init_counters ats []) (\<lambda>ucs. copy_counters ucs oldUcs)"

end
