(* ===== verification/Accounts.thy ===== *)
theory Accounts
  imports Unit_Counters
begin

text \<open>
  Accounts: the parts of \<^verbatim>\<open>engine/account.go\<close> and \<^verbatim>\<open>engine/sharedgroup.go\<close> that select balances, and the operations of
  \<^verbatim>\<open>engine/datamanager.go\<close> and \<^verbatim>\<open>engine/storage_redis.go\<close> on accounts.

  Accounts and balances are objects: \<open>wAcc\<close> and \<open>wBal\<close> list the ones allocated, a pointer is a position there. The data base
  holds accounts by value (\<open>Balance Account\<close>), so that loading one allocates new objects. Fields that are not
  exported are not stored. \<open>wSG\<close> are the shared groups, \<open>wSent\<close> the events sent to other services, \<open>wUuid\<close> counts
  the ids generated.

  An operation is a function of the world, \<open>'a act\<close>: \<open>None\<close> when it does not end, \<open>Inl\<close> a panic. An error the code
  returns is a value. Writing to the data base does not fail.
\<close>

subsection \<open>The world\<close>

record 'b Account =
  aID :: string
  aBalanceMap :: "(string, 'b list) gmap"
  aUnitCounters :: UnitCounters
  aActionTriggers :: "ActionTrigger list"
  aAllowNegative :: bool
  aDisabled :: bool
  aUpdateTime :: gotime
  aexecutingTriggers :: bool

record SharingParameters =
  spStrategy :: string
  spRatingSubject :: string

record SharedGroup =
  sgId :: string
  sgAccountParameters :: "(string, SharingParameters option) gmap"
  sgMemberIds :: StringMap

record world =
  wBal :: "Balance list"
  wAcc :: "nat Account list"
  wDB :: "(string, Balance Account) gmap"
  wSG :: "(string, SharedGroup) gmap"
  wUuid :: nat
  wSent :: "(string \<times> CGREvent) list"

text \<open>What the code takes from the library, the configuration, the data manager and other services.\<close>

record acc_env =
  aeRating :: rt_env
  aeLib :: golib
  aeNow :: gotime
  aeUUID :: "nat \<Rightarrow> string"
  aePerm :: "nat \<Rightarrow> nat list"
  aeRemoveExpired :: bool
  aeBalanceRatingSubject :: "(string, string) gmap"
  aeStatSConns :: bool
  aeThresholdSConns :: bool
  aeTimezone :: string
  aeGetActions :: "string \<Rightarrow> error + Action list"
  aeStructMatcher :: "string \<Rightarrow> error + (string \<Rightarrow> Balance \<Rightarrow> error + bool)"
  aeJSON_trigger :: "string \<Rightarrow> string \<times> string \<times> string"
  aeJSON_factor :: "string \<Rightarrow> ValueFactor option"
  aeExternal :: "Action \<Rightarrow> error option"
  aeLastSummaries :: "string \<Rightarrow> error + BalanceSummary option list"

type_synonym 'a act = "world \<Rightarrow> ((error + 'a) \<times> world) option"

definition sret :: "'a \<Rightarrow> 'a act" where
  "sret a w = Some (Inr a, w)"

definition sfail :: "error \<Rightarrow> 'a act" where
  "sfail e w = Some (Inl e, w)"

definition sbind :: "'a act \<Rightarrow> ('a \<Rightarrow> 'b act) \<Rightarrow> 'b act" where
  "sbind m f w = (case m w of None \<Rightarrow> None | Some (Inl e, w') \<Rightarrow> Some (Inl e, w') | Some (Inr a, w') \<Rightarrow> f a w')"

definition sget :: "(world \<Rightarrow> 'a) \<Rightarrow> 'a act" where
  "sget f w = Some (Inr (f w), w)"

definition smod :: "(world \<Rightarrow> world) \<Rightarrow> unit act" where
  "smod f w = Some (Inr (), f w)"

definition slift :: "error + 'a \<Rightarrow> 'a act" where
  "slift x w = Some (x, w)"

definition sopt :: "(error + 'a) option \<Rightarrow> 'a act" where
  "sopt x w = map_option (\<lambda>r. (r, w)) x"

primrec seach :: "('a \<Rightarrow> unit act) \<Rightarrow> 'a list \<Rightarrow> unit act" where
  "seach f [] = sret ()"
| "seach f (x # xs) = sbind (f x) (\<lambda>_. seach f xs)"

primrec sconcat :: "('a \<Rightarrow> 'b list act) \<Rightarrow> 'a list \<Rightarrow> 'b list act" where
  "sconcat f [] = sret []"
| "sconcat f (x # xs) = sbind (f x) (\<lambda>l. sbind (sconcat f xs) (\<lambda>r. sret (l @ r)))"

named_theorems act_simps \<open>running operations on the world\<close>

lemma act_run [act_simps]:
  "sret a w = Some (Inr a, w)" "sfail e w = Some (Inl e, w)" "sget f w = Some (Inr (f w), w)" "smod g w = Some (Inr (), g w)"
  "slift x w = Some (x, w)" "sopt None w = None" "sopt (Some x) w = Some (x, w)"
  by (simp_all add: sret_def sfail_def sget_def smod_def slift_def sopt_def)

lemma sbind_simps [act_simps]:
  "m w = None \<Longrightarrow> sbind m f w = None" "m w = Some (Inl e, w') \<Longrightarrow> sbind m f w = Some (Inl e, w')"
  "m w = Some (Inr a, w') \<Longrightarrow> sbind m f w = f a w'"
  by (simp_all add: sbind_def)

lemma sbind_Some: "sbind m f w = Some r \<longleftrightarrow>
    (\<exists>e w'. m w = Some (Inl e, w') \<and> r = (Inl e, w')) \<or> (\<exists>a w'. m w = Some (Inr a, w') \<and> f a w' = Some r)"
  by (auto simp: sbind_def split: option.splits sum.splits)

lemma sbind_None: "sbind m f w = None \<longleftrightarrow> m w = None \<or> (\<exists>a w'. m w = Some (Inr a, w') \<and> f a w' = None)"
  by (auto simp: sbind_def split: option.splits sum.splits)

lemma sbind_Inr: "sbind m f w = Some (Inr b, w2) \<longleftrightarrow> (\<exists>a w1. m w = Some (Inr a, w1) \<and> f a w1 = Some (Inr b, w2))"
  by (auto simp: sbind_Some)

subsection \<open>Objects\<close>

definition upd_bal :: "nat \<Rightarrow> (Balance \<Rightarrow> Balance) \<Rightarrow> world \<Rightarrow> world" where
  "upd_bal p f w = w\<lparr>wBal := (wBal w)[p := f (wBal w ! p)]\<rparr>"

definition upd_acc :: "nat \<Rightarrow> (nat Account \<Rightarrow> nat Account) \<Rightarrow> world \<Rightarrow> world" where
  "upd_acc p f w = w\<lparr>wAcc := (wAcc w)[p := f (wAcc w ! p)]\<rparr>"

definition new_bal :: "Balance \<Rightarrow> nat act" where
  "new_bal b w = Some (Inr (length (wBal w)), w\<lparr>wBal := wBal w @ [b]\<rparr>)"

definition GenUUID :: "acc_env \<Rightarrow> string act" where
  "GenUUID env w = Some (Inr (aeUUID env (wUuid w)), w\<lparr>wUuid := Suc (wUuid w)\<rparr>)"

definition chain_of :: "nat \<Rightarrow> string \<Rightarrow> world \<Rightarrow> nat list" where
  "chain_of acc typ w = (case gget (aBalanceMap (wAcc w ! acc)) typ of None \<Rightarrow> [] | Some l \<Rightarrow> l)"

definition set_chain :: "nat \<Rightarrow> string \<Rightarrow> nat list \<Rightarrow> world \<Rightarrow> world" where
  "set_chain acc typ l = upd_acc acc (\<lambda>a. a\<lparr>aBalanceMap := gset (aBalanceMap a) typ l\<rparr>)"

subsection \<open>Loading and storing\<close>

definition stored_balance :: "Balance \<Rightarrow> Balance" where
  "stored_balance b = b\<lparr>bprecision := 0, baccount := None, bdirty := False\<rparr>"

definition stored_account :: "world \<Rightarrow> nat Account \<Rightarrow> Balance Account" where
  "stored_account w a = \<lparr>aID = aID a, aBalanceMap = map (\<lambda>(k, l). (k, map (\<lambda>p. stored_balance (wBal w ! p)) l)) (aBalanceMap a),
     aUnitCounters = aUnitCounters a, aActionTriggers = aActionTriggers a, aAllowNegative = aAllowNegative a,
     aDisabled = aDisabled a, aUpdateTime = aUpdateTime a, aexecutingTriggers = False\<rparr>"

fun alloc_chains :: "(string, Balance list) gmap \<Rightarrow> nat \<Rightarrow> (string, nat list) gmap" where
  "alloc_chains [] n = []"
| "alloc_chains ((k, l) # m) n = (k, [n..<n + length l]) # alloc_chains m (n + length l)"

definition alloc_account :: "Balance Account \<Rightarrow> nat act" where
  "alloc_account a w =
     Some (Inr (length (wAcc w)),
       w\<lparr>wBal := wBal w @ concat (map snd (aBalanceMap a)),
         wAcc := wAcc w @ [\<lparr>aID = aID a, aBalanceMap = alloc_chains (aBalanceMap a) (length (wBal w)),
           aUnitCounters = aUnitCounters a, aActionTriggers = aActionTriggers a, aAllowNegative = aAllowNegative a,
           aDisabled = aDisabled a, aUpdateTime = aUpdateTime a, aexecutingTriggers = aexecutingTriggers a\<rparr>]\<rparr>)"

definition GetAccount :: "string \<Rightarrow> (error + nat) act" where
  "GetAccount key =
     sbind (sget (\<lambda>w. gget (wDB w) key)) (\<lambda>r.
       case r of
         None \<Rightarrow> sret (Inl ErrNotFound)
       | Some a \<Rightarrow> sbind (alloc_account a) (\<lambda>p. sret (Inr p)))"

definition allBalancesExpired :: "gotime \<Rightarrow> Balance Account \<Rightarrow> bool" where
  "allBalancesExpired now a \<longleftrightarrow> list_all (\<lambda>(k, l). list_all (\<lambda>b. IsExpiredAt b now) l) (aBalanceMap a)"

text \<open>An account without balances does not replace one that has some: the stored one is written back with the other
  fields of the new one.\<close>

definition SetAccountDrv :: "gotime \<Rightarrow> Balance Account \<Rightarrow> (string, Balance Account) gmap \<Rightarrow> (string, Balance Account) gmap" where
  "SetAccountDrv now a db =
     gset db (aID a)
       ((case gget db (aID a) of
           None \<Rightarrow> a
         | Some ac \<Rightarrow> if aBalanceMap a = [] \<and> \<not> allBalancesExpired now ac
                       then ac\<lparr>aActionTriggers := aActionTriggers a, aUnitCounters := aUnitCounters a,
                               aAllowNegative := aAllowNegative a, aDisabled := aDisabled a\<rparr>
                       else a)\<lparr>aUpdateTime := now\<rparr>)"

definition SetAccount :: "acc_env \<Rightarrow> nat \<Rightarrow> unit act" where
  "SetAccount env p = smod (\<lambda>w. w\<lparr>wDB := SetAccountDrv (aeNow env) (stored_account w (wAcc w ! p)) (wDB w)\<rparr>)"

definition RemoveAccount :: "string \<Rightarrow> unit act" where
  "RemoveAccount key = smod (\<lambda>w. w\<lparr>wDB := gdel (wDB w) key\<rparr>)"

definition Account_Clone :: "nat \<Rightarrow> nat act" where
  "Account_Clone p =
     sbind (sget (\<lambda>w. w)) (\<lambda>w. let a = wAcc w ! p
      in alloc_account \<lparr>aID = aID a, aBalanceMap = map (\<lambda>(k, l). (k, map (\<lambda>q. Balance_Clone (wBal w ! q)) l)) (aBalanceMap a),
           aUnitCounters = UnitCounters_Clone (aUnitCounters a), aActionTriggers = map ActionTrigger_Clone (aActionTriggers a),
           aAllowNegative = aAllowNegative a, aDisabled = aDisabled a, aUpdateTime = 0, aexecutingTriggers = False\<rparr>)"

subsection \<open>Selecting balances\<close>

definition GetDefaultMoneyBalance :: "acc_env \<Rightarrow> nat \<Rightarrow> nat act" where
  "GetDefaultMoneyBalance env acc =
     sbind (sget (\<lambda>w. find (\<lambda>p. IsDefault (wBal w ! p)) (chain_of acc MONETARY w))) (\<lambda>m.
       case m of
         Some p \<Rightarrow> sret p
       | None \<Rightarrow>
          sbind (GenUUID env) (\<lambda>u.
          sbind (new_bal (new_Balance\<lparr>bUuid := u, bID := META_DEFAULT\<rparr>)) (\<lambda>p.
          sbind (smod (\<lambda>w. set_chain acc MONETARY (chain_of acc MONETARY w @ [p]) w)) (\<lambda>_. sret p))))"

definition GetBalanceWithID :: "world \<Rightarrow> nat \<Rightarrow> string \<Rightarrow> string \<Rightarrow> nat option" where
  "GetBalanceWithID w acc blcType blcID = find (\<lambda>p. bID (wBal w ! p) = blcID) (chain_of acc blcType w)"

definition GetBalance :: "world \<Rightarrow> nat list \<Rightarrow> string \<Rightarrow> nat option" where
  "GetBalance w bc u = find (\<lambda>p. bUuid (wBal w ! p) = u) bc"

text \<open>The prefixes of a number against the destinations of a balance: the length of the first prefix that decides, and
  whether the balance covers it; the prefixes are not empty. A balance whose precision is set already stops after the first prefix.\<close>

fun dest_precision :: "(string \<Rightarrow> error + string list) \<Rightarrow> StringMap \<Rightarrow> int \<Rightarrow> string list \<Rightarrow> bool \<times> int" where
  "dest_precision revd ids prec [] = (False, prec)"
| "dest_precision revd ids prec (p # ps) =
     (case revd p of
        Inl _ \<Rightarrow> if prec > 0 then (False, prec) else dest_precision revd ids prec ps
      | Inr destIDs \<Rightarrow>
          let found = list_ex (ghas ids) destIDs;
              allInclude = list_all (\<lambda>d. gget ids d \<noteq> Some False) destIDs;
              allExclude = list_all (\<lambda>(_, incl). \<not> incl) ids
          in if found \<or> allExclude then
               (if allInclude then (True, int (length p)) else (False, 1))
             else if prec > 0 then (False, prec) else dest_precision revd ids prec ps)"

text \<open>Whether a balance is useful, and the balance with what the search wrote into it.\<close>

definition useful_balance :: "acc_env \<Rightarrow> nat \<Rightarrow> string \<Rightarrow> string \<Rightarrow> string \<Rightarrow> gotime \<Rightarrow> Balance \<Rightarrow> bool \<times> Balance" where
  "useful_balance env acc prefix category sharedGroup aTime b =
     (let shared = sm_entries (bSharedGroups b)
      in if bDisabled b then (False, b)
         else if IsExpiredAt b aTime \<or> shared = [] \<and> fleq (bValue b) (Fin 0) \<and> \<not> bBlocker b then (False, b)
         else if sharedGroup \<noteq> [] \<and> \<not> sm_index shared sharedGroup then (False, b)
         else if \<not> MatchCategory b category then (False, b)
         else let b1 = b\<lparr>baccount := Some acc\<rparr>
              in if HasDestination b then
                   (case dest_precision (GetReverseDestination (aeRating env)) (sm_entries (bDestinationIDs b)) (bprecision b)
                           (SplitPrefix prefix 1) of
                      (use, prec) \<Rightarrow> (use, b1\<lparr>bprecision := prec\<rparr>))
                 else (True, b1))"

primrec useful_balances :: "acc_env \<Rightarrow> nat \<Rightarrow> string \<Rightarrow> string \<Rightarrow> string \<Rightarrow> gotime \<Rightarrow> nat list \<Rightarrow> nat list act" where
  "useful_balances env acc prefix category sharedGroup aTime [] = sret []"
| "useful_balances env acc prefix category sharedGroup aTime (p # ps) =
     sbind (sget (\<lambda>w. useful_balance env acc prefix category sharedGroup aTime (wBal w ! p))) (\<lambda>(use, b).
     sbind (smod (upd_bal p (\<lambda>_. b))) (\<lambda>_.
     sbind (useful_balances env acc prefix category sharedGroup aTime ps) (\<lambda>rest. sret (if use then p # rest else rest))))"

definition Balances_Sort :: "world \<Rightarrow> nat list \<Rightarrow> nat list" where
  "Balances_Sort w = sort_less (\<lambda>p q. bal_Less (wBal w ! p) (wBal w ! q))"

definition getBalancesForPrefix :: "acc_env \<Rightarrow> nat \<Rightarrow> string \<Rightarrow> string \<Rightarrow> string \<Rightarrow> string \<Rightarrow> gotime \<Rightarrow> nat list act" where
  "getBalancesForPrefix env acc prefix category tor sharedGroup aTime =
     sbind (sget (\<lambda>w. chain_of acc tor w @ (if tor \<noteq> MONETARY \<and> tor \<noteq> GENERIC then chain_of acc GENERIC w else []))) (\<lambda>ps.
     sbind (useful_balances env acc prefix category sharedGroup aTime ps) (\<lambda>us.
     sbind (sget (\<lambda>w. Balances_Sort w us)) (\<lambda>sorted.
     sbind (smod (fold (\<lambda>p. upd_bal p (\<lambda>b. b\<lparr>bprecision := 0\<rparr>)) sorted)) (\<lambda>_. sret sorted))))"

subsection \<open>sharedgroup.go\<close>

text \<open>The position a random permutation moves each balance to.\<close>

definition permute :: "nat list \<Rightarrow> nat list \<Rightarrow> nat list" where
  "permute perm src = fold (\<lambda>(i, v) dest. dest[v := src ! i]) (enumerate 0 perm) src"

definition swap0 :: "nat \<Rightarrow> nat list \<Rightarrow> nat list" where
  "swap0 i l = (l[0 := l ! i])[i := l ! 0]"

fun position_of :: "(nat \<Rightarrow> bool) \<Rightarrow> nat list \<Rightarrow> nat" where
  "position_of P [] = 0"
| "position_of P (x # xs) = (if P x then 0 else if list_ex P xs then Suc (position_of P xs) else 0)"

definition SortBalancesByStrategy :: "acc_env \<Rightarrow> SharedGroup \<Rightarrow> nat \<Rightarrow> nat list \<Rightarrow> nat list act" where
  "SortBalancesByStrategy env sg mine bc =
     sbind (sget (\<lambda>w. w)) (\<lambda>w. case baccount (wBal w ! mine) of
        None \<Rightarrow> sfail nil_deref
      | Some acc \<Rightarrow>
          let params = (case gget (sgAccountParameters sg) (aID (wAcc w ! acc)) of
                          Some sp \<Rightarrow> sp
                        | None \<Rightarrow> (case gget (sgAccountParameters sg) ANY of None \<Rightarrow> None | Some sp \<Rightarrow> sp));
              strategy = (case params of None \<Rightarrow> ''*mine_random'' | Some sp \<Rightarrow> if spStrategy sp \<noteq> [] then spStrategy sp else ''*mine_random'');
              val = (\<lambda>p. bValue (wBal w ! p));
              sorted = (if strategy = ''*lowest'' \<or> strategy = ''*mine_lowest'' then sort_less (\<lambda>p q. fless (val p) (val q)) bc
                        else if strategy = ''*highest'' \<or> strategy = ''*mine_highest'' then sort_less (\<lambda>p q. fless (val q) (val p)) bc
                        else permute (aePerm env (length bc)) bc);
              known = (strategy \<in> {''*lowest'', ''*mine_lowest'', ''*highest'', ''*mine_highest'', ''*random'', ''*mine_random''})
          in if has_prefix strategy ''*mine_'' \<or> \<not> known then
               (if bc = [] then sfail (Panic ''index out of range'')
                else sret (swap0 (position_of (\<lambda>p. bUuid (wBal w ! p) = bUuid (wBal w ! mine)) sorted) sorted))
             else sret sorted)"

text \<open>The balances of all members; the account that asks is the object in hand, the others are loaded.\<close>

definition member_balances :: "acc_env \<Rightarrow> string \<Rightarrow> string \<Rightarrow> string \<Rightarrow> string \<Rightarrow> nat \<Rightarrow> gotime \<Rightarrow> string \<Rightarrow> nat list act" where
  "member_balances env sgid destination category balanceType ub aTime ubId =
     sbind (sget (\<lambda>w. aID (wAcc w ! ub))) (\<lambda>own.
      if ubId = own then getBalancesForPrefix env ub destination category balanceType sgid aTime
      else sbind (GetAccount ubId) (\<lambda>r.
             case r of
               Inl _ \<Rightarrow> sret []
             | Inr p \<Rightarrow> sbind (sget (\<lambda>w. aDisabled (wAcc w ! p))) (\<lambda>dis.
                 if dis then sret [] else getBalancesForPrefix env p destination category balanceType sgid aTime)))"

definition sg_GetBalances :: "acc_env \<Rightarrow> SharedGroup \<Rightarrow> string \<Rightarrow> string \<Rightarrow> string \<Rightarrow> nat \<Rightarrow> gotime \<Rightarrow> nat list act" where
  "sg_GetBalances env sg destination category balanceType ub aTime =
     sconcat (member_balances env (sgId sg) destination category balanceType ub aTime) (map fst (sgMemberIds sg))"

text \<open>A balance, or the balances of the groups it is shared in.\<close>

definition expand_balance :: "acc_env \<Rightarrow> nat \<Rightarrow> string \<Rightarrow> string \<Rightarrow> string \<Rightarrow> gotime \<Rightarrow> nat \<Rightarrow> nat list act" where
  "expand_balance env acc destination category balanceType aTime p =
     sbind (sget (\<lambda>w. map fst (sm_entries (bSharedGroups (wBal w ! p))))) (\<lambda>sgs.
       if sgs = [] then sret [p]
       else sconcat (\<lambda>sgID. sbind (sget (\<lambda>w. gget (wSG w) sgID)) (\<lambda>g.
              case g of
                None \<Rightarrow> sret []
              | Some sg \<Rightarrow> sbind (sg_GetBalances env sg destination category balanceType acc aTime) (\<lambda>bc.
                             SortBalancesByStrategy env sg p bc))) sgs)"

definition getAlldBalancesForPrefix :: "acc_env \<Rightarrow> nat \<Rightarrow> string \<Rightarrow> string \<Rightarrow> string \<Rightarrow> gotime \<Rightarrow> nat list act" where
  "getAlldBalancesForPrefix env acc destination category balanceType aTime =
     sbind (getBalancesForPrefix env acc destination category balanceType [] aTime)
       (sconcat (expand_balance env acc destination category balanceType aTime))"

text \<open>The credit and the duration of an account.\<close>

fun credit_loop :: "rt_env \<Rightarrow> CallDescriptor \<Rightarrow> duration \<times> float64 \<Rightarrow> Balance list \<Rightarrow> (error + (duration \<times> float64)) option" where
  "credit_loop env cd st [] = Some (Inr st)"
| "credit_loop env cd (d, credit) (b # bs) =
     (case GetMinutesForCredit env b cd credit of
        None \<Rightarrow> None
      | Some (Inl e) \<Rightarrow> Some (Inl e)
      | Some (Inr (d', c)) \<Rightarrow> credit_loop env cd (wrap64 (d + d'), c) bs)"

definition getCreditForPrefix :: "acc_env \<Rightarrow> nat \<Rightarrow> CallDescriptor \<Rightarrow> (duration \<times> float64 \<times> nat list) act" where
  "getCreditForPrefix env acc cd =
     sbind (getBalancesForPrefix env acc (cdDestination cd) (cdCategory cd) MONETARY [] (cdTimeStart cd)) (\<lambda>cbs.
     sbind (getBalancesForPrefix env acc (cdDestination cd) (cdCategory cd) (cdToR cd) [] (cdTimeStart cd)) (\<lambda>ubs.
     sbind (sconcat (expand_balance env acc (cdDestination cd) (cdCategory cd) MONETARY (cdTimeStart cd)) cbs) (\<lambda>ecbs.
     sbind (sconcat (expand_balance env acc (cdDestination cd) (cdCategory cd) (cdToR cd) (cdTimeStart cd)) ubs) (\<lambda>embs.
     sbind (sget (\<lambda>w. GetTotalValue (aeNow env) (map (\<lambda>p. wBal w ! p) ecbs))) (\<lambda>r.
     sbind (slift r) (\<lambda>credit.
     sbind (sget (\<lambda>w. credit_loop (aeRating env) cd (0, credit) (map (\<lambda>p. wBal w ! p) embs))) (\<lambda>r.
     sbind (sopt r) (\<lambda>(d, c). sret (d, c, embs)))))))))"

primrec group_members :: "(string, SharedGroup) gmap \<Rightarrow> string list \<Rightarrow> StringMap \<Rightarrow> error + StringMap" where
  "group_members sgs [] ids = Inr ids"
| "group_members sgs (sgID # sgIDs) ids =
     (case gget sgs sgID of
        None \<Rightarrow> Inl ErrNotFound
      | Some sg \<Rightarrow> group_members sgs sgIDs (fold (\<lambda>m ids. gset ids m True) (map fst (sgMemberIds sg)) ids))"

definition GetUniqueSharedGroupMembers :: "acc_env \<Rightarrow> nat \<Rightarrow> CallDescriptor \<Rightarrow> (error + StringMap) act" where
  "GetUniqueSharedGroupMembers env acc cd =
     sbind (getBalancesForPrefix env acc (cdDestination cd) (cdCategory cd) MONETARY [] (cdTimeStart cd)) (\<lambda>ms.
     sbind (getBalancesForPrefix env acc (cdDestination cd) (cdCategory cd) (cdToR cd) [] (cdTimeStart cd)) (\<lambda>us.
       sget (\<lambda>w. group_members (wSG w) (concat (map (\<lambda>p. map fst (sm_entries (bSharedGroups (wBal w ! p)))) (ms @ us))) [])))"

definition GetSharedGroups :: "world \<Rightarrow> nat \<Rightarrow> string list" where
  "GetSharedGroups w acc =
     concat (map (\<lambda>(_, l). concat (map (\<lambda>p. map fst (sm_entries (bSharedGroups (wBal w ! p)))) l)) (aBalanceMap (wAcc w ! acc)))"

end
