(* ===== verification/Account_Actions.thy ===== *)
theory Account_Actions
  imports Accounts
begin

text \<open>
  What changes an account outside of calls: the actions of \<^verbatim>\<open>engine/action.go\<close> on accounts with the operations of
  \<^verbatim>\<open>engine/account.go\<close> they call, the triggers that run actions (\<^verbatim>\<open>engine/action_trigger.go\<close>) and the execution of an
  action plan (\<^verbatim>\<open>engine/action_plan.go\<close>).

  Triggers run actions, and actions run triggers: the actions take as \<open>exec\<close> the function they call for
  \<^verbatim>\<open>ExecuteActionTriggers\<close>, and \<open>ExecuteActionTriggers\<close> is defined by the recursion of the code, as a partial function
  whose value is \<open>None\<close> when the recursion does not end. What ends it is the flag \<open>aexecutingTriggers\<close> of the account.
  An index beyond the accounts stands for a nil pointer. The loops of a trigger over balances and counters
  go over those there were at their start. Actions that write to a log, post, mail or call other services do not change the
  account: \<open>aeExternal\<close> is the error they return.
\<close>

subsection \<open>Balances set and debited by actions\<close>

definition add_member :: "string \<Rightarrow> string \<Rightarrow> world \<Rightarrow> world" where
  "add_member accID sgID w =
     (case gget (wSG w) sgID of
        None \<Rightarrow> w
      | Some sg \<Rightarrow> if ghas (sgMemberIds sg) accID then w
                   else w\<lparr>wSG := gset (wSG w) sgID (sg\<lparr>sgMemberIds := gset (sgMemberIds sg) accID True\<rparr>)\<rparr>)"

definition join_groups :: "nat \<Rightarrow> nat \<Rightarrow> unit act" where
  "join_groups acc p =
     smod (\<lambda>w. fold (add_member (aID (wAcc w ! acc))) (map fst (sm_entries (bSharedGroups (wBal w ! p)))) w)"

definition acc_InitCounters :: "nat \<Rightarrow> unit act" where
  "acc_InitCounters acc =
     sbind (sget (\<lambda>w. InitCounters (aActionTriggers (wAcc w ! acc)) (aUnitCounters (wAcc w ! acc)))) (\<lambda>r.
     sbind (slift r) (\<lambda>ucs. smod (upd_acc acc (\<lambda>a. a\<lparr>aUnitCounters := ucs\<rparr>))))"

definition all_balances :: "nat \<Rightarrow> world \<Rightarrow> nat list" where
  "all_balances acc w = concat (map snd (aBalanceMap (wAcc w ! acc)))"

type_synonym trig_exec = "nat \<Rightarrow> Action option \<Rightarrow> unit act"

text \<open>The balance an action names by uuid or id, or a new one.\<close>

definition named_balance :: "acc_env \<Rightarrow> nat \<Rightarrow> BalanceFilter \<Rightarrow> (error + (nat \<times> bool)) act" where
  "named_balance env acc f =
     sbind (sget (\<lambda>w. w)) (\<lambda>w. let live = (\<lambda>p. \<not> IsExpiredAt (wBal w ! p) (aeNow env))
      in case bfUuid f of
           Some (c # cs) \<Rightarrow>
             (case find (\<lambda>p. bUuid (wBal w ! p) = c # cs \<and> live p) (all_balances acc w) of
                None \<Rightarrow> sret (Inl (ErrMsg (''cannot find balance with uuid: <'' @ (c # cs) @ ''>'')))
              | Some p \<Rightarrow> sret (Inr (p, True)))
         | _ \<Rightarrow>
             (case (if bfID f = None then None else find (\<lambda>p. bfID f = Some (bID (wBal w ! p)) \<and> live p) (all_balances acc w)) of
                Some p \<Rightarrow> sret (Inr (p, True))
              | None \<Rightarrow>
                  (case bfType f of
                     None \<Rightarrow> sret (Inl (ErrMsg ''missing balance type''))
                   | Some typ \<Rightarrow>
                       sbind (GenUUID env) (\<lambda>u.
                       sbind (new_bal (new_Balance\<lparr>bUuid := u\<rparr>)) (\<lambda>p.
                       sbind (smod (\<lambda>w. set_chain acc typ (chain_of acc typ w @ [p]) w)) (\<lambda>_. sret (Inr (p, False))))))))"

definition set_named :: "acc_env \<Rightarrow> BalanceFilter \<Rightarrow> Balance \<Rightarrow> Balance" where
  "set_named env f b =
     (if bfID f = Some META_DEFAULT then
        (if bfValue f = None then b else SetDirty (b\<lparr>bID := META_DEFAULT, bValue := bf_GetValue (aeNow env) (Some f)\<rparr>))
      else ModifyBalance (aeNow env) f b)"

definition acc_setBalanceAction :: "acc_env \<Rightarrow> trig_exec \<Rightarrow> nat \<Rightarrow> Action \<Rightarrow> error option act" where
  "acc_setBalanceAction env exec acc a =
     (case acBalance a of
        None \<Rightarrow> sfail nil_deref
      | Some f \<Rightarrow>
          sbind (named_balance env acc f) (\<lambda>r.
            case r of
              Inl e \<Rightarrow> sret (Some e)
            | Inr (p, found) \<Rightarrow>
                sbind (sget (\<lambda>w. bSharedGroups (wBal w ! p))) (\<lambda>previous.
                sbind (smod (upd_bal p (set_named env f))) (\<lambda>_.
                sbind (sget (\<lambda>w. \<not> found \<or> \<not> StringMap_Equal previous (bSharedGroups (wBal w ! p)))) (\<lambda>changed.
                sbind (if changed then join_groups acc p else sret ()) (\<lambda>_.
                sbind (acc_InitCounters acc) (\<lambda>_.
                sbind (exec acc None) (\<lambda>_. sret None))))))))"

definition debit_matching :: "acc_env \<Rightarrow> nat \<Rightarrow> BalanceFilter option \<Rightarrow> float64 \<Rightarrow> bool \<Rightarrow> bool \<Rightarrow> Balance \<Rightarrow> Balance" where
  "debit_matching env acc f val reset resetIfNegative b =
     (if IsExpiredAt b (aeNow env) then b
      else let b1 = b\<lparr>baccount := Some acc\<rparr>
           in if MatchFilter b1 f False False then
                SubstractValue (if reset \<or> resetIfNegative \<and> fless (bValue b1) (Fin 0) then bal_SetValue b1 (Fin 0) else b1) val
              else b1)"

text \<open>The balance made when none matched: the amount is debited from zero.\<close>

definition debit_balance :: "acc_env \<Rightarrow> Action \<Rightarrow> Balance \<Rightarrow> string \<Rightarrow> Balance" where
  "debit_balance env a c u =
     (let b = (if bID c = META_DEFAULT then new_Balance\<lparr>bID := META_DEFAULT, bValue := fneg (bValue c)\<rparr>
               else if \<not> feq (bValue c) (Fin 0) then bal_SetValue c (fneg (bValue c)) else c)
      in b\<lparr>bdirty := True, bUuid := u,
           bFactor := (if acExtraParameters a = [] then bFactor b
                       else case aeJSON_factor env (acExtraParameters a) of None \<Rightarrow> bFactor b | Some vf \<Rightarrow> Some vf)\<rparr>)"

definition debitBalanceAction :: "acc_env \<Rightarrow> trig_exec \<Rightarrow> nat \<Rightarrow> Action \<Rightarrow> bool \<Rightarrow> bool \<Rightarrow> error option act" where
  "debitBalanceAction env exec acc a reset resetIfNegative =
     sbind (slift (CreateBalance (aeNow env) (acBalance a))) (\<lambda>c.
     sbind (sget (chain_of acc (bf_GetType (acBalance a)))) (\<lambda>bchain.
     sbind (sget (\<lambda>w. list_ex (\<lambda>p. \<not> IsExpiredAt (wBal w ! p) (aeNow env) \<and> MatchFilter (wBal w ! p) (acBalance a) False False) bchain)) (\<lambda>found.
     sbind (smod (fold (\<lambda>p. upd_bal p (debit_matching env acc (acBalance a) (bValue c) reset resetIfNegative)) bchain)) (\<lambda>_.
     sbind (if found then sret ()
            else sbind (GenUUID env) (\<lambda>u.
                 sbind (new_bal (debit_balance env a c u)) (\<lambda>p.
                 sbind (smod (set_chain acc (bf_GetType (acBalance a)) (bchain @ [p]))) (\<lambda>_. join_groups acc p)))) (\<lambda>_.
     sbind (acc_InitCounters acc) (\<lambda>_.
     sbind (exec acc None) (\<lambda>_. sret None)))))))"

subsection \<open>Expired balances and triggers\<close>

text \<open>The loop that removes in place steps over the item after a removed one.\<close>

fun remove_skipping :: "('a \<Rightarrow> bool) \<Rightarrow> 'a list \<Rightarrow> 'a list" where
  "remove_skipping P [] = []"
| "remove_skipping P [x] = (if P x then [] else [x])"
| "remove_skipping P (x # y # ys) = (if P x then y # remove_skipping P ys else x # remove_skipping P (y # ys))"

definition CleanExpiredStuff :: "acc_env \<Rightarrow> nat \<Rightarrow> unit act" where
  "CleanExpiredStuff env acc =
     smod (\<lambda>w. upd_acc acc (\<lambda>a. a\<lparr>
       aBalanceMap := (if aeRemoveExpired env
                       then map (\<lambda>(k, l). (k, remove_skipping (\<lambda>p. IsExpiredAt (wBal w ! p) (aeNow env)) l)) (aBalanceMap a)
                       else aBalanceMap a),
       aActionTriggers := remove_skipping (\<lambda>t. at_IsExpired t (aeNow env)) (aActionTriggers a)\<rparr>) w)"

text \<open>Removal without keeping the order: the last item takes the place of the removed one.\<close>

function remove_swapping :: "('a \<Rightarrow> bool) \<Rightarrow> 'a list \<Rightarrow> 'a list" where
  "remove_swapping P [] = []"
| "remove_swapping P (x # xs) =
     (if P x then (if xs = [] then [] else remove_swapping P (last xs # butlast xs)) else x # remove_swapping P xs)"
  by pat_completeness auto
termination by (relation "measure (\<lambda>(P, l). length l)") auto

subsection \<open>Actions\<close>

primrec match_triggers :: "acc_env \<Rightarrow> Action option \<Rightarrow> (ActionTrigger \<Rightarrow> ActionTrigger) \<Rightarrow> ActionTrigger list \<Rightarrow> error + ActionTrigger list" where
  "match_triggers env a f [] = Inr []"
| "match_triggers env a f (t # ts) =
     ebind (at_Match (aeJSON_trigger env) (aeNow env) t a) (\<lambda>m.
     ebind (match_triggers env a f ts) (\<lambda>rest. Inr ((if m then f t else t) # rest)))"

definition change_triggers :: "acc_env \<Rightarrow> nat \<Rightarrow> Action option \<Rightarrow> (ActionTrigger \<Rightarrow> ActionTrigger) \<Rightarrow> unit act" where
  "change_triggers env acc a f =
     sbind (sget (\<lambda>w. match_triggers env a f (aActionTriggers (wAcc w ! acc)))) (\<lambda>r.
     sbind (slift r) (\<lambda>ts. smod (upd_acc acc (\<lambda>x. x\<lparr>aActionTriggers := ts\<rparr>))))"

definition ResetActionTriggers :: "acc_env \<Rightarrow> trig_exec \<Rightarrow> nat \<Rightarrow> Action option \<Rightarrow> unit act" where
  "ResetActionTriggers env exec acc a =
     sbind (change_triggers env acc a (\<lambda>t. t\<lparr>atExecuted := False\<rparr>)) (\<lambda>_. exec acc a)"

definition SetRecurrent :: "acc_env \<Rightarrow> nat \<Rightarrow> Action \<Rightarrow> bool \<Rightarrow> unit act" where
  "SetRecurrent env acc a recurrent = change_triggers env acc (Some a) (\<lambda>t. t\<lparr>atRecurrent := recurrent\<rparr>)"

definition genericMakeNegative :: "acc_env \<Rightarrow> Action \<Rightarrow> Action" where
  "genericMakeNegative env a =
     (case acBalance a of
        None \<Rightarrow> a
      | Some f \<Rightarrow> if fless (Fin 0) (bf_GetValue (aeNow env) (Some f))
                  then a\<lparr>acBalance := Some (bf_SetValue f (fneg (bf_GetValue (aeNow env) (Some f))))\<rparr> else a)"

definition topupAction :: "acc_env \<Rightarrow> trig_exec \<Rightarrow> nat \<Rightarrow> Action \<Rightarrow> bool \<Rightarrow> error option act" where
  "topupAction env exec acc a reset = debitBalanceAction env exec acc (genericMakeNegative env (Action_Clone a)) reset False"

primrec fresh_chains :: "nat \<Rightarrow> string list \<Rightarrow> unit act" where
  "fresh_chains acc [] = sret ()"
| "fresh_chains acc (k # ks) =
     sbind (new_bal new_Balance) (\<lambda>p. sbind (smod (set_chain acc k [p])) (\<lambda>_. fresh_chains acc ks))"

definition genericReset :: "acc_env \<Rightarrow> trig_exec \<Rightarrow> nat \<Rightarrow> unit act" where
  "genericReset env exec acc =
     sbind (sget (\<lambda>w. map fst (aBalanceMap (wAcc w ! acc)))) (\<lambda>ks.
     sbind (fresh_chains acc ks) (\<lambda>_.
     sbind (acc_InitCounters acc) (\<lambda>_. ResetActionTriggers env exec acc None)))"

definition resetCountersAction :: "nat \<Rightarrow> Action \<Rightarrow> unit act" where
  "resetCountersAction acc a =
     sbind (sget (\<lambda>w. resetCounters (Some a) (aUnitCounters (wAcc w ! acc)))) (\<lambda>r.
     sbind (slift r) (\<lambda>ucs. smod (upd_acc acc (\<lambda>x. x\<lparr>aUnitCounters := ucs\<rparr>))))"

text \<open>\<^verbatim>\<open>removeBalanceAction\<close> and \<^verbatim>\<open>removeExpired\<close>: they fail when the type has no list, or no balance was removed.\<close>

definition removeBalances :: "(Balance \<Rightarrow> bool) \<Rightarrow> nat \<Rightarrow> string \<Rightarrow> error option act" where
  "removeBalances P acc typ =
     sbind (sget (\<lambda>w. w)) (\<lambda>w. case gget (aBalanceMap (wAcc w ! acc)) typ of
        None \<Rightarrow> sret (Some ErrNotFound)
      | Some bchain \<Rightarrow>
          sbind (smod (set_chain acc typ (remove_swapping (\<lambda>p. P (wBal w ! p)) bchain))) (\<lambda>_.
            sret (if list_ex (\<lambda>p. P (wBal w ! p)) bchain then None else Some ErrNotFound)))"

definition transfer_one :: "acc_env \<Rightarrow> BalanceFilter option \<Rightarrow> nat \<Rightarrow> nat \<Rightarrow> world \<Rightarrow> world" where
  "transfer_one env f d p w =
     (let b = wBal w ! p; db = wBal w ! d
      in if bUuid b \<noteq> bUuid db \<and> bID b \<noteq> bID db \<and> MatchFilter b f False False \<and> fless (Fin 0) (bValue b)
         then upd_bal p (\<lambda>x. x\<lparr>bValue := Fin 0\<rparr>) (upd_bal d (\<lambda>x. x\<lparr>bValue := fadd (bValue x) (bValue b)\<rparr>) w)
         else w)"

definition transferMonetaryDefaultAction :: "acc_env \<Rightarrow> nat \<Rightarrow> Action \<Rightarrow> error option act" where
  "transferMonetaryDefaultAction env acc a =
     sbind (sget (\<lambda>w. ghas (aBalanceMap (wAcc w ! acc)) MONETARY)) (\<lambda>has.
      if \<not> has then sret (Some ErrNotFound)
      else sbind (GetDefaultMoneyBalance env acc) (\<lambda>d.
           sbind (sget (chain_of acc MONETARY)) (\<lambda>bchain.
           sbind (smod (fold (transfer_one env (acBalance a) d) bchain)) (\<lambda>_. sret None))))"

definition setExpiryAction :: "acc_env \<Rightarrow> nat \<Rightarrow> Action \<Rightarrow> unit act" where
  "setExpiryAction env acc a =
     sbind (sget (chain_of acc (bf_GetType (acBalance a)))) (\<lambda>bchain.
       smod (fold (\<lambda>p. upd_bal p (\<lambda>b.
         if MatchFilter b (acBalance a) False True then b\<lparr>bExpirationDate := bf_GetExpirationDate (acBalance a)\<rparr> else b)) bchain))"

text \<open>The events of an account and of a balance.\<close>

definition balance_event :: "acc_env \<Rightarrow> string \<Rightarrow> string \<Rightarrow> Balance \<Rightarrow> CGREvent" where
  "balance_event env u accID b =
     (let t = NewTenantID accID
      in \<lparr>evTenant = tntTenant t, evID = u, evTime = None,
          evEvent = [(''EventType'', IString ''BalanceUpdate''), (''EventSource'', IString ''AccountS''), (''Account'', IString (tntID t)),
            (''BalanceID'', IString (bID b)), (''Units'', IFloat64 (bValue b))]
            @ (if IsZero (bExpirationDate b) then [] else [(''ExpiryTime'', IString (Time_Format (aeLib env) (bExpirationDate b)))])\<rparr>)"

definition account_event :: "string \<Rightarrow> nat Account \<Rightarrow> CGREvent" where
  "account_event u a =
     (let t = NewTenantID (aID a)
      in \<lparr>evTenant = tntTenant t, evID = u, evTime = None,
          evEvent = [(''EventType'', IString ''AccountUpdate''), (''EventSource'', IString ''AccountS''), (''Account'', IString (tntID t)),
            (''AllowNegative'', IBool (aAllowNegative a)), (''Disabled'', IBool (aDisabled a))]\<rparr>)"

definition send_to :: "bool \<Rightarrow> bool \<Rightarrow> CGREvent \<Rightarrow> unit act" where
  "send_to stats thds ev =
     smod (\<lambda>w. w\<lparr>wSent := wSent w @ (if stats then [(''StatS'', ev)] else []) @ (if thds then [(''ThresholdS'', ev)] else [])\<rparr>)"

definition Account_Publish :: "acc_env \<Rightarrow> nat \<Rightarrow> unit act" where
  "Account_Publish env acc =
     sbind (GenUUID env) (\<lambda>u.
     sbind (sget (\<lambda>w. account_event u (wAcc w ! acc))) (send_to (aeStatSConns env) (aeThresholdSConns env)))"

definition Balance_Publish :: "acc_env \<Rightarrow> nat \<Rightarrow> unit act" where
  "Balance_Publish env p =
     sbind (sget (\<lambda>w. baccount (wBal w ! p))) (\<lambda>a.
       case a of
         None \<Rightarrow> sret ()
       | Some acc \<Rightarrow>
           sbind (GenUUID env) (\<lambda>u.
           sbind (sget (\<lambda>w. balance_event env u (aID (wAcc w ! acc)) (wBal w ! p))) (send_to (aeStatSConns env) (aeThresholdSConns env))))"

definition publish_balances :: "acc_env \<Rightarrow> nat \<Rightarrow> unit act" where
  "publish_balances env acc =
     sbind (sget (all_balances acc)) (seach (\<lambda>p.
       sbind (smod (upd_bal p (\<lambda>b. if baccount b = None then b\<lparr>baccount := Some acc\<rparr> else b))) (\<lambda>_. Balance_Publish env p)))"

definition account_id_part :: "string \<Rightarrow> string" where
  "account_id_part k = (case split_on CHR '':'' k of [_, i] \<Rightarrow> i | _ \<Rightarrow> [])"

text \<open>\<^verbatim>\<open>resetAccount\<close>: sets the balances to the summaries of the last CDR; the error of one is logged.\<close>

primrec set_summaries :: "acc_env \<Rightarrow> trig_exec \<Rightarrow> nat \<Rightarrow> BalanceSummary option list \<Rightarrow> unit act" where
  "set_summaries env exec acc [] = sret ()"
| "set_summaries env exec acc (s # ss) =
     sbind (case s of
              None \<Rightarrow> sret None
            | Some b \<Rightarrow> acc_setBalanceAction env exec acc
                \<lparr>acId = [], acActionType = [], acExtraParameters = [], acFilter = [], acExpirationString = [], acWeight = Fin 0,
                 acBalance = Some (new_BalanceFilter\<lparr>bfUuid := Some (bsUUID b), bfID := Some (bsID b), bfType := Some (bsType b),
                   bfValue := Some \<lparr>vfMethod = [], vfParams = [], vfStatic = bsValue b\<rparr>, bfDisabled := Some (bsDisabled b)\<rparr>),
                 acbalanceValue = Fin 0\<rparr>) (\<lambda>_. set_summaries env exec acc ss)"

definition resetAccount :: "acc_env \<Rightarrow> trig_exec \<Rightarrow> nat \<Rightarrow> error option act" where
  "resetAccount env exec acc =
     sbind (sget (\<lambda>w. aeLastSummaries env (account_id_part (aID (wAcc w ! acc))))) (\<lambda>r.
       case r of
         Inl e \<Rightarrow> sret (Some e)
       | Inr ss \<Rightarrow> sbind (set_summaries env exec acc ss) (\<lambda>_. sret None))"

subsection \<open>Running actions\<close>

definition account_actions :: "string list" where
  "account_actions = [''*reset_triggers'', ''*set_recurrent'', ''*unset_recurrent'', ''*allow_negative'', ''*deny_negative'', ''*reset_account'',
     ''*topup_reset'', ''*topup'', ''*debit_reset'', ''*debit'', ''*reset_counters'', ''*enable_account'', ''*disable_account'',
     ''*topup_zero_negative'', ''*set_expiry'', ''*publish_account'', ''*publish_balance'', ''*remove_balance'', ''*set_balance'',
     ''*transfer_monetary_default'', ''*remove_expired'', ''*cdr_account'', ''*remove_account'']"

definition external_actions :: "string list" where
  "external_actions = [''*log'', ''*cdrlog'', ''*http_post'', ''*http_post_async'', ''*mail_async'', ''*set_ddestinations'', ''*cgr_rpc'',
     ''*amqp_json_map'', ''*amqpv1_json_map'', ''*sqs_json_map'', ''*kafka_json_map'', ''*s3_json_map'', ''*remove_session_costs'',
     ''*post_event'']"

definition quiet :: "unit act \<Rightarrow> error option act" where
  "quiet m = sbind m (\<lambda>_. sret None)"

text \<open>\<^verbatim>\<open>getActionFunc\<close> and the call of the function found, on an account. \<^verbatim>\<open>*remove_account\<close> takes the account out of the data
  base and, by \<open>aeExternal\<close>, out of its action plans.\<close>

definition run_action :: "acc_env \<Rightarrow> trig_exec \<Rightarrow> nat \<Rightarrow> Action \<Rightarrow> error option act" where
  "run_action env exec acc a =
     (let t = acActionType a
      in if t = ''*reset_triggers'' then quiet (ResetActionTriggers env exec acc (Some a))
         else if t = ''*set_recurrent'' then quiet (SetRecurrent env acc a True)
         else if t = ''*unset_recurrent'' then quiet (SetRecurrent env acc a False)
         else if t = ''*allow_negative'' then quiet (smod (upd_acc acc (\<lambda>x. x\<lparr>aAllowNegative := True\<rparr>)))
         else if t = ''*deny_negative'' then quiet (smod (upd_acc acc (\<lambda>x. x\<lparr>aAllowNegative := False\<rparr>)))
         else if t = ''*reset_account'' then quiet (genericReset env exec acc)
         else if t = ''*topup_reset'' then topupAction env exec acc a True
         else if t = ''*topup'' then topupAction env exec acc a False
         else if t = ''*debit_reset'' then debitBalanceAction env exec acc a True False
         else if t = ''*debit'' then debitBalanceAction env exec acc a False False
         else if t = ''*topup_zero_negative'' then debitBalanceAction env exec acc a False True
         else if t = ''*reset_counters'' then quiet (resetCountersAction acc a)
         else if t = ''*enable_account'' then quiet (smod (upd_acc acc (\<lambda>x. x\<lparr>aDisabled := False\<rparr>)))
         else if t = ''*disable_account'' then quiet (smod (upd_acc acc (\<lambda>x. x\<lparr>aDisabled := True\<rparr>)))
         else if t = ''*set_expiry'' then quiet (setExpiryAction env acc a)
         else if t = ''*publish_account'' then quiet (sbind (Account_Publish env acc) (\<lambda>_. publish_balances env acc))
         else if t = ''*publish_balance'' then quiet (publish_balances env acc)
         else if t = ''*remove_balance'' then removeBalances (\<lambda>b. MatchFilter b (acBalance a) False False) acc (bf_GetType (acBalance a))
         else if t = ''*remove_expired'' then removeBalances (\<lambda>b. IsExpiredAt b (aeNow env)) acc (bf_GetType (acBalance a))
         else if t = ''*set_balance'' then acc_setBalanceAction env exec acc a
         else if t = ''*transfer_monetary_default'' then transferMonetaryDefaultAction env acc a
         else if t = ''*cdr_account'' then resetAccount env exec acc
         else if t = ''*remove_account'' then
           sbind (sget (\<lambda>w. aID (wAcc w ! acc))) (\<lambda>i.
             if i = [] then sret (Some (ErrMsg ''INVALID_KEY'')) else sbind (RemoveAccount i) (\<lambda>_. sret (aeExternal env a)))
         else sret (aeExternal env a))"

text \<open>An action before it runs: it gets a filter and its expiration is read.\<close>

definition ready_action :: "acc_env \<Rightarrow> Action \<Rightarrow> Action" where
  "ready_action env a =
     (let f = (case acBalance a of None \<Rightarrow> new_BalanceFilter | Some f \<Rightarrow> f)
      in a\<lparr>acBalance := Some (if acExpirationString a = [] then f
             else (case ParseTimeDetectLayout (aeLib env) (acExpirationString a) (aeTimezone env) of
                     Inl _ \<Rightarrow> f | Inr t \<Rightarrow> f\<lparr>bfExpirationDate := Some t\<rparr>))\<rparr>)"

primrec match_any :: "(string \<Rightarrow> Balance \<Rightarrow> error + bool) \<Rightarrow> (string \<times> Balance) list \<Rightarrow> error + bool" where
  "match_any sm [] = Inr False"
| "match_any sm (tb # tbs) = ebind (sm (fst tb) (snd tb)) (\<lambda>c. if c then Inr True else match_any sm tbs)"

text \<open>The result is an error the code returns, or whether a balance matches.\<close>

definition matchActionFilter :: "acc_env \<Rightarrow> nat \<Rightarrow> string \<Rightarrow> world \<Rightarrow> error + bool" where
  "matchActionFilter env acc condition w =
     ebind (aeStructMatcher env condition) (\<lambda>sm.
       match_any sm (concat (map (\<lambda>(k, l). map (\<lambda>p. (k, wBal w ! p)) l) (aBalanceMap (wAcc w ! acc)))))"

text \<open>The list of actions of a trigger or a plan: how it ended. A filter that cannot be evaluated ends everything, a failed
  or unknown action ends the list. The flag tells that \<^verbatim>\<open>*remove_account\<close> ran.\<close>

datatype run_end = FilterError error | Failed bool | Ran bool

primrec run_list :: "acc_env \<Rightarrow> trig_exec \<Rightarrow> nat \<Rightarrow> bool \<Rightarrow> Action list \<Rightarrow> run_end act" where
  "run_list env exec acc removed [] = sret (Ran removed)"
| "run_list env exec acc removed (a # as) =
     sbind (sget (\<lambda>w. if acFilter a = [] then Inr True else matchActionFilter env acc (acFilter a) w)) (\<lambda>m.
       case m of
         Inl e \<Rightarrow> sret (FilterError e)
       | Inr False \<Rightarrow> run_list env exec acc removed as
       | Inr True \<Rightarrow>
           if acActionType a \<notin> set account_actions \<and> acActionType a \<notin> set external_actions then sret (Failed removed)
           else sbind (run_action env exec acc (ready_action env a)) (\<lambda>err.
                  if err \<noteq> None then sret (Failed removed)
                  else run_list env exec acc (removed \<or> acActionType a = ''*remove_account'') as))"

subsection \<open>Triggers\<close>

definition upd_trigger :: "nat \<Rightarrow> nat \<Rightarrow> (ActionTrigger \<Rightarrow> ActionTrigger) \<Rightarrow> unit act" where
  "upd_trigger acc i f = smod (upd_acc acc (\<lambda>a. a\<lparr>aActionTriggers := (aActionTriggers a)[i := f (aActionTriggers a ! i)]\<rparr>))"

definition trigger :: "nat \<Rightarrow> nat \<Rightarrow> world \<Rightarrow> ActionTrigger" where
  "trigger acc i w = aActionTriggers (wAcc w ! acc) ! i"

text \<open>A failed list of actions does not keep the account from being saved. An account without balances refuses no trigger,
  a disabled one does.\<close>

definition at_Execute :: "acc_env \<Rightarrow> trig_exec \<Rightarrow> nat \<Rightarrow> nat \<Rightarrow> unit act" where
  "at_Execute env exec acc i =
     sbind (sget (trigger acc i)) (\<lambda>t.
       if atRecurrent t \<and> \<not> IsZero (atLastExecutionTime t) \<and> time_Sub (aeNow env) (atLastExecutionTime t) < atMinSleep t then sret ()
       else sbind (upd_trigger acc i (\<lambda>t. t\<lparr>atLastExecutionTime := aeNow env\<rparr>)) (\<lambda>_.
            sbind (sget (\<lambda>w. aDisabled (wAcc w ! acc))) (\<lambda>dis.
              if dis then sret ()
              else case aeGetActions env (atActionsID t) of
                     Inl _ \<Rightarrow> sret ()
                   | Inr aac \<Rightarrow>
                       sbind (upd_trigger acc i (\<lambda>t. t\<lparr>atExecuted := True\<rparr>)) (\<lambda>_.
                       sbind (run_list env exec acc False (Actions_Sort aac)) (\<lambda>r.
                         case r of
                           FilterError _ \<Rightarrow> sret ()
                         | _ \<Rightarrow>
                             sbind (upd_trigger acc i (\<lambda>t. if atRecurrent t then t\<lparr>atExecuted := False\<rparr> else t)) (\<lambda>_.
                               if r = Ran True \<or> r = Failed True then sret () else SetAccount env acc))))))"

definition counter_hit :: "ActionTrigger \<Rightarrow> CounterFilter \<Rightarrow> error + bool" where
  "counter_hit t c =
     ebind (BalanceFilter_Equal (cfFilter c) (atBalance t)) (\<lambda>e.
       Inr (e \<and> (if has_prefix (atThresholdType t) ''*max'' then fleq (atThresholdValue t) (cfValue c)
                 else fleq (cfValue c) (atThresholdValue t))))"

text \<open>The counters a trigger watches. The type of a counter is not empty.\<close>

definition watched_counters :: "nat \<Rightarrow> ActionTrigger \<Rightarrow> world \<Rightarrow> CounterFilter list" where
  "watched_counters acc t w =
     concat (map (\<lambda>(_, ucs). concat (map (\<lambda>uc.
       if str_contains (atThresholdType t) (drop 1 (ucCounterType uc)) then ucCounters uc else []) ucs)) (aUnitCounters (wAcc w ! acc)))"

text \<open>The filter of the trigger gets the unique id of the trigger when it has no id, or one that is not empty.\<close>

definition trigger_filter_id :: "ActionTrigger \<Rightarrow> error + ActionTrigger" where
  "trigger_filter_id t =
     (case atBalance t of
        None \<Rightarrow> Inl nil_deref
      | Some f \<Rightarrow> Inr (if (bfID f = None \<or> bfID f \<noteq> Some []) \<and> atUniqueID t \<noteq> []
                       then t\<lparr>atBalance := Some (f\<lparr>bfID := Some (atUniqueID t)\<rparr>)\<rparr> else t))"

definition check_counter :: "acc_env \<Rightarrow> trig_exec \<Rightarrow> nat \<Rightarrow> nat \<Rightarrow> CounterFilter \<Rightarrow> unit act" where
  "check_counter env exec acc i c =
     sbind (sget (\<lambda>w. counter_hit (trigger acc i w) c)) (\<lambda>r.
     sbind (slift r) (\<lambda>hit. if hit then at_Execute env exec acc i else sret ()))"

definition balance_hit :: "acc_env \<Rightarrow> ActionTrigger \<Rightarrow> Balance \<Rightarrow> bool" where
  "balance_hit env t b =
     (let tt = atThresholdType t
      in if \<not> bdirty b \<and> tt \<noteq> ''*balance_expired'' then False
         else HardMatchFilter b (atBalance t) False
           \<and> (if tt = ''*max_balance'' then fleq (atThresholdValue t) (bValue b)
              else if tt = ''*min_balance'' then fleq (bValue b) (atThresholdValue t)
              else tt = ''*balance_expired'' \<and> IsExpiredAt b (aeNow env)))"

definition check_balance :: "acc_env \<Rightarrow> trig_exec \<Rightarrow> nat \<Rightarrow> nat \<Rightarrow> nat \<Rightarrow> unit act" where
  "check_balance env exec acc i p =
     sbind (sget (\<lambda>w. balance_hit env (trigger acc i w) (wBal w ! p))) (\<lambda>hit. if hit then at_Execute env exec acc i else sret ())"

definition run_trigger :: "acc_env \<Rightarrow> trig_exec \<Rightarrow> nat \<Rightarrow> Action option \<Rightarrow> nat \<Rightarrow> unit act" where
  "run_trigger env exec acc a i =
     sbind (sget (trigger acc i)) (\<lambda>t.
       let counter = str_contains (atThresholdType t) ''counter''; balance = str_contains (atThresholdType t) ''balance''
       in if at_IsExpired t (aeNow env) \<or> \<not> at_IsActive t (aeNow env) \<or> \<not> counter \<and> \<not> balance \<or> atExecuted t then sret ()
          else sbind (slift (at_Match (aeJSON_trigger env) (aeNow env) t a)) (\<lambda>m.
            if \<not> m then sret ()
            else if counter then
              sbind (slift (trigger_filter_id t)) (\<lambda>t'.
              sbind (upd_trigger acc i (\<lambda>_. t')) (\<lambda>_.
              sbind (sget (watched_counters acc t')) (seach (check_counter env exec acc i))))
            else sbind (sget (chain_of acc (bf_GetType (atBalance t)))) (seach (check_balance env exec acc i))))"

text \<open>The recursion through the actions is monotone in the function called for the nested triggers.\<close>

definition act_mono :: "((('x \<Rightarrow> 'y option) \<Rightarrow> 'a act)) \<Rightarrow> bool" where
  "act_mono m \<longleftrightarrow> (\<forall>w. mono_option (\<lambda>f. m f w))"

lemma act_mono_const: "act_mono (\<lambda>_. m)"
  by (simp add: act_mono_def option.const_mono)

lemma act_mono_bind:
  assumes "act_mono m" and "\<And>a. act_mono (\<lambda>f. g f a)"
  shows "act_mono (\<lambda>f. sbind (m f) (g f))"
proof -
  have eq: "sbind (m f) (g f) w = Option.bind (m f w) (\<lambda>y. case fst y of Inl e \<Rightarrow> Some (Inl e, snd y) | Inr a \<Rightarrow> g f a (snd y))" for f w
    by (simp add: sbind_def split: option.split sum.split prod.split)
  have "mono_option (\<lambda>f. case fst y of Inl e \<Rightarrow> Some (Inl e, snd y) | Inr a \<Rightarrow> g f a (snd y))" for y
    using assms(2) by (cases "fst y") (simp_all add: act_mono_def option.const_mono)
  then show ?thesis unfolding act_mono_def eq using assms(1) by (auto intro: bind_mono simp: act_mono_def)
qed

lemma act_mono_case:
  "act_mono m \<Longrightarrow> (\<And>y. act_mono (\<lambda>f. g f y)) \<Longrightarrow> act_mono (\<lambda>f. case x of None \<Rightarrow> m f | Some y \<Rightarrow> g f y)"
  "(\<And>a. act_mono (\<lambda>f. h f a)) \<Longrightarrow> (\<And>b. act_mono (\<lambda>f. k f b)) \<Longrightarrow> act_mono (\<lambda>f. case s of Inl a \<Rightarrow> h f a | Inr b \<Rightarrow> k f b)"
  "(\<And>a b. act_mono (\<lambda>f. p f a b)) \<Longrightarrow> act_mono (\<lambda>f. case z of (a, b) \<Rightarrow> p f a b)"
  "act_mono n \<Longrightarrow> act_mono n' \<Longrightarrow> act_mono (\<lambda>f. if b then n f else n' f)"
  "act_mono n \<Longrightarrow> act_mono n' \<Longrightarrow> act_mono (\<lambda>f. case b of True \<Rightarrow> n f | False \<Rightarrow> n' f)"
  by ((cases x; simp), (cases s; simp), (cases z; simp), (cases b; simp), (cases b; simp))

lemma act_mono_end:
  "(\<And>e. act_mono (\<lambda>f. g f e)) \<Longrightarrow> (\<And>b. act_mono (\<lambda>f. h f b)) \<Longrightarrow> (\<And>b. act_mono (\<lambda>f. k f b)) \<Longrightarrow>
     act_mono (\<lambda>f. case r of FilterError e \<Rightarrow> g f e | Failed b \<Rightarrow> h f b | Ran b \<Rightarrow> k f b)"
  by (cases r) simp_all

lemma act_mono_each: "(\<And>x. act_mono (\<lambda>f. g f x)) \<Longrightarrow> act_mono (\<lambda>f. seach (g f) xs)"
  by (induction xs) (simp_all add: act_mono_const act_mono_bind)

lemmas act_monos = act_mono_bind act_mono_case act_mono_end act_mono_each act_mono_const

lemma run_list_mono:
  assumes e: "\<And>acc a. act_mono (\<lambda>f. e f acc a)"
  shows "act_mono (\<lambda>f. run_list env (e f) acc rm as)"
proof -
  have set: "act_mono (\<lambda>f. acc_setBalanceAction env (e f) acc a)" for a
    unfolding acc_setBalanceAction_def by (intro act_monos e)
  then have "act_mono (\<lambda>f. set_summaries env (e f) acc ss)" for ss
    by (induction ss) (auto intro!: act_monos)
  then have act: "act_mono (\<lambda>f. run_action env (e f) acc a)" for a
    unfolding run_action_def quiet_def Let_def topupAction_def debitBalanceAction_def genericReset_def ResetActionTriggers_def
      resetAccount_def by (intro act_monos e set)
  show ?thesis
  proof (induction as arbitrary: rm)
    case (Cons a as)
    show ?case unfolding run_list.simps by (intro act_monos act Cons.IH)
  qed (simp add: act_mono_const)
qed

lemma run_trigger_mono:
  assumes "\<And>acc a. act_mono (\<lambda>f. e f acc a)"
  shows "act_mono (\<lambda>f. run_trigger env (e f) acc a i)"
proof -
  have "act_mono (\<lambda>f. at_Execute env (e f) acc i)"
    unfolding at_Execute_def by (intro act_monos run_list_mono assms)
  then show ?thesis
    unfolding run_trigger_def check_counter_def check_balance_def Let_def by (intro act_monos)
qed

lemma sbind_mono [partial_function_mono]:
  "(\<And>w. mono_option (\<lambda>f. m f w)) \<Longrightarrow> (\<And>a w. mono_option (\<lambda>f. g f a w)) \<Longrightarrow> mono_option (\<lambda>f. sbind (m f) (g f) w)"
  using act_mono_bind [of m g] by (simp add: act_mono_def)

lemma run_triggers_mono [partial_function_mono]:
  "(\<And>acc a w. mono_option (\<lambda>f. e f acc a w)) \<Longrightarrow> mono_option (\<lambda>f. seach (run_trigger env (e f) acc a) is w)"
  using act_mono_each [OF run_trigger_mono [of e env acc a], where i2 = "\<lambda>i. i"] by (simp add: act_mono_def)

text \<open>The triggers of an account do not run while they are running.\<close>

partial_function (option) ExecuteActionTriggers :: "acc_env \<Rightarrow> nat \<Rightarrow> Action option \<Rightarrow> world \<Rightarrow> ((error + unit) \<times> world) option" where
  "ExecuteActionTriggers env acc a w =
     (if acc \<ge> length (wAcc w) then Some (Inl nil_deref, w)
      else if aexecutingTriggers (wAcc w ! acc) then Some (Inr (), w)
      else sbind (smod (upd_acc acc (\<lambda>x. x\<lparr>aexecutingTriggers := True, aActionTriggers := ActionTriggers_Sort (aActionTriggers x)\<rparr>))) (\<lambda>_.
           sbind (sget (\<lambda>w. length (aActionTriggers (wAcc w ! acc)))) (\<lambda>n.
           sbind (seach (run_trigger env (ExecuteActionTriggers env) acc a) [0..<n]) (\<lambda>_.
           sbind (CleanExpiredStuff env acc) (\<lambda>_. smod (upd_acc acc (\<lambda>x. x\<lparr>aexecutingTriggers := False\<rparr>)))))) w)"

declare ExecuteActionTriggers.simps [code]

definition countUnits :: "acc_env \<Rightarrow> nat \<Rightarrow> float64 \<Rightarrow> string \<Rightarrow> CallCost option \<Rightarrow> Balance option \<Rightarrow> unit act" where
  "countUnits env acc amount kind cc b =
     sbind (smod (upd_acc acc (\<lambda>a. a\<lparr>aUnitCounters := addUnits (GetReverseDestination (aeRating env)) (aUnitCounters a) amount kind cc b\<rparr>)))
       (\<lambda>_. ExecuteActionTriggers env acc None)"

subsection \<open>action\_plan.go: the execution of a plan\<close>

text \<open>The actions of a plan on one account, whether they all ran; the account is saved only then.\<close>

definition execute_on :: "acc_env \<Rightarrow> Action list \<Rightarrow> string \<Rightarrow> bool act" where
  "execute_on env aac accID =
     sbind (GetAccount accID) (\<lambda>r.
       case r of
         Inl _ \<Rightarrow> sret True
       | Inr acc \<Rightarrow>
           sbind (run_list env (ExecuteActionTriggers env) acc False aac) (\<lambda>e.
             case e of
               FilterError _ \<Rightarrow> sret True
             | Failed _ \<Rightarrow> sret False
             | Ran removed \<Rightarrow> if removed then sret True else sbind (SetAccount env acc) (\<lambda>_. sret True)))"

primrec execute_all :: "acc_env \<Rightarrow> Action list \<Rightarrow> string list \<Rightarrow> bool act" where
  "execute_all env aac [] = sret True"
| "execute_all env aac (i # is) =
     sbind (execute_on env aac i) (\<lambda>ok. sbind (execute_all env aac is) (\<lambda>ok'. sret (ok \<and> ok')))"

text \<open>A plan without accounts runs its actions without one; those on accounts fail. The expiration of an action without
  balance is written through a nil pointer.\<close>

primrec run_nil :: "acc_env \<Rightarrow> Action list \<Rightarrow> error + bool" where
  "run_nil env [] = Inr True"
| "run_nil env (a # as) =
     (let expires = (case ParseTimeDetectLayout (aeLib env) (acExpirationString a) (aeTimezone env) of Inl _ \<Rightarrow> False | Inr t \<Rightarrow> \<not> IsZero t)
      in if acBalance a = None \<and> expires then Inl nil_deref
         else if acActionType a \<in> set external_actions \<or> acActionType a = ''*remove_account''
         then (if aeExternal env a \<noteq> None then Inr False else run_nil env as)
         else Inr False)"

definition ActionTiming_Execute :: "acc_env \<Rightarrow> error + Action list \<Rightarrow> string list \<Rightarrow> error option act" where
  "ActionTiming_Execute env actions accountIDs =
     (case actions of
        Inl e \<Rightarrow> sret (Some e)
      | Inr aac \<Rightarrow>
          sbind (if accountIDs = [] then slift (run_nil env (Actions_Sort aac)) else execute_all env (Actions_Sort aac) accountIDs) (\<lambda>ok.
            sret (if ok then None else Some ErrPartiallyExecuted)))"

end
