(* ===== verification/Debit.thy ===== *)
theory Debit
  imports Account_Actions
begin

text \<open>
  Debiting calls: \<^verbatim>\<open>debitUnits\<close>, \<^verbatim>\<open>debitMoney\<close> and \<^verbatim>\<open>SaveDirtyBalances\<close> of \<^verbatim>\<open>engine/balances.go\<close>, \<^verbatim>\<open>DebitConnectionFee\<close> and
  \<^verbatim>\<open>debitCreditBalance\<close> of \<^verbatim>\<open>engine/account.go\<close>, and the operations of \<^verbatim>\<open>engine/calldesc.go\<close> that debit and refund.

  The spans of a cost that was compressed share their increments after \<^verbatim>\<open>Decompress\<close>: a debit writes to an increment once
  for every span that shares it. A span being debited is therefore a pair of the span and the positions of its increments in
  a list, and the values are put back at the end. The lock on the accounts (\<^verbatim>\<open>Guardian\<close>) is taken around the operations.
\<close>

subsection \<open>Spans and their increments\<close>

type_synonym dspan = "TimeSpan \<times> nat list"

fun share_spans :: "TimeSpan list \<Rightarrow> nat \<Rightarrow> dspan list \<times> Increment list" where
  "share_spans [] n = ([], [])"
| "share_spans (ts # tss) n =
     (let l = Increments_Decompress (tsIncrements ts);
          (spans, incs) = share_spans tss (n + length l)
      in (map (\<lambda>u. (u, [n..<n + length l])) (TimeSpans_Decompress [ts]) @ spans, l @ incs))"

definition span_value :: "Increment list \<Rightarrow> dspan \<Rightarrow> TimeSpan" where
  "span_value incs s = (fst s)\<lparr>tsIncrements := map (\<lambda>q. incs ! q) (snd s)\<rparr>"

text \<open>Without writes, the spans are those of the by-value model.\<close>

lemma share_spans_value: "share_spans tss (length pre) = (spans, incs) \<Longrightarrow>
    map (span_value (pre @ incs @ post)) spans = TimeSpans_Decompress tss"
proof (induction tss arbitrary: pre spans incs)
  case Nil
  then show ?case by (simp add: TimeSpans_Decompress_def)
next
  case (Cons ts tss)
  let ?l = "Increments_Decompress (tsIncrements ts)"
  obtain s i where r: "share_spans tss (length (pre @ ?l)) = (s, i)" by (cases "share_spans tss (length (pre @ ?l))")
  then have si: "spans = map (\<lambda>u. (u, [length pre..<length pre + length ?l])) (TimeSpans_Decompress [ts]) @ s" "incs = ?l @ i"
    using Cons.prems by (auto simp: Let_def)
  have keep: "tsIncrements u = tsIncrements c" if "u \<in> set (decompress_span d n c)" for u d n c
    using that by (induction d n c rule: decompress_span.induct) (auto simp: Let_def)
  then have "tsIncrements u = ?l" if "u \<in> set (TimeSpans_Decompress [ts])" for u
    using that by (fastforce simp: TimeSpans_Decompress_def Let_def)
  moreover have "map (\<lambda>q. (pre @ ?l @ i @ post) ! q) [length pre..<length pre + length ?l] = ?l"
    by (rule nth_equalityI) (simp_all add: nth_append)
  ultimately have "map (span_value (pre @ incs @ post)) (map (\<lambda>u. (u, [length pre..<length pre + length ?l])) (TimeSpans_Decompress [ts]))
      = TimeSpans_Decompress [ts]"
    by (auto simp: span_value_def si(2) o_def intro!: map_idI)
  moreover have "map (span_value ((pre @ ?l) @ i @ post)) s = TimeSpans_Decompress tss" by (rule Cons.IH [OF r])
  moreover have "TimeSpans_Decompress (ts # tss) = TimeSpans_Decompress [ts] @ TimeSpans_Decompress tss"
    by (simp add: TimeSpans_Decompress_def)
  ultimately show ?case by (simp add: si)
qed

definition set_inc :: "nat \<Rightarrow> (Increment \<Rightarrow> Increment) \<Rightarrow> Increment list \<Rightarrow> Increment list" where
  "set_inc q f incs = incs[q := f (incs ! q)]"

definition set_info :: "nat \<Rightarrow> (DebitInfo \<Rightarrow> DebitInfo) \<Rightarrow> Increment list \<Rightarrow> error + Increment list" where
  "set_info q f incs =
     (case icBalanceInfo (incs ! q) of
        None \<Rightarrow> Inl nil_deref
      | Some di \<Rightarrow> Inr (set_inc q (\<lambda>i. i\<lparr>icBalanceInfo := Some (f di), icpaid := True\<rparr>) incs))"

definition monetary_info :: "Balance \<Rightarrow> RateInterval option \<Rightarrow> MonetaryInfo" where
  "monetary_info b ri = \<lparr>miUUID = bUuid b, miID = bID b, miValue = bValue b, miRateInterval = ri\<rparr>"

subsection \<open>The connect fee\<close>

datatype fee_result = FeePaid Balance | FeeBlocked | FeeUnpaid

primrec fee_from :: "acc_env \<Rightarrow> nat \<Rightarrow> CallCost \<Rightarrow> bool \<Rightarrow> float64 \<Rightarrow> nat list \<Rightarrow> fee_result act" where
  "fee_from env acc cc counting fee [] = sret FeeUnpaid"
| "fee_from env acc cc counting fee (p # ps) =
     sbind (sget (\<lambda>w. wBal w ! p)) (\<lambda>b.
       if fleq fee (bValue b) then
         sbind (smod (upd_bal p (\<lambda>b. SubstractValue b fee))) (\<lambda>_.
         sbind (if counting then sbind (sget (\<lambda>w. wBal w ! p)) (\<lambda>b. countUnits env acc fee MONETARY (Some cc) (Some b)) else sret ()) (\<lambda>_.
           sget (\<lambda>w. FeePaid (wBal w ! p))))
       else if bBlocker b then sret FeeBlocked
       else fee_from env acc cc counting fee ps)"

text \<open>Whether to go on, the balance debited (a zero one if none) and the cost, which notes down a fee that went negative.\<close>

definition DebitConnectionFee :: "acc_env \<Rightarrow> nat \<Rightarrow> CallCost \<Rightarrow> nat list \<Rightarrow> bool \<Rightarrow> (bool \<times> Balance \<times> CallCost) act" where
  "DebitConnectionFee env acc cc moneyBalances counting =
     (if \<not> ccdeductConnectFee cc then sret (True, new_Balance, cc)
      else let fee = GetConnectFee cc
           in sbind (fee_from env acc cc counting fee moneyBalances) (\<lambda>r.
                case r of
                  FeeBlocked \<Rightarrow> sret (False, new_Balance, cc)
                | FeePaid b \<Rightarrow> sret (True, b, cc)
                | FeeUnpaid \<Rightarrow>
                    if \<not> fless (Fin 0) fee then sret (True, new_Balance, cc)
                    else let cc' = cc\<lparr>ccnegativeConnectFee := True\<rparr>
                         in sbind (GetDefaultMoneyBalance env acc) (\<lambda>p.
                            sbind (smod (upd_bal p (\<lambda>b. SubstractValue b fee))) (\<lambda>_.
                            sbind (sget (\<lambda>w. wBal w ! p)) (\<lambda>b.
                            sbind (if counting then countUnits env acc fee MONETARY (Some cc') (Some b) else sret ()) (\<lambda>_.
                              sret (True, b, cc')))))))"

subsection \<open>Debiting the increments of a span\<close>

text \<open>How the increments of a span ended: all done, out of credit at an increment, or stopped there by the maximum cost.\<close>

datatype cut = Whole | CutAt nat | Disconnect nat

text \<open>The increments, the cost so far and whether the maximum cost disconnects.\<close>

type_synonym inc_state = "Increment list \<times> float64 \<times> bool"

record debit_ctx =
  dxEnv :: acc_env
  dxBal :: nat
  dxAcc :: nat
  dxMoney :: "nat list"
  dxCount :: bool
  dxDry :: bool
  dxCC :: CallCost
  dxCD :: CallDescriptor

definition count_if :: "debit_ctx \<Rightarrow> float64 \<Rightarrow> string \<Rightarrow> nat \<Rightarrow> unit act" where
  "count_if dx amount kind p =
     (if dxCount dx
      then sbind (sget (\<lambda>w. wBal w ! p)) (\<lambda>b. countUnits (dxEnv dx) (dxAcc dx) amount kind (Some (dxCC dx)) (Some b))
      else sret ())"

text \<open>What an increment costs nothing for, once the maximum cost is reached.\<close>

definition free_inc :: "debit_ctx \<Rightarrow> nat \<Rightarrow> RateInterval option \<Rightarrow> Increment list \<Rightarrow> Increment list act" where
  "free_inc dx q ri incs =
     sbind (sget (\<lambda>w. (wBal w ! dxBal dx, aID (wAcc w ! dxAcc dx)))) (\<lambda>(b, accID).
     sbind (slift (set_info q (\<lambda>di. di\<lparr>diMonetary := Some (monetary_info b ri), diAccountID := accID\<rparr>)
                     (set_inc q (\<lambda>i. i\<lparr>icCost := Fin 0\<rparr>) incs))) (\<lambda>incs'.
     sbind (count_if dx (Fin 0) MONETARY (dxBal dx)) (\<lambda>_. sret incs')))"

primrec money_incs :: "debit_ctx \<Rightarrow> RateInterval \<Rightarrow> nat \<Rightarrow> nat list \<Rightarrow> inc_state \<Rightarrow> (cut \<times> inc_state) act" where
  "money_incs dx ri n [] s = sret (Whole, s)"
| "money_incs dx ri n (q # qs) s =
     (let (incs0, sofar, disc0) = s;
          amount = icCost (incs0 ! q);
          incs = set_inc q (\<lambda>i. i\<lparr>icpaid := False\<rparr>) incs0;
          (maxCost, strategy) = GetMaxCost ri;
          stop = (strategy = ''*disconnect'' \<and> fleq maxCost sofar);
          disc = (disc0 \<or> stop)
      in if stop \<and> dxDry dx then sret (Disconnect n, incs, sofar, disc)
         else if strategy = ''*free'' \<and> fleq maxCost sofar then
           sbind (sget (\<lambda>w. bRatingSubject (wBal w ! dxBal dx))) (\<lambda>subj.
           sbind (free_inc dx q (if subj \<noteq> [] then Some ri else None) incs) (\<lambda>incs'.
             money_incs dx ri (Suc n) qs (incs', sofar, disc)))
         else
           sbind (sget (\<lambda>w. fleq amount (bValue (wBal w ! dxBal dx)))) (\<lambda>enough.
             if \<not> enough then sret (CutAt n, incs, sofar, disc)
             else sbind (smod (upd_bal (dxBal dx) (\<lambda>b. SubstractValue b amount))) (\<lambda>_.
                  sbind (sget (\<lambda>w. (wBal w ! dxBal dx, aID (wAcc w ! dxAcc dx)))) (\<lambda>(b, accID).
                  sbind (slift (set_info q (\<lambda>di. di\<lparr>diMonetary := Some (monetary_info b (if bRatingSubject b \<noteq> [] then Some ri else None)),
                                  diAccountID := accID\<rparr>) incs)) (\<lambda>incs'.
                  sbind (count_if dx amount MONETARY (dxBal dx)) (\<lambda>_.
                    money_incs dx ri (Suc n) qs (incs', fadd sofar amount, disc)))))))"

text \<open>The units an increment takes, by the factor of the balance.\<close>

definition unit_amount :: "CallDescriptor \<Rightarrow> Balance \<Rightarrow> Increment \<Rightarrow> float64" where
  "unit_amount cd b inc =
     (let amount = float_of_int (icDuration inc)
      in case bFactor b of
           None \<Rightarrow> amount
         | Some f \<Rightarrow> Round (fdiv amount (factor_GetValue f (cdToR cd))) globalRoundingDecimals ROUNDING_UP)"

definition unit_info :: "Balance \<Rightarrow> CallCost \<Rightarrow> float64 \<Rightarrow> RateInterval option \<Rightarrow> UnitInfo" where
  "unit_info b cc amount ri = \<lparr>uiUUID = bUuid b, uiID = bID b, uiValue = bValue b, uiDestinationID = ccDestination cc,
     uiConsumed = amount, uiToR = ccToR cc, uiRateInterval = ri\<rparr>"

text \<open>The money balance that pays an increment: the first with enough, or the default one when the debit may go negative.\<close>

definition money_for :: "debit_ctx \<Rightarrow> float64 \<Rightarrow> nat option act" where
  "money_for dx cost =
     sbind (sget (\<lambda>w. (find (\<lambda>p. fleq cost (bValue (wBal w ! p))) (dxMoney dx), aAllowNegative (wAcc w ! dxAcc dx)))) (\<lambda>(m, neg).
       if \<not> feq cost (Fin 0) \<and> m = None \<and> (\<not> dxDry dx \<or> neg)
       then sbind (GetDefaultMoneyBalance (dxEnv dx) (dxAcc dx)) (\<lambda>p. sret (Some p))
       else sret m)"

primrec unit_incs :: "debit_ctx \<Rightarrow> RateInterval \<Rightarrow> nat \<Rightarrow> nat list \<Rightarrow> inc_state \<Rightarrow> (cut \<times> inc_state) act" where
  "unit_incs dx ri n [] s = sret (Whole, s)"
| "unit_incs dx ri n (q # qs) s =
     (let (incs0, sofar, disc0) = s;
          cost = icCost (incs0 ! q);
          incs = set_inc q (\<lambda>i. i\<lparr>icpaid := False\<rparr>) incs0;
          (maxCost, strategy) = GetMaxCost ri;
          stop = (strategy = ''*disconnect'' \<and> fleq maxCost sofar);
          disc = (disc0 \<or> stop)
      in if stop \<and> dxDry dx then sret (Disconnect n, incs, sofar, disc)
         else if strategy = ''*free'' \<and> fleq maxCost sofar then
           sbind (free_inc dx q (Some ri) incs) (\<lambda>incs'. unit_incs dx ri (Suc n) qs (incs', sofar, disc))
         else
           sbind (money_for dx cost) (\<lambda>m.
           sbind (sget (\<lambda>w. unit_amount (dxCD dx) (wBal w ! dxBal dx) (incs0 ! q))) (\<lambda>amount.
           sbind (sget (\<lambda>w. fleq amount (bValue (wBal w ! dxBal dx)) \<and> (m \<noteq> None \<or> feq cost (Fin 0)))) (\<lambda>enough.
             if \<not> enough then sret (CutAt n, incs, sofar, disc)
             else sbind (smod (upd_bal (dxBal dx) (\<lambda>b. SubstractValue b amount))) (\<lambda>_.
                  sbind (sget (\<lambda>w. (unit_info (wBal w ! dxBal dx) (dxCC dx) amount (Some ri), aID (wAcc w ! dxAcc dx)))) (\<lambda>(ui, accID).
                  sbind (slift (set_info q (\<lambda>di. di\<lparr>diUnit := Some ui, diAccountID := accID\<rparr>) incs)) (\<lambda>incs1.
                  sbind (if feq cost (Fin 0) then sret incs1
                         else case m of
                                None \<Rightarrow> sfail nil_deref
                              | Some p \<Rightarrow>
                                  sbind (smod (upd_bal p (\<lambda>b. SubstractValue b cost))) (\<lambda>_.
                                  sbind (sget (\<lambda>w. monetary_info (wBal w ! p) None)) (\<lambda>mi.
                                    slift (set_info q (\<lambda>di. di\<lparr>diMonetary := Some mi\<rparr>) incs1)))) (\<lambda>incs2.
                  sbind (count_if dx amount (ccToR (dxCC dx)) (dxBal dx)) (\<lambda>_.
                  sbind (case m of
                           None \<Rightarrow> sret ()
                         | Some p \<Rightarrow> if feq cost (Fin 0) then sret () else count_if dx cost MONETARY p) (\<lambda>_.
                    unit_incs dx ri (Suc n) qs (incs2, if feq cost (Fin 0) then sofar else fadd sofar cost, disc)))))))))))"

primrec zero_incs :: "debit_ctx \<Rightarrow> nat \<Rightarrow> nat list \<Rightarrow> Increment list \<Rightarrow> (cut \<times> Increment list) act" where
  "zero_incs dx n [] incs = sret (Whole, incs)"
| "zero_incs dx n (q # qs) incs =
     sbind (sget (\<lambda>w. unit_amount (dxCD dx) (wBal w ! dxBal dx) (incs ! q))) (\<lambda>amount.
     sbind (sget (\<lambda>w. fleq amount (bValue (wBal w ! dxBal dx)))) (\<lambda>enough.
       if \<not> enough then sret (CutAt n, set_inc q (\<lambda>i. i\<lparr>icpaid := False\<rparr>) incs)
       else sbind (smod (upd_bal (dxBal dx) (\<lambda>b. SubstractValue b amount))) (\<lambda>_.
            sbind (sget (\<lambda>w. (unit_info (wBal w ! dxBal dx) (dxCC dx) amount None, aID (wAcc w ! dxAcc dx)))) (\<lambda>(ui, accID).
            sbind (slift (set_info q (\<lambda>di. di\<lparr>diUnit := Some ui, diAccountID := accID\<rparr>) (set_inc q (\<lambda>i. i\<lparr>icCost := Fin 0\<rparr>) incs))) (\<lambda>incs'.
            sbind (count_if dx amount (ccToR (dxCC dx)) (dxBal dx)) (\<lambda>_. zero_incs dx (Suc n) qs incs'))))))"

subsection \<open>Debiting the spans of a cost\<close>

definition fee_increment :: "RIRate \<Rightarrow> Balance \<Rightarrow> string \<Rightarrow> Increment" where
  "fee_increment r fb accID = \<lparr>icDuration = 0, icCost = rrConnectFee r,
     icBalanceInfo = Some \<lparr>diUnit = None, diMonetary = Some (monetary_info fb None), diAccountID = accID\<rparr>,
     icCompressFactor = 0, icpaid = False\<rparr>"

definition cut_spans :: "Increment list \<Rightarrow> dspan \<Rightarrow> nat \<Rightarrow> dspan list" where
  "cut_spans incs s k =
     (if k = 0 then []
      else [(fst (SplitByIncrement [] (span_value incs s) (int k)), take k (snd s))])"

text \<open>The increments of a span, made when it has none; the connect fee \<open>fb\<close> paid goes before those of the first span.\<close>

definition open_span :: "int \<Rightarrow> bool \<Rightarrow> Balance option \<Rightarrow> string \<Rightarrow> dspan \<Rightarrow> Increment list
    \<Rightarrow> error + ((error + (RateInterval \<times> bool)) \<times> dspan \<times> Increment list)" where
  "open_span maxInc first fb accID s incs =
     (let (s1, incs1) = (if snd s \<noteq> [] then (s, incs)
                         else let ts = createIncrementsSlice maxInc (fst s)
                              in ((ts, [length incs..<length incs + length (tsIncrements ts)]), incs @ tsIncrements ts))
      in case tsRateInterval (fst s1) of
           None \<Rightarrow> Inr (Inl (ErrMsg ''timespan with no rate interval assigned''), s1, incs1)
         | Some ri \<Rightarrow>
             if \<not> first then Inr (Inr (ri, False), s1, incs1)
             else ebind (nn_rating ri) (\<lambda>r.
                    case fb of
                      None \<Rightarrow> Inr (Inr (ri, False), s1, incs1)
                    | Some b \<Rightarrow>
                        if fless (Fin 0) (rrConnectFee r)
                        then Inr (Inr (ri, True), (fst s1, length incs1 # snd s1), incs1 @ [fee_increment r b accID])
                        else Inr (Inr (ri, False), s1, incs1)))"

text \<open>\<open>body\<close> debits the increments of one span. The result is the error returned, or how the last span ended; with it the spans kept.\<close>

primrec debit_spans :: "int \<Rightarrow> Balance option \<Rightarrow> string \<Rightarrow> (RateInterval \<Rightarrow> nat \<Rightarrow> nat list \<Rightarrow> inc_state \<Rightarrow> (cut \<times> inc_state) act)
    \<Rightarrow> bool \<Rightarrow> dspan list \<Rightarrow> inc_state \<Rightarrow> ((error + cut) \<times> dspan list \<times> inc_state) act" where
  "debit_spans maxInc fb accID body first [] st = sret (Inr Whole, [], st)"
| "debit_spans maxInc fb accID body first (s # ss) st =
     sbind (slift (open_span maxInc first fb accID s (fst st))) (\<lambda>(r, s1, incs1).
       case r of
         Inl e \<Rightarrow> sret (Inl e, [], incs1, snd st)
       | Inr (ri, fee) \<Rightarrow>
           sbind (body ri (if fee then 1 else 0) (if fee then tl (snd s1) else snd s1) (incs1, snd st)) (\<lambda>(c, st').
             case c of
               Whole \<Rightarrow> sbind (debit_spans maxInc fb accID body False ss st') (\<lambda>(r', done', st''). sret (r', s1 # done', st''))
             | CutAt k \<Rightarrow> sret (Inr c, cut_spans (fst st') s1 k, st')
             | Disconnect k \<Rightarrow> sret (Inr c, cut_spans (fst st') s1 k, st')))"

text \<open>The result of a debit: an error returned, or the cost of what was paid, if anything; with it the descriptor, whose
  rating information and cost so far are changed.\<close>

type_synonym part = "(error + CallCost option) \<times> CallDescriptor"

definition paid_part :: "bool \<Rightarrow> CallDescriptor \<Rightarrow> CallCost \<Rightarrow> (error + cut) \<times> dspan list \<times> inc_state \<Rightarrow> part" where
  "paid_part empty_nil cd cc r =
     (case r of (res, spans, incs, sofar, disc) \<Rightarrow>
        (case res of
           Inl e \<Rightarrow> Inl e
         | Inr c \<Rightarrow>
             let cc' = cc\<lparr>ccTimespans := map (span_value incs) spans, ccmaxCostDisconect := ccmaxCostDisconect cc \<or> disc\<rparr>
             in Inr (if spans = [] \<and> (case c of CutAt _ \<Rightarrow> True | Disconnect _ \<Rightarrow> False | Whole \<Rightarrow> empty_nil) then None else Some cc'),
         cd\<lparr>cdMaxCostSoFar := sofar\<rparr>))"

text \<open>What \<^verbatim>\<open>debitMoney\<close> and the rated part of \<^verbatim>\<open>debitUnits\<close> share: the cost, the connect fee, the spans.\<close>

definition debit_rated :: "acc_env \<Rightarrow> nat \<Rightarrow> nat \<Rightarrow> CallDescriptor \<Rightarrow> nat list \<Rightarrow> bool \<Rightarrow> bool \<Rightarrow> bool
    \<Rightarrow> (debit_ctx \<Rightarrow> RateInterval \<Rightarrow> nat \<Rightarrow> nat list \<Rightarrow> inc_state \<Rightarrow> (cut \<times> inc_state) act) \<Rightarrow> bool \<Rightarrow> part act" where
  "debit_rated env p acc cd moneyBalances counting dryRun debitConnectFee body empty_nil =
     sbind (sget (\<lambda>w. bal_GetCost (aeRating env) (wBal w ! p) cd True)) (\<lambda>r.
     sbind (sopt r) (\<lambda>(cd1, cc, err).
       case err of
         Some e \<Rightarrow> sret (Inl e, cd1)
       | None \<Rightarrow>
           sbind (if debitConnectFee then DebitConnectionFee env acc cc moneyBalances counting else sret (True, new_Balance, cc)) (\<lambda>(ok, fb, cc1).
             if \<not> ok then sret (Inr None, cd1)
             else
               let (spans, incs) = share_spans (ccTimespans cc1) 0;
                   dx = \<lparr>dxEnv = env, dxBal = p, dxAcc = acc, dxMoney = moneyBalances, dxCount = counting, dxDry = dryRun, dxCC = cc1, dxCD = cd1\<rparr>
               in sbind (sget (\<lambda>w. aID (wAcc w ! acc))) (\<lambda>accID.
                  sbind (debit_spans (MaxIncrements (aeRating env)) (if debitConnectFee \<and> ccdeductConnectFee cc1 then Some fb else None) accID
                           (body dx) True spans (incs, cdMaxCostSoFar cd1, False)) (\<lambda>r.
                    sret (paid_part empty_nil cd1 cc1 r))))))"

definition usable :: "nat \<Rightarrow> CallDescriptor \<Rightarrow> bool act" where
  "usable p cd =
     sbind (sget (\<lambda>w. bal_IsActiveAt (wBal w ! p) (cdTimeStart cd))) (\<lambda>r.
     sbind (slift r) (\<lambda>active. sget (\<lambda>w. active \<and> \<not> fleq (bValue (wBal w ! p)) (Fin 0))))"

definition debitMoney :: "acc_env \<Rightarrow> nat \<Rightarrow> nat \<Rightarrow> CallDescriptor \<Rightarrow> nat list \<Rightarrow> bool \<Rightarrow> bool \<Rightarrow> bool \<Rightarrow> part act" where
  "debitMoney env p acc cd moneyBalances counting dryRun debitConnectFee =
     sbind (usable p cd) (\<lambda>ok.
       if \<not> ok then sret (Inr None, cd)
       else debit_rated env p acc cd moneyBalances counting dryRun debitConnectFee money_incs True)"

text \<open>A balance whose units are free: the call is one span of increments of the given duration.\<close>

definition zero_span :: "acc_env \<Rightarrow> Balance \<Rightarrow> CallDescriptor \<Rightarrow> duration \<Rightarrow> TimeSpan" where
  "zero_span env b cd d =
     (let ts = RoundToDuration (new_TimeSpan (cdTimeStart cd) (cdTimeEnd cd)) d;
          (prefix, destid) = getMatchingPrefixAndDestID (GetReverseDestination (aeRating env)) b (cdDestination cd);
          ri = \<lparr>riTiming = None, riRating = Some \<lparr>rrConnectFee = Fin 0, rrRoundingMethod = [], rrRoundingDecimals = 0, rrMaxCost = Fin 0,
                  rrMaxCostStrategy = [], rrRates = [\<lparr>GroupIntervalStart = 0, rateValue = Fin 0, RateIncrement = d, RateUnit = d\<rparr>], rrtag = []\<rparr>,
                riWeight = Fin 0\<rparr>
      in createIncrementsSlice (MaxIncrements (aeRating env))
           (ts\<lparr>tsRateInterval := Some ri, tsMatchedSubject := bUuid b, tsMatchedPrefix := (if prefix = [] then cdDestination cd else prefix),
               tsMatchedDestId := (if destid = [] then ANY else destid), tsRatingPlanId := ''*none''\<rparr>))"

definition debit_zero :: "acc_env \<Rightarrow> nat \<Rightarrow> nat \<Rightarrow> CallDescriptor \<Rightarrow> bool \<Rightarrow> duration \<Rightarrow> part act" where
  "debit_zero env p acc cd counting d =
     sbind (sget (\<lambda>w. zero_span env (wBal w ! p) cd d)) (\<lambda>ts.
       let incs = tsIncrements ts; n = length incs; cc = CreateCallCost cd;
           dx = \<lparr>dxEnv = env, dxBal = p, dxAcc = acc, dxMoney = [], dxCount = counting, dxDry = False, dxCC = cc, dxCD = cd\<rparr>
       in sbind (zero_incs dx 0 [0..<n] incs) (\<lambda>(c, incs').
            sret (Inr (case c of
                         CutAt k \<Rightarrow> (case cut_spans incs' (ts, [0..<n]) k of
                                       [] \<Rightarrow> None
                                     | s # _ \<Rightarrow> Some (cc\<lparr>ccTimespans := [span_value incs' s]\<rparr>))
                       | _ \<Rightarrow> Some (cc\<lparr>ccTimespans := [span_value incs' (ts, [0..<n])]\<rparr>)), cd)))"

definition debitUnits :: "acc_env \<Rightarrow> nat \<Rightarrow> nat \<Rightarrow> CallDescriptor \<Rightarrow> nat list \<Rightarrow> bool \<Rightarrow> bool \<Rightarrow> bool \<Rightarrow> part act" where
  "debitUnits env p acc cd moneyBalances counting dryRun debitConnectFee =
     sbind (usable p cd) (\<lambda>ok.
       if \<not> ok then sret (Inr None, cd)
       else sbind (sget (\<lambda>w. bRatingSubject (wBal w ! p))) (\<lambda>subj.
              case ParseZeroRatingSubject (aeLib env) (cdToR cd) subj (aeBalanceRatingSubject env) of
                Inr d \<Rightarrow> debit_zero env p acc cd counting d
              | Inl _ \<Rightarrow> debit_rated env p acc cd moneyBalances counting dryRun debitConnectFee unit_incs False))"

subsection \<open>Saving the balances of other accounts\<close>

text \<open>The accounts saved so far are those in \<open>saved\<close>, by id.\<close>

primrec save_dirty :: "acc_env \<Rightarrow> nat \<Rightarrow> (string \<times> nat) list \<Rightarrow> nat list \<Rightarrow> (string \<times> nat) list act" where
  "save_dirty env acc saved [] = sret saved"
| "save_dirty env acc saved (p # ps) =
     sbind (sget (\<lambda>w. wBal w ! p)) (\<lambda>b.
       case baccount b of
         None \<Rightarrow> save_dirty env acc saved ps
       | Some owner \<Rightarrow>
           if \<not> bdirty b then save_dirty env acc saved ps
           else
             sbind (sget (\<lambda>w. aID (wAcc w ! owner))) (\<lambda>oid.
             sbind (GenUUID env) (\<lambda>u.
             sbind (send_to False (aeThresholdSConns env) (balance_event env u oid b)) (\<lambda>_.
               if owner = acc \<or> oid \<in> fst ` set saved then save_dirty env acc saved ps
               else sbind (SetAccount env owner) (\<lambda>_. save_dirty env acc (saved @ [(oid, owner)]) ps)))))"

definition SaveDirtyBalances :: "acc_env \<Rightarrow> nat \<Rightarrow> nat list \<Rightarrow> unit act" where
  "SaveDirtyBalances env acc bc =
     sbind (save_dirty env acc [] bc) (\<lambda>saved.
       if aeThresholdSConns env then
         seach (\<lambda>(_, owner). sbind (GenUUID env) (\<lambda>u. sbind (sget (\<lambda>w. account_event u (wAcc w ! owner))) (send_to False True))) saved
       else sret ())"

subsection \<open>Debiting an account\<close>

text \<open>The state of the loops: the descriptor, whose start moves on, the cost collected and whether a balance with a rating
  subject of its own was tried.\<close>

record deb_state =
  dsCD :: CallDescriptor
  dsCC :: CallCost
  dsSubj :: bool

text \<open>How a pass over the balances ended: with or without progress, the call covered, a return of a dry run, or an error returned.\<close>

datatype pass = Pass bool | Covered | Stopped | Erred error

type_synonym debit_fn = "nat \<Rightarrow> nat \<Rightarrow> CallDescriptor \<Rightarrow> bool \<Rightarrow> part act"

definition own_subject :: "Balance \<Rightarrow> bool" where
  "own_subject b \<longleftrightarrow> bRatingSubject b \<noteq> [] \<and> \<not> has_prefix (bRatingSubject b) ZERO_RATING_SUBJECT_PREFIX"

primrec try_balances :: "acc_env \<Rightarrow> bool \<Rightarrow> bool \<Rightarrow> debit_fn \<Rightarrow> bool \<Rightarrow> nat list \<Rightarrow> deb_state \<Rightarrow> (pass \<times> deb_state) act" where
  "try_balances env dryRun units f progress [] st = sret (Pass progress, st)"
| "try_balances env dryRun units f progress (p # ps) st =
     sbind (sget (\<lambda>w. baccount (wBal w ! p))) (\<lambda>owner.
       case owner of
         None \<Rightarrow> sfail nil_deref
       | Some acc \<Rightarrow>
           sbind (f p acc (dsCD st) (ccTimespans (dsCC st) = [])) (\<lambda>(r, cd).
             case r of
               Inl e \<Rightarrow> sret (Erred e, st\<lparr>dsCD := cd\<rparr>)
             | Inr part \<Rightarrow>
                 sbind (sget (\<lambda>w. (units \<and> own_subject (wBal w ! p), bBlocker (wBal w ! p)))) (\<lambda>(own, blocker).
                   let st1 = st\<lparr>dsCD := cd, dsSubj := dsSubj st \<or> own\<rparr>
                   in case part of
                        None \<Rightarrow> if dryRun \<and> blocker then sret (Stopped, st1) else try_balances env dryRun units f progress ps st1
                      | Some pc \<Rightarrow>
                          let cc = (dsCC st)\<lparr>ccTimespans := ccTimespans (dsCC st) @ ccTimespans pc, ccnegativeConnectFee := ccnegativeConnectFee pc\<rparr>;
                              st2 = st1\<lparr>dsCC := cc, dsCD := cd\<lparr>cdTimeStart := GetEndTime (aeNow env) cc\<rparr>\<rparr>
                          in if cd_GetDuration (dsCD st2) \<le> 0 then sret (Covered, st2)
                             else if dryRun \<and> (ccmaxCostDisconect pc \<or> blocker) then sret (Stopped, st2)
                             else try_balances env dryRun units f True ps st2)))"

text \<open>Every balance is tried again as long as one of them paid for something.\<close>

definition pass_step :: "acc_env \<Rightarrow> bool \<Rightarrow> bool \<Rightarrow> debit_fn \<Rightarrow> nat list \<Rightarrow> bool \<times> deb_state \<times> world
    \<Rightarrow> (((error + (pass \<times> deb_state)) \<times> world) option + (bool \<times> deb_state \<times> world))" where
  "pass_step env dryRun units f ps s =
     (case s of (any, st, w) \<Rightarrow>
        (case try_balances env dryRun units f False ps st w of
           None \<Rightarrow> Inl None
         | Some (Inl e, w') \<Rightarrow> Inl (Some (Inl e, w'))
         | Some (Inr (Pass True, st'), w') \<Rightarrow> Inr (True, st', w')
         | Some (Inr (Pass False, st'), w') \<Rightarrow> Inl (Some (Inr (Pass any, st'), w'))
         | Some (Inr r, w') \<Rightarrow> Inl (Some (Inr r, w'))))"

partial_function (option) iterate_step :: "('s \<Rightarrow> 'r option + 's) \<Rightarrow> 's \<Rightarrow> 'r option" where
  "iterate_step step s = (case step s of Inl r \<Rightarrow> r | Inr s' \<Rightarrow> iterate_step step s')"

declare iterate_step.simps [code]

definition all_passes :: "acc_env \<Rightarrow> bool \<Rightarrow> bool \<Rightarrow> debit_fn \<Rightarrow> nat list \<Rightarrow> deb_state \<Rightarrow> (pass \<times> deb_state) act" where
  "all_passes env dryRun units f ps st w = iterate_step (pass_step env dryRun units f ps) (False, st, w)"

definition both_kinds :: "acc_env \<Rightarrow> bool \<Rightarrow> bool \<Rightarrow> nat list \<Rightarrow> nat list \<Rightarrow> deb_state \<Rightarrow> (pass \<times> deb_state) act" where
  "both_kinds env dryRun counting us ms st =
     sbind (all_passes env dryRun True (\<lambda>p acc cd fee. debitUnits env p acc cd ms counting dryRun fee) us st) (\<lambda>(r, st1).
       case r of
         Pass a \<Rightarrow>
           sbind (all_passes env dryRun False (\<lambda>p acc cd fee. debitMoney env p acc cd ms counting dryRun fee) ms st1) (\<lambda>(r', st2).
             case r' of Pass b \<Rightarrow> sret (Pass (a \<or> b), st2) | _ \<Rightarrow> sret (r', st2))
       | _ \<Rightarrow> sret (r, st1))"

definition general_step :: "acc_env \<Rightarrow> bool \<Rightarrow> bool \<Rightarrow> nat list \<Rightarrow> nat list \<Rightarrow> deb_state \<times> world
    \<Rightarrow> (((error + (pass \<times> deb_state)) \<times> world) option + (deb_state \<times> world))" where
  "general_step env dryRun counting us ms s =
     (case both_kinds env dryRun counting us ms (fst s) (snd s) of
        Some (Inr (Pass True, st'), w') \<Rightarrow> Inr (st', w')
      | r \<Rightarrow> Inl r)"

definition balance_loops :: "acc_env \<Rightarrow> bool \<Rightarrow> bool \<Rightarrow> nat list \<Rightarrow> nat list \<Rightarrow> deb_state \<Rightarrow> (pass \<times> deb_state) act" where
  "balance_loops env dryRun counting us ms st w = iterate_step (general_step env dryRun counting us ms) (st, w)"

text \<open>What is left is debited from the default balance, which may go below zero.\<close>

primrec negative_incs :: "acc_env \<Rightarrow> nat \<Rightarrow> CallCost \<Rightarrow> bool \<Rightarrow> nat list \<Rightarrow> Increment list \<Rightarrow> Increment list act" where
  "negative_incs env acc leftCC counting [] incs = sret incs"
| "negative_incs env acc leftCC counting (q # qs) incs =
     (let cost = icCost (incs ! q)
      in sbind (GetDefaultMoneyBalance env acc) (\<lambda>p.
         sbind (smod (upd_bal p (\<lambda>b. SubstractValue b cost))) (\<lambda>_.
         sbind (sget (\<lambda>w. (wBal w ! p, aID (wAcc w ! acc)))) (\<lambda>(b, accID).
         sbind (if aeThresholdSConns env
                then sbind (GenUUID env) (\<lambda>u. send_to False True (balance_event env u accID (b\<lparr>bExpirationDate := 0\<rparr>)))
                else sret ()) (\<lambda>_.
         sbind (slift (set_info q (\<lambda>di. di\<lparr>diMonetary := Some (monetary_info b None), diAccountID := accID\<rparr>) incs)) (\<lambda>incs'.
         sbind (if counting
                then countUnits env acc cost MONETARY (Some leftCC)
                       (Some (new_Balance\<lparr>bValue := cost, bDestinationIDs := Some (NewStringMap [ccDestination leftCC])\<rparr>))
                else sret ()) (\<lambda>_. negative_incs env acc leftCC counting qs incs')))))))"

text \<open>The rate interval is read when the connect fee was debited. \<open>fb\<close> is the balance it was taken from.\<close>

definition open_left :: "int \<Rightarrow> bool \<Rightarrow> bool \<Rightarrow> Balance option \<Rightarrow> string \<Rightarrow> dspan \<Rightarrow> Increment list \<Rightarrow> error + (bool \<times> dspan \<times> Increment list)" where
  "open_left maxInc first deduct fb accID s incs =
     (let (s1, incs1) = (if snd s \<noteq> [] then (s, incs)
                         else let ts = createIncrementsSlice maxInc (fst s)
                              in ((ts, [length incs..<length incs + length (tsIncrements ts)]), incs @ tsIncrements ts))
      in if \<not> first then Inr (False, s1, incs1)
         else case tsRateInterval (fst s1) of
                None \<Rightarrow> Inl nil_deref
              | Some ri \<Rightarrow> ebind (nn_rating ri) (\<lambda>r.
                  case fb of
                    None \<Rightarrow> Inr (False, s1, incs1)
                  | Some b \<Rightarrow> if fless (Fin 0) (rrConnectFee r) \<and> deduct
                              then Inr (True, (fst s1, length incs1 # snd s1), incs1 @ [fee_increment r b accID])
                              else Inr (False, s1, incs1)))"

primrec negative_spans :: "acc_env \<Rightarrow> nat \<Rightarrow> CallCost \<Rightarrow> bool \<Rightarrow> bool \<Rightarrow> Balance option \<Rightarrow> bool \<Rightarrow> dspan list \<Rightarrow> Increment list
    \<Rightarrow> (dspan list \<times> Increment list) act" where
  "negative_spans env acc leftCC counting deduct fb first [] incs = sret ([], incs)"
| "negative_spans env acc leftCC counting deduct fb first (s # ss) incs =
     sbind (sget (\<lambda>w. aID (wAcc w ! acc))) (\<lambda>accID.
     sbind (slift (open_left (MaxIncrements (aeRating env)) first deduct fb accID s incs)) (\<lambda>(fee, s1, incs1).
     sbind (negative_incs env acc leftCC counting (if fee then tl (snd s1) else snd s1) incs1) (\<lambda>incs2.
     sbind (negative_spans env acc leftCC counting deduct fb False ss incs2) (\<lambda>(rest, incs3). sret (s1 # rest, incs3)))))"

text \<open>The increments of a free rest of the call name the account.\<close>

definition name_account :: "string \<Rightarrow> TimeSpan \<Rightarrow> TimeSpan" where
  "name_account accID ts = ts\<lparr>tsIncrements := map (\<lambda>i.
     i\<lparr>icBalanceInfo := Some ((case icBalanceInfo i of None \<Rightarrow> \<lparr>diUnit = None, diMonetary = None, diAccountID = []\<rparr> | Some di \<Rightarrow> di)
        \<lparr>diAccountID := accID\<rparr>)\<rparr>) (tsIncrements ts)\<rparr>"

text \<open>The appended spans are the ones that \<^verbatim>\<open>Decompress\<close> then replaces: of a compressed span the cost keeps the last unit, as \<^verbatim>\<open>Decompress\<close>
  shortens it.\<close>

definition last_units :: "Increment list \<Rightarrow> TimeSpan list \<Rightarrow> dspan list \<Rightarrow> TimeSpan list" where
  "last_units incs tss spans =
     (let ends = map (\<lambda>n. n - 1) (tl (foldl (\<lambda>acc ts. acc @ [last acc + length (TimeSpans_Decompress [ts])]) [0] tss))
      in map (\<lambda>k. span_value incs (spans ! k)) ends)"

definition debit_left :: "acc_env \<Rightarrow> nat \<Rightarrow> nat list \<Rightarrow> bool \<Rightarrow> CallCost \<Rightarrow> CallCost \<Rightarrow> CallCost act" where
  "debit_left env acc ms counting cc leftCC =
     sbind (if ccTimespans cc = []
            then DebitConnectionFee env acc (cc\<lparr>ccTimespans := ccTimespans cc @ ccTimespans leftCC\<rparr>) ms counting
            else sret (False, new_Balance, cc\<lparr>ccTimespans := ccTimespans cc @ ccTimespans leftCC\<rparr>)) (\<lambda>(ok, fb, cc1).
       let (spans, incs) = share_spans (ccTimespans leftCC) 0
       in sbind (negative_spans env acc leftCC counting (ccdeductConnectFee cc1) (if ok then Some fb else None) True spans incs) (\<lambda>(spans', incs').
            sret (cc1\<lparr>ccTimespans := ccTimespans cc @ last_units incs' (ccTimespans leftCC) spans'\<rparr>)))"

definition commit :: "acc_env \<Rightarrow> bool \<Rightarrow> nat \<Rightarrow> nat list \<Rightarrow> nat list \<Rightarrow> unit act" where
  "commit env dryRun acc us ms =
     (if dryRun then sret () else sbind (SaveDirtyBalances env acc ms) (\<lambda>_. SaveDirtyBalances env acc us))"

text \<open>The cost of what the balances did not cover.\<close>

definition debit_rest :: "acc_env \<Rightarrow> nat \<Rightarrow> nat list \<Rightarrow> bool \<Rightarrow> bool \<Rightarrow> deb_state \<Rightarrow> (CallCost \<times> CallDescriptor \<times> error option) act" where
  "debit_rest env acc ms counting goNegative st =
     (let cd = (if dsSubj st then (dsCD st)\<lparr>cdRatingInfos := []\<rparr> else dsCD st)
      in sbind (sopt (getCost (aeRating env) cd)) (\<lambda>(cd1, leftCC, err).
         sbind (sget (\<lambda>w. aID (wAcc w ! acc))) (\<lambda>accID.
           let cc = (if feq (ccCost leftCC) (Fin 0) \<and> ccTimespans leftCC \<noteq> []
                     then (dsCC st)\<lparr>ccTimespans := ccTimespans (dsCC st) @ map (name_account accID) (ccTimespans leftCC)\<rparr>
                     else dsCC st)
           in sbind (if fless (Fin 0) (ccCost leftCC) \<and> goNegative then debit_left env acc ms counting cc leftCC else sret cc) (\<lambda>cc'.
                sret (cc', cd1, err)))))"

definition debitCreditBalance :: "acc_env \<Rightarrow> nat \<Rightarrow> CallDescriptor \<Rightarrow> bool \<Rightarrow> bool \<Rightarrow> bool \<Rightarrow> ((error + CallCost) \<times> CallDescriptor) act" where
  "debitCreditBalance env acc cd counting dryRun goNegative =
     sbind (getAlldBalancesForPrefix env acc (cdDestination cd) (cdCategory cd) (cdToR cd) (cdTimeStart cd)) (\<lambda>us.
     sbind (getAlldBalancesForPrefix env acc (cdDestination cd) (cdCategory cd) MONETARY (cdTimeStart cd)) (\<lambda>ms.
     sbind (balance_loops env dryRun counting us ms \<lparr>dsCD = cd, dsCC = CreateCallCost cd, dsSubj = False\<rparr>) (\<lambda>(r, st).
       case r of
         Erred e \<Rightarrow> sret (Inl e, dsCD st)
       | Stopped \<Rightarrow> sret (Inr (dsCC st), dsCD st)
       | Covered \<Rightarrow> sbind (commit env dryRun acc us ms) (\<lambda>_. sret (Inr (dsCC st), dsCD st))
       | Pass _ \<Rightarrow>
           sbind (debit_rest env acc ms counting goNegative st) (\<lambda>(cc, cd1, err).
           sbind (commit env dryRun acc us ms) (\<lambda>_.
             sret (case err of None \<Rightarrow> Inr cc | Some e \<Rightarrow> Inl e, cd1))))))"

subsection \<open>calldesc.go: debiting and refunding\<close>

definition ErrAccountNotFound :: error where
  "ErrAccountNotFound = ErrMsg ''ACCOUNT_NOT_FOUND''"

definition ErrAccountDisabled :: error where
  "ErrAccountDisabled = ErrMsg ''ACCOUNT_DISABLED''"

definition ErrInsufficientCredit :: error where
  "ErrInsufficientCredit = ErrMsg ''INSUFFICIENT_CREDIT''"

definition getAccount :: "CallDescriptor \<Rightarrow> (error + nat) act" where
  "getAccount cd =
     sbind (GetAccount (GetAccountKey cd)) (\<lambda>r.
       case r of
         Inl _ \<Rightarrow> sret (Inl ErrAccountNotFound)
       | Inr acc \<Rightarrow> sget (\<lambda>w. if aDisabled (wAcc w ! acc) then Inl ErrAccountDisabled else Inr acc))"

text \<open>The account an increment is refunded to, loaded once.\<close>

definition refund_account :: "(string \<times> nat) list \<Rightarrow> string \<Rightarrow> (nat option \<times> (string \<times> nat) list) act" where
  "refund_account cache key =
     (case map_of cache key of
        Some acc \<Rightarrow> sret (Some acc, cache)
      | None \<Rightarrow> sbind (GetAccount key) (\<lambda>r. case r of Inl _ \<Rightarrow> sret (None, cache) | Inr acc \<Rightarrow> sret (Some acc, cache @ [(key, acc)])))"

text \<open>Gives an amount back to the balance of a uuid; \<open>False\<close> when there is none.\<close>

definition give_back :: "acc_env \<Rightarrow> nat \<Rightarrow> string \<Rightarrow> string \<Rightarrow> float64 \<Rightarrow> CallCost \<Rightarrow> bool act" where
  "give_back env acc typ u amount cc =
     sbind (sget (\<lambda>w. GetBalance w (chain_of acc typ w) u)) (\<lambda>m.
       case m of
         None \<Rightarrow> sret False
       | Some p \<Rightarrow>
           sbind (smod (upd_bal p (\<lambda>b. AddValue b amount))) (\<lambda>_.
           sbind (sget (\<lambda>w. wBal w ! p)) (\<lambda>b.
           sbind (countUnits env acc (fneg amount) typ (Some cc) (Some b)) (\<lambda>_. sret True))))"

definition refund_one :: "acc_env \<Rightarrow> CallDescriptor \<Rightarrow> nat \<Rightarrow> Increment \<Rightarrow> DebitInfo \<Rightarrow> bool act" where
  "refund_one env cd acc inc di =
     sbind (case diUnit di of
              Some ui \<Rightarrow> if uiUUID ui = [] then sret True
                          else give_back env acc (cdToR cd) (uiUUID ui) (float_of_int (icDuration inc)) (CreateCallCost cd)
            | None \<Rightarrow> sret True) (\<lambda>ok.
       if \<not> ok then sret False
       else case diMonetary di of
              Some mi \<Rightarrow> if miUUID mi = [] then sret True
                          else give_back env acc MONETARY (miUUID mi) (icCost inc) (CreateCallCost cd)
            | None \<Rightarrow> sret True)"

text \<open>The loop stops at the first increment whose balance is gone; \<open>True\<close> when it went through.\<close>

primrec refund_incs :: "acc_env \<Rightarrow> CallDescriptor \<Rightarrow> (string \<times> nat) list \<Rightarrow> Increment list \<Rightarrow> (bool \<times> (string \<times> nat) list) act" where
  "refund_incs env cd cache [] = sret (True, cache)"
| "refund_incs env cd cache (inc # incs) =
     (case icBalanceInfo inc of
        None \<Rightarrow> refund_incs env cd cache incs
      | Some di \<Rightarrow>
          sbind (refund_account cache (diAccountID di)) (\<lambda>(a, cache').
            case a of
              None \<Rightarrow> refund_incs env cd cache' incs
            | Some acc \<Rightarrow> sbind (refund_one env cd acc inc di) (\<lambda>ok. if ok then refund_incs env cd cache' incs else sret (False, cache'))))"

definition save_all :: "acc_env \<Rightarrow> (string \<times> nat) list \<Rightarrow> unit act" where
  "save_all env cache = seach (\<lambda>(_, acc). SetAccount env acc) (rev cache)"

definition refundIncrements :: "acc_env \<Rightarrow> CallDescriptor \<Rightarrow> nat option act" where
  "refundIncrements env cd =
     sbind (refund_incs env cd [] (cdIncrements cd)) (\<lambda>(ok, cache).
     sbind (save_all env cache) (\<lambda>_. sret (if ok then map_of cache (ConcatenatedKey [cdTenant cd, cdAccount cd]) else None)))"

definition RefundIncrements :: "acc_env \<Rightarrow> CallDescriptor \<Rightarrow> nat option act" where
  "RefundIncrements env cd = refundIncrements env (cd\<lparr>cdIncrements := Increments_Decompress (cdIncrements cd)\<rparr>)"

primrec round_incs :: "acc_env \<Rightarrow> CallDescriptor \<Rightarrow> (string \<times> nat) list \<Rightarrow> Increment list \<Rightarrow> (string \<times> nat) list act" where
  "round_incs env cd cache [] = sret cache"
| "round_incs env cd cache (inc # incs) =
     (case icBalanceInfo inc of
        None \<Rightarrow> sfail nil_deref
      | Some di \<Rightarrow>
          sbind (refund_account cache (diAccountID di)) (\<lambda>(a, cache').
            case a of
              None \<Rightarrow> round_incs env cd cache' incs
            | Some acc \<Rightarrow>
                sbind (case diMonetary di of
                         None \<Rightarrow> sret True
                       | Some mi \<Rightarrow> give_back env acc MONETARY (miUUID mi) (fneg (icCost inc)) (CreateCallCost cd)) (\<lambda>ok.
                  if ok then round_incs env cd cache' incs else sret cache')))"

definition refundRounding :: "acc_env \<Rightarrow> CallDescriptor \<Rightarrow> unit act" where
  "refundRounding env cd = sbind (round_incs env cd [] (cdIncrements cd)) (save_all env)"

definition RefundRounding :: "acc_env \<Rightarrow> CallDescriptor \<Rightarrow> unit act" where
  "RefundRounding env cd = (if \<exists>inc \<in> set (cdIncrements cd). icBalanceInfo inc = None then sfail nil_deref else refundRounding env cd)"

text \<open>A debit of a call. The account is saved before the rounding is debited, which loads it again.\<close>

definition finish_debit :: "acc_env \<Rightarrow> nat \<Rightarrow> bool \<Rightarrow> bool \<Rightarrow> CallCost \<Rightarrow> CallCost act" where
  "finish_debit env acc dryRun rounding cc0 =
     (let cc1 = fst (UpdateRatedUsage (updateCost cc0))
      in sbind (slift (TimeSpans_Compress (ccTimespans cc1))) (\<lambda>tss.
         sbind (if dryRun then sret () else SetAccount env acc) (\<lambda>_.
           let cc2 = cc1\<lparr>ccTimespans := tss\<rparr>
           in if \<not> rounding then sret cc2
              else sbind (slift (CallCost_Round cc2)) (\<lambda>cc3.
                   sbind (if GetRoundIncrements cc3 = [] then sret ()
                          else refundRounding env ((CreateCallDescriptor cc3)\<lparr>cdIncrements := GetRoundIncrements cc3\<rparr>)) (\<lambda>_. sret cc3)))))"

definition cd_debit :: "acc_env \<Rightarrow> nat \<Rightarrow> CallDescriptor \<Rightarrow> bool \<Rightarrow> bool \<Rightarrow> ((error + CallCost) \<times> CallDescriptor) act" where
  "cd_debit env acc cd0 dryRun goNegative =
     (if cd_GetDuration cd0 = 0 then sbind (slift (zero_cost (aeRating env) cd0)) (\<lambda>(cd, cc). sret (Inr cc, cd))
      else let cd = (if cdToR cd0 = [] then cd0\<lparr>cdToR := VOICE\<rparr> else cd0)
           in sbind (debitCreditBalance env acc cd (\<not> dryRun) dryRun goNegative) (\<lambda>(r, cd1).
                case r of
                  Inl e \<Rightarrow> sret (Inl e, cd1)
                | Inr cc \<Rightarrow> sbind (finish_debit env acc dryRun (cdPerformRounding cd0) cc) (\<lambda>cc'. sret (Inr cc', cd1))))"

text \<open>The duration paid without debt on the default balance: \<open>Inl\<close> when the loop returns it.\<close>

primrec session_incs :: "duration \<Rightarrow> string \<Rightarrow> Increment list \<Rightarrow> float64 \<times> duration \<Rightarrow> error + (duration + (float64 \<times> duration))" where
  "session_incs initial u [] st = Inr (Inr st)"
| "session_incs initial u (incr # incs) st =
     (case icBalanceInfo incr of
        None \<Rightarrow> Inl nil_deref
      | Some di \<Rightarrow>
          let (credit, total) = st;
              default = (case diMonetary di of None \<Rightarrow> False | Some mi \<Rightarrow> miUUID mi = u);
              credit' = (if default then fsub credit (icCost incr) else credit);
              total' = wrap64 (total + icDuration incr)
          in if default \<and> fless credit' (Fin 0) then Inr (Inl (MinDuration initial total))
             else if total' \<ge> initial then Inr (Inl initial)
             else session_incs initial u incs (credit', total'))"

primrec session_spans :: "int \<Rightarrow> CallDescriptor \<Rightarrow> duration \<Rightarrow> string \<Rightarrow> TimeSpan list \<Rightarrow> float64 \<times> duration \<Rightarrow> error + duration" where
  "session_spans maxInc cd initial u [] st = Inr (MinDuration initial (snd st))"
| "session_spans maxInc cd initial u (ts # tss) st =
     ebind (if fless (Fin 0) (cdMaxRate cd) \<and> cdMaxRateUnit cd > 0 then
              (case tsRateInterval ts of
                 None \<Rightarrow> Inl nil_deref
               | Some ri \<Rightarrow> let (rate, _, rateUnit) = rate_params ri (GetGroupStart ts)
                            in Inr (fless (fdiv (cdMaxRate cd) (float_of_int (cdMaxRateUnit cd))) (fdiv rate (float_of_int rateUnit))))
            else Inr False) (\<lambda>too_dear.
       if too_dear then Inr (MinDuration initial (snd st))
       else ebind (session_incs initial u (tsIncrements (if tsIncrements ts = [] then createIncrementsSlice maxInc ts else ts)) st) (\<lambda>r.
              case r of Inl d \<Rightarrow> Inr d | Inr st' \<Rightarrow> session_spans maxInc cd initial u tss st'))"

definition getMaxSessionDuration :: "acc_env \<Rightarrow> nat \<Rightarrow> CallDescriptor \<Rightarrow> ((error + duration) \<times> CallDescriptor) act" where
  "getMaxSessionDuration env origAcc cd0 =
     sbind (Account_Clone origAcc) (\<lambda>acc.
     sbind (sget (\<lambda>w. aAllowNegative (wAcc w ! acc))) (\<lambda>neg.
       if neg then sret (Inr (-1), cd0)
       else
         let initial = time_Sub (cdTimeEnd cd0) (cdTimeStart cd0);
             cd1 = cd0\<lparr>cdDurationIndex := (if cdDurationIndex cd0 < initial then initial else cdDurationIndex cd0),
                       cdToR := (if cdToR cd0 = [] then VOICE else cdToR cd0)\<rparr>
         in sbind (GetDefaultMoneyBalance env acc) (\<lambda>d.
            sbind (sget (\<lambda>w. wBal w ! d)) (\<lambda>db.
            sbind (cd_debit env acc (CallDescriptor_Clone cd1) True False) (\<lambda>(r, cd2).
              case r of
                Inl e \<Rightarrow> sret (Inl e, cd1)
              | Inr cc \<Rightarrow>
                  if ccnegativeConnectFee cc then sret (Inr 0, cd1)
                  else sbind (slift (session_spans (MaxIncrements (aeRating env)) cd2 initial (bUuid db)
                                       (TimeSpans_Decompress (ccTimespans cc)) (bValue db, 0))) (\<lambda>dur. sret (Inr dur, cd1)))))))"

subsection \<open>Summaries\<close>

record AccountSummary =
  asTenant :: string
  asID :: string
  asBalanceSummaries :: "BalanceSummary list"
  asAllowNegative :: bool
  asDisabled :: bool

definition AsAccountSummary :: "world \<Rightarrow> nat \<Rightarrow> AccountSummary" where
  "AsAccountSummary w acc =
     (let a = wAcc w ! acc;
          (tenant, i) = (case split_on CHR '':'' (aID a) of [x] \<Rightarrow> ([], x) | [t, x] \<Rightarrow> (t, x) | _ \<Rightarrow> ([], []))
      in \<lparr>asTenant = tenant, asID = i,
          asBalanceSummaries = concat (map (\<lambda>typ. map (\<lambda>p. AsBalanceSummary (wBal w ! p) typ) (chain_of acc typ w))
            [''*data'', ''*sms'', ''*mms'', VOICE, GENERIC, MONETARY]),
          asAllowNegative = aAllowNegative a, asDisabled = aDisabled a\<rparr>)"

text \<open>The operations of the API, under the lock of the account and those of the members of its groups.\<close>

definition with_account :: "acc_env \<Rightarrow> CallDescriptor \<Rightarrow> (nat \<Rightarrow> (error + 'a) act) \<Rightarrow> (error + 'a) act" where
  "with_account env cd f =
     sbind (getAccount cd) (\<lambda>r.
       case r of
         Inl e \<Rightarrow> sret (Inl e)
       | Inr acc \<Rightarrow> sbind (GetUniqueSharedGroupMembers env acc cd) (\<lambda>m. case m of Inl e \<Rightarrow> sret (Inl e) | Inr _ \<Rightarrow> f acc))"

definition GetMaxSessionDuration :: "acc_env \<Rightarrow> CallDescriptor \<Rightarrow> (error + duration) act" where
  "GetMaxSessionDuration env cd = with_account env cd (\<lambda>acc. sbind (getMaxSessionDuration env acc cd) (\<lambda>(r, _). sret r))"

text \<open>The reply carries the summary of the account as it is after the operation.\<close>

definition with_summary :: "nat \<Rightarrow> error + CallCost \<Rightarrow> (error + (CallCost \<times> AccountSummary)) act" where
  "with_summary acc r = (case r of Inl e \<Rightarrow> sret (Inl e) | Inr cc \<Rightarrow> sget (\<lambda>w. Inr (cc, AsAccountSummary w acc)))"

definition cd_Debit :: "acc_env \<Rightarrow> CallDescriptor \<Rightarrow> (error + (CallCost \<times> AccountSummary)) act" where
  "cd_Debit env cd =
     with_account env cd (\<lambda>acc. sbind (cd_debit env acc cd (cdDryRun cd) (\<not> cdDenyNegativeAccount cd)) (\<lambda>(r, _). with_summary acc r))"

text \<open>A call without duration: unlike \<^verbatim>\<open>debit\<close>, \<^verbatim>\<open>MaxDebit\<close> returns the error of the rating plans.\<close>

definition max_zero :: "rt_env \<Rightarrow> CallDescriptor \<Rightarrow> error + (error + CallCost)" where
  "max_zero env cd =
     ebind (LoadRatingPlans env cd) (\<lambda>(cd', err).
       Inr (case err of
              Some e \<Rightarrow> Inl e
            | None \<Rightarrow> Inr (if cdRatingInfos cd' \<noteq> []
                           then (CreateCallCost cd)\<lparr>ccTimespans :=
                                  [setRatingInfo (cdRatingInfos cd') 0 (new_TimeSpan (cdTimeStart cd') (cdTimeEnd cd'))]\<rparr>
                           else CreateCallCost cd)))"

definition max_debit :: "acc_env \<Rightarrow> CallDescriptor \<Rightarrow> nat \<Rightarrow> (error + (CallCost \<times> AccountSummary)) act" where
  "max_debit env cd acc =
     sbind (getMaxSessionDuration env acc cd) (\<lambda>(r, cd1).
     sbind (sget (\<lambda>w. aAllowNegative (wAcc w ! acc))) (\<lambda>neg.
       let d = cd_GetDuration cd1; remaining = (case r of Inl _ \<Rightarrow> 0 | Inr x \<Rightarrow> x)
       in case r of
            Inl e \<Rightarrow>
              if d > 0 then sret (Inl e)
              else if cdForceDuration cd1 \<and> \<not> neg \<and> remaining < d then sret (Inl ErrInsufficientCredit)
              else if d = 0 then sbind (slift (max_zero (aeRating env) cd1)) (with_summary acc)
              else sret (Inl e)
          | Inr _ \<Rightarrow>
              if cdForceDuration cd1 \<and> \<not> neg \<and> remaining < d then sret (Inl ErrInsufficientCredit)
              else if remaining = 0 then
                (if d = 0 then sbind (slift (max_zero (aeRating env) cd1)) (with_summary acc)
                 else with_summary acc (Inr (CreateCallCost cd1)))
              else let cd2 = (if remaining > 0
                              then cd1\<lparr>cdTimeEnd := time_Add (cdTimeStart cd1) remaining,
                                       cdDurationIndex := wrap64 (cdDurationIndex cd1 - wrap64 (d - remaining))\<rparr>
                              else cd1)
                   in sbind (cd_debit env acc cd2 (cdDryRun cd2) (\<not> cdDenyNegativeAccount cd2)) (\<lambda>(res, _). with_summary acc res)))"

definition MaxDebit :: "acc_env \<Rightarrow> CallDescriptor \<Rightarrow> (error + (CallCost \<times> AccountSummary)) act" where
  "MaxDebit env cd = with_account env cd (max_debit env cd)"

end
