(* ===== verification/Debit_Laws.thy ===== *)
theory Debit_Laws
  imports Debit
begin

text \<open>
  Laws of the operations on accounts: what they leave unchanged, that they end, and what debits, refunds and triggers do.

  \<open>preserves D R m\<close> says that \<open>R\<close> relates the worlds before and after \<open>m\<close>, also after an error, and that \<open>m\<close> ends unless
  \<open>D\<close>. The locale \<open>world_rel\<close> lifts it over the combinators for a reflexive and transitive relation.
\<close>

subsection \<open>Relations between worlds\<close>

definition preserves :: "bool \<Rightarrow> (world \<Rightarrow> world \<Rightarrow> bool) \<Rightarrow> 'a act \<Rightarrow> bool" where
  "preserves D R m \<longleftrightarrow> (\<forall>w. case m w of None \<Rightarrow> D | Some (r, w') \<Rightarrow> R w w')"

lemma preservesI: "(\<And>w. m w = None \<Longrightarrow> D) \<Longrightarrow> (\<And>w r w'. m w = Some (r, w') \<Longrightarrow> R w w') \<Longrightarrow> preserves D R m"
  by (auto simp: preserves_def split: option.splits)

lemma preservesD: "preserves D R m \<Longrightarrow> m w = Some (r, w') \<Longrightarrow> R w w'"
  by (auto simp: preserves_def split: option.splits)

lemma preserves_ends: "preserves D R m \<Longrightarrow> m w = None \<Longrightarrow> D"
  unfolding preserves_def by (drule spec [of _ w]) simp

named_theorems pres_intros \<open>introduction rules for what operations preserve\<close>

locale world_rel =
  fixes D :: bool and R :: "world \<Rightarrow> world \<Rightarrow> bool"
  assumes refl: "R w w" and trans: "R w1 w2 \<Longrightarrow> R w2 w3 \<Longrightarrow> R w1 w3"
begin

lemma pure: "preserves D R (sret a)" "preserves D R (sfail e)" "preserves D R (sget g)" "preserves D R (slift x)"
  by (auto intro!: preservesI refl simp: act_simps)

lemma sopt: "D \<Longrightarrow> preserves D R (sopt x)"
  by (cases x) (auto intro!: preservesI refl simp: act_simps)

lemma sbind: "preserves D R m \<Longrightarrow> (\<And>a. preserves D R (f a)) \<Longrightarrow> preserves D R (sbind m f)"
  by (rule preservesI) (auto simp: sbind_Some sbind_None dest: preservesD preserves_ends intro: trans)

lemma seach: "(\<And>x. preserves D R (f x)) \<Longrightarrow> preserves D R (seach f xs)"
  by (induction xs) (auto intro: sbind pure)

lemma sconcat: "(\<And>x. preserves D R (f x)) \<Longrightarrow> preserves D R (sconcat f xs)"
  by (induction xs) (auto intro: sbind pure)

lemma sbind_get: "(\<And>w. preserves D R (f (g w))) \<Longrightarrow> preserves D R (sbind (sget g) f)"
  by (rule preservesI) (auto simp: act_simps dest: preservesD preserves_ends)

lemma if_act: "(b \<Longrightarrow> preserves D R m) \<Longrightarrow> (\<not> b \<Longrightarrow> preserves D R n) \<Longrightarrow> preserves D R (if b then m else n)"
  by simp

lemma case_act:
  "preserves D R m \<Longrightarrow> (\<And>y. preserves D R (f y)) \<Longrightarrow> preserves D R (case x of None \<Rightarrow> m | Some y \<Rightarrow> f y)"
  "(\<And>a. preserves D R (g a)) \<Longrightarrow> (\<And>b. preserves D R (h b)) \<Longrightarrow> preserves D R (case y of Inl a \<Rightarrow> g a | Inr b \<Rightarrow> h b)"
  "(\<And>a b. preserves D R (k a b)) \<Longrightarrow> preserves D R (case z of (a, b) \<Rightarrow> k a b)"
  by (simp_all split: option.splits sum.splits prod.splits)

lemma case_ends:
  "preserves D R m \<Longrightarrow> (\<And>k. preserves D R (f k)) \<Longrightarrow> (\<And>k. preserves D R (g k)) \<Longrightarrow>
     preserves D R (case c of Whole \<Rightarrow> m | CutAt k \<Rightarrow> f k | Disconnect k \<Rightarrow> g k)"
  "(\<And>b. preserves D R (h b)) \<Longrightarrow> preserves D R m \<Longrightarrow> preserves D R n \<Longrightarrow>
     preserves D R (case r of FeePaid b \<Rightarrow> h b | FeeBlocked \<Rightarrow> m | FeeUnpaid \<Rightarrow> n)"
  "(\<And>b. preserves D R (k b)) \<Longrightarrow> preserves D R m \<Longrightarrow> preserves D R n \<Longrightarrow> (\<And>e. preserves D R (l e)) \<Longrightarrow>
     preserves D R (case p of Pass b \<Rightarrow> k b | Covered \<Rightarrow> m | Stopped \<Rightarrow> n | Erred e \<Rightarrow> l e)"
  "(\<And>e. preserves D R (l e)) \<Longrightarrow> (\<And>b. preserves D R (k b)) \<Longrightarrow> (\<And>b. preserves D R (k' b)) \<Longrightarrow>
     preserves D R (case x of FilterError e \<Rightarrow> l e | Failed b \<Rightarrow> k b | Ran b \<Rightarrow> k' b)"
  by (simp_all split: cut.splits fee_result.splits pass.splits run_end.splits)

lemmas intros = pure sbind seach sconcat if_act case_act case_ends

lemma iterate:
  assumes "\<And>s r w'. step s = Inl (Some (r, w')) \<Longrightarrow> R (wd s) w'" and "\<And>s s'. step s = Inr s' \<Longrightarrow> R (wd s) (wd s')"
    and "iterate_step step s = Some (r, w')"
  shows "R (wd s) w'"
proof -
  have "\<forall>r' w''. y = (r', w'') \<longrightarrow> R (wd s) w''" if "iterate_step step s = Some y" for y
  proof (rule iterate_step.raw_induct [where P = "\<lambda>st s y. st = step \<longrightarrow> (\<forall>r' w''. y = (r', w'') \<longrightarrow> R (wd s) w'')",
        THEN mp, OF _ that HOL.refl])
    fix it st s y
    assume IH: "\<And>st s y. it st s = Some y \<Longrightarrow> st = step \<longrightarrow> (\<forall>r' w''. y = (r', w'') \<longrightarrow> R (wd s) w'')"
      and eq: "(case st s of Inl r \<Rightarrow> r | Inr s' \<Rightarrow> it st s') = Some y"
    show "st = step \<longrightarrow> (\<forall>r' w''. y = (r', w'') \<longrightarrow> R (wd s) w'')"
    proof (intro impI allI)
      fix r' w''
      assume st: "st = step" "y = (r', w'')"
      show "R (wd s) w''"
      proof (cases "step s")
        case (Inl a)
        with eq st assms(1) show ?thesis by simp
      next
        case (Inr s')
        with eq st have "it step s' = Some (r', w'')" by simp
        with IH [OF this] trans [OF assms(2) [OF Inr]] show ?thesis by blast
      qed
    qed
  qed
  with assms(3) show ?thesis by blast
qed

lemma try_balances:
  assumes "\<And>p acc cd fee. preserves D R (f p acc cd fee)"
  shows "preserves D R (try_balances env dry units f prog ps st)"
  by (induction ps arbitrary: prog st) (auto simp: Let_def intro!: intros assms)

lemma all_passes:
  assumes "\<And>p acc cd fee. preserves D R (f p acc cd fee)" and "D"
  shows "preserves D R (all_passes env dry units f ps st)"
proof (rule preservesI)
  fix w r w'
  assume "all_passes env dry units f ps st w = Some (r, w')"
  then have it: "iterate_step (pass_step env dry units f ps) (False, st, w) = Some (r, w')" by (simp add: all_passes_def)
  note T = preservesD [OF try_balances [OF assms(1)]]
  have "R (snd (snd (False, st, w))) w'"
  proof (rule iterate [OF _ _ it])
    fix s r w'
    assume "pass_step env dry units f ps s = Inl (Some (r, w'))"
    then show "R (snd (snd s)) w'"
      by (auto simp: pass_step_def split: prod.splits option.splits sum.splits pass.splits bool.splits dest: T)
  next
    fix s s'
    assume "pass_step env dry units f ps s = Inr s'"
    then show "R (snd (snd s)) (snd (snd s'))"
      by (auto simp: pass_step_def split: prod.splits option.splits sum.splits pass.splits bool.splits dest: T)
  qed
  then show "R w w'" by simp
qed (use assms in simp)

end

subsection \<open>Operations that do not store\<close>

text \<open>Counting units runs triggers, which store: an operation that counts preserves what counting does.\<close>

definition counts :: "bool \<Rightarrow> (world \<Rightarrow> world \<Rightarrow> bool) \<Rightarrow> acc_env \<Rightarrow> bool \<Rightarrow> bool" where
  "counts D R env c \<longleftrightarrow> (c \<longrightarrow> (\<forall>acc x k cc b. preserves D R (countUnits env acc x k cc b)))"

lemma countsD: "counts D R env c \<Longrightarrow> c \<Longrightarrow> preserves D R (countUnits env acc x k cc b)"
  by (simp add: counts_def)

text \<open>Changes of an account that leave alone the flag that its triggers are running.\<close>

lemma flag_same:
  "aexecutingTriggers a = aexecutingTriggers a"
  "aexecutingTriggers a = b \<Longrightarrow> aexecutingTriggers (a\<lparr>aBalanceMap := m\<rparr>) = b"
  "aexecutingTriggers a = b \<Longrightarrow> aexecutingTriggers (a\<lparr>aUnitCounters := u\<rparr>) = b"
  "aexecutingTriggers a = b \<Longrightarrow> aexecutingTriggers (a\<lparr>aActionTriggers := ts\<rparr>) = b"
  "aexecutingTriggers a = b \<Longrightarrow> aexecutingTriggers (a\<lparr>aAllowNegative := c\<rparr>) = b"
  "aexecutingTriggers a = b \<Longrightarrow> aexecutingTriggers (a\<lparr>aDisabled := c\<rparr>) = b"
  by simp_all

text \<open>Relations that hold when objects are changed (other than by running triggers) and made, and when the events of accounts
  and balances are sent.\<close>

locale acc_rel = world_rel +
  assumes upd: "R w (upd_bal p f w)" and upd_account: "(\<And>a. aexecutingTriggers (g a) = aexecutingTriggers a) \<Longrightarrow> R w (upd_acc p g w)"
    and alloc: "preserves D R (new_bal b)" "preserves D R (GenUUID env)" "preserves D R (alloc_account a)"
    and send: "preserves D R (send_to s t (balance_event env u i b))" "preserves D R (send_to s t (account_event u x))"
begin

lemma upd_chain: "R w (set_chain p k l w)"
  by (simp add: set_chain_def upd_account)

lemma fold_upd: "(\<And>x w. R w (f x w)) \<Longrightarrow> R w (fold f xs w)"
  by (induction xs arbitrary: w) (auto intro: refl trans)

lemma smod: "(\<And>w. R w (f w)) \<Longrightarrow> preserves D R (smod f)"
  by (rule preservesI) (auto simp: act_simps)

lemmas steps = intros sopt alloc smod upd upd_account upd_chain fold_upd flag_same

lemma getting [pres_intros]: "preserves D R (GetAccount k)" "preserves D R (Account_Clone p)" "preserves D R (GetDefaultMoneyBalance env acc)"
  unfolding GetAccount_def Account_Clone_def GetDefaultMoneyBalance_def Let_def by (intro steps)+

lemma getBalancesForPrefix [pres_intros]: "preserves D R (getBalancesForPrefix env acc pre cat tor sg t)"
proof -
  have "preserves D R (useful_balances env acc pre cat sg t ps)" for ps
    by (induction ps) (auto intro!: steps)
  then show ?thesis unfolding getBalancesForPrefix_def by (auto intro!: steps)
qed

lemma shared [pres_intros]: "preserves D R (SortBalancesByStrategy env sg mine bc)" "preserves D R (sg_GetBalances env sg d c b ub t)"
proof -
  show "preserves D R (SortBalancesByStrategy env sg mine bc)"
    unfolding SortBalancesByStrategy_def Let_def by (intro steps)
  have "preserves D R (member_balances env i d c b ub t k)" for i k
    unfolding member_balances_def by (intro steps pres_intros)
  then show "preserves D R (sg_GetBalances env sg d c b ub t)" unfolding sg_GetBalances_def by (intro steps)
qed

lemma selecting [pres_intros]:
  "preserves D R (getAlldBalancesForPrefix env acc d c b t)" "preserves D R (GetUniqueSharedGroupMembers env acc cd)" "preserves D R (getAccount cd)"
  unfolding getAlldBalancesForPrefix_def expand_balance_def GetUniqueSharedGroupMembers_def getAccount_def by (intro steps pres_intros)+

lemma fee [pres_intros]:
  assumes "counts D R env c"
  shows "preserves D R (DebitConnectionFee env acc cc ms c)"
proof -
  have "preserves D R (fee_from env acc cc c fee ps)" for fee ps
    by (induction ps) (auto intro!: steps countsD [OF assms])
  then show ?thesis
    unfolding DebitConnectionFee_def Let_def by (auto intro!: steps pres_intros countsD [OF assms])
qed

lemma count_if [pres_intros]: "counts D R (dxEnv dx) (dxCount dx) \<Longrightarrow> preserves D R (count_if dx x k p)"
  by (auto simp: count_if_def intro!: steps countsD)

lemma free_inc [pres_intros]: "counts D R (dxEnv dx) (dxCount dx) \<Longrightarrow> preserves D R (free_inc dx q ri incs)"
  unfolding free_inc_def by (intro steps pres_intros)

lemma money_for [pres_intros]: "preserves D R (money_for dx c)"
  unfolding money_for_def by (intro steps pres_intros)

lemma incs [pres_intros]:
  assumes "counts D R (dxEnv dx) (dxCount dx)"
  shows "preserves D R (money_incs dx ri n qs s)" "preserves D R (unit_incs dx ri n qs s)" "preserves D R (zero_incs dx n qs incs)"
proof -
  show "preserves D R (money_incs dx ri n qs s)"
    by (induction qs arbitrary: n s) (auto simp: Let_def intro!: steps pres_intros assms)
  show "preserves D R (unit_incs dx ri n qs s)"
    by (induction qs arbitrary: n s) (auto simp: Let_def intro!: steps pres_intros assms)
  show "preserves D R (zero_incs dx n qs incs)"
    by (induction qs arbitrary: n incs) (auto simp: Let_def intro!: steps pres_intros assms)
qed

lemma debit_spans [pres_intros]:
  assumes "\<And>ri n qs s. preserves D R (body ri n qs s)"
  shows "preserves D R (debit_spans m fb i body first ss st)"
  by (induction ss arbitrary: first st) (auto intro!: steps assms simp del: split_paired_All)

lemma debit_rated [pres_intros]:
  assumes "\<And>dx ri n qs s. counts D R (dxEnv dx) (dxCount dx) \<Longrightarrow> preserves D R (body dx ri n qs s)" and "counts D R env c" and "D"
  shows "preserves D R (debit_rated env p acc cd ms c dry fee body e)"
  unfolding debit_rated_def Let_def by (intro steps pres_intros assms) (simp_all add: assms(2))

lemma debit [pres_intros]:
  assumes "counts D R env c" and "D"
  shows "preserves D R (debitMoney env p acc cd ms c dry fee)" "preserves D R (debitUnits env p acc cd ms c dry fee)"
proof -
  have u: "preserves D R (usable p cd)" unfolding usable_def by (intro steps)
  have z: "preserves D R (debit_zero env p acc cd c d)" for d
    unfolding debit_zero_def Let_def by (intro steps pres_intros assms(2)) (simp add: assms(1))
  show "preserves D R (debitMoney env p acc cd ms c dry fee)"
    unfolding debitMoney_def by (intro steps u pres_intros assms)
  show "preserves D R (debitUnits env p acc cd ms c dry fee)"
    unfolding debitUnits_def by (intro steps u z pres_intros assms)
qed

lemma balance_loops [pres_intros]:
  assumes "counts D R env c" and "D"
  shows "preserves D R (balance_loops env dry c us ms st)"
proof (rule preservesI)
  have both: "preserves D R (both_kinds env dry c us ms st)" for us ms st
    unfolding both_kinds_def by (intro steps all_passes pres_intros assms)
  fix w r w'
  assume "balance_loops env dry c us ms st w = Some (r, w')"
  then have it: "iterate_step (general_step env dry c us ms) (st, w) = Some (r, w')" by (simp add: balance_loops_def)
  have "R (snd (st, w)) w'"
    by (rule iterate [OF _ _ it])
      (auto simp: general_step_def split: prod.splits option.splits sum.splits pass.splits bool.splits dest: preservesD [OF both])
  then show "R w w'" by simp
qed (use assms in simp)

lemma debit_rest [pres_intros]:
  assumes "counts D R env c" and "D"
  shows "preserves D R (debit_rest env acc ms c neg st)"
proof -
  have ni: "preserves D R (negative_incs env acc l c qs incs)" for l qs incs
    by (induction qs arbitrary: incs) (auto simp: Let_def intro!: steps pres_intros send countsD [OF assms(1)])
  have "preserves D R (negative_spans env acc l c ded fb first ss incs)" for l ded fb first ss incs
    by (induction ss arbitrary: first incs) (auto intro!: steps ni)
  then have left: "preserves D R (debit_left env acc ms c cc l)" for ms cc l
    unfolding debit_left_def Let_def by (intro steps pres_intros assms)
  show ?thesis unfolding debit_rest_def Let_def by (intro steps left assms)
qed

lemma SaveDirtyBalances:
  assumes "\<And>p. preserves D R (SetAccount env p)"
  shows "preserves D R (SaveDirtyBalances env acc bc)"
proof -
  have "preserves D R (save_dirty env acc saved ps)" for saved ps
    by (induction ps arbitrary: saved) (auto intro!: steps send assms)
  then show ?thesis unfolding SaveDirtyBalances_def by (intro sbind_get steps send)
qed

lemma debitCreditBalance [pres_intros]:
  assumes "counts D R env c" and "D" and "\<And>p. \<not> dry \<Longrightarrow> preserves D R (SetAccount env p)"
  shows "preserves D R (debitCreditBalance env acc cd c dry neg)"
proof -
  have "preserves D R (commit env dry acc us ms)" for us ms
    unfolding commit_def by (auto intro!: steps SaveDirtyBalances assms)
  then show ?thesis unfolding debitCreditBalance_def by (intro steps pres_intros assms)
qed

lemma dry_debit [pres_intros]:
  assumes "\<not> cdPerformRounding cd" and "D"
  shows "preserves D R (cd_debit env acc cd True neg)"
proof -
  have c: "counts D R env False" by (simp add: counts_def)
  have "preserves D R (finish_debit env acc True False cc)" for cc
    unfolding finish_debit_def Let_def by (simp add: steps)
  then show ?thesis unfolding cd_debit_def Let_def not_True_eq_False using assms by (intro steps pres_intros c) simp_all
qed

lemma dry_session:
  assumes "\<not> cdPerformRounding cd" and "D"
  shows "preserves D R (getMaxSessionDuration env acc cd)"
  unfolding getMaxSessionDuration_def Let_def using assms
  by (intro steps pres_intros) (simp_all add: CallDescriptor_Clone_def)

lemma with_account: "(\<And>acc. preserves D R (f acc)) \<Longrightarrow> preserves D R (with_account env cd f)"
  unfolding with_account_def by (intro steps pres_intros)

lemma with_summary: "preserves D R (with_summary acc r)"
  unfolding with_summary_def by (intro steps)

end

subsection \<open>What a dry run leaves alone\<close>

definition same_db :: "world \<Rightarrow> world \<Rightarrow> bool" where
  "same_db w w' \<longleftrightarrow> wDB w' = wDB w \<and> wSG w' = wSG w"

interpretation db: acc_rel True same_db
  by unfold_locales
    (auto intro!: preservesI simp: same_db_def upd_bal_def upd_acc_def new_bal_def GenUUID_def alloc_account_def send_to_def act_simps)

text \<open>Claim C5. A dry run changes nothing that is stored, unless it rounds: the maximum duration of a session, and a debit
  with the dry run flag, leave every account and shared group of the data base as it was, whatever balances,
  groups and rates there are, also when they fail.\<close>

theorem dry_run_stores_nothing:
  assumes "\<not> cdPerformRounding cd"
    and "GetMaxSessionDuration env cd w = Some (r, w') \<or> cdDryRun cd \<and> cd_Debit env cd w = Some (r', w')"
  shows "wDB w' = wDB w \<and> wSG w' = wSG w"
proof -
  have "preserves True same_db (cd_Debit env cd)" if "cdDryRun cd"
    unfolding cd_Debit_def using that assms(1) by (auto intro!: db.with_account db.with_summary db.steps pres_intros)
  moreover have "preserves True same_db (GetMaxSessionDuration env cd)"
    unfolding GetMaxSessionDuration_def by (intro db.with_account db.steps db.dry_session assms TrueI)
  ultimately have "same_db w w'" using assms(2) by (blast dest: preservesD)
  then show ?thesis by (simp add: same_db_def)
qed

end
