(* ===== verification/Store_Laws.thy ===== *)
theory Store_Laws
  imports Debit_Laws
begin

text \<open>
  Laws of the operations that store: actions, triggers, plans, debits and refunds. The locale \<open>store_rel\<close> extends \<open>acc_rel\<close> by
  the writes to the data base; interpreted on the flag that the triggers of an account are running, it shows that the guard of
  \<open>ExecuteActionTriggers\<close> ends the recursion of triggers and actions. The locale \<open>trig_rel\<close> adds the setting of the flag and proves
  every operation of the API. It is interpreted on the rows of the data base, which stay under their own key, and on
  the relation that always holds, which leaves that the operations end.
\<close>

subsection \<open>Operations that store\<close>

locale store_rel = acc_rel +
  assumes store: "preserves D R (SetAccount env p)" "preserves D R (RemoveAccount k)" and member: "R w (add_member i k w)"
begin

lemma join [pres_intros]: "preserves D R (join_groups acc p)"
  unfolding join_groups_def by (intro smod fold_upd member)

lemma counters [pres_intros]: "preserves D R (acc_InitCounters acc)" "preserves D R (resetCountersAction acc a)"
  "preserves D R (change_triggers env acc t f)" "preserves D R (SetRecurrent env acc a r)"
  unfolding acc_InitCounters_def resetCountersAction_def change_triggers_def SetRecurrent_def by (intro steps)+

lemma named [pres_intros]: "preserves D R (named_balance env acc f)"
  unfolding named_balance_def Let_def by (auto intro!: steps split: option.split list.split)

lemma setBalance [pres_intros]:
  assumes "\<And>acc a. preserves D R (exec acc a)"
  shows "preserves D R (acc_setBalanceAction env exec acc a)"
  unfolding acc_setBalanceAction_def by (intro steps pres_intros assms)

lemma debitBalance [pres_intros]:
  assumes "\<And>acc a. preserves D R (exec acc a)"
  shows "preserves D R (debitBalanceAction env exec acc a r n)" "preserves D R (topupAction env exec acc a r)"
  unfolding topupAction_def debitBalanceAction_def by (intro steps pres_intros assms)+

lemma fresh [pres_intros]: "preserves D R (fresh_chains acc ks)"
  by (induction ks) (auto intro!: steps)

lemma summaries [pres_intros]:
  assumes "\<And>acc a. preserves D R (exec acc a)"
  shows "preserves D R (set_summaries env exec acc ss)"
  by (induction ss) (auto intro!: steps pres_intros assms)

lemma resetting [pres_intros]:
  assumes "\<And>acc a. preserves D R (exec acc a)"
  shows "preserves D R (ResetActionTriggers env exec acc t)" "preserves D R (genericReset env exec acc)" "preserves D R (resetAccount env exec acc)"
  unfolding genericReset_def ResetActionTriggers_def resetAccount_def by (intro steps pres_intros assms)+

lemma removing [pres_intros]: "preserves D R (removeBalances P acc k)" "preserves D R (transferMonetaryDefaultAction env acc a)"
  "preserves D R (setExpiryAction env acc a)"
proof -
  have "R w (transfer_one env f d p w)" for f d p w
    unfolding transfer_one_def Let_def by (auto intro: trans upd refl)
  then show "preserves D R (removeBalances P acc k)" "preserves D R (transferMonetaryDefaultAction env acc a)" "preserves D R (setExpiryAction env acc a)"
    unfolding removeBalances_def transferMonetaryDefaultAction_def setExpiryAction_def by (intro steps pres_intros; blast)+
qed

lemma publishing [pres_intros]: "preserves D R (Account_Publish env acc)" "preserves D R (publish_balances env acc)"
proof -
  show "preserves D R (Account_Publish env acc)"
    unfolding Account_Publish_def by (intro sbind_get steps send)
  have "preserves D R (Balance_Publish env p)" for p
    unfolding Balance_Publish_def by (intro sbind_get steps send)
  then show "preserves D R (publish_balances env acc)" unfolding publish_balances_def by (intro steps)
qed

lemma quiet [pres_intros]: "preserves D R m \<Longrightarrow> preserves D R (quiet m)"
  unfolding quiet_def by (intro steps)

lemma run_action [pres_intros]:
  assumes "\<And>acc a. preserves D R (exec acc a)"
  shows "preserves D R (run_action env exec acc a)"
  unfolding run_action_def Let_def by (intro steps pres_intros store assms)

lemma run_list [pres_intros]:
  assumes "\<And>acc a. preserves D R (exec acc a)"
  shows "preserves D R (run_list env exec acc rm as)"
  using run_action [OF assms] by (induction as arbitrary: rm) (auto intro!: steps split: bool.split)

lemma upd_trigger [pres_intros]: "preserves D R (upd_trigger acc i f)"
  unfolding upd_trigger_def by (intro steps)

lemma at_Execute [pres_intros]:
  assumes "\<And>acc a. preserves D R (exec acc a)"
  shows "preserves D R (at_Execute env exec acc i)"
  unfolding at_Execute_def by (intro steps pres_intros store assms)

lemma checks [pres_intros]:
  assumes "\<And>acc a. preserves D R (exec acc a)"
  shows "preserves D R (check_counter env exec acc i c)" "preserves D R (check_balance env exec acc i p)"
  unfolding check_counter_def check_balance_def by (intro steps pres_intros assms)+

lemma run_trigger [pres_intros]:
  assumes "\<And>acc a. preserves D R (exec acc a)"
  shows "preserves D R (run_trigger env exec acc a i)"
  unfolding run_trigger_def Let_def by (intro steps pres_intros assms)

lemma clean [pres_intros]: "preserves D R (CleanExpiredStuff env acc)"
  unfolding CleanExpiredStuff_def by (intro steps)

end

subsection \<open>Nested triggers\<close>

text \<open>While the triggers of an account run its flag is set, and no action and no trigger resets it.\<close>

definition running :: "nat \<Rightarrow> world \<Rightarrow> bool" where
  "running acc w \<longleftrightarrow> acc < length (wAcc w) \<and> aexecutingTriggers (wAcc w ! acc)"

definition flag_kept :: "world \<Rightarrow> world \<Rightarrow> bool" where
  "flag_kept w w' \<longleftrightarrow> (\<forall>acc. running acc w \<longrightarrow> running acc w')"

lemma flag_kept_same: "wAcc w' = wAcc w @ as \<Longrightarrow> flag_kept w w'"
  by (auto simp: flag_kept_def running_def nth_append)

lemma flag_kept_act: "(\<And>w r w'. m w = Some (r, w') \<Longrightarrow> \<exists>as. wAcc w' = wAcc w @ as) \<Longrightarrow> preserves True flag_kept m"
  by (rule preservesI) (simp, blast intro: flag_kept_same)

interpretation flag: store_rel True flag_kept
proof unfold_locales
  fix g :: "nat Account \<Rightarrow> nat Account" and w :: world and p
  assume g: "\<And>a. aexecutingTriggers (g a) = aexecutingTriggers a"
  have "aexecutingTriggers ((wAcc w)[p := g (wAcc w ! p)] ! acc) = aexecutingTriggers (wAcc w ! acc)" if "acc < length (wAcc w)" for acc
    using that g [of "wAcc w ! p"] by (cases "p = acc") simp_all
  then show "flag_kept w (upd_acc p g w)" by (simp add: flag_kept_def running_def upd_acc_def)
next
  fix w i k show "flag_kept w (add_member i k w)" by (rule flag_kept_same [of _ _ "[]"]) (simp add: add_member_def split: option.splits)
next
  fix w p f show "flag_kept w (upd_bal p f w)" by (rule flag_kept_same [of _ _ "[]"]) (simp add: upd_bal_def)
qed (auto intro!: flag_kept_act simp: flag_kept_def new_bal_def GenUUID_def alloc_account_def send_to_def SetAccount_def RemoveAccount_def act_simps)

text \<open>Two operations do the same while the triggers of an account run.\<close>

definition agree :: "nat \<Rightarrow> 'a act \<Rightarrow> 'a act \<Rightarrow> bool" where
  "agree acc m m' \<longleftrightarrow> (\<forall>w. running acc w \<longrightarrow> m w = m' w)"

lemma agree_refl: "agree acc m m"
  by (simp add: agree_def)

lemma agree_bind:
  assumes "agree acc m m'" and "preserves True flag_kept m'" and "\<And>a. agree acc (f a) (f' a)"
  shows "agree acc (sbind m f) (sbind m' f')"
  unfolding agree_def sbind_def
proof (intro allI impI)
  fix w
  assume w: "running acc w"
  have "running acc w'" if "m' w = Some (r, w')" for r w'
    using preservesD [OF assms(2) that] w by (simp add: flag_kept_def)
  with w assms(1,3) show "(case m w of None \<Rightarrow> None | Some (Inl e, w') \<Rightarrow> Some (Inl e, w') | Some (Inr a, w') \<Rightarrow> f a w') =
      (case m' w of None \<Rightarrow> None | Some (Inl e, w') \<Rightarrow> Some (Inl e, w') | Some (Inr a, w') \<Rightarrow> f' a w')"
    by (simp add: agree_def split: option.split sum.split)
qed

lemma agree_case:
  "agree acc m m' \<Longrightarrow> agree acc n n' \<Longrightarrow> agree acc (if b then m else n) (if b then m' else n')"
  "agree acc m m' \<Longrightarrow> (\<And>y. agree acc (f y) (f' y)) \<Longrightarrow>
     agree acc (case x of None \<Rightarrow> m | Some y \<Rightarrow> f y) (case x of None \<Rightarrow> m' | Some y \<Rightarrow> f' y)"
  "(\<And>a. agree acc (g a) (g' a)) \<Longrightarrow> (\<And>b. agree acc (h b) (h' b)) \<Longrightarrow>
     agree acc (case s of Inl a \<Rightarrow> g a | Inr b \<Rightarrow> h b) (case s of Inl a \<Rightarrow> g' a | Inr b \<Rightarrow> h' b)"
  "(\<And>a b. agree acc (k a b) (k' a b)) \<Longrightarrow> agree acc (case z of (a, b) \<Rightarrow> k a b) (case z of (a, b) \<Rightarrow> k' a b)"
  by ((cases b; simp), (cases x; simp), (cases s; simp), (cases z; simp))

lemma agree_each:
  "(\<And>x. agree acc (f x) (f' x)) \<Longrightarrow> (\<And>x. preserves True flag_kept (f' x)) \<Longrightarrow> agree acc (seach f xs) (seach f' xs)"
  by (induction xs) (auto intro: agree_refl agree_bind)

lemmas agree_intros = agree_bind agree_case agree_each agree_refl flag.steps pres_intros

text \<open>What the actions and triggers of an account do does not depend on the nested call, if that call does nothing while
  the triggers run.\<close>

lemma agree_run_list:
  assumes e: "\<And>a. agree acc (exec acc a) (sret ())"
  shows "agree acc (run_list env exec acc rm as) (run_list env (\<lambda>_ _. sret ()) acc rm as)"
proof -
  have set: "agree acc (acc_setBalanceAction env exec acc a) (acc_setBalanceAction env (\<lambda>_ _. sret ()) acc a)" for a
    unfolding acc_setBalanceAction_def by (intro agree_intros e)
  have sums: "agree acc (set_summaries env exec acc ss) (set_summaries env (\<lambda>_ _. sret ()) acc ss)" for ss
    by (induction ss) (auto intro!: agree_intros set)
  have q: "agree acc m m' \<Longrightarrow> preserves True flag_kept m' \<Longrightarrow> agree acc (quiet m) (quiet m')" for m m'
    unfolding quiet_def by (intro agree_intros)
  have deb: "agree acc (debitBalanceAction env exec acc a r n) (debitBalanceAction env (\<lambda>_ _. sret ()) acc a r n)" for a r n
    unfolding debitBalanceAction_def by (intro agree_intros e)
  have res: "agree acc (ResetActionTriggers env exec acc b) (ResetActionTriggers env (\<lambda>_ _. sret ()) acc b)" for b
    unfolding ResetActionTriggers_def by (intro agree_intros e)
  have gen: "agree acc (genericReset env exec acc) (genericReset env (\<lambda>_ _. sret ()) acc)"
    unfolding genericReset_def by (intro agree_intros res)
  have cdr: "agree acc (resetAccount env exec acc) (resetAccount env (\<lambda>_ _. sret ()) acc)"
    unfolding resetAccount_def by (intro agree_intros sums)
  have act: "agree acc (run_action env exec acc a) (run_action env (\<lambda>_ _. sret ()) acc a)" for a
    unfolding run_action_def Let_def topupAction_def
    by (intro agree_case(1) agree_refl q deb res gen cdr set flag.resetting flag.pure)
  show ?thesis
    by (induction as arbitrary: rm) (auto intro!: agree_intros act split: bool.split)
qed

lemma agree_run_triggers:
  assumes "\<And>a. agree acc (exec acc a) (sret ())"
  shows "agree acc (seach (run_trigger env exec acc a) is) (seach (run_trigger env (\<lambda>_ _. sret ()) acc a) is)"
proof -
  have ex: "agree acc (at_Execute env exec acc i) (at_Execute env (\<lambda>_ _. sret ()) acc i)" for i
    unfolding at_Execute_def by (intro agree_intros agree_run_list assms)
  have "agree acc (run_trigger env exec acc a i) (run_trigger env (\<lambda>_ _. sret ()) acc a i)" for i
    unfolding run_trigger_def check_counter_def check_balance_def Let_def by (intro agree_intros ex)
  moreover have "preserves True flag_kept (run_trigger env (\<lambda>_ _. sret ()) acc a i)" for i
    by (intro flag.steps pres_intros)
  ultimately show ?thesis by (intro agree_each)
qed

text \<open>The guard ends the recursion: triggers run as if nested ones did nothing.\<close>

lemma ExecuteActionTriggers_once:
  "ExecuteActionTriggers env acc a w =
     (if acc \<ge> length (wAcc w) then Some (Inl nil_deref, w)
      else if aexecutingTriggers (wAcc w ! acc) then Some (Inr (), w)
      else sbind (smod (upd_acc acc (\<lambda>x. x\<lparr>aexecutingTriggers := True, aActionTriggers := ActionTriggers_Sort (aActionTriggers x)\<rparr>))) (\<lambda>_.
           sbind (sget (\<lambda>w. length (aActionTriggers (wAcc w ! acc)))) (\<lambda>n.
           sbind (seach (run_trigger env (\<lambda>_ _. sret ()) acc a) [0..<n]) (\<lambda>_.
           sbind (CleanExpiredStuff env acc) (\<lambda>_. smod (upd_acc acc (\<lambda>x. x\<lparr>aexecutingTriggers := False\<rparr>)))))) w)"
proof -
  have "agree acc (ExecuteActionTriggers env acc b) (sret ())" for b
    unfolding agree_def running_def by (subst ExecuteActionTriggers.simps) (simp add: act_simps)
  note agree_run_triggers [of acc "ExecuteActionTriggers env" env a, OF this]
  moreover have "running acc (upd_acc acc (\<lambda>x. x\<lparr>aexecutingTriggers := True, aActionTriggers := f x\<rparr>) w)" if "acc < length (wAcc w)" for f
    using that by (simp add: running_def upd_acc_def)
  ultimately show ?thesis
    by (subst ExecuteActionTriggers.simps) (simp add: sbind_def act_simps agree_def not_le)
qed

subsection \<open>Operations that run triggers\<close>

locale trig_rel = store_rel +
  assumes upd_any: "R w (upd_acc p g w)"
begin

lemma triggers [pres_intros]: "preserves D R (ExecuteActionTriggers env acc a)"
proof -
  let ?body = "sbind (smod (upd_acc acc (\<lambda>x. x\<lparr>aexecutingTriggers := True, aActionTriggers := ActionTriggers_Sort (aActionTriggers x)\<rparr>))) (\<lambda>_.
     sbind (sget (\<lambda>w. length (aActionTriggers (wAcc w ! acc)))) (\<lambda>n.
     sbind (seach (run_trigger env (\<lambda>_ _. sret ()) acc a) [0..<n]) (\<lambda>_.
     sbind (CleanExpiredStuff env acc) (\<lambda>_. smod (upd_acc acc (\<lambda>x. x\<lparr>aexecutingTriggers := False\<rparr>))))))"
  have b: "preserves D R ?body" by (intro upd_any steps pres_intros)
  show ?thesis
  proof (rule preservesI)
    show "ExecuteActionTriggers env acc a w = None \<Longrightarrow> D" for w
      using preserves_ends [OF b] unfolding ExecuteActionTriggers_once by (simp split: if_splits)
    show "ExecuteActionTriggers env acc a w = Some (r, w') \<Longrightarrow> R w w'" for w r w'
      using preservesD [OF b] unfolding ExecuteActionTriggers_once by (auto intro: refl split: if_splits)
  qed
qed

lemma countUnits [pres_intros]: "preserves D R (countUnits env acc x k cc b)"
  unfolding countUnits_def by (intro steps pres_intros)

lemma counting [pres_intros]: "counts D R env c"
  by (simp add: counts_def countUnits)

lemma plan: "preserves D R (ActionTiming_Execute env acts is)"
proof -
  have "preserves D R (execute_on env as i)" for as i
    unfolding execute_on_def by (intro steps pres_intros store)
  then have "preserves D R (execute_all env as is)" for as
    by (induction "is") (auto intro!: steps)
  then show ?thesis unfolding ActionTiming_Execute_def by (intro steps)
qed

lemma give_back [pres_intros]: "preserves D R (give_back env acc typ u x cc)"
  unfolding give_back_def by (intro steps pres_intros)

lemma refund: "preserves D R (RefundIncrements env cd)" and rounding: "preserves D R (refundRounding env cd)"
proof -
  have a: "preserves D R (refund_account cache k)" for cache k
    unfolding refund_account_def by (intro steps pres_intros)
  have s: "preserves D R (save_all env cache)" for cache
    unfolding save_all_def by (intro steps store)
  have o: "preserves D R (refund_one env cd acc inc di)" for cd acc inc di
    unfolding refund_one_def by (intro steps pres_intros)
  have "preserves D R (refund_incs env cd cache incs)" for cd cache incs
    by (induction incs arbitrary: cache) (auto intro!: steps a o)
  then show "preserves D R (RefundIncrements env cd)" unfolding RefundIncrements_def refundIncrements_def by (intro steps s)
  have "preserves D R (round_incs env cd cache incs)" for cache incs
    by (induction incs arbitrary: cache) (auto intro!: steps pres_intros a)
  then show "preserves D R (refundRounding env cd)" unfolding refundRounding_def by (intro steps s)
qed

lemma cd_debit [pres_intros]:
  assumes "D"
  shows "preserves D R (cd_debit env acc cd dry neg)"
proof -
  have "preserves D R (finish_debit env acc d r cc)" for d r cc
    unfolding finish_debit_def Let_def by (intro steps store rounding)
  then show ?thesis unfolding cd_debit_def Let_def by (intro steps pres_intros store assms)
qed

lemma session [pres_intros]: "D \<Longrightarrow> preserves D R (getMaxSessionDuration env acc cd)"
  unfolding getMaxSessionDuration_def Let_def by (intro steps pres_intros)

lemma api: "D \<Longrightarrow> preserves D R (cd_Debit env cd)" "D \<Longrightarrow> preserves D R (MaxDebit env cd)"
  "D \<Longrightarrow> preserves D R (GetMaxSessionDuration env cd)" "preserves D R (RefundRounding env cd)"
  unfolding cd_Debit_def MaxDebit_def max_debit_def GetMaxSessionDuration_def RefundRounding_def Let_def
  by (intro with_account with_summary steps pres_intros rounding; assumption)+

end

subsection \<open>Sequences of calls\<close>

text \<open>Any operation of the API, at any time and in any configuration.\<close>

inductive api_step :: "world \<Rightarrow> world \<Rightarrow> bool" where
  debit: "cd_Debit env cd w = Some (r, w') \<Longrightarrow> api_step w w'"
| max_debit: "MaxDebit env cd w = Some (r, w') \<Longrightarrow> api_step w w'"
| max_session: "GetMaxSessionDuration env cd w = Some (r, w') \<Longrightarrow> api_step w w'"
| refund: "RefundIncrements env cd w = Some (r, w') \<Longrightarrow> api_step w w'"
| rounding: "RefundRounding env cd w = Some (r, w') \<Longrightarrow> api_step w w'"
| plan: "ActionTiming_Execute env acts ids w = Some (r, w') \<Longrightarrow> api_step w w'"

context trig_rel
begin

lemma api_step: "api_step w w' \<Longrightarrow> D \<Longrightarrow> R w w'"
  by (induction rule: api_step.induct) (auto intro: preservesD api refund plan)

lemma reachable: "api_step\<^sup>*\<^sup>* w w' \<Longrightarrow> D \<Longrightarrow> R w w'"
  by (induction rule: rtranclp_induct) (auto intro: refl trans api_step)

end

subsection \<open>The rows of the data base\<close>

definition db_keyed :: "(string, Balance Account) gmap \<Rightarrow> bool" where
  "db_keyed db \<longleftrightarrow> gmap_ok db \<and> (\<forall>k a. gget db k = Some a \<longrightarrow> aID a = k)"

text \<open>What a shared group had as members it keeps.\<close>

definition groups_kept :: "(string, SharedGroup) gmap \<Rightarrow> (string, SharedGroup) gmap \<Rightarrow> bool" where
  "groups_kept sgs sgs' \<longleftrightarrow> (\<forall>k sg. gget sgs k = Some sg \<longrightarrow> (\<exists>sg'. gget sgs' k = Some sg' \<and> (\<forall>i. ghas (sgMemberIds sg) i \<longrightarrow> ghas (sgMemberIds sg') i)))"

definition rows_kept :: "world \<Rightarrow> world \<Rightarrow> bool" where
  "rows_kept w w' \<longleftrightarrow> (db_keyed (wDB w) \<longrightarrow> db_keyed (wDB w')) \<and> groups_kept (wSG w) (wSG w')"

lemma groups_kept_refl [simp]: "groups_kept sgs sgs"
  by (simp add: groups_kept_def)

lemma groups_kept_trans: "groups_kept a b \<Longrightarrow> groups_kept b c \<Longrightarrow> groups_kept a c"
  by (fastforce simp: groups_kept_def)

lemma db_keyed_SetAccountDrv: "db_keyed db \<Longrightarrow> db_keyed (SetAccountDrv now a db)"
  by (auto simp: db_keyed_def SetAccountDrv_def split: option.splits)

lemma groups_kept_add_member: "groups_kept (wSG w) (wSG (add_member i k w))"
  by (auto simp: groups_kept_def add_member_def split: option.splits)

interpretation rows: trig_rel True rows_kept
proof unfold_locales
  fix w1 w2 w3 show "rows_kept w1 w2 \<Longrightarrow> rows_kept w2 w3 \<Longrightarrow> rows_kept w1 w3"
    by (auto simp: rows_kept_def intro: groups_kept_trans)
next
  fix env p show "preserves True rows_kept (SetAccount env p)"
    by (auto intro!: preservesI simp: SetAccount_def act_simps rows_kept_def db_keyed_SetAccountDrv)
next
  fix k show "preserves True rows_kept (RemoveAccount k)"
    by (auto intro!: preservesI simp: RemoveAccount_def act_simps rows_kept_def db_keyed_def split: if_splits)
next
  fix w i k
  have "wDB (add_member i k w) = wDB w" by (simp add: add_member_def split: option.splits)
  then show "rows_kept w (add_member i k w)" by (simp add: rows_kept_def groups_kept_add_member)
qed (auto intro!: preservesI simp: rows_kept_def upd_bal_def upd_acc_def new_bal_def GenUUID_def alloc_account_def send_to_def act_simps)

subsection \<open>Ending\<close>

interpretation total: trig_rel False "\<lambda>_ _. True"
  by unfold_locales (auto simp: preserves_def new_bal_def GenUUID_def alloc_account_def send_to_def SetAccount_def RemoveAccount_def act_simps)

lemma total_ends: "preserves False R m \<Longrightarrow> \<exists>r w'. m w = Some (r, w')"
  using preserves_ends [of False R m w] by (cases "m w") auto

end
