(* ===== verification/Debit_Props.thy ===== *)
theory Debit_Props
  imports Store_Laws
begin

text \<open>
  Properties of the operations on accounts: bounds on sessions, units given away, triggers, and refunds.
\<close>

subsection \<open>An account for the examples\<close>

definition dbx_lib :: golib where
  "dbx_lib = \<lparr>ParseFloat = \<lambda>_. Inl (ErrMsg []), ParseInt = \<lambda>_. Inl (ErrMsg []), ParseBool = \<lambda>_. Inl (ErrMsg []),
     ParseDuration = (\<lambda>s. if s = ''1s'' then Inr 1000000000 else Inl (ErrMsg [])), ParseTimeDetectLayout = \<lambda>_ _. Inl (ErrMsg []),
     FormatInt = \<lambda>_. [], FormatFloat = \<lambda>_. [], Sprintf_v = \<lambda>_. [], Duration_String = \<lambda>_. [], Time_Format = \<lambda>_. [], ToJSON = \<lambda>_. []\<rparr>"

definition dbx_env :: acc_env where
  "dbx_env = \<lparr>aeRating = \<lparr>GetRatingProfile = \<lambda>_. Inl ErrNotFound, GetRatingPlan = \<lambda>_. Inl ErrNotFound,
       GetReverseDestination = \<lambda>_. Inl ErrNotFound, rpSubjectPrefixMatching = False, MaxIncrements = 1000\<rparr>,
     aeLib = dbx_lib, aeNow = 1000, aeUUID = (\<lambda>n. replicate n CHR ''u''), aePerm = (\<lambda>n. [0..<n]), aeRemoveExpired = True,
     aeBalanceRatingSubject = [(''*voice'', ''*zero1s'')], aeStatSConns = False, aeThresholdSConns = False, aeTimezone = [],
     aeGetActions = \<lambda>_. Inl ErrNotFound, aeStructMatcher = \<lambda>_. Inl ErrNotFound, aeJSON_trigger = \<lambda>_. ([], [], []),
     aeJSON_factor = \<lambda>_. None, aeExternal = \<lambda>_. None, aeLastSummaries = \<lambda>_. Inl ErrNotFound\<rparr>"

definition dbx_account :: "(string, 'b list) gmap \<Rightarrow> 'b Account" where
  "dbx_account m = \<lparr>aID = ''t:a'', aBalanceMap = m, aUnitCounters = [], aActionTriggers = [], aAllowNegative = False, aDisabled = False,
     aUpdateTime = 0, aexecutingTriggers = False\<rparr>"

definition dbx_world :: world where
  "dbx_world = \<lparr>wBal = [], wAcc = [],
     wDB = [(''t:a'', dbx_account [(''*voice'', [new_Balance\<lparr>bUuid := ''b1'', bValue := Fin 60000000000\<rparr>])])],
     wSG = [], wUuid = 0, wSent = []\<rparr>"

definition dbx_cd :: CallDescriptor where
  "dbx_cd = new_CallDescriptor\<lparr>cdTenant := ''t'', cdAccount := ''a'', cdSubject := ''a'', cdDestination := ''49'', cdTimeStart := 0,
     cdTimeEnd := 1000000000, cdToR := VOICE\<rparr>"

lemma dbx_session: "map_option fst (GetMaxSessionDuration dbx_env dbx_cd dbx_world) = Some (Inr (Inr 1000000000))"
  by code_simp

text \<open>A debit of one second, with ThresholdS connected.\<close>

lemma dbx_debit:
  "map_option (\<lambda>(r, w). (map (\<lambda>(k, a). (k, map (map_prod id (map bValue)) (aBalanceMap a))) (wDB w), map fst (wSent w)))
     (cd_Debit (dbx_env\<lparr>aeThresholdSConns := True\<rparr>) dbx_cd dbx_world)
   = Some ([(''t:a'', [(''*voice'', [Fin 59000000000])])], [''ThresholdS''])"
  by code_simp

subsection \<open>What every sequence of calls keeps\<close>

text \<open>Claim C6. Whatever calls are made (debits, sessions, refunds, action plans with their triggers), the data base keeps one
  row per account, under the id of the account, and no shared group loses a member.\<close>

theorem stored_accounts_keyed:
  assumes "api_step\<^sup>*\<^sup>* w w'" and "db_keyed (wDB w)"
  shows "db_keyed (wDB w') \<and> groups_kept (wSG w) (wSG w')"
  using rows.reachable [OF assms(1)] assms(2) by (simp add: rows_kept_def)

theorem stored_accounts_keyed_witness:
  "\<exists>w'. api_step\<^sup>*\<^sup>* dbx_world w' \<and> db_keyed (wDB w') \<and> wDB w' \<noteq> wDB dbx_world"
proof -
  obtain r w' where d: "cd_Debit (dbx_env\<lparr>aeThresholdSConns := True\<rparr>) dbx_cd dbx_world = Some (r, w')"
    and db: "map (\<lambda>(k, a). (k, map (map_prod id (map bValue)) (aBalanceMap a))) (wDB w') = [(''t:a'', [(''*voice'', [Fin 59000000000])])]"
    using dbx_debit by auto
  have w: "db_keyed (wDB dbx_world)" by (simp add: db_keyed_def dbx_world_def dbx_account_def)
  have "api_step\<^sup>*\<^sup>* dbx_world w'" using api_step.debit [OF d] by (rule r_into_rtranclp)
  moreover have "wDB w' \<noteq> wDB dbx_world" using db by (auto simp: dbx_world_def dbx_account_def)
  ultimately show ?thesis using stored_accounts_keyed [OF _ w] by blast
qed

subsection \<open>Sessions\<close>

theorem dry_run_stores_nothing_witness:
  "\<exists>r w'. GetMaxSessionDuration dbx_env dbx_cd dbx_world = Some (r, w') \<and> wDB w' = wDB dbx_world \<and> wSG w' = []"
proof -
  obtain r w' where g: "GetMaxSessionDuration dbx_env dbx_cd dbx_world = Some (r, w')" using dbx_session by auto
  have "\<not> cdPerformRounding dbx_cd" by (simp add: dbx_cd_def new_CallDescriptor_def)
  from dry_run_stores_nothing [OF this disjI1 [OF g]] g show ?thesis by (simp add: dbx_world_def)
qed

lemma session_incs_le: "session_incs initial u incs st = Inr (Inl d) \<Longrightarrow> d \<le> initial"
  by (induction incs arbitrary: st) (auto simp: Let_def MinDuration_def split: option.splits prod.splits if_splits)

lemma session_spans_le: "session_spans m cd initial u tss st = Inr d \<Longrightarrow> d \<le> initial"
proof (induction tss arbitrary: st)
  case (Cons ts tss)
  from Cons.prems obtain dear where
    "(if dear then Inr (MinDuration initial (snd st))
      else ebind (session_incs initial u (tsIncrements (if tsIncrements ts = [] then createIncrementsSlice m ts else ts)) st) (\<lambda>r.
             case r of Inl d \<Rightarrow> Inr d | Inr st' \<Rightarrow> session_spans m cd initial u tss st')) = Inr d"
    unfolding session_spans.simps ebind_Inr by blast
  then consider "d = MinDuration initial (snd st)"
    | incs r where "session_incs initial u incs st = Inr r" "(case r of Inl d \<Rightarrow> Inr d | Inr st' \<Rightarrow> session_spans m cd initial u tss st') = Inr d"
    by (auto simp: ebind_Inr split: if_splits)
  then show ?case
  proof cases
    case 2
    then show ?thesis using Cons.IH session_incs_le by (cases r) auto
  qed (auto simp: MinDuration_def)
qed (auto simp: MinDuration_def split: if_splits)

text \<open>Every value an operation returns satisfies a predicate, in whatever world it runs.\<close>

definition returns :: "('a \<Rightarrow> bool) \<Rightarrow> 'a act \<Rightarrow> bool" where
  "returns P m \<longleftrightarrow> (\<forall>w r w'. m w = Some (Inr r, w') \<longrightarrow> P r)"

lemma returns_ret: "P a \<Longrightarrow> returns P (sret a)"
  by (simp add: returns_def act_simps)

lemma returns_bind: "(\<And>a. returns P (f a)) \<Longrightarrow> returns P (sbind m f)"
  unfolding returns_def sbind_Inr by blast

lemma returns_lift: "(\<And>a. x = Inr a \<Longrightarrow> returns P (f a)) \<Longrightarrow> returns P (sbind (slift x) f)"
  unfolding returns_def sbind_Inr by (auto simp: act_simps)

lemma returns_if: "(b \<Longrightarrow> returns P m) \<Longrightarrow> (\<not> b \<Longrightarrow> returns P m') \<Longrightarrow> returns P (if b then m else m')"
  by simp

lemma returns_case_sum: "(\<And>a. x = Inl a \<Longrightarrow> returns P (f a)) \<Longrightarrow> (\<And>b. x = Inr b \<Longrightarrow> returns P (g b)) \<Longrightarrow> returns P (case_sum f g x)"
  by (cases x) simp_all

lemma returns_case_prod: "(\<And>a b. x = (a, b) \<Longrightarrow> returns P (f a b)) \<Longrightarrow> returns P (case_prod f x)"
  by (cases x) simp

lemmas returns_intros = returns_ret returns_if returns_case_sum returns_case_prod returns_lift returns_bind

lemma returnsD: "returns P m \<Longrightarrow> m w = Some (Inr r, w') \<Longrightarrow> P r"
  unfolding returns_def by blast

definition at_most :: "duration \<Rightarrow> error + duration \<Rightarrow> bool" where
  "at_most n r \<longleftrightarrow> (case r of Inl _ \<Rightarrow> True | Inr d \<Rightarrow> d \<le> n)"

lemma getMaxSessionDuration_le:
  assumes "0 \<le> time_Sub (cdTimeEnd cd) (cdTimeStart cd)"
  shows "returns (\<lambda>r. at_most (time_Sub (cdTimeEnd cd) (cdTimeStart cd)) (fst r)) (getMaxSessionDuration env acc cd)"
  unfolding getMaxSessionDuration_def Let_def using assms
  by (intro returns_intros) (auto simp: at_most_def dest!: session_spans_le)

lemma with_account_returns: "(\<And>e. P (Inl e)) \<Longrightarrow> (\<And>acc. returns P (f acc)) \<Longrightarrow> returns P (with_account env cd f)"
  unfolding with_account_def by (intro returns_intros) auto

lemma returns_then: "returns Q m \<Longrightarrow> (\<And>a. Q a \<Longrightarrow> returns P (f a)) \<Longrightarrow> returns P (sbind m f)"
  unfolding returns_def sbind_Inr by blast

text \<open>Claim C7. A session is never allowed more than the time it asks for: the maximum duration is at most the duration of the
  descriptor, whatever the balances, groups and rates of the account are; a postpaid account is answered -1.\<close>

theorem max_session_bounded:
  assumes "GetMaxSessionDuration env cd w = Some (Inr (Inr d), w')" and "cdTimeStart cd \<le> cdTimeEnd cd"
  shows "d \<le> time_Sub (cdTimeEnd cd) (cdTimeStart cd)"
proof -
  let ?n = "time_Sub (cdTimeEnd cd) (cdTimeStart cd)"
  have "0 \<le> ?n" using assms(2) by (auto simp: time_Sub_def)
  then have "returns (at_most ?n) (GetMaxSessionDuration env cd)"
    unfolding GetMaxSessionDuration_def
    by (intro with_account_returns returns_then [OF getMaxSessionDuration_le] returns_intros) (auto simp: at_most_def)
  from returnsD [OF this assms(1)] show ?thesis by (simp add: at_most_def)
qed

theorem max_session_bounded_witness:
  "\<exists>d w'. GetMaxSessionDuration dbx_env dbx_cd dbx_world = Some (Inr (Inr d), w') \<and> d \<le> time_Sub (cdTimeEnd dbx_cd) (cdTimeStart dbx_cd)"
proof -
  obtain w' where g: "GetMaxSessionDuration dbx_env dbx_cd dbx_world = Some (Inr (Inr 1000000000), w')" using dbx_session by auto
  have "cdTimeStart dbx_cd \<le> cdTimeEnd dbx_cd" by (simp add: dbx_cd_def new_CallDescriptor_def)
  from max_session_bounded [OF g this] g show ?thesis by blast
qed

subsection \<open>Actions and triggers\<close>

text \<open>Claim C17. Triggers, action plans and refunds end: triggers run actions that debit, top up or reset the balances, counters and
  triggers of the account, and each of these runs the triggers again. The flag of the account ends this recursion, so that
  executing the triggers, counting units, running an action plan over any accounts and refunding increments all come to an
  end, whatever triggers and actions there are.\<close>

theorem triggers_plans_and_refunds_end:
  "(\<exists>r w'. ExecuteActionTriggers env acc a w = Some (r, w')) \<and> (\<exists>r w'. countUnits env acc x k cc b w = Some (r, w')) \<and>
   (\<exists>r w'. ActionTiming_Execute env acts ids w = Some (r, w')) \<and>
   (\<exists>r w'. RefundIncrements env cd w = Some (r, w')) \<and> (\<exists>r w'. RefundRounding env cd w = Some (r, w'))"
  by (intro conjI total_ends [OF total.triggers] total_ends [OF total.countUnits] total_ends [OF total.plan] total_ends [OF total.refund]
      total_ends [OF total.api(4)])

lemma bf_GetValue_formula:
  "bfValue f = Some vf \<Longrightarrow> vfMethod vf \<noteq> [] \<Longrightarrow> bf_GetValue now (Some (bf_SetValue f x)) = bf_GetValue now (Some f)"
  by (simp add: bf_GetValue_def bf_SetValue_def split: option.splits)

lemma MatchFilter_account [simp]: "MatchFilter (b\<lparr>baccount := x\<rparr>) g i j = MatchFilter b g i j"
  by (cases g) (simp_all add: MatchFilter_def)

lemma MatchFilter_SetValue [simp]: "MatchFilter b (Some (bf_SetValue f x)) i j = MatchFilter b (Some f) i j"
  by (simp add: MatchFilter_def bf_SetValue_def)

lemma bf_GetType_copies [simp]:
  "bf_GetType (Some (bf_SetValue f x)) = bf_GetType (Some f)" "bf_GetType (BalanceFilter_Clone (Some f)) = bf_GetType (Some f)"
  by (simp_all add: bf_GetType_def bf_get_def bf_SetValue_def BalanceFilter_Clone_def)

lemma fold_upd_bal:
  assumes "distinct ps" and "p < length (wBal w)"
  shows "wBal (fold (\<lambda>p. upd_bal p h) ps w) ! p = (if p \<in> set ps then h (wBal w ! p) else wBal w ! p)
    \<and> length (wBal (fold (\<lambda>p. upd_bal p h) ps w)) = length (wBal w)"
  using assms
proof (induction ps arbitrary: w)
  case (Cons q ps)
  then show ?case by (cases "q = p") (auto simp: upd_bal_def)
qed simp

text \<open>What \<^verbatim>\<open>debitBalanceAction\<close> does to a balance that matches, before it sets up the counters and runs the triggers.\<close>

lemma debitBalanceAction_matching:
  assumes "acBalance a = Some f" and "p \<in> set (chain_of acc (bf_GetType (Some f)) w)"
    and "distinct (chain_of acc (bf_GetType (Some f)) w)" and "p < length (wBal w)"
    and "\<not> IsExpiredAt (wBal w ! p) (aeNow env)" and "MatchFilter (wBal w ! p) (Some f) False False"
  shows "\<exists>w1. debitBalanceAction env exec acc a False False w = sbind (acc_InitCounters acc) (\<lambda>_. sbind (exec acc None) (\<lambda>_. sret None)) w1
    \<and> bValue (wBal w1 ! p) = Round (fsub (bValue (wBal w ! p)) (bf_GetValue (aeNow env) (Some f))) globalRoundingDecimals ROUNDING_MIDDLE"
proof -
  obtain c where c: "CreateBalance (aeNow env) (Some f) = Inr c" "bValue c = bf_GetValue (aeNow env) (Some f)"
    by (simp add: CreateBalance_def Balance_Clone_def)
  let ?w1 = "fold (\<lambda>p. upd_bal p (debit_matching env acc (Some f) (bValue c) False False)) (chain_of acc (bf_GetType (Some f)) w) w"
  have "list_ex (\<lambda>p. \<not> IsExpiredAt (wBal w ! p) (aeNow env) \<and> MatchFilter (wBal w ! p) (Some f) False False)
      (chain_of acc (bf_GetType (Some f)) w)"
    using assms(2,5,6) by (auto simp: list_ex_iff)
  then have "debitBalanceAction env exec acc a False False w = sbind (acc_InitCounters acc) (\<lambda>_. sbind (exec acc None) (\<lambda>_. sret None)) ?w1"
    by (simp add: debitBalanceAction_def act_simps assms(1) c(1))
  moreover have "wBal ?w1 ! p = debit_matching env acc (Some f) (bValue c) False False (wBal w ! p)"
    using fold_upd_bal [OF assms(3,4)] assms(2) by simp
  ultimately show ?thesis
    using assms(5,6) c(2) by (auto simp: debit_matching_def SubstractValue_def bal_SetValue_def Let_def)
qed

text \<open>Claim C19. A top-up by a formula debits: the amount of a top-up is made negative by setting the static value of its filter, which a
  filter with a formula does not read. So \<^verbatim>\<open>*topup\<close> with a formula of a positive value subtracts that value from every balance of the
  account (listed once) that is not expired and matches the copy of the filter, before it sets up the counters and runs the triggers.\<close>

theorem topup_by_formula_debits:
  assumes "acBalance a = Some f" and "bfValue f = Some vf" and "vfMethod vf \<noteq> []" and "fless (Fin 0) (bf_GetValue (aeNow env) (Some f))"
    and "p \<in> set (chain_of acc (bf_GetType (Some f)) w)" and "distinct (chain_of acc (bf_GetType (Some f)) w)" and "p < length (wBal w)"
    and "\<not> IsExpiredAt (wBal w ! p) (aeNow env)" and "MatchFilter (wBal w ! p) (BalanceFilter_Clone (Some f)) False False"
  shows "\<exists>w1. topupAction env exec acc a False w = sbind (acc_InitCounters acc) (\<lambda>_. sbind (exec acc None) (\<lambda>_. sret None)) w1
    \<and> bValue (wBal w1 ! p) = Round (fsub (bValue (wBal w ! p)) (bf_GetValue (aeNow env) (Some f))) globalRoundingDecimals ROUNDING_MIDDLE"
proof -
  obtain f' where f': "BalanceFilter_Clone (Some f) = Some f'" "bfValue f' = Some vf"
    using assms(2) by (auto simp: BalanceFilter_Clone_def)
  let ?g = "bf_SetValue f' (fneg (bf_GetValue (aeNow env) (Some f')))"
  have v: "bf_GetValue (aeNow env) (Some ?g) = bf_GetValue (aeNow env) (Some f)"
    "bf_GetValue (aeNow env) (Some f') = bf_GetValue (aeNow env) (Some f)"
    using assms(2,3) f' by (simp_all add: bf_GetValue_formula) (simp_all add: bf_GetValue_def)
  have a: "acBalance (genericMakeNegative env (Action_Clone a)) = Some ?g"
    using assms(1,4) f'(1) v(2) by (simp add: genericMakeNegative_def Action_Clone_def)
  have t: "bf_GetType (Some ?g) = bf_GetType (Some f)"
    using f'(1) bf_GetType_copies(2) [of f] by simp
  have m: "MatchFilter (wBal w ! p) (Some ?g) False False"
    using assms(9) f'(1) by simp
  from debitBalanceAction_matching [OF a, where exec = exec and acc = acc and w = w, unfolded t, OF assms(5-8) m]
  show ?thesis unfolding topupAction_def v(1) .
qed

definition dbx_formula :: Action where
  "dbx_formula = \<lparr>acId = [], acActionType = ''*topup'', acExtraParameters = [], acFilter = [], acExpirationString = [], acWeight = Fin 0,
     acBalance = Some (new_BalanceFilter\<lparr>bfType := Some ''*monetary'', bfValue := Some \<lparr>vfMethod = ''*incremental'',
       vfParams = [(''Units'', IFloat64 (Fin 48)), (''Interval'', IString ''day''), (''Increment'', IString ''hour'')], vfStatic = Fin 0\<rparr>\<rparr>),
     acbalanceValue = Fin 0\<rparr>"

definition dbx_money :: world where
  "dbx_money = dbx_world\<lparr>wBal := [new_Balance\<lparr>bUuid := ''m1'', bValue := Fin 10\<rparr>], wAcc := [dbx_account [(''*monetary'', [0])]]\<rparr>"

theorem topup_by_formula_debits_witness:
  "\<exists>w1. topupAction dbx_env (ExecuteActionTriggers dbx_env) 0 dbx_formula False dbx_money =
       sbind (acc_InitCounters 0) (\<lambda>_. sbind (ExecuteActionTriggers dbx_env 0 None) (\<lambda>_. sret None)) w1
     \<and> bValue (wBal w1 ! 0) = Fin 8"
proof -
  obtain f vf where f: "acBalance dbx_formula = Some f" "bfValue f = Some vf" "vfMethod vf \<noteq> []"
    by (auto simp: dbx_formula_def new_BalanceFilter_def)
  have v: "bf_GetValue (aeNow dbx_env) (acBalance dbx_formula) = Fin 2" by code_simp
  have t: "chain_of 0 (bf_GetType (acBalance dbx_formula)) dbx_money = [0]" by code_simp
  have m: "\<not> IsExpiredAt (wBal dbx_money ! 0) (aeNow dbx_env)" "MatchFilter (wBal dbx_money ! 0) (BalanceFilter_Clone (acBalance dbx_formula)) False False"
    "length (wBal dbx_money) = 1" by code_simp+
  have r: "Round (fsub (bValue (wBal dbx_money ! 0)) (Fin 2)) globalRoundingDecimals ROUNDING_MIDDLE = Fin 8" by code_simp
  from topup_by_formula_debits [OF f, of dbx_env 0 0 dbx_money "ExecuteActionTriggers dbx_env"] v t m r show ?thesis
    unfolding f(1) by simp
qed

lemma mset_remove_swapping: "mset (remove_swapping P xs) = filter_mset (\<lambda>x. \<not> P x) (mset xs)"
proof (induction P xs rule: remove_swapping.induct)
  case (2 P x xs)
  have eq: "mset (last xs # butlast xs) = mset xs" if "xs \<noteq> []"
    using arg_cong [OF append_butlast_last_id [OF that], of mset] by simp
  show ?case
  proof (cases "P x \<and> xs \<noteq> []")
    case True
    then have "mset (remove_swapping P (x # xs)) = mset (remove_swapping P (last xs # butlast xs))" by simp
    also have "\<dots> = filter_mset (\<lambda>x. \<not> P x) (mset (last xs # butlast xs))" using 2 True by blast
    also have "\<dots> = filter_mset (\<lambda>x. \<not> P x) (mset (x # xs))" using True eq by simp
    finally show ?thesis .
  next
    case False
    with 2 show ?thesis by auto
  qed
qed simp

lemma removeBalances_run:
  assumes "gget (aBalanceMap (wAcc w ! acc)) typ = Some l"
  shows "removeBalances P acc typ w =
    Some (Inr (if \<exists>p \<in> set l. P (wBal w ! p) then None else Some ErrNotFound), set_chain acc typ (remove_swapping (\<lambda>p. P (wBal w ! p)) l) w)"
  using assms by (simp add: removeBalances_def act_simps list_ex_iff)

lemma chain_of_set_chain:
  "acc < length (wAcc w) \<Longrightarrow> chain_of acc' k' (set_chain acc k l w) = (if acc' = acc \<and> k' = k then l else chain_of acc' k' w)"
  by (simp add: chain_of_def set_chain_def upd_acc_def nth_list_update)

text \<open>Claim C18. Removing balances by exchanging with the last one removes what a filter removes: after \<^verbatim>\<open>*remove_balance\<close> on a
  list of balances exactly the balances that do not match are in it, each as often as before, every other
  list is unchanged, no balance is changed, and the action fails exactly when nothing matched.\<close>

theorem remove_balance_is_filter:
  assumes "gget (aBalanceMap (wAcc w ! acc)) typ = Some l" and "acc < length (wAcc w)"
  shows "\<exists>w'. removeBalances P acc typ w = Some (Inr (if \<exists>p \<in> set l. P (wBal w ! p) then None else Some ErrNotFound), w')
     \<and> mset (chain_of acc typ w') = filter_mset (\<lambda>p. \<not> P (wBal w ! p)) (mset l)
     \<and> (\<forall>acc' k. (acc', k) \<noteq> (acc, typ) \<longrightarrow> chain_of acc' k w' = chain_of acc' k w) \<and> wBal w' = wBal w"
  unfolding removeBalances_run [OF assms(1)]
  by (auto simp: chain_of_set_chain [OF assms(2)] mset_remove_swapping) (simp_all add: set_chain_def upd_acc_def)

definition dbx_three :: world where
  "dbx_three = dbx_world\<lparr>wBal := map (\<lambda>(i, t). new_Balance\<lparr>bUuid := i, bExpirationDate := t\<rparr>) [(''b1'', 500), (''b2'', 600), (''b3'', 0)],
     wAcc := [dbx_account [(''*voice'', [0, 1, 2])]]\<rparr>"

theorem remove_balance_is_filter_witness:
  "\<exists>w'. removeBalances (\<lambda>b. bUuid b = ''b1'') 0 ''*voice'' dbx_three = Some (Inr None, w') \<and> mset (chain_of 0 ''*voice'' w') = {#1, 2#}"
proof -
  have "gget (aBalanceMap (wAcc dbx_three ! 0)) ''*voice'' = Some [0, 1, 2]" "0 < length (wAcc dbx_three)"
    by (simp_all add: dbx_three_def dbx_account_def)
  from remove_balance_is_filter [OF this, of "\<lambda>b. bUuid b = ''b1''"] show ?thesis
    by (auto simp: dbx_three_def new_Balance_def)
qed

text \<open>Claim C20. Expired balances are not all removed: the loop that removes them steps over the balance after a removed one. When
  the first two balances of a list are expired, the second is still there after \<^verbatim>\<open>CleanExpiredStuff\<close>.\<close>

theorem clean_keeps_expired:
  assumes "aeRemoveExpired env" and "acc < length (wAcc w)" and "gget (aBalanceMap (wAcc w ! acc)) typ = Some (p # q # l)"
    and "IsExpiredAt (wBal w ! p) (aeNow env)"
  shows "\<exists>w' l'. CleanExpiredStuff env acc w = Some (Inr (), w') \<and> chain_of acc typ w' = q # l' \<and> wBal w' = wBal w"
proof -
  let ?f = "remove_skipping (\<lambda>p. IsExpiredAt (wBal w ! p) (aeNow env))"
  have "map_of (map (\<lambda>(k, l). (k, ?f l)) (aBalanceMap (wAcc w ! acc))) typ = Some (?f (p # q # l))"
    using assms(3) by (simp add: map_of_map)
  with assms show ?thesis by (simp add: CleanExpiredStuff_def act_simps chain_of_def upd_acc_def)
qed

theorem clean_keeps_expired_witness:
  "\<exists>w' l'. CleanExpiredStuff dbx_env 0 dbx_three = Some (Inr (), w') \<and> chain_of 0 ''*voice'' w' = 1 # l' \<and> IsExpiredAt (wBal w' ! 1) 1000"
proof -
  have "aeRemoveExpired dbx_env" "0 < length (wAcc dbx_three)" "gget (aBalanceMap (wAcc dbx_three ! 0)) ''*voice'' = Some [0, 1, 2]"
    "IsExpiredAt (wBal dbx_three ! 0) (aeNow dbx_env)" "IsExpiredAt (wBal dbx_three ! 1) 1000"
    by (simp_all add: dbx_env_def dbx_three_def dbx_account_def IsExpiredAt_def IsZero_def new_Balance_def)
  from clean_keeps_expired [OF this(1-4)] this(5) show ?thesis by (auto simp del: One_nat_def)
qed

end
