(* ===== verification/Unit_Debits.thy ===== *)
theory Unit_Debits
  imports Debit_Props
begin

text \<open>
  Debits from balances of units that are free (\<^verbatim>\<open>*zero\<close> subjects): how much of a call they cover, what is left of the
  balance, and that a refund restores it. The values of a balance are floats rounded to six decimals; the theorems
  are about whole seconds, on which this rounding is exact up to 200000 seconds.
\<close>

subsection \<open>Whole seconds\<close>

definition seconds :: "int \<Rightarrow> bool" where
  "seconds v \<longleftrightarrow> 1000000000 dvd v \<and> \<bar>v\<bar> \<le> 200000000000000"

lemma seconds_f64: "seconds v \<Longrightarrow> \<bar>v\<bar> \<le> 2 ^ 53"
  by (simp add: seconds_def)

lemma Round_seconds:
  assumes "seconds v"
  shows "Round (Fin (of_int v)) globalRoundingDecimals ROUNDING_MIDDLE = Fin (of_int v)"
proof -
  obtain k where v: "v = 1000000000 * k" and k: "\<bar>k\<bar> \<le> 200000"
    using assms by (auto simp: seconds_def elim!: dvdE)
  have "rnd (of_int (k * 5 ^ 15) * pow2 15) = Fin (of_int (k * 5 ^ 15) * pow2 15)"
  proof (rule rnd_dyadic)
    show "\<bar>k * 5 ^ 15\<bar> \<le> 2 ^ 53" using k by (auto simp: abs_le_iff)
    have "\<bar>of_int (k * 5 ^ 15) :: rat\<bar> \<le> of_int (2 ^ 53)" using k by (simp only: flip: of_int_abs) (simp only: of_int_le_iff, simp add: abs_le_iff)
    then have "\<bar>of_int (k * 5 ^ 15) * pow2 15\<bar> \<le> of_int (2 ^ 53) * pow2 15" by (simp add: abs_mult pow2_def)
    then show "\<bar>of_int (k * 5 ^ 15) * pow2 15\<bar> < pow2 1024" by (simp add: pow2_def)
  qed simp
  moreover have "of_int (k * 5 ^ 15) * pow2 15 = (of_int (v * 1000000) :: rat)" by (simp add: v pow2_def)
  ultimately have "rnd (of_int (v * 1000000)) = Fin (of_int (v * 1000000))" by metis
  then have m: "rnd (of_int v * 1000000) = Fin (of_int (v * 1000000))" by simp
  have p: "math_Pow10 6 = Fin 1000000" using rnd_int [of 1000000] by (simp add: math_Pow10_def)
  have r: "rnd (of_int v) = Fin (of_int v)" using seconds_f64 [OF assms] by (rule rnd_int)
  show ?thesis
    by (simp add: Round_def globalRoundingDecimals_def Let_def p m r ROUNDING_MIDDLE_def ROUNDING_UP_def ROUNDING_DOWN_def
        trunc_rat_def del: of_int_mult, simp add: r)
qed

lemma SubstractValue_seconds:
  "bValue b = Fin (of_int v) \<Longrightarrow> seconds (v - x) \<Longrightarrow> SubstractValue b (Fin (of_int x)) = b\<lparr>bValue := Fin (of_int (v - x)), bdirty := True\<rparr>"
  using fsub_int [of v x] seconds_f64 [of "v - x"] Round_seconds [of "v - x"] by (simp add: SubstractValue_def bal_SetValue_def)

lemma AddValue_seconds:
  "bValue b = Fin (of_int v) \<Longrightarrow> seconds (v + x) \<Longrightarrow> AddValue b (Fin (of_int x)) = b\<lparr>bValue := Fin (of_int (v + x)), bdirty := True\<rparr>"
  using fadd_int [of v x] seconds_f64 [of "v + x"] Round_seconds [of "v + x"] by (simp add: AddValue_def bal_SetValue_def)

subsection \<open>Accounts whose units are not watched\<close>

definition idle :: "acc_env \<Rightarrow> nat \<Rightarrow> world \<Rightarrow> bool" where
  "idle env acc w \<longleftrightarrow>
     aActionTriggers (wAcc w ! acc) = [] \<and> aUnitCounters (wAcc w ! acc) = [] \<and> \<not> aexecutingTriggers (wAcc w ! acc) \<and>
     (aeRemoveExpired env \<longrightarrow> (\<forall>(k, l) \<in> set (aBalanceMap (wAcc w ! acc)). \<forall>p \<in> set l. \<not> IsExpiredAt (wBal w ! p) (aeNow env)))"

lemma remove_skipping_none: "(\<forall>x \<in> set xs. \<not> P x) \<Longrightarrow> remove_skipping P xs = xs"
  by (induction P xs rule: remove_skipping.induct) auto

lemma upd_acc_same: "g (wAcc w ! acc) = wAcc w ! acc \<Longrightarrow> upd_acc acc g w = w"
  by (simp add: upd_acc_def)

lemma upd_acc_twice: "acc < length (wAcc w) \<Longrightarrow> upd_acc acc g (upd_acc acc f w) = upd_acc acc (g \<circ> f) w"
  by (simp add: upd_acc_def)

lemma idle_triggers:
  assumes "idle env acc w" and "acc < length (wAcc w)"
  shows "ExecuteActionTriggers env acc a w = Some (Inr (), w)"
proof -
  let ?w = "upd_acc acc (\<lambda>x. x\<lparr>aexecutingTriggers := True, aActionTriggers := []\<rparr>) w"
  have b: "wBal ?w = wBal w" "acc < length (wAcc ?w)" using assms(2) by (simp_all add: upd_acc_def)
  have "map (\<lambda>(k, l). (k, remove_skipping (\<lambda>p. IsExpiredAt (wBal w ! p) (aeNow env)) l)) (aBalanceMap (wAcc w ! acc)) = aBalanceMap (wAcc w ! acc)"
    if "aeRemoveExpired env"
    using assms(1) that by (intro map_idI) (auto simp: idle_def intro!: remove_skipping_none)
  then have "CleanExpiredStuff env acc ?w = Some (Inr (), ?w)"
    using b(2) assms(2) by (auto simp: CleanExpiredStuff_def act_simps b(1) upd_acc_def intro!: upd_acc_same)
  moreover have "upd_acc acc (\<lambda>x. x\<lparr>aexecutingTriggers := False\<rparr>) ?w = w"
    unfolding upd_acc_twice [OF assms(2)] using assms(1) by (intro upd_acc_same) (simp add: idle_def)
  moreover have "upd_acc acc (\<lambda>x. x\<lparr>aexecutingTriggers := True, aActionTriggers := ActionTriggers_Sort (aActionTriggers x)\<rparr>) w = ?w"
    using assms(1) by (simp add: upd_acc_def idle_def ActionTriggers_Sort_def sort_less_def)
  moreover have "length (aActionTriggers (wAcc ?w ! acc)) = 0" using assms(2) by (simp add: upd_acc_def)
  moreover have "\<not> aexecutingTriggers (wAcc w ! acc)" using assms(1) by (simp add: idle_def)
  ultimately show ?thesis using assms(2) by (simp add: ExecuteActionTriggers.simps act_simps)
qed

lemma idle_count:
  assumes "idle env acc w" and "acc < length (wAcc w)"
  shows "countUnits env acc x k cc b w = Some (Inr (), w)"
proof -
  have "upd_acc acc (\<lambda>a. a\<lparr>aUnitCounters := addUnits (GetReverseDestination (aeRating env)) (aUnitCounters a) x k cc b\<rparr>) w = w"
    using assms(1) by (intro upd_acc_same) (simp add: idle_def addUnits_def)
  then show ?thesis using idle_triggers [OF assms] by (simp add: countUnits_def act_simps)
qed

text \<open>The value of a balance set, the rest of the world unchanged.\<close>

definition with_value :: "nat \<Rightarrow> int \<Rightarrow> bool \<Rightarrow> world \<Rightarrow> world" where
  "with_value p v d = upd_bal p (\<lambda>b. b\<lparr>bValue := Fin (of_int v), bdirty := d\<rparr>)"

lemma with_value_simps [simp]:
  "wAcc (with_value p v d w) = wAcc w" "wDB (with_value p v d w) = wDB w" "length (wBal (with_value p v d w)) = length (wBal w)"
  "p < length (wBal w) \<Longrightarrow> wBal (with_value p v d w) ! p = (wBal w ! p)\<lparr>bValue := Fin (of_int v), bdirty := d\<rparr>"
  "q \<noteq> p \<Longrightarrow> wBal (with_value p v d w) ! q = wBal w ! q"
  "with_value p v d (with_value p v' d' w) = with_value p v d w"
  by (cases "p < length (wBal w)"; simp add: with_value_def upd_bal_def list_update_beyond not_less)+

lemma idle_with_value [simp]: "idle env acc (with_value p v d w) = idle env acc w"
proof -
  have "IsExpiredAt (wBal (with_value p v d w) ! q) t = IsExpiredAt (wBal w ! q) t" for q t
    by (cases "p < length (wBal w)"; cases "q = p") (simp_all add: IsExpiredAt_def with_value_def upd_bal_def list_update_beyond not_less)
  then show ?thesis by (simp add: idle_def)
qed

lemma with_value_same:
  assumes "bValue (wBal w ! p) = Fin (of_int v)"
  shows "with_value p v (bdirty (wBal w ! p)) w = w"
proof -
  have "(wBal w ! p)\<lparr>bValue := Fin (of_int v)\<rparr> = wBal w ! p" using assms by (cases "wBal w ! p") simp
  then show ?thesis by (simp add: with_value_def upd_bal_def)
qed

lemma substract_world:
  "bValue (wBal w ! p) = Fin (of_int v) \<Longrightarrow> seconds (v - x) \<Longrightarrow> upd_bal p (\<lambda>b. SubstractValue b (Fin (of_int x))) w = with_value p (v - x) True w"
  by (simp add: upd_bal_def with_value_def SubstractValue_seconds)

lemma add_world:
  "bValue (wBal w ! p) = Fin (of_int v) \<Longrightarrow> seconds (v + x) \<Longrightarrow> upd_bal p (\<lambda>b. AddValue b (Fin (of_int x))) w = with_value p (v + x) True w"
  by (simp add: upd_bal_def with_value_def AddValue_seconds)

subsection \<open>Debiting free units\<close>

definition paid_from :: "string \<Rightarrow> string \<Rightarrow> duration \<Rightarrow> Increment \<Rightarrow> bool" where
  "paid_from u accID d inc \<longleftrightarrow> icDuration inc = d \<and> icpaid inc \<and>
     (case icBalanceInfo inc of
        None \<Rightarrow> False
      | Some di \<Rightarrow> diMonetary di = None \<and> diAccountID di = accID \<and>
          (case diUnit di of None \<Rightarrow> False | Some ui \<Rightarrow> uiUUID ui = u \<and> uiConsumed ui = Fin (of_int d)))"

definition unpaid_inc :: "duration \<Rightarrow> Increment \<Rightarrow> bool" where
  "unpaid_inc d inc \<longleftrightarrow> icDuration inc = d \<and> icBalanceInfo inc = Some \<lparr>diUnit = None, diMonetary = None, diAccountID = []\<rparr>"

text \<open>The number of increments of \<open>m\<close> that a value pays.\<close>

definition covered :: "int \<Rightarrow> duration \<Rightarrow> nat \<Rightarrow> nat" where
  "covered v d m = min m (nat (v div d))"

lemma covered_simps: "covered v d 0 = 0" "0 < d \<Longrightarrow> 0 \<le> v \<Longrightarrow> v < d \<Longrightarrow> covered v d m = 0"
  "0 < d \<Longrightarrow> d \<le> v \<Longrightarrow> covered v d (Suc m) = Suc (covered (v - d) d m)"
proof -
  show "covered v d (Suc m) = Suc (covered (v - d) d m)" if "0 < d" "d \<le> v"
  proof -
    have "v div d = (v - d) div d + 1" using that div_add_self2 [of d "v - d"] by simp
    moreover have "0 \<le> (v - d) div d" using that by (simp add: pos_imp_zdiv_nonneg_iff)
    ultimately show ?thesis by (simp add: covered_def nat_add_distrib)
  qed
qed (simp_all add: covered_def div_pos_pos_trivial)

lemma seconds_le: "seconds x \<Longrightarrow> 0 \<le> y \<Longrightarrow> y \<le> x \<Longrightarrow> 1000000000 dvd y \<Longrightarrow> seconds y"
  by (simp add: seconds_def)

lemma seconds_dvd: "seconds x \<Longrightarrow> 1000000000 dvd x"
  by (simp add: seconds_def)

lemma seconds_diff: "seconds v \<Longrightarrow> seconds d \<Longrightarrow> 0 \<le> int k * d \<Longrightarrow> int k * d \<le> v \<Longrightarrow> seconds (v - int k * d)"
  by (rule seconds_le [of v]) (auto dest!: seconds_dvd)

lemma count_if_idle:
  "(dxCount dx \<Longrightarrow> idle (dxEnv dx) (dxAcc dx) w) \<Longrightarrow> dxAcc dx < length (wAcc w) \<Longrightarrow> count_if dx x k p w = Some (Inr (), w)"
  by (simp add: count_if_def act_simps idle_count)

lemma zero_incs_run:
  assumes "dxCount dx \<Longrightarrow> idle (dxEnv dx) (dxAcc dx) w" and "dxAcc dx < length (wAcc w)" and "dxBal dx < length (wBal w)"
    and "bFactor (wBal w ! dxBal dx) = None" and "bValue (wBal w ! dxBal dx) = Fin (of_int v)"
    and "seconds v" and "seconds d" and "0 < d" and "0 \<le> v"
    and "n + m \<le> length incs" and "\<And>q. n \<le> q \<Longrightarrow> q < n + m \<Longrightarrow> unpaid_inc d (incs ! q)"
  shows "\<exists>incs' dd. zero_incs dx n [n..<n + m] incs w =
       Some (Inr (if covered v d m = m then Whole else CutAt (n + covered v d m), incs'), with_value (dxBal dx) (v - int (covered v d m) * d) dd w)
     \<and> length incs' = length incs \<and> (\<forall>q < n. incs' ! q = incs ! q)
     \<and> (\<forall>q. n \<le> q \<and> q < n + covered v d m \<longrightarrow> paid_from (bUuid (wBal w ! dxBal dx)) (aID (wAcc w ! dxAcc dx)) d (incs' ! q))
     \<and> (\<forall>q. n \<le> q \<and> q < n + m \<longrightarrow> icDuration (incs' ! q) = d)"
  using assms
proof (induction m arbitrary: n v incs w)
  case 0
  then show ?case using with_value_same [OF 0(5)] by (intro exI [of _ incs] exI [of _ "bdirty (wBal w ! dxBal dx)"]) (auto simp: covered_simps act_simps)
next
  case (Suc m)
  let ?p = "dxBal dx" and ?u = "bUuid (wBal w ! dxBal dx)" and ?i = "aID (wAcc w ! dxAcc dx)"
  have up: "[n..<n + Suc m] = n # [Suc n..<Suc n + m]" by (simp add: upt_conv_Cons)
  have un: "unpaid_inc d (incs ! n)" using Suc.prems(11) [of n] by simp
  have am: "unit_amount (dxCD dx) (wBal w ! ?p) (incs ! n) = Fin (of_int d)"
    using un Suc.prems(4) by (simp add: unit_amount_def unpaid_inc_def float_of_int_exact [OF seconds_f64 [OF Suc.prems(7)]])
  show ?case
  proof (cases "d \<le> v")
    case False
    let ?incs = "set_inc n (\<lambda>i. i\<lparr>icpaid := False\<rparr>) incs"
    have "zero_incs dx n [n..<n + Suc m] incs w = Some (Inr (CutAt n, ?incs), w)"
      unfolding up using False Suc.prems(5) by (simp add: act_simps am del: upt.simps)
    with False Suc.prems show ?thesis using with_value_same [OF Suc.prems(5)]
      by (intro exI [of _ ?incs] exI [of _ "bdirty (wBal w ! ?p)"])
        (auto simp: covered_simps set_inc_def nth_list_update unpaid_inc_def)
  next
    case True
    let ?w = "with_value ?p (v - d) True w"
    define ui where "ui = unit_info (wBal ?w ! ?p) (dxCC dx) (Fin (of_int d)) None"
    define inc where "inc = (incs ! n)\<lparr>icCost := Fin 0, icBalanceInfo := Some \<lparr>diUnit = Some ui, diMonetary = None, diAccountID = ?i\<rparr>, icpaid := True\<rparr>"
    have sec: "seconds (v - d)" using seconds_diff [of v d 1] Suc.prems True by simp
    have idle: "dxCount dx \<Longrightarrow> idle (dxEnv dx) (dxAcc dx) ?w" using Suc.prems(1) by simp
    have info: "set_info n (\<lambda>di. di\<lparr>diUnit := Some ui, diAccountID := ?i\<rparr>) (set_inc n (\<lambda>i. i\<lparr>icCost := Fin 0\<rparr>) incs) = Inr (incs[n := inc])"
      using un Suc.prems(10) by (simp add: set_info_def set_inc_def unpaid_inc_def inc_def)
    have step: "zero_incs dx n [n..<n + Suc m] incs w = zero_incs dx (Suc n) [Suc n..<Suc n + m] (incs[n := inc]) ?w"
      unfolding up using True Suc.prems(2,5) substract_world [OF Suc.prems(5) sec]
      by (simp add: act_simps am count_if_idle [OF idle] info flip: ui_def del: upt.simps)
    have paid: "paid_from ?u ?i d inc"
      using un Suc.prems(3) by (simp add: paid_from_def inc_def ui_def unit_info_def unpaid_inc_def)
    obtain incs' dd where r: "zero_incs dx (Suc n) [Suc n..<Suc n + m] (incs[n := inc]) ?w =
        Some (Inr (if covered (v - d) d m = m then Whole else CutAt (Suc n + covered (v - d) d m), incs'), with_value ?p (v - d - int (covered (v - d) d m) * d) dd ?w)"
      "length incs' = length incs" "\<forall>q < Suc n. incs' ! q = incs[n := inc] ! q"
      "\<forall>q. Suc n \<le> q \<and> q < Suc n + covered (v - d) d m \<longrightarrow> paid_from ?u ?i d (incs' ! q)"
      "\<forall>q. Suc n \<le> q \<and> q < Suc n + m \<longrightarrow> icDuration (incs' ! q) = d"
      using Suc.IH [of ?w "v - d" "Suc n" "incs[n := inc]"] Suc.prems idle sec True by auto
    have n: "incs' ! n = inc" using r(3) Suc.prems(10) by simp
    have d: "icDuration inc = d" using paid by (simp add: paid_from_def)
    have c: "covered v d (Suc m) = Suc (covered (v - d) d m)" using True Suc.prems(8) by (simp add: covered_simps)
    have v: "v - d - int (covered (v - d) d m) * d = v - int (covered v d (Suc m)) * d" by (simp add: c algebra_simps)
    show ?thesis
      using r(2,3,4,5) n d paid unfolding step r(1) v with_value_simps
      by (intro exI [of _ incs'] exI [of _ dd]) (auto simp: c Suc_le_eq dest: le_neq_implies_less elim: le_SucE)
  qed
qed

text \<open>The span made for a call: as long as the least number of increments that covers it, and empty of
  increments when there are too many.\<close>

lemma zero_span_shape:
  assumes "0 < d" and "cdTimeStart cd < cdTimeEnd cd" and "cdTimeEnd cd - cdTimeStart cd + d \<le> 2 ^ 53"
  obtains r inc where "d dvd r" "cdTimeEnd cd - cdTimeStart cd \<le> r" "r < cdTimeEnd cd - cdTimeStart cd + d" "unpaid_inc d inc"
    "tsTimeStart (zero_span env b cd d) = cdTimeStart cd" "tsTimeEnd (zero_span env b cd d) = cdTimeStart cd + r"
    "tsIncrements (zero_span env b cd d) = (if MaxIncrements (aeRating env) < r div d then [] else replicate (nat (r div d)) inc)"
proof -
  let ?D = "cdTimeEnd cd - cdTimeStart cd" and ?ts = "new_TimeSpan (cdTimeStart cd) (cdTimeEnd cd)"
  define r where "r = (if d < ?D then RoundDuration d ?D else d)"
  have D: "ts_GetDuration ?ts = ?D" using assms by (simp add: ts_GetDuration_def new_TimeSpan_def time_Sub_exact is_int64_def)
  have r: "d dvd r" "?D \<le> r" "r < ?D + d" using RoundDuration_multiple [of d ?D] assms by (auto simp: r_def)
  let ?rts = "RoundToDuration ?ts d"
  have n: "tsTimeStart ?ts = cdTimeStart cd" "tsTimeEnd ?ts = cdTimeEnd cd" by (simp_all add: new_TimeSpan_def)
  have e: "tsTimeStart ?rts = cdTimeStart cd" "tsTimeEnd ?rts = cdTimeStart cd + r"
    using r(2) n by (auto simp: RoundToDuration_def D r_def Let_def time_Add_def)
  obtain ts ri where z: "zero_span env b cd d = createIncrementsSlice (MaxIncrements (aeRating env)) ts"
    and t: "tsRateInterval ts = Some ri" "tsTimeStart ts = cdTimeStart cd" "tsTimeEnd ts = cdTimeStart cd + r"
    and p: "riRating ri \<noteq> None" "rrRates (the (riRating ri)) = [\<lparr>GroupIntervalStart = 0, rateValue = Fin 0, RateIncrement = d, RateUnit = d\<rparr>]"
    unfolding zero_span_def Let_def case_prod_beta using e(1,2) by simp
  let ?ts0 = "ts\<lparr>tsIncrements := []\<rparr>"
  have g: "0 \<le> GetGroupStart ?ts0" by (simp add: GetGroupStart_def Let_def)
  then have rp: "rate_params ri (GetGroupStart ?ts0) = (Fin 0, d, d)"
    using p assms(1) by (auto simp: GetRateParameters_def RateGroups_Sort_def sort_less_def set_defaults_def Let_def)
  have d: "ts_GetDuration ?ts0 = r" using t r assms by (simp add: ts_GetDuration_def time_Sub_exact is_int64_def)
  have "0 \<le> r div d" "r div d \<le> r" using assms(1,2) r(2) int_div_le_self [of r d] by (simp_all add: pos_imp_zdiv_nonneg_iff)
  then have q: "quot64 r d = r div d" using assms r by (simp add: quot64_def is_int64_def)
  define inc where "inc = \<lparr>icDuration = d, icCost = Round (fdiv (CalculateCost ?ts0) (float_of_int (r div d))) globalRoundingDecimals ROUNDING_MIDDLE,
    icBalanceInfo = Some \<lparr>diUnit = None, diMonetary = None, diAccountID = []\<rparr>, icCompressFactor = 0, icpaid = False\<rparr>"
  have "tsIncrements (zero_span env b cd d) = (if MaxIncrements (aeRating env) < r div d then [] else replicate (nat (r div d)) inc)"
    "tsTimeStart (zero_span env b cd d) = cdTimeStart cd" "tsTimeEnd (zero_span env b cd d) = cdTimeStart cd + r"
    using t by (simp_all add: z createIncrementsSlice_def Let_def rp d q inc_def)
  moreover have "unpaid_inc d inc" by (simp add: unpaid_inc_def inc_def)
  ultimately show thesis using that r by blast
qed

lemma debitUnits_zero:
  assumes "bal_IsActiveAt (wBal w ! p) (cdTimeStart cd) = Inr True" and "\<not> fleq (bValue (wBal w ! p)) (Fin 0)"
    and "ParseZeroRatingSubject (aeLib env) (cdToR cd) (bRatingSubject (wBal w ! p)) (aeBalanceRatingSubject env) = Inr d"
  shows "debitUnits env p acc cd ms c dry fee w = debit_zero env p acc cd c d w"
  using assms by (simp add: debitUnits_def usable_def act_simps)

subsection \<open>An account with a minute\<close>

definition udx_world :: world where
  "udx_world = dbx_world\<lparr>wBal := [new_Balance\<lparr>bUuid := ''b1'', bValue := Fin 60000000000\<rparr>], wAcc := [dbx_account [(''*voice'', [0])]]\<rparr>"

definition udx_cd :: CallDescriptor where
  "udx_cd = dbx_cd\<lparr>cdTimeEnd := 90000000000\<rparr>"

lemma udx_simps [simp]: "wBal udx_world = [new_Balance\<lparr>bUuid := ''b1'', bValue := Fin 60000000000\<rparr>]"
  "wAcc udx_world = [dbx_account [(''*voice'', [0])]]" "cdTimeStart udx_cd = 0" "cdTimeEnd udx_cd = 90000000000" "cdToR udx_cd = ''*voice''"
  "aID (dbx_account m) = ''t:a''"
  by (simp_all add: udx_world_def udx_cd_def dbx_cd_def new_CallDescriptor_def dbx_account_def VOICE_def)

lemma udx_ready:
  "bal_IsActiveAt (new_Balance\<lparr>bUuid := ''b1'', bValue := Fin 60000000000\<rparr>) 0 = Inr True"
  "ParseZeroRatingSubject (aeLib dbx_env) ''*voice'' (bRatingSubject (new_Balance\<lparr>bUuid := ''b1'', bValue := Fin 60000000000\<rparr>))
     (aeBalanceRatingSubject dbx_env) = Inr 1000000000"
  "MaxIncrements (aeRating dbx_env) = 1000" "seconds 60000000000" "seconds 1000000000" "covered 60000000000 1000000000 90 = 60"
  by code_simp+

lemma udx_idle: "idle dbx_env 0 udx_world"
  by (simp add: idle_def) (simp add: dbx_account_def IsExpiredAt_def IsZero_def new_Balance_def)

text \<open>Claim C10. A call of more increments than the configured maximum is free: when a balance of free units is used for a call of
  more than \<^verbatim>\<open>MaxIncrements\<close> increments, no increments are made, so \<^verbatim>\<open>debitUnits\<close> reports the whole call as covered and debits
  nothing, whatever the value of the balance is. (By default data is counted in bytes and the maximum is 1000000: more than a megabyte
  at a time costs nothing.)\<close>

theorem over_max_increments_free:
  assumes "bal_IsActiveAt (wBal w ! p) (cdTimeStart cd) = Inr True" and "\<not> fleq (bValue (wBal w ! p)) (Fin 0)"
    and "ParseZeroRatingSubject (aeLib env) (cdToR cd) (bRatingSubject (wBal w ! p)) (aeBalanceRatingSubject env) = Inr d"
    and "0 < d" and "cdTimeStart cd < cdTimeEnd cd" and "cdTimeEnd cd - cdTimeStart cd + d \<le> 2 ^ 53"
    and "MaxIncrements (aeRating env) < (cdTimeEnd cd - cdTimeStart cd) div d"
  shows "\<exists>cc ts. debitUnits env p acc cd ms c dry fee w = Some (Inr (Inr (Some cc), cd), w) \<and> ccTimespans cc = [ts] \<and>
    tsTimeStart ts = cdTimeStart cd \<and> cdTimeEnd cd \<le> tsTimeEnd ts \<and> tsIncrements ts = []"
proof -
  let ?ts = "zero_span env (wBal w ! p) cd d"
  obtain r inc where r: "cdTimeEnd cd - cdTimeStart cd \<le> r" "tsTimeStart ?ts = cdTimeStart cd" "tsTimeEnd ?ts = cdTimeStart cd + r"
    "tsIncrements ?ts = (if MaxIncrements (aeRating env) < r div d then [] else replicate (nat (r div d)) inc)"
    using zero_span_shape [OF assms(4-6)] by metis
  have "(cdTimeEnd cd - cdTimeStart cd) div d \<le> r div d" using r(1) assms(4) by (intro zdiv_mono1)
  with r(4) assms(7) have i: "tsIncrements ?ts = []" by simp
  have "debit_zero env p acc cd c d w = Some (Inr (Inr (Some ((CreateCallCost cd)\<lparr>ccTimespans := [span_value [] (?ts, [])]\<rparr>)), cd), w)"
    by (simp add: debit_zero_def Let_def act_simps i)
  with debitUnits_zero [OF assms(1-3)] r i show ?thesis by (simp add: span_value_def)
qed

theorem over_max_increments_free_witness:
  "\<exists>cc ts. debitUnits (dbx_env\<lparr>aeRating := (aeRating dbx_env)\<lparr>MaxIncrements := 10\<rparr>\<rparr>) 0 0 udx_cd [] True False False udx_world
      = Some (Inr (Inr (Some cc), udx_cd), udx_world)
    \<and> ccTimespans cc = [ts] \<and> 90000000000 \<le> tsTimeEnd ts"
  using over_max_increments_free [of udx_world 0 udx_cd "dbx_env\<lparr>aeRating := (aeRating dbx_env)\<lparr>MaxIncrements := 10\<rparr>\<rparr>" 1000000000 0 "[]" True False False]
    udx_ready by auto

lemma replicate_paid: "length xs = n \<Longrightarrow> \<forall>q < n. P (xs ! q) \<Longrightarrow> list_all P xs"
  by (auto simp: list_all_length)

lemma take_upt_nth: "k \<le> length xs \<Longrightarrow> map ((!) xs) [0..<k] = take k xs"
  by (rule nth_equalityI) auto

lemma sum_durations: "\<forall>x \<in> set xs. icDuration x = d \<Longrightarrow> sum_list (map icDuration xs) = int (length xs) * d"
  by (induction xs) (auto simp: algebra_simps)

text \<open>The part of a span that was paid.\<close>

lemma cut_span_paid:
  assumes "length incs = n" and "k < n" and "0 < k" and "\<forall>q < n. icDuration (incs ! q) = d"
  obtains ts1 where "cut_spans incs (ts, [0..<n]) k = [(ts1, take k [0..<n])]" "tsTimeStart ts1 = tsTimeStart ts"
    "tsTimeEnd ts1 = tsTimeStart ts + int k * d"
proof -
  let ?v = "span_value incs (ts, [0..<n])" and ?ts1 = "fst (SplitByIncrement [] (span_value incs (ts, [0..<n])) (int k))"
  have inc: "tsIncrements ?v = incs" using assms(1) map_nth [of incs] by (simp add: span_value_def)
  have "\<forall>x \<in> set (take k incs). icDuration x = d" using assms(1,4) by (auto simp: in_set_conv_nth)
  then have "sum_list (map icDuration (take k incs)) = int k * d" using sum_durations [of "take k incs" d] assms(1,2) by simp
  then have "GetTimeStartForIncrement ?v k = tsTimeStart ts + int k * d"
    by (simp add: GetTimeStartForIncrement_def inc foldl_time_Add) (simp add: span_value_def)
  then have "tsTimeStart ?ts1 = tsTimeStart ts" "tsTimeEnd ?ts1 = tsTimeStart ts + int k * d"
    using assms by (simp_all add: SplitByIncrement_def inc cut_span_def SetNewDurationIndex_def Let_def) (simp_all add: span_value_def)
  with assms(3) that [of ?ts1] show thesis by (simp add: cut_spans_def)
qed

text \<open>What a part of a call is when \<open>k\<close> increments of \<open>d\<close> were paid.\<close>

definition pays :: "CallDescriptor \<Rightarrow> string \<Rightarrow> string \<Rightarrow> duration \<Rightarrow> nat \<Rightarrow> CallCost option \<Rightarrow> bool" where
  "pays cd u accID d k part \<longleftrightarrow>
     (case part of
        None \<Rightarrow> k = 0
      | Some cc \<Rightarrow> 0 < k \<and> (case ccTimespans cc of
            [ts] \<Rightarrow> tsTimeStart ts = cdTimeStart cd \<and> tsTimeEnd ts = cdTimeStart cd + int k * d \<and>
              length (tsIncrements ts) = k \<and> list_all (paid_from u accID d) (tsIncrements ts)
          | _ \<Rightarrow> False))"

lemma part_pays:
  assumes "length incs = n" and "k \<le> n" and "0 < n" and "\<forall>q < k. paid_from u i d (incs ! q)" and "\<forall>q < n. icDuration (incs ! q) = d"
    and "tsTimeStart ts = cdTimeStart cd" and "tsTimeEnd ts = cdTimeStart cd + int n * d"
  shows "pays cd u i d k (case (if k = n then Whole else CutAt k) of CutAt j \<Rightarrow> (case cut_spans incs (ts, [0..<n]) j of [] \<Rightarrow> None
      | s # _ \<Rightarrow> Some (cc\<lparr>ccTimespans := [span_value incs s]\<rparr>)) | _ \<Rightarrow> Some (cc\<lparr>ccTimespans := [span_value incs (ts, [0..<n])]\<rparr>))"
proof -
  consider "k = n" | "k \<noteq> n" "k = 0" | "k < n" "0 < k" using assms(2) by linarith
  then show ?thesis
  proof cases
    case 1
    with assms map_nth [of incs] show ?thesis by (auto simp: pays_def span_value_def intro: replicate_paid)
  next
    case 2
    then show ?thesis by (simp add: pays_def cut_spans_def)
  next
    case 3
    obtain ts1 where "cut_spans incs (ts, [0..<n]) k = [(ts1, take k [0..<n])]" "tsTimeStart ts1 = tsTimeStart ts"
      "tsTimeEnd ts1 = tsTimeStart ts + int k * d"
      using cut_span_paid [OF assms(1) 3 assms(5)] by blast
    moreover have "list_all (paid_from u i d) (take k incs)"
      using assms(1,2,4) by (intro replicate_paid [of _ k]) auto
    ultimately show ?thesis using 3 assms(1,6) by (simp add: pays_def span_value_def take_upt_nth)
  qed
qed

lemma ceil_div:
  assumes "0 < d" and "(d::int) dvd r" and "D \<le> r" and "r < D + d"
  shows "(D + d - 1) div d = r div d"
proof -
  obtain q where q: "r = d * q" using assms(2) by (auto elim: dvdE)
  then have "D + d - 1 = d * q + (D + d - 1 - r)" by simp
  moreover have "(D + d - 1 - r) div d = 0" using assms by (intro div_pos_pos_trivial) simp_all
  ultimately show ?thesis using assms(1) q by (metis div_mult_self4 mult.commute add_0 nonzero_mult_div_cancel_left less_irrefl add.commute)
qed

lemma free_debit:
  assumes "p < length (wBal w)" and "acc < length (wAcc w)" and "c \<Longrightarrow> idle env acc w"
    and "bal_IsActiveAt (wBal w ! p) (cdTimeStart cd) = Inr True" and "bFactor (wBal w ! p) = None"
    and "bValue (wBal w ! p) = Fin (of_int v)" and "seconds v" and "0 < v"
    and "ParseZeroRatingSubject (aeLib env) (cdToR cd) (bRatingSubject (wBal w ! p)) (aeBalanceRatingSubject env) = Inr d"
    and "seconds d" and "0 < d" and "cdTimeStart cd < cdTimeEnd cd" and "cdTimeEnd cd - cdTimeStart cd \<le> 2 ^ 52"
    and "(cdTimeEnd cd - cdTimeStart cd + d - 1) div d \<le> MaxIncrements (aeRating env)"
  defines "k \<equiv> covered v d (nat ((cdTimeEnd cd - cdTimeStart cd + d - 1) div d))"
  shows "\<exists>part dd. debitUnits env p acc cd ms c dry fee w = Some (Inr (Inr part, cd), with_value p (v - int k * d) dd w)
    \<and> pays cd (bUuid (wBal w ! p)) (aID (wAcc w ! acc)) d k part \<and> 0 \<le> v - int k * d"
proof -
  let ?ts = "zero_span env (wBal w ! p) cd d" and ?cc = "CreateCallCost cd"
  have b: "cdTimeEnd cd - cdTimeStart cd + d \<le> 2 ^ 53" using assms(10,11,13) by (simp add: seconds_def)
  obtain r inc where r: "d dvd r" "cdTimeEnd cd - cdTimeStart cd \<le> r" "r < cdTimeEnd cd - cdTimeStart cd + d" "unpaid_inc d inc"
    "tsTimeStart ?ts = cdTimeStart cd" "tsTimeEnd ?ts = cdTimeStart cd + r"
    "tsIncrements ?ts = (if MaxIncrements (aeRating env) < r div d then [] else replicate (nat (r div d)) inc)"
    using zero_span_shape [OF assms(11,12) b] by metis
  define n where "n = nat (r div d)"
  have n: "(cdTimeEnd cd - cdTimeStart cd + d - 1) div d = r div d" using ceil_div [OF assms(11) r(1-3)] .
  have k: "k = covered v d n" by (simp add: k_def n n_def)
  have rn: "int n * d = r" using r(1,2) assms(11,12) by (simp add: n_def pos_imp_zdiv_nonneg_iff)
  have i: "tsIncrements ?ts = replicate n inc" using r(7) assms(14) n by (simp add: n_def)
  define dx where "dx = \<lparr>dxEnv = env, dxBal = p, dxAcc = acc, dxMoney = [], dxCount = c, dxDry = False, dxCC = ?cc, dxCD = cd\<rparr>"
  obtain incs dd where z: "zero_incs dx 0 [0..<n] (replicate n inc) w =
      Some (Inr (if k = n then Whole else CutAt k, incs), with_value p (v - int k * d) dd w)"
    "length incs = n" "\<forall>q < k. paid_from (bUuid (wBal w ! p)) (aID (wAcc w ! acc)) d (incs ! q)" "\<forall>q < n. icDuration (incs ! q) = d"
    using zero_incs_run [of dx w v d 0 n "replicate n inc", unfolded add_0, folded k] assms(1-8,10,11) r(4) by (auto simp: dx_def)
  have kn: "k \<le> n" by (simp add: k covered_def)
  have "0 \<le> v div d" using assms(8,11) by (simp add: pos_imp_zdiv_nonneg_iff)
  then have "int k \<le> v div d" by (auto simp: k covered_def min_def le_nat_iff)
  then have left: "0 \<le> v - int k * d" using assms(11) mult_right_mono [of "int k" "v div d" d] minus_mod_eq_div_mult [of v d]
      pos_mod_sign [of d v] by linarith
  let ?part = "case (if k = n then Whole else CutAt k) of CutAt j \<Rightarrow> (case cut_spans incs (?ts, [0..<n]) j of [] \<Rightarrow> None
      | s # _ \<Rightarrow> Some (?cc\<lparr>ccTimespans := [span_value incs s]\<rparr>)) | _ \<Rightarrow> Some (?cc\<lparr>ccTimespans := [span_value incs (?ts, [0..<n])]\<rparr>)"
  have run: "debitUnits env p acc cd ms c dry fee w = Some (Inr (Inr ?part, cd), with_value p (v - int k * d) dd w)"
    using debitUnits_zero [OF assms(4) _ assms(9)] assms(6,8) z(1)
    by (simp add: debit_zero_def Let_def act_simps i dx_def case_prod_beta del: upt.simps)
  have "0 < n" using rn assms(12) r(2) by (cases n) auto
  then have "pays cd (bUuid (wBal w ! p)) (aID (wAcc w ! acc)) d k ?part"
    using part_pays [OF z(2) kn _ z(3,4) r(5)] r(6) rn by simp
  with run left show ?thesis by blast
qed

text \<open>Claim C8. A balance of free units pays for as much of a call as it can, and never more. This holds for a balance without
  a factor whose value and whose increment are whole seconds, at most 200000, for a call of at most \<open>2 ^ 52\<close> nanoseconds that takes no
  more than \<^verbatim>\<open>MaxIncrements\<close> increments, and, when units are counted, for an account that is idle: without triggers and counters and
  with no expired balance to remove. Then of the increments that cover the call \<^verbatim>\<open>debitUnits\<close> debits as many as the value of the
  balance pays for, the balance is left with its value less the time of those, which is not negative, and the cost returned is one
  span over exactly that time whose increments all name the balance and the account. With nothing paid there is no cost. No other
  balance changes.\<close>

theorem free_units_debited:
  assumes "p < length (wBal w)" and "acc < length (wAcc w)" and "c \<Longrightarrow> idle env acc w"
    and "bal_IsActiveAt (wBal w ! p) (cdTimeStart cd) = Inr True" and "bFactor (wBal w ! p) = None"
    and "bValue (wBal w ! p) = Fin (of_int v)" and "seconds v" and "0 < v"
    and "ParseZeroRatingSubject (aeLib env) (cdToR cd) (bRatingSubject (wBal w ! p)) (aeBalanceRatingSubject env) = Inr d"
    and "seconds d" and "0 < d" and "cdTimeStart cd < cdTimeEnd cd" and "cdTimeEnd cd - cdTimeStart cd \<le> 2 ^ 52"
    and "(cdTimeEnd cd - cdTimeStart cd + d - 1) div d \<le> MaxIncrements (aeRating env)"
  defines "k \<equiv> covered v d (nat ((cdTimeEnd cd - cdTimeStart cd + d - 1) div d))"
  shows "\<exists>part dd. debitUnits env p acc cd ms c dry fee w = Some (Inr (Inr part, cd), with_value p (v - int k * d) dd w)
    \<and> pays cd (bUuid (wBal w ! p)) (aID (wAcc w ! acc)) d k part \<and> 0 \<le> v - int k * d"
  unfolding k_def using free_debit [OF assms(1-14)] .

theorem free_units_debited_witness:
  "\<exists>part dd. debitUnits dbx_env 0 0 udx_cd [] True False False udx_world = Some (Inr (Inr part, udx_cd), with_value 0 0 dd udx_world)
    \<and> pays udx_cd ''b1'' ''t:a'' 1000000000 60 part"
  using free_units_debited [of 0 udx_world 0 True dbx_env udx_cd 60000000000 1000000000 "[]" False False] udx_ready udx_idle
  by (simp add: new_Balance_def)

subsection \<open>Refunding\<close>

lemma GetBalance_with_value [simp]: "GetBalance (with_value p v d w) bc u = GetBalance w bc u"
proof -
  have "bUuid (wBal (with_value p v d w) ! q) = bUuid (wBal w ! q)" for q
    by (cases "p < length (wBal w)"; cases "q = p") (simp_all add: with_value_def upd_bal_def list_update_beyond not_less)
  then show ?thesis by (simp add: GetBalance_def)
qed

lemma chain_of_with_value [simp]: "chain_of acc k (with_value p v d w) = chain_of acc k w"
  by (simp add: chain_of_def)

lemma refund_incs_run:
  assumes "list_all (paid_from u accID d) incs" and "u \<noteq> []" and "map_of cache accID = Some acc"
    and "idle env acc w" and "acc < length (wAcc w)" and "p < length (wBal w)" and "GetBalance w (chain_of acc (cdToR cd) w) u = Some p"
    and "bValue (wBal w ! p) = Fin (of_int v)" and "seconds v" and "seconds d" and "0 \<le> v" and "0 < d" and "seconds (v + int (length incs) * d)"
  shows "\<exists>dd. refund_incs env cd cache incs w = Some (Inr (True, cache), with_value p (v + int (length incs) * d) dd w)"
  using assms
proof (induction incs arbitrary: v w)
  case Nil
  then show ?case using with_value_same [OF Nil(8)] by (intro exI [of _ "bdirty (wBal w ! p)"]) (simp add: act_simps)
next
  case (Cons inc incs)
  let ?w = "with_value p (v + d) True w"
  obtain di ui where i: "icDuration inc = d" "icBalanceInfo inc = Some di" "diMonetary di = None" "diAccountID di = accID" "diUnit di = Some ui" "uiUUID ui = u"
    using Cons.prems(1) by (auto simp: paid_from_def split: option.splits)
  have "v + int (length (inc # incs)) * d = v + d + int (length incs) * d" by (simp add: algebra_simps)
  moreover have "0 \<le> int (length incs) * d" using Cons.prems(12) by simp
  ultimately have sec: "seconds (v + d)" using Cons.prems(9-12) by (intro seconds_le [OF Cons.prems(13)]) (auto dest!: seconds_dvd)
  have "float_of_int d = Fin (of_int d)" using float_of_int_exact [OF seconds_f64 [OF Cons.prems(10)]] .
  then have "refund_one env cd acc inc di w = Some (Inr True, ?w)"
    using Cons.prems(2,4,5,7) add_world [OF Cons.prems(8) sec] i
    by (simp add: refund_one_def give_back_def act_simps idle_count)
  then have step: "refund_incs env cd cache (inc # incs) w = refund_incs env cd cache incs ?w"
    using Cons.prems(3) i by (simp add: act_simps refund_account_def)
  have e: "v + d + int (length incs) * d = v + int (length (inc # incs)) * d" by (simp add: algebra_simps)
  have "\<exists>dd. refund_incs env cd cache incs ?w = Some (Inr (True, cache), with_value p (v + d + int (length incs) * d) dd ?w)"
    using Cons.prems(1-12) Cons.prems(13) [folded e] sec by (intro Cons.IH) simp_all
  then show ?case unfolding step e by simp
qed

text \<open>Claim C9. What was debited is given back: after a debit of free units that returned a cost, refunding the increments of
  the cost to the account restores the value of the balance, also when the balance covered the call only in part. The conditions are
  those of the debit: a balance without a factor, found by its uuid among those of the type of the call, value and increment whole
  seconds (at most 200000), a call of at most \<open>2 ^ 52\<close> nanoseconds and \<^verbatim>\<open>MaxIncrements\<close> increments, and an idle account (no
  triggers, no counters, no expired balance to remove). With a factor or a \<^verbatim>\<open>*generic\<close> balance the refund is not the debit.\<close>

theorem debit_refund_roundtrip:
  assumes "p < length (wBal w)" and "acc < length (wAcc w)" and "idle env acc w"
    and "bal_IsActiveAt (wBal w ! p) (cdTimeStart cd) = Inr True" and "bFactor (wBal w ! p) = None"
    and "bValue (wBal w ! p) = Fin (of_int v)" and "seconds v" and "0 < v"
    and "ParseZeroRatingSubject (aeLib env) (cdToR cd) (bRatingSubject (wBal w ! p)) (aeBalanceRatingSubject env) = Inr d"
    and "seconds d" and "0 < d" and "cdTimeStart cd < cdTimeEnd cd" and "cdTimeEnd cd - cdTimeStart cd \<le> 2 ^ 52"
    and "(cdTimeEnd cd - cdTimeStart cd + d - 1) div d \<le> MaxIncrements (aeRating env)"
    and "bUuid (wBal w ! p) \<noteq> []" and "GetBalance w (chain_of acc (cdToR cd) w) (bUuid (wBal w ! p)) = Some p"
    and "debitUnits env p acc cd ms c dry fee w = Some (Inr (Inr (Some cc), cd), w1)"
  shows "\<exists>ts w2. ccTimespans cc = [ts]
    \<and> refund_incs env cd [(aID (wAcc w ! acc), acc)] (tsIncrements ts) w1 = Some (Inr (True, [(aID (wAcc w ! acc), acc)]), w2)
    \<and> bValue (wBal w1 ! p) \<noteq> bValue (wBal w ! p) \<and> bValue (wBal w2 ! p) = bValue (wBal w ! p)"
proof -
  let ?u = "bUuid (wBal w ! p)" and ?i = "aID (wAcc w ! acc)"
  obtain k dd where d: "w1 = with_value p (v - int k * d) dd w" "pays cd ?u ?i d k (Some cc)" "0 \<le> v - int k * d"
    using free_debit [where c = c and ms = ms and dry = dry and fee = fee, OF assms(1-14)] assms(17) by auto
  then obtain ts where ts: "ccTimespans cc = [ts]" "0 < k" "length (tsIncrements ts) = k" "list_all (paid_from ?u ?i d) (tsIncrements ts)"
    by (auto simp: pays_def split: list.splits)
  have sec: "seconds (v - int k * d)" using d(3) assms(7,10,11) by (intro seconds_diff) simp_all
  have e: "v - int k * d + int k * d = v" by simp
  have "\<exists>dd'. refund_incs env cd [(?i, acc)] (tsIncrements ts) w1 = Some (Inr (True, [(?i, acc)]), with_value p (v - int k * d + int k * d) dd' w1)"
    unfolding ts(3) [symmetric] using assms(1-3,7,10,11,15,16) ts d(1,3) sec by (intro refund_incs_run) (auto simp: ts(3))
  then obtain dd' where "refund_incs env cd [(?i, acc)] (tsIncrements ts) w1 = Some (Inr (True, [(?i, acc)]), with_value p v dd' w1)"
    unfolding e by blast
  moreover have "bValue (wBal w1 ! p) \<noteq> bValue (wBal w ! p)" using assms(1,6,11) ts(2) d(1) by simp
  moreover have "bValue (wBal (with_value p v dd' w1) ! p) = bValue (wBal w ! p)" using assms(1,6) d(1) by simp
  ultimately show ?thesis using ts(1) by blast
qed

theorem debit_refund_roundtrip_witness:
  "\<exists>cc ts w1 w2. debitUnits dbx_env 0 0 udx_cd [] True False False udx_world = Some (Inr (Inr (Some cc), udx_cd), w1) \<and> ccTimespans cc = [ts]
    \<and> refund_incs dbx_env udx_cd [(''t:a'', 0)] (tsIncrements ts) w1 = Some (Inr (True, [(''t:a'', 0)]), w2)
    \<and> bValue (wBal w2 ! 0) = Fin 60000000000"
proof -
  obtain part dd where d: "debitUnits dbx_env 0 0 udx_cd [] True False False udx_world = Some (Inr (Inr part, udx_cd), with_value 0 0 dd udx_world)"
    and part: "pays udx_cd ''b1'' ''t:a'' 1000000000 60 part"
    using free_debit [of 0 udx_world 0 True dbx_env udx_cd 60000000000 1000000000 "[]" False False] udx_ready udx_idle
    by (simp add: new_Balance_def) blast
  from part obtain cc where cc: "part = Some cc" by (auto simp: pays_def split: option.splits)
  have "GetBalance udx_world (chain_of 0 ''*voice'' udx_world) ''b1'' = Some 0"
    by (simp add: chain_of_def dbx_account_def GetBalance_def)
  with debit_refund_roundtrip [OF _ _ udx_idle _ _ _ _ _ _ _ _ _ _ _ _ _ d [unfolded cc], of 60000000000 1000000000] udx_ready d cc
  show ?thesis by (simp add: new_Balance_def)
qed

end
