(* ===== verification/Event_Cost.thy ===== *)
theory Event_Cost
  imports Debit
begin

text \<open>
  Package \<^verbatim>\<open>engine\<close>: the cost of an event as it is stored and sent (\<^verbatim>\<open>eventcost.go\<close>, \<^verbatim>\<open>libeventcost.go\<close>). The charges of an
  event cost are pointers to intervals, which hold pointers to increments; cutting and merging event costs moves some of
  these pointers and writes through them, so intervals and increments are objects of a heap (\<open>ec_heap\<close>), a pointer being a
  position. The tables of an event cost (rating units, balance charges, filters, rates, timings) are Go maps that are never
  nil, as \<^verbatim>\<open>NewBareEventCost\<close> makes them. New table ids (\<^verbatim>\<open>UUIDSha1Prefix\<close>) are the values of a parameter
  \<open>gen\<close> at the successive numbers kept in the heap. A panic is an \<open>Inl\<close>; the errors \<^verbatim>\<open>Trim\<close> returns are values of its result,
  since it leaves the event cost changed. The summary of the account travels beside the \<open>CallCost\<close>, as in \<open>Debit\<close>.
\<close>

subsection \<open>libeventcost.go: increments and intervals\<close>

record ChargingIncrement =
  ciUsage :: duration
  ciCost :: float64
  ciAccountingID :: string
  ciCompressFactor :: int

record ChargingInterval =
  ilRatingID :: string
  ilIncrements :: "nat list"
  ilCompressFactor :: int
  ilusage :: "duration option"
  ilecUsageIdx :: "duration option"
  ilcost :: "float64 option"

record ec_heap =
  hpIl :: "ChargingInterval list"
  hpIt :: "ChargingIncrement list"
  hpUuid :: nat

definition upd_il :: "nat \<Rightarrow> (ChargingInterval \<Rightarrow> ChargingInterval) \<Rightarrow> ec_heap \<Rightarrow> ec_heap" where
  "upd_il a f h = h\<lparr>hpIl := (hpIl h)[a := f (hpIl h ! a)]\<rparr>"

definition upd_it :: "nat \<Rightarrow> (ChargingIncrement \<Rightarrow> ChargingIncrement) \<Rightarrow> ec_heap \<Rightarrow> ec_heap" where
  "upd_it i f h = h\<lparr>hpIt := (hpIt h)[i := f (hpIt h ! i)]\<rparr>"

definition cIt_Equals :: "ChargingIncrement \<Rightarrow> ChargingIncrement \<Rightarrow> bool" where
  "cIt_Equals c o' \<longleftrightarrow> ciUsage c = ciUsage o' \<and> feq (ciCost c) (ciCost o') \<and> ciAccountingID c = ciAccountingID o' \<and>
     ciCompressFactor c = ciCompressFactor o'"

definition cIt_PartiallyEquals :: "ChargingIncrement \<Rightarrow> ChargingIncrement \<Rightarrow> bool" where
  "cIt_PartiallyEquals c o' \<longleftrightarrow> ciUsage c = ciUsage o' \<and> feq (ciCost c) (ciCost o') \<and> ciAccountingID c = ciAccountingID o'"

definition cIt_Clone :: "nat \<Rightarrow> ec_heap \<Rightarrow> nat \<times> ec_heap" where
  "cIt_Clone i h = (length (hpIt h), h\<lparr>hpIt := hpIt h @ [hpIt h ! i]\<rparr>)"

definition cIt_TotalUsage :: "ChargingIncrement \<Rightarrow> duration" where
  "cIt_TotalUsage c = wrap64 (ciUsage c * ciCompressFactor c)"

definition cIt_TotalCost :: "ChargingIncrement \<Rightarrow> float64" where
  "cIt_TotalCost c = fmul (ciCost c) (float_of_int (ciCompressFactor c))"

definition cIt_FieldAsInterface :: "ChargingIncrement \<Rightarrow> string list \<Rightarrow> error + iface" where
  "cIt_FieldAsInterface c fldPath =
     (case fldPath of
        [f] \<Rightarrow>
          if f = ''Usage'' then Inr (IDuration (ciUsage c))
          else if f = ''Cost'' then Inr (IFloat64 (ciCost c))
          else if f = ''AccountingID'' then Inr (IString (ciAccountingID c))
          else if f = ''CompressFactor'' then Inr (IInt KInt (ciCompressFactor c))
          else Inl (ErrMsg (''unsupported field prefix: <'' @ f @ ''>''))
      | _ \<Rightarrow> Inl ErrNotFound)"

definition cIl_PartiallyEquals :: "ec_heap \<Rightarrow> nat \<Rightarrow> nat \<Rightarrow> bool" where
  "cIl_PartiallyEquals h a b \<longleftrightarrow> ilRatingID (hpIl h ! a) = ilRatingID (hpIl h ! b) \<and>
     list_all2 (\<lambda>i j. cIt_Equals (hpIt h ! i) (hpIt h ! j)) (ilIncrements (hpIl h ! a)) (ilIncrements (hpIl h ! b))"

definition cIl_Usage :: "nat \<Rightarrow> ec_heap \<Rightarrow> duration \<times> ec_heap" where
  "cIl_Usage a h =
     (case ilusage (hpIl h ! a) of
        Some u \<Rightarrow> (u, h)
      | None \<Rightarrow>
          let u = fold (\<lambda>i t. wrap64 (t + cIt_TotalUsage (hpIt h ! i))) (ilIncrements (hpIl h ! a)) 0
          in (u, upd_il a (\<lambda>c. c\<lparr>ilusage := Some u\<rparr>) h))"

definition cIl_TotalUsage :: "nat \<Rightarrow> ec_heap \<Rightarrow> duration \<times> ec_heap" where
  "cIl_TotalUsage a h = (let (u, h1) = cIl_Usage a h in (wrap64 (u * ilCompressFactor (hpIl h1 ! a)), h1))"

definition cIl_StartTime :: "ChargingInterval \<Rightarrow> gotime \<Rightarrow> gotime" where
  "cIl_StartTime c ecST = (case ilecUsageIdx c of None \<Rightarrow> 0 | Some x \<Rightarrow> time_Add ecST x)"

definition cIl_EndTime :: "nat \<Rightarrow> gotime \<Rightarrow> ec_heap \<Rightarrow> gotime \<times> ec_heap" where
  "cIl_EndTime a cIlST h = (let (u, h1) = cIl_TotalUsage a h in (time_Add cIlST u, h1))"

definition cIl_Cost :: "nat \<Rightarrow> ec_heap \<Rightarrow> float64 \<times> ec_heap" where
  "cIl_Cost a h =
     (case ilcost (hpIl h ! a) of
        Some c \<Rightarrow> (c, h)
      | None \<Rightarrow>
          let c = Round (fold (\<lambda>i t. fadd t (fmul (ciCost (hpIt h ! i)) (float_of_int (ciCompressFactor (hpIt h ! i)))))
                     (ilIncrements (hpIl h ! a)) (Fin 0)) globalRoundingDecimals ROUNDING_MIDDLE
          in (c, upd_il a (\<lambda>x. x\<lparr>ilcost := Some c\<rparr>) h))"

definition cIl_TotalCost :: "nat \<Rightarrow> ec_heap \<Rightarrow> float64 \<times> ec_heap" where
  "cIl_TotalCost a h =
     (let (c, h1) = cIl_Cost a h
      in (Round (fmul c (float_of_int (ilCompressFactor (hpIl h1 ! a)))) globalRoundingDecimals ROUNDING_MIDDLE, h1))"

text \<open>A clone has increments of its own and no cached values.\<close>

definition cIl_Clone :: "nat \<Rightarrow> ec_heap \<Rightarrow> nat \<times> ec_heap" where
  "cIl_Clone a h =
     (let c = hpIl h ! a; n = length (hpIt h)
      in (length (hpIl h),
          h\<lparr>hpIt := hpIt h @ map (\<lambda>i. hpIt h ! i) (ilIncrements c),
            hpIl := hpIl h @ [\<lparr>ilRatingID = ilRatingID c, ilIncrements = [n ..< n + length (ilIncrements c)],
              ilCompressFactor = ilCompressFactor c, ilusage = None, ilecUsageIdx = None, ilcost = None\<rparr>]\<rparr>))"

subsection \<open>libeventcost.go: the tables\<close>

record BalanceCharge =
  bcAccountID :: string
  bcBalanceUUID :: string
  bcRatingID :: string
  bcUnits :: float64
  bcExtraChargeID :: string

definition META_NONE :: string where
  "META_NONE = ''*none''"

definition bc_FieldAsInterface :: "BalanceCharge \<Rightarrow> string list \<Rightarrow> error + iface" where
  "bc_FieldAsInterface bc fldPath =
     (case fldPath of
        [f] \<Rightarrow>
          if f = ''AccountID'' then Inr (IString (bcAccountID bc))
          else if f = ''BalanceUUID'' then Inr (IString (bcBalanceUUID bc))
          else if f = ''RatingID'' then Inr (IString (bcRatingID bc))
          else if f = ''Units'' then Inr (IFloat64 (bcUnits bc))
          else if f = ''ExtraChargeID'' then Inr (IString (bcExtraChargeID bc))
          else Inl (ErrMsg (''unsupported field prefix: <'' @ f @ ''>''))
      | _ \<Rightarrow> Inl ErrNotFound)"

definition bc_Equals :: "BalanceCharge \<Rightarrow> BalanceCharge \<Rightarrow> bool" where
  "bc_Equals bc oBC \<longleftrightarrow>
     (let x = (if bcExtraChargeID bc = [] then META_NONE else bcExtraChargeID bc);
          y = (if bcExtraChargeID oBC = [] then META_NONE else bcExtraChargeID oBC)
      in bcAccountID bc = bcAccountID oBC \<and> bcBalanceUUID bc = bcBalanceUUID oBC \<and> bcRatingID bc = bcRatingID oBC \<and>
         feq (bcUnits bc) (bcUnits oBC) \<and> x = y)"

type_synonym RatingMatchedFilters = "(string, iface) gmap"

text \<open>Go's comparison of interface values: equal dynamic types and equal values; \<open>NaN\<close> differs from itself.\<close>

fun iface_same :: "iface \<Rightarrow> iface \<Rightarrow> bool" where
  "iface_same (IFloat32 a) (IFloat32 b) = feq a b"
| "iface_same (IFloat64 a) (IFloat64 b) = feq a b"
| "iface_same a b = (a = b)"

definition rf_get :: "RatingMatchedFilters \<Rightarrow> string \<Rightarrow> iface" where
  "rf_get rf k = (case gget rf k of None \<Rightarrow> INil | Some v \<Rightarrow> v)"

definition rf_Equals :: "RatingMatchedFilters \<Rightarrow> RatingMatchedFilters \<Rightarrow> bool" where
  "rf_Equals rf oRF \<longleftrightarrow> list_all (\<lambda>(k, v). iface_same (rf_get rf k) (rf_get oRF k)) rf"

definition rf_FieldAsInterface :: "RatingMatchedFilters \<Rightarrow> string list \<Rightarrow> error + iface" where
  "rf_FieldAsInterface rf fldPath =
     (case fldPath of [f] \<Rightarrow> if rf_get rf f = INil then Inl ErrNotFound else Inr (rf_get rf f) | _ \<Rightarrow> Inl ErrNotFound)"

record ChargedTiming =
  ctYears :: Years
  ctMonths :: Months
  ctMonthDays :: MonthDays
  ctWeekDays :: WeekDays
  ctStartTime :: string

definition ct_Equals :: "ChargedTiming \<Rightarrow> ChargedTiming \<Rightarrow> bool" where
  "ct_Equals ct oCT \<longleftrightarrow> Years_Equals (ctYears ct) (ctYears oCT) \<and> Months_Equals (ctMonths ct) (ctMonths oCT) \<and>
     MonthDays_Equals (ctMonthDays ct) (ctMonthDays oCT) \<and> WeekDays_Equals (ctWeekDays ct) (ctWeekDays oCT) \<and>
     ctStartTime ct = ctStartTime oCT"

record RatingUnit =
  ruConnectFee :: float64
  ruRoundingMethod :: string
  ruRoundingDecimals :: int
  ruMaxCost :: float64
  ruMaxCostStrategy :: string
  ruTimingID :: string
  ruRatesID :: string
  ruRatingFiltersID :: string

definition ru_Equals :: "RatingUnit \<Rightarrow> RatingUnit \<Rightarrow> bool" where
  "ru_Equals ru oRU \<longleftrightarrow> feq (ruConnectFee ru) (ruConnectFee oRU) \<and> ruRoundingMethod ru = ruRoundingMethod oRU \<and>
     ruRoundingDecimals ru = ruRoundingDecimals oRU \<and> feq (ruMaxCost ru) (ruMaxCost oRU) \<and>
     ruMaxCostStrategy ru = ruMaxCostStrategy oRU \<and> ruTimingID ru = ruTimingID oRU \<and> ruRatesID ru = ruRatesID oRU \<and>
     ruRatingFiltersID ru = ruRatingFiltersID oRU"

definition ru_FieldAsInterface :: "RatingUnit \<Rightarrow> string list \<Rightarrow> error + iface" where
  "ru_FieldAsInterface ru fldPath =
     (case fldPath of
        [f] \<Rightarrow>
          if f = ''ConnectFee'' then Inr (IFloat64 (ruConnectFee ru))
          else if f = ''RoundingMethod'' then Inr (IString (ruRoundingMethod ru))
          else if f = ''RoundingDecimals'' then Inr (IInt KInt (ruRoundingDecimals ru))
          else if f = ''MaxCost'' then Inr (IFloat64 (ruMaxCost ru))
          else if f = ''MaxCostStrategy'' then Inr (IString (ruMaxCostStrategy ru))
          else if f = ''TimingID'' then Inr (IString (ruTimingID ru))
          else if f = ''RatesID'' then Inr (IString (ruRatesID ru))
          else if f = ''RatingFiltersID'' then Inr (IString (ruRatingFiltersID ru))
          else Inl (ErrMsg (''unsupported field prefix: <'' @ f @ ''>''))
      | _ \<Rightarrow> Inl ErrNotFound)"

text \<open>The id of an equal entry of a table, or a new entry: the loop the five \<^verbatim>\<open>GetIDWithSet\<close> methods share.\<close>

definition id_with_set :: "('v \<Rightarrow> 'v \<Rightarrow> bool) \<Rightarrow> (nat \<Rightarrow> string) \<Rightarrow> (string, 'v) gmap \<Rightarrow> 'v \<Rightarrow> nat \<Rightarrow> string \<times> (string, 'v) gmap \<times> nat" where
  "id_with_set eq gen m v n =
     (case find (\<lambda>(k, w). eq w v) m of
        Some (k, _) \<Rightarrow> (k, m, n)
      | None \<Rightarrow> (gen n, gset m (gen n) v, Suc n))"

definition RatingFilters_GetIDWithSet ::
  "(nat \<Rightarrow> string) \<Rightarrow> (string, RatingMatchedFilters) gmap \<Rightarrow> RatingMatchedFilters \<Rightarrow> nat \<Rightarrow> string \<times> (string, RatingMatchedFilters) gmap \<times> nat" where
  "RatingFilters_GetIDWithSet gen rfs rmf n = (if rmf = [] then ([], rfs, n) else id_with_set rf_Equals gen rfs rmf n)"

definition Rating_GetIDWithSet ::
  "(nat \<Rightarrow> string) \<Rightarrow> (string, RatingUnit) gmap \<Rightarrow> RatingUnit \<Rightarrow> nat \<Rightarrow> string \<times> (string, RatingUnit) gmap \<times> nat" where
  "Rating_GetIDWithSet gen crus cru n = id_with_set ru_Equals gen crus cru n"

definition ChargedRates_GetIDWithSet ::
  "(nat \<Rightarrow> string) \<Rightarrow> (string, Rate list) gmap \<Rightarrow> Rate list \<Rightarrow> nat \<Rightarrow> string \<times> (string, Rate list) gmap \<times> nat" where
  "ChargedRates_GetIDWithSet gen crs rg n = (if rg = [] then ([], crs, n) else id_with_set RateGroups_Equal gen crs rg n)"

definition ChargedTimings_GetIDWithSet ::
  "(nat \<Rightarrow> string) \<Rightarrow> (string, ChargedTiming) gmap \<Rightarrow> ChargedTiming option \<Rightarrow> nat \<Rightarrow> string \<times> (string, ChargedTiming) gmap \<times> nat" where
  "ChargedTimings_GetIDWithSet gen cts ct n = (case ct of None \<Rightarrow> ([], cts, n) | Some t \<Rightarrow> id_with_set ct_Equals gen cts t n)"

definition Accounting_GetIDWithSet ::
  "(nat \<Rightarrow> string) \<Rightarrow> (string, BalanceCharge) gmap \<Rightarrow> BalanceCharge \<Rightarrow> nat \<Rightarrow> string \<times> (string, BalanceCharge) gmap \<times> nat" where
  "Accounting_GetIDWithSet gen cbs cb n = id_with_set bc_Equals gen cbs cb n"

subsection \<open>eventcost.go: the event cost and its counters\<close>

record EventCost =
  ecCGRID :: string
  ecRunID :: string
  ecStartTime :: gotime
  ecUsage :: "duration option"
  ecCost :: "float64 option"
  ecCharges :: "nat list"
  ecAccountSummary :: "AccountSummary option"
  ecRating :: "(string, RatingUnit) gmap"
  ecAccounting :: "(string, BalanceCharge) gmap"
  ecRatingFilters :: "(string, RatingMatchedFilters) gmap"
  ecRates :: "(string, Rate list) gmap"
  ecTimings :: "(string, ChargedTiming) gmap"

definition NewBareEventCost :: EventCost where
  "NewBareEventCost = \<lparr>ecCGRID = [], ecRunID = [], ecStartTime = 0, ecUsage = None, ecCost = None, ecCharges = [],
     ecAccountSummary = None, ecRating = [], ecAccounting = [], ecRatingFilters = [], ecRates = [], ecTimings = []\<rparr>"

primrec sum_usage :: "nat list \<Rightarrow> duration \<Rightarrow> ec_heap \<Rightarrow> duration \<times> ec_heap" where
  "sum_usage [] t h = (t, h)"
| "sum_usage (a # as) t h = (let (u, h1) = cIl_TotalUsage a h in sum_usage as (wrap64 (t + u)) h1)"

definition GetUsage :: "EventCost \<Rightarrow> ec_heap \<Rightarrow> duration \<times> EventCost \<times> ec_heap" where
  "GetUsage ec h =
     (case ecUsage ec of
        Some u \<Rightarrow> (u, ec, h)
      | None \<Rightarrow> let (u, h1) = sum_usage (ecCharges ec) 0 h in (u, ec\<lparr>ecUsage := Some u\<rparr>, h1))"

primrec sum_cost :: "nat list \<Rightarrow> float64 \<Rightarrow> ec_heap \<Rightarrow> float64 \<times> ec_heap" where
  "sum_cost [] t h = (t, h)"
| "sum_cost (a # as) t h = (let (c, h1) = cIl_TotalCost a h in sum_cost as (fadd t c) h1)"

definition GetCost_ec :: "EventCost \<Rightarrow> ec_heap \<Rightarrow> float64 \<times> EventCost \<times> ec_heap" where
  "GetCost_ec ec h =
     (case ecCost ec of
        Some c \<Rightarrow> (c, ec, h)
      | None \<Rightarrow>
          let (t, h1) = sum_cost (ecCharges ec) (Fin 0) h; c = Round t globalRoundingDecimals ROUNDING_MIDDLE
          in (c, ec\<lparr>ecCost := Some c\<rparr>, h1))"

primrec usage_indexes :: "nat list \<Rightarrow> duration \<Rightarrow> ec_heap \<Rightarrow> ec_heap" where
  "usage_indexes [] t h = h"
| "usage_indexes (a # as) t h =
     (let h1 = (if ilecUsageIdx (hpIl h ! a) = None then upd_il a (\<lambda>c. c\<lparr>ilecUsageIdx := Some t\<rparr>) h else h);
          (u, h2) = cIl_TotalUsage a h1
      in usage_indexes as (wrap64 (t + u)) h2)"

definition ComputeEventCostUsageIndexes :: "EventCost \<Rightarrow> ec_heap \<Rightarrow> ec_heap" where
  "ComputeEventCostUsageIndexes ec h = usage_indexes (ecCharges ec) 0 h"

definition Compute :: "EventCost \<Rightarrow> ec_heap \<Rightarrow> EventCost \<times> ec_heap" where
  "Compute ec h =
     (let (_, ec1, h1) = GetUsage ec h; (_, ec2, h2) = GetCost_ec ec1 (ComputeEventCostUsageIndexes ec1 h1) in (ec2, h2))"

definition reset_il :: "nat \<Rightarrow> ec_heap \<Rightarrow> ec_heap" where
  "reset_il a = upd_il a (\<lambda>c. c\<lparr>ilcost := None, ilusage := None, ilecUsageIdx := None\<rparr>)"

definition ResetCounters :: "EventCost \<Rightarrow> ec_heap \<Rightarrow> EventCost \<times> ec_heap" where
  "ResetCounters ec h = (ec\<lparr>ecCost := None, ecUsage := None\<rparr>, fold reset_il (ecCharges ec) h)"

text \<open>A clone shares nothing with the original: its intervals are clones, its tables are copies.\<close>

primrec clone_ils :: "nat list \<Rightarrow> ec_heap \<Rightarrow> nat list \<times> ec_heap" where
  "clone_ils [] h = ([], h)"
| "clone_ils (a # as) h = (let (b, h1) = cIl_Clone a h; (bs, h2) = clone_ils as h1 in (b # bs, h2))"

definition EventCost_Clone :: "EventCost \<Rightarrow> ec_heap \<Rightarrow> EventCost \<times> ec_heap" where
  "EventCost_Clone ec h = (let (cs, h1) = clone_ils (ecCharges ec) h in (ec\<lparr>ecCharges := cs\<rparr>, h1))"

subsection \<open>eventcost.go: from a CallCost\<close>

definition ratingIDForRateInterval ::
  "(nat \<Rightarrow> string) \<Rightarrow> EventCost \<Rightarrow> RateInterval option \<Rightarrow> RatingMatchedFilters \<Rightarrow> nat \<Rightarrow> string \<times> EventCost \<times> nat" where
  "ratingIDForRateInterval gen ec ri rf n =
     (case ri of
        None \<Rightarrow> ([], ec, n)
      | Some iv \<Rightarrow>
          (case riRating iv of
             None \<Rightarrow> ([], ec, n)
           | Some r \<Rightarrow>
               let (rfUUID, rfs, n1) = RatingFilters_GetIDWithSet gen (ecRatingFilters ec) rf n;
                   (tmID, tms, n2) = ChargedTimings_GetIDWithSet gen (ecTimings ec)
                     (map_option (\<lambda>t. \<lparr>ctYears = rtYears t, ctMonths = rtMonths t, ctMonthDays = rtMonthDays t,
                        ctWeekDays = rtWeekDays t, ctStartTime = rtStartTime t\<rparr>) (riTiming iv)) n1;
                   (rtUUID, rts, n3) = (if rrRates r \<noteq> [] then ChargedRates_GetIDWithSet gen (ecRates ec) (rrRates r) n2
                                        else ([], ecRates ec, n2));
                   (rid, rus, n4) = Rating_GetIDWithSet gen (ecRating ec)
                     \<lparr>ruConnectFee = rrConnectFee r, ruRoundingMethod = rrRoundingMethod r,
                      ruRoundingDecimals = rrRoundingDecimals r, ruMaxCost = rrMaxCost r,
                      ruMaxCostStrategy = rrMaxCostStrategy r, ruTimingID = tmID, ruRatesID = rtUUID,
                      ruRatingFiltersID = rfUUID\<rparr> n3
               in (rid, ec\<lparr>ecRatingFilters := rfs, ecTimings := tms, ecRates := rts, ecRating := rus\<rparr>, n4)))"

definition MetaRounding :: string where
  "MetaRounding = ''*rounding''"

text \<open>The rating id of a charge: \<^verbatim>\<open>*rounding\<close> for a rounding increment.\<close>

definition charge_rating ::
  "(nat \<Rightarrow> string) \<Rightarrow> EventCost \<Rightarrow> RateInterval option \<Rightarrow> RatingMatchedFilters \<Rightarrow> bool \<Rightarrow> nat \<Rightarrow> string \<times> EventCost \<times> nat" where
  "charge_rating gen ec ri rf roundedIncrement n =
     (if roundedIncrement then (MetaRounding, ec, n) else ratingIDForRateInterval gen ec ri rf n)"

definition charge_id ::
  "(nat \<Rightarrow> string) \<Rightarrow> EventCost \<Rightarrow> BalanceCharge \<Rightarrow> nat \<Rightarrow> string \<times> EventCost \<times> nat" where
  "charge_id gen ec bc n = (let (k, m, n1) = Accounting_GetIDWithSet gen (ecAccounting ec) bc n in (k, ec\<lparr>ecAccounting := m\<rparr>, n1))"

definition newChargingIncrement ::
  "(nat \<Rightarrow> string) \<Rightarrow> EventCost \<Rightarrow> Increment \<Rightarrow> RatingMatchedFilters \<Rightarrow> bool \<Rightarrow> nat \<Rightarrow> ChargingIncrement \<times> EventCost \<times> nat" where
  "newChargingIncrement gen ec incr rf roundedIncrement n =
     (let c = \<lparr>ciUsage = icDuration incr, ciCost = icCost incr, ciAccountingID = [], ciCompressFactor = icCompressFactor incr\<rparr>
      in case icBalanceInfo incr of
           None \<Rightarrow> (c, ec, n)
         | Some b \<Rightarrow>
             (case (diUnit b, diMonetary b) of
                (Some u, mon) \<Rightarrow>
                  let (ecUUID, ec1, n1) =
                        (case mon of
                           None \<Rightarrow> (META_NONE, ec, n)
                         | Some m \<Rightarrow>
                             let (rateID, e1, k1) = charge_rating gen ec (miRateInterval m) rf roundedIncrement n;
                                 (uuid, e2, k2) = charge_id gen e1 \<lparr>bcAccountID = diAccountID b, bcBalanceUUID = miUUID m,
                                   bcRatingID = rateID, bcUnits = icCost incr, bcExtraChargeID = []\<rparr> k1
                             in (if uuid \<noteq> [] then uuid else META_NONE, e2, k2));
                      (rateID, ec2, n2) = charge_rating gen ec1 (uiRateInterval u) rf roundedIncrement n1;
                      (acID, ec3, n3) = charge_id gen ec2 \<lparr>bcAccountID = diAccountID b, bcBalanceUUID = uiUUID u,
                        bcRatingID = rateID, bcUnits = uiConsumed u, bcExtraChargeID = ecUUID\<rparr> n2
                  in (c\<lparr>ciAccountingID := acID\<rparr>, ec3, n3)
              | (None, Some m) \<Rightarrow>
                  let (rateID, ec1, n1) = charge_rating gen ec (miRateInterval m) rf roundedIncrement n;
                      (acID, ec2, n2) = charge_id gen ec1 \<lparr>bcAccountID = diAccountID b, bcBalanceUUID = miUUID m,
                        bcRatingID = rateID, bcUnits = icCost incr, bcExtraChargeID = []\<rparr> n1
                  in (c\<lparr>ciAccountingID := acID\<rparr>, ec2, n2)
              | (None, None) \<Rightarrow> (c, ec, n)))"

primrec new_increments ::
  "(nat \<Rightarrow> string) \<Rightarrow> RatingMatchedFilters \<Rightarrow> Increment list \<Rightarrow> EventCost \<Rightarrow> nat \<Rightarrow> ChargingIncrement list \<times> EventCost \<times> nat" where
  "new_increments gen rf [] ec n = ([], ec, n)"
| "new_increments gen rf (i # is) ec n =
     (let (c, ec1, n1) = newChargingIncrement gen ec i rf False n; (cs, ec2, n2) = new_increments gen rf is ec1 n1
      in (c # cs, ec2, n2))"

definition span_filters :: "TimeSpan \<Rightarrow> RatingMatchedFilters" where
  "span_filters ts = [(''Subject'', IString (tsMatchedSubject ts)), (''DestinationPrefix'', IString (tsMatchedPrefix ts)),
     (''DestinationID'', IString (tsMatchedDestId ts)), (''RatingPlanID'', IString (tsRatingPlanId ts))]"

text \<open>The interval of one time span, and the charges of all of them.\<close>

definition new_interval :: "(nat \<Rightarrow> string) \<Rightarrow> TimeSpan \<Rightarrow> EventCost \<Rightarrow> ec_heap \<Rightarrow> EventCost \<times> ec_heap" where
  "new_interval gen ts ec h =
     (let rf = span_filters ts;
          (rid, ec1, n1) = ratingIDForRateInterval gen ec (tsRateInterval ts) rf (hpUuid h);
          (cs, ec2, n2) = new_increments gen rf (tsIncrements ts) ec1 n1;
          (ds, ec3, n3) = (case tsRoundIncrement ts of
             None \<Rightarrow> ([], ec2, n2)
           | Some r \<Rightarrow> let (c, e, k) = newChargingIncrement gen ec2 r rf True n2 in ([c\<lparr>ciCost := fneg (ciCost c)\<rparr>], e, k));
          m = length (hpIt h)
      in (ec3\<lparr>ecCharges := ecCharges ec3 @ [length (hpIl h)]\<rparr>,
          h\<lparr>hpIt := hpIt h @ cs @ ds,
            hpIl := hpIl h @ [\<lparr>ilRatingID = rid, ilIncrements = [m ..< m + length (cs @ ds)],
              ilCompressFactor = tsCompressFactor ts, ilusage = None, ilecUsageIdx = None, ilcost = None\<rparr>], hpUuid := n3\<rparr>))"

primrec new_intervals :: "(nat \<Rightarrow> string) \<Rightarrow> TimeSpan list \<Rightarrow> EventCost \<Rightarrow> ec_heap \<Rightarrow> EventCost \<times> ec_heap" where
  "new_intervals gen [] ec h = (ec, h)"
| "new_intervals gen (ts # tss) ec h = (let (ec1, h1) = new_interval gen ts ec h in new_intervals gen tss ec1 h1)"

definition NewEventCostFromCallCost ::
  "(nat \<Rightarrow> string) \<Rightarrow> CallCost \<Rightarrow> AccountSummary option \<Rightarrow> string \<Rightarrow> string \<Rightarrow> ec_heap \<Rightarrow> EventCost \<times> ec_heap" where
  "NewEventCostFromCallCost gen cc summary cgrID runID h =
     new_intervals gen (ccTimespans cc)
       (NewBareEventCost\<lparr>ecCGRID := cgrID, ecRunID := runID, ecAccountSummary := summary,
          ecStartTime := (case ccTimespans cc of [] \<Rightarrow> 0 | ts # _ \<Rightarrow> tsTimeStart ts)\<rparr>) h"

subsection \<open>eventcost.go: to a refund and to a CallCost\<close>

definition rateIntervalForRatingID :: "EventCost \<Rightarrow> string \<Rightarrow> error + RateInterval option" where
  "rateIntervalForRatingID ec ratingID =
     (if ratingID = [] then Inr None
      else case gget (ecRating ec) ratingID of
             None \<Rightarrow> Inl nil_deref
           | Some ru \<Rightarrow>
               let rates = (if ruRatesID ru = [] then [] else case gget (ecRates ec) (ruRatesID ru) of None \<Rightarrow> [] | Some r \<Rightarrow> r);
                   r = \<lparr>rrConnectFee = ruConnectFee ru, rrRoundingMethod = ruRoundingMethod ru,
                        rrRoundingDecimals = ruRoundingDecimals ru, rrMaxCost = ruMaxCost ru,
                        rrMaxCostStrategy = ruMaxCostStrategy ru, rrRates = rates, rrtag = []\<rparr>
               in if ruTimingID ru = [] then Inr (Some \<lparr>riTiming = None, riRating = Some r, riWeight = Fin 0\<rparr>)
                  else case gget (ecTimings ec) (ruTimingID ru) of
                         None \<Rightarrow> Inl nil_deref
                       | Some t \<Rightarrow> Inr (Some \<lparr>riTiming = Some \<lparr>rtYears = ctYears t, rtMonths = ctMonths t,
                           rtMonthDays = ctMonthDays t, rtWeekDays = ctWeekDays t, rtStartTime = ctStartTime t,
                           rtEndTime = [], rtcronString = [], rttag = []\<rparr>, riRating = Some r, riWeight = Fin 0\<rparr>))"

definition new_UnitInfo :: UnitInfo where
  "new_UnitInfo = \<lparr>uiUUID = [], uiID = [], uiValue = Fin 0, uiDestinationID = [], uiConsumed = Fin 0, uiToR = [],
     uiRateInterval = None\<rparr>"

definition new_MonetaryInfo :: MonetaryInfo where
  "new_MonetaryInfo = \<lparr>miUUID = [], miID = [], miValue = Fin 0, miRateInterval = None\<rparr>"

definition NonMonetaryBalances :: "string list" where
  "NonMonetaryBalances = [VOICE, ''*sms'', ''*data'', GENERIC]"

text \<open>Where the refund of a charge goes: the balance with the id, as the summary of the account lists it.\<close>

definition refund_to :: "EventCost \<Rightarrow> string \<Rightarrow> (string \<Rightarrow> string) \<Rightarrow> DebitInfo \<Rightarrow> error + DebitInfo \<times> string" where
  "refund_to ec uuid unit_type b =
     (case ecAccountSummary ec of
        None \<Rightarrow> Inl nil_deref
      | Some as \<Rightarrow>
          (case BalanceSummaryWithUUD (asBalanceSummaries as) uuid of
             None \<Rightarrow> Inl nil_deref
           | Some s \<Rightarrow> Inr
               (if bsType s = MONETARY then b\<lparr>diMonetary := Some (new_MonetaryInfo\<lparr>miUUID := bsUUID s\<rparr>)\<rparr>
                else if unit_type (bsType s) \<in> set NonMonetaryBalances then b\<lparr>diUnit := Some (new_UnitInfo\<lparr>uiUUID := bsUUID s\<rparr>)\<rparr>
                else b, bsType s)))"

definition refund_increment :: "EventCost \<Rightarrow> ChargingIncrement \<Rightarrow> error + Increment" where
  "refund_increment ec c =
     (let i = \<lparr>icDuration = ciUsage c, icCost = ciCost c, icBalanceInfo = None, icCompressFactor = ciCompressFactor c, icpaid = False\<rparr>
      in if ciAccountingID c = [] then Inr i
         else case gget (ecAccounting ec) (ciAccountingID c) of
                None \<Rightarrow> Inl nil_deref
              | Some bc \<Rightarrow>
                  ebind (refund_to ec (bcBalanceUUID bc) (\<lambda>t. t) \<lparr>diUnit = None, diMonetary = None, diAccountID = bcAccountID bc\<rparr>) (\<lambda>(b, typ).
                    if bcExtraChargeID bc = META_NONE \<or> bcExtraChargeID bc = [] then Inr (i\<lparr>icBalanceInfo := Some b\<rparr>)
                    else case gget (ecAccounting ec) (bcExtraChargeID bc) of
                           None \<Rightarrow> Inl nil_deref
                         | Some x \<Rightarrow> ebind (refund_to ec (bcBalanceUUID x) (\<lambda>_. typ) b) (\<lambda>(b', _). Inr (i\<lparr>icBalanceInfo := Some b'\<rparr>))))"

primrec refund_all :: "EventCost \<Rightarrow> ChargingIncrement list \<Rightarrow> error + Increment list" where
  "refund_all ec [] = Inr []"
| "refund_all ec (c # cs) = ebind (refund_increment ec c) (\<lambda>i. ebind (refund_all ec cs) (\<lambda>is. Inr (i # is)))"

text \<open>
  The slice is made with the number of increments the compress factors announce, so a negative one panics, and so does a
  negative factor that makes it too short for the increments of the other intervals.
\<close>

definition AsRefundIncrements :: "EventCost \<Rightarrow> string \<Rightarrow> ec_heap \<Rightarrow> error + (CallDescriptor \<times> EventCost \<times> ec_heap)" where
  "AsRefundIncrements ec tor h =
     (let (u, ec1, h1) = GetUsage ec h;
          cd = new_CallDescriptor\<lparr>cdCgrID := ecCGRID ec, cdRunID := ecRunID ec, cdToR := tor, cdTimeStart := ecStartTime ec,
            cdTimeEnd := time_Add (ecStartTime ec) u, cdDurationIndex := u\<rparr>;
          ils = map (\<lambda>a. hpIl h1 ! a) (ecCharges ec1);
          nrIcrms = sum_list (map (\<lambda>c. ilCompressFactor c * int (length (ilIncrements c))) ils);
          cs = concat (map (\<lambda>c. concat (replicate (nat (ilCompressFactor c)) (map (\<lambda>i. hpIt h1 ! i) (ilIncrements c)))) ils)
      in if ecCharges ec1 = [] then Inr (cd, ec1, h1)
         else if nrIcrms < 0 then Inl (Panic ''makeslice: len out of range'')
         else ebind (refund_all ec1 (take (nat nrIcrms) cs)) (\<lambda>is.
                if nrIcrms < int (length cs) then Inl (Panic ''index out of range'')
                else Inr (cd\<lparr>cdIncrements := is\<rparr>, ec1, h1)))"

text \<open>The charge that is marked as one of units stays marked in the table.\<close>

definition newIntervalFromCharge :: "EventCost \<Rightarrow> ChargingIncrement \<Rightarrow> error + (Increment \<times> EventCost)" where
  "newIntervalFromCharge ec c =
     (let i = \<lparr>icDuration = ciUsage c, icCost = ciCost c, icBalanceInfo = None, icCompressFactor = ciCompressFactor c, icpaid = False\<rparr>;
          b0 = \<lparr>diUnit = None, diMonetary = None, diAccountID = []\<rparr>
      in if ciAccountingID c = [] then Inr (i\<lparr>icBalanceInfo := Some b0\<rparr>, ec)
         else case gget (ecAccounting ec) (ciAccountingID c) of
                None \<Rightarrow> Inl nil_deref
              | Some bc \<Rightarrow>
                  let balanceType = (if bcBalanceUUID bc = [] then []
                        else case ecAccountSummary ec of
                               None \<Rightarrow> []
                             | Some as \<Rightarrow> (case BalanceSummaryWithUUD (asBalanceSummaries as) (bcBalanceUUID bc) of
                                             None \<Rightarrow> [] | Some s \<Rightarrow> bsType s));
                      mark = SliceHasMember [''*data'', VOICE] balanceType \<and> bcExtraChargeID bc = [];
                      bc1 = (if mark then bc\<lparr>bcExtraChargeID := META_NONE\<rparr> else bc);
                      ec1 = (if mark then ec\<lparr>ecAccounting := gset (ecAccounting ec) (ciAccountingID c) bc1\<rparr> else ec);
                      b1 = b0\<lparr>diAccountID := bcAccountID bc\<rparr>
                  in ebind (if bcExtraChargeID bc1 = [] then Inr (b1, bc1)
                            else ebind (rateIntervalForRatingID ec1 (bcRatingID bc1)) (\<lambda>ri.
                                   let b2 = b1\<lparr>diUnit := Some (new_UnitInfo\<lparr>uiUUID := bcBalanceUUID bc1, uiConsumed := bcUnits bc1,
                                              uiRateInterval := ri\<rparr>)\<rparr>
                                   in if bcExtraChargeID bc1 = META_NONE then Inr (b2, bc1)
                                      else case gget (ecAccounting ec1) (bcExtraChargeID bc1) of
                                             None \<Rightarrow> Inl nil_deref
                                           | Some x \<Rightarrow> Inr (b2, x))) (\<lambda>(b2, x).
                       if bcExtraChargeID x = META_NONE then Inr (i\<lparr>icBalanceInfo := Some b2\<rparr>, ec1)
                       else ebind (rateIntervalForRatingID ec1 (bcRatingID x)) (\<lambda>ri.
                              Inr (i\<lparr>icBalanceInfo := Some (b2\<lparr>diMonetary := Some (new_MonetaryInfo\<lparr>miUUID := bcBalanceUUID x,
                                       miRateInterval := ri\<rparr>)\<rparr>)\<rparr>, ec1))))"

primrec increments_from_charges :: "ChargingIncrement list \<Rightarrow> EventCost \<Rightarrow> error + (Increment list \<times> EventCost)" where
  "increments_from_charges [] ec = Inr ([], ec)"
| "increments_from_charges (c # cs) ec =
     ebind (newIntervalFromCharge ec c) (\<lambda>(i, ec1). ebind (increments_from_charges cs ec1) (\<lambda>(is, ec2). Inr (i # is, ec2)))"

fun as_string :: "iface \<Rightarrow> error + string" where
  "as_string (IString s) = Inr s"
| "as_string _ = Inl (Panic ''interface conversion'')"

definition span_with_filters :: "EventCost \<Rightarrow> string \<Rightarrow> TimeSpan \<Rightarrow> error + TimeSpan" where
  "span_with_filters ec ratingID ts =
     (if ratingID = [] then Inr ts
      else case gget (ecRating ec) ratingID of
             None \<Rightarrow> Inl nil_deref
           | Some ru \<Rightarrow>
               if ruRatingFiltersID ru = [] then Inr ts
               else let rfs = (case gget (ecRatingFilters ec) (ruRatingFiltersID ru) of None \<Rightarrow> [] | Some m \<Rightarrow> m)
                    in ebind (as_string (rf_get rfs ''Subject'')) (\<lambda>s.
                       ebind (as_string (rf_get rfs ''DestinationPrefix'')) (\<lambda>p.
                       ebind (as_string (rf_get rfs ''DestinationID'')) (\<lambda>d.
                       ebind (as_string (rf_get rfs ''RatingPlanID'')) (\<lambda>r.
                         Inr (ts\<lparr>tsMatchedSubject := s, tsMatchedPrefix := p, tsMatchedDestId := d, tsRatingPlanId := r\<rparr>))))))"

text \<open>The rounding increment is taken at the index \<^verbatim>\<open>l-1\<close> after \<^verbatim>\<open>l\<close> was decremented.\<close>

definition span_increments :: "EventCost \<Rightarrow> ChargingIncrement list \<Rightarrow> TimeSpan \<Rightarrow> error + (TimeSpan \<times> EventCost)" where
  "span_increments ec cs ts =
     (if cs = [] then Inr (ts, ec)
      else case gget (ecAccounting ec) (ciAccountingID (cs ! (length cs - 1))) of
             None \<Rightarrow> Inl nil_deref
           | Some bc \<Rightarrow>
               if bcRatingID bc = MetaRounding then
                 let l = length cs - 1
                 in if l = 0 then Inl (Panic ''index out of range'')
                    else ebind (newIntervalFromCharge ec (cs ! (l - 1))) (\<lambda>(r, ec1).
                           ebind (increments_from_charges (take l cs) ec1) (\<lambda>(is, ec2).
                             Inr (ts\<lparr>tsRoundIncrement := Some (r\<lparr>icCost := fneg (icCost r)\<rparr>), tsIncrements := is\<rparr>, ec2)))
               else ebind (increments_from_charges cs ec) (\<lambda>(is, ec1). Inr (ts\<lparr>tsIncrements := is\<rparr>, ec1)))"

definition span_of_interval :: "nat \<Rightarrow> EventCost \<Rightarrow> ec_heap \<Rightarrow> error + (TimeSpan \<times> EventCost \<times> ec_heap)" where
  "span_of_interval a ec h =
     (let (c, h1) = cIl_Cost a h;
          (u, h2) = cIl_Usage a h1;
          h3 = (if ilecUsageIdx (hpIl h2 ! a) = None then ComputeEventCostUsageIndexes ec h2 else h2)
      in case ilecUsageIdx (hpIl h3 ! a) of
           None \<Rightarrow> Inl nil_deref
         | Some idx \<Rightarrow>
             let start = time_Add (ecStartTime ec) idx;
                 (tu, h4) = cIl_TotalUsage a h3;
                 il = hpIl h4 ! a;
                 ts = (new_TimeSpan start (time_Add start tu))\<lparr>tsCost := c, tsDurationIndex := u, tsCompressFactor := ilCompressFactor il\<rparr>
             in ebind (span_with_filters ec (ilRatingID il) ts) (\<lambda>ts1.
                ebind (rateIntervalForRatingID ec (ilRatingID il)) (\<lambda>ri.
                ebind (span_increments ec (map (\<lambda>i. hpIt h4 ! i) (ilIncrements il)) (ts1\<lparr>tsRateInterval := ri\<rparr>)) (\<lambda>(ts2, ec1).
                  Inr (ts2, ec1, h4)))))"

primrec spans_of_intervals :: "nat list \<Rightarrow> EventCost \<Rightarrow> ec_heap \<Rightarrow> error + (TimeSpan list \<times> EventCost \<times> ec_heap)" where
  "spans_of_intervals [] ec h = Inr ([], ec, h)"
| "spans_of_intervals (a # as) ec h =
     ebind (span_of_interval a ec h) (\<lambda>(ts, ec1, h1).
       ebind (spans_of_intervals as ec1 h1) (\<lambda>(tss, ec2, h2). Inr (ts # tss, ec2, h2)))"

definition AsCallCost :: "EventCost \<Rightarrow> string \<Rightarrow> ec_heap \<Rightarrow> error + (CallCost \<times> AccountSummary option \<times> EventCost \<times> ec_heap)" where
  "AsCallCost ec tor h =
     (let (c, ec1, h1) = GetCost_ec ec h;
          (u, ec2, h2) = GetUsage ec1 h1
      in ebind (spans_of_intervals (ecCharges ec2) ec2 h2) (\<lambda>(tss, ec3, h3).
           Inr (new_CallCost\<lparr>ccToR := FirstNonEmpty [tor, VOICE], ccCost := c, ccRatedUsage := float_of_int u, ccTimespans := tss\<rparr>,
                ecAccountSummary ec, ec3, h3)))"

subsection \<open>eventcost.go: entries from another event cost\<close>

definition ratingGetIDFomEventCost ::
  "(nat \<Rightarrow> string) \<Rightarrow> EventCost \<Rightarrow> EventCost \<Rightarrow> string \<Rightarrow> nat \<Rightarrow> error + (string \<times> EventCost \<times> nat)" where
  "ratingGetIDFomEventCost gen ec oEC oRatingID n =
     (if oRatingID = [] then Inr ([], ec, n)
      else case gget (ecRating oEC) oRatingID of
             None \<Rightarrow> Inl nil_deref
           | Some ru \<Rightarrow>
               let (tmID, tms, n1) = ChargedTimings_GetIDWithSet gen (ecTimings ec) (gget (ecTimings oEC) (ruTimingID ru)) n;
                   (rfID, rfs, n2) = RatingFilters_GetIDWithSet gen (ecRatingFilters ec)
                     (case gget (ecRatingFilters oEC) (ruRatingFiltersID ru) of None \<Rightarrow> [] | Some m \<Rightarrow> m) n1;
                   (rtID, rts, n3) = ChargedRates_GetIDWithSet gen (ecRates ec)
                     (case gget (ecRates oEC) (ruRatesID ru) of None \<Rightarrow> [] | Some r \<Rightarrow> r) n2;
                   (rid, rus, n4) = Rating_GetIDWithSet gen (ecRating ec)
                     (ru\<lparr>ruTimingID := tmID, ruRatingFiltersID := rfID, ruRatesID := rtID\<rparr>) n3
               in Inr (rid, ec\<lparr>ecTimings := tms, ecRatingFilters := rfs, ecRates := rts, ecRating := rus\<rparr>, n4))"

text \<open>
  The chain of extra charges need not end. Where it visits more ids than the table has, it is in a cycle, and the
  recursion grows the stack until the program is stopped.
\<close>

primrec accounting_id ::
  "nat \<Rightarrow> (nat \<Rightarrow> string) \<Rightarrow> EventCost \<Rightarrow> EventCost \<Rightarrow> string \<Rightarrow> nat \<Rightarrow> error + (string \<times> EventCost \<times> nat)" where
  "accounting_id 0 gen oEC ec oAccountingID n = Inl (Panic ''stack overflow'')"
| "accounting_id (Suc k) gen oEC ec oAccountingID n =
     (if oAccountingID = [] \<or> oAccountingID = META_NONE then Inr ([], ec, n)
      else case gget (ecAccounting oEC) oAccountingID of
             None \<Rightarrow> Inl nil_deref
           | Some bc \<Rightarrow>
               ebind (ratingGetIDFomEventCost gen ec oEC (bcRatingID bc) n) (\<lambda>(rid, ec1, n1).
               ebind (accounting_id k gen oEC ec1 (bcExtraChargeID bc) n1) (\<lambda>(xid, ec2, n2).
                 Inr (charge_id gen ec2 (bc\<lparr>bcRatingID := rid, bcExtraChargeID := xid\<rparr>) n2))))"

definition accountingGetIDFromEventCost ::
  "(nat \<Rightarrow> string) \<Rightarrow> EventCost \<Rightarrow> EventCost \<Rightarrow> string \<Rightarrow> nat \<Rightarrow> error + (string \<times> EventCost \<times> nat)" where
  "accountingGetIDFromEventCost gen ec oEC oAccountingID n =
     accounting_id (Suc (length (ecAccounting oEC))) gen oEC ec oAccountingID n"

subsection \<open>eventcost.go: Merge\<close>

text \<open>
  One pass over the increments of the interval that is appended. \<open>f\<close> holds the position and the compress factor at which
  the first increment was not absorbed by the last increment of the charges.
\<close>

type_synonym absorb_state = "EventCost \<times> (nat \<times> int) option \<times> ec_heap"

primrec absorb_increments ::
  "(nat \<Rightarrow> string) \<Rightarrow> EventCost \<Rightarrow> bool \<Rightarrow> nat \<Rightarrow> int \<Rightarrow> (nat \<times> nat) list \<Rightarrow> nat \<Rightarrow> absorb_state \<Rightarrow> error + absorb_state" where
  "absorb_increments gen oEC app lastCIt cF [] i st = Inr st"
| "absorb_increments gen oEC app lastCIt cF (p # ps) i st =
     (case st of (ec, f, h) \<Rightarrow>
        ebind (accountingGetIDFromEventCost gen ec oEC (ciAccountingID (hpIt h ! fst p)) (hpUuid h)) (\<lambda>(acID, ec1, n).
          let h1 = upd_it (snd p) (\<lambda>c. c\<lparr>ciAccountingID := acID\<rparr>) (h\<lparr>hpUuid := n\<rparr>);
              (f', h2) =
                (if f \<noteq> None then (f, h1)
                 else if \<not> app \<or> \<not> cIt_PartiallyEquals (hpIt h1 ! lastCIt) (hpIt h1 ! snd p) then (Some (i, cF), h1)
                 else (None, upd_it lastCIt (\<lambda>c. c\<lparr>ciCompressFactor := wrap64 (ciCompressFactor c + ciCompressFactor (hpIt h1 ! fst p))\<rparr>) h1))
          in absorb_increments gen oEC app lastCIt cF ps (Suc i) (ec1, f', h2)))"

primrec absorb_passes ::
  "(nat \<Rightarrow> string) \<Rightarrow> EventCost \<Rightarrow> bool \<Rightarrow> nat \<Rightarrow> (nat \<times> nat) list \<Rightarrow> nat \<Rightarrow> absorb_state \<Rightarrow> error + absorb_state" where
  "absorb_passes gen oEC app lastCIt ps 0 st = Inr st"
| "absorb_passes gen oEC app lastCIt ps (Suc k) st =
     ebind (absorb_increments gen oEC app lastCIt (int (Suc k)) ps 0 st) (absorb_passes gen oEC app lastCIt ps k)"

definition appendCIlFromEC :: "(nat \<Rightarrow> string) \<Rightarrow> EventCost \<Rightarrow> EventCost \<Rightarrow> nat \<Rightarrow> ec_heap \<Rightarrow> error + (EventCost \<times> ec_heap)" where
  "appendCIlFromEC gen ec oEC cIl h =
     (let (cln, h0) = cIl_Clone cIl h
      in ebind (ratingGetIDFomEventCost gen ec oEC (ilRatingID (hpIl h0 ! cIl)) (hpUuid h0)) (\<lambda>(rid, ec1, n).
        let h1 = upd_il cln (\<lambda>c. c\<lparr>ilRatingID := rid\<rparr>) (h0\<lparr>hpUuid := n\<rparr>)
        in if ecCharges ec1 = [] then Inl (Panic ''index out of range'')
           else let la = List.last (ecCharges ec1); las = ilIncrements (hpIl h1 ! la)
                in if las = [] then Inl (Panic ''index out of range'')
                   else let app = ilCompressFactor (hpIl h1 ! la) = 1 \<and> ilRatingID (hpIl h1 ! la) = rid;
                            ps = zip (ilIncrements (hpIl h1 ! cIl)) (ilIncrements (hpIl h1 ! cln))
                        in ebind (absorb_passes gen oEC app (List.last las) ps (nat (ilCompressFactor (hpIl h1 ! cIl))) (ec1, None, h1))
                             (\<lambda>(ec2, f, h2).
                               if cIl_PartiallyEquals h2 la cln then
                                 Inr (ec2, upd_il la (\<lambda>c. c\<lparr>ilCompressFactor := wrap64 (ilCompressFactor c + ilCompressFactor (hpIl h2 ! cln))\<rparr>) h2)
                               else
                                 (case f of
                                    None \<Rightarrow> Inr (ec2, h2)
                                  | Some (i, cF) \<Rightarrow>
                                      let h3 = upd_il cIl (\<lambda>c. c\<lparr>ilRatingID := rid, ilCompressFactor := 1,
                                                 ilIncrements := drop i (ilIncrements (hpIl h2 ! cln))\<rparr>) h2
                                      in if 1 < cF then
                                           Inr (ec2\<lparr>ecCharges := ecCharges ec2 @ [cIl, cln]\<rparr>, upd_il cln (\<lambda>c. c\<lparr>ilCompressFactor := cF - 1\<rparr>) h3)
                                         else Inr (ec2\<lparr>ecCharges := ecCharges ec2 @ [cIl]\<rparr>, h3)))))"

definition appendChargingIntervalFromEventCost ::
  "(nat \<Rightarrow> string) \<Rightarrow> EventCost \<Rightarrow> EventCost \<Rightarrow> nat \<Rightarrow> ec_heap \<Rightarrow> error + (EventCost \<times> ec_heap)" where
  "appendChargingIntervalFromEventCost gen ec oEC cIl h =
     (if ecCharges ec \<noteq> [] \<and> cIl_PartiallyEquals h (List.last (ecCharges ec)) cIl
      then Inr (ec, upd_il (List.last (ecCharges ec)) (\<lambda>c. c\<lparr>ilCompressFactor := wrap64 (ilCompressFactor c + 1)\<rparr>) h)
      else appendCIlFromEC gen ec oEC cIl h)"

primrec append_intervals ::
  "(nat \<Rightarrow> string) \<Rightarrow> EventCost \<Rightarrow> nat list \<Rightarrow> EventCost \<Rightarrow> ec_heap \<Rightarrow> error + (EventCost \<times> ec_heap)" where
  "append_intervals gen oEC [] ec h = Inr (ec, h)"
| "append_intervals gen oEC (a # as) ec h =
     ebind (appendChargingIntervalFromEventCost gen ec oEC a h) (\<lambda>(ec1, h1). append_intervals gen oEC as ec1 h1)"

primrec merge_all :: "(nat \<Rightarrow> string) \<Rightarrow> EventCost list \<Rightarrow> EventCost \<Rightarrow> ec_heap \<Rightarrow> error + (EventCost \<times> ec_heap)" where
  "merge_all gen [] ec h = Inr (ec, h)"
| "merge_all gen (o' # os) ec h =
     ebind (append_intervals gen o' (ecCharges o') (ec\<lparr>ecAccountSummary := ecAccountSummary o'\<rparr>) h) (\<lambda>(ec1, h1). merge_all gen os ec1 h1)"

definition EventCost_Merge :: "(nat \<Rightarrow> string) \<Rightarrow> EventCost \<Rightarrow> EventCost list \<Rightarrow> ec_heap \<Rightarrow> error + (EventCost \<times> ec_heap)" where
  "EventCost_Merge gen ec ecs h = ebind (merge_all gen ecs ec h) (\<lambda>(ec1, h1). Inr (ResetCounters ec1 h1))"

subsection \<open>eventcost.go: RemoveStaleReferences\<close>

primrec stale_accounting :: "bool \<Rightarrow> string list \<Rightarrow> string list \<Rightarrow> (string, BalanceCharge) gmap \<Rightarrow> (string, BalanceCharge) gmap" where
  "stale_accounting charged used [] m = m"
| "stale_accounting charged used (k # ks) m =
     stale_accounting charged used ks
       (if k \<in> set used \<or> charged \<and> list_ex (\<lambda>(_, bc). bcExtraChargeID bc = k) m then m else gdel m k)"

text \<open>The last loop looks for unused timings and deletes the id from the rates.\<close>

definition RemoveStaleReferences :: "EventCost \<Rightarrow> ec_heap \<Rightarrow> EventCost" where
  "RemoveStaleReferences ec h =
     (let ils = map (\<lambda>a. hpIl h ! a) (ecCharges ec);
          rating = filter (\<lambda>(k, _). list_ex (\<lambda>c. ilRatingID c = k) ils \<or> list_ex (\<lambda>(_, bc). bcRatingID bc = k) (ecAccounting ec)) (ecRating ec);
          used = concat (map (\<lambda>c. map (\<lambda>i. ciAccountingID (hpIt h ! i)) (ilIncrements c)) ils);
          accounting = stale_accounting (ecCharges ec \<noteq> []) used (map fst (ecAccounting ec)) (ecAccounting ec);
          rfs = filter (\<lambda>(k, _). list_ex (\<lambda>(_, ru). ruRatingFiltersID ru = k) rating) (ecRatingFilters ec);
          rates = filter (\<lambda>(k, _). list_ex (\<lambda>(_, ru). ruRatesID ru = k) rating) (ecRates ec);
          rates' = fold (\<lambda>(k, _) m. if list_ex (\<lambda>(_, ru). ruTimingID ru = k) rating then m else gdel m k) (ecTimings ec) rates
      in ec\<lparr>ecRating := rating, ecAccounting := accounting, ecRatingFilters := rfs, ecRates := rates'\<rparr>)"

subsection \<open>eventcost.go: Trim\<close>

text \<open>The position of the first interval that reaches the usage.\<close>

primrec last_active :: "duration \<Rightarrow> nat list \<Rightarrow> nat \<Rightarrow> EventCost \<Rightarrow> ec_heap \<Rightarrow> error + (nat option \<times> EventCost \<times> ec_heap)" where
  "last_active atUsage [] i ec h = Inr (None, ec, h)"
| "last_active atUsage (a # as) i ec h =
     (let h1 = (if ilecUsageIdx (hpIl h ! a) = None then ComputeEventCostUsageIndexes ec h else h);
          (ec1, h2) = (if ilusage (hpIl h1 ! a) = None then snd (GetUsage ec h1) else (ec, h1));
          (tu, h3) = cIl_TotalUsage a h2
      in case ilecUsageIdx (hpIl h3 ! a) of
           None \<Rightarrow> Inl nil_deref
         | Some idx \<Rightarrow> if atUsage \<le> wrap64 (idx + tu) then Inr (Some i, ec1, h3) else last_active atUsage as (Suc i) ec1 h3)"

text \<open>The first count from 1 to the compress factor for which a condition holds, 0 for none.\<close>

definition first_count :: "int \<Rightarrow> (int \<Rightarrow> bool) \<Rightarrow> int" where
  "first_count cf P = (case find (\<lambda>c. P (int c)) [1..<Suc (nat cf)] of None \<Rightarrow> 0 | Some c \<Rightarrow> int c)"

text \<open>The split of the last interval by its compress factor: the intervals of the surplus, or an error.\<close>

definition split_interval :: "nat \<Rightarrow> duration \<Rightarrow> duration \<Rightarrow> nat list \<Rightarrow> ec_heap \<Rightarrow> error + ((error + nat list) \<times> ec_heap)" where
  "split_interval a idx atUsage srplus h =
     (let cf = ilCompressFactor (hpIl h ! a)
      in if cf = 1 then Inr (Inr srplus, h)
         else let (tu, h1) = cIl_TotalUsage a h
              in if wrap64 (idx + tu) \<le> atUsage then Inr (Inr srplus, h1)
                 else case ilusage (hpIl h1 ! a) of
                        None \<Rightarrow> Inl nil_deref
                      | Some u \<Rightarrow>
                          let laCF = first_count cf (\<lambda>c. atUsage \<le> wrap64 (idx + wrap64 (u * c)))
                          in if laCF = 0 then Inr (Inl (ErrMsg ''cannot detect last active CompressFactor in ChargingInterval''), h1)
                             else if laCF = cf then Inr (Inr srplus, h1)
                             else let (b, h2) = cIl_Clone a h1
                                  in Inr (Inr (b # srplus),
                                       upd_il a (\<lambda>c. c\<lparr>ilCompressFactor := laCF\<rparr>) (upd_il b (\<lambda>c. c\<lparr>ilCompressFactor := cf - laCF\<rparr>) h2)))"

text \<open>The position of the first increment that reaches the usage, with the usage up to it.\<close>

primrec last_increment :: "ec_heap \<Rightarrow> duration \<Rightarrow> nat list \<Rightarrow> nat \<Rightarrow> duration \<Rightarrow> (nat \<times> duration) option" where
  "last_increment h atUsage [] i t = None"
| "last_increment h atUsage (p # ps) i t =
     (let t' = wrap64 (t + cIt_TotalUsage (hpIt h ! p))
      in if atUsage \<le> t' then Some (i, t') else last_increment h atUsage ps (Suc i) t')"

primrec clone_its :: "nat list \<Rightarrow> ec_heap \<Rightarrow> nat list \<times> ec_heap" where
  "clone_its [] h = ([], h)"
| "clone_its (p # ps) h = (let (q, h1) = cIt_Clone p h; (qs, h2) = clone_its ps h1 in (q # qs, h2))"

text \<open>The surplus \<open>sp\<close> becomes an interval of its own and the interval \<open>a\<close> keeps clones of the increments \<open>its\<close>.\<close>

definition cut_off :: "nat \<Rightarrow> nat list \<Rightarrow> nat list \<Rightarrow> int \<Rightarrow> ec_heap \<Rightarrow> nat \<times> ec_heap" where
  "cut_off a its sp laItCF h =
     (let (s, h1) = cIl_Clone a h;
          (qs, h2) = clone_its its (upd_il s (\<lambda>c. c\<lparr>ilIncrements := sp\<rparr>) h1);
          h3 = upd_il a (\<lambda>c. c\<lparr>ilIncrements := qs\<rparr>) h2
      in (s, if laItCF \<noteq> 0 then upd_it (List.last qs) (\<lambda>c. c\<lparr>ciCompressFactor := laItCF\<rparr>) h3 else h3))"

text \<open>
  An interval with a larger compress factor is split before: the increments of the surplus are then those of the interval
  that stays.
\<close>

definition move_surplus :: "nat \<Rightarrow> nat list \<Rightarrow> nat list \<Rightarrow> int \<Rightarrow> nat list \<Rightarrow> EventCost \<Rightarrow> ec_heap \<Rightarrow> nat list \<times> EventCost \<times> ec_heap" where
  "move_surplus a its sp laItCF srplus ec h =
     (let (a', ec1, h1) =
            (if 1 < ilCompressFactor (hpIl h ! a) then
               let (b, k) = cIl_Clone a (upd_il a (\<lambda>c. c\<lparr>ilCompressFactor := ilCompressFactor c - 1\<rparr>) h)
               in (b, ec\<lparr>ecCharges := ecCharges ec @ [b], ecUsage := None, ecCost := None\<rparr>, upd_il b (\<lambda>c. c\<lparr>ilCompressFactor := 1\<rparr>) k)
             else (a, ec, h));
          (s, h2) = cut_off a' its sp laItCF h1
      in (s # srplus, ec1, h2))"

text \<open>The split of the last interval inside its increments. The usage to reach becomes the part that is left for them.\<close>

definition trim_increments ::
  "nat \<Rightarrow> duration \<Rightarrow> nat list \<Rightarrow> EventCost \<Rightarrow> ec_heap \<Rightarrow> (error + nat list \<times> duration) \<times> EventCost \<times> ec_heap" where
  "trim_increments a atUsage srplus ec h =
     (let (u, ec1, h1) = GetUsage ec h
      in if atUsage = u then (Inr (srplus, atUsage), ec1, h1)
         else let (iu, h2) = cIl_Usage a h1;
                  rest = wrap64 (atUsage - wrap64 (u - iu));
                  incs = ilIncrements (hpIl h2 ! a)
              in case last_increment h2 rest incs 0 0 of
                   None \<Rightarrow> (Inl (ErrMsg ''no active increment found''), ec1, h2)
                 | Some (j, t) \<Rightarrow>
                     let li = hpIt h2 ! (incs ! j); cf = ciCompressFactor li;
                         laItCF = (if cf \<noteq> 1 \<and> rest \<noteq> t
                                   then first_count cf (\<lambda>c. rest \<le> wrap64 (wrap64 (t - cIt_TotalUsage li) + ciUsage li * c)) else 0)
                     in if cf = 0 then (Inl (ErrMsg ''empty compress factor in increment''), ec1, h2)
                        else if cf \<noteq> 1 \<and> rest \<noteq> t \<and> laItCF = 0
                             then (Inl (ErrMsg ''cannot detect last active CompressFactor in ChargingIncrement''), ec1, h2)
                        else let (sp, h3) =
                                   (if cf \<noteq> 1 \<and> rest \<noteq> t \<and> laItCF \<noteq> cf then
                                      let (q, k) = cIt_Clone (incs ! j) h2
                                      in (q # drop (Suc j) incs, upd_it q (\<lambda>c. c\<lparr>ciCompressFactor := cf - laItCF\<rparr>) k)
                                    else (drop (Suc j) incs, h2))
                             in if sp = [] then (Inr (srplus, rest), ec1, h3)
                                else let (srplus', ec2, h4) = move_surplus a (take (Suc j) incs) sp laItCF srplus
                                           (ec1\<lparr>ecUsage := None, ecCost := None\<rparr>) h3
                                     in (Inr (srplus', rest), ec2, h4))"

text \<open>The surplus gets table entries of its own for what its intervals and increments refer to.\<close>

primrec close_increments :: "(nat \<Rightarrow> string) \<Rightarrow> EventCost \<Rightarrow> nat list \<Rightarrow> EventCost \<Rightarrow> ec_heap \<Rightarrow> error + (EventCost \<times> ec_heap)" where
  "close_increments gen ec [] sr h = Inr (sr, h)"
| "close_increments gen ec (p # ps) sr h =
     ebind (accountingGetIDFromEventCost gen sr ec (ciAccountingID (hpIt h ! p)) (hpUuid h)) (\<lambda>(k, sr1, n).
       close_increments gen ec ps sr1 (upd_it p (\<lambda>c. c\<lparr>ciAccountingID := k\<rparr>) (h\<lparr>hpUuid := n\<rparr>)))"

primrec close_surplus :: "(nat \<Rightarrow> string) \<Rightarrow> EventCost \<Rightarrow> nat list \<Rightarrow> EventCost \<Rightarrow> ec_heap \<Rightarrow> error + (EventCost \<times> ec_heap)" where
  "close_surplus gen ec [] sr h = Inr (sr, h)"
| "close_surplus gen ec (a # as) sr h =
     ebind (ratingGetIDFomEventCost gen sr ec (ilRatingID (hpIl h ! a)) (hpUuid h)) (\<lambda>(k, sr1, n).
       let h1 = upd_il a (\<lambda>c. c\<lparr>ilRatingID := k\<rparr>) (h\<lparr>hpUuid := n\<rparr>)
       in ebind (close_increments gen ec (ilIncrements (hpIl h1 ! a)) sr1 h1) (\<lambda>(sr2, h2). close_surplus gen ec as sr2 h2))"

type_synonym trim_result = "(error + EventCost option) \<times> EventCost \<times> ec_heap"

definition finish_trim :: "(nat \<Rightarrow> string) \<Rightarrow> duration \<Rightarrow> duration \<Rightarrow> EventCost \<Rightarrow> EventCost \<Rightarrow> ec_heap \<Rightarrow> error + trim_result" where
  "finish_trim gen origUsage atUsage sr ec h =
     (let (ec1, h1) = ResetCounters ec h;
          (u, ec2, h2) = GetUsage ec1 h1
      in if u < atUsage then Inr (Inl (ErrMsg ''usage of EventCost smaller than requested''), ec2, h2)
         else let (sr1, h3) = ResetCounters sr h2;
                  (su, sr2, h4) = GetUsage (sr1\<lparr>ecStartTime := time_Add (ecStartTime ec2) u\<rparr>) h3
              in if wrap64 (origUsage - atUsage) < su then Inr (Inl (ErrMsg ''surplus EventCost too big''), ec2, h4)
                 else ebind (close_surplus gen ec2 (ecCharges sr2) sr2 h4) (\<lambda>(sr3, h5).
                        Inr (Inr (Some sr3), RemoveStaleReferences ec2 h5, h5)))"

definition trim_at :: "(nat \<Rightarrow> string) \<Rightarrow> duration \<Rightarrow> duration \<Rightarrow> nat \<Rightarrow> EventCost \<Rightarrow> EventCost \<Rightarrow> ec_heap \<Rightarrow> error + trim_result" where
  "trim_at gen origUsage atUsage k sr ec h =
     (let a = ecCharges ec ! k
      in case ilecUsageIdx (hpIl h ! a) of
           None \<Rightarrow> Inl nil_deref
         | Some idx \<Rightarrow>
             if atUsage \<le> idx then Inr (Inl (ErrMsg ''failed detecting last active ChargingInterval''), ec, h)
             else if ilCompressFactor (hpIl h ! a) = 0 then Inr (Inl (ErrMsg ''ChargingInterval with 0 compressFactor''), ec, h)
             else let ec1 = ec\<lparr>ecCharges := take (Suc k) (ecCharges ec), ecUsage := None, ecCost := None\<rparr>
                  in ebind (split_interval a idx atUsage (drop (Suc k) (ecCharges ec)) h) (\<lambda>(r, h1).
                       case r of
                         Inl e \<Rightarrow> Inr (Inl e, ec1, h1)
                       | Inr srplus \<Rightarrow>
                           (case trim_increments a atUsage srplus ec1 h1 of
                              (Inl e, ec2, h2) \<Rightarrow> Inr (Inl e, ec2, h2)
                            | (Inr (srplus', rest), ec2, h2) \<Rightarrow> finish_trim gen origUsage rest (sr\<lparr>ecCharges := srplus'\<rparr>) ec2 h2)))"

definition Trim :: "(nat \<Rightarrow> string) \<Rightarrow> EventCost \<Rightarrow> duration \<Rightarrow> ec_heap \<Rightarrow> error + trim_result" where
  "Trim gen ec0 atUsage h0 =
     (let (origUsage, ec, h) = GetUsage ec0 h0
      in if origUsage \<le> atUsage then Inr (Inr None, ec, h)
         else case ecAccountSummary ec of
                None \<Rightarrow> Inl nil_deref
              | Some summary \<Rightarrow>
                  let bare = NewBareEventCost\<lparr>ecCGRID := ecCGRID ec, ecRunID := ecRunID ec, ecStartTime := ecStartTime ec,
                               ecAccountSummary := Some summary\<rparr>
                  in if atUsage = 0 then let (srplus, h1) = EventCost_Clone ec h in Inr (Inr (Some srplus), bare, h1)
                     else ebind (last_active atUsage (ecCharges ec) 0 ec h) (\<lambda>(la, ec1, h1).
                            case la of
                              None \<Rightarrow> Inr (Inl (ErrMsg ''cannot find last active ChargingInterval''), ec1, h1)
                            | Some k \<Rightarrow> trim_at gen origUsage atUsage k bare ec1 h1))"

end
