(* ===== verification/Event_Cost_Laws.thy ===== *)
theory Event_Cost_Laws
  imports Event_Cost
begin

text \<open>
  Laws of the heap of event costs. An interval by value (\<open>fview\<close>) is what its pointers lead to; the units of an event cost
  are its increments with all compress factors multiplied out. Frame lemmas (\<open>kept\<close>) say what an operation leaves as it
  was, and the computations that only fill the caches (\<open>warm\<close>) are evaluated to the sums they stand for.
\<close>

subsection \<open>Intervals by value\<close>

type_synonym ilv = "string \<times> int \<times> ChargingIncrement list"

definition fview :: "ec_heap \<Rightarrow> nat \<Rightarrow> ilv" where
  "fview h a = (let c = hpIl h ! a in (ilRatingID c, ilCompressFactor c, map (\<lambda>i. hpIt h ! i) (ilIncrements c)))"

definition it_units :: "ChargingIncrement \<Rightarrow> (duration \<times> float64) list" where
  "it_units c = replicate (nat (ciCompressFactor c)) (ciUsage c, ciCost c)"

definition its_units :: "ChargingIncrement list \<Rightarrow> (duration \<times> float64) list" where
  "its_units cs = concat (map it_units cs)"

fun v_units :: "ilv \<Rightarrow> (duration \<times> float64) list" where
  "v_units (r, f, cs) = concat (replicate (nat f) (its_units cs))"

definition units_of :: "ec_heap \<Rightarrow> EventCost \<Rightarrow> (duration \<times> float64) list" where
  "units_of h ec = concat (map (\<lambda>a. v_units (fview h a)) (ecCharges ec))"

definition usage_sum :: "(duration \<times> float64) list \<Rightarrow> duration" where
  "usage_sum us = sum_list (map fst us)"

definition its_usage :: "ChargingIncrement list \<Rightarrow> duration" where
  "its_usage cs = sum_list (map (\<lambda>c. ciUsage c * ciCompressFactor c) cs)"

fun v_total :: "ilv \<Rightarrow> duration" where
  "v_total (r, f, cs) = f * its_usage cs"

fun v_good :: "ilv \<Rightarrow> bool" where
  "v_good (r, f, cs) \<longleftrightarrow> 0 \<le> f \<and> list_all (\<lambda>c. 0 \<le> ciUsage c \<and> 0 \<le> ciCompressFactor c) cs \<and> its_usage cs < 2 ^ 63"

abbreviation vs_total :: "ilv list \<Rightarrow> duration" where
  "vs_total vs \<equiv> sum_list (map v_total vs)"

lemma usage_sum_simps [simp]:
  "usage_sum [] = 0" "usage_sum (x # us) = fst x + usage_sum us" "usage_sum (us @ ws) = usage_sum us + usage_sum ws"
  by (simp_all add: usage_sum_def)

lemma its_simps [simp]:
  "its_usage [] = 0" "its_usage (c # cs) = ciUsage c * ciCompressFactor c + its_usage cs" "its_usage (cs @ ds) = its_usage cs + its_usage ds"
  "its_units [] = []" "its_units (c # cs) = it_units c @ its_units cs" "its_units (cs @ ds) = its_units cs @ its_units ds"
  by (simp_all add: its_usage_def its_units_def)

lemma usage_replicate: "usage_sum (replicate n x) = int n * fst x"
  by (induction n) (auto simp: algebra_simps)

lemma usage_it_units: "0 \<le> ciCompressFactor c \<Longrightarrow> usage_sum (it_units c) = ciUsage c * ciCompressFactor c"
  by (simp add: it_units_def usage_replicate)

lemma usage_its_units: "list_all (\<lambda>c. 0 \<le> ciUsage c \<and> 0 \<le> ciCompressFactor c) cs \<Longrightarrow> usage_sum (its_units cs) = its_usage cs"
  by (induction cs) (auto simp: usage_it_units)

lemma usage_copies: "usage_sum (concat (replicate n us)) = int n * usage_sum us"
  by (induction n) (auto simp: algebra_simps)

lemma usage_v_units: "v_good v \<Longrightarrow> usage_sum (v_units v) = v_total v"
  by (cases v) (simp add: usage_copies usage_its_units)

lemma its_usage_nonneg: "list_all (\<lambda>c. 0 \<le> ciUsage c \<and> 0 \<le> ciCompressFactor c) cs \<Longrightarrow> 0 \<le> its_usage cs"
  by (induction cs) auto

lemma v_total_nonneg: "v_good v \<Longrightarrow> 0 \<le> v_total v"
  by (cases v) (simp add: its_usage_nonneg)

lemma vs_total_nonneg: "list_all v_good vs \<Longrightarrow> 0 \<le> vs_total vs"
  by (induction vs) (auto simp: v_total_nonneg)

lemma usage_vs: "list_all v_good vs \<Longrightarrow> usage_sum (concat (map v_units vs)) = vs_total vs"
  by (induction vs) (auto simp: usage_v_units)

lemma usage_sum_nonneg: "(\<forall>x \<in> set us. 0 \<le> fst x) \<Longrightarrow> 0 \<le> usage_sum us"
  by (induction us) auto

subsection \<open>The cut of a list of units\<close>

definition reaches :: "duration \<Rightarrow> (duration \<times> float64) list \<Rightarrow> bool" where
  "reaches d us \<longleftrightarrow> usage_sum us = d \<or> d \<le> usage_sum us \<and> (\<exists>ws x. us = ws @ [x] \<and> usage_sum ws < d)"

lemma reaches_least:
  assumes "reaches d us" and "\<forall>x \<in> set (us @ rest). 0 \<le> fst x" and "d \<le> usage_sum (take n (us @ rest))"
  shows "usage_sum us \<le> usage_sum (take n (us @ rest))"
proof (cases "usage_sum us = d")
  case False
  then obtain ws x where us: "us = ws @ [x]" and w: "usage_sum ws < d" using assms(1) by (auto simp: reaches_def)
  show ?thesis
  proof (cases "n \<le> length ws")
    case True
    have "usage_sum (take n ws) + usage_sum (drop n ws) = usage_sum ws" by (metis append_take_drop_id usage_sum_simps(3))
    moreover have "0 \<le> usage_sum (drop n ws)" using assms(2) us by (intro usage_sum_nonneg) (auto dest: in_set_dropD)
    ultimately show ?thesis using True w assms(3) us by simp
  next
    case False
    then have "take n (us @ rest) = us @ take (n - length us) rest" by (simp add: us take_Cons')
    moreover have "0 \<le> usage_sum (take (n - length us) rest)" using assms(2) by (intro usage_sum_nonneg) (auto dest: in_set_takeD)
    ultimately show ?thesis by simp
  qed
qed (use assms(3) in simp)

lemma copies_split: "0 \<le> l \<Longrightarrow> l \<le> f \<Longrightarrow> v_units (r, l, cs) @ v_units (r, f - l, cs) = v_units (r, f, cs)"
  by (simp flip: concat_append replicate_add add: nat_add_distrib [symmetric])

lemma it_units_split:
  "0 \<le> m \<Longrightarrow> m \<le> ciCompressFactor c \<Longrightarrow> it_units (c\<lparr>ciCompressFactor := m\<rparr>) @ it_units (c\<lparr>ciCompressFactor := ciCompressFactor c - m\<rparr>) = it_units c"
  by (simp add: it_units_def flip: replicate_add nat_add_distrib)

text \<open>The units of an interval with factor \<open>l\<close> that is split in its last copy, at count \<open>m\<close> of the increment \<open>c\<close>.\<close>

lemma last_copy_split:
  assumes "1 \<le> l" and "1 \<le> m" and "m \<le> ciCompressFactor c"
  shows "v_units (r, l - 1, cs @ c # ds) @ v_units (r, 1, cs @ [c\<lparr>ciCompressFactor := m\<rparr>]) @
      v_units (r, 1, (if m = ciCompressFactor c then ds else c\<lparr>ciCompressFactor := ciCompressFactor c - m\<rparr> # ds)) = v_units (r, l, cs @ c # ds)"
proof -
  have "it_units (c\<lparr>ciCompressFactor := m\<rparr>) @ its_units (if m = ciCompressFactor c then ds else c\<lparr>ciCompressFactor := ciCompressFactor c - m\<rparr> # ds)
      = it_units c @ its_units ds"
    using it_units_split [of m c] assms by (auto simp: it_units_def)
  then have "v_units (r, 1, cs @ [c\<lparr>ciCompressFactor := m\<rparr>]) @
      v_units (r, 1, (if m = ciCompressFactor c then ds else c\<lparr>ciCompressFactor := ciCompressFactor c - m\<rparr> # ds)) = v_units (r, 1, cs @ c # ds)" by simp
  then show ?thesis using copies_split [of "l - 1" l r "cs @ c # ds"] assms(1) by simp
qed

subsection \<open>What the heap operations keep\<close>

definition ptr_ok :: "ec_heap \<Rightarrow> nat \<Rightarrow> bool" where
  "ptr_ok h a \<longleftrightarrow> a < length (hpIl h) \<and> (\<forall>i \<in> set (ilIncrements (hpIl h ! a)). i < length (hpIt h))"

abbreviation incs_of :: "ec_heap \<Rightarrow> nat \<Rightarrow> nat list" where
  "incs_of h a \<equiv> ilIncrements (hpIl h ! a)"

definition cache_ok :: "ec_heap \<Rightarrow> nat \<Rightarrow> bool" where
  "cache_ok h a \<longleftrightarrow> ilusage (hpIl h ! a) \<in> {None, Some (its_usage (snd (snd (fview h a))))}"

definition il_good :: "ec_heap \<Rightarrow> nat \<Rightarrow> bool" where
  "il_good h a \<longleftrightarrow> ptr_ok h a \<and> v_good (fview h a) \<and> cache_ok h a"

text \<open>\<open>kept h h' a\<close>: the interval \<open>a\<close> is the same in both heaps, its cached values aside.\<close>

definition kept :: "ec_heap \<Rightarrow> ec_heap \<Rightarrow> nat \<Rightarrow> bool" where
  "kept h h' a \<longleftrightarrow> (il_good h a \<longrightarrow> il_good h' a) \<and> (ptr_ok h a \<longrightarrow> ptr_ok h' a \<and> fview h' a = fview h a \<and> incs_of h' a = incs_of h a)"

lemma kept_refl [simp]: "kept h h a"
  by (simp add: kept_def)

lemma kept_trans: "kept h h1 a \<Longrightarrow> kept h1 h2 a \<Longrightarrow> kept h h2 a"
  by (auto simp: kept_def il_good_def)

lemma kept_D: "kept h h' a \<Longrightarrow> il_good h a \<Longrightarrow> il_good h' a \<and> fview h' a = fview h a \<and> incs_of h' a = incs_of h a"
  by (auto simp: kept_def il_good_def)

lemma length_upd [simp]:
  "length (hpIl (upd_il a f h)) = length (hpIl h)" "length (hpIt (upd_il a f h)) = length (hpIt h)"
  "length (hpIl (upd_it i g h)) = length (hpIl h)" "length (hpIt (upd_it i g h)) = length (hpIt h)"
  "hpUuid (upd_il a f h) = hpUuid h" "hpUuid (upd_it i g h) = hpUuid h"
  by (simp_all add: upd_il_def upd_it_def)

lemma upd_nth [simp]:
  "a < length (hpIl h) \<Longrightarrow> hpIl (upd_il a f h) ! a = f (hpIl h ! a)" "b \<noteq> a \<Longrightarrow> hpIl (upd_il a f h) ! b = hpIl h ! b"
  "hpIt (upd_il a f h) = hpIt h" "hpIl (upd_it i g h) = hpIl h"
  "i < length (hpIt h) \<Longrightarrow> hpIt (upd_it i g h) ! i = g (hpIt h ! i)" "j \<noteq> i \<Longrightarrow> hpIt (upd_it i g h) ! j = hpIt h ! j"
  by (simp_all add: upd_il_def upd_it_def)

lemma keptI: "(ptr_ok h b \<Longrightarrow> ptr_ok h' b \<and> fview h' b = fview h b \<and> hpIl h' ! b = hpIl h ! b) \<Longrightarrow> kept h h' b"
  by (auto simp: kept_def il_good_def cache_ok_def)

lemma kept_new: "length (hpIl h) \<le> b \<Longrightarrow> kept h h' b"
  by (simp add: kept_def il_good_def ptr_ok_def)

lemma kept_upd_il: "b \<noteq> a \<Longrightarrow> kept h (upd_il a f h) b"
  by (rule keptI) (auto simp: ptr_ok_def fview_def Let_def)

lemma kept_more:
  assumes "hpIl h' = hpIl h @ ils" and "hpIt h' = hpIt h @ its"
  shows "kept h h' b"
proof (rule keptI)
  assume p: "ptr_ok h b"
  then have "hpIl h' ! b = hpIl h ! b" by (simp add: assms ptr_ok_def nth_append)
  moreover have "map (\<lambda>i. hpIt h' ! i) (incs_of h b) = map (\<lambda>i. hpIt h ! i) (incs_of h b)"
    using p by (intro map_cong) (auto simp: assms ptr_ok_def nth_append)
  ultimately show "ptr_ok h' b \<and> fview h' b = fview h b \<and> hpIl h' ! b = hpIl h ! b"
    using p by (auto simp: ptr_ok_def fview_def Let_def assms)
qed

lemma fview_upd [simp]:
  "a < length (hpIl h) \<Longrightarrow> fview (upd_il a (\<lambda>c. c\<lparr>ilCompressFactor := f c\<rparr>) h) a = (fst (fview h a), f (hpIl h ! a), snd (snd (fview h a)))"
  "a < length (hpIl h) \<Longrightarrow> fview (upd_il a (\<lambda>c. c\<lparr>ilIncrements := is\<rparr>) h) a = (fst (fview h a), fst (snd (fview h a)), map (\<lambda>i. hpIt h ! i) is)"
  "a < length (hpIl h) \<Longrightarrow> fview (upd_il a (\<lambda>c. c\<lparr>ilusage := u\<rparr>) h) a = fview h a"
  "a < length (hpIl h) \<Longrightarrow> fview (upd_il a (\<lambda>c. c\<lparr>ilecUsageIdx := u\<rparr>) h) a = fview h a"
  "a < length (hpIl h) \<Longrightarrow> fview (reset_il a h) a = fview h a"
  by (simp_all add: fview_def Let_def reset_il_def)

lemma clone_facts:
  assumes "cIl_Clone a h = (b, h')" and "ptr_ok h a"
  shows "b = length (hpIl h)" "length (hpIl h') = Suc b" "length (hpIt h) \<le> length (hpIt h')" "hpUuid h' = hpUuid h"
    "fview h' b = fview h a" "ptr_ok h' b" "cache_ok h' b" "kept h h' x" "set (incs_of h' b) \<inter> {..<length (hpIt h)} = {}" "distinct (incs_of h' b)"
proof -
  let ?n = "length (hpIt h)" and ?its = "map (\<lambda>i. hpIt h ! i) (incs_of h a)"
  have h': "h' = h\<lparr>hpIt := hpIt h @ ?its, hpIl := hpIl h @ [\<lparr>ilRatingID = ilRatingID (hpIl h ! a), ilIncrements = [?n ..< ?n + length (incs_of h a)],
      ilCompressFactor = ilCompressFactor (hpIl h ! a), ilusage = None, ilecUsageIdx = None, ilcost = None\<rparr>]\<rparr>"
    and b: "b = length (hpIl h)" using assms(1) by (auto simp: cIl_Clone_def Let_def)
  have "map (\<lambda>i. (hpIt h @ ?its) ! i) [?n ..< ?n + length (incs_of h a)] = ?its"
    by (intro nth_equalityI) (auto simp: nth_append)
  then show "fview h' b = fview h a" by (simp add: fview_def Let_def h' b)
  show "kept h h' x" by (rule kept_more) (simp_all add: h')
qed (use assms in \<open>auto simp: cIl_Clone_def Let_def ptr_ok_def cache_ok_def\<close>)

lemma clone_its_eq: "clone_its ps h = ([length (hpIt h) ..< length (hpIt h) + length ps], h\<lparr>hpIt := hpIt h @ map (\<lambda>i. hpIt h ! i) ps\<rparr>)"
  if "\<forall>p \<in> set ps. p < length (hpIt h)"
  using that
proof (induction ps arbitrary: h)
  case (Cons p ps)
  let ?h = "h\<lparr>hpIt := hpIt h @ [hpIt h ! p]\<rparr>"
  have "clone_its ps ?h = ([length (hpIt ?h) ..< length (hpIt ?h) + length ps], ?h\<lparr>hpIt := hpIt ?h @ map (\<lambda>i. hpIt ?h ! i) ps\<rparr>)"
    using Cons.prems by (intro Cons.IH) auto
  moreover have "map (\<lambda>i. hpIt ?h ! i) ps = map (\<lambda>i. hpIt h ! i) ps" using Cons.prems by (auto simp: nth_append)
  ultimately show ?case by (simp add: cIt_Clone_def upt_rec)
qed simp

subsection \<open>Usages and their caches\<close>

lemma int64_range: "0 \<le> x \<Longrightarrow> x < 2 ^ 63 \<Longrightarrow> is_int64 x"
  by (simp add: is_int64_def)

lemma fold_usage:
  "list_all (\<lambda>c. 0 \<le> ciUsage c \<and> 0 \<le> ciCompressFactor c) (map f is) \<Longrightarrow> 0 \<le> t \<Longrightarrow> t + its_usage (map f is) < 2 ^ 63 \<Longrightarrow>
     fold (\<lambda>i t. wrap64 (t + cIt_TotalUsage (f i))) is t = t + its_usage (map f is)"
proof (induction "is" arbitrary: t)
  case (Cons i "is")
  have "0 \<le> its_usage (map f is)" using Cons.prems(1) by (intro its_usage_nonneg) simp
  moreover have "0 \<le> ciUsage (f i) * ciCompressFactor (f i)" using Cons.prems(1) by simp
  ultimately have "wrap64 (t + cIt_TotalUsage (f i)) = t + ciUsage (f i) * ciCompressFactor (f i)"
    using Cons.prems by (simp add: cIt_TotalUsage_def int64_range)
  with Cons show ?case by (simp add: add.assoc)
qed simp

abbreviation usage_at :: "ec_heap \<Rightarrow> nat \<Rightarrow> duration" where
  "usage_at h a \<equiv> its_usage (snd (snd (fview h a)))"

lemma cIl_Usage_eq:
  assumes "il_good h a"
  shows "cIl_Usage a h = (usage_at h a, upd_il a (\<lambda>c. c\<lparr>ilusage := Some (usage_at h a)\<rparr>) h)"
proof (cases "ilusage (hpIl h ! a)")
  case None
  have "fold (\<lambda>i t. wrap64 (t + cIt_TotalUsage (hpIt h ! i))) (incs_of h a) 0 = usage_at h a"
    using assms fold_usage [of "\<lambda>i. hpIt h ! i" "incs_of h a" 0] by (simp add: il_good_def fview_def Let_def)
  then show ?thesis by (simp add: cIl_Usage_def None Let_def)
next
  case (Some u)
  then have "u = usage_at h a" using assms by (simp add: il_good_def cache_ok_def)
  moreover have "(hpIl h ! a)\<lparr>ilusage := Some u\<rparr> = hpIl h ! a" using Some by (cases "hpIl h ! a") simp
  then have "upd_il a (\<lambda>c. c\<lparr>ilusage := Some u\<rparr>) h = h" by (simp add: upd_il_def)
  ultimately show ?thesis by (simp add: cIl_Usage_def Some)
qed

lemma kept_self:
  assumes "il_good h a" and "ptr_ok h' a" and "fview h' a = fview h a" and "incs_of h' a = incs_of h a" and "cache_ok h' a"
  shows "kept h h' a"
  using assms by (simp add: kept_def il_good_def)

lemma kept_upd_self:
  assumes "il_good h a" and "fview (upd_il a f h) a = fview h a" and "\<And>c. ilIncrements (f c) = ilIncrements c"
    and "ilusage (f (hpIl h ! a)) \<in> {None, Some (usage_at h a), ilusage (hpIl h ! a)}"
  shows "kept h (upd_il a f h) b"
proof (cases "b = a")
  case True
  with assms show ?thesis by (auto intro!: kept_self simp: il_good_def cache_ok_def ptr_ok_def)
qed (rule kept_upd_il)

lemma kept_usage: "il_good h a \<Longrightarrow> kept h (upd_il a (\<lambda>c. c\<lparr>ilusage := Some (usage_at h a)\<rparr>) h) b"
  by (rule kept_upd_self) (simp_all add: il_good_def ptr_ok_def)

lemma kept_index: "il_good h a \<Longrightarrow> kept h (upd_il a (\<lambda>c. c\<lparr>ilecUsageIdx := x\<rparr>) h) b"
  by (rule kept_upd_self) (simp_all add: il_good_def ptr_ok_def)

lemma cIl_TotalUsage_eq:
  assumes "il_good h a" and "v_total (fview h a) < 2 ^ 63"
  shows "cIl_TotalUsage a h = (v_total (fview h a), upd_il a (\<lambda>c. c\<lparr>ilusage := Some (usage_at h a)\<rparr>) h)"
proof -
  have "usage_at h a * ilCompressFactor (hpIl h ! a) = v_total (fview h a)" by (simp add: fview_def Let_def)
  moreover have "is_int64 (v_total (fview h a))"
    using assms by (intro int64_range v_total_nonneg) (simp_all add: il_good_def)
  ultimately show ?thesis using assms(1) by (simp add: cIl_TotalUsage_def cIl_Usage_eq il_good_def ptr_ok_def)
qed

definition total_of :: "ec_heap \<Rightarrow> nat list \<Rightarrow> duration" where
  "total_of h as = vs_total (map (fview h) as)"

lemma total_of_simps [simp]:
  "total_of h [] = 0" "total_of h (a # as) = v_total (fview h a) + total_of h as" "total_of h (as @ bs) = total_of h as + total_of h bs"
  by (simp_all add: total_of_def)

definition all_good :: "ec_heap \<Rightarrow> nat list \<Rightarrow> bool" where
  "all_good h as \<longleftrightarrow> (\<forall>a \<in> set as. il_good h a)"

lemma all_good_simps [simp]:
  "all_good h []" "all_good h (a # as) \<longleftrightarrow> il_good h a \<and> all_good h as" "all_good h (as @ bs) \<longleftrightarrow> all_good h as \<and> all_good h bs"
  by (auto simp: all_good_def)

lemma all_good_take: "all_good h as \<Longrightarrow> all_good h (take m as)"
  by (auto simp: all_good_def dest: in_set_takeD)

lemma total_of_nonneg: "all_good h as \<Longrightarrow> 0 \<le> total_of h as"
  unfolding total_of_def by (intro vs_total_nonneg) (auto simp: all_good_def il_good_def list_all_iff)

lemma kept_all:
  assumes "\<forall>a \<in> set as. kept h h' a" and "all_good h as"
  shows "all_good h' as" "map (fview h') as = map (fview h) as" "map (incs_of h') as = map (incs_of h) as"
    "total_of h' as = total_of h as"
proof -
  show "all_good h' as" "map (incs_of h') as = map (incs_of h) as" using assms by (auto simp: all_good_def dest: kept_D)
  show e: "map (fview h') as = map (fview h) as" using assms by (auto simp: all_good_def dest: kept_D)
  show "total_of h' as = total_of h as" by (simp only: total_of_def e)
qed

text \<open>\<open>warm\<close>: only cached values changed.\<close>

definition warm :: "ec_heap \<Rightarrow> ec_heap \<Rightarrow> bool" where
  "warm h h' \<longleftrightarrow> (\<forall>b. kept h h' b) \<and> hpUuid h' = hpUuid h \<and> length (hpIl h') = length (hpIl h) \<and> hpIt h' = hpIt h"

lemma warm_refl [simp]: "warm h h"
  by (simp add: warm_def)

lemma warm_trans [trans]: "warm h h1 \<Longrightarrow> warm h1 h2 \<Longrightarrow> warm h h2"
  by (auto simp: warm_def intro: kept_trans)

lemma warm_usage: "il_good h a \<Longrightarrow> warm h (upd_il a (\<lambda>c. c\<lparr>ilusage := Some (usage_at h a)\<rparr>) h)"
  by (simp add: warm_def kept_usage)

lemma warm_index: "il_good h a \<Longrightarrow> warm h (upd_il a (\<lambda>c. c\<lparr>ilecUsageIdx := x\<rparr>) h)"
  by (simp add: warm_def kept_index)

lemma warm_all:
  assumes "warm h h'" and "all_good h as"
  shows "all_good h' as" "map (fview h') as = map (fview h) as" "map (incs_of h') as = map (incs_of h) as" "total_of h' as = total_of h as"
  using assms kept_all [of as h h'] by (simp_all add: warm_def)

definition same_idx :: "ec_heap \<Rightarrow> ec_heap \<Rightarrow> bool" where
  "same_idx h h' \<longleftrightarrow> (\<forall>b. ilecUsageIdx (hpIl h' ! b) = ilecUsageIdx (hpIl h ! b))"

lemma same_idx_usage: "il_good h a \<Longrightarrow> same_idx h (upd_il a (\<lambda>c. c\<lparr>ilusage := u\<rparr>) h)"
proof -
  assume "il_good h a"
  then have "ilecUsageIdx (hpIl (upd_il a (\<lambda>c. c\<lparr>ilusage := u\<rparr>) h) ! b) = ilecUsageIdx (hpIl h ! b)" for b
    by (cases "b = a") (simp_all add: il_good_def ptr_ok_def)
  then show ?thesis by (simp add: same_idx_def)
qed

lemma sum_usage_eq:
  assumes "all_good h as" and "0 \<le> t" and "t + total_of h as < 2 ^ 63"
  shows "\<exists>h'. sum_usage as t h = (t + total_of h as, h') \<and> warm h h' \<and> same_idx h h'"
  using assms
proof (induction as arbitrary: h t)
  case (Cons a as)
  let ?h = "upd_il a (\<lambda>c. c\<lparr>ilusage := Some (usage_at h a)\<rparr>) h"
  have g: "il_good h a" "all_good h as" and n: "0 \<le> total_of h as" "0 \<le> v_total (fview h a)"
    using Cons.prems by (auto simp: total_of_nonneg il_good_def v_total_nonneg)
  have w: "warm h ?h" and s: "same_idx h ?h" using g(1) by (rule warm_usage, intro same_idx_usage)
  note e = warm_all [OF w g(2)]
  have "wrap64 (t + v_total (fview h a)) = t + v_total (fview h a)" using Cons.prems n by (simp add: int64_range)
  then have 1: "sum_usage (a # as) t h = sum_usage as (t + v_total (fview h a)) ?h"
    using Cons.prems n g(1) by (simp add: cIl_TotalUsage_eq)
  obtain h' where 2: "sum_usage as (t + v_total (fview h a)) ?h = (t + v_total (fview h a) + total_of h as, h')"
    "warm ?h h'" "same_idx ?h h'"
    using Cons.IH [of ?h "t + v_total (fview h a)"] Cons.prems e n by (auto simp: add.assoc)
  moreover have "same_idx h h'" using s 2(3) by (simp add: same_idx_def)
  ultimately show ?case using warm_trans [OF w 2(2)] unfolding 1 by (simp add: add.assoc)
qed (simp add: same_idx_def)

lemma GetUsage_eq:
  assumes "all_good h (ecCharges ec)" and "total_of h (ecCharges ec) < 2 ^ 63" and "ecUsage ec \<in> {None, Some (total_of h (ecCharges ec))}"
  shows "\<exists>h'. GetUsage ec h = (total_of h (ecCharges ec), ec\<lparr>ecUsage := Some (total_of h (ecCharges ec))\<rparr>, h') \<and> warm h h' \<and> same_idx h h'"
proof (cases "ecUsage ec")
  case None
  then show ?thesis using sum_usage_eq [OF assms(1), of 0] assms(2) by (auto simp: GetUsage_def)
next
  case (Some u)
  then have "ec\<lparr>ecUsage := Some u\<rparr> = ec" by (cases ec) simp
  with Some show ?thesis using assms(3) by (auto simp: GetUsage_def same_idx_def)
qed

primrec idx_ok :: "ec_heap \<Rightarrow> nat list \<Rightarrow> duration \<Rightarrow> bool" where
  "idx_ok h [] t \<longleftrightarrow> True"
| "idx_ok h (a # as) t \<longleftrightarrow> ilecUsageIdx (hpIl h ! a) \<in> {None, Some t} \<and> idx_ok h as (t + v_total (fview h a))"

lemma idx_ok_append: "idx_ok h (as @ bs) t \<longleftrightarrow> idx_ok h as t \<and> idx_ok h bs (t + total_of h as)"
  by (induction as arbitrary: t) (auto simp: add.assoc)

lemma idx_ok_same:
  assumes "idx_ok h as t" and "warm h h'" and "all_good h as" and "\<forall>a \<in> set as. ilecUsageIdx (hpIl h' ! a) = ilecUsageIdx (hpIl h ! a)"
  shows "idx_ok h' as t"
  using assms(1,3,4)
proof (induction as arbitrary: t)
  case (Cons a as)
  then show ?case using warm_all(2) [OF assms(2), of "[a]"] by simp
qed simp

lemma usage_indexes_eq:
  assumes "distinct as" and "all_good h as" and "idx_ok h as t" and "0 \<le> t" and "t + total_of h as < 2 ^ 63"
  shows "warm h (usage_indexes as t h) \<and> idx_ok (usage_indexes as t h) as t \<and>
     (\<forall>a \<in> set as. ilecUsageIdx (hpIl (usage_indexes as t h) ! a) \<noteq> None) \<and>
     (\<forall>b. b \<notin> set as \<longrightarrow> ilecUsageIdx (hpIl (usage_indexes as t h) ! b) = ilecUsageIdx (hpIl h ! b))"
  using assms
proof (induction as arbitrary: h t)
  case (Cons a as)
  define h1 where "h1 = (if ilecUsageIdx (hpIl h ! a) = None then upd_il a (\<lambda>c. c\<lparr>ilecUsageIdx := Some t\<rparr>) h else h)"
  define h2 where "h2 = upd_il a (\<lambda>c. c\<lparr>ilusage := Some (usage_at h1 a)\<rparr>) h1"
  have g: "il_good h a" "all_good h as" and n: "0 \<le> total_of h as" "0 \<le> v_total (fview h a)"
    using Cons.prems by (auto simp: total_of_nonneg il_good_def v_total_nonneg)
  have w1: "warm h h1" using g(1) by (simp add: h1_def warm_index)
  have f1: "fview h1 a = fview h a" "il_good h1 a" using warm_all [OF w1, of "[a]"] g(1) by simp_all
  have w2: "warm h1 h2" unfolding h2_def using f1(2) by (rule warm_usage)
  have w: "warm h h2" using w1 w2 by (rule warm_trans)
  have f: "fview h2 a = fview h a" using warm_all(2) [OF w, of "[a]"] g(1) by simp
  have i: "ilecUsageIdx (hpIl h2 ! a) = Some t" "b \<noteq> a \<Longrightarrow> ilecUsageIdx (hpIl h2 ! b) = ilecUsageIdx (hpIl h ! b)" for b
    using Cons.prems(3) g(1) by (auto simp: h2_def h1_def il_good_def ptr_ok_def split: if_splits)
  have 1: "usage_indexes (a # as) t h = usage_indexes as (t + v_total (fview h a)) h2"
    using Cons.prems n f1 by (simp add: h2_def h1_def [symmetric] Let_def cIl_TotalUsage_eq int64_range)
  have "idx_ok h2 as (t + v_total (fview h a))"
    using Cons.prems(1,3) by (intro idx_ok_same [OF _ w g(2)] ballI i(2)) auto
  then have IH: "warm h2 (usage_indexes (a # as) t h) \<and> idx_ok (usage_indexes (a # as) t h) as (t + v_total (fview h a)) \<and>
     (\<forall>a' \<in> set as. ilecUsageIdx (hpIl (usage_indexes (a # as) t h) ! a') \<noteq> None) \<and>
     (\<forall>b. b \<notin> set as \<longrightarrow> ilecUsageIdx (hpIl (usage_indexes (a # as) t h) ! b) = ilecUsageIdx (hpIl h2 ! b))"
    unfolding 1 using Cons.prems n warm_all [OF w g(2)] by (intro Cons.IH) auto
  then have w': "warm h (usage_indexes (a # as) t h)" using warm_trans [OF w] by blast
  have "fview (usage_indexes (a # as) t h) a = fview h a" using warm_all(2) [OF w', of "[a]"] g(1) by simp
  with IH w' i Cons.prems(1) show ?case by auto
qed simp

end
