(* ===== verification/Trim_Steps.thy ===== *)
theory Trim_Steps
  imports Event_Cost_Laws
begin

text \<open>
  The steps of \<^verbatim>\<open>Trim\<close>: the interval that reaches the usage, its split by the compress factor, and the split inside its
  increments, each by value.
\<close>

subsection \<open>Trim, step by step\<close>

lemma idx_at:
  assumes "distinct (ps @ a # as)" and "all_good h (ps @ a # as)" and "idx_ok h (ps @ a # as) 0" and "total_of h (ps @ a # as) < 2 ^ 63"
    and h1: "h1 = (if ilecUsageIdx (hpIl h ! a) = None then usage_indexes (ps @ a # as) 0 h else h)"
  shows "warm h h1" "idx_ok h1 (ps @ a # as) 0" "ilecUsageIdx (hpIl h1 ! a) = Some (total_of h ps)"
proof -
  note u = usage_indexes_eq [OF assms(1,2,3)]
  show w: "warm h h1" and i: "idx_ok h1 (ps @ a # as) 0" using u assms(3,4) by (auto simp: h1)
  have "ilecUsageIdx (hpIl h1 ! a) \<noteq> None" using u assms(4) by (auto simp: h1)
  moreover have "total_of h1 ps = total_of h ps" using warm_all(4) [OF w] assms(2) by simp
  ultimately show "ilecUsageIdx (hpIl h1 ! a) = Some (total_of h ps)" using i by (auto simp: idx_ok_append)
qed

lemma last_active_eq:
  assumes "ecCharges ec = ps @ as" and "distinct (ps @ as)" and "all_good h (ps @ as)" and "idx_ok h (ps @ as) 0"
    and "total_of h (ps @ as) < 2 ^ 63" and "ecUsage ec \<noteq> None" and "total_of h ps < x" and "x \<le> total_of h (ps @ as)"
  shows "\<exists>k h'. last_active x as (length ps) ec h = Inr (Some k, ec, h') \<and> warm h h' \<and> k < length (ps @ as) \<and>
     ilecUsageIdx (hpIl h' ! ((ps @ as) ! k)) = Some (total_of h (take k (ps @ as))) \<and>
     total_of h (take k (ps @ as)) < x \<and> x \<le> total_of h (take (Suc k) (ps @ as))"
  using assms
proof (induction as arbitrary: ps h)
  case (Cons a as)
  define h1 where "h1 = (if ilecUsageIdx (hpIl h ! a) = None then usage_indexes (ps @ a # as) 0 h else h)"
  note 1 = idx_at [OF Cons.prems(2-5) h1_def]
  note e1 = warm_all [OF 1(1) Cons.prems(3)]
  have g: "il_good h1 a" "fview h1 a = fview h a" and n: "0 \<le> total_of h as" "0 \<le> total_of h ps" "0 \<le> v_total (fview h a)"
    using e1 Cons.prems(3) by (auto simp: total_of_nonneg il_good_def v_total_nonneg)
  let ?h = "upd_il a (\<lambda>c. c\<lparr>ilusage := Some (usage_at h1 a)\<rparr>) h1"
  have w1: "warm h1 ?h" and s1: "same_idx h1 ?h" using g(1) by (rule warm_usage, intro same_idx_usage)
  have w: "warm h ?h" using 1(1) w1 by (rule warm_trans)
  note e = warm_all [OF w Cons.prems(3)]
  have i: "idx_ok ?h (ps @ a # as) 0" using s1 by (intro idx_ok_same [OF 1(2) w1 e1(1)]) (simp add: same_idx_def)
  have u: "ilecUsageIdx (hpIl ?h ! a) = Some (total_of h ps)" using s1 1(3) by (simp add: same_idx_def)
  have G: "snd (GetUsage ec h1) = (ec, h1)" using Cons.prems(6) by (auto simp: GetUsage_def)
  have c: "(if ilecUsageIdx (hpIl h ! a) = None then ComputeEventCostUsageIndexes ec h else h) = h1"
    using Cons.prems(1) by (simp add: h1_def ComputeEventCostUsageIndexes_def)
  have step: "last_active x (a # as) (length ps) ec h = (if x \<le> total_of h ps + v_total (fview h a) then Inr (Some (length ps), ec, ?h)
      else last_active x as (Suc (length ps)) ec ?h)"
    using Cons.prems(1,5) n u g G
    by (simp add: c cIl_TotalUsage_eq int64_range)
  show ?case
  proof (cases "x \<le> total_of h ps + v_total (fview h a)")
    case True
    then show ?thesis unfolding step using w u Cons.prems(7) by (intro exI [of _ "length ps"] exI [of _ ?h]) simp
  next
    case False
    have t: "total_of ?h (take m (ps @ a # as)) = total_of h (take m (ps @ a # as))" for m
      using Cons.prems(3) by (intro warm_all(4) [OF w] all_good_take)
    show ?thesis
      using Cons.IH [of "ps @ [a]" ?h] Cons.prems e i False w t t [of "Suc (length ps)"] unfolding step
      by (fastforce intro: warm_trans)
  qed
qed simp

lemma first_count_eq:
  assumes "1 \<le> c" and "c \<le> cf" and "P c"
  shows "1 \<le> first_count cf P" "first_count cf P \<le> c" "P (first_count cf P)" "1 \<le> d \<Longrightarrow> d < first_count cf P \<Longrightarrow> \<not> P d"
proof -
  let ?f = "find (\<lambda>c. P (int c)) [1..<Suc (nat cf)]"
  have m: "nat c \<in> set [1..<Suc (nat cf)]" "P (int (nat c))" using assms by auto
  then have "?f \<noteq> None" unfolding find_None_iff by blast
  then obtain k where k: "?f = Some k" by blast
  then obtain i where i: "i < length [1..<Suc (nat cf)]" "P (int ([1..<Suc (nat cf)] ! i))" "k = [1..<Suc (nat cf)] ! i"
      "\<forall>j < i. \<not> P (int ([1..<Suc (nat cf)] ! j))" by (auto simp: find_Some_iff)
  then have e: "k = Suc i" "\<forall>j < i. \<not> P (int (Suc j))" "P (int (Suc i))" by (auto simp: nth_upt simp del: upt_Suc)
  have F: "first_count cf P = int k" by (simp only: first_count_def k option.case)
  show none: "\<not> P d" if "1 \<le> d" "d < first_count cf P" for d
    using that e(2) [rule_format, of "nat d - 1"] by (auto simp: F e(1))
  show "1 \<le> first_count cf P" "P (first_count cf P)" using e by (simp_all add: F)
  show "first_count cf P \<le> c" using none [of c] assms by force
qed

lemma good_factor:
  assumes "il_good h a" and "0 \<le> n"
  shows "il_good (upd_il a (\<lambda>c. c\<lparr>ilCompressFactor := n\<rparr>) h) a"
  using assms by (cases "fview h a") (auto simp: il_good_def cache_ok_def ptr_ok_def)

text \<open>\<open>fresh\<close>: intervals made after \<open>h\<close>, with increments of their own.\<close>

definition fresh_il :: "ec_heap \<Rightarrow> ec_heap \<Rightarrow> nat \<Rightarrow> bool" where
  "fresh_il h h' b \<longleftrightarrow> length (hpIl h) \<le> b \<and> distinct (incs_of h' b) \<and> (\<forall>i \<in> set (incs_of h' b). length (hpIt h) \<le> i)"

lemma split_copies:
  assumes "il_good h a" and "fview h a = (r, f, cs)" and "1 \<le> l" and "l < f"
    and "cIl_Clone a h = (b, h2)" and "h' = upd_il a (\<lambda>c. c\<lparr>ilCompressFactor := l\<rparr>) (upd_il b (\<lambda>c. c\<lparr>ilCompressFactor := f - l\<rparr>) h2)"
  shows "il_good h' a" "fview h' a = (r, l, cs)" "incs_of h' a = incs_of h a" "fview h' b = (r, f - l, cs)" "il_good h' b"
    "fresh_il h h' b" "x \<noteq> a \<Longrightarrow> kept h h' x" "b \<noteq> a"
proof -
  have p: "ptr_ok h a" using assms(1) by (simp add: il_good_def)
  note c = clone_facts [OF assms(5) p]
  have ab: "b \<noteq> a" "a < length (hpIl h)" using p c(1) by (auto simp: ptr_ok_def)
  show "b \<noteq> a" by (rule ab)
  let ?k = "upd_il b (\<lambda>c. c\<lparr>ilCompressFactor := f - l\<rparr>) h2"
  have ka: "kept h ?k a" using kept_trans [OF c(8) kept_upd_il] ab(1) by metis
  then have ga: "il_good ?k a" "fview ?k a = (r, f, cs)" "incs_of ?k a = incs_of h a" using kept_D [OF ka assms(1)] assms(2) by auto
  show "il_good h' a" unfolding assms(6) using ga(1) assms(3) by (intro good_factor) simp_all
  have len: "a < length (hpIl ?k)" "b < length (hpIl h2)" using ab c(1,2) by simp_all
  show "fview h' a = (r, l, cs)" "incs_of h' a = incs_of h a" unfolding assms(6) using len ga by simp_all
  have gb: "il_good h2 b" using c(5,6,7) assms(1) by (simp add: il_good_def)
  have kb: "il_good ?k b" using gb assms(4) by (intro good_factor) simp_all
  have "fview ?k b = (r, f - l, cs)" using len c(5) assms(2) by simp
  moreover have kk: "kept ?k h' b" unfolding assms(6) using ab(1) by (rule kept_upd_il)
  ultimately show "fview h' b = (r, f - l, cs)" "il_good h' b" using kept_D [OF kk kb] by simp_all
  have "incs_of h' b = incs_of h2 b" using kept_D [OF kk kb] len by simp
  then show "fresh_il h h' b" using c(1,9,10) by (auto simp: fresh_il_def disjoint_iff not_less)
  show "kept h h' x" if "x \<noteq> a"
  proof (cases "x = b")
    case True
    then show ?thesis using c(1) by (simp add: kept_new)
  next
    case False
    show ?thesis unfolding assms(6) by (rule kept_trans [OF c(8) kept_trans [OF kept_upd_il [OF False] kept_upd_il [OF that]]])
  qed
qed

definition cut_in :: "duration \<Rightarrow> duration \<Rightarrow> duration \<Rightarrow> int \<Rightarrow> bool" where
  "cut_in idx u x l \<longleftrightarrow> idx + u * l = x \<or> idx + u * (l - 1) < x \<and> x \<le> idx + u * l"

lemma first_count_cut:
  assumes "1 \<le> f" and x: "idx < x" "x \<le> idx + u * f" and P: "\<And>d. 0 \<le> d \<Longrightarrow> d \<le> f \<Longrightarrow> P d \<longleftrightarrow> x \<le> idx + u * d"
  shows "1 \<le> first_count f P" "first_count f P \<le> f" "cut_in idx u x (first_count f P)"
proof -
  let ?m = "first_count f P"
  have "P f" using P [of f] assms(1) x(2) by simp
  note m = first_count_eq [of f f P, OF assms(1) order_refl this]
  show "1 \<le> ?m" "?m \<le> f" by (rule m)+
  have "idx + u * (?m - 1) < x" using m(1,2) m(4) [of "?m - 1"] P [of "?m - 1"] x(1) by (cases "?m = 1") auto
  then show "cut_in idx u x ?m" using m(1,2,3) P [of ?m] by (simp add: cut_in_def)
qed

lemma scaled: "0 \<le> u \<Longrightarrow> 0 \<le> d \<Longrightarrow> d \<le> f \<Longrightarrow> 0 \<le> u * d \<and> u * d \<le> u * (f :: int)"
  by (simp add: mult_left_mono)

lemma split_interval_eq:
  assumes "il_good h a" and "fview h a = (r, f, cs)" and "1 \<le> f" and "0 \<le> idx" and "idx + f * its_usage cs < 2 ^ 63"
    and "idx < x" and "x \<le> idx + f * its_usage cs"
  shows "\<exists>l new h'. split_interval a idx x srplus h = Inr (Inr (new @ srplus), h') \<and> 1 \<le> l \<and> l \<le> f \<and> cut_in idx (its_usage cs) x l \<and>
     il_good h' a \<and> fview h' a = (r, l, cs) \<and> incs_of h' a = incs_of h a \<and> map (fview h') new = (if l = f then [] else [(r, f - l, cs)]) \<and>
     distinct new \<and> all_good h' new \<and> (\<forall>b \<in> set new. fresh_il h h' b \<and> b \<noteq> a) \<and> (\<forall>b. b \<noteq> a \<longrightarrow> kept h h' b)"
proof (cases "f = 1")
  case True
  then show ?thesis using assms
    by (intro exI [of _ 1] exI [of _ "[]"] exI [of _ h]) (simp add: split_interval_def fview_def Let_def cut_in_def)
next
  case False
  let ?h = "upd_il a (\<lambda>c. c\<lparr>ilusage := Some (its_usage cs)\<rparr>) h" and ?u = "its_usage cs"
  have g: "v_good (r, f, cs)" and al: "a < length (hpIl h)" and u0: "0 \<le> ?u"
    using assms(1,2) by (auto simp: il_good_def ptr_ok_def intro: its_usage_nonneg)
  have tot: "cIl_TotalUsage a h = (f * ?u, ?h)" using cIl_TotalUsage_eq [OF assms(1)] assms(2,4,5) by simp
  have w: "warm h ?h" using warm_usage [OF assms(1)] assms(2) by simp
  have ga: "il_good ?h a" "fview ?h a = (r, f, cs)" "incs_of ?h a = incs_of h a" using warm_all [OF w, of "[a]"] assms(1,2) by simp_all
  have kw: "kept h ?h b" for b using w by (simp add: warm_def)
  have cf: "ilCompressFactor (hpIl h ! a) = f" using assms(2) by (simp add: fview_def Let_def)
  have r: "wrap64 (idx + f * ?u) = idx + f * ?u" using assms(4,5) u0 assms(3) by (intro wrap64_id int64_range) simp_all
  let ?P = "\<lambda>c. x \<le> wrap64 (idx + wrap64 (?u * c))"
  have P: "?P c \<longleftrightarrow> x \<le> idx + ?u * c" if "0 \<le> c" "c \<le> f" for c
    using scaled [OF u0 that] assms(4,5) by (simp add: int64_range mult.commute)
  let ?l = "first_count f ?P"
  have lf: "1 \<le> ?l" "?l \<le> f" and cut: "cut_in idx ?u x ?l"
    using first_count_cut [OF assms(3,6) _ P] assms(7) by (simp_all add: mult.commute)
  have step: "split_interval a idx x srplus h = (if idx + f * ?u \<le> x then Inr (Inr srplus, ?h) else
      if ?l = f then Inr (Inr srplus, ?h) else let (b, h2) = cIl_Clone a ?h
        in Inr (Inr (b # srplus), upd_il a (\<lambda>c. c\<lparr>ilCompressFactor := ?l\<rparr>) (upd_il b (\<lambda>c. c\<lparr>ilCompressFactor := f - ?l\<rparr>) h2)))"
    using lf(1) al by (simp add: split_interval_def cf False tot r Let_def)
  show ?thesis
  proof (cases "idx + f * ?u \<le> x \<or> ?l = f")
    case True
    then have "split_interval a idx x srplus h = Inr (Inr ([] @ srplus), ?h)" using step by auto
    moreover have "cut_in idx ?u x f" using True cut assms(7) by (auto simp: cut_in_def mult.commute)
    ultimately show ?thesis using ga kw assms(3) by (intro exI [of _ f] exI [of _ "[]"] exI [of _ ?h]) simp
  next
    case False
    obtain b h2 where b: "cIl_Clone a ?h = (b, h2)" by fastforce
    define h' where "h' = upd_il a (\<lambda>c. c\<lparr>ilCompressFactor := ?l\<rparr>) (upd_il b (\<lambda>c. c\<lparr>ilCompressFactor := f - ?l\<rparr>) h2)"
    have l2: "?l < f" using False lf(2) by simp
    note s = split_copies [OF ga(1,2) lf(1) l2 b h'_def]
    have "split_interval a idx x srplus h = Inr (Inr ([b] @ srplus), h')" using step False b by (simp add: h'_def)
    moreover have "fresh_il h h' b" using s(6) by (simp add: fresh_il_def)
    moreover have "kept h h' c" if "c \<noteq> a" for c using kept_trans [OF kw s(7) [OF that]] .
    ultimately show ?thesis using s lf(1) l2 cut ga(3) by (intro exI [of _ ?l] exI [of _ "[b]"] exI [of _ h']) simp
  qed
qed

lemma last_increment_eq:
  assumes "list_all (\<lambda>c. 0 \<le> ciUsage c \<and> 0 \<le> ciCompressFactor c) (map (\<lambda>i. hpIt h ! i) is)" and "0 \<le> t"
    and "t + its_usage (map (\<lambda>i. hpIt h ! i) is) < 2 ^ 63" and "t < x" and "x \<le> t + its_usage (map (\<lambda>i. hpIt h ! i) is)"
  shows "\<exists>j < length is. last_increment h x is n t = Some (n + j, t + its_usage (map (\<lambda>i. hpIt h ! i) (take (Suc j) is))) \<and>
    t + its_usage (map (\<lambda>i. hpIt h ! i) (take j is)) < x \<and> x \<le> t + its_usage (map (\<lambda>i. hpIt h ! i) (take (Suc j) is))"
  using assms
proof (induction "is" arbitrary: n t)
  case (Cons p ps)
  let ?c = "hpIt h ! p" and ?f = "\<lambda>i. hpIt h ! i"
  have n: "0 \<le> its_usage (map ?f ps)" "0 \<le> ciUsage ?c * ciCompressFactor ?c"
    using Cons.prems(1) by (auto intro!: its_usage_nonneg)
  then have w: "wrap64 (t + cIt_TotalUsage ?c) = t + ciUsage ?c * ciCompressFactor ?c"
    using Cons.prems by (simp add: cIt_TotalUsage_def int64_range)
  show ?case
  proof (cases "x \<le> t + ciUsage ?c * ciCompressFactor ?c")
    case True
    then show ?thesis using Cons.prems(4) by (intro exI [of _ 0]) (simp add: w)
  next
    case False
    then obtain j where "j < length ps"
      "last_increment h x ps (Suc n) (t + ciUsage ?c * ciCompressFactor ?c) =
         Some (Suc n + j, t + ciUsage ?c * ciCompressFactor ?c + its_usage (map ?f (take (Suc j) ps)))"
      "t + ciUsage ?c * ciCompressFactor ?c + its_usage (map ?f (take j ps)) < x"
      "x \<le> t + ciUsage ?c * ciCompressFactor ?c + its_usage (map ?f (take (Suc j) ps))"
      using Cons.IH [of "t + ciUsage ?c * ciCompressFactor ?c" "Suc n"] Cons.prems n by (auto simp: add.assoc)
    then show ?thesis using False by (intro exI [of _ "Suc j"]) (simp add: w add.assoc)
  qed
qed simp

definition sound :: "ec_heap \<Rightarrow> nat \<Rightarrow> bool" where
  "sound h a \<longleftrightarrow> ptr_ok h a \<and> v_good (fview h a)"

lemma good_sound: "il_good h a \<Longrightarrow> sound h a"
  by (simp add: sound_def il_good_def)

lemma kept_sound: "kept h h' a \<Longrightarrow> sound h a \<Longrightarrow> sound h' a \<and> fview h' a = fview h a \<and> incs_of h' a = incs_of h a"
  by (auto simp: kept_def sound_def)

text \<open>The last copy of the interval \<open>a\<close> is cut: clones of the increments \<open>its\<close> stay, the increments \<open>sp\<close> go.\<close>

lemma cut_off_eq:
  assumes "ptr_ok h a" and "fview h a = (r, f, cs)" and its: "\<forall>i \<in> set its. i < length (hpIt h)" and sp: "\<forall>i \<in> set sp. i < length (hpIt h)"
    and ks: "map (\<lambda>i. hpIt h ! i) its = ks @ [c]" and e: "cut_off a its sp n h = (s, h')" and m: "m = (if n = 0 then ciCompressFactor c else n)"
  shows "ptr_ok h' a \<and> fview h' a = (r, f, ks @ [c\<lparr>ciCompressFactor := m\<rparr>])"
    and "ptr_ok h' s \<and> fview h' s = (r, f, map (\<lambda>i. hpIt h ! i) sp) \<and> incs_of h' s = sp"
    and "s \<noteq> a" and "s = length (hpIl h)" and "x \<noteq> a \<Longrightarrow> kept h h' x"
proof -
  obtain h2 qs h3 where s: "cIl_Clone a h = (s, h2)" and q: "clone_its its (upd_il s (\<lambda>c. c\<lparr>ilIncrements := sp\<rparr>) h2) = (qs, h3)"
    and h': "h' = (if n \<noteq> 0 then upd_it (List.last qs) (\<lambda>c. c\<lparr>ciCompressFactor := n\<rparr>) (upd_il a (\<lambda>c. c\<lparr>ilIncrements := qs\<rparr>) h3)
      else upd_il a (\<lambda>c. c\<lparr>ilIncrements := qs\<rparr>) h3)"
    using e by (auto simp: cut_off_def Let_def split: prod.splits)
  note c = clone_facts [OF s assms(1)]
  show sa: "s \<noteq> a" "s = length (hpIl h)" using assms(1) c(1) by (auto simp: ptr_ok_def)
  let ?k = "upd_il s (\<lambda>c. c\<lparr>ilIncrements := sp\<rparr>) h2" and ?n = "length (hpIt h2)"
  have nth: "hpIt h2 ! i = hpIt h ! i" if "i < length (hpIt h)" for i
    using s that by (auto simp: cIl_Clone_def Let_def nth_append)
  have "\<forall>i \<in> set its. i < length (hpIt ?k)" using its c(3) by auto
  note qq = clone_its_eq [OF this, unfolded q]
  have cl: "map (\<lambda>i. hpIt h2 ! i) its = ks @ [c]" using ks nth its by (metis (no_types, lifting) map_cong)
  have h3: "h3 = ?k\<lparr>hpIt := hpIt h2 @ ks @ [c]\<rparr>" and qs: "qs = [?n ..< ?n + length its]" using qq cl by auto
  have len: "length its = Suc (length ks)" using ks by (metis length_append_singleton length_map)
  have lq: "List.last qs = ?n + length ks" using len by (simp add: qs)
  have al: "a < length (hpIl h2)" "s < length (hpIl h2)" using assms(1) sa c(2) by (auto simp: ptr_ok_def)
  have ka: "hpIl h2 ! a = hpIl h ! a" using s assms(1) by (auto simp: cIl_Clone_def Let_def nth_append ptr_ok_def)
  let ?c' = "c\<lparr>ciCompressFactor := m\<rparr>"
  have it: "hpIt h' = hpIt h2 @ ks @ [?c']" by (cases c) (simp add: h' h3 lq upd_it_def nth_append list_update_append m)
  have il: "hpIl h' = (hpIl h2)[s := (hpIl h2 ! s)\<lparr>ilIncrements := sp\<rparr>, a := (hpIl h ! a)\<lparr>ilIncrements := qs\<rparr>]"
    using sa(1) ka by (simp add: h' h3 upd_il_def)
  have "map (\<lambda>i. hpIt h' ! i) qs = ks @ [?c']"
    by (intro nth_equalityI) (simp_all add: it qs len nth_append)
  then show "ptr_ok h' a \<and> fview h' a = (r, f, ks @ [?c'])"
    using al assms(2) len by (auto simp: ptr_ok_def fview_def Let_def il it qs)
  have ps: "map (\<lambda>i. hpIt h' ! i) sp = map (\<lambda>i. hpIt h ! i) sp"
    using sp c(3) nth by (intro map_cong) (auto simp: it nth_append)
  have "fst (fview h2 s) = r" "fst (snd (fview h2 s)) = f" using c(5) assms(2) by simp_all
  then show "ptr_ok h' s \<and> fview h' s = (r, f, map (\<lambda>i. hpIt h ! i) sp) \<and> incs_of h' s = sp"
    using al sa(1) ps sp c(3) by (auto simp: ptr_ok_def fview_def Let_def il it)
  show "kept h h' x" if "x \<noteq> a"
  proof (rule keptI)
    assume p: "ptr_ok h x"
    then have "x \<noteq> s" by (auto simp: ptr_ok_def sa(2))
    then have x: "hpIl h' ! x = hpIl h ! x" using that p s by (auto simp: il cIl_Clone_def Let_def nth_append ptr_ok_def)
    have "map (\<lambda>i. hpIt h' ! i) (incs_of h x) = map (\<lambda>i. hpIt h ! i) (incs_of h x)"
      using p c(3) nth by (intro map_cong) (auto simp: it nth_append ptr_ok_def)
    then show "ptr_ok h' x \<and> fview h' x = fview h x \<and> hpIl h' ! x = hpIl h ! x"
      using p x c(1,2,3) by (auto simp: ptr_ok_def fview_def Let_def il it)
  qed
qed

text \<open>The value of the cut: what stays of the copies \<open>l\<close> of an interval, and what goes.\<close>

definition cut_stays :: "string \<Rightarrow> int \<Rightarrow> ChargingIncrement list \<Rightarrow> ChargingIncrement \<Rightarrow> ChargingIncrement list \<Rightarrow> int \<Rightarrow> ilv list" where
  "cut_stays r l ks c ds m = (if 1 < l then [(r, l - 1, ks @ c # ds)] else []) @ [(r, 1, ks @ [c\<lparr>ciCompressFactor := m\<rparr>])]"

definition cut_goes :: "ChargingIncrement \<Rightarrow> ChargingIncrement list \<Rightarrow> int \<Rightarrow> ChargingIncrement list" where
  "cut_goes c ds m = (if m = ciCompressFactor c then ds else c\<lparr>ciCompressFactor := ciCompressFactor c - m\<rparr> # ds)"

text \<open>The last of several copies becomes an interval of its own.\<close>

lemma peel_copy:
  assumes g: "il_good h a" and v: "fview h a = (r, l, cs)" and l: "1 < l"
    and b: "cIl_Clone a (upd_il a (\<lambda>c. c\<lparr>ilCompressFactor := ilCompressFactor c - 1\<rparr>) h) = (b, k)"
    and h1: "h1 = upd_il b (\<lambda>c. c\<lparr>ilCompressFactor := 1\<rparr>) k"
  shows "ptr_ok h1 a" "fview h1 a = (r, l - 1, cs)" "ptr_ok h1 b" "fview h1 b = (r, 1, cs)" "b \<noteq> a" "b = length (hpIl h)"
    "length (hpIl h1) = Suc b" "length (hpIt h) \<le> length (hpIt h1)" "i < length (hpIt h) \<Longrightarrow> hpIt h1 ! i = hpIt h ! i"
    "x \<noteq> a \<Longrightarrow> kept h h1 x" "incs_of h1 a = incs_of h a"
proof -
  define k0 where "k0 = upd_il a (\<lambda>c. c\<lparr>ilCompressFactor := ilCompressFactor c - 1\<rparr>) h"
  have al: "a < length (hpIl h)" and cf: "ilCompressFactor (hpIl h ! a) = l" using g v by (auto simp: il_good_def ptr_ok_def fview_def Let_def)
  have k0: "ptr_ok k0 a" "fview k0 a = (r, l - 1, cs)" "hpIt k0 = hpIt h" "length (hpIl k0) = length (hpIl h)" "incs_of k0 a = incs_of h a"
    using g al v cf by (simp_all add: k0_def il_good_def ptr_ok_def)
  note cb = clone_facts [OF b [folded k0_def] k0(1)]
  show ab: "b \<noteq> a" "b = length (hpIl h)" using al cb(1) k0(4) by auto
  show "ptr_ok h1 b" "fview h1 b = (r, 1, cs)" using cb(2,5,6) k0(2) by (auto simp: h1 ptr_ok_def)
  show "length (hpIt h) \<le> length (hpIt h1)" "length (hpIl h1) = Suc b" "i < length (hpIt h) \<Longrightarrow> hpIt h1 ! i = hpIt h ! i"
    using b k0(3,4) ab(2) by (auto simp: h1 cIl_Clone_def Let_def nth_append k0_def)
  have "kept k0 h1 a" unfolding h1 using cb(8) kept_upd_il [OF ab(1) [symmetric]] by (rule kept_trans)
  then show "ptr_ok h1 a" "fview h1 a = (r, l - 1, cs)" "incs_of h1 a = incs_of h a" using k0 by (auto simp: kept_def)
  show "kept h h1 x" if "x \<noteq> a"
  proof (cases "x = b")
    case True
    then show ?thesis using ab(2) by (simp add: kept_new)
  next
    case False
    have "kept h k0 x" unfolding k0_def using that by (rule kept_upd_il)
    moreover have "kept k h1 x" unfolding h1 using False by (rule kept_upd_il)
    ultimately show ?thesis using cb(8) [of x] by (blast intro: kept_trans)
  qed
qed

lemma move_surplus_eq:
  assumes g: "il_good h a" and v: "fview h a = (r, l, ks @ c # ds)" and l: "1 \<le> l"
    and its: "\<forall>i \<in> set its. i < length (hpIt h)" "map (\<lambda>i. hpIt h ! i) its = ks @ [c]" and sp: "\<forall>i \<in> set sp. i < length (hpIt h)"
    and ec: "ecUsage ec = None" "ecCost ec = None"
    and c': "m = (if n = 0 then ciCompressFactor c else n)"
  shows "\<exists>s new h'. move_surplus a its sp n srplus ec h = (s # srplus, ec\<lparr>ecCharges := ecCharges ec @ new\<rparr>, h') \<and>
     map (fview h') (a # new) = cut_stays r l ks c ds m \<and> fview h' s = (r, 1, map (\<lambda>i. hpIt h ! i) sp) \<and> incs_of h' s = sp \<and>
     ptr_ok h' s \<and> (\<forall>b \<in> set (a # new). ptr_ok h' b) \<and> distinct (a # s # new) \<and> (\<forall>b \<in> set (s # new). length (hpIl h) \<le> b) \<and> (\<forall>x. x \<noteq> a \<longrightarrow> kept h h' x) \<and>
     (1 < l \<longrightarrow> incs_of h' a = incs_of h a)"
proof -
  have p: "ptr_ok h a" and al: "a < length (hpIl h)" using g by (auto simp: il_good_def ptr_ok_def)
  have cf: "ilCompressFactor (hpIl h ! a) = l" using v by (simp add: fview_def Let_def)
  show ?thesis
  proof (cases "1 < l")
    case False
    obtain s h' where s: "cut_off a its sp n h = (s, h')" by fastforce
    note cut = cut_off_eq [OF p v its(1) sp its(2) s c']
    have "move_surplus a its sp n srplus ec h = (s # srplus, ec\<lparr>ecCharges := ecCharges ec @ []\<rparr>, h')" using False s by (simp add: move_surplus_def cf)
    moreover have "l = 1" using False l by simp
    ultimately show ?thesis using cut by (intro exI [of _ s] exI [of _ "[]"] exI [of _ h']) (simp add: cut_stays_def)
  next
    case True
    obtain b k where b: "cIl_Clone a (upd_il a (\<lambda>c. c\<lparr>ilCompressFactor := ilCompressFactor c - 1\<rparr>) h) = (b, k)" by fastforce
    define h1 where "h1 = upd_il b (\<lambda>c. c\<lparr>ilCompressFactor := 1\<rparr>) k"
    note pl = peel_copy [OF g v True b h1_def]
    have its1: "\<forall>i \<in> set its. i < length (hpIt h1)" "map (\<lambda>i. hpIt h1 ! i) its = ks @ [c]" "\<forall>i \<in> set sp. i < length (hpIt h1)"
        "map (\<lambda>i. hpIt h1 ! i) sp = map (\<lambda>i. hpIt h ! i) sp"
      using its sp pl(8,9) by (auto simp flip: its(2))
    obtain s h' where s: "cut_off b its sp n h1 = (s, h')" by fastforce
    note cut = cut_off_eq [OF pl(3,4) its1(1,3,2) s c']
    have a: "ptr_ok h' a" "fview h' a = (r, l - 1, ks @ c # ds)" "incs_of h' a = incs_of h a"
      using cut(5) [OF pl(5) [symmetric]] pl(1,2,11) by (auto simp: kept_def)
    have x: "kept h h' x" if "x \<noteq> a" for x
      using kept_trans [OF pl(10) [OF that] cut(5)] pl(6) by (cases "x = b") (auto intro: kept_new)
    have ec': "ec\<lparr>ecCharges := ecCharges ec @ [b], ecUsage := None, ecCost := None\<rparr> = ec\<lparr>ecCharges := ecCharges ec @ [b]\<rparr>"
      using ec by (cases ec) simp
    have "move_surplus a its sp n srplus ec h = (s # srplus, ec\<lparr>ecCharges := ecCharges ec @ [b]\<rparr>, h')"
      using True s by (simp add: move_surplus_def cf b h1_def [symmetric] ec')
    then show ?thesis using True cut a x pl its1(4) al
      by (intro exI [of _ s] exI [of _ "[b]"] exI [of _ h']) (simp add: cut_stays_def)
  qed
qed

definition piece :: "duration \<Rightarrow> ChargingIncrement list \<Rightarrow> ChargingIncrement \<Rightarrow> int \<Rightarrow> bool" where
  "piece x ks c m \<longleftrightarrow> 1 \<le> m \<and> m \<le> ciCompressFactor c \<and> cut_in (its_usage ks) (ciUsage c) x m"

lemma last_count:
  assumes "0 \<le> its_usage ks" and "0 \<le> ciUsage c" and "its_usage ks + ciUsage c * ciCompressFactor c < 2 ^ 63" and "1 \<le> ciCompressFactor c"
    and x: "its_usage ks < x" "x \<le> its_usage ks + ciUsage c * ciCompressFactor c"
    and n: "n = (if ciCompressFactor c \<noteq> 1 \<and> x \<noteq> its_usage ks + ciUsage c * ciCompressFactor c
       then first_count (ciCompressFactor c) (\<lambda>d. x \<le> wrap64 (wrap64 (its_usage ks + ciUsage c * ciCompressFactor c - cIt_TotalUsage c) + ciUsage c * d)) else 0)"
  shows "piece x ks c (if n = 0 then ciCompressFactor c else n)" "ciCompressFactor c \<noteq> 1 \<and> x \<noteq> its_usage ks + ciUsage c * ciCompressFactor c \<longleftrightarrow> n \<noteq> 0"
proof -
  let ?u = "ciUsage c" and ?f = "ciCompressFactor c" and ?T = "its_usage ks"
  let ?P = "\<lambda>d. x \<le> wrap64 (wrap64 (?T + ?u * ?f - cIt_TotalUsage c) + ?u * d)"
  have P: "?P d \<longleftrightarrow> x \<le> ?T + ?u * d" if "0 \<le> d" "d \<le> ?f" for d
    using scaled [OF assms(2) that] assms(1,3) by (simp add: cIt_TotalUsage_def int64_range)
  note F = first_count_cut [OF assms(4) x P]
  show "?f \<noteq> 1 \<and> x \<noteq> ?T + ?u * ?f \<longleftrightarrow> n \<noteq> 0" using F by (auto simp: n)
  show "piece x ks c (if n = 0 then ?f else n)"
    using F x assms(4) by (auto simp: piece_def n cut_in_def)
qed

lemma cut_units: "1 \<le> l \<Longrightarrow> piece x ks c m \<Longrightarrow>
    concat (map v_units (cut_stays r l ks c ds m)) @ v_units (r, 1, cut_goes c ds m) = v_units (r, l, ks @ c # ds)"
  using last_copy_split [of l m c r ks ds] by (auto simp: piece_def cut_stays_def cut_goes_def)

lemma cut_reaches:
  assumes "v_good (r, l, ks @ c # ds)" and "1 \<le> l" and "piece x ks c m" and "usage_sum pre + (l - 1) * its_usage (ks @ c # ds) + x = y"
  shows "reaches y (pre @ concat (map v_units (cut_stays r l ks c ds m)))"
proof -
  let ?p = "pre @ v_units (r, l - 1, ks @ c # ds) @ its_units ks" and ?x = "(ciUsage c, ciCost c)"
  have m: "1 \<le> m" "cut_in (its_usage ks) (ciUsage c) x m" using assms(3) by (simp_all add: piece_def)
  have g: "v_good (r, l - 1, ks @ c # ds)" using assms(1,2) by simp
  have us: "usage_sum (its_units ks) = its_usage ks" using assms(1) by (intro usage_its_units) simp
  have p: "usage_sum ?p = y - x + its_usage ks" using usage_v_units [OF g] us assms(4) by simp
  have e: "pre @ concat (map v_units (cut_stays r l ks c ds m)) = ?p @ replicate (nat m) ?x"
    using assms(2) by (simp add: cut_stays_def it_units_def)
  obtain k where k: "m = int (Suc k)" using m(1) by (metis zero_less_imp_eq_int Suc_pred zero_less_one less_le_trans)
  have e': "?p @ replicate (nat m) ?x = (?p @ replicate k ?x) @ [?x]" using k by (simp add: replicate_append_same nat_add_distrib)
  have s: "usage_sum (?p @ replicate k ?x) = y - x + its_usage ks + ciUsage c * (m - 1)"
    unfolding usage_sum_simps(3) [of ?p] p by (simp add: usage_replicate k)
  then have s': "usage_sum ((?p @ replicate k ?x) @ [?x]) = y - x + its_usage ks + ciUsage c * m"
    unfolding usage_sum_simps(3) [of _ "[?x]"] by (simp add: algebra_simps)
  show ?thesis unfolding e e' reaches_def s' using m(2) s by (force simp: cut_in_def)
qed

lemma cut_good:
  assumes "v_good (r, l, ks @ c # ds)" and "1 \<le> l" and "piece x ks c m"
  shows "list_all v_good (cut_stays r l ks c ds m)" "v_good (r, 1, cut_goes c ds m)"
proof -
  let ?P = "\<lambda>c. 0 \<le> ciUsage c \<and> 0 \<le> ciCompressFactor c"
  have n: "list_all ?P ks" "list_all ?P ds" "?P c" "1 \<le> m" "m \<le> ciCompressFactor c" using assms by (auto simp: piece_def)
  then have u: "ciUsage c * m \<le> ciUsage c * ciCompressFactor c" "0 \<le> its_usage ks" "0 \<le> its_usage ds" "0 \<le> ciUsage c * m"
      "0 \<le> ciUsage c * ciCompressFactor c"
      "ciUsage c * (ciCompressFactor c - m) \<le> ciUsage c * ciCompressFactor c"
    by (simp_all add: mult_left_mono its_usage_nonneg)
  have t: "its_usage (ks @ c # ds) < 2 ^ 63" using assms(1) by simp
  have b: "its_usage ks + ciUsage c * m < 2 ^ 63" "its_usage ds < 2 ^ 63" "ciUsage c * (ciCompressFactor c - m) + its_usage ds < 2 ^ 63"
    using t u unfolding its_simps by linarith+
  show "list_all v_good (cut_stays r l ks c ds m)" using assms(2) n b(1) t by (auto simp: cut_stays_def)
  show "v_good (r, 1, cut_goes c ds m)" using n b(2,3) by (auto simp: cut_goes_def)
qed

fun v_refs :: "(string \<Rightarrow> bool) \<Rightarrow> (string \<Rightarrow> bool) \<Rightarrow> ilv \<Rightarrow> bool" where
  "v_refs R A (r, f, cs) \<longleftrightarrow> R r \<and> list_all (\<lambda>c. A (ciAccountingID c)) cs"

lemma refs_goes: "v_refs R A (r, l, ks @ c # ds) \<Longrightarrow> v_refs R A (r, 1, cut_goes c ds m)"
  by (auto simp: cut_goes_def)

text \<open>The charges and the surplus after a cut: their values, and what the rest of \<^verbatim>\<open>Trim\<close> needs of the heap.\<close>

definition parted :: "ec_heap \<Rightarrow> nat list \<Rightarrow> nat list \<Rightarrow> bool" where
  "parted h as srplus \<longleftrightarrow> (\<forall>a \<in> set as. sound h a) \<and> (\<forall>a \<in> set srplus. sound h a) \<and> distinct as \<and> distinct srplus \<and>
     distinct (concat (map (incs_of h) srplus))"

abbreviation units_at :: "ec_heap \<Rightarrow> nat list \<Rightarrow> (duration \<times> float64) list" where
  "units_at h as \<equiv> concat (map v_units (map (fview h) as))"

lemma kept_maps:
  assumes "\<forall>b \<in> set bs. kept h h' b" and "\<forall>b \<in> set bs. sound h b"
  shows "map (fview h') bs = map (fview h) bs" "map (incs_of h') bs = map (incs_of h) bs" "\<forall>b \<in> set bs. sound h' b"
  using assms kept_sound by (auto cong: map_cong)

lemma surplus_parted:
  assumes "sound h a" and "\<forall>b \<in> set (ps @ srplus). sound h b" and "distinct (ps @ a # srplus)" and "distinct (concat (map (incs_of h) (a # srplus)))"
    and "distinct (a # s # new)" and "\<forall>b \<in> set (s # new). length (hpIl h) \<le> b" and k: "\<forall>x. x \<noteq> a \<longrightarrow> kept h h' x"
    and "\<forall>b \<in> set (a # s # new). sound h' b" and "incs_of h' s = sp"
    and sp: "distinct sp" "\<forall>i \<in> set sp. i \<in> set (incs_of h a) \<or> length (hpIt h) \<le> i"
  shows "parted h' (ps @ a # new) (s # srplus)" "map (fview h') ps = map (fview h) ps" "map (fview h') srplus = map (fview h) srplus"
proof -
  have na: "a \<notin> set ps" "a \<notin> set srplus" using assms(3) by auto
  have kp: "\<forall>b \<in> set ps. kept h h' b" and ks: "\<forall>b \<in> set srplus. kept h h' b" using k na by auto
  have sd: "\<forall>b \<in> set ps. sound h b" "\<forall>b \<in> set srplus. sound h b" using assms(2) by auto
  note mp = kept_maps [OF kp sd(1)] and ms = kept_maps [OF ks sd(2)]
  show "map (fview h') ps = map (fview h) ps" "map (fview h') srplus = map (fview h) srplus" by (rule mp(1), rule ms(1))
  have lt: "\<forall>b \<in> set (ps @ srplus). b < length (hpIl h)" "\<forall>b \<in> set srplus. \<forall>i \<in> set (incs_of h b). i < length (hpIt h)"
    using assms(2) by (auto simp: sound_def ptr_ok_def)
  have nn: "set (ps @ srplus) \<inter> set (s # new) = {}" using lt(1) assms(6) by (meson disjoint_iff not_le)
  then have "distinct (ps @ a # new)" using assms(3,5) by auto
  moreover have "distinct (s # srplus)" using assms(3) nn by auto
  moreover have "i \<notin> set (concat (map (incs_of h) srplus))" if "i \<in> set sp" for i
  proof -
    have "set (incs_of h a) \<inter> set (concat (map (incs_of h) srplus)) = {}" using assms(4) by simp
    then show ?thesis using bspec [OF sp(2) that] lt(2) by (auto simp: not_less [symmetric])
  qed
  then have "distinct (sp @ concat (map (incs_of h) srplus))" using sp(1) assms(4) by auto
  then have "distinct (concat (map (incs_of h') (s # srplus)))" unfolding list.map ms(2) assms(9) concat.simps .
  ultimately show "parted h' (ps @ a # new) (s # srplus)" using assms(8) mp(3) ms(3) by (auto simp: parted_def)
qed

text \<open>The surplus of the increments: a clone of the last one with the rest of its factor, and those after it.\<close>

lemma surplus_increments:
  assumes g: "il_good h a" and j: "j < length (incs_of h a)" and p: "piece x ks c m"
    and v: "map (\<lambda>i. hpIt h ! i) (incs_of h a) = ks @ c # ds" "length ks = j" and d: "distinct (incs_of h a)"
    and e: "(if m = ciCompressFactor c then (drop (Suc j) (incs_of h a), h)
       else let (q, k) = cIt_Clone (incs_of h a ! j) h in (q # drop (Suc j) (incs_of h a), upd_it q (\<lambda>c'. c'\<lparr>ciCompressFactor := ciCompressFactor c - m\<rparr>) k))
       = (sp, h3)"
  shows "map (\<lambda>i. hpIt h3 ! i) sp = cut_goes c ds m" "map (\<lambda>i. hpIt h3 ! i) (take (Suc j) (incs_of h a)) = ks @ [c]"
    "\<forall>i \<in> set sp. i < length (hpIt h3)" "\<forall>i \<in> set (incs_of h a). i < length (hpIt h3)" "distinct sp"
    "\<forall>i \<in> set sp. i \<in> set (incs_of h a) \<or> length (hpIt h) \<le> i" "hpIl h3 = hpIl h" "\<forall>b. kept h h3 b" "length (hpIt h) \<le> length (hpIt h3)"
proof -
  let ?is = "incs_of h a"
  have lt: "\<forall>i \<in> set ?is. i < length (hpIt h)" using g by (simp add: il_good_def ptr_ok_def)
  have c: "hpIt h ! (?is ! j) = c" using arg_cong [OF v(1), of "\<lambda>l. l ! j"] j v(2) by (simp add: nth_append)
  have tk: "map (\<lambda>i. hpIt h ! i) (take (Suc j) ?is) = ks @ [c]" "map (\<lambda>i. hpIt h ! i) (drop (Suc j) ?is) = ds"
    using v by (simp_all flip: take_map drop_map)
  have e3: "hpIt h3 = (if m = ciCompressFactor c then hpIt h else hpIt h @ [c\<lparr>ciCompressFactor := ciCompressFactor c - m\<rparr>])"
     "sp = (if m = ciCompressFactor c then drop (Suc j) ?is else length (hpIt h) # drop (Suc j) ?is)" "hpIl h3 = hpIl h"
    using e c by (auto simp: cIt_Clone_def upd_it_def split: if_splits)
  have nth: "hpIt h3 ! i = hpIt h ! i" if "i \<in> set ?is" for i using lt that by (simp add: e3 nth_append)
  show "hpIl h3 = hpIl h" by (rule e3)
  show "length (hpIt h) \<le> length (hpIt h3)" by (simp add: e3)
  have "map (\<lambda>i. hpIt h3 ! i) (drop (Suc j) ?is) = ds" using nth by (simp flip: tk(2)) (auto dest: in_set_dropD)
  then show "map (\<lambda>i. hpIt h3 ! i) sp = cut_goes c ds m" by (cases "m = ciCompressFactor c") (simp_all add: cut_goes_def e3(1,2))
  show "map (\<lambda>i. hpIt h3 ! i) (take (Suc j) ?is) = ks @ [c]" using nth by (simp flip: tk(1)) (auto dest: in_set_takeD)
  show "\<forall>i \<in> set ?is. i < length (hpIt h3)" using lt by (auto simp: e3)
  then show "\<forall>i \<in> set sp. i < length (hpIt h3)" by (auto simp: e3 dest: in_set_dropD)
  show "distinct sp" using d lt by (auto simp: e3(2) dest: in_set_dropD)
  show "\<forall>i \<in> set sp. i \<in> set ?is \<or> length (hpIt h) \<le> i" by (auto simp: e3(2) dest: in_set_dropD)
  show "\<forall>b. kept h h3 b" using kept_more [of h3 h "[]" "if m = ciCompressFactor c then [] else [c\<lparr>ciCompressFactor := ciCompressFactor c - m\<rparr>]"]
    by (simp add: e3)
qed

lemma last_piece:
  assumes g: "il_good h a" and v: "fview h a = (r, l, cs)" and x: "0 < x" "x \<le> its_usage cs"
  obtains j ks c ds n where "last_increment h x (incs_of h a) 0 0 = Some (j, its_usage (ks @ [c]))" and "cs = ks @ c # ds" and "length ks = j"
    and "j < length (incs_of h a)" and "hpIt h ! (incs_of h a ! j) = c" and "ciCompressFactor c \<noteq> 0"
    and "piece x ks c (if n = 0 then ciCompressFactor c else n)" and "its_usage ks < x"
    and "ciCompressFactor c \<noteq> 1 \<and> x \<noteq> its_usage (ks @ [c]) \<longleftrightarrow> n \<noteq> 0"
    and "n = (if ciCompressFactor c \<noteq> 1 \<and> x \<noteq> its_usage (ks @ [c])
       then first_count (ciCompressFactor c) (\<lambda>d. x \<le> wrap64 (wrap64 (its_usage (ks @ [c]) - cIt_TotalUsage c) + ciUsage c * d)) else 0)"
proof -
  let ?f = "\<lambda>i. hpIt h ! i" and ?is = "incs_of h a"
  have cs: "map ?f ?is = cs" using v by (simp add: fview_def Let_def)
  have nn: "list_all (\<lambda>c. 0 \<le> ciUsage c \<and> 0 \<le> ciCompressFactor c) cs" "its_usage cs < 2 ^ 63" using g v by (simp_all add: il_good_def)
  obtain j where j: "j < length ?is" "last_increment h x ?is 0 0 = Some (0 + j, 0 + its_usage (map ?f (take (Suc j) ?is)))"
      "0 + its_usage (map ?f (take j ?is)) < x" "x \<le> 0 + its_usage (map ?f (take (Suc j) ?is))"
    using last_increment_eq [of h ?is 0 x 0] nn x by (auto simp: cs)
  let ?ks = "map ?f (take j ?is)" and ?c = "?f (?is ! j)" and ?ds = "map ?f (drop (Suc j) ?is)"
  have "map ?f ?is = map ?f (take j ?is @ ?is ! j # drop (Suc j) ?is)" using id_take_nth_drop [OF j(1)] by (rule arg_cong)
  then have e: "cs = ?ks @ ?c # ?ds" by (simp only: cs map_append list.map)
  have tk: "map ?f (take (Suc j) ?is) = ?ks @ [?c]" using j(1) by (simp add: take_Suc_conv_app_nth)
  have lt: "its_usage ?ks < x" "x \<le> its_usage (?ks @ [?c])" using j(3,4) by (simp_all add: tk)
  have n2: "0 \<le> ciUsage ?c" "0 \<le> ciCompressFactor ?c" "0 \<le> its_usage ?ks" "its_usage (?ks @ [?c]) < 2 ^ 63"
  proof -
    have "list_all (\<lambda>c. 0 \<le> ciUsage c \<and> 0 \<le> ciCompressFactor c) (?ks @ ?c # ?ds)" using nn(1) e by simp
    then show "0 \<le> ciUsage ?c" "0 \<le> ciCompressFactor ?c" "0 \<le> its_usage ?ks" by (simp_all add: its_usage_nonneg)
    have "0 \<le> its_usage ?ds" using \<open>list_all _ (?ks @ ?c # ?ds)\<close> by (intro its_usage_nonneg) simp
    moreover have "its_usage cs = its_usage ?ks + (ciUsage ?c * ciCompressFactor ?c + its_usage ?ds)" using arg_cong [OF e, of its_usage] by simp
    ultimately show "its_usage (?ks @ [?c]) < 2 ^ 63" using nn(2) by simp
  qed
  have c0: "ciCompressFactor ?c \<noteq> 0" using lt by auto
  then have c1: "1 \<le> ciCompressFactor ?c" using n2(2) by simp
  have u1: "its_usage (?ks @ [?c]) = its_usage ?ks + ciUsage ?c * ciCompressFactor ?c" by simp
  note L = last_count [OF n2(3,1) n2(4)[unfolded u1] c1 lt(1) lt(2)[unfolded u1] refl, folded u1]
  show ?thesis
    by (rule that [OF _ e _ j(1) refl c0 L(1) lt(1) L(2) refl]) (use j tk in auto)
qed

definition refs_in :: "(string \<Rightarrow> bool) \<Rightarrow> (string \<Rightarrow> bool) \<Rightarrow> ec_heap \<Rightarrow> nat list \<Rightarrow> bool" where
  "refs_in R A h as \<longleftrightarrow> list_all (v_refs R A) (map (fview h) as)"

text \<open>The part of the split that moves increments, from the place \<open>last_piece\<close> finds.\<close>

text \<open>The interval \<open>a\<close> stays with its increments \<open>is\<close>, of the values \<open>cs\<close>, and the last of them is one of the surplus too.\<close>

definition shares :: "ec_heap \<Rightarrow> nat \<Rightarrow> nat list \<Rightarrow> ChargingIncrement list \<Rightarrow> nat list \<Rightarrow> nat list \<Rightarrow> bool" where
  "shares h a is cs as srplus \<longleftrightarrow> a \<in> set as \<and> incs_of h a = is \<and> snd (snd (fview h a)) = cs \<and> List.last is \<in> set (concat (map (incs_of h) srplus))"

lemma split_inside:
  assumes g: "il_good h a" and gs: "all_good h (ps @ srplus)" and v: "fview h a = (r, l, ks @ c # ds)" and l: "1 \<le> l"
    and j: "length ks = j" "j < length (incs_of h a)" and pc: "piece x ks c m" and m: "m = (if n = 0 then ciCompressFactor c else n)"
    and d: "distinct (ps @ a # srplus)" "distinct (concat (map (incs_of h) (a # srplus)))" and ec: "ecUsage ec = None" "ecCost ec = None"
    and rf: "refs_in R A h (a # srplus)"
    and e: "(if m = ciCompressFactor c then (drop (Suc j) (incs_of h a), h)
       else let (q, k) = cIt_Clone (incs_of h a ! j) h in (q # drop (Suc j) (incs_of h a), upd_it q (\<lambda>c'. c'\<lparr>ciCompressFactor := ciCompressFactor c - m\<rparr>) k))
       = (sp, h3)"
  shows "\<exists>s new h'. move_surplus a (take (Suc j) (incs_of h a)) sp n srplus ec h3 = (s # srplus, ec\<lparr>ecCharges := ecCharges ec @ new\<rparr>, h') \<and>
     parted h' (ps @ a # new) (s # srplus) \<and> units_at h' (ps @ a # new) = units_at h ps @ concat (map v_units (cut_stays r l ks c ds m)) \<and>
     units_at h' (s # srplus) = v_units (r, 1, cut_goes c ds m) @ units_at h srplus \<and> refs_in R A h' (s # srplus) \<and>
     (1 < l \<and> ds \<noteq> [] \<longrightarrow> shares h' a (incs_of h a) (ks @ c # ds) (ps @ a # new) (s # srplus))"
proof -
  have vm: "map (\<lambda>i. hpIt h ! i) (incs_of h a) = ks @ c # ds" using v by (simp add: fview_def Let_def)
  have da: "distinct (incs_of h a)" using d(2) by simp
  note su = surplus_increments [OF g j(2) pc vm j(1) da e]
  have ka: "il_good h3 a" "fview h3 a = (r, l, ks @ c # ds)" "incs_of h3 a = incs_of h a" using kept_D [of h h3 a] su(8) g v by auto
  have its: "\<forall>i \<in> set (take (Suc j) (incs_of h a)). i < length (hpIt h3)" using su(4) by (auto dest: in_set_takeD)
  obtain s new h' where M: "move_surplus a (take (Suc j) (incs_of h a)) sp n srplus ec h3 = (s # srplus, ec\<lparr>ecCharges := ecCharges ec @ new\<rparr>, h')"
      "map (fview h') (a # new) = cut_stays r l ks c ds m" "fview h' s = (r, 1, map (\<lambda>i. hpIt h3 ! i) sp)" "incs_of h' s = sp"
      "ptr_ok h' s" "\<forall>b \<in> set (a # new). ptr_ok h' b" "distinct (a # s # new)" "\<forall>b \<in> set (s # new). length (hpIl h3) \<le> b"
      "\<forall>x. x \<noteq> a \<longrightarrow> kept h3 h' x" "1 < l \<longrightarrow> incs_of h' a = incs_of h3 a"
    using move_surplus_eq [OF ka(1,2) l its su(2,3) ec m, of srplus] by blast
  have vg: "v_good (r, l, ks @ c # ds)" using g v by (simp add: il_good_def)
  have k: "\<forall>x. x \<noteq> a \<longrightarrow> kept h h' x" using su(8) M(9) by (blast intro: kept_trans)
  have fs: "fview h' s = (r, 1, cut_goes c ds m)" using M(3) su(1) by simp
  have "list_all v_good (map (fview h') (a # new))" unfolding M(2) using vg l pc by (rule cut_good)
  then have snd': "\<forall>b \<in> set (a # s # new). sound h' b" using M(5,6) fs cut_good(2) [OF vg l pc] by (auto simp: sound_def list_all_iff)
  have sd: "\<forall>b \<in> set (ps @ srplus). sound h b" using gs by (auto simp: all_good_def good_sound)
  note S = surplus_parted [OF good_sound [OF g] sd d M(7) M(8)[unfolded su(7)] k snd' M(4) su(5,6)]
  have "units_at h' (ps @ a # new) = units_at h ps @ concat (map v_units (cut_stays r l ks c ds m))"
    by (simp only: map_append S(2) M(2) concat_append)
  moreover have "units_at h' (s # srplus) = v_units (r, 1, cut_goes c ds m) @ units_at h srplus"
    by (simp only: list.map concat.simps S(3) fs)
  moreover have "refs_in R A h' (s # srplus)" using rf v refs_goes [of R A r l ks c ds m] unfolding refs_in_def list.map S(3) fs by simp
  moreover have "shares h' a (incs_of h a) (ks @ c # ds) (ps @ a # new) (s # srplus)" if "1 < l" "ds \<noteq> []"
  proof -
    have "drop (Suc j) (incs_of h a) \<noteq> []" using that(2) arg_cong [OF vm, of length] j by simp
    then have "List.last (incs_of h a) \<in> set (drop (Suc j) (incs_of h a))" by (metis last_drop last_in_set drop_eq_Nil not_le)
    moreover have "set (drop (Suc j) (incs_of h a)) \<subseteq> set sp" using e by (auto simp: cIt_Clone_def split: if_splits)
    ultimately have "List.last (incs_of h a) \<in> set (incs_of h' s)" using M(4) by auto
    moreover have "snd (snd (fview h' a)) = ks @ c # ds" using M(2) that(1) by (simp add: cut_stays_def)
    ultimately show ?thesis using M(10) ka(3) that(1) by (simp add: shares_def)
  qed
  ultimately show ?thesis using M(1) S(1) by blast
qed

lemma usage_units_at: "all_good h as \<Longrightarrow> usage_sum (units_at h as) = total_of h as"
  unfolding total_of_def by (intro usage_vs) (auto simp: all_good_def il_good_def list_all_iff)

lemma warm_parted:
  assumes "warm h h'" and "all_good h (as @ bs)" and "distinct as" and "distinct bs" and "distinct (concat (map (incs_of h) bs))"
  shows "parted h' as bs"
proof -
  have a: "all_good h as" "all_good h bs" using assms(2) by simp_all
  show ?thesis
    using warm_all(1) [OF assms(1) a(1)] warm_all(1) [OF assms(1) a(2)] assms(3-5) unfolding parted_def warm_all(3) [OF assms(1) a(2)]
    by (auto simp: all_good_def good_sound)
qed

lemma warm_values:
  assumes "warm h h'" and "all_good h as"
  shows "units_at h' as = units_at h as" "refs_in R A h' as = refs_in R A h as"
  by (simp_all only: warm_all(2) [OF assms] refs_in_def)

lemma split_step:
  assumes "GetUsage ec h = (u, ec1, h1)" and "x \<noteq> u" and "cIl_Usage a h1 = (iu, h2)" and "wrap64 (x - wrap64 (u - iu)) = rest"
    and "last_increment h2 rest (incs_of h2 a) 0 0 = Some (j, t)" and "hpIt h2 ! (incs_of h2 a ! j) = c" and "ciCompressFactor c \<noteq> 0"
    and q: "ciCompressFactor c \<noteq> 1 \<and> rest \<noteq> t \<longleftrightarrow> n \<noteq> 0"
    and n: "n = (if ciCompressFactor c \<noteq> 1 \<and> rest \<noteq> t
        then first_count (ciCompressFactor c) (\<lambda>d. rest \<le> wrap64 (wrap64 (t - cIt_TotalUsage c) + ciUsage c * d)) else 0)"
    and m: "m = (if n = 0 then ciCompressFactor c else n)"
    and e: "(if m = ciCompressFactor c then (drop (Suc j) (incs_of h2 a), h2)
       else let (q, k) = cIt_Clone (incs_of h2 a ! j) h2 in (q # drop (Suc j) (incs_of h2 a), upd_it q (\<lambda>c'. c'\<lparr>ciCompressFactor := ciCompressFactor c - m\<rparr>) k))
       = (sp, h3)"
  shows "trim_increments a x srplus ec h =
     (if sp = [] then (Inr (srplus, rest), ec1, h3)
      else let (srplus', ec2, h4) = move_surplus a (take (Suc j) (incs_of h2 a)) sp n srplus (ec1\<lparr>ecUsage := None, ecCost := None\<rparr>) h3
           in (Inr (srplus', rest), ec2, h4))"
proof -
  have b: "ciCompressFactor c \<noteq> 1 \<and> rest \<noteq> t \<and> n \<noteq> ciCompressFactor c \<longleftrightarrow> m \<noteq> ciCompressFactor c" using q by (auto simp: m)
  have e': "(if m \<noteq> ciCompressFactor c then let (q, k) = cIt_Clone (incs_of h2 a ! j) h2
       in (q # drop (Suc j) (incs_of h2 a), upd_it q (\<lambda>c'. c'\<lparr>ciCompressFactor := ciCompressFactor c - n\<rparr>) k)
       else (drop (Suc j) (incs_of h2 a), h2)) = (sp, h3)"
    using e by (auto simp: m split: if_splits)
  have f: "\<not> (ciCompressFactor c \<noteq> 1 \<and> rest \<noteq> t \<and> n = 0)" using q by auto
  show ?thesis unfolding trim_increments_def assms(1) assms(3) prod.case Let_def assms(4,5) option.case assms(6) n [symmetric]
      b e' [unfolded Let_def] if_not_P [OF assms(2)] if_not_P [OF assms(7)] if_not_P [OF f] ..
qed

text \<open>The outcome of the cut at the usage \<open>x\<close> of the charges \<open>as @ srplus\<close>.\<close>

definition cut_ok :: "(string \<Rightarrow> bool) \<Rightarrow> (string \<Rightarrow> bool) \<Rightarrow> duration \<Rightarrow> (duration \<times> float64) list \<Rightarrow> ec_heap \<Rightarrow> nat list \<Rightarrow> nat list \<Rightarrow> bool" where
  "cut_ok R A x us h as srplus \<longleftrightarrow>
     parted h as srplus \<and> units_at h as @ units_at h srplus = us \<and> reaches x (units_at h as) \<and> refs_in R A h srplus"

lemma split_finish:
  assumes g: "il_good h a" and gs: "all_good h (ps @ srplus)" and v: "fview h a = (r, l, ks @ c # ds)" and l: "1 \<le> l"
    and j: "length ks = j" "j < length (incs_of h a)" and pc: "piece y ks c m" and m: "m = (if n = 0 then ciCompressFactor c else n)"
    and d: "distinct (ps @ a # srplus)" "distinct (concat (map (incs_of h) (a # srplus)))" and ec: "ecCharges ec = ps @ [a]" "ecCost ec = None"
    and rf: "refs_in R A h (a # srplus)" and x: "usage_sum (units_at h ps) + (l - 1) * its_usage (ks @ c # ds) + y = x"
    and e: "(if m = ciCompressFactor c then (drop (Suc j) (incs_of h a), h)
       else let (q, k) = cIt_Clone (incs_of h a ! j) h in (q # drop (Suc j) (incs_of h a), upd_it q (\<lambda>c'. c'\<lparr>ciCompressFactor := ciCompressFactor c - m\<rparr>) k))
       = (sp, h3)"
  shows "\<exists>srplus' as w h'. (if sp = [] then (Inr (srplus, y), ec\<lparr>ecUsage := u\<rparr>, h3)
      else let (srplus', ec2, h4) = move_surplus a (take (Suc j) (incs_of h a)) sp n srplus (ec\<lparr>ecUsage := u, ecUsage := None, ecCost := None\<rparr>) h3
           in (Inr (srplus', y), ec2, h4)) = (Inr (srplus', y) :: error + nat list \<times> duration, ec\<lparr>ecCharges := as, ecUsage := w\<rparr>, h') \<and>
     cut_ok R A x (units_at h (ps @ a # srplus)) h' as srplus' \<and>
     (1 < l \<and> ds \<noteq> [] \<longrightarrow> shares h' a (incs_of h a) (ks @ c # ds) as srplus')"
proof -
  have vg: "v_good (r, l, ks @ c # ds)" using g v by (simp add: il_good_def)
  note re = cut_reaches [OF vg l pc x] and un = cut_units [OF l pc, of r ds]
  have va: "units_at h (ps @ a # srplus) = units_at h ps @ v_units (r, l, ks @ c # ds) @ units_at h srplus" by (simp add: v)
  show ?thesis
  proof (cases "sp = []")
    case True
    have vm: "map (\<lambda>i. hpIt h ! i) (incs_of h a) = ks @ c # ds" using v by (simp add: fview_def Let_def)
    have "h3 = h" and cg: "cut_goes c ds m = []"
      using surplus_increments(1) [OF g j(2) pc vm j(1) _ e] d(2) True e by (auto simp: cIt_Clone_def split: if_splits)
    then have ds: "ds = []" by (simp add: cut_goes_def split: if_splits)
    note \<open>h3 = h\<close> cg
    moreover have "parted h (ps @ [a]) srplus" using d g gs by (intro warm_parted [OF warm_refl]) auto
    moreover have "refs_in R A h srplus" using rf by (simp add: refs_in_def)
    ultimately have "cut_ok R A x (units_at h (ps @ a # srplus)) h3 (ps @ [a]) srplus" using re un by (simp add: cut_ok_def v)
    then show ?thesis using True ec ds by (intro exI [of _ srplus] exI [of _ "ps @ [a]"] exI [of _ u] exI [of _ h3]) (cases ec, simp)
  next
    case False
    let ?ec = "ec\<lparr>ecUsage := u, ecUsage := None, ecCost := None\<rparr>"
    obtain s new h' where S: "move_surplus a (take (Suc j) (incs_of h a)) sp n srplus ?ec h3 = (s # srplus, ?ec\<lparr>ecCharges := ecCharges ?ec @ new\<rparr>, h')"
       "parted h' (ps @ a # new) (s # srplus)" "units_at h' (ps @ a # new) = units_at h ps @ concat (map v_units (cut_stays r l ks c ds m))"
       "units_at h' (s # srplus) = v_units (r, 1, cut_goes c ds m) @ units_at h srplus" "refs_in R A h' (s # srplus)"
       "1 < l \<and> ds \<noteq> [] \<longrightarrow> shares h' a (incs_of h a) (ks @ c # ds) (ps @ a # new) (s # srplus)"
      using split_inside [OF g gs v l j pc m d, of ?ec, OF _ _ rf e] by auto
    have "cut_ok R A x (units_at h (ps @ a # srplus)) h' (ps @ a # new) (s # srplus)"
      unfolding cut_ok_def va S(3,4) using S(2,5) re un by (metis append.assoc)
    then show ?thesis using False S(1,6) ec
      by (intro exI [of _ "s # srplus"] exI [of _ "ps @ a # new"] exI [of _ None] exI [of _ h']) (cases ec, simp)
  qed
qed

lemma split_in_increments:
  assumes c: "ecCharges ec = ps @ [a]" "ecCost ec = None" "GetUsage ec h = (u, ec\<lparr>ecUsage := Some u\<rparr>, h1)" and g: "all_good h1 (ps @ a # srplus)"
    and v: "fview h1 a = (r, l, cs)" and l: "1 \<le> l" and u: "u = total_of h1 ps + l * its_usage cs" "u < 2 ^ 63"
    and x: "total_of h1 ps + (l - 1) * its_usage cs < x" "x < u"
    and d: "distinct (ps @ a # srplus)" "distinct (concat (map (incs_of h1) (a # srplus)))" and rf: "refs_in R A h1 (a # srplus)"
  shows "\<exists>srplus' rest as w h'. trim_increments a x srplus ec h = (Inr (srplus', rest), ec\<lparr>ecCharges := as, ecUsage := w\<rparr>, h') \<and> 0 < rest \<and> rest \<le> x \<and>
     cut_ok R A x (units_at h1 (ps @ a # srplus)) h' as srplus' \<and>
     (1 < l \<and> x \<le> total_of h1 ps + (l - 1) * its_usage cs + its_usage (butlast cs) \<longrightarrow> shares h' a (incs_of h1 a) cs as srplus')"
proof -
  let ?u = "its_usage cs" and ?x = "x - u + its_usage cs"
  define k where "k = upd_il a (\<lambda>c. c\<lparr>ilusage := Some (its_usage cs)\<rparr>) h1"
  have gv: "il_good h1 a" "v_good (r, l, cs)" "all_good h1 ps" "all_good h1 (a # srplus)" using g v by (auto simp: il_good_def)
  have nn: "0 \<le> ?u" "0 \<le> total_of h1 ps" using gv by (auto simp: total_of_nonneg intro: its_usage_nonneg)
  have w: "warm h1 k" using warm_usage [OF gv(1)] v by (simp add: k_def)
  have ga: "il_good k a" "fview k a = (r, l, cs)" "all_good k (ps @ srplus)" using warm_all(1,2) [OF w g] v by simp_all
  have da: "distinct (concat (map (incs_of k) (a # srplus)))" "refs_in R A k (a # srplus)"
    unfolding warm_all(3) [OF w gv(4)] warm_values [OF w gv(4)] by (rule d, rule rf)
  have iu: "cIl_Usage a h1 = (?u, k)" using cIl_Usage_eq [OF gv(1)] v by (simp add: k_def)
  have "0 \<le> (l - 1) * ?u" using l nn(1) by simp
  then have ux: "?u \<le> u" using u nn(2) by (simp add: algebra_simps)
  have x': "0 < ?x" "?x \<le> ?u" "?x \<le> x" using x u ux by (simp_all add: algebra_simps)
  have W: "wrap64 (x - wrap64 (u - ?u)) = ?x" using x' ux x(2) u(2) nn(1) by (simp add: int64_range algebra_simps)
  obtain j ks c' ds n where L: "last_increment k ?x (incs_of k a) 0 0 = Some (j, its_usage (ks @ [c']))" "cs = ks @ c' # ds" "length ks = j"
      "j < length (incs_of k a)" "hpIt k ! (incs_of k a ! j) = c'" "ciCompressFactor c' \<noteq> 0" "piece ?x ks c' (if n = 0 then ciCompressFactor c' else n)" "its_usage ks < ?x"
    and n: "ciCompressFactor c' \<noteq> 1 \<and> ?x \<noteq> its_usage (ks @ [c']) \<longleftrightarrow> n \<noteq> 0"
      "n = (if ciCompressFactor c' \<noteq> 1 \<and> ?x \<noteq> its_usage (ks @ [c'])
        then first_count (ciCompressFactor c') (\<lambda>d. ?x \<le> wrap64 (wrap64 (its_usage (ks @ [c']) - cIt_TotalUsage c') + ciUsage c' * d)) else 0)"
    by (rule last_piece [OF ga(1,2) x'(1,2)])
  define m where "m = (if n = 0 then ciCompressFactor c' else n)"
  obtain sp h3 where e: "(if m = ciCompressFactor c' then (drop (Suc j) (incs_of k a), k)
       else let (q, k') = cIt_Clone (incs_of k a ! j) k in (q # drop (Suc j) (incs_of k a), upd_it q (\<lambda>c''. c''\<lparr>ciCompressFactor := ciCompressFactor c' - m\<rparr>) k'))
       = (sp, h3)" by fastforce
  have xu: "x \<noteq> u" using x(2) by simp
  note step = split_step [OF c(3) xu iu W L(1,5,6) n m_def e, of srplus]
  have usg: "usage_sum (units_at k ps) + (l - 1) * its_usage (ks @ c' # ds) + ?x = x"
    unfolding warm_values(1) [OF w gv(3)] usage_units_at [OF gv(3)] L(2) [symmetric] u(1) by (simp add: algebra_simps)
  note F = split_finish [OF ga(1,3) ga(2) [unfolded L(2)] l L(3,4) L(7) [folded m_def] m_def d(1) da(1) c(1,2) da(2) usg e, of "Some u"]
  have ds: "ds \<noteq> []" if "x \<le> total_of h1 ps + (l - 1) * ?u + its_usage (butlast cs)"
    using that L(8) L(2) unfolding u(1) by (auto simp: algebra_simps)
  have ik: "incs_of k a = incs_of h1 a" using kept_D [of h1 k a] w gv(1) by (simp add: warm_def)
  show ?thesis unfolding step ik using F [unfolded warm_values(1) [OF w g] ik, folded L(2)] x'(1,3) ds by blast
qed

lemma trim_increments_eq:
  assumes c: "ecCharges ec = ps @ [a]" "ecUsage ec = None" "ecCost ec = None" and g: "all_good h (ps @ a # srplus)" and v: "fview h a = (r, l, cs)"
    and l: "1 \<le> l" and t: "total_of h (ps @ [a]) < 2 ^ 63" and x: "cut_in (total_of h ps) (its_usage cs) x l" "0 < x"
    and d: "distinct (ps @ a # srplus)" "distinct (concat (map (incs_of h) (a # srplus)))" and rf: "refs_in R A h (a # srplus)"
  shows "\<exists>srplus' rest as w h'. trim_increments a x srplus ec h = (Inr (srplus', rest), ec\<lparr>ecCharges := as, ecUsage := w\<rparr>, h') \<and> 0 < rest \<and> rest \<le> x \<and>
     cut_ok R A x (units_at h (ps @ a # srplus)) h' as srplus' \<and>
     (1 < l \<and> x \<le> total_of h ps + (l - 1) * its_usage cs + its_usage (butlast cs) \<and> x < total_of h (ps @ [a]) \<longrightarrow>
        shares h' a (incs_of h a) cs as srplus')"
proof -
  let ?U = "total_of h (ps @ [a])"
  have g': "all_good h (ps @ [a])" "all_good h ((ps @ [a]) @ srplus)" "all_good h ps" "all_good h srplus" "all_good h [a]" "all_good h (a # srplus)"
    using g by simp_all
  obtain k where k: "GetUsage ec h = (?U, ec\<lparr>ecUsage := Some ?U\<rparr>, k)" "warm h k" using GetUsage_eq [of h ec] c g'(1) t by auto
  note wv = warm_values [OF k(2)]
  show ?thesis
  proof (cases "x = ?U")
    case True
    have "parted k (ps @ [a]) srplus" using k(2) g'(2) d by (intro warm_parted) auto
    moreover have "refs_in R A k srplus" unfolding wv(2) [OF g'(4)] using rf by (simp add: refs_in_def)
    moreover have "reaches x (units_at k (ps @ [a]))" unfolding wv(1) [OF g'(1)] reaches_def usage_units_at [OF g'(1)] using True by simp
    moreover have "units_at k (ps @ [a]) @ units_at k srplus = units_at h (ps @ a # srplus)"
      unfolding wv(1) [OF g'(1)] wv(1) [OF g'(4)] by simp
    ultimately have "cut_ok R A x (units_at h (ps @ a # srplus)) k (ps @ [a]) srplus" unfolding cut_ok_def by blast
    moreover have "trim_increments a x srplus ec h = (Inr (srplus, x), ec\<lparr>ecCharges := ps @ [a], ecUsage := Some ?U\<rparr>, k)"
      using c(1) k(1) True by (cases ec) (simp add: trim_increments_def)
    ultimately show ?thesis using True x(2)
      by (intro exI [of _ srplus] exI [of _ x] exI [of _ "ps @ [a]"] exI [of _ "Some ?U"] exI [of _ k]) blast
  next
    case False
    have va: "fview k a = (r, l, cs)" "total_of k ps = total_of h ps" using warm_all(2) [OF k(2) g'(5)] warm_all(4) [OF k(2) g'(3)] v by simp_all
    have U: "?U = total_of k ps + l * its_usage cs" using v va(2) by simp
    have lt: "total_of k ps + (l - 1) * its_usage cs < x" "x < ?U" using x(1) False U by (auto simp: cut_in_def mult.commute va(2))
    have k': "distinct (concat (map (incs_of k) (a # srplus)))" "refs_in R A k (a # srplus)"
      unfolding warm_all(3) [OF k(2) g'(6)] wv(2) [OF g'(6)] by (rule d, rule rf)
    have ik: "incs_of k a = incs_of h a" using kept_D [of h k a] k(2) g'(5) by (simp add: warm_def)
    show ?thesis
      using split_in_increments [OF c(1,3) k(1) warm_all(1) [OF k(2) g] va(1) l U t lt d(1) k'] unfolding wv(1) [OF g] va(2) ik by blast
  qed
qed

end
