(* ===== verification/Trim_Laws.thy ===== *)
theory Trim_Laws
  imports Trim_Steps
begin

text \<open>
  \<^verbatim>\<open>Trim\<close> as a whole: the counters are reset, the surplus gets table entries of its own, and the units are parted at the
  first point that reaches the usage; and what goes wrong where intervals share their increments.
\<close>

subsection \<open>The counters\<close>

lemma reset_one:
  assumes "sound h a"
  shows "kept h (reset_il a h) b" "il_good (reset_il a h) a"
proof -
  have a: "a < length (hpIl h)" using assms by (simp add: sound_def ptr_ok_def)
  then have r: "ptr_ok (reset_il a h) a = ptr_ok h a" "incs_of (reset_il a h) a = incs_of h a" "cache_ok (reset_il a h) a"
    by (simp_all add: reset_il_def ptr_ok_def cache_ok_def)
  then show g: "il_good (reset_il a h) a" using assms a by (simp add: sound_def il_good_def)
  show "kept h (reset_il a h) b"
  proof (cases "b = a")
    case True
    then show ?thesis using r g a by (simp add: kept_def)
  next
    case False
    then show ?thesis unfolding reset_il_def by (rule kept_upd_il)
  qed
qed

lemma reset_all:
  assumes "\<forall>a \<in> set as. sound h a"
  shows "\<forall>b. kept h (fold reset_il as h) b" "all_good (fold reset_il as h) as"
proof -
  have "(\<forall>b. kept h (fold reset_il as h) b) \<and> all_good (fold reset_il as h) as" using assms
  proof (induction as arbitrary: h)
    case (Cons a as)
    have k: "kept h (reset_il a h) b" for b using reset_one(1) Cons.prems by simp
    have IH: "(\<forall>b. kept (reset_il a h) (fold reset_il as (reset_il a h)) b) \<and> all_good (fold reset_il as (reset_il a h)) as"
      using Cons.prems kept_sound [OF k] by (intro Cons.IH) auto
    then have "il_good (fold reset_il as (reset_il a h)) a" using reset_one(2) Cons.prems by (auto simp: kept_def)
    with IH k show ?case by (auto intro: kept_trans)
  qed auto
  then show "\<forall>b. kept h (fold reset_il as h) b" "all_good (fold reset_il as h) as" by simp_all
qed

subsection \<open>References between event costs\<close>

definition rating_ok :: "EventCost \<Rightarrow> string \<Rightarrow> bool" where
  "rating_ok ec r \<longleftrightarrow> r = [] \<or> ghas (ecRating ec) r"

primrec resolves :: "nat \<Rightarrow> EventCost \<Rightarrow> string \<Rightarrow> bool" where
  "resolves 0 ec a \<longleftrightarrow> False"
| "resolves (Suc k) ec a \<longleftrightarrow> a = [] \<or> a = META_NONE \<or>
     (case gget (ecAccounting ec) a of None \<Rightarrow> False | Some bc \<Rightarrow> rating_ok ec (bcRatingID bc) \<and> resolves k ec (bcExtraChargeID bc))"

definition accounting_ok :: "EventCost \<Rightarrow> string \<Rightarrow> bool" where
  "accounting_ok ec a \<longleftrightarrow> resolves (Suc (length (ecAccounting ec))) ec a"

lemma same_refs:
  assumes "ecRating e' = ecRating e" and "ecAccounting e' = ecAccounting e"
  shows "rating_ok e' = rating_ok e" "accounting_ok e' = accounting_ok e"
proof -
  have "resolves k e' a = resolves k e a" for k a
    using assms by (induction k arbitrary: a) (auto simp: rating_ok_def split: option.splits)
  then show "rating_ok e' = rating_ok e" "accounting_ok e' = accounting_ok e" using assms by (auto simp: rating_ok_def accounting_ok_def)
qed

text \<open>\<open>same_event\<close>: only the tables changed.\<close>

definition same_event :: "EventCost \<Rightarrow> EventCost \<Rightarrow> bool" where
  "same_event ec ec' \<longleftrightarrow> ecCharges ec' = ecCharges ec \<and> ecStartTime ec' = ecStartTime ec \<and> ecCGRID ec' = ecCGRID ec \<and> ecRunID ec' = ecRunID ec"

lemma same_event_refl [simp]: "same_event ec ec"
  by (simp add: same_event_def)

lemma same_event_trans: "same_event a b \<Longrightarrow> same_event b c \<Longrightarrow> same_event a c"
  by (simp add: same_event_def)

lemma rating_id_returns: "rating_ok oEC r \<Longrightarrow> \<exists>k ec' n'. ratingGetIDFomEventCost gen ec oEC r n = Inr (k, ec', n') \<and> same_event ec ec'"
  by (auto simp: rating_ok_def ratingGetIDFomEventCost_def Let_def same_event_def split: prod.splits)

lemma charge_id_same: "charge_id gen ec bc n = (k, ec', n') \<Longrightarrow> same_event ec ec'"
  by (auto simp: charge_id_def same_event_def split: prod.splits)

lemma accounting_id_returns: "resolves k oEC a \<Longrightarrow> \<exists>i ec' n'. accounting_id k gen oEC ec a n = Inr (i, ec', n') \<and> same_event ec ec'"
proof (induction k arbitrary: ec a n)
  case (Suc k)
  show ?case
  proof (cases "a = [] \<or> a = META_NONE")
    case False
    then obtain bc where bc: "gget (ecAccounting oEC) a = Some bc" "rating_ok oEC (bcRatingID bc)" "resolves k oEC (bcExtraChargeID bc)"
      using Suc.prems by (auto split: option.splits)
    obtain r ec1 n1 where r: "ratingGetIDFomEventCost gen ec oEC (bcRatingID bc) n = Inr (r, ec1, n1)" "same_event ec ec1"
      using rating_id_returns [OF bc(2)] by blast
    obtain x ec2 n2 where x: "accounting_id k gen oEC ec1 (bcExtraChargeID bc) n1 = Inr (x, ec2, n2)" "same_event ec1 ec2"
      using Suc.IH [OF bc(3)] by blast
    obtain i ec3 n3 where i: "charge_id gen ec2 (bc\<lparr>bcRatingID := r, bcExtraChargeID := x\<rparr>) n2 = (i, ec3, n3)" by (metis prod_cases3)
    have "same_event ec ec3" using same_event_trans [OF same_event_trans [OF r(2) x(2)] charge_id_same [OF i]] .
    then show ?thesis using False bc(1) r(1) x(1) i by simp
  qed auto
qed simp

definition same_charges :: "ec_heap \<Rightarrow> ec_heap \<Rightarrow> bool" where
  "same_charges h h' \<longleftrightarrow> length (hpIl h') = length (hpIl h) \<and> length (hpIt h') = length (hpIt h) \<and>
     (\<forall>b. incs_of h' b = incs_of h b \<and> ilCompressFactor (hpIl h' ! b) = ilCompressFactor (hpIl h ! b)) \<and>
     (\<forall>i. ciUsage (hpIt h' ! i) = ciUsage (hpIt h ! i) \<and> ciCost (hpIt h' ! i) = ciCost (hpIt h ! i) \<and>
          ciCompressFactor (hpIt h' ! i) = ciCompressFactor (hpIt h ! i))"

lemma same_charges_refl [simp]: "same_charges h h"
  by (simp add: same_charges_def)

lemma same_charges_trans: "same_charges h h1 \<Longrightarrow> same_charges h1 h2 \<Longrightarrow> same_charges h h2"
  by (simp add: same_charges_def)

lemma field_upd: "(\<And>c. f (g c) = f c) \<Longrightarrow> f (xs[a := g (xs ! a)] ! b) = f (xs ! b)"
  by (cases "b = a"; cases "a < length xs") (simp_all add: list_update_beyond not_less)

lemma same_charges_upd:
  "same_charges h (upd_il a (\<lambda>c. c\<lparr>ilRatingID := r\<rparr>) (h\<lparr>hpUuid := n\<rparr>))" "same_charges h (upd_it i (\<lambda>c. c\<lparr>ciAccountingID := r\<rparr>) (h\<lparr>hpUuid := n\<rparr>))"
  by (simp_all add: same_charges_def upd_il_def upd_it_def field_upd [where g = "\<lambda>c. c\<lparr>ilRatingID := r\<rparr>"]
      field_upd [where g = "\<lambda>c. c\<lparr>ciAccountingID := r\<rparr>"])

lemma same_charges_units: "same_charges h h' \<Longrightarrow> v_units (fview h' b) = v_units (fview h b)"
  by (simp add: same_charges_def fview_def Let_def its_units_def it_units_def comp_def)

lemma close_increments_returns:
  assumes "distinct ps" and "\<forall>p \<in> set ps. p < length (hpIt h) \<and> accounting_ok ec (ciAccountingID (hpIt h ! p))"
  shows "\<exists>sr' h'. close_increments gen ec ps sr h = Inr (sr', h') \<and> same_event sr sr' \<and> same_charges h h' \<and> hpIl h' = hpIl h \<and>
     (\<forall>i. i \<notin> set ps \<longrightarrow> hpIt h' ! i = hpIt h ! i)"
  using assms
proof (induction ps arbitrary: sr h)
  case (Cons p ps)
  have "resolves (Suc (length (ecAccounting ec))) ec (ciAccountingID (hpIt h ! p))" using Cons.prems(2) by (simp add: accounting_ok_def)
  then obtain k sr1 n where k: "accountingGetIDFromEventCost gen sr ec (ciAccountingID (hpIt h ! p)) (hpUuid h) = Inr (k, sr1, n)" "same_event sr sr1"
    unfolding accountingGetIDFromEventCost_def using accounting_id_returns by blast
  let ?h = "upd_it p (\<lambda>c. c\<lparr>ciAccountingID := k\<rparr>) (h\<lparr>hpUuid := n\<rparr>)"
  have nth: "hpIt ?h ! i = hpIt h ! i" if "i \<noteq> p" for i using that by (simp add: upd_it_def)
  have "\<forall>q \<in> set ps. q < length (hpIt ?h) \<and> accounting_ok ec (ciAccountingID (hpIt ?h ! q))"
  proof
    fix q assume "q \<in> set ps"
    moreover from this have "q \<noteq> p" using Cons.prems(1) by auto
    ultimately show "q < length (hpIt ?h) \<and> accounting_ok ec (ciAccountingID (hpIt ?h ! q))" using Cons.prems(2) nth by simp
  qed
  then obtain sr' h' where "close_increments gen ec ps sr1 ?h = Inr (sr', h')" "same_event sr1 sr'" "same_charges ?h h'" "hpIl h' = hpIl ?h"
      "\<forall>i. i \<notin> set ps \<longrightarrow> hpIt h' ! i = hpIt ?h ! i"
    using Cons.IH [of ?h sr1] Cons.prems(1) by auto
  then show ?case using k nth same_charges_trans [OF same_charges_upd(2)] same_event_trans [OF k(2)]
    by (intro exI [of _ sr'] exI [of _ h']) auto
qed simp

lemma close_surplus_returns:
  assumes "distinct as" and "distinct (concat (map (incs_of h) as))" and "\<forall>a \<in> set as. ptr_ok h a" and "refs_in (rating_ok ec) (accounting_ok ec) h as"
  shows "\<exists>sr' h'. close_surplus gen ec as sr h = Inr (sr', h') \<and> same_event sr sr' \<and> same_charges h h'"
  using assms
proof (induction as arbitrary: sr h)
  case (Cons a as)
  have r: "rating_ok ec (ilRatingID (hpIl h ! a))" and al: "a < length (hpIl h)" using Cons.prems by (simp_all add: refs_in_def fview_def Let_def ptr_ok_def)
  obtain k sr1 n where k: "ratingGetIDFomEventCost gen sr ec (ilRatingID (hpIl h ! a)) (hpUuid h) = Inr (k, sr1, n)" "same_event sr sr1"
    using rating_id_returns [OF r] by blast
  let ?h = "upd_il a (\<lambda>c. c\<lparr>ilRatingID := k\<rparr>) (h\<lparr>hpUuid := n\<rparr>)"
  have ia: "incs_of ?h a = incs_of h a" using same_charges_upd(1) by (simp add: same_charges_def)
  have da: "distinct (incs_of h a)" using Cons.prems(2) by simp
  have "\<forall>p \<in> set (incs_of h a). p < length (hpIt ?h) \<and> accounting_ok ec (ciAccountingID (hpIt ?h ! p))"
    using Cons.prems(3,4) by (auto simp: refs_in_def fview_def Let_def ptr_ok_def list_all_iff)
  from close_increments_returns [OF da this, of gen sr1] obtain sr2 h2 where c: "close_increments gen ec (incs_of h a) sr1 ?h = Inr (sr2, h2)" "same_event sr1 sr2" "same_charges ?h h2" "hpIl h2 = hpIl ?h"
      "\<forall>i. i \<notin> set (incs_of h a) \<longrightarrow> hpIt h2 ! i = hpIt ?h ! i"
    by (elim exE conjE)
  have sc: "same_charges h h2" using same_charges_trans [OF same_charges_upd(1) c(3)] .
  have b: "hpIl h2 ! b = hpIl h ! b" "map (\<lambda>i. hpIt h2 ! i) (incs_of h b) = map (\<lambda>i. hpIt h ! i) (incs_of h b)" if "b \<in> set as" for b
  proof -
    have "b \<noteq> a" "set (incs_of h a) \<inter> set (incs_of h b) = {}" using that Cons.prems(1,2) by auto
    then show "hpIl h2 ! b = hpIl h ! b" "map (\<lambda>i. hpIt h2 ! i) (incs_of h b) = map (\<lambda>i. hpIt h ! i) (incs_of h b)"
      using c(4,5) by (auto simp: upd_il_def)
  qed
  have fb: "fview h2 b = fview h b" "ptr_ok h2 b = ptr_ok h b" "incs_of h2 b = incs_of h b" if "b \<in> set as" for b
    using b [OF that] sc by (simp_all add: fview_def Let_def ptr_ok_def same_charges_def)
  have m: "map (fview h2) as = map (fview h) as" "map (incs_of h2) as = map (incs_of h) as" using fb by (auto intro!: map_cong)
  have "distinct (concat (map (incs_of h2) as))" "refs_in (rating_ok ec) (accounting_ok ec) h2 as"
    unfolding m refs_in_def using Cons.prems(2,4) by (simp_all add: refs_in_def)
  then obtain sr' h' where s: "close_surplus gen ec as sr2 h2 = Inr (sr', h')" "same_event sr2 sr'" "same_charges h2 h'"
    using Cons.IH [of h2 sr2] Cons.prems(1,3) fb by auto
  have "close_surplus gen ec (a # as) sr h = Inr (sr', h')" using k(1) c(1) ia s(1) by simp
  moreover have "same_event sr sr'" using same_event_trans [OF same_event_trans [OF k(2) c(2)] s(2)] .
  ultimately show ?case using same_charges_trans [OF sc s(3)] by blast
qed simp

subsection \<open>The ids of the surplus\<close>

text \<open>All accounting ids of an event cost were generated.\<close>

definition generated :: "(nat \<Rightarrow> string) \<Rightarrow> EventCost \<Rightarrow> bool" where
  "generated gen ec \<longleftrightarrow> fst ` set (ecAccounting ec) \<subseteq> range gen"

lemma charge_id_generated:
  assumes "charge_id gen ec bc n = (k, ec', n')" and "generated gen ec"
  shows "generated gen ec' \<and> k \<in> range gen"
proof (cases "find (\<lambda>(k, w). bc_Equals w bc) (ecAccounting ec)")
  case None
  with assms(1) have "k = gen n" "ecAccounting ec' = gset (ecAccounting ec) (gen n) bc"
    by (auto simp: charge_id_def Accounting_GetIDWithSet_def id_with_set_def)
  with assms(2) show ?thesis by (simp add: generated_def)
next
  case (Some kw)
  then have "kw \<in> set (ecAccounting ec)" by (metis (no_types, lifting) find_Some_iff nth_mem)
  then have "fst kw \<in> fst ` set (ecAccounting ec)" by (rule imageI)
  with Some assms show ?thesis
    by (auto simp: charge_id_def Accounting_GetIDWithSet_def id_with_set_def generated_def split: prod.splits)
qed

lemma rating_id_accounting: "ratingGetIDFomEventCost gen ec oEC r n = Inr (k, ec', n') \<Longrightarrow> ecAccounting ec' = ecAccounting ec"
  by (auto simp: ratingGetIDFomEventCost_def Let_def split: if_splits option.splits prod.splits)

lemma accounting_id_generated:
  "accounting_id k gen oEC ec a n = Inr (i, ec', n') \<Longrightarrow> generated gen ec \<Longrightarrow>
     generated gen ec' \<and> (a \<notin> {[], META_NONE} \<longrightarrow> i \<in> range gen)"
proof (induction k arbitrary: ec a n i ec' n')
  case (Suc k)
  show ?case
  proof (cases "a = [] \<or> a = META_NONE")
    case False
    then obtain bc r ec1 n1 x ec2 n2 where
      r: "ratingGetIDFomEventCost gen ec oEC (bcRatingID bc) n = Inr (r, ec1, n1)"
      and x: "accounting_id k gen oEC ec1 (bcExtraChargeID bc) n1 = Inr (x, ec2, n2)"
      and i: "charge_id gen ec2 (bc\<lparr>bcRatingID := r, bcExtraChargeID := x\<rparr>) n2 = (i, ec', n')"
      using Suc.prems(1) by (auto simp: ebind_Inr split: option.splits)
    have "generated gen ec1" using rating_id_accounting [OF r] Suc.prems(2) by (simp add: generated_def)
    then show ?thesis using charge_id_generated [OF i] Suc.IH [OF x] by blast
  qed (use Suc.prems in auto)
qed simp

lemma close_increments_generated:
  assumes "close_increments gen ec ps sr h = Inr (sr', h')" and "generated gen sr" and "distinct ps" and "\<forall>p \<in> set ps. p < length (hpIt h)"
  shows "generated gen sr' \<and> hpIl h' = hpIl h \<and> length (hpIt h') = length (hpIt h) \<and> (\<forall>i. i \<notin> set ps \<longrightarrow> hpIt h' ! i = hpIt h ! i) \<and>
     (\<forall>p \<in> set ps. ciAccountingID (hpIt h ! p) \<notin> {[], META_NONE} \<longrightarrow> ciAccountingID (hpIt h' ! p) \<in> range gen)"
  using assms
proof (induction ps arbitrary: sr h)
  case (Cons p ps)
  obtain k sr1 n where k: "accountingGetIDFromEventCost gen sr ec (ciAccountingID (hpIt h ! p)) (hpUuid h) = Inr (k, sr1, n)"
    and c: "close_increments gen ec ps sr1 (upd_it p (\<lambda>c. c\<lparr>ciAccountingID := k\<rparr>) (h\<lparr>hpUuid := n\<rparr>)) = Inr (sr', h')"
    using Cons.prems(1) by (auto simp: ebind_Inr)
  let ?h = "upd_it p (\<lambda>c. c\<lparr>ciAccountingID := k\<rparr>) (h\<lparr>hpUuid := n\<rparr>)"
  have K: "generated gen sr1" "ciAccountingID (hpIt h ! p) \<notin> {[], META_NONE} \<longrightarrow> k \<in> range gen"
    using accounting_id_generated [OF k [unfolded accountingGetIDFromEventCost_def] Cons.prems(2)] by blast+
  have lt: "\<forall>q \<in> set ps. q < length (hpIt ?h)" "distinct ps" "p \<notin> set ps" "p < length (hpIt h)" using Cons.prems by auto
  note IH = Cons.IH [OF c K(1) lt(2,1)]
  have ne: "hpIt ?h ! q = hpIt h ! q" if "q \<noteq> p" for q using that by (simp add: upd_it_def)
  have "hpIt h' ! p = hpIt ?h ! p" using IH lt(3) by blast
  then have p: "ciAccountingID (hpIt h' ! p) = k" using lt(4) by (simp add: upd_it_def)
  have "ciAccountingID (hpIt h' ! q) \<in> range gen" if "q \<in> set (p # ps)" "ciAccountingID (hpIt h ! q) \<notin> {[], META_NONE}" for q
  proof (cases "q = p")
    case True
    then show ?thesis using that(2) K(2) p by simp
  next
    case False
    then have "q \<in> set ps" "ciAccountingID (hpIt ?h ! q) \<notin> {[], META_NONE}" using that ne by simp_all
    then show ?thesis using IH by blast
  qed
  moreover have "hpIt h' ! i = hpIt h ! i" if "i \<notin> set (p # ps)" for i
  proof -
    have "i \<noteq> p" "i \<notin> set ps" using that by simp_all
    then show ?thesis using IH ne by simp
  qed
  moreover have "hpIl h' = hpIl h" "length (hpIt h') = length (hpIt h)" "generated gen sr'" using IH by (simp_all add: upd_it_def)
  ultimately show ?case by blast
qed simp

lemma close_surplus_generated:
  assumes "close_surplus gen ec as sr h = Inr (sr', h')" and "generated gen sr" and "distinct as"
    and "distinct (concat (map (incs_of h) as))" and "\<forall>a \<in> set as. ptr_ok h a"
  shows "(\<forall>i. i \<notin> set (concat (map (incs_of h) as)) \<longrightarrow> hpIt h' ! i = hpIt h ! i) \<and>
     (\<forall>p \<in> set (concat (map (incs_of h) as)). ciAccountingID (hpIt h ! p) \<notin> {[], META_NONE} \<longrightarrow> ciAccountingID (hpIt h' ! p) \<in> range gen)"
  using assms
proof (induction as arbitrary: sr h)
  case (Cons a as)
  obtain k sr1 n where k: "ratingGetIDFomEventCost gen sr ec (ilRatingID (hpIl h ! a)) (hpUuid h) = Inr (k, sr1, n)"
    using Cons.prems(1) by (auto simp: ebind_Inr)
  let ?h = "upd_il a (\<lambda>c. c\<lparr>ilRatingID := k\<rparr>) (h\<lparr>hpUuid := n\<rparr>)"
  have i: "incs_of ?h b = incs_of h b" "hpIt ?h = hpIt h" for b using same_charges_upd(1) by (simp_all add: same_charges_def upd_il_def)
  obtain sr2 h2 where c: "close_increments gen ec (incs_of h a) sr1 ?h = Inr (sr2, h2)" and s: "close_surplus gen ec as sr2 h2 = Inr (sr', h')"
    using Cons.prems(1) k i by (auto simp: ebind_Inr)
  have g: "generated gen sr1" using rating_id_accounting [OF k] Cons.prems(2) by (simp add: generated_def)
  have da: "distinct (incs_of h a)" "\<forall>p \<in> set (incs_of h a). p < length (hpIt ?h)" using Cons.prems(4,5) by (auto simp: ptr_ok_def i)
  note C = close_increments_generated [OF c g da, unfolded i(2)]
  have i2: "incs_of h2 b = incs_of h b" for b using C i(1) by simp
  have m: "map (incs_of h2) as = map (incs_of h) as" by (simp only: i2)
  have "\<forall>b \<in> set as. ptr_ok h2 b" using Cons.prems(5) C i2 by (auto simp: ptr_ok_def)
  then have IH: "(\<forall>i. i \<notin> set (concat (map (incs_of h) as)) \<longrightarrow> hpIt h' ! i = hpIt h2 ! i) \<and>
     (\<forall>p \<in> set (concat (map (incs_of h) as)). ciAccountingID (hpIt h2 ! p) \<notin> {[], META_NONE} \<longrightarrow> ciAccountingID (hpIt h' ! p) \<in> range gen)"
    using Cons.IH [OF s] C Cons.prems(3,4) unfolding m by simp
  have dj: "p \<notin> set (concat (map (incs_of h) as))" if "p \<in> set (incs_of h a)" for p using Cons.prems(4) that by auto
  have same: "hpIt h' ! p = hpIt h2 ! p" if "p \<in> set (incs_of h a)" for p using IH dj [OF that] by blast
  have rest: "hpIt h2 ! p = hpIt h ! p" if "p \<notin> set (incs_of h a)" for p using C that by blast
  show ?case
  proof (intro conjI allI ballI impI)
    fix i assume "i \<notin> set (concat (map (incs_of h) (a # as)))"
    then have "i \<notin> set (incs_of h a)" "i \<notin> set (concat (map (incs_of h) as))" by simp_all
    then show "hpIt h' ! i = hpIt h ! i" using IH rest by metis
  next
    fix p assume p: "p \<in> set (concat (map (incs_of h) (a # as)))" "ciAccountingID (hpIt h ! p) \<notin> {[], META_NONE}"
    show "ciAccountingID (hpIt h' ! p) \<in> range gen"
    proof (cases "p \<in> set (incs_of h a)")
      case True
      then show ?thesis using C p(2) same by metis
    next
      case False
      then have "p \<in> set (concat (map (incs_of h) as))" "ciAccountingID (hpIt h2 ! p) \<notin> {[], META_NONE}" using p rest by simp_all
      then show ?thesis using IH by blast
    qed
  qed
qed simp

text \<open>Removing stale references adds none.\<close>

lemma stale_accounting_keys: "fst ` set (stale_accounting ch used ks m) \<subseteq> fst ` set m"
proof (induction ks arbitrary: m)
  case (Cons k ks)
  have "fst ` set (gdel m k) \<subseteq> fst ` set m" by simp
  then have "fst ` set (stale_accounting ch used ks (gdel m k)) \<subseteq> fst ` set m" using Cons.IH [of "gdel m k"] by (rule subset_trans [rotated])
  then show ?case using Cons.IH [of m] by simp
qed simp

definition fresh_ids :: "(nat \<Rightarrow> string) \<Rightarrow> EventCost \<Rightarrow> bool" where
  "fresh_ids gen ec \<longleftrightarrow> (\<forall>n. \<not> ghas (ecAccounting ec) (gen n))"

lemma fresh_ids_upd [simp]:
  "fresh_ids gen (ec\<lparr>ecUsage := u\<rparr>) = fresh_ids gen ec" "fresh_ids gen (ec\<lparr>ecCost := c\<rparr>) = fresh_ids gen ec"
  "fresh_ids gen (ec\<lparr>ecCharges := as\<rparr>) = fresh_ids gen ec"
  by (simp_all add: fresh_ids_def)

text \<open>The interval \<open>a\<close> is a charge of the event cost, and its last increment refers to an accounting id that is not in its table.\<close>

definition loses :: "ec_heap \<Rightarrow> EventCost \<Rightarrow> nat \<Rightarrow> bool" where
  "loses h ec a \<longleftrightarrow> a \<in> set (ecCharges ec) \<and> \<not> ghas (ecAccounting ec) (ciAccountingID (hpIt h ! List.last (ilIncrements (hpIl h ! a))))"

lemma close_surplus_loses:
  assumes c: "close_surplus gen ec bs sr h = Inr (sr', h')" "same_charges h h'" and sr: "ecAccounting sr = []"
    and d: "distinct bs" "distinct (concat (map (incs_of h) bs))" "\<forall>b \<in> set bs. ptr_ok h b"
    and sh: "shares h a is cs (ecCharges ec) bs" and "is \<noteq> []" and fresh: "fresh_ids gen ec"
    and id: "ciAccountingID (List.last cs) \<notin> {[], META_NONE}"
  shows "loses h' (RemoveStaleReferences ec h') a"
proof -
  have a: "a \<in> set (ecCharges ec)" "incs_of h a = is" "map (\<lambda>i. hpIt h ! i) is = cs" "List.last is \<in> set (concat (map (incs_of h) bs))"
    using sh by (auto simp: shares_def fview_def Let_def)
  have "hpIt h ! List.last is = List.last cs" using a(3) assms(8) by (auto simp: last_map)
  moreover have "generated gen sr" using sr by (simp add: generated_def)
  ultimately obtain n where n: "ciAccountingID (hpIt h' ! List.last is) = gen n"
    using close_surplus_generated [OF c(1) _ d] a(4) id by (metis imageE)
  have "incs_of h' a = is" using c(2) a(2) by (simp add: same_charges_def)
  moreover have "fst ` set (ecAccounting (RemoveStaleReferences ec h')) \<subseteq> fst ` set (ecAccounting ec)"
    unfolding RemoveStaleReferences_def Let_def by (simp add: stale_accounting_keys)
  then have "gen n \<notin> fst ` set (ecAccounting (RemoveStaleReferences ec h'))" using fresh unfolding fresh_ids_def ghas_iff by blast
  moreover have "ecCharges (RemoveStaleReferences ec h') = ecCharges ec" by (simp add: RemoveStaleReferences_def Let_def)
  ultimately show ?thesis using n a(1) unfolding loses_def ghas_iff by simp
qed

lemma shares_kept:
  assumes "shares h a is cs as bs" and "\<forall>b. kept h h' b" and "\<forall>a \<in> set as. sound h a" and "\<forall>b \<in> set bs. sound h b"
  shows "shares h' a is cs as bs"
proof -
  have "a \<in> set as" using assms(1) by (simp add: shares_def)
  then have e: "incs_of h' a = incs_of h a" "fview h' a = fview h a" using assms(2,3) kept_sound [of h h' a] by blast+
  have k: "\<forall>b \<in> set bs. kept h h' b" using assms(2) by blast
  show ?thesis using assms(1) unfolding shares_def e kept_maps(2) [OF k assms(4)] .
qed

lemma reset_counters_usage:
  assumes "\<forall>a \<in> set (ecCharges ec). sound h a" and "total_of h (ecCharges ec) < 2 ^ 63"
    and "ec1 = fst (ResetCounters ec h)" and "h1 = snd (ResetCounters ec h)"
  shows "\<exists>h2. GetUsage (ec1\<lparr>ecStartTime := s\<rparr>) h1 = (total_of h (ecCharges ec), ec\<lparr>ecCost := None, ecUsage := Some (total_of h (ecCharges ec)), ecStartTime := s\<rparr>, h2) \<and>
     (\<forall>b. kept h h2 b)"
proof -
  have e: "ec1 = ec\<lparr>ecCost := None, ecUsage := None\<rparr>" "h1 = fold reset_il (ecCharges ec) h" using assms(3,4) by (simp_all add: ResetCounters_def)
  note r = reset_all [OF assms(1), folded e(2)]
  have k: "\<forall>a \<in> set (ecCharges ec). kept h h1 a" using r(1) by simp
  have m: "total_of h1 (ecCharges ec) = total_of h (ecCharges ec)" unfolding total_of_def kept_maps(1) [OF k assms(1)] ..
  obtain h2 where "GetUsage (ec1\<lparr>ecStartTime := s\<rparr>) h1 = (total_of h1 (ecCharges ec), ec1\<lparr>ecStartTime := s, ecUsage := Some (total_of h1 (ecCharges ec))\<rparr>, h2)" "warm h1 h2"
    using GetUsage_eq [of h1 "ec1\<lparr>ecStartTime := s\<rparr>"] r(2) assms(2) m by (auto simp: e(1))
  then show ?thesis using r(1) by (intro exI [of _ h2]) (auto simp: m e(1) warm_def intro: kept_trans)
qed

lemma finish_trim_eq:
  assumes c: "cut_ok (rating_ok ec) (accounting_ok ec) x us h (ecCharges ec) (ecCharges sr)" and r: "0 < rest" "rest \<le> x" and u: "usage_sum us = orig" "orig < 2 ^ 63"
  shows "\<exists>sr' ec' h'. finish_trim gen orig rest sr ec h = Inr (Inr (Some sr'), ec', h') \<and>
     units_of h' ec' = units_at h (ecCharges ec) \<and> units_of h' sr' = units_at h (ecCharges sr) \<and>
     ecStartTime sr' = time_Add (ecStartTime ec) (usage_sum (units_at h (ecCharges ec))) \<and>
     (shares h a is cs (ecCharges ec) (ecCharges sr) \<and> is \<noteq> [] \<and> ecAccounting sr = [] \<and> fresh_ids gen ec \<and>
        ciAccountingID (List.last cs) \<notin> {[], META_NONE} \<longrightarrow> loses h' ec' a)"
proof -
  let ?as = "ecCharges ec" and ?bs = "ecCharges sr"
  have p: "\<forall>a \<in> set ?as. sound h a" "\<forall>a \<in> set ?bs. sound h a" "distinct ?bs" "distinct (concat (map (incs_of h) ?bs))"
      "units_at h ?as @ units_at h ?bs = us" "reaches x (units_at h ?as)" "refs_in (rating_ok ec) (accounting_ok ec) h ?bs"
    using c by (simp_all add: cut_ok_def parted_def)
  have tot: "usage_sum (units_at h cs) = total_of h cs \<and> 0 \<le> total_of h cs" if "\<forall>a \<in> set cs. sound h a" for cs
    unfolding total_of_def using that by (intro conjI usage_vs vs_total_nonneg) (auto simp: sound_def list_all_iff)
  have sum: "total_of h ?as + total_of h ?bs = orig" using tot [OF p(1)] tot [OF p(2)] arg_cong [OF p(5), of usage_sum] u(1) by simp
  have nn: "0 \<le> total_of h ?as" "0 \<le> total_of h ?bs" "x \<le> total_of h ?as" using tot [OF p(1)] tot [OF p(2)] p(6) by (auto simp: reaches_def)
  obtain ec1 h1 where 1: "ResetCounters ec h = (ec1, h1)" by fastforce
  obtain h2 where 2: "GetUsage ec1 h1 = (total_of h ?as, ec\<lparr>ecCost := None, ecUsage := Some (total_of h ?as)\<rparr>, h2)" "\<forall>b. kept h h2 b"
    using reset_counters_usage [OF p(1), of ec1 h1 "ecStartTime ec"] 1 sum nn u(2) by (auto simp: ResetCounters_def)
  have k2: "\<forall>a \<in> set ?bs. kept h h2 a" using 2(2) by simp
  note m2 = kept_maps [OF k2 p(2)]
  have t2: "total_of h2 ?bs = total_of h ?bs" unfolding total_of_def m2(1) ..
  obtain sr1 h3 where 3: "ResetCounters sr h2 = (sr1, h3)" by fastforce
  have lt: "total_of h2 ?bs < 2 ^ 63" and e3: "sr1 = fst (ResetCounters sr h2)" "h3 = snd (ResetCounters sr h2)" using 3 sum nn u(2) t2 by simp_all
  let ?s = "time_Add (ecStartTime ec) (total_of h ?as)"
  obtain h4 where 4: "GetUsage (sr1\<lparr>ecStartTime := ?s\<rparr>) h3 = (total_of h ?bs, sr\<lparr>ecCost := None, ecUsage := Some (total_of h ?bs), ecStartTime := ?s\<rparr>, h4)"
      "\<forall>b. kept h2 h4 b"
    using reset_counters_usage [OF m2(3) lt e3, of ?s] unfolding t2 by blast
  have k4: "\<forall>a \<in> set bs. kept h h4 a" for bs using 2(2) 4(2) by (blast intro: kept_trans)
  note m4 = kept_maps [OF k4 p(2)] and ma = kept_maps [OF k4 p(1)]
  let ?ec = "ec\<lparr>ecCost := None, ecUsage := Some (total_of h ?as)\<rparr>" and ?sr = "sr\<lparr>ecCost := None, ecUsage := Some (total_of h ?bs), ecStartTime := ?s\<rparr>"
  have "rating_ok ?ec = rating_ok ec" "accounting_ok ?ec = accounting_ok ec" by (intro same_refs; simp)+
  then have "refs_in (rating_ok ?ec) (accounting_ok ?ec) h4 ?bs" using p(7) unfolding refs_in_def m4(1) by simp
  moreover have d4: "distinct (concat (map (incs_of h4) ?bs))" "\<forall>a \<in> set ?bs. ptr_ok h4 a" unfolding m4(2) using p(4) m4(3) by (auto simp: sound_def)
  ultimately obtain sr' h' where 5: "close_surplus gen ?ec ?bs ?sr h4 = Inr (sr', h')" "same_event ?sr sr'" "same_charges h4 h'"
    using close_surplus_returns [OF p(3)] by blast
  have F: "finish_trim gen orig rest sr ec h = Inr (Inr (Some sr'), RemoveStaleReferences ?ec h', h')"
    using 1 2(1) 3 4(1) 5(1) r nn u sum by (simp add: finish_trim_def int64_range)
  have un: "units_of h' e = units_at h4 (ecCharges e)" for e by (simp add: units_of_def same_charges_units [OF 5(3)] comp_def)
  have sc: "ecCharges (RemoveStaleReferences ?ec h') = ?as" by (simp add: RemoveStaleReferences_def Let_def)
  have se: "ecCharges sr' = ?bs" "ecStartTime sr' = ?s" using 5(2) by (simp_all add: same_event_def)
  have "units_of h' (RemoveStaleReferences ?ec h') = units_at h ?as" "units_of h' sr' = units_at h ?bs" unfolding un sc se(1) ma(1) m4(1) by (rule refl)+
  moreover have "loses h' (RemoveStaleReferences ?ec h') a" if "shares h a is cs ?as ?bs" "is \<noteq> []" "ecAccounting sr = []"
      "fresh_ids gen ec" "ciAccountingID (List.last cs) \<notin> {[], META_NONE}"
  proof -
    have "\<forall>b. kept h h4 b" using k4 by (meson list.set_intros(1))
    from shares_kept [OF that(1) this p(1,2)] show ?thesis using that(2-5)
      by (intro close_surplus_loses [OF 5(1,3) _ p(3) d4, of a "is" cs]) simp_all
  qed
  ultimately show ?thesis using F se(2) tot [OF p(1)] by (intro exI [of _ sr'] exI [of _ "RemoveStaleReferences ?ec h'"] exI [of _ h']) simp
qed

text \<open>The usage \<open>x\<close> falls into the interval \<open>a\<close> after the charges \<open>ps\<close>, in a copy other than its first and before its last increment.\<close>

definition cuts_copy :: "ec_heap \<Rightarrow> nat list \<Rightarrow> nat \<Rightarrow> duration \<Rightarrow> bool" where
  "cuts_copy h ps a x \<longleftrightarrow> (case fview h a of (r, f, cs) \<Rightarrow>
     (\<exists>q. 1 \<le> q \<and> q < f \<and> total_of h ps + q * its_usage cs < x \<and> x \<le> total_of h ps + q * its_usage cs + its_usage (butlast cs)) \<and>
     its_usage (butlast cs) < its_usage cs \<and> ciAccountingID (List.last cs) \<notin> {[], META_NONE})"

lemma cuts_copy_cut:
  assumes "cuts_copy h ps a x" and "fview h a = (r, f, cs)" and "cut_in (total_of h ps) (its_usage cs) x l" and "0 \<le> its_usage (butlast cs)"
  shows "1 < l" "x \<le> total_of h ps + (l - 1) * its_usage cs + its_usage (butlast cs)" "x < total_of h ps + l * its_usage cs" "cs \<noteq> []"
    "ciAccountingID (List.last cs) \<notin> {[], META_NONE}"
proof -
  let ?u = "its_usage cs" and ?T = "total_of h ps"
  obtain q where q: "1 \<le> q" "?T + q * ?u < x" "x \<le> ?T + q * ?u + its_usage (butlast cs)" and b: "its_usage (butlast cs) < ?u"
    and i: "ciAccountingID (List.last cs) \<notin> {[], META_NONE}"
    using assms(1,2) by (auto simp: cuts_copy_def)
  have x: "x < ?T + (q + 1) * ?u" using q(3) b by (simp add: algebra_simps)
  have "x \<le> ?T + l * ?u" "?T + (l - 1) * ?u < x"
    using assms(3,4) b unfolding cut_in_def by (auto simp: left_diff_distrib mult.commute [of "its_usage cs"])
  then have "q * ?u < l * ?u" "(l - 1) * ?u < (q + 1) * ?u" using q(2) x by linarith+
  then have "q < l" "l - 1 < q + 1" using assms(4) b by (simp_all add: mult_less_cancel_right)
  then have "l = q + 1" by simp
  then show "1 < l" "x \<le> ?T + (l - 1) * ?u + its_usage (butlast cs)" "x < ?T + l * ?u" using q x by simp_all
  show "cs \<noteq> []" using b by auto
  show "ciAccountingID (List.last cs) \<notin> {[], META_NONE}" by (rule i)
qed

lemma after_interval_split:
  assumes g: "all_good h (ps @ a # rs)" and v: "fview h a = (r, f, cs)" and d: "distinct (ps @ a # rs)" "distinct (concat (map (incs_of h) (a # rs)))"
    and rf: "refs_in R A h (a # rs)" and l: "1 \<le> l" "l \<le> f"
    and s: "il_good k a" "fview k a = (r, l, cs)" "incs_of k a = incs_of h a" "map (fview k) new = (if l = f then [] else [(r, f - l, cs)])"
      "distinct new" "all_good k new" "\<forall>b \<in> set new. fresh_il h k b \<and> b \<noteq> a" "\<forall>b. b \<noteq> a \<longrightarrow> kept h k b"
  shows "all_good k (ps @ a # new @ rs)" "distinct (ps @ a # new @ rs)" "distinct (concat (map (incs_of k) (a # new @ rs)))" "refs_in R A k (a # new @ rs)"
    "units_at k (ps @ a # new @ rs) = units_at h (ps @ a # rs)" "total_of k ps = total_of h ps"
proof -
  have na: "\<forall>b \<in> set ps. kept h k b" "\<forall>b \<in> set rs. kept h k b" using s(8) d(1) by auto
  have gp: "all_good h ps" "all_good h rs" using g by simp_all
  note kp = kept_all [OF na(1) gp(1)] and kr = kept_all [OF na(2) gp(2)]
  show "all_good k (ps @ a # new @ rs)" using kp(1) kr(1) s(1,6) by simp
  show "total_of k ps = total_of h ps" by (rule kp(4))
  have lt: "\<forall>b \<in> set (ps @ rs). b < length (hpIl h)" "\<forall>b \<in> set (a # rs). \<forall>i \<in> set (incs_of h b). i < length (hpIt h)"
    using g by (auto simp: all_good_def il_good_def ptr_ok_def)
  have fr: "\<forall>b \<in> set new. length (hpIl h) \<le> b" "\<forall>i \<in> set (concat (map (incs_of k) new)). length (hpIt h) \<le> i"
    using s(7) by (auto simp: fresh_il_def)
  have "set new \<inter> set (ps @ rs) = {}" using lt(1) fr(1) by (meson disjoint_iff not_le)
  then show "distinct (ps @ a # new @ rs)" using d(1) s(5,7) by auto
  have len: "length new \<le> 1" using arg_cong [OF s(4), of length] by (simp split: if_splits)
  then have dn: "distinct (concat (map (incs_of k) new))" using s(7) by (cases new) (auto simp: fresh_il_def)
  have "\<forall>i \<in> set (concat (map (incs_of h) (a # rs))). i < length (hpIt h)" using lt(2) by auto
  then have nd: "set (concat (map (incs_of k) new)) \<inter> set (concat (map (incs_of h) (a # rs))) = {}"
    using fr(2) by (meson disjoint_iff not_le)
  have "distinct (incs_of h a @ concat (map (incs_of k) new) @ concat (map (incs_of h) rs))" using d(2) dn nd by auto
  then show "distinct (concat (map (incs_of k) (a # new @ rs)))" unfolding list.map map_append concat.simps concat_append kr(3) s(3) .
  show "refs_in R A k (a # new @ rs)" unfolding refs_in_def list.map map_append kr(2) s(2,4) using rf v by (simp add: refs_in_def)
  have "concat (map v_units (map (fview k) new)) = v_units (r, f - l, cs)" unfolding s(4) by simp
  then show "units_at k (ps @ a # new @ rs) = units_at h (ps @ a # rs)"
    unfolding list.map map_append concat.simps concat_append kp(2) kr(2) s(2) v using copies_split [of l f r cs] l by simp
qed

lemma trim_at_eq:
  assumes q: "ecCharges ec = ps @ a # rs" "distinct (ps @ a # rs)" "all_good h (ps @ a # rs)" "total_of h (ps @ a # rs) < 2 ^ 63"
      "distinct (concat (map (incs_of h) (ps @ a # rs)))" "refs_in (rating_ok ec) (accounting_ok ec) h (ps @ a # rs)"
    and i: "ilecUsageIdx (hpIl h ! a) = Some (total_of h ps)" "total_of h ps < x" "x \<le> total_of h (ps @ [a])"
  shows "\<exists>sr' ec' h'. trim_at gen (total_of h (ps @ a # rs)) x (length ps) sr ec h = Inr (Inr (Some sr'), ec', h') \<and>
     units_of h' ec' @ units_of h' sr' = units_at h (ps @ a # rs) \<and> reaches x (units_of h' ec') \<and>
     ecStartTime sr' = time_Add (ecStartTime ec) (usage_sum (units_of h' ec')) \<and>
     (cuts_copy h ps a x \<and> ecAccounting sr = [] \<and> fresh_ids gen ec \<longrightarrow> loses h' ec' a)"
proof -
  obtain r f cs where v: "fview h a = (r, f, cs)" by (metis prod_cases3)
  have g: "il_good h a" "all_good h ps" "all_good h rs" "v_good (r, f, cs)" using q(3) v by (auto simp: il_good_def)
  have nn: "0 \<le> total_of h ps" "0 \<le> total_of h rs" using g by (simp_all add: total_of_nonneg)
  have "f \<noteq> 0" using i(2,3) v by auto
  then have f: "1 \<le> f" "ilCompressFactor (hpIl h ! a) = f" using v g(4) by (auto simp: fview_def Let_def)
  have lt: "total_of h ps + f * its_usage cs < 2 ^ 63" "x \<le> total_of h ps + f * its_usage cs" using q(4) i(3) v nn by simp_all
  obtain l new k where S: "split_interval a (total_of h ps) x rs h = Inr (Inr (new @ rs), k)" and l: "1 \<le> l" "l \<le> f" and cut: "cut_in (total_of h ps) (its_usage cs) x l"
    and s: "il_good k a" "fview k a = (r, l, cs)" "incs_of k a = incs_of h a" "map (fview k) new = (if l = f then [] else [(r, f - l, cs)])"
      "distinct new" "all_good k new" "\<forall>b \<in> set new. fresh_il h k b \<and> b \<noteq> a" "\<forall>b. b \<noteq> a \<longrightarrow> kept h k b"
    using split_interval_eq [OF g(1) v f(1) nn(1) lt(1) i(2) lt(2), of rs] by blast
  have d: "distinct (concat (map (incs_of h) (a # rs)))" "refs_in (rating_ok ec) (accounting_ok ec) h (a # rs)" using q(5,6) by (simp_all add: refs_in_def)
  note a = after_interval_split [OF q(3) v q(2) d l s]
  let ?ec = "ec\<lparr>ecCharges := ps @ [a], ecUsage := None, ecCost := None\<rparr>"
  have "l * its_usage cs \<le> f * its_usage cs" using l(2) g(4) by (intro mult_right_mono) (auto intro: its_usage_nonneg)
  then have t: "total_of k (ps @ [a]) < 2 ^ 63" using lt(1) s(2) a(6) by simp
  have x0: "0 < x" using i(2) nn(1) by simp
  obtain srplus' rest as w h2 where I: "trim_increments a x (new @ rs) ?ec k = (Inr (srplus', rest), ?ec\<lparr>ecCharges := as, ecUsage := w\<rparr>, h2)"
      "0 < rest" "rest \<le> x" "cut_ok (rating_ok ec) (accounting_ok ec) x (units_at h (ps @ a # rs)) h2 as srplus'"
      "1 < l \<and> x \<le> total_of k ps + (l - 1) * its_usage cs + its_usage (butlast cs) \<and> x < total_of k (ps @ [a]) \<longrightarrow> shares h2 a (incs_of k a) cs as srplus'"
    using trim_increments_eq [of ?ec ps a k "new @ rs" r l cs x "rating_ok ec" "accounting_ok ec", OF _ _ _ a(1) s(2) l(1) t _ x0 a(2-4)] a(5,6) cut
    by (simp del: total_of_simps) blast
  let ?e2 = "?ec\<lparr>ecCharges := as, ecUsage := w\<rparr>"
  have T: "trim_at gen (total_of h (ps @ a # rs)) x (length ps) sr ec h = finish_trim gen (total_of h (ps @ a # rs)) rest (sr\<lparr>ecCharges := srplus'\<rparr>) ?e2 h2"
    using q(1) i(1,2) f S I(1) by (simp add: trim_at_def)
  have "rating_ok ?e2 = rating_ok ec" "accounting_ok ?e2 = accounting_ok ec" by (intro same_refs; simp)+
  then have c: "cut_ok (rating_ok ?e2) (accounting_ok ?e2) x (units_at h (ps @ a # rs)) h2 (ecCharges ?e2) (ecCharges (sr\<lparr>ecCharges := srplus'\<rparr>))" using I(4) by simp
  note F = finish_trim_eq [OF c I(2,3) usage_units_at [OF q(3)] q(4), of gen a "incs_of k a" cs, folded T]
  have nb: "0 \<le> its_usage (butlast cs)" using g(4) by (intro its_usage_nonneg) (auto simp: list_all_iff dest: in_set_butlastD)
  have sh: "shares h2 a (incs_of k a) cs as srplus' \<and> incs_of k a \<noteq> [] \<and> ciAccountingID (List.last cs) \<notin> {[], META_NONE}" if "cuts_copy h ps a x"
  proof -
    note C = cuts_copy_cut [OF that v cut nb]
    have "incs_of k a \<noteq> []" using C(4) s(2) by (auto simp: fview_def Let_def)
    then show ?thesis using I(5) C a(6) s(2) by simp
  qed
  show ?thesis using F I(4) sh unfolding cut_ok_def by auto
qed

text \<open>
  An event cost that can be trimmed: its intervals and increments are there and not shared, counts and usages are not
  negative and their sum is a duration, cached values are right, and what the charges refer to is in the tables.
\<close>

definition trimmable :: "ec_heap \<Rightarrow> EventCost \<Rightarrow> bool" where
  "trimmable h ec \<longleftrightarrow> distinct (ecCharges ec) \<and> distinct (concat (map (incs_of h) (ecCharges ec))) \<and> all_good h (ecCharges ec) \<and>
     idx_ok h (ecCharges ec) 0 \<and> total_of h (ecCharges ec) < 2 ^ 63 \<and> ecUsage ec \<in> {None, Some (total_of h (ecCharges ec))} \<and>
     refs_in (rating_ok ec) (accounting_ok ec) h (ecCharges ec) \<and> ecAccountSummary ec \<noteq> None"

lemma units_of_at: "units_of h ec = units_at h (ecCharges ec)"
  by (simp add: units_of_def comp_def)

lemma v_units_nonneg: "v_good v \<Longrightarrow> x \<in> set (v_units v) \<Longrightarrow> 0 \<le> fst x"
  by (cases v) (auto simp: its_units_def it_units_def list_all_iff split: if_splits)

lemma good_units:
  assumes "all_good h as"
  shows "\<forall>x \<in> set (units_at h as). 0 \<le> fst x"
proof
  fix x assume "x \<in> set (units_at h as)"
  then obtain a where "a \<in> set as" "x \<in> set (v_units (fview h a))" by auto
  with assms show "0 \<le> fst x" by (intro v_units_nonneg) (auto simp: all_good_def il_good_def)
qed

lemma cuts_copy_place:
  assumes g: "all_good h qs" and b: "qs = ps' @ b # rs'" "cuts_copy h ps' b x" and a: "qs = ps @ a # rs"
    and x: "total_of h ps < x" "x \<le> total_of h (ps @ [a])"
  shows "ps' = ps \<and> b = a"
proof -
  obtain r f cs where v: "fview h b = (r, f, cs)" by (metis prod_cases3)
  have ga: "all_good h (ps' @ b # rs')" "all_good h (ps @ a # rs)" using g b(1) a by simp_all
  have gb: "all_good h ps'" "all_good h ps" "v_good (r, f, cs)" using ga v by (auto simp: il_good_def)
  let ?u = "its_usage cs" and ?T = "total_of h ps'"
  obtain q where q: "1 \<le> q" "q < f" "?T + q * ?u < x" "x \<le> ?T + q * ?u + its_usage (butlast cs)" "its_usage (butlast cs) < ?u"
    using b(2) v by (auto simp: cuts_copy_def)
  have u: "0 \<le> ?u" using gb(3) by (intro its_usage_nonneg) simp
  have "0 \<le> q * ?u" "(q + 1) * ?u \<le> f * ?u" using u q(1,2) by (simp_all add: mult_right_mono)
  then have lo: "?T < x" and hi: "x \<le> total_of h (ps' @ [b])" using q(3-5) v by (simp_all add: algebra_simps)
  have mono: "total_of h (cs @ [d]) \<le> total_of h (cs @ d # ds)" if "all_good h (cs @ d # ds)" for cs d ds
    using total_of_nonneg [of h ds] that by simp
  consider us where "ps' = ps @ us" "us @ b # rs' = a # rs" | us where "ps' @ us = ps" "b # rs' = us @ a # rs"
    using a b(1) by (auto simp: append_eq_append_conv2)
  then show ?thesis
  proof cases
    case 1
    then show ?thesis using x lo mono [of ps a "tl us"] gb(1) by (cases us) auto
  next
    case 2
    then show ?thesis using x hi mono [of ps' b "tl us"] gb(2) by (cases us) auto
  qed
qed

lemma Trim_cut:
  assumes T: "trimmable h ec" and x: "0 < x" "x < usage_sum (units_of h ec)"
  shows "\<exists>sr ec' h'. Trim gen ec x h = Inr (Inr (Some sr), ec', h') \<and> units_of h' ec' @ units_of h' sr = units_of h ec \<and>
     reaches x (units_of h' ec') \<and> ecStartTime sr = time_Add (ecStartTime ec) (usage_sum (units_of h' ec')) \<and>
     (\<forall>ps a rs. ecCharges ec = ps @ a # rs \<and> cuts_copy h ps a x \<and> fresh_ids gen ec \<longrightarrow> loses h' ec' a)"
proof -
  let ?qs = "ecCharges ec" and ?U = "total_of h (ecCharges ec)"
  have t: "distinct ?qs" "distinct (concat (map (incs_of h) ?qs))" "all_good h ?qs" "idx_ok h ?qs 0" "?U < 2 ^ 63" "ecUsage ec \<in> {None, Some ?U}"
      "refs_in (rating_ok ec) (accounting_ok ec) h ?qs" using T by (simp_all add: trimmable_def)
  obtain summ where sm: "ecAccountSummary ec = Some summ" using T by (auto simp: trimmable_def)
  have U: "x < ?U" using x(2) usage_units_at [OF t(3)] by (simp only: units_of_at)
  let ?ec = "ec\<lparr>ecUsage := Some ?U\<rparr>"
  obtain h1 where 1: "GetUsage ec h = (?U, ?ec, h1)" "warm h h1" "same_idx h h1" using GetUsage_eq [OF t(3,5,6)] by blast
  note w1 = warm_all [OF 1(2) t(3)]
  have i1: "idx_ok h1 ?qs 0" using 1(3) by (intro idx_ok_same [OF t(4) 1(2) t(3)]) (simp add: same_idx_def)
  obtain k h2 where 2: "last_active x ?qs 0 ?ec h1 = Inr (Some k, ?ec, h2)" "warm h1 h2" "k < length ?qs"
      "ilecUsageIdx (hpIl h2 ! (?qs ! k)) = Some (total_of h1 (take k ?qs))" "total_of h1 (take k ?qs) < x" "x \<le> total_of h1 (take (Suc k) ?qs)"
    using last_active_eq [of ?ec "[]" ?qs h1 x] t(1) w1 i1 t(5) x(1) U by auto
  define ps a rs where "ps = take k ?qs" and "a = ?qs ! k" and "rs = drop (Suc k) ?qs"
  have qs: "?qs = ps @ a # rs" "length ps = k" "take (Suc k) ?qs = ps @ [a]"
    using 2(3) by (simp_all add: ps_def a_def rs_def id_take_nth_drop take_Suc_conv_app_nth)
  have w: "warm h h2" using 1(2) 2(2) by (rule warm_trans)
  note w2 = warm_all [OF w t(3)] and v2 = warm_values [OF w t(3)]
  have tt: "total_of h2 ps = total_of h1 ps" "total_of h2 (ps @ [a]) = total_of h1 (ps @ [a])"
    using w1(1) unfolding qs(1) by (intro warm_all(4) [OF 2(2)]; simp)+
  have "rating_ok ?ec = rating_ok ec" "accounting_ok ?ec = accounting_ok ec" by (intro same_refs; simp)+
  then have rf: "refs_in (rating_ok ?ec) (accounting_ok ?ec) h2 (ps @ a # rs)" using t(7) v2(2) qs(1) by metis
  let ?b = "NewBareEventCost\<lparr>ecCGRID := ecCGRID ec, ecRunID := ecRunID ec, ecStartTime := ecStartTime ec, ecAccountSummary := Some summ\<rparr>"
  have "Trim gen ec x h = trim_at gen (total_of h2 (ps @ a # rs)) x (length ps) ?b ?ec h2"
    using 1(1) 2(1) U x(1) sm w2(4) qs by (simp add: Trim_def)
  moreover have "distinct (concat (map (incs_of h2) (ps @ a # rs)))" "total_of h2 (ps @ a # rs) < 2 ^ 63"
    using t(2,5) unfolding w2(3,4) [unfolded qs(1)] qs(1) .
  moreover have "ilecUsageIdx (hpIl h2 ! a) = Some (total_of h2 ps)" "total_of h2 ps < x" "x \<le> total_of h2 (ps @ [a])"
    using 2(4-6) unfolding tt qs(3) by (simp_all add: a_def ps_def)
  ultimately obtain sr ec' h' where F: "Trim gen ec x h = Inr (Inr (Some sr), ec', h')" "units_of h' ec' @ units_of h' sr = units_of h ec"
      "reaches x (units_of h' ec')" "ecStartTime sr = time_Add (ecStartTime ec) (usage_sum (units_of h' ec'))"
      "cuts_copy h2 ps a x \<and> fresh_ids gen ec \<longrightarrow> loses h' ec' a"
    unfolding units_of_at [of h] qs(1) v2(1) [unfolded qs(1), symmetric]
    using trim_at_eq [of ?ec ps a rs h2 x gen ?b, OF _ t(1) [unfolded qs(1)] w2(1) [unfolded qs(1)] _ _ rf] qs(1) by (auto simp: NewBareEventCost_def)
  have "loses h' ec' b" if b: "?qs = ps' @ b # rs'" "cuts_copy h ps' b x" "fresh_ids gen ec" for ps' b rs'
  proof -
    have gp: "all_good h ps" "all_good h (ps @ [a])" using t(3) unfolding qs(1) by simp_all
    have "total_of h ps < x" "x \<le> total_of h (ps @ [a])"
      using 2(5) [folded ps_def] 2(6) [unfolded qs(3)] unfolding warm_all(4) [OF 1(2) gp(1)] warm_all(4) [OF 1(2) gp(2)] .
    then have "ps' = ps \<and> b = a" by (rule cuts_copy_place [OF t(3) b(1,2) qs(1)])
    moreover have "cuts_copy h2 ps' b x = cuts_copy h ps' b x"
      using warm_all(2,4) [OF w, of "[b]"] warm_all(4) [OF w, of ps'] t(3) b(1) by (simp add: cuts_copy_def)
    ultimately show ?thesis using F(5) b(2,3) by simp
  qed
  then show ?thesis using F(1-4) by blast
qed

text \<open>Claim C11. Trimming an event cost parts its charges. The increments, with every compress factor multiplied out, are a
  list of units of usage and cost. For an event cost that is \<open>trimmable\<close> (intervals and increments not shared between charges, no negative
  counts or usages, a sum that is a duration, right cached values, an account summary, and every rating and accounting id of a charge in
  the tables, which a \<^verbatim>\<open>*rounding\<close> charge does not have) and a usage between zero and the usage of the event, \<^verbatim>\<open>Trim\<close> returns without
  an error or a panic, the units that stay followed by those of the surplus are the units there were, and what stays is the shortest
  usage at a boundary between units that reaches the one asked for. The surplus starts where what stays ends.\<close>

theorem trim_parts_units:
  assumes "trimmable h ec" and "0 < x" and "x < usage_sum (units_of h ec)"
  shows "\<exists>sr ec' h'. Trim gen ec x h = Inr (Inr (Some sr), ec', h') \<and> units_of h' ec' @ units_of h' sr = units_of h ec \<and>
     x \<le> usage_sum (units_of h' ec') \<and>
     (\<forall>n. x \<le> usage_sum (take n (units_of h ec)) \<longrightarrow> usage_sum (units_of h' ec') \<le> usage_sum (take n (units_of h ec))) \<and>
     ecStartTime sr = time_Add (ecStartTime ec) (usage_sum (units_of h' ec'))"
proof -
  obtain sr ec' h' where c: "Trim gen ec x h = Inr (Inr (Some sr), ec', h')" "units_of h' ec' @ units_of h' sr = units_of h ec"
      "reaches x (units_of h' ec')" "ecStartTime sr = time_Add (ecStartTime ec) (usage_sum (units_of h' ec'))"
    using Trim_cut [OF assms] by blast
  have "\<forall>u \<in> set (units_of h ec). 0 \<le> fst u" unfolding units_of_at using assms(1) by (intro good_units) (simp add: trimmable_def)
  then have "usage_sum (units_of h' ec') \<le> usage_sum (take n (units_of h ec))" if "x \<le> usage_sum (take n (units_of h ec))" for n
    using reaches_least [OF c(3)] c(2) that by metis
  moreover have "x \<le> usage_sum (units_of h' ec')" using c(3) by (auto simp: reaches_def)
  ultimately show ?thesis using c by blast
qed

definition tmx_gen :: "nat \<Rightarrow> string" where
  "tmx_gen n = replicate (Suc n) CHR ''g''"

definition tmx_heap :: ec_heap where
  "tmx_heap = \<lparr>hpIl = [\<lparr>ilRatingID = ''R'', ilIncrements = [0, 1], ilCompressFactor = 2, ilusage = None, ilecUsageIdx = None, ilcost = None\<rparr>],
     hpIt = [\<lparr>ciUsage = 10, ciCost = Fin 1, ciAccountingID = ''A'', ciCompressFactor = 3\<rparr>,
             \<lparr>ciUsage = 5, ciCost = Fin 2, ciAccountingID = ''A'', ciCompressFactor = 1\<rparr>], hpUuid = 0\<rparr>"

definition tmx_ec :: EventCost where
  "tmx_ec = NewBareEventCost\<lparr>ecCharges := [0],
     ecAccountSummary := Some \<lparr>asTenant = ''t'', asID = ''a'', asBalanceSummaries =
       [\<lparr>bsUUID = ''b'', bsID = ''b'', bsType = MONETARY, bsValue = Fin 1, bsDisabled = False\<rparr>], asAllowNegative = False, asDisabled = False\<rparr>,
     ecRating := [(''R'', \<lparr>ruConnectFee = Fin 0, ruRoundingMethod = [], ruRoundingDecimals = 0, ruMaxCost = Fin 0, ruMaxCostStrategy = [],
       ruTimingID = [], ruRatesID = [], ruRatingFiltersID = []\<rparr>)],
     ecAccounting := [(''A'', \<lparr>bcAccountID = ''t:a'', bcBalanceUUID = ''b'', bcRatingID = ''R'', bcUnits = Fin 1, bcExtraChargeID = []\<rparr>)]\<rparr>"

lemma tmx_units: "trimmable tmx_heap tmx_ec" "units_of tmx_heap tmx_ec = [(10, Fin 1), (10, Fin 1), (10, Fin 1), (5, Fin 2), (10, Fin 1), (10, Fin 1), (10, Fin 1), (5, Fin 2)]"
  by code_simp+

theorem trim_parts_units_witness:
  "\<exists>sr ec' h'. Trim tmx_gen tmx_ec 52 tmx_heap = Inr (Inr (Some sr), ec', h') \<and> units_of h' ec' @ units_of h' sr = units_of tmx_heap tmx_ec \<and>
     52 \<le> usage_sum (units_of h' ec') \<and> usage_sum (units_of h' ec') \<le> 55"
proof -
  have "52 < usage_sum (units_of tmx_heap tmx_ec)" by (simp add: tmx_units)
  then obtain sr ec' h' where t: "Trim tmx_gen tmx_ec 52 tmx_heap = Inr (Inr (Some sr), ec', h')" "units_of h' ec' @ units_of h' sr = units_of tmx_heap tmx_ec"
      "52 \<le> usage_sum (units_of h' ec')"
      "\<forall>n. 52 \<le> usage_sum (take n (units_of tmx_heap tmx_ec)) \<longrightarrow> usage_sum (units_of h' ec') \<le> usage_sum (take n (units_of tmx_heap tmx_ec))"
    using trim_parts_units [OF tmx_units(1), of 52 tmx_gen] by auto
  have "usage_sum (units_of h' ec') \<le> 55" using t(4) [rule_format, of 6] by (simp add: tmx_units)
  with t show ?thesis by blast
qed

text \<open>Claim C12. Where \<^verbatim>\<open>Trim\<close> cuts a copy other than the first of an interval with a compress factor above one, before its last
  increment, the surplus takes over increments that the copies that stay still point to, and giving the surplus table entries of its
  own writes the ids of these entries into them. So, for a \<open>trimmable\<close> event cost, when the last increment of the interval has usage and
  names an accounting id (neither empty nor \<^verbatim>\<open>*none\<close>) and the generated ids are new, the interval stays a charge of the event cost
  and its last increment, which referred to an entry of the table before, refers to none.\<close>

theorem trim_breaks_references:
  assumes "trimmable h ec" and "ecCharges ec = ps @ a # rs" and "fview h a = (r, f, cs)" and "1 \<le> q" and "q < f"
    and "total_of h ps + q * its_usage cs < x" and "x \<le> total_of h ps + q * its_usage cs + its_usage (butlast cs)"
    and "its_usage (butlast cs) < its_usage cs" and "ciAccountingID (List.last cs) \<notin> {[], META_NONE}"
    and "\<forall>n. \<not> ghas (ecAccounting ec) (gen n)"
  shows "\<exists>sr ec' h'. Trim gen ec x h = Inr (Inr (Some sr), ec', h') \<and> a \<in> set (ecCharges ec') \<and>
     ghas (ecAccounting ec) (ciAccountingID (List.last cs)) \<and>
     \<not> ghas (ecAccounting ec') (ciAccountingID (hpIt h' ! List.last (ilIncrements (hpIl h' ! a))))"
proof -
  let ?u = "its_usage cs" and ?T = "total_of h ps"
  have g: "all_good h (ps @ a # rs)" "refs_in (rating_ok ec) (accounting_ok ec) h (ps @ a # rs)" using assms(1,2) by (simp_all add: trimmable_def)
  have u: "0 \<le> ?u" "0 \<le> ?T" "0 \<le> total_of h rs"
    using g(1) assms(3) by (auto simp: il_good_def intro: its_usage_nonneg total_of_nonneg)
  have "0 \<le> q * ?u" "(q + 1) * ?u \<le> f * ?u" using u(1) assms(4,5) by (simp_all add: mult_right_mono)
  then have x: "0 < x" "x < total_of h (ps @ a # rs)" using assms(3,6-8) u by (simp_all add: algebra_simps)
  have c: "cuts_copy h ps a x" using assms(3-9) by (auto simp: cuts_copy_def)
  have xu: "x < usage_sum (units_of h ec)" unfolding units_of_at assms(2) usage_units_at [OF g(1)] by (rule x(2))
  have f: "fresh_ids gen ec" using assms(10) by (simp add: fresh_ids_def)
  from Trim_cut [OF assms(1) x(1) xu, of gen] obtain sr ec' h' where "Trim gen ec x h = Inr (Inr (Some sr), ec', h')" "loses h' ec' a"
    using assms(2) c f by blast
  moreover have "accounting_ok ec (ciAccountingID (List.last cs))"
    using g(2) assms(3,8) by (cases cs rule: rev_cases) (auto simp: refs_in_def)
  then have "ghas (ecAccounting ec) (ciAccountingID (List.last cs))" using assms(9) by (auto simp: accounting_ok_def split: option.splits)
  ultimately show ?thesis by (auto simp: loses_def)
qed

theorem trim_breaks_references_witness:
  "\<exists>sr ec' h'. Trim tmx_gen tmx_ec 52 tmx_heap = Inr (Inr (Some sr), ec', h') \<and> 0 \<in> set (ecCharges ec') \<and>
     ghas (ecAccounting tmx_ec) ''A'' \<and> \<not> ghas (ecAccounting ec') (ciAccountingID (hpIt h' ! List.last (ilIncrements (hpIl h' ! 0))))"
proof -
  define cs where "cs = map (\<lambda>i. hpIt tmx_heap ! i) [0, 1]"
  have c: "fview tmx_heap 0 = (''R'', 2, cs)" "its_usage cs = 35" "its_usage (butlast cs) = 30" "ciAccountingID (List.last cs) = ''A''"
    unfolding cs_def by code_simp+
  have e: "ecCharges tmx_ec = [] @ 0 # []" "''A'' \<notin> {[], META_NONE}" by code_simp+
  have "fst ` set (ecAccounting tmx_ec) = {''A''}" by (simp add: tmx_ec_def)
  then have n: "\<forall>n. \<not> ghas (ecAccounting tmx_ec) (tmx_gen n)" unfolding ghas_iff by (simp add: tmx_gen_def)
  from trim_breaks_references [OF tmx_units(1) e(1) c(1), of 1 52 tmx_gen] c(2-4) e(2) n show ?thesis by simp
qed

end
