(* ===== verification/Event_Cost_Props.thy ===== *)
theory Event_Cost_Props
  imports Trim_Laws
begin

text \<open>
  The other operations of event costs: the way from and to a \<open>CallCost\<close>, refunds, and the five tables, whose operations meet
  one interface (locale \<open>id_table\<close>).
\<close>

subsection \<open>From a CallCost\<close>

definition inc_units :: "Increment \<Rightarrow> (duration \<times> float64) list" where
  "inc_units i = replicate (nat (icCompressFactor i)) (icDuration i, icCost i)"

definition span_units :: "TimeSpan \<Rightarrow> (duration \<times> float64) list" where
  "span_units ts = concat (replicate (nat (tsCompressFactor ts)) (concat (map inc_units (tsIncrements ts)) @
     (case tsRoundIncrement ts of None \<Rightarrow> [] | Some r \<Rightarrow> inc_units (r\<lparr>icCost := fneg (icCost r)\<rparr>))))"

lemma rating_id_charges: "ratingIDForRateInterval gen ec ri rf n = (k, ec', n') \<Longrightarrow> ecCharges ec' = ecCharges ec"
  by (auto simp: ratingIDForRateInterval_def Let_def split: option.splits prod.splits)

lemma charge_rating_charges: "charge_rating gen ec ri rf b n = (k, ec', n') \<Longrightarrow> ecCharges ec' = ecCharges ec"
  by (auto simp: charge_rating_def rating_id_charges split: if_splits)

lemma charge_id_charges: "charge_id gen ec bc n = (k, ec', n') \<Longrightarrow> ecCharges ec' = ecCharges ec"
  by (drule charge_id_same) (simp add: same_event_def)

lemmas charges_kept = rating_id_charges charge_rating_charges charge_id_charges

lemma newChargingIncrement_eq:
  assumes "newChargingIncrement gen ec i rf b n = (c, ec', n')"
  shows "ciUsage c = icDuration i \<and> ciCost c = icCost i \<and> ciCompressFactor c = icCompressFactor i \<and> ecCharges ec' = ecCharges ec"
  using assms by (auto simp: newChargingIncrement_def Let_def charges_kept split: option.splits prod.splits if_splits)

lemma new_increments_eq:
  "new_increments gen rf is ec n = (cs, ec', n') \<Longrightarrow> its_units cs = concat (map inc_units is) \<and> ecCharges ec' = ecCharges ec"
proof (induction "is" arbitrary: ec n cs)
  case (Cons i "is")
  then obtain c ec1 n1 ds where c: "newChargingIncrement gen ec i rf False n = (c, ec1, n1)" "new_increments gen rf is ec1 n1 = (ds, ec', n')" "cs = c # ds"
    by (auto split: prod.splits)
  show ?case using Cons.IH [OF c(2)] newChargingIncrement_eq [OF c(1)] by (simp add: c(3) it_units_def inc_units_def)
qed simp

lemma new_interval_eq:
  assumes "new_interval gen ts ec h = (ec', h')"
  shows "ecCharges ec' = ecCharges ec @ [length (hpIl h)]" "v_units (fview h' (length (hpIl h))) = span_units ts" "ptr_ok h' (length (hpIl h))" "kept h h' b"
proof -
  obtain rid ec1 n1 where r: "ratingIDForRateInterval gen ec (tsRateInterval ts) (span_filters ts) (hpUuid h) = (rid, ec1, n1)" by (metis prod_cases3)
  obtain cs ec2 n2 where c: "new_increments gen (span_filters ts) (tsIncrements ts) ec1 n1 = (cs, ec2, n2)" by (metis prod_cases3)
  obtain ds ec3 n3 where d: "(case tsRoundIncrement ts of None \<Rightarrow> ([], ec2, n2)
     | Some r \<Rightarrow> let (c, e, k) = newChargingIncrement gen ec2 r (span_filters ts) True n2 in ([c\<lparr>ciCost := fneg (ciCost c)\<rparr>], e, k)) = (ds, ec3, n3)"
    by (rule prod_cases3)
  let ?m = "length (hpIt h)"
  have e: "ec' = ec3\<lparr>ecCharges := ecCharges ec3 @ [length (hpIl h)]\<rparr>"
    "h' = h\<lparr>hpIt := hpIt h @ cs @ ds, hpIl := hpIl h @ [\<lparr>ilRatingID = rid, ilIncrements = [?m ..< ?m + length (cs @ ds)],
       ilCompressFactor = tsCompressFactor ts, ilusage = None, ilecUsageIdx = None, ilcost = None\<rparr>], hpUuid := n3\<rparr>"
    using assms unfolding new_interval_def Let_def r prod.case c d [unfolded Let_def] by simp_all
  have du: "its_units ds = (case tsRoundIncrement ts of None \<Rightarrow> [] | Some r \<Rightarrow> inc_units (r\<lparr>icCost := fneg (icCost r)\<rparr>)) \<and> ecCharges ec3 = ecCharges ec2"
    using d by (auto simp: it_units_def inc_units_def dest!: newChargingIncrement_eq split: option.splits prod.splits)
  show "ecCharges ec' = ecCharges ec @ [length (hpIl h)]"
    using du new_increments_eq [OF c] rating_id_charges [OF r] by (simp add: e(1))
  have "map (\<lambda>i. (hpIt h @ cs @ ds) ! i) [?m ..< ?m + length (cs @ ds)] = cs @ ds" by (intro nth_equalityI) (auto simp: nth_append)
  then have "fview h' (length (hpIl h)) = (rid, tsCompressFactor ts, cs @ ds)" by (simp add: e(2) fview_def Let_def)
  then show "v_units (fview h' (length (hpIl h))) = span_units ts" using du new_increments_eq [OF c] by (simp add: span_units_def)
  show "ptr_ok h' (length (hpIl h))" by (auto simp: e(2) ptr_ok_def)
  show "kept h h' b" by (rule kept_more) (simp_all add: e(2))
qed

lemma new_intervals_eq:
  assumes "\<forall>a \<in> set (ecCharges ec). ptr_ok h a" and "new_intervals gen tss ec h = (ec', h')"
  shows "units_of h' ec' = units_of h ec @ concat (map span_units tss)"
  using assms
proof (induction tss arbitrary: ec h)
  case (Cons ts tss)
  obtain ec1 h1 where 1: "new_interval gen ts ec h = (ec1, h1)" "new_intervals gen tss ec1 h1 = (ec', h')"
    using Cons.prems(2) by (auto split: prod.splits)
  note n = new_interval_eq [OF 1(1)]
  have k: "ptr_ok h1 a \<and> fview h1 a = fview h a" if "a \<in> set (ecCharges ec)" for a using n(4) [of a] Cons.prems(1) that by (simp add: kept_def)
  then have "units_of h1 ec1 = units_of h ec @ span_units ts" using n(1,2) by (simp add: units_of_def cong: map_cong)
  moreover have "\<forall>a \<in> set (ecCharges ec1). ptr_ok h1 a" using n(1,3) k by auto
  ultimately show ?case using Cons.IH [OF _ 1(2)] by simp
qed simp

text \<open>Claim C13. The event cost made of a \<open>CallCost\<close> charges exactly its increments: with the compress factors of increments and
  time spans multiplied out, its units are those of the time spans, in order, each span followed by its rounding increment
  with the sign of the cost changed.\<close>

theorem event_cost_charges_call:
  "case NewEventCostFromCallCost gen cc summary cgrID runID h of (ec, h') \<Rightarrow> units_of h' ec = concat (map span_units (ccTimespans cc))"
proof -
  obtain ec h' where e: "NewEventCostFromCallCost gen cc summary cgrID runID h = (ec, h')" by fastforce
  show ?thesis using new_intervals_eq [OF _ e [unfolded NewEventCostFromCallCost_def]] by (simp add: e NewBareEventCost_def units_of_def)
qed

subsection \<open>Refunds\<close>

definition listed :: "EventCost \<Rightarrow> string \<Rightarrow> bool" where
  "listed ec u \<longleftrightarrow> (case ecAccountSummary ec of None \<Rightarrow> False | Some as \<Rightarrow> BalanceSummaryWithUUD (asBalanceSummaries as) u \<noteq> None)"

text \<open>An increment can be refunded if the summary of the account lists the balances it was taken from.\<close>

definition refundable :: "EventCost \<Rightarrow> ChargingIncrement \<Rightarrow> bool" where
  "refundable ec c \<longleftrightarrow> ciAccountingID c = [] \<or>
     (case gget (ecAccounting ec) (ciAccountingID c) of
        None \<Rightarrow> False
      | Some bc \<Rightarrow> listed ec (bcBalanceUUID bc) \<and> (bcExtraChargeID bc \<in> {[], META_NONE} \<or>
          (case gget (ecAccounting ec) (bcExtraChargeID bc) of None \<Rightarrow> False | Some x \<Rightarrow> listed ec (bcBalanceUUID x))))"

lemma refund_to_returns: "listed ec u \<Longrightarrow> \<exists>b' t. refund_to ec u f b = Inr (b', t)"
  by (auto simp: listed_def refund_to_def split: option.splits)

lemma refund_increment_returns:
  assumes "refundable ec c"
  shows "\<exists>i. refund_increment ec c = Inr i \<and> inc_units i = it_units c"
proof (cases "ciAccountingID c = []")
  case True
  then show ?thesis by (simp add: refund_increment_def Let_def inc_units_def it_units_def)
next
  case False
  let ?i = "\<lparr>icDuration = ciUsage c, icCost = ciCost c, icBalanceInfo = None, icCompressFactor = ciCompressFactor c, icpaid = False\<rparr>"
  have u: "inc_units (?i\<lparr>icBalanceInfo := b\<rparr>) = it_units c" for b by (simp add: inc_units_def it_units_def)
  obtain bc where bc: "gget (ecAccounting ec) (ciAccountingID c) = Some bc" "listed ec (bcBalanceUUID bc)" using assms False by (auto simp: refundable_def split: option.splits)
  obtain b t where b: "refund_to ec (bcBalanceUUID bc) (\<lambda>t. t) \<lparr>diUnit = None, diMonetary = None, diAccountID = bcAccountID bc\<rparr> = Inr (b, t)"
    using refund_to_returns [OF bc(2)] by blast
  show ?thesis
  proof (cases "bcExtraChargeID bc \<in> {[], META_NONE}")
    case True
    then show ?thesis using False bc(1) b u by (auto simp: refund_increment_def Let_def)
  next
    case x: False
    then obtain y where y: "gget (ecAccounting ec) (bcExtraChargeID bc) = Some y" "listed ec (bcBalanceUUID y)"
      using assms False bc(1) by (auto simp: refundable_def split: option.splits)
    obtain b' t' where "refund_to ec (bcBalanceUUID y) (\<lambda>_. t) b = Inr (b', t')" using refund_to_returns [OF y(2)] by blast
    then show ?thesis using False x bc(1) b y(1) u by (simp add: refund_increment_def Let_def)
  qed
qed

lemma refund_all_returns: "list_all (refundable ec) cs \<Longrightarrow> \<exists>is. refund_all ec cs = Inr is \<and> concat (map inc_units is) = its_units cs"
proof (induction cs)
  case (Cons c cs)
  then show ?case using refund_increment_returns [of ec c] by auto
qed simp

lemma copies_its: "its_units (concat (replicate n cs)) = concat (replicate n (its_units cs))"
  by (induction n) simp_all

lemma its_of_views: "its_units (concat (map (\<lambda>v. concat (replicate (nat (fst (snd v))) (snd (snd v)))) vs)) = concat (map v_units vs)"
  by (induction vs) (auto simp: copies_its)

lemma length_views:
  "list_all v_good vs \<Longrightarrow> int (length (concat (map (\<lambda>v. concat (replicate (nat (fst (snd v))) (snd (snd v)))) vs))) = sum_list (map (\<lambda>v. fst (snd v) * int (length (snd (snd v)))) vs)"
  by (induction vs) (auto simp: length_concat sum_list_replicate)

definition whole :: "ec_heap \<Rightarrow> EventCost \<Rightarrow> bool" where
  "whole h ec \<longleftrightarrow> all_good h (ecCharges ec) \<and> total_of h (ecCharges ec) < 2 ^ 63 \<and> ecUsage ec \<in> {None, Some (total_of h (ecCharges ec))}"

text \<open>Claim C14. The refund of an event cost covers what was charged, no more and no less: if the summary of the account lists the
  balances the increments were taken from, the descriptor of the refund is made, its increments have the units of usage and
  cost of the charges in their order, and it spans the usage of the event.\<close>

theorem refund_covers_charges:
  assumes "whole h ec" and "\<forall>a \<in> set (ecCharges ec). list_all (refundable ec) (snd (snd (fview h a)))"
  shows "\<exists>cd ec' h'. AsRefundIncrements ec tor h = Inr (cd, ec', h') \<and> concat (map inc_units (cdIncrements cd)) = units_of h ec \<and>
     cdTimeStart cd = ecStartTime ec \<and> cdTimeEnd cd = ecStartTime ec + usage_sum (units_of h ec)"
proof -
  let ?qs = "ecCharges ec" and ?U = "total_of h (ecCharges ec)"
  have w: "all_good h ?qs" "?U < 2 ^ 63" "ecUsage ec \<in> {None, Some ?U}" using assms(1) by (simp_all add: whole_def)
  obtain h1 where h1: "GetUsage ec h = (?U, ec\<lparr>ecUsage := Some ?U\<rparr>, h1)" "warm h h1" using GetUsage_eq [OF w] by blast
  let ?ec = "ec\<lparr>ecUsage := Some ?U\<rparr>"
  define vs where "vs = map (fview h) ?qs"
  have v1: "map (fview h1) ?qs = vs" unfolding vs_def by (rule warm_all(2) [OF h1(2) w(1)])
  let ?cs = "concat (map (\<lambda>v. concat (replicate (nat (fst (snd v))) (snd (snd v)))) vs)"
  have vg: "list_all v_good vs" using w(1) by (auto simp: vs_def all_good_def il_good_def list_all_iff)
  have nr: "sum_list (map (\<lambda>c. ilCompressFactor c * int (length (ilIncrements c))) (map (\<lambda>a. hpIl h1 ! a) ?qs)) = int (length ?cs)"
    using length_views [OF vg] unfolding v1 [symmetric] by (simp add: fview_def Let_def comp_def)
  have cs: "concat (map (\<lambda>c. concat (replicate (nat (ilCompressFactor c)) (map (\<lambda>i. hpIt h1 ! i) (ilIncrements c)))) (map (\<lambda>a. hpIl h1 ! a) ?qs)) = ?cs"
    unfolding v1 [symmetric] by (simp add: fview_def Let_def comp_def)
  have "listed ?ec = listed ec" by (simp add: listed_def fun_eq_iff)
  then have rd: "refundable ?ec = refundable ec" by (auto simp: refundable_def fun_eq_iff split: option.splits)
  have "list_all (refundable ?ec) ?cs" unfolding rd using assms(2) by (auto simp: vs_def list_all_iff split: if_splits)
  then obtain "is" where i: "refund_all ?ec ?cs = Inr is" "concat (map inc_units is) = its_units ?cs" using refund_all_returns by blast
  have u: "units_of h ec = concat (map v_units vs)" by (simp add: units_of_def vs_def comp_def)
  have U: "usage_sum (units_of h ec) = ?U" unfolding units_of_at by (rule usage_units_at [OF w(1)])
  have iu: "concat (map inc_units is) = units_of h ec" unfolding u i(2) by (rule its_of_views)
  let ?cd = "new_CallDescriptor\<lparr>cdCgrID := ecCGRID ec, cdRunID := ecRunID ec, cdToR := tor, cdTimeStart := ecStartTime ec,
    cdTimeEnd := time_Add (ecStartTime ec) ?U, cdDurationIndex := ?U\<rparr>"
  have "AsRefundIncrements ec tor h = Inr (?cd\<lparr>cdIncrements := is\<rparr>, ?ec, h1)"
  proof (cases "?qs = []")
    case True
    then have "is = []" using i(1) by (simp add: vs_def)
    then show ?thesis using True h1(1) by (simp add: AsRefundIncrements_def Let_def new_CallDescriptor_def)
  next
    case False
    then show ?thesis unfolding AsRefundIncrements_def Let_def h1(1) prod.case using nr cs i(1) by simp
  qed
  then show ?thesis using iu U by (auto simp: time_Add_def)
qed

theorem refund_covers_charges_witness:
  "\<exists>cd ec' h'. AsRefundIncrements tmx_ec VOICE tmx_heap = Inr (cd, ec', h') \<and> concat (map inc_units (cdIncrements cd)) = units_of tmx_heap tmx_ec \<and>
     cdTimeStart cd = 0 \<and> cdTimeEnd cd = 70"
proof -
  have "whole tmx_heap tmx_ec" "\<forall>a \<in> set (ecCharges tmx_ec). list_all (refundable tmx_ec) (snd (snd (fview tmx_heap a)))" by code_simp+
  moreover have "ecStartTime tmx_ec = 0" by (simp add: tmx_ec_def NewBareEventCost_def)
  ultimately show ?thesis using refund_covers_charges [of tmx_heap tmx_ec VOICE] by (simp add: tmx_units)
qed

subsection \<open>To a CallCost\<close>

text \<open>Claim C16. Turning an event cost back into a \<open>CallCost\<close> takes the wrong increment for the rounding one: where the last
  increment of an interval is the rounding increment and the only one, the conversion panics, and where there is one before
  it, that one becomes the rounding increment of the time span, with the sign of its cost changed.\<close>

theorem rounding_increment_misplaced:
  assumes "gget (ecAccounting ec) (ciAccountingID c) = Some bc" and "bcRatingID bc = MetaRounding"
  shows "span_increments ec [c] ts = Inl (Panic ''index out of range'') \<and>
     (case span_increments ec (cs @ [d, c]) ts of
        Inl e \<Rightarrow> True
      | Inr (ts', _) \<Rightarrow> (\<exists>r. tsRoundIncrement ts' = Some r \<and> icDuration r = ciUsage d \<and> icCost r = fneg (ciCost d)))"
proof -
  have n: "newIntervalFromCharge ec d = Inr (r, ec') \<Longrightarrow> icDuration r = ciUsage d \<and> icCost r = ciCost d" for r ec'
    by (auto simp: newIntervalFromCharge_def Let_def ebind_Inr split: if_splits option.splits)
  have e: "(cs @ [d, c]) ! length cs = d" "(cs @ [d, c]) ! Suc (length cs) = c" by (simp_all add: nth_append)
  have s: "span_increments ec (cs @ [d, c]) ts = ebind (newIntervalFromCharge ec d) (\<lambda>(r, ec1).
      ebind (increments_from_charges (cs @ [d]) ec1) (\<lambda>(is, ec2). Inr (ts\<lparr>tsRoundIncrement := Some (r\<lparr>icCost := fneg (icCost r)\<rparr>), tsIncrements := is\<rparr>, ec2)))"
    using assms by (simp add: span_increments_def e Let_def)
  have one: "span_increments ec [c] ts = Inl (Panic ''index out of range'')" using assms by (simp add: span_increments_def)
  show ?thesis
  proof (cases "newIntervalFromCharge ec d")
    case (Inr p)
    obtain r ec1 where p: "p = (r, ec1)" by fastforce
    show ?thesis unfolding s Inr p using one n [OF Inr [unfolded p]]
      by (cases "increments_from_charges (cs @ [d]) ec1") (auto split: prod.splits)
  qed (simp add: s one)
qed

theorem rounding_increment_misplaced_witness:
  "let ec = tmx_ec\<lparr>ecAccounting := [(''A'', \<lparr>bcAccountID = [], bcBalanceUUID = ''b'', bcRatingID = MetaRounding, bcUnits = Fin 1, bcExtraChargeID = []\<rparr>)]\<rparr>
   in span_increments ec [hpIt tmx_heap ! 0] (new_TimeSpan 0 0) = Inl (Panic ''index out of range'')"
proof -
  let ?ec = "tmx_ec\<lparr>ecAccounting := [(''A'', \<lparr>bcAccountID = [], bcBalanceUUID = ''b'', bcRatingID = MetaRounding, bcUnits = Fin 1, bcExtraChargeID = []\<rparr>)]\<rparr>"
  have "gget (ecAccounting ?ec) (ciAccountingID (hpIt tmx_heap ! 0)) = Some \<lparr>bcAccountID = [], bcBalanceUUID = ''b'', bcRatingID = MetaRounding, bcUnits = Fin 1, bcExtraChargeID = []\<rparr>"
    by (simp add: tmx_heap_def)
  from rounding_increment_misplaced [OF this] show ?thesis by simp
qed

subsection \<open>Tables\<close>

text \<open>What the table operations promise: the id they return leads to an entry like the one asked for.\<close>

lemma find_sound: "find P xs = Some x \<Longrightarrow> x \<in> set xs \<and> P x"
  by (induction xs) (auto split: if_splits)

locale id_table =
  fixes eq :: "'v \<Rightarrow> 'v \<Rightarrow> bool" and same :: "'v \<Rightarrow> 'v \<Rightarrow> bool"
  assumes eq_same: "eq w v \<Longrightarrow> same w v" and same_refl: "same v v"
begin

lemma id_leads_to:
  assumes "id_with_set eq gen m v n = (k, m', n')" and "gmap_ok m"
  shows "\<exists>w. gget m' k = Some w \<and> same w v"
proof (cases "find (\<lambda>(k, w). eq w v) m")
  case None
  then show ?thesis using assms(1) same_refl by (auto simp: id_with_set_def)
next
  case (Some p)
  then obtain j w where "(j, w) \<in> set m" "eq w v" "p = (j, w)" using find_sound by (cases p) fastforce
  moreover from this have "gget m j = Some w" using assms(2) by (simp add: map_of_is_SomeI)
  ultimately show ?thesis using assms(1) Some eq_same by (auto simp: id_with_set_def)
qed

lemma ids_kept:
  assumes "id_with_set eq gen m v n = (k, m', n')" and "\<not> ghas m (gen n)" and "gget m j = Some w"
  shows "gget m' j = Some w"
  using assms by (auto simp: id_with_set_def split: option.splits prod.splits)

end

definition rf_within :: "RatingMatchedFilters \<Rightarrow> RatingMatchedFilters \<Rightarrow> bool" where
  "rf_within w v \<longleftrightarrow> (\<forall>k. ghas w k \<longrightarrow> rf_get v k = rf_get w k)"

definition bc_like :: "BalanceCharge \<Rightarrow> BalanceCharge \<Rightarrow> bool" where
  "bc_like w v \<longleftrightarrow> bcAccountID w = bcAccountID v \<and> bcBalanceUUID w = bcBalanceUUID v \<and> bcRatingID w = bcRatingID v \<and> bcUnits w = bcUnits v"

lemma iface_same_eq: "iface_same a b \<Longrightarrow> a = b"
  by (induction a b rule: iface_same.induct) (auto simp: feq_def)

lemma RateGroups_Equal_eq: "RateGroups_Equal a b \<Longrightarrow> a = b"
  by (induction a b rule: RateGroups_Equal.induct) (auto simp: Rate_Equal_def feq_def)

interpretation filters_table: id_table rf_Equals rf_within
proof
  fix w v assume e: "rf_Equals w v"
  have "rf_get v k = rf_get w k" if "ghas w k" for k
  proof -
    obtain y where "(k, y) \<in> set w" using \<open>ghas w k\<close> by (auto dest: map_of_SomeD)
    then have "iface_same (rf_get w k) (rf_get v k)" using e by (auto simp: rf_Equals_def list_all_iff)
    then show ?thesis using iface_same_eq by metis
  qed
  then show "rf_within w v" by (simp add: rf_within_def)
qed (simp add: rf_within_def)

interpretation rating_table: id_table ru_Equals "(=)"
  by unfold_locales (auto simp: ru_Equals_def feq_def)

interpretation rates_table: id_table RateGroups_Equal "(=)"
  by unfold_locales (auto dest: RateGroups_Equal_eq)

interpretation timing_table: id_table ct_Equals "(=)"
  by unfold_locales (auto simp: ct_Equals_def Years_Equals_eq Months_Equals_eq MonthDays_Equals_eq WeekDays_Equals_eq)

interpretation charge_table: id_table bc_Equals bc_like
  by unfold_locales (auto simp: bc_Equals_def bc_like_def feq_def Let_def)

lemma charge_id_leads_to:
  assumes "charge_id gen ec bc n = (k, ec', n')" and "gmap_ok (ecAccounting ec)"
  shows "gmap_ok (ecAccounting ec')" "\<exists>w. gget (ecAccounting ec') k = Some w \<and> bc_like w bc"
proof -
  obtain m where m: "id_with_set bc_Equals gen (ecAccounting ec) bc n = (k, m, n')" "ec' = ec\<lparr>ecAccounting := m\<rparr>"
    using assms(1) by (auto simp: charge_id_def Accounting_GetIDWithSet_def split: prod.splits)
  show "\<exists>w. gget (ecAccounting ec') k = Some w \<and> bc_like w bc" using charge_table.id_leads_to [OF m(1) assms(2)] m(2) by simp
  show "gmap_ok (ecAccounting ec')" using m assms(2) by (auto simp: id_with_set_def split: option.splits prod.splits)
qed

lemma accounting_id_leads_to:
  assumes "accounting_id f gen oEC ec a n = Inr (k, ec', n')" and "gmap_ok (ecAccounting ec)"
  shows "gmap_ok (ecAccounting ec') \<and> (a = [] \<or> a = META_NONE \<or> (\<exists>bc bc'. gget (ecAccounting oEC) a = Some bc \<and> gget (ecAccounting ec') k = Some bc' \<and>
     bcAccountID bc' = bcAccountID bc \<and> bcBalanceUUID bc' = bcBalanceUUID bc \<and> bcUnits bc' = bcUnits bc))"
  using assms
proof (induction f arbitrary: ec a n k ec' n')
  case (Suc f)
  show ?case
  proof (cases "a = [] \<or> a = META_NONE")
    case False
    then obtain bc r ec1 n1 x ec2 n2 where s: "gget (ecAccounting oEC) a = Some bc" "ratingGetIDFomEventCost gen ec oEC (bcRatingID bc) n = Inr (r, ec1, n1)"
        "accounting_id f gen oEC ec1 (bcExtraChargeID bc) n1 = Inr (x, ec2, n2)"
        "charge_id gen ec2 (bc\<lparr>bcRatingID := r, bcExtraChargeID := x\<rparr>) n2 = (k, ec', n')"
      using Suc.prems(1) by (auto simp: ebind_Inr split: option.splits)
    have "gmap_ok (ecAccounting ec2)" using Suc.IH [OF s(3)] Suc.prems(2) rating_id_accounting [OF s(2)] by simp
    from charge_id_leads_to [OF s(4) this] s(1) show ?thesis by (auto simp: bc_like_def)
  qed (use Suc.prems in auto)
qed simp

text \<open>Claim C15. When the charge of an increment is copied into the table of another event cost, the id that is returned leads to a
  charge of the same account, the same balance and the same number of units, whether an equal charge was there or a new entry
  was made.\<close>

theorem charge_copy_same_balance:
  assumes "accountingGetIDFromEventCost gen ec oEC a n = Inr (k, ec', n')" and "a \<noteq> []" and "a \<noteq> META_NONE" and "gmap_ok (ecAccounting ec)"
  shows "\<exists>bc bc'. gget (ecAccounting oEC) a = Some bc \<and> gget (ecAccounting ec') k = Some bc' \<and>
     bcAccountID bc' = bcAccountID bc \<and> bcBalanceUUID bc' = bcBalanceUUID bc \<and> bcUnits bc' = bcUnits bc"
  using accounting_id_leads_to [OF assms(1) [unfolded accountingGetIDFromEventCost_def] assms(4)] assms(2,3) by simp

theorem charge_copy_same_balance_witness:
  "\<exists>k ec' n'. accountingGetIDFromEventCost tmx_gen NewBareEventCost tmx_ec ''A'' 0 = Inr (k, ec', n') \<and>
     (\<exists>bc bc'. gget (ecAccounting tmx_ec) ''A'' = Some bc \<and> gget (ecAccounting ec') k = Some bc' \<and>
       bcAccountID bc' = bcAccountID bc \<and> bcBalanceUUID bc' = bcBalanceUUID bc \<and> bcUnits bc' = bcUnits bc)"
proof -
  have "resolves (Suc (length (ecAccounting tmx_ec))) tmx_ec ''A''" by code_simp
  then obtain k ec' n' where a: "accountingGetIDFromEventCost tmx_gen NewBareEventCost tmx_ec ''A'' 0 = Inr (k, ec', n')"
    unfolding accountingGetIDFromEventCost_def using accounting_id_returns by blast
  have "gmap_ok (ecAccounting NewBareEventCost)" by (simp add: NewBareEventCost_def)
  from charge_copy_same_balance [OF a _ _ this] a show ?thesis by (simp add: META_NONE_def)
qed

text \<open>An interval that equals the last one of the charges is merged into it as one copy, whatever its compress factor is.\<close>

definition tmx_two :: ec_heap where
  "tmx_two = tmx_heap\<lparr>hpIl := hpIl tmx_heap @ hpIl tmx_heap\<rparr>"

lemma merge_loses_copies:
  "case EventCost_Merge tmx_gen tmx_ec [tmx_ec\<lparr>ecCharges := [1]\<rparr>] tmx_two of
     Inl e \<Rightarrow> False
   | Inr (ec', h') \<Rightarrow> usage_sum (units_of tmx_two tmx_ec) = 70 \<and> usage_sum (units_of tmx_two (tmx_ec\<lparr>ecCharges := [1]\<rparr>)) = 70 \<and> usage_sum (units_of h' ec') = 105"
  by code_simp

end
