(* ===== verification/Spec2Isabelle.thy ===== *)
theory Spec2Isabelle
  imports Resources Stat_Queue Thresholds Cost_Laws Unit_Debits Event_Cost_Props
begin

text \<open>
  A verification library for the CGRateS charging engine (Go, \<^verbatim>\<open>src/\<close>).

  \<^bold>\<open>The program.\<close> CGRateS rates and charges calls, data and messages. The core is package \<^verbatim>\<open>engine\<close>: a call descriptor
  (\<^verbatim>\<open>calldesc.go\<close>) is split into time spans (\<^verbatim>\<open>timespans.go\<close>) along the rating plans and rate intervals of its subject
  (\<^verbatim>\<open>ratingprofile.go\<close>, \<^verbatim>\<open>ratingplan.go\<close>, \<^verbatim>\<open>rateinterval.go\<close>), each span is priced and cut into increments, and the
  increments are debited from the balances of an account and of the shared groups it is a member of
  (\<^verbatim>\<open>account.go\<close>, \<^verbatim>\<open>balances.go\<close>,
  \<^verbatim>\<open>sharedgroup.go\<close>); what was charged is kept as an event cost
  (\<^verbatim>\<open>eventcost.go\<close>), from which it can be refunded. Debits count units, counters and balances fire
  triggers, triggers and plans run actions (\<^verbatim>\<open>units_counter.go\<close>,
  \<^verbatim>\<open>action_trigger.go\<close>, \<^verbatim>\<open>action.go\<close>,
  \<^verbatim>\<open>action_plan.go\<close>), and accounts send events to the services StatS
  (\<^verbatim>\<open>statmetrics.go\<close>, \<^verbatim>\<open>libstats.go\<close>), ThresholdS
  (\<^verbatim>\<open>thresholds.go\<close>) and, from sessions, ResourceS (\<^verbatim>\<open>resources.go\<close>). All
  of them run under the named locks of package \<^verbatim>\<open>guardian\<close> and use package
  \<^verbatim>\<open>utils\<close>.

  \<^bold>\<open>Theories, in the order they build on each other.\<close>
  \<^item> \<open>Prelude\<close>: errors as values, 64 bit integers with their wrap-around, instants and durations, Go maps as
    association lists, Go's sort, and the lemmas on them the other theories share.
  \<^item> \<open>Float64\<close>: IEEE binary64 with rounding to nearest even, as an exact rational or a special value; \<^verbatim>\<open>float64\<close> in the code.
  \<^item> \<open>Utils_Core\<close>, \<open>Utils_Event\<close>, \<open>Date_Series\<close>: package \<^verbatim>\<open>utils\<close> (\<^verbatim>\<open>coreutils.go\<close>, \<^verbatim>\<open>map.go\<close>, \<^verbatim>\<open>set.go\<close>, \<^verbatim>\<open>slice.go\<close>;
    \<^verbatim>\<open>reflect.go\<close>, \<^verbatim>\<open>cgrevent.go\<close>, \<^verbatim>\<open>struct.go\<close>; \<^verbatim>\<open>dateseries.go\<close>) with the proleptic Gregorian calendar of package \<^verbatim>\<open>time\<close>.
  \<^item> \<open>Guardian\<close>: \<^verbatim>\<open>guardian.go\<close> as a transition system of any number of callers, one step per atomic section.
  \<^item> \<open>Service_Common\<close>, \<open>Resources\<close>, \<open>Thresholds\<close>: the two services with their state, handlers and backups, and the part
    of \<^verbatim>\<open>datamanager.go\<close> they use; thresholds are objects of a heap because the cache and the handlers share them.
    Actions a profile starts asynchronously are a multiset of pending runs, which later steps run in any order.
  \<^item> \<open>Stat_Metrics\<close>, \<open>Stat_Laws\<close>, \<open>Stat_Queue\<close>: the ten metrics behind one interface, the laws of the interface (locales,
    interpreted on every metric), the queue that feeds them.
  \<^item> \<open>Rate_Interval\<close>, \<open>Time_Spans\<close>, \<open>Rating_Plans\<close>, \<open>Rating\<close>: rating, in the order of the files named above; \<open>Rating\<close> holds
    \<^verbatim>\<open>calldesc.go\<close> and \<^verbatim>\<open>callcost.go\<close> up to \<^verbatim>\<open>GetCost\<close>. \<open>Span_Laws\<close> (a locale for the functions that split spans),
    \<open>Increment_Laws\<close>, \<open>Rating_Laws\<close> and \<open>Cost_Laws\<close> hold their laws.
  \<^item> \<open>Balances\<close>, \<open>Unit_Counters\<close>, \<open>Accounts\<close>, \<open>Account_Actions\<close>, \<open>Debit\<close>: accounting. Accounts and balances are objects of
    the record \<open>world\<close> (a pointer is a position), the data base holds them by value, and an operation is a function of
    the world that may also not end (\<open>None\<close>) or panic (\<open>Inl\<close>). \<open>Debit\<close> ends with the operations of \<^verbatim>\<open>calldesc.go\<close>
    over accounts: \<^verbatim>\<open>GetMaxSessionDuration\<close>, \<^verbatim>\<open>Debit\<close>, \<^verbatim>\<open>MaxDebit\<close>, \<^verbatim>\<open>RefundIncrements\<close>, \<^verbatim>\<open>RefundRounding\<close>.
  \<^item> \<open>Debit_Laws\<close>, \<open>Store_Laws\<close>, \<open>Debit_Props\<close>: relations between the worlds before and after an operation. Four locales,
    each extending the one before, lift a relation over the combinators (\<open>world_rel\<close>), over everything that does not
    store (\<open>acc_rel\<close>), over what stores and leaves the flags of running triggers alone (\<open>store_rel\<close>) and over every
    operation of the API (\<open>trig_rel\<close>). They are interpreted on \<open>same_db\<close> (nothing stored changes), on \<open>flag_kept\<close> (the guard of
    \<^verbatim>\<open>ExecuteActionTriggers\<close> stays set while it runs, so nested triggers stop at once), on \<open>rows_kept\<close>, and on the trivial
    relation to show that operations end.
  \<^item> \<open>Unit_Debits\<close>: debits and refunds of free units, to the second.
  \<^item> \<open>Event_Cost\<close>: the cost of an event as it is stored (\<^verbatim>\<open>eventcost.go\<close>, \<^verbatim>\<open>libeventcost.go\<close>). Its intervals and increments are
    objects of a heap, because trimming and merging share them. \<open>Event_Cost_Laws\<close> (frame lemmas and the sums the caches
    stand for), \<open>Trim_Steps\<close> and \<open>Trim_Laws\<close> show that \<^verbatim>\<open>Trim\<close> parts the list of units of usage and cost, and where it
    breaks references; \<open>Event_Cost_Props\<close> has the conversion from a \<open>CallCost\<close> and back, refunds, and the interface of the
    five tables (locale \<open>id_table\<close>, interpreted on each).

  \<^bold>\<open>Bounds and loops.\<close> Durations and instants wrap at 64 bits where the code's do. Loops are structural or have a measure;
  the loops that need not end (the splits of a call, the passes over balances, triggers and actions that call each
  other) are \<^verbatim>\<open>partial_function\<close>s whose value
  \<open>None\<close> means that they run forever, and where a theorem says that a call is rated it says that there is a value. The
  maximum depth of fallback subjects is the constant of the code. The chain of extra charges of an event cost is followed for
  one step more than its table has entries: a longer chain is a cycle, on which the code overflows the stack. There is no
  other fuel.

  \<^bold>\<open>What is a parameter.\<close> Code outside \<^verbatim>\<open>src/\<close> and the parts of it that are I/O are arguments: the filters of package
  \<^verbatim>\<open>engine\<close>, parsing and printing of Go's library (\<open>golib\<close>), the marshaler, connections to other engines, random
  permutations, generated ids, the clock. Writing an account to the data base does not fail.

  \<^bold>\<open>Not modelled.\<close> The front ends (\<^verbatim>\<open>agents\<close>, \<^verbatim>\<open>apier\<close>, \<^verbatim>\<open>console\<close>, \<^verbatim>\<open>cmd\<close>), configuration, start-up and supervision, the
  drivers of the data bases and the import of tariff plans: I/O and field by field conversion. \<^verbatim>\<open>sessions\<close>, \<^verbatim>\<open>ers\<close>,
  \<^verbatim>\<open>scheduler\<close> and \<^verbatim>\<open>dispatchers\<close> are concurrent clients of the modelled operations, driven by timers and connections. Of the
  event cost, \<^verbatim>\<open>SyncKeys\<close>, which renames table ids after another event cost, the access by field path and JSON are left out.
\<close>

end
